(* ===== verification/Prelude.thy ===== *)
theory Prelude
  imports Complex_Main "HOL-Library.AList" "HOL-Library.Word"
begin

text \<open>
  Shared vocabulary of the development: Rust strings as lists of Unicode scalar values with their
  UTF-8 byte lengths, the saturating and wrapping integer operations the sources use, IEEE values as
  an explicit datatype, hash maps as association lists with distinct keys, results as sums, and the
  generic lemmas on lists, options and maps that the component theories share.
  The collection \<open>broker_simps\<close> and its siblings hold the equations with which the component
  proofs unfold their operations.
\<close>

named_theorems str_simps \<open>equations on Rust strings and their byte lengths\<close>
named_theorems arith64_simps \<open>equations of the saturating and wrapping operations\<close>
named_theorems broker_simps \<open>operations of the resource broker\<close>
named_theorems lane_simps \<open>operations of the turn lanes\<close>

section \<open>Results\<close>

text \<open>A Rust \<open>Result<T, E>\<close> is a sum: \<open>Inl\<close> the error, \<open>Inr\<close> the value.\<close>

type_synonym ('e, 'a) result = "'e + 'a"

definition bind_result :: "('e, 'a) result \<Rightarrow> ('a \<Rightarrow> ('e, 'b) result) \<Rightarrow> ('e, 'b) result" where
  "bind_result r f = (case r of Inl e \<Rightarrow> Inl e | Inr x \<Rightarrow> f x)"

lemma bind_result_simps [simp]:
  "bind_result (Inl e) f = Inl e"
  "bind_result (Inr x) f = f x"
  by (simp_all add: bind_result_def)

lemma bind_result_Inr_iff:
  "bind_result r f = Inr y \<longleftrightarrow> (\<exists>x. r = Inr x \<and> f x = Inr y)"
  by (cases r) auto

definition map_err :: "('e \<Rightarrow> 'f) \<Rightarrow> ('e, 'a) result \<Rightarrow> ('f, 'a) result" where
  "map_err f r = (case r of Inl e \<Rightarrow> Inl (f e) | Inr x \<Rightarrow> Inr x)"

lemma map_err_Inr_iff [simp]: "map_err f r = Inr x \<longleftrightarrow> r = Inr x"
  by (cases r) (simp_all add: map_err_def)

section \<open>Integers\<close>

text \<open>
  An unsigned 64-bit quantity is a \<open>nat\<close>; the operations below write out what the machine does at
  the upper end: \<open>saturating_add\<close> clips, \<open>saturating_sub\<close> is subtraction on \<open>nat\<close>, and an
  unchecked increment wraps (the release profile leaves the overflow checks off).
\<close>

definition u64_max :: nat where
  "u64_max = 2 ^ 64 - 1"

definition sat_add :: "nat \<Rightarrow> nat \<Rightarrow> nat" where
  "sat_add a b = min u64_max (a + b)"

abbreviation (input) sat_sub :: "nat \<Rightarrow> nat \<Rightarrow> nat" where
  "sat_sub a b \<equiv> a - b"

definition u32_max :: nat where
  "u32_max = 2 ^ 32 - 1"

definition sat_add32 :: "nat \<Rightarrow> nat \<Rightarrow> nat" where
  "sat_add32 a b = min u32_max (a + b)"

definition wrap_inc32 :: "nat \<Rightarrow> nat" where
  "wrap_inc32 n = (n + 1) mod 2 ^ 32"

definition wrap_inc64 :: "nat \<Rightarrow> nat" where
  "wrap_inc64 n = (n + 1) mod 2 ^ 64"

lemma sat_add_le_max [simp]: "sat_add a b \<le> u64_max"
  by (simp add: sat_add_def)

lemma sat_add_exact [arith64_simps]: "a + b \<le> u64_max \<Longrightarrow> sat_add a b = a + b"
  by (simp add: sat_add_def)

lemma sat_add_0 [simp]: "a \<le> u64_max \<Longrightarrow> sat_add a 0 = a" "b \<le> u64_max \<Longrightarrow> sat_add 0 b = b"
  by (simp_all add: sat_add_def)

lemma sat_add_mono: "a \<le> a' \<Longrightarrow> b \<le> b' \<Longrightarrow> sat_add a b \<le> sat_add a' b'"
  by (auto simp: sat_add_def)

lemma sat_add_assoc: "sat_add (sat_add a b) c = sat_add a (sat_add b c)"
  by (auto simp: sat_add_def min_def)

lemma sat_add_commute: "sat_add a b = sat_add b a"
  by (simp add: sat_add_def add.commute)

lemma sat_add_left_commute: "sat_add a (sat_add b c) = sat_add b (sat_add a c)"
  by (metis sat_add_assoc sat_add_commute)

lemmas sat_add_ac = sat_add_assoc sat_add_commute sat_add_left_commute

lemma sat_add_diff_le: "sat_add a b - c \<le> sat_add (a - c) b"
  by (auto simp: sat_add_def)

text \<open>A saturated sum below the maximum is the exact sum: comparisons against a ceiling that is
  itself a \<open>u64\<close> below the maximum never see a clipped value.\<close>

lemma sat_add_less_max_iff: "c < u64_max \<Longrightarrow> sat_add a b \<le> c \<longleftrightarrow> a + b \<le> c"
  by (auto simp: sat_add_def min_le_iff_disj)

lemma wrap_inc32_exact [arith64_simps]: "n + 1 < 2 ^ 32 \<Longrightarrow> wrap_inc32 n = n + 1"
  by (simp add: wrap_inc32_def)

lemma wrap_inc64_exact [arith64_simps]: "n + 1 < 2 ^ 64 \<Longrightarrow> wrap_inc64 n = n + 1"
  by (simp add: wrap_inc64_def)

lemma wrap_inc32_less [simp]: "wrap_inc32 n < 2 ^ 32"
  by (simp add: wrap_inc32_def)

section \<open>IEEE values\<close>

text \<open>A finite float denotes a rational number; the range tests of the sources reject the others.\<close>

datatype fp = NaN | PosInf | NegInf | Fin rat

fun fp_is_finite :: "fp \<Rightarrow> bool" where
  "fp_is_finite (Fin _) = True"
| "fp_is_finite _ = False"

fun fp_in_range :: "rat \<Rightarrow> rat \<Rightarrow> fp \<Rightarrow> bool" where
  "fp_in_range lo hi (Fin x) = (lo \<le> x \<and> x \<le> hi)"
| "fp_in_range lo hi _ = False"

lemma fp_in_range_iff: "fp_in_range lo hi x \<longleftrightarrow> (\<exists>q. x = Fin q \<and> lo \<le> q \<and> q \<le> hi)"
  by (cases x) auto

lemma fp_in_range_finite: "fp_in_range lo hi x \<Longrightarrow> fp_is_finite x"
  by (cases x) auto

section \<open>Rounding to a binary format\<close>

definition round_half_even :: "rat \<Rightarrow> int" where
  "round_half_even x =
     (let f = \<lfloor>x\<rfloor>; d = x - of_int f in
      if d < 1 / 2 then f else if d > 1 / 2 then f + 1 else if even f then f else f + 1)"

definition pow2 :: "int \<Rightarrow> rat" where
  "pow2 k = (if 0 \<le> k then 2 ^ nat k else 1 / 2 ^ nat (- k))"

text \<open>The number of binary digits, and the binary exponent of a positive rational: \<open>2^k \<le> x < 2^(k+1)\<close>.\<close>

function bits :: "int \<Rightarrow> int" where
  "bits n = (if n \<le> 0 then 0 else 1 + bits (n div 2))"
  by auto
termination by (relation "measure nat") auto

declare bits.simps [simp del]

definition rat_exponent :: "rat \<Rightarrow> int" where
  "rat_exponent x = (let (p, q) = quotient_of x; k = bits p - bits q in if pow2 k \<le> x then k else k - 1)"

section \<open>Strings\<close>

text \<open>
  A Rust \<open>String\<close> is a sequence of Unicode scalar values stored as UTF-8; \<open>len()\<close> counts bytes.
\<close>

type_synonym uchar = nat
type_synonym rstr = "uchar list"

definition lit :: "string \<Rightarrow> rstr" where
  "lit s = map of_char s"

lemma lit_eq_iff [simp]: "lit s = lit t \<longleftrightarrow> s = t"
  unfolding lit_def by (rule inj_map_eq_map) (auto intro: inj_onI)

definition len_utf8 :: "uchar \<Rightarrow> nat" where
  "len_utf8 c = (if c < 128 then 1 else if c < 2048 then 2 else if c < 65536 then 3 else 4)"

definition blen :: "rstr \<Rightarrow> nat" where
  "blen s = sum_list (map len_utf8 s)"

text \<open>The Unicode \<open>White_Space\<close> property, which \<open>char::is_whitespace\<close> tests.\<close>

definition is_whitespace :: "uchar \<Rightarrow> bool" where
  "is_whitespace c \<longleftrightarrow>
     (9 \<le> c \<and> c \<le> 13) \<or> c = 32 \<or> c = 133 \<or> c = 160 \<or> c = 5760 \<or> (8192 \<le> c \<and> c \<le> 8202)
     \<or> c = 8232 \<or> c = 8233 \<or> c = 8239 \<or> c = 8287 \<or> c = 12288"

definition trim_start :: "rstr \<Rightarrow> rstr" where
  "trim_start s = dropWhile is_whitespace s"

definition trim_end :: "rstr \<Rightarrow> rstr" where
  "trim_end s = rev (dropWhile is_whitespace (rev s))"

definition trim :: "rstr \<Rightarrow> rstr" where
  "trim s = trim_end (trim_start s)"

definition is_blank :: "rstr \<Rightarrow> bool" where
  "is_blank s \<longleftrightarrow> trim s = []"

lemma len_utf8_pos [simp]: "0 < len_utf8 c"
  by (simp add: len_utf8_def)

lemma blen_simps [simp, str_simps]:
  "blen [] = 0" "blen (c # s) = len_utf8 c + blen s" "blen (s @ t) = blen s + blen t"
  by (simp_all add: blen_def)

lemma blen_eq_0_iff [simp]: "blen s = 0 \<longleftrightarrow> s = []"
  using len_utf8_pos by (cases s) auto

lemma blen_pos_iff [simp]: "0 < blen s \<longleftrightarrow> s \<noteq> []"
  by (metis blen_eq_0_iff gr0I less_numeral_extra(3))

lemma length_le_blen: "length s \<le> blen s"
proof (induction s)
  case (Cons c s)
  have "1 \<le> len_utf8 c" by (simp add: len_utf8_def)
  with Cons show ?case by (simp del: len_utf8_pos)
qed simp

lemma trim_end_eq_Nil_iff: "trim_end s = [] \<longleftrightarrow> (\<forall>c\<in>set s. is_whitespace c)"
  by (simp add: trim_end_def dropWhile_eq_Nil_conv)

lemma is_blank_iff: "is_blank s \<longleftrightarrow> (\<forall>c\<in>set s. is_whitespace c)"
proof
  assume "is_blank s"
  then have "\<forall>c\<in>set (trim_start s). is_whitespace c"
    by (simp add: is_blank_def trim_def trim_end_eq_Nil_iff)
  then show "\<forall>c\<in>set s. is_whitespace c"
    by (metis (no_types) trim_start_def dropWhile_eq_Nil_conv hd_dropWhile hd_in_set)
next
  assume "\<forall>c\<in>set s. is_whitespace c"
  then show "is_blank s"
    by (auto simp: is_blank_def trim_def trim_end_eq_Nil_iff trim_start_def dest: set_dropWhileD)
qed

lemma is_blank_code [code]: "is_blank s = list_all is_whitespace s"
  by (simp add: is_blank_iff list_all_iff)

lemma trim_end_append_ws:
  obtains w where "s = trim_end s @ w" "\<forall>c\<in>set w. is_whitespace c"
proof
  have "rev s = takeWhile is_whitespace (rev s) @ dropWhile is_whitespace (rev s)" by simp
  then have "rev (rev s) = rev (dropWhile is_whitespace (rev s)) @ rev (takeWhile is_whitespace (rev s))"
    by (metis rev_append)
  then show "s = trim_end s @ rev (takeWhile is_whitespace (rev s))"
    by (simp add: trim_end_def)
  show "\<forall>c\<in>set (rev (takeWhile is_whitespace (rev s))). is_whitespace c"
    by (auto dest: set_takeWhileD)
qed

text \<open>The byte tests of the sources, on code points: every byte of a character beyond ASCII fails them.\<close>

definition is_ascii_digit :: "uchar \<Rightarrow> bool" where
  "is_ascii_digit c \<longleftrightarrow> 48 \<le> c \<and> c \<le> 57"

definition is_ascii_alphabetic :: "uchar \<Rightarrow> bool" where
  "is_ascii_alphabetic c \<longleftrightarrow> (65 \<le> c \<and> c \<le> 90) \<or> (97 \<le> c \<and> c \<le> 122)"

definition is_ascii_alphanumeric :: "uchar \<Rightarrow> bool" where
  "is_ascii_alphanumeric c \<longleftrightarrow> is_ascii_digit c \<or> 65 \<le> c \<and> c \<le> 90 \<or> 97 \<le> c \<and> c \<le> 122"

definition is_ascii_hexdigit :: "uchar \<Rightarrow> bool" where
  "is_ascii_hexdigit c \<longleftrightarrow> is_ascii_digit c \<or> 65 \<le> c \<and> c \<le> 70 \<or> 97 \<le> c \<and> c \<le> 102"

definition to_ascii_lowercase :: "rstr \<Rightarrow> rstr" where
  "to_ascii_lowercase s = map (\<lambda>c. if 65 \<le> c \<and> c \<le> 90 then c + 32 else c) s"

text \<open>\<open>char::is_control\<close>, the Unicode category Cc.\<close>

definition is_control :: "uchar \<Rightarrow> bool" where
  "is_control c \<longleftrightarrow> c < 32 \<or> (127 \<le> c \<and> c < 160)"

section \<open>Decimal numerals\<close>

text \<open>The \<open>Display\<close> rendering of an unsigned integer.\<close>

fun dec :: "nat \<Rightarrow> rstr" where
  "dec n = (if n < 10 then [48 + n] else dec (n div 10) @ [48 + n mod 10])"

declare dec.simps [simp del]

lemma dec_not_Nil [simp]: "dec n \<noteq> []" "[] \<noteq> dec n"
  by (subst dec.simps; simp)+

lemma dec_digits: "c \<in> set (dec n) \<Longrightarrow> 48 \<le> c \<and> c \<le> 57"
proof (induction n rule: dec.induct)
  case (1 n)
  show ?case
  proof (cases "n < 10")
    case True
    with "1.prems" show ?thesis by (subst (asm) dec.simps) simp
  next
    case False
    from "1.prems" False have "c \<in> set (dec (n div 10)) \<or> c = 48 + n mod 10"
      by (subst (asm) dec.simps) auto
    moreover have "n mod 10 < 10" by simp
    ultimately show ?thesis using "1.IH" False by auto
  qed
qed

lemma dec_inj: "dec m = dec n \<Longrightarrow> m = n"
proof (induction m arbitrary: n rule: dec.induct)
  case (1 m)
  have un: "dec k = (if k < 10 then [48 + k] else dec (k div 10) @ [48 + k mod 10])" for k
    by (rule dec.simps)
  show ?case
  proof (cases "m < 10")
    case True
    then have "n < 10" using "1.prems" un [of m] un [of n] by (auto split: if_splits)
    with True show ?thesis using "1.prems" un [of m] un [of n] by simp
  next
    case False
    then have n: "\<not> n < 10" using "1.prems" un [of m] un [of n] by (auto split: if_splits)
    then have "dec (m div 10) = dec (n div 10)" "m mod 10 = n mod 10"
      using False "1.prems" un [of m] un [of n] by auto
    then have "m div 10 = n div 10" using "1.IH" False by blast
    with \<open>m mod 10 = n mod 10\<close> show ?thesis by (metis div_mult_mod_eq)
  qed
qed

section \<open>Hash maps\<close>

text \<open>
  A \<open>HashMap\<close> is an association list with distinct keys. Look-up, insertion and removal are those of
  the library; iteration visits the entries in list order, one of the orders the hash map may choose.
\<close>

type_synonym ('k, 'v) hmap = "('k \<times> 'v) list"

abbreviation hm_get :: "('k, 'v) hmap \<Rightarrow> 'k \<Rightarrow> 'v option" where
  "hm_get \<equiv> map_of"

abbreviation hm_insert :: "'k \<Rightarrow> 'v \<Rightarrow> ('k, 'v) hmap \<Rightarrow> ('k, 'v) hmap" where
  "hm_insert \<equiv> AList.update"

abbreviation hm_remove :: "'k \<Rightarrow> ('k, 'v) hmap \<Rightarrow> ('k, 'v) hmap" where
  "hm_remove \<equiv> AList.delete"

abbreviation hm_wf :: "('k, 'v) hmap \<Rightarrow> bool" where
  "hm_wf m \<equiv> distinct (map fst m)"

lemma hm_get_insert [simp]: "hm_get (hm_insert k v m) k' = (if k' = k then Some v else hm_get m k')"
  by (simp add: update_conv')

lemma hm_get_remove [simp]: "hm_get (hm_remove k m) k' = (if k' = k then None else hm_get m k')"
  by (simp add: delete_conv')

lemma hm_wf_insert [simp]: "hm_wf m \<Longrightarrow> hm_wf (hm_insert k v m)"
  by (rule distinct_update)

lemma hm_wf_remove [simp]: "hm_wf m \<Longrightarrow> hm_wf (hm_remove k m)"
  by (rule distinct_delete)

text \<open>Sums over the values of a map, before and after an insertion or a removal.\<close>

definition hm_sum :: "('v \<Rightarrow> nat) \<Rightarrow> ('k, 'v) hmap \<Rightarrow> nat" where
  "hm_sum f m = sum_list (map (f \<circ> snd) m)"

lemma hm_sum_simps [simp]: "hm_sum f [] = 0" "hm_sum f ((k, v) # m) = f v + hm_sum f m"
  by (simp_all add: hm_sum_def)

lemma hm_sum_insert_new: "hm_get m k = None \<Longrightarrow> hm_sum f (hm_insert k v m) = hm_sum f m + f v"
  by (induction m) (auto split: if_splits)

lemma hm_remove_absent: "hm_get m k = None \<Longrightarrow> hm_remove k m = m"
  by (induction m) (auto split: if_splits)

lemma hm_remove_insert_new: "hm_get m k = None \<Longrightarrow> hm_remove k (hm_insert k v m) = m"
  by (induction m) (auto split: if_splits)

lemma hm_sum_remove:
  "hm_wf m \<Longrightarrow> hm_get m k = Some v \<Longrightarrow> hm_sum f m = hm_sum f (hm_remove k m) + f v"
proof (induction m)
  case (Cons e m)
  obtain k1 v1 where e: "e = (k1, v1)" by (cases e)
  show ?case
  proof (cases "k1 = k")
    case True
    with Cons.prems e have "hm_get m k = None" by (auto simp: map_of_eq_None_iff)
    with True Cons.prems e show ?thesis by (simp add: hm_remove_absent)
  next
    case False
    with Cons e show ?thesis by auto
  qed
qed simp

lemma hm_sum_replace:
  assumes "hm_wf m" "hm_get m k = Some v"
  shows "hm_sum f (hm_insert k v' m) + f v = hm_sum f m + f v'"
  using assms
proof (induction m)
  case (Cons e m)
  obtain k1 v1 where e: "e = (k1, v1)" by (cases e)
  with Cons show ?case by (cases "k1 = k") auto
qed simp

lemma hm_sum_ge: "hm_get m k = Some v \<Longrightarrow> f v \<le> hm_sum f m"
  by (induction m) (auto split: if_splits intro: le_add2 order_trans)

lemma hm_sum_cong: "(\<And>k v. (k, v) \<in> set m \<Longrightarrow> f v = g v) \<Longrightarrow> hm_sum f m = hm_sum g m"
  unfolding hm_sum_def by (rule arg_cong [where f = sum_list]) auto

section \<open>Bounded logs\<close>

text \<open>The push used by the diagnostic ring buffers: at capacity, the oldest entry goes first.\<close>

definition ring_push :: "nat \<Rightarrow> 'a \<Rightarrow> 'a list \<Rightarrow> 'a list" where
  "ring_push cap x q = (if length q = cap then tl q else q) @ [x]"

lemma ring_push_length: "0 < cap \<Longrightarrow> length q \<le> cap \<Longrightarrow> length (ring_push cap x q) \<le> cap"
  by (auto simp: ring_push_def)

lemma last_ring_push [simp]: "last (ring_push cap x q) = x"
  by (simp add: ring_push_def)

lemma ring_push_not_Nil [simp]: "ring_push cap x q \<noteq> []"
  by (simp add: ring_push_def)

end
