(* ===== verification/Sentence_Segmenter.thy ===== *)
theory Sentence_Segmenter
  imports Prelude "HOL-Library.Sublist"
begin

text \<open>
  Streaming sentence segmentation, \<open>crates/runtime-core/src/sentence.rs\<close>. Positions are UTF-8 byte
  offsets, as in the source; a slice at a byte offset is \<open>str_from\<close> or \<open>str_upto\<close>. The splitting
  loop \<open>extract\<close> (here \<open>extract_spans\<close>) returns \<open>None\<close> where the source panics: on a split inside a character, and on the
  slice \<open>raw_sentence[leading..trimmed_end]\<close> when its bounds are out of order.
\<close>

section \<open>Definitions\<close>

record segmenter_config =
  sg_min_sentence_chars :: nat
  sg_soft_boundary_chars :: nat
  sg_hard_limit_chars :: nat
  sg_abbreviations :: "rstr list"

definition default_segmenter_config :: segmenter_config where
  "default_segmenter_config =
     \<lparr>sg_min_sentence_chars = 18, sg_soft_boundary_chars = 96, sg_hard_limit_chars = 220,
      sg_abbreviations = map lit [''mr.'', ''mrs.'', ''ms.'', ''dr.'', ''prof.'', ''sr.'', ''jr.'',
        ''st.'', ''vs.'', ''e.g.'', ''i.e.'', ''etc.'', ''u.s.'']\<rparr>"

record segmenter =
  sg_config :: segmenter_config
  sg_buffer :: rstr
  sg_buffer_source_start :: nat
  sg_next_sentence_id :: nat

record sentence_span =
  ss_sentence_id :: nat
  ss_text_start_bytes :: nat
  ss_text_end_bytes :: nat
  ss_text :: rstr

text \<open>The assertions of \<open>SentenceSegmenter::new\<close>.\<close>

definition segmenter_config_ok :: "segmenter_config \<Rightarrow> bool" where
  "segmenter_config_ok c \<longleftrightarrow> 0 < sg_min_sentence_chars c
     \<and> sg_min_sentence_chars c \<le> sg_soft_boundary_chars c
     \<and> sg_soft_boundary_chars c \<le> sg_hard_limit_chars c"

definition new_segmenter :: "segmenter_config \<Rightarrow> segmenter option" where
  "new_segmenter c =
     (if segmenter_config_ok c
      then Some \<lparr>sg_config = c, sg_buffer = [], sg_buffer_source_start = 0, sg_next_sentence_id = 1\<rparr>
      else None)"

text \<open>\<open>&s[n..]\<close> and \<open>&s[..n]\<close> at a character boundary \<open>n\<close>.\<close>

fun str_from :: "rstr \<Rightarrow> nat \<Rightarrow> rstr" where
  "str_from s 0 = s"
| "str_from [] n = []"
| "str_from (c # s) n = str_from s (n - len_utf8 c)"

definition str_upto :: "rstr \<Rightarrow> nat \<Rightarrow> rstr" where
  "str_upto s n = take (length s - length (str_from s n)) s"

definition is_char_boundary :: "rstr \<Rightarrow> nat \<Rightarrow> bool" where
  "is_char_boundary s n \<longleftrightarrow> blen (str_upto s n) = n"

text \<open>\<open>String::split_off\<close>, which panics off a character boundary.\<close>

definition split_off :: "rstr \<Rightarrow> nat \<Rightarrow> (rstr \<times> rstr) option" where
  "split_off s n = (if is_char_boundary s n then Some (str_upto s n, str_from s n) else None)"

text \<open>\<open>&s[a..b]\<close>, which panics when \<open>b < a\<close> or off a boundary.\<close>

definition str_slice :: "rstr \<Rightarrow> nat \<Rightarrow> nat \<Rightarrow> rstr option" where
  "str_slice s a b =
     (if a \<le> b \<and> is_char_boundary s a \<and> is_char_boundary s b
      then Some (str_upto (str_from s a) (b - a)) else None)"

definition trim_matches :: "(uchar \<Rightarrow> bool) \<Rightarrow> rstr \<Rightarrow> rstr" where
  "trim_matches P s = rev (dropWhile P (rev (dropWhile P s)))"

text \<open>\<open>'"'\<close>, \<open>'\'\<close>\<open>'\<close>, \<open>')'\<close>, \<open>']'\<close>, \<open>'}'\<close>.\<close>

definition is_closer :: "uchar \<Rightarrow> bool" where
  "is_closer c \<longleftrightarrow> c \<in> {34, 39, 41, 93, 125}"

definition is_opener :: "uchar \<Rightarrow> bool" where
  "is_opener c \<longleftrightarrow> c \<in> {34, 39, 40, 91}"

text \<open>\<open>','\<close>, \<open>';'\<close>, \<open>':'\<close> and the em dash.\<close>

definition is_soft :: "uchar \<Rightarrow> bool" where
  "is_soft c \<longleftrightarrow> c \<in> {44, 59, 58, 8212}"

definition consume_whitespace :: "rstr \<Rightarrow> nat \<Rightarrow> nat" where
  "consume_whitespace buf e = e + blen (takeWhile is_whitespace (str_from buf e))"

fun terminal_scan :: "rstr \<Rightarrow> rstr \<Rightarrow> nat \<Rightarrow> nat option" where
  "terminal_scan buf [] e = None"
| "terminal_scan buf (ch # rest) e =
     (if is_closer ch then terminal_scan buf rest (e + len_utf8 ch)
      else if is_whitespace ch then Some (consume_whitespace buf e) else None)"

definition terminal_boundary :: "rstr \<Rightarrow> nat \<Rightarrow> nat option" where
  "terminal_boundary buf e = terminal_scan buf (str_from buf e) e"

text \<open>The end of the last whitespace character before \<open>e\<close>, or \<open>e\<close> itself.\<close>

definition best_word_boundary :: "rstr \<Rightarrow> nat \<Rightarrow> nat" where
  "best_word_boundary buf e =
     (case dropWhile (\<lambda>c. \<not> is_whitespace c) (rev (str_upto buf e)) of
        [] \<Rightarrow> e
      | r \<Rightarrow> blen (rev r))"

definition is_decimal :: "rstr \<Rightarrow> nat \<Rightarrow> uchar option \<Rightarrow> bool" where
  "is_decimal buf period_byte previous \<longleftrightarrow>
     (case previous of Some p \<Rightarrow> is_ascii_digit p | None \<Rightarrow> False)
     \<and> (case str_from buf (period_byte + 1) of c # _ \<Rightarrow> is_ascii_digit c | [] \<Rightarrow> False)"

definition is_abbreviation :: "segmenter_config \<Rightarrow> rstr \<Rightarrow> nat \<Rightarrow> bool" where
  "is_abbreviation cfg buf e =
     (let prefix = str_upto buf e;
          tail = rev (takeWhile (\<lambda>c. \<not> is_whitespace c) (rev prefix));
          token = to_ascii_lowercase (trim_matches is_opener tail)
      in token \<in> set (sg_abbreviations cfg)
         \<or> (blen token \<le> 3 \<and> token \<noteq> [] \<and> last token = 46 \<and> list_all is_ascii_alphabetic (butlast token)))"

text \<open>The tests the scan makes at the character \<open>ch\<close> that follows \<open>pre\<close>, in order; \<open>last_soft\<close> already
  accounts for \<open>ch\<close>.\<close>

definition scan_char ::
  "segmenter_config \<Rightarrow> rstr \<Rightarrow> rstr \<Rightarrow> uchar \<Rightarrow> nat option \<Rightarrow> uchar option \<Rightarrow> nat option" where
  "scan_char cfg buf pre ch last_soft previous =
     (let byte = blen pre;
          e = byte + len_utf8 ch;
          char_count = length pre + 1;
          b1 = (if ch \<in> {33, 63, 10} \<and> char_count \<ge> sg_min_sentence_chars cfg
                then (if ch = 10 then Some (consume_whitespace buf e) else terminal_boundary buf e)
                else None);
          b2 = (if ch = 46 \<and> char_count \<ge> sg_min_sentence_chars cfg
                   \<and> \<not> is_decimal buf byte previous \<and> \<not> is_abbreviation cfg buf e
                then terminal_boundary buf e else None)
      in case b1 of Some b \<Rightarrow> Some b | None \<Rightarrow>
        (case b2 of Some b \<Rightarrow> Some b | None \<Rightarrow>
           (case (if char_count \<ge> sg_soft_boundary_chars cfg then last_soft else None) of
              Some soft \<Rightarrow> Some (consume_whitespace buf soft)
            | None \<Rightarrow>
                if char_count \<ge> sg_hard_limit_chars cfg then Some (best_word_boundary buf e) else None)))"

text \<open>The scan over the buffer, split into what has been read and what has not.\<close>

fun scan ::
  "segmenter_config \<Rightarrow> rstr \<Rightarrow> rstr \<Rightarrow> rstr \<Rightarrow> nat option \<Rightarrow> uchar option \<Rightarrow> nat option" where
  "scan cfg buf pre [] last_soft previous = None"
| "scan cfg buf pre (ch # rest) last_soft previous =
     (let last_soft = (if is_soft ch then Some (blen pre + len_utf8 ch) else last_soft)
      in case scan_char cfg buf pre ch last_soft previous of
           Some b \<Rightarrow> Some b
         | None \<Rightarrow> scan cfg buf (pre @ [ch]) rest last_soft (Some ch))"

definition find_boundary :: "segmenter_config \<Rightarrow> rstr \<Rightarrow> bool \<Rightarrow> nat option" where
  "find_boundary cfg buf flush =
     (if flush then (if is_blank buf then None else Some (blen buf))
      else scan cfg buf [] buf None None)"

section \<open>Byte offsets\<close>

lemma str_from_pos: "0 < n \<Longrightarrow> str_from (c # s) n = str_from s (n - len_utf8 c)"
  by (cases n) auto

lemma str_from_append [simp, str_simps]: "str_from (a @ b) (blen a) = b"
  by (induction a) (simp_all add: str_from_pos)

lemma str_upto_append [simp, str_simps]: "str_upto (a @ b) (blen a) = a"
  by (simp add: str_upto_def)

lemma str_from_prefix [simp]: "str_from (a @ b @ c) (blen a + blen b) = c"
  using str_from_append [of "a @ b" c] by simp

lemma str_upto_prefix [simp]: "str_upto (a @ b @ c) (blen a + blen b) = a @ b"
  using str_upto_append [of "a @ b" c] by simp

lemma str_from_blen [simp]: "str_from s (blen s) = []"
  using str_from_append [of s "[]"] by simp

lemma str_upto_blen [simp]: "str_upto s (blen s) = s"
  using str_upto_append [of s "[]"] by simp

lemma split_off_append [simp, str_simps]: "split_off (a @ b) (blen a) = Some (a, b)"
  by (simp add: split_off_def is_char_boundary_def)

lemma str_from_suffix: "\<exists>a. s = a @ str_from s n"
proof (induction s n rule: str_from.induct)
  case (3 c s n)
  then obtain a where "s = a @ str_from s (Suc n - len_utf8 c)" by blast
  then have "c # s = (c # a) @ str_from (c # s) (Suc n)" by simp
  then show ?case by blast
qed simp_all

lemma split_off_SomeD:
  assumes "split_off s n = Some (a, b)"
  shows "s = a @ b \<and> n = blen a"
proof -
  obtain x where x: "s = x @ str_from s n" using str_from_suffix by blast
  then have "length s - length (str_from s n) = length x"
    by (metis add_diff_cancel_right' length_append)
  then have "str_upto s n = take (length x) s" by (simp add: str_upto_def)
  also have "\<dots> = x" using x by (metis append_eq_conv_conj)
  finally have "str_upto s n = x" .
  with x assms show ?thesis
    by (auto simp: split_off_def is_char_boundary_def split: if_splits)
qed

text \<open>A boundary that \<open>find_boundary\<close> may return: the byte length of a non-empty prefix.\<close>

definition boundary_of :: "rstr \<Rightarrow> nat \<Rightarrow> bool" where
  "boundary_of buf b \<longleftrightarrow> (\<exists>a c. buf = a @ c \<and> b = blen a \<and> a \<noteq> [])"

lemma boundary_ofI: "buf = a @ c \<Longrightarrow> a \<noteq> [] \<Longrightarrow> boundary_of buf (blen a)"
  by (auto simp: boundary_of_def)

lemma consume_whitespace_append:
  "consume_whitespace (a @ c) (blen a) = blen (a @ takeWhile is_whitespace c)"
  by (simp add: consume_whitespace_def)

lemma boundary_consume: "boundary_of buf b \<Longrightarrow> boundary_of buf (consume_whitespace buf b)"
proof -
  assume "boundary_of buf b"
  then obtain a c where "buf = a @ c" "b = blen a" "a \<noteq> []" by (auto simp: boundary_of_def)
  then show ?thesis
    using boundary_ofI [of buf "a @ takeWhile is_whitespace c" "dropWhile is_whitespace c"]
    by (simp add: consume_whitespace_append)
qed

lemma boundary_terminal_scan:
  "buf = a @ rest \<Longrightarrow> a \<noteq> [] \<Longrightarrow> e = blen a \<Longrightarrow> terminal_scan buf rest e = Some b \<Longrightarrow> boundary_of buf b"
proof (induction buf rest e arbitrary: a rule: terminal_scan.induct)
  case (2 buf ch rest e)
  show ?case
  proof (cases "is_closer ch")
    case True
    with 2 show ?thesis using "2.IH" [OF True, of "a @ [ch]"] by simp
  next
    case False
    with 2 have "b = consume_whitespace buf e" "boundary_of buf e"
      by (auto split: if_splits intro: boundary_ofI)
    then show ?thesis by (simp add: boundary_consume)
  qed
qed simp

lemma boundary_terminal:
  "buf = a @ c \<Longrightarrow> a \<noteq> [] \<Longrightarrow> terminal_boundary buf (blen a) = Some b \<Longrightarrow> boundary_of buf b"
  by (rule boundary_terminal_scan [of buf a c]) (auto simp: terminal_boundary_def)

lemma boundary_best_word:
  assumes "buf = a @ c" "a \<noteq> []"
  shows "boundary_of buf (best_word_boundary buf (blen a))"
proof (cases "dropWhile (\<lambda>c. \<not> is_whitespace c) (rev a)")
  case Nil
  then have "best_word_boundary buf (blen a) = blen a"
    by (simp only: best_word_boundary_def assms(1) str_upto_append list.case)
  with assms show ?thesis by (simp add: boundary_ofI)
next
  case (Cons x r)
  have "rev a = takeWhile (\<lambda>c. \<not> is_whitespace c) (rev a) @ x # r"
    by (metis Cons takeWhile_dropWhile_id)
  then have "a = rev (x # r) @ rev (takeWhile (\<lambda>c. \<not> is_whitespace c) (rev a))"
    by (metis rev_append rev_rev_ident)
  with assms have "buf = rev (x # r) @ rev (takeWhile (\<lambda>c. \<not> is_whitespace c) (rev a)) @ c"
    by simp
  then have "boundary_of buf (blen (rev (x # r)))" by (rule boundary_ofI) simp
  with assms Cons show ?thesis by (simp add: best_word_boundary_def)
qed

lemma scan_char_SomeD:
  assumes "scan_char cfg buf pre ch ls pv = Some b"
  obtains (newline) "ch = 10" "sg_min_sentence_chars cfg \<le> length pre + 1"
      "b = consume_whitespace buf (blen (pre @ [ch]))"
    | (terminal) "ch \<in> {33, 63, 46}" "terminal_boundary buf (blen (pre @ [ch])) = Some b"
    | (soft) s where "ls = Some s" "b = consume_whitespace buf s"
    | (hard) "sg_hard_limit_chars cfg \<le> length pre + 1" "b = best_word_boundary buf (blen (pre @ [ch]))"
  using assms by (auto simp: scan_char_def Let_def split: if_splits option.splits)

lemma boundary_scan_char:
  assumes buf: "buf = (pre @ [ch]) @ rest" and soft: "\<And>s. ls = Some s \<Longrightarrow> boundary_of buf s"
    and "scan_char cfg buf pre ch ls pv = Some b"
  shows "boundary_of buf b"
  using assms(3)
proof (cases rule: scan_char_SomeD)
  case newline
  then show ?thesis using boundary_consume [OF boundary_ofI [OF buf]] by simp
next
  case terminal
  then show ?thesis using boundary_terminal [OF buf] by simp
next
  case (soft s)
  then show ?thesis using boundary_consume [OF assms(2)] by simp
next
  case hard
  then show ?thesis using boundary_best_word [OF buf] by simp
qed

lemma boundary_scan:
  assumes "buf = pre @ rest" "\<And>s. ls = Some s \<Longrightarrow> boundary_of buf s"
    and "scan cfg buf pre rest ls pv = Some b"
  shows "boundary_of buf b"
  using assms
proof (induction cfg buf pre rest ls pv rule: scan.induct)
  case (2 cfg buf pre ch rest ls pv)
  define ls' where "ls' = (if is_soft ch then Some (blen pre + len_utf8 ch) else ls)"
  have buf: "buf = (pre @ [ch]) @ rest" using "2.prems"(1) by simp
  have soft: "boundary_of buf s" if "ls' = Some s" for s
    using that "2.prems"(2) boundary_ofI [OF buf] by (auto simp: ls'_def split: if_splits)
  show ?case
  proof (cases "scan_char cfg buf pre ch ls' pv")
    case (Some b')
    then have "b' = b" using "2.prems"(3) by (simp add: ls'_def [symmetric] Let_def)
    with Some show ?thesis using boundary_scan_char [OF buf soft] by blast
  next
    case None
    then have "scan cfg buf (pre @ [ch]) rest ls' (Some ch) = Some b"
      using "2.prems"(3) by (simp add: ls'_def [symmetric] Let_def)
    with None show ?thesis
      using "2.IH" [OF ls'_def None buf] soft by blast
  qed
qed simp

lemma find_boundary_boundary:
  assumes "find_boundary cfg buf flush = Some b"
  shows "boundary_of buf b"
proof (cases flush)
  case True
  with assms have "b = blen buf" "buf \<noteq> []"
    by (auto simp: find_boundary_def is_blank_iff split: if_splits)
  then show ?thesis using boundary_ofI [of buf buf "[]"] by simp
next
  case False
  with assms show ?thesis
    by (auto simp: find_boundary_def intro: boundary_scan [of buf "[]" buf None cfg None])
qed

section \<open>The extraction loop\<close>

lemma split_off_shorter:
  assumes "find_boundary cfg buf flush = Some b" "split_off buf b = Some (raw, rest)"
  shows "length rest < length buf"
proof -
  from find_boundary_boundary [OF assms(1)] obtain a c where "buf = a @ c" "b = blen a" "a \<noteq> []"
    by (auto simp: boundary_of_def)
  with assms(2) show ?thesis by auto
qed

text \<open>What one round of the loop does with the raw sentence before the boundary; \<open>None\<close> is the panic
  of the slice.\<close>

definition emit_raw :: "segmenter \<Rightarrow> rstr \<Rightarrow> (sentence_span list \<times> segmenter) option" where
  "emit_raw st raw =
     (let leading = blen raw - blen (trim_start raw);
          trimmed_end = blen (trim_end raw)
      in case str_slice raw leading trimmed_end of
           None \<Rightarrow> None
         | Some sentence \<Rightarrow>
             Some (if sentence \<noteq> []
                   then ([\<lparr>ss_sentence_id = sg_next_sentence_id st,
                           ss_text_start_bytes = sg_buffer_source_start st + leading,
                           ss_text_end_bytes = sg_buffer_source_start st + trimmed_end,
                           ss_text = sentence\<rparr>],
                         st\<lparr>sg_next_sentence_id := wrap_inc64 (sg_next_sentence_id st)\<rparr>)
                   else ([], st)))"

function extract_spans :: "bool \<Rightarrow> segmenter \<Rightarrow> (sentence_span list \<times> segmenter) option" where
  "extract_spans flush st =
     (case find_boundary (sg_config st) (sg_buffer st) flush of
        None \<Rightarrow> Some ([], st)
      | Some boundary \<Rightarrow>
          (case split_off (sg_buffer st) boundary of
             None \<Rightarrow> None
           | Some (raw, remainder) \<Rightarrow>
               (case emit_raw (st\<lparr>sg_buffer := remainder\<rparr>) raw of
                  None \<Rightarrow> None
                | Some (spans, st1) \<Rightarrow>
                    (let st2 = st\<lparr>sg_buffer := remainder,
                                  sg_next_sentence_id := sg_next_sentence_id st1,
                                  sg_buffer_source_start := sg_buffer_source_start st + boundary\<rparr>
                     in if is_blank remainder
                        then Some (spans, st2\<lparr>sg_buffer := [],
                               sg_buffer_source_start := sg_buffer_source_start st2 + blen remainder\<rparr>)
                        else (case extract_spans flush st2 of
                                None \<Rightarrow> None
                              | Some (later, st') \<Rightarrow> Some (spans @ later, st'))))))"
  by pat_completeness auto
termination
  by (relation "measure (\<lambda>(flush, st). length (sg_buffer st))") (auto dest: split_off_shorter)

declare extract_spans.simps [simp del]

definition push_spans :: "rstr \<Rightarrow> segmenter \<Rightarrow> (sentence_span list \<times> segmenter) option" where
  "push_spans delta st = extract_spans False (st\<lparr>sg_buffer := sg_buffer st @ delta\<rparr>)"

definition finish_spans :: "segmenter \<Rightarrow> (sentence_span list \<times> segmenter) option" where
  "finish_spans st = extract_spans True st"

definition pending_text :: "segmenter \<Rightarrow> rstr" where
  "pending_text st = sg_buffer st"

text \<open>\<open>push\<close> and \<open>finish\<close> keep only the texts.\<close>

definition push :: "rstr \<Rightarrow> segmenter \<Rightarrow> (rstr list \<times> segmenter) option" where
  "push delta st = map_option (\<lambda>(spans, st'). (map ss_text spans, st')) (push_spans delta st)"

definition finish :: "segmenter \<Rightarrow> (rstr list \<times> segmenter) option" where
  "finish st = map_option (\<lambda>(spans, st'). (map ss_text spans, st')) (finish_spans st)"

text \<open>A provider stream: its deltas pushed one after the other.\<close>

fun push_all :: "rstr list \<Rightarrow> segmenter \<Rightarrow> (sentence_span list \<times> segmenter) option" where
  "push_all [] st = Some ([], st)"
| "push_all (d # ds) st =
     (case push_spans d st of
        None \<Rightarrow> None
      | Some (spans, st1) \<Rightarrow>
          (case push_all ds st1 of None \<Rightarrow> None | Some (later, st') \<Rightarrow> Some (spans @ later, st')))"

section \<open>One round\<close>

lemma trim_start_append:
  obtains w where "s = w @ trim_start s" "\<forall>c\<in>set w. is_whitespace c"
  using that [of "takeWhile is_whitespace s"] by (auto simp: trim_start_def dest: set_takeWhileD)

lemma dropWhile_not_hd: "dropWhile P xs = y # ys \<Longrightarrow> \<not> P y"
  using hd_dropWhile [of P xs] by simp

text \<open>A raw segment that is not blank is its whitespace, its trimmed sentence and its whitespace.\<close>

lemma raw_decompose:
  assumes "\<not> is_blank raw"
  obtains w t v where "raw = w @ t @ v" "\<forall>c\<in>set w. is_whitespace c" "\<forall>c\<in>set v. is_whitespace c"
    "t \<noteq> []" "\<not> is_whitespace (hd t)" "\<not> is_whitespace (last t)"
    "trim_start raw = t @ v" "trim_end raw = w @ t"
proof -
  define w where "w = takeWhile is_whitespace raw"
  define u where "u = dropWhile is_whitespace raw"
  have u: "u \<noteq> []" using assms by (simp add: u_def is_blank_iff dropWhile_eq_Nil_conv)
  define v where "v = rev (takeWhile is_whitespace (rev u))"
  define t where "t = rev (dropWhile is_whitespace (rev u))"
  have raw: "raw = w @ u" by (simp add: w_def u_def)
  have uu: "u = t @ v"
    by (metis rev_append rev_rev_ident t_def takeWhile_dropWhile_id v_def)
  have wsp: "\<forall>c\<in>set w. is_whitespace c" by (auto simp: w_def dest: set_takeWhileD)
  have vsp: "\<forall>c\<in>set v. is_whitespace c" by (auto simp: v_def dest: set_takeWhileD)
  have hu: "\<not> is_whitespace (hd u)" using u by (simp add: u_def hd_dropWhile)
  have t: "t \<noteq> []"
  proof
    assume "t = []"
    then have "u = v" using uu by simp
    then have "is_whitespace (hd u)" using vsp u by (metis hd_in_set)
    with hu show False by simp
  qed
  have ht: "\<not> is_whitespace (hd t)" using hu uu t by simp
  have lt: "\<not> is_whitespace (last t)"
  proof -
    have "dropWhile is_whitespace (rev u) \<noteq> []" using t by (simp add: t_def)
    then have "\<not> is_whitespace (hd (dropWhile is_whitespace (rev u)))" by (rule hd_dropWhile)
    then show ?thesis using t by (simp add: t_def last_rev)
  qed
  have "trim_start raw = t @ v" using uu by (simp add: trim_start_def u_def)
  moreover have "trim_end raw = w @ t"
  proof -
    have "rev raw = rev v @ rev t @ rev w" by (simp add: raw uu)
    moreover have "dropWhile is_whitespace (rev v @ rev t @ rev w) = rev t @ rev w"
    proof -
      have "dropWhile is_whitespace (rev v @ rev t @ rev w) = dropWhile is_whitespace (rev t @ rev w)"
        using vsp by (intro dropWhile_append2) auto
      also have "\<dots> = rev t @ rev w"
        using lt t by (cases t rule: rev_cases) auto
      finally show ?thesis .
    qed
    ultimately show ?thesis by (simp add: trim_end_def)
  qed
  ultimately show thesis using that [of w t v] raw uu wsp vsp t ht lt by simp
qed

lemma emit_raw_nonblank:
  assumes "\<not> is_blank raw"
  shows "\<exists>w t v. raw = w @ t @ v \<and> (\<forall>c\<in>set w. is_whitespace c) \<and> (\<forall>c\<in>set v. is_whitespace c)
    \<and> t \<noteq> [] \<and> \<not> is_whitespace (hd t) \<and> \<not> is_whitespace (last t)
    \<and> emit_raw st raw = Some
        ([\<lparr>ss_sentence_id = sg_next_sentence_id st,
           ss_text_start_bytes = sg_buffer_source_start st + blen w,
           ss_text_end_bytes = sg_buffer_source_start st + blen w + blen t, ss_text = t\<rparr>],
         st\<lparr>sg_next_sentence_id := wrap_inc64 (sg_next_sentence_id st)\<rparr>)"
proof -
  from raw_decompose [OF assms] obtain w t v where d: "raw = w @ t @ v"
    "\<forall>c\<in>set w. is_whitespace c" "\<forall>c\<in>set v. is_whitespace c" "t \<noteq> []" "\<not> is_whitespace (hd t)"
    "\<not> is_whitespace (last t)" "trim_start raw = t @ v" "trim_end raw = w @ t" by metis
  have "str_slice raw (blen w) (blen w + blen t) = Some t"
    using d(1) by (simp add: str_slice_def is_char_boundary_def)
  then have "emit_raw st raw = Some
        ([\<lparr>ss_sentence_id = sg_next_sentence_id st,
           ss_text_start_bytes = sg_buffer_source_start st + blen w,
           ss_text_end_bytes = sg_buffer_source_start st + blen w + blen t, ss_text = t\<rparr>],
         st\<lparr>sg_next_sentence_id := wrap_inc64 (sg_next_sentence_id st)\<rparr>)"
    using d by (simp add: emit_raw_def Let_def add.assoc)
  with d show ?thesis by blast
qed

lemma emit_raw_blank: "is_blank raw \<Longrightarrow> raw \<noteq> [] \<Longrightarrow> emit_raw st raw = None"
proof -
  assume b: "is_blank raw" and ne: "raw \<noteq> []"
  from b have "trim_start raw = []" "trim_end raw = []"
    by (auto simp: is_blank_iff trim_start_def trim_end_def dropWhile_eq_Nil_conv)
  with ne show ?thesis by (simp add: emit_raw_def str_slice_def)
qed

section \<open>Induction over the rounds\<close>

text \<open>The span and the state after a round that splits \<open>w @ t @ v\<close> off the buffer, where \<open>t\<close> is the
  sentence and \<open>w\<close>, \<open>v\<close> the whitespace around it.\<close>

definition round_span :: "segmenter \<Rightarrow> rstr \<Rightarrow> rstr \<Rightarrow> sentence_span" where
  "round_span st w t = \<lparr>ss_sentence_id = sg_next_sentence_id st,
     ss_text_start_bytes = sg_buffer_source_start st + blen w,
     ss_text_end_bytes = sg_buffer_source_start st + blen w + blen t, ss_text = t\<rparr>"

definition round_state :: "segmenter \<Rightarrow> rstr \<Rightarrow> rstr \<Rightarrow> segmenter" where
  "round_state st raw remainder = st\<lparr>sg_buffer := remainder,
     sg_next_sentence_id := wrap_inc64 (sg_next_sentence_id st),
     sg_buffer_source_start := sg_buffer_source_start st + blen raw\<rparr>"

definition clear_state :: "segmenter \<Rightarrow> segmenter" where
  "clear_state st = st\<lparr>sg_buffer := [],
     sg_buffer_source_start := sg_buffer_source_start st + blen (sg_buffer st)\<rparr>"

definition good_round :: "segmenter \<Rightarrow> rstr \<Rightarrow> rstr \<Rightarrow> rstr \<Rightarrow> rstr \<Rightarrow> bool" where
  "good_round st w t v remainder \<longleftrightarrow> sg_buffer st = w @ t @ v @ remainder
     \<and> (\<forall>c\<in>set w. is_whitespace c) \<and> (\<forall>c\<in>set v. is_whitespace c)
     \<and> t \<noteq> [] \<and> \<not> is_whitespace (hd t) \<and> \<not> is_whitespace (last t)"

lemma extract_round:
  assumes "find_boundary (sg_config st) (sg_buffer st) flush = Some b"
  obtains (panic) "extract_spans flush st = None"
      "\<exists>raw remainder. sg_buffer st = raw @ remainder \<and> b = blen raw \<and> raw \<noteq> [] \<and> is_blank raw"
    | (round) w t v remainder where "good_round st w t v remainder" "b = blen (w @ t @ v)"
      "extract_spans flush st =
         (if is_blank remainder
          then Some ([round_span st w t], clear_state (round_state st (w @ t @ v) remainder))
          else map_option (\<lambda>(later, st'). (round_span st w t # later, st'))
                 (extract_spans flush (round_state st (w @ t @ v) remainder)))"
proof -
  from find_boundary_boundary [OF assms] obtain raw remainder where
    buf: "sg_buffer st = raw @ remainder" "b = blen raw" "raw \<noteq> []" by (auto simp: boundary_of_def)
  then have sp: "split_off (sg_buffer st) b = Some (raw, remainder)" by simp
  show thesis
  proof (cases "is_blank raw")
    case True
    have "extract_spans flush st = None"
      by (subst extract_spans.simps) (simp add: assms sp emit_raw_blank [OF True buf(3)])
    with True buf show thesis using panic by blast
  next
    case False
    from emit_raw_nonblank [OF False, of "st\<lparr>sg_buffer := remainder\<rparr>"] obtain w t v where
      d: "raw = w @ t @ v" "\<forall>c\<in>set w. is_whitespace c" "\<forall>c\<in>set v. is_whitespace c" "t \<noteq> []"
      "\<not> is_whitespace (hd t)" "\<not> is_whitespace (last t)"
      and e: "emit_raw (st\<lparr>sg_buffer := remainder\<rparr>) raw =
        Some ([round_span st w t], st\<lparr>sg_buffer := remainder,
          sg_next_sentence_id := wrap_inc64 (sg_next_sentence_id st)\<rparr>)"
      by (auto simp: round_span_def)
    have "extract_spans flush st =
         (if is_blank remainder
          then Some ([round_span st w t], clear_state (round_state st raw remainder))
          else map_option (\<lambda>(later, st'). (round_span st w t # later, st'))
                 (extract_spans flush (round_state st raw remainder)))"
      by (subst extract_spans.simps)
        (simp add: assms [unfolded buf(2)] sp [unfolded buf(2)] e Let_def clear_state_def round_state_def
          split: option.split)
    then show thesis using round [of w t v remainder] d buf by (simp add: good_round_def)
  qed
qed

lemma extract_induct [consumes 1, case_names stop last_round another_round]:
  assumes "extract_spans flush st = Some (spans, st')"
    and stop: "\<And>st. find_boundary (sg_config st) (sg_buffer st) flush = None \<Longrightarrow> P st [] st"
    and last: "\<And>st w t v remainder. good_round st w t v remainder \<Longrightarrow> is_blank remainder \<Longrightarrow>
      P st [round_span st w t] (clear_state (round_state st (w @ t @ v) remainder))"
    and another: "\<And>st w t v remainder later st'. good_round st w t v remainder \<Longrightarrow>
      P (round_state st (w @ t @ v) remainder) later st' \<Longrightarrow> P st (round_span st w t # later) st'"
  shows "P st spans st'"
  using assms(1)
proof (induction "length (sg_buffer st)" arbitrary: st spans rule: less_induct)
  case less
  show ?case
  proof (cases "find_boundary (sg_config st) (sg_buffer st) flush")
    case None
    with less.prems have "spans = []" "st' = st" by (auto simp: extract_spans.simps [of flush st])
    with None stop show ?thesis by simp
  next
    case (Some b)
    then show ?thesis
    proof (cases rule: extract_round)
      case panic
      with less.prems show ?thesis by simp
    next
      case (round w t v remainder)
      show ?thesis
      proof (cases "is_blank remainder")
        case True
        with round less.prems show ?thesis using last by auto
      next
        case False
        with round(3) less.prems
        have "map_option (\<lambda>(later, st'). (round_span st w t # later, st'))
            (extract_spans flush (round_state st (w @ t @ v) remainder)) = Some (spans, st')" by simp
        then obtain later where
          l: "extract_spans flush (round_state st (w @ t @ v) remainder) = Some (later, st')"
          "spans = round_span st w t # later" by (auto simp: map_option_eq_Some)
        have "length (sg_buffer (round_state st (w @ t @ v) remainder)) < length (sg_buffer st)"
          using round(1) by (simp add: round_state_def good_round_def)
        from less.hyps [OF this l(1)] l(2) round(1) another show ?thesis by blast
      qed
    qed
  qed
qed

lemmas round_simps = round_span_def round_state_def clear_state_def good_round_def

section \<open>Span exactness\<close>

text \<open>A span names the bytes of the source text that hold its sentence.\<close>

definition span_of :: "rstr \<Rightarrow> sentence_span \<Rightarrow> bool" where
  "span_of src sp \<longleftrightarrow> str_slice src (ss_text_start_bytes sp) (ss_text_end_bytes sp) = Some (ss_text sp)
     \<and> ss_text sp \<noteq> [] \<and> trim (ss_text sp) = ss_text sp"

text \<open>The buffer is the rest of the source after the bytes already consumed.\<close>

definition tracks :: "rstr \<Rightarrow> segmenter \<Rightarrow> bool" where
  "tracks src st \<longleftrightarrow> (\<exists>consumed. src = consumed @ sg_buffer st \<and> sg_buffer_source_start st = blen consumed)"

lemma str_slice_middle [simp]: "str_slice (a @ t @ c) (blen a) (blen a + blen t) = Some t"
  by (simp add: str_slice_def is_char_boundary_def)

lemma trim_id: "t \<noteq> [] \<Longrightarrow> \<not> is_whitespace (hd t) \<Longrightarrow> \<not> is_whitespace (last t) \<Longrightarrow> trim t = t"
proof -
  assume t: "t \<noteq> []" "\<not> is_whitespace (hd t)" "\<not> is_whitespace (last t)"
  have "trim_start t = t" using t by (cases t) (auto simp: trim_start_def)
  moreover have "trim_end t = t" using t by (cases t rule: rev_cases) (auto simp: trim_end_def)
  ultimately show ?thesis by (simp add: trim_def)
qed

lemma round_span_of:
  assumes "tracks src st" "good_round st w t v remainder"
  shows "span_of src (round_span st w t)"
proof -
  from assms obtain c where "src = (c @ w) @ t @ v @ remainder" "sg_buffer_source_start st = blen c"
    by (auto simp: tracks_def good_round_def)
  then have "str_slice src (blen (c @ w)) (blen (c @ w) + blen t) = Some t"
    by (metis str_slice_middle)
  with assms(2) \<open>sg_buffer_source_start st = blen c\<close> show ?thesis
    by (simp add: span_of_def round_span_def good_round_def trim_id)
qed

lemma round_tracks:
  assumes "tracks src st" "good_round st w t v remainder"
  shows "tracks src (round_state st (w @ t @ v) remainder)"
proof -
  from assms obtain c where "src = (c @ w @ t @ v) @ remainder" "sg_buffer_source_start st = blen c"
    by (auto simp: tracks_def good_round_def)
  then show ?thesis
    unfolding tracks_def by (intro exI [of _ "c @ w @ t @ v"]) (simp add: round_state_def)
qed

lemma clear_tracks: "tracks src st \<Longrightarrow> tracks src (clear_state st)"
  by (auto simp: tracks_def clear_state_def)

lemma extract_tracks:
  "extract_spans flush st = Some (spans, st') \<Longrightarrow> tracks src st \<Longrightarrow>
     tracks src st' \<and> (\<forall>sp\<in>set spans. span_of src sp)"
proof (induction rule: extract_induct)
  case (last_round st w t v remainder)
  then show ?case by (simp add: clear_tracks round_tracks round_span_of)
next
  case (another_round st w t v remainder later st')
  then show ?case by (simp add: round_tracks round_span_of)
qed simp

section \<open>Order, identifiers, preserved text\<close>

text \<open>Spans that follow one another without overlap between two byte positions.\<close>

fun ordered_between :: "nat \<Rightarrow> sentence_span list \<Rightarrow> nat \<Rightarrow> bool" where
  "ordered_between a [] b = (a \<le> b)"
| "ordered_between a (sp # sps) b =
     (a \<le> ss_text_start_bytes sp \<and> ss_text_start_bytes sp < ss_text_end_bytes sp
      \<and> ordered_between (ss_text_end_bytes sp) sps b)"

lemma ordered_between_mono: "ordered_between a sps b \<Longrightarrow> a' \<le> a \<Longrightarrow> b \<le> b' \<Longrightarrow> ordered_between a' sps b'"
  by (induction a sps b arbitrary: a' rule: ordered_between.induct) auto

lemma ordered_between_append:
  "ordered_between a xs b \<Longrightarrow> ordered_between b ys c \<Longrightarrow> ordered_between a (xs @ ys) c"
proof (induction xs arbitrary: a)
  case Nil
  then show ?case by (auto intro: ordered_between_mono)
qed auto

lemma extract_ordered:
  "extract_spans flush st = Some (spans, st') \<Longrightarrow>
     ordered_between (sg_buffer_source_start st) spans (sg_buffer_source_start st')"
proof (induction rule: extract_induct)
  case (last_round st w t v remainder)
  then show ?case by (auto simp: round_simps)
next
  case (another_round st w t v remainder later st')
  then show ?case by (auto simp: round_simps elim: ordered_between_mono)
qed simp

lemma extract_config: "extract_spans flush st = Some (spans, st') \<Longrightarrow> sg_config st' = sg_config st"
  by (induction rule: extract_induct) (simp_all add: round_simps)

lemma extract_ids:
  "extract_spans flush st = Some (spans, st') \<Longrightarrow> sg_next_sentence_id st + length spans < 2 ^ 64 \<Longrightarrow>
     sg_next_sentence_id st' = sg_next_sentence_id st + length spans
     \<and> map ss_sentence_id spans = [sg_next_sentence_id st ..< sg_next_sentence_id st + length spans]"
proof (induction rule: extract_induct)
  case (last_round st w t v remainder)
  then show ?case by (simp add: round_simps wrap_inc64_exact)
next
  case (another_round st w t v remainder later st')
  then show ?case by (simp add: round_simps wrap_inc64_exact upt_conv_Cons del: upt_Suc)
qed simp

text \<open>The characters a listener or reader can notice.\<close>

definition visible :: "rstr \<Rightarrow> rstr" where
  "visible s = filter (\<lambda>c. \<not> is_whitespace c) s"

definition spoken :: "sentence_span list \<Rightarrow> rstr" where
  "spoken spans = concat (map (visible \<circ> ss_text) spans)"

lemma visible_simps [simp]: "visible [] = []" "visible (s @ t) = visible s @ visible t"
  by (simp_all add: visible_def)

lemma visible_blank [simp]: "\<forall>c\<in>set s. is_whitespace c \<Longrightarrow> visible s = []"
  by (simp add: visible_def)

lemma spoken_simps [simp]:
  "spoken [] = []" "spoken (sp # sps) = visible (ss_text sp) @ spoken sps" "spoken (a @ b) = spoken a @ spoken b"
  by (simp_all add: spoken_def)

lemma extract_visible:
  "extract_spans flush st = Some (spans, st') \<Longrightarrow> visible (sg_buffer st) = spoken spans @ visible (sg_buffer st')"
proof (induction rule: extract_induct)
  case (last_round st w t v remainder)
  then show ?case by (simp add: round_simps is_blank_iff)
next
  case (another_round st w t v remainder later st')
  then show ?case by (simp add: round_simps)
qed simp

section \<open>The pending text stays bounded\<close>

lemma scan_char_NoneD: "scan_char cfg buf pre ch ls pv = None \<Longrightarrow> length pre + 1 < sg_hard_limit_chars cfg"
  by (auto simp: scan_char_def Let_def not_le split: option.splits if_splits)

lemma scan_NoneD:
  "scan cfg buf pre rest ls pv = None \<Longrightarrow> length pre < sg_hard_limit_chars cfg \<Longrightarrow>
     length pre + length rest < sg_hard_limit_chars cfg"
proof (induction cfg buf pre rest ls pv rule: scan.induct)
  case (2 cfg buf pre ch rest ls pv)
  define ls' where "ls' = (if is_soft ch then Some (blen pre + len_utf8 ch) else ls)"
  have n: "scan_char cfg buf pre ch ls' pv = None" "scan cfg buf (pre @ [ch]) rest ls' (Some ch) = None"
    using "2.prems"(1) by (auto simp: ls'_def [symmetric] Let_def split: option.splits)
  from scan_char_NoneD [OF n(1)] n show ?case using "2.IH" [OF ls'_def n(1)] by simp
qed simp

lemma extract_pending:
  assumes "extract_spans False st = Some (spans, st')" "0 < sg_hard_limit_chars (sg_config st)"
  shows "length (sg_buffer st') < sg_hard_limit_chars (sg_config st)"
  using assms
proof (induction rule: extract_induct)
  case (stop st)
  then show ?case using scan_NoneD [of "sg_config st" "sg_buffer st" "[]" "sg_buffer st"]
    by (simp add: find_boundary_def)
qed (simp_all add: round_simps)

section \<open>Flushing\<close>

lemma finish_spans_cases:
  "(is_blank (sg_buffer st) \<and> finish_spans st = Some ([], st))
   \<or> (\<exists>w t v. good_round st w t v [] \<and>
        finish_spans st = Some ([round_span st w t], clear_state (round_state st (w @ t @ v) [])))"
proof (cases "is_blank (sg_buffer st)")
  case True
  then have "finish_spans st = Some ([], st)"
    by (simp add: finish_spans_def extract_spans.simps [of True st] find_boundary_def)
  with True show ?thesis by simp
next
  case False
  then have f: "find_boundary (sg_config st) (sg_buffer st) True = Some (blen (sg_buffer st))"
    by (simp add: find_boundary_def)
  then show ?thesis
  proof (cases rule: extract_round)
    case panic
    then obtain raw remainder where "sg_buffer st = raw @ remainder" "blen remainder = 0" "is_blank raw"
      by auto
    with False show ?thesis by simp
  next
    case (round w t v remainder)
    from round(1,2) have "remainder = []" by (auto simp: good_round_def)
    moreover have "is_blank []" by (simp add: is_blank_iff)
    ultimately show ?thesis using round by (auto simp: finish_spans_def)
  qed
qed

lemma finish_pending_blank: "finish_spans st = Some (spans, st') \<Longrightarrow> is_blank (sg_buffer st')"
  using finish_spans_cases [of st] by (auto simp: clear_state_def is_blank_iff)

section \<open>Whole streams\<close>

lemma tracks_push:
  "tracks src st \<Longrightarrow> tracks (src @ d) (st\<lparr>sg_buffer := sg_buffer st @ d\<rparr>)"
  by (auto simp: tracks_def)

lemma str_slice_append: "str_slice s a b = Some t \<Longrightarrow> str_slice (s @ u) a b = Some t"
proof -
  assume *: "str_slice s a b = Some t"
  then have a: "split_off s a = Some (str_upto s a, str_from s a)"
    and b: "split_off s b = Some (str_upto s b, str_from s b)" and ab: "a \<le> b"
    and t: "t = str_upto (str_from s a) (b - a)"
    by (auto simp: str_slice_def split_off_def split: if_splits)
  define p where "p = str_upto s a"
  define q where "q = str_upto s b"
  from split_off_SomeD [OF a] split_off_SomeD [OF b]
  have p: "s = p @ str_from s a" "a = blen p" and q: "s = q @ str_from s b" "b = blen q"
    by (simp_all add: p_def q_def)
  have "length p \<le> length q"
  proof (rule ccontr)
    assume "\<not> ?thesis"
    then obtain x where "p = q @ x" "x \<noteq> []"
      using p(1) q(1) by (metis append_eq_append_conv_if append_take_drop_id drop_eq_Nil not_le order_less_imp_le)
    then show False using ab p(2) q(2) by simp
  qed
  then obtain x where x: "q = p @ x"
    using p(1) q(1) by (metis append_eq_append_conv_if append_take_drop_id)
  then have sf: "str_from s a = x @ str_from s b" using p q by (metis append.assoc same_append_eq)
  have e: "s @ u = p @ x @ (str_from s b @ u)" using q(1) x by (metis append.assoc)
  have bx: "b = blen p + blen x" using q(2) x by simp
  have "str_slice (s @ u) a b = Some x"
    unfolding e p(2) bx by (rule str_slice_middle)
  moreover have "t = x" using t sf p(2) q(2) x by simp
  ultimately show ?thesis by simp
qed

lemma span_of_append: "span_of src sp \<Longrightarrow> span_of (src @ u) sp"
  by (simp add: span_of_def str_slice_append)

lemma push_all_tracks:
  "push_all ds st = Some (spans, st') \<Longrightarrow> tracks src st \<Longrightarrow>
     tracks (src @ concat ds) st' \<and> (\<forall>sp\<in>set spans. span_of (src @ concat ds) sp)"
proof (induction ds arbitrary: st spans src)
  case (Cons d ds)
  from Cons.prems(1) obtain s1 st1 s2 where p: "push_spans d st = Some (s1, st1)"
    and q: "push_all ds st1 = Some (s2, st')" and sp: "spans = s1 @ s2"
    by (auto split: option.splits)
  have t: "tracks (src @ d) st1 \<and> (\<forall>sp\<in>set s1. span_of (src @ d) sp)"
    using p extract_tracks [OF _ tracks_push [OF Cons.prems(2)]] by (simp add: push_spans_def)
  from Cons.IH [OF q, of "src @ d"] t sp show ?case
    using span_of_append [of "src @ d" _ "concat ds"] by auto
qed simp

lemma push_all_rest:
  "push_all ds st = Some (spans, st') \<Longrightarrow>
     ordered_between (sg_buffer_source_start st) spans (sg_buffer_source_start st')
     \<and> sg_config st' = sg_config st
     \<and> visible (sg_buffer st @ concat ds) = spoken spans @ visible (sg_buffer st')
     \<and> (sg_next_sentence_id st + length spans < 2 ^ 64 \<longrightarrow>
          sg_next_sentence_id st' = sg_next_sentence_id st + length spans
          \<and> map ss_sentence_id spans = [sg_next_sentence_id st ..< sg_next_sentence_id st + length spans])"
proof (induction ds arbitrary: st spans)
  case (Cons d ds)
  let ?st = "st\<lparr>sg_buffer := sg_buffer st @ d\<rparr>"
  from Cons.prems(1) obtain s1 st1 s2 where p: "extract_spans False ?st = Some (s1, st1)"
    and q: "push_all ds st1 = Some (s2, st')" and sp: "spans = s1 @ s2"
    by (auto simp: push_spans_def split: option.splits)
  have ids: "map ss_sentence_id s1 = [sg_next_sentence_id st ..< sg_next_sentence_id st + length s1]
      \<and> sg_next_sentence_id st1 = sg_next_sentence_id st + length s1"
    if "sg_next_sentence_id st + length spans < 2 ^ 64"
    using extract_ids [OF p] that sp by simp
  have upt: "[a ..< a + n] @ [a + n ..< a + n + m] = [a ..< a + n + m]" for a n m :: nat
    by (rule upt_add_eq_append [symmetric]) simp
  have "visible (sg_buffer st @ concat (d # ds)) = (visible (sg_buffer st) @ visible d) @ visible (concat ds)"
    by simp
  also have "visible (sg_buffer st) @ visible d = spoken s1 @ visible (sg_buffer st1)"
    using extract_visible [OF p] by simp
  also have "(\<dots>) @ visible (concat ds) = spoken spans @ visible (sg_buffer st')"
    using Cons.IH [OF q] sp by simp
  finally have "visible (sg_buffer st @ concat (d # ds)) = spoken spans @ visible (sg_buffer st')" .
  moreover have "ordered_between (sg_buffer_source_start st) spans (sg_buffer_source_start st')"
    using Cons.IH [OF q] extract_ordered [OF p] sp by (auto intro: ordered_between_append)
  moreover have "sg_config st' = sg_config st"
    using Cons.IH [OF q] extract_config [OF p] by simp
  ultimately show ?case
    using Cons.IH [OF q] sp ids by (simp add: add.assoc [symmetric] upt)
qed simp

section \<open>Texts on which the loop cannot panic\<close>

text \<open>The longest run of consecutive characters with a property.\<close>

fun longest_run :: "(uchar \<Rightarrow> bool) \<Rightarrow> rstr \<Rightarrow> nat" where
  "longest_run P [] = 0"
| "longest_run P (c # s) = max (length (takeWhile P (c # s))) (longest_run P s)"

definition ordinary_text :: "segmenter_config \<Rightarrow> rstr \<Rightarrow> bool" where
  "ordinary_text cfg s \<longleftrightarrow> longest_run is_whitespace s < sg_min_sentence_chars cfg
     \<and> longest_run (\<lambda>c. \<not> is_whitespace c) s + sg_min_sentence_chars cfg \<le> sg_hard_limit_chars cfg"

lemma longest_run_prefix: "\<forall>c\<in>set u. P c \<Longrightarrow> length u \<le> longest_run P (u @ c)"
proof (cases u)
  case (Cons x u')
  assume *: "\<forall>c\<in>set u. P c"
  have "length u \<le> length (takeWhile P (u @ c))"
    using * by (simp add: takeWhile_append2)
  also have "\<dots> \<le> longest_run P (u @ c)" by (simp add: Cons)
  finally show ?thesis .
qed simp

lemma longest_run_append_left: "longest_run P s \<le> longest_run P (a @ s)"
  by (induction a) (auto intro: le_max_iff_disj [THEN iffD2])

lemma longest_run_append_right: "longest_run P s \<le> longest_run P (s @ c)"
proof (induction s)
  case (Cons x s)
  have "length (takeWhile P (x # s)) \<le> length (takeWhile P ((x # s) @ c))"
    by (metis (no_types) length_append takeWhile_append1 takeWhile_append2 le_add1 order_refl
        takeWhile_eq_all_conv)
  with Cons show ?case by (auto simp: le_max_iff_disj)
qed simp

lemma longest_run_infix:
  "\<forall>c\<in>set u. P c \<Longrightarrow> length u \<le> longest_run P (a @ u @ c)"
  using longest_run_prefix [of u P c] longest_run_append_left [of P "u @ c" a] by linarith

lemma ordinary_text_suffix: "ordinary_text cfg (a @ s) \<Longrightarrow> ordinary_text cfg s"
  using longest_run_append_left [of is_whitespace s a]
    longest_run_append_left [of "\<lambda>c. \<not> is_whitespace c" s a]
  by (auto simp: ordinary_text_def)

lemma ordinary_text_prefix: "ordinary_text cfg (s @ c) \<Longrightarrow> ordinary_text cfg s"
  using longest_run_append_right [of is_whitespace s c]
    longest_run_append_right [of "\<lambda>c. \<not> is_whitespace c" s c]
  by (auto simp: ordinary_text_def)

text \<open>A boundary whose raw segment holds a visible character.\<close>

definition sound_boundary :: "rstr \<Rightarrow> nat \<Rightarrow> bool" where
  "sound_boundary buf b \<longleftrightarrow> (\<exists>a c. buf = a @ c \<and> b = blen a \<and> \<not> is_blank a)"

lemma sound_boundaryI: "buf = a @ c \<Longrightarrow> x \<in> set a \<Longrightarrow> \<not> is_whitespace x \<Longrightarrow> sound_boundary buf (blen a)"
  by (auto simp: sound_boundary_def is_blank_iff)

lemma sound_boundary_consume: "sound_boundary buf b \<Longrightarrow> sound_boundary buf (consume_whitespace buf b)"
proof -
  assume "sound_boundary buf b"
  then obtain a c where "buf = a @ c" "b = blen a" "\<not> is_blank a" by (auto simp: sound_boundary_def)
  then have "buf = (a @ takeWhile is_whitespace c) @ dropWhile is_whitespace c"
    "consume_whitespace buf b = blen (a @ takeWhile is_whitespace c)"
    "\<not> is_blank (a @ takeWhile is_whitespace c)"
    by (auto simp: consume_whitespace_append is_blank_iff)
  then show ?thesis unfolding sound_boundary_def by blast
qed

lemma sound_terminal_scan:
  "buf = a @ rest \<Longrightarrow> \<not> is_blank a \<Longrightarrow> e = blen a \<Longrightarrow> terminal_scan buf rest e = Some b \<Longrightarrow> sound_boundary buf b"
proof (induction buf rest e arbitrary: a rule: terminal_scan.induct)
  case (2 buf ch rest e)
  show ?case
  proof (cases "is_closer ch")
    case True
    with 2 show ?thesis using "2.IH" [OF True, of "a @ [ch]"] by (auto simp: is_blank_iff)
  next
    case False
    with 2 have "b = consume_whitespace buf e" "sound_boundary buf e"
      by (auto simp: sound_boundary_def split: if_splits)
    then show ?thesis by (simp add: sound_boundary_consume)
  qed
qed simp

lemma sound_best_word:
  assumes ord: "ordinary_text cfg buf" and buf: "buf = a @ c"
    and len: "sg_hard_limit_chars cfg \<le> length a" and ne: "a \<noteq> []"
  shows "sound_boundary buf (best_word_boundary buf (blen a))"
proof (cases "dropWhile (\<lambda>c. \<not> is_whitespace c) (rev a)")
  case Nil
  then have "\<forall>x\<in>set a. \<not> is_whitespace x" by (auto simp: dropWhile_eq_Nil_conv)
  moreover have "best_word_boundary buf (blen a) = blen a"
    by (simp only: best_word_boundary_def buf str_upto_append Nil list.case)
  ultimately show ?thesis using sound_boundaryI [OF buf, of "hd a"] ne by simp
next
  case (Cons x r)
  define tl where "tl = rev (takeWhile (\<lambda>c. \<not> is_whitespace c) (rev a))"
  have "rev a = takeWhile (\<lambda>c. \<not> is_whitespace c) (rev a) @ x # r"
    by (metis Cons takeWhile_dropWhile_id)
  then have a: "a = rev (x # r) @ tl"
    unfolding tl_def by (metis rev_append rev_rev_ident)
  have tl: "\<forall>c\<in>set tl. \<not> is_whitespace c" by (auto simp: tl_def dest: set_takeWhileD)
  have bw: "best_word_boundary buf (blen a) = blen (rev (x # r))"
    by (simp only: best_word_boundary_def buf str_upto_append Cons list.case)
  have "\<not> is_blank (rev (x # r))"
  proof
    assume "is_blank (rev (x # r))"
    then have "\<forall>c\<in>set (rev (x # r)). is_whitespace c" by (simp add: is_blank_iff)
    from longest_run_infix [OF this, of "[]" "tl @ c"]
    have "length (rev (x # r)) < sg_min_sentence_chars cfg"
      using ord by (simp add: ordinary_text_def buf a)
    moreover from longest_run_infix [OF tl, of "rev (x # r)" c]
    have "length tl + sg_min_sentence_chars cfg \<le> sg_hard_limit_chars cfg"
      using ord by (simp add: ordinary_text_def buf a)
    ultimately show False using len by (simp add: a)
  qed
  then show ?thesis using bw buf a unfolding sound_boundary_def by (metis append.assoc)
qed

lemma sound_scan_char:
  assumes ord: "ordinary_text cfg buf" and buf: "buf = (pre @ [ch]) @ rest"
    and soft: "\<And>s. ls = Some s \<Longrightarrow> sound_boundary buf s"
    and "scan_char cfg buf pre ch ls pv = Some b"
  shows "sound_boundary buf b"
  using assms(4)
proof (cases rule: scan_char_SomeD)
  case newline
  have "\<not> is_blank (pre @ [ch])"
  proof
    assume "is_blank (pre @ [ch])"
    then have "\<forall>c\<in>set (pre @ [ch]). is_whitespace c" by (simp add: is_blank_iff)
    from longest_run_infix [OF this, of "[]" rest] newline(2) ord show False
      by (simp add: ordinary_text_def buf)
  qed
  then have "sound_boundary buf (blen (pre @ [ch]))" using buf unfolding sound_boundary_def by blast
  then show ?thesis using newline(3) sound_boundary_consume by simp
next
  case terminal
  then have "\<not> is_whitespace ch" by (auto simp: is_whitespace_def)
  then have nb: "\<not> is_blank (pre @ [ch])" by (simp add: is_blank_iff)
  from terminal(2) have "terminal_scan buf rest (blen (pre @ [ch])) = Some b"
    unfolding terminal_boundary_def buf str_from_append .
  then show ?thesis by (rule sound_terminal_scan [OF buf nb refl])
next
  case (soft s)
  then show ?thesis using sound_boundary_consume [OF assms(3)] by simp
next
  case hard
  then show ?thesis using sound_best_word [OF ord buf] by simp
qed

lemma sound_scan:
  assumes "ordinary_text cfg buf" "buf = pre @ rest" "\<And>s. ls = Some s \<Longrightarrow> sound_boundary buf s"
    and "scan cfg buf pre rest ls pv = Some b"
  shows "sound_boundary buf b"
  using assms
proof (induction cfg buf pre rest ls pv rule: scan.induct)
  case (2 cfg buf pre ch rest ls pv)
  define ls' where "ls' = (if is_soft ch then Some (blen pre + len_utf8 ch) else ls)"
  have buf: "buf = (pre @ [ch]) @ rest" using "2.prems"(2) by simp
  have soft: "sound_boundary buf s" if "ls' = Some s" for s
    using that "2.prems"(3) sound_boundaryI [OF buf, of ch]
    by (auto simp: ls'_def is_soft_def is_whitespace_def split: if_splits)
  show ?case
  proof (cases "scan_char cfg buf pre ch ls' pv")
    case (Some b')
    then have "b' = b" using "2.prems"(4) by (simp add: ls'_def [symmetric] Let_def)
    with Some show ?thesis using sound_scan_char [OF "2.prems"(1) buf soft] by blast
  next
    case None
    then have "scan cfg buf (pre @ [ch]) rest ls' (Some ch) = Some b"
      using "2.prems"(4) by (simp add: ls'_def [symmetric] Let_def)
    with None show ?thesis using "2.IH" [OF ls'_def None "2.prems"(1) buf] soft by blast
  qed
qed simp

lemma prefix_blen_unique:
  assumes "a @ c = a' @ c'" "blen a = blen a'"
  shows "a = a'"
proof -
  have "Some (a, c) = split_off (a @ c) (blen a)" by simp
  also have "\<dots> = split_off (a' @ c') (blen a')" by (simp only: assms)
  also have "\<dots> = Some (a', c')" by simp
  finally show ?thesis by simp
qed

lemma extract_ordinary:
  "ordinary_text (sg_config st) (sg_buffer st) \<Longrightarrow> \<exists>spans st'. extract_spans False st = Some (spans, st')"
proof (induction "length (sg_buffer st)" arbitrary: st rule: less_induct)
  case less
  show ?case
  proof (cases "find_boundary (sg_config st) (sg_buffer st) False")
    case None
    then show ?thesis by (simp add: extract_spans.simps [of False st])
  next
    case (Some b)
    have snd: "sound_boundary (sg_buffer st) b"
      using Some less.prems sound_scan [of "sg_config st" "sg_buffer st" "[]" "sg_buffer st" None None b]
      by (simp add: find_boundary_def)
    from Some show ?thesis
    proof (cases rule: extract_round)
      case panic
      with snd show ?thesis unfolding sound_boundary_def by (metis prefix_blen_unique)
    next
      case (round w t v remainder)
      let ?st = "round_state st (w @ t @ v) remainder"
      have "ordinary_text (sg_config ?st) (sg_buffer ?st)"
        using less.prems round(1) ordinary_text_suffix [of "sg_config st" "w @ t @ v" remainder]
        by (simp add: round_simps)
      moreover have "length (sg_buffer ?st) < length (sg_buffer st)" using round(1) by (simp add: round_simps)
      ultimately obtain spans st' where "extract_spans False ?st = Some (spans, st')"
        using less.hyps by blast
      with round(3) show ?thesis by simp
    qed
  qed
qed

lemma push_all_ordinary:
  "tracks src st \<Longrightarrow> ordinary_text (sg_config st) (src @ concat ds) \<Longrightarrow> \<exists>spans st'. push_all ds st = Some (spans, st')"
proof (induction ds arbitrary: src st)
  case (Cons d ds)
  let ?st = "st\<lparr>sg_buffer := sg_buffer st @ d\<rparr>"
  from Cons.prems(1) obtain c where c: "src = c @ sg_buffer st" by (auto simp: tracks_def)
  have "ordinary_text (sg_config st) (sg_buffer st @ d)"
    using Cons.prems(2) c ordinary_text_prefix [of _ "src @ d" "concat ds"]
      ordinary_text_suffix [of _ c "sg_buffer st @ d"] by simp
  then obtain s1 st1 where p: "extract_spans False ?st = Some (s1, st1)"
    using extract_ordinary [of ?st] by auto
  have "tracks (src @ d) st1" using extract_tracks [OF p tracks_push [OF Cons.prems(1)]] by simp
  moreover have "sg_config st1 = sg_config st" using extract_config [OF p] by simp
  ultimately obtain s2 st2 where "push_all ds st1 = Some (s2, st2)"
    using Cons.IH [of "src @ d" st1] Cons.prems(2) by auto
  with p show ?case by (simp add: push_spans_def)
qed simp

section \<open>Properties\<close>

lemma new_segmenter_SomeD:
  assumes "new_segmenter cfg = Some st"
  shows "segmenter_config_ok cfg" "sg_config st = cfg" "sg_buffer st = []" "sg_buffer_source_start st = 0"
    "sg_next_sentence_id st = 1" "tracks [] st"
  using assms by (auto simp: new_segmenter_def tracks_def split: if_splits)

text \<open>The contract of a segmentation of a text: exact slices, in order, and nothing but whitespace left out.\<close>

definition exact_segmentation :: "rstr \<Rightarrow> sentence_span list \<Rightarrow> bool" where
  "exact_segmentation src spans \<longleftrightarrow>
     (\<forall>sp\<in>set spans. span_of src sp) \<and> ordered_between 0 spans (blen src) \<and> visible src = spoken spans"

lemma stream_segmentation:
  assumes "new_segmenter cfg = Some st0"
    and "push_all ds st0 = Some (spans1, st1)"
    and "finish_spans st1 = Some (spans2, st2)"
  shows "exact_segmentation (concat ds) (spans1 @ spans2)"
proof -
  note new = new_segmenter_SomeD [OF assms(1)]
  have fin: "extract_spans True st1 = Some (spans2, st2)" using assms(3) by (simp add: finish_spans_def)
  have t1: "tracks (concat ds) st1" "\<forall>sp\<in>set spans1. span_of (concat ds) sp"
    using push_all_tracks [OF assms(2) new(6)] by auto
  have t2: "tracks (concat ds) st2" "\<forall>sp\<in>set spans2. span_of (concat ds) sp"
    using extract_tracks [OF fin t1(1)] by auto
  have le: "sg_buffer_source_start st2 \<le> blen (concat ds)" using t2(1) by (auto simp: tracks_def)
  note r1 = push_all_rest [OF assms(2)]
  have "ordered_between 0 (spans1 @ spans2) (blen (concat ds))"
    using r1 extract_ordered [OF fin] new(4) le ordered_between_append ordered_between_mono
    by (metis order_refl)
  moreover have "visible (concat ds) = spoken (spans1 @ spans2)"
    using r1 extract_visible [OF fin] new(3) finish_pending_blank [OF assms(3)] by (simp add: is_blank_iff)
  ultimately show ?thesis using t1 t2 by (auto simp: exact_segmentation_def)
qed

text \<open>
  C18. For every provider stream, cut into deltas in any way: each span emitted while streaming or on
  finish slices exactly its (trimmed, non-empty) sentence out of the original text by UTF-8 bytes; the
  spans are in order and do not overlap; their identifiers count up from 1; apart from whitespace the
  sentences are the whole text, and after finish only whitespace is pending.
\<close>

theorem segmenter_spans_exact:
  assumes "new_segmenter cfg = Some st0"
    and "push_all ds st0 = Some (spans1, st1)"
    and "finish_spans st1 = Some (spans2, st2)"
    and "length (spans1 @ spans2) + 1 < 2 ^ 64"
  shows "(\<forall>sp\<in>set (spans1 @ spans2). span_of (concat ds) sp)
    \<and> ordered_between 0 (spans1 @ spans2) (blen (concat ds))
    \<and> map ss_sentence_id (spans1 @ spans2) = [1 ..< length (spans1 @ spans2) + 1]
    \<and> visible (concat ds) = spoken (spans1 @ spans2)
    \<and> is_blank (pending_text st2)"
proof -
  note new = new_segmenter_SomeD [OF assms(1)]
  have fin: "extract_spans True st1 = Some (spans2, st2)" using assms(3) by (simp add: finish_spans_def)
  have i1: "map ss_sentence_id spans1 = [1 ..< 1 + length spans1]"
    "sg_next_sentence_id st1 = 1 + length spans1"
    using push_all_rest [OF assms(2)] new(5) assms(4) by auto
  have "map ss_sentence_id spans2 = [1 + length spans1 ..< 1 + length spans1 + length spans2]"
    using extract_ids [OF fin] i1 assms(4) by simp
  with i1 have "map ss_sentence_id (spans1 @ spans2) = [1 ..< length (spans1 @ spans2) + 1]"
    using upt_add_eq_append [of 1 "1 + length spans1" "length spans2"] by (simp del: upt_Suc)
  then show ?thesis
    using stream_segmentation [OF assms(1-3)] finish_pending_blank [OF assms(3)]
    by (simp add: exact_segmentation_def pending_text_def)
qed

definition sample_config :: segmenter_config where
  "sample_config = \<lparr>sg_min_sentence_chars = 4, sg_soft_boundary_chars = 8, sg_hard_limit_chars = 12,
     sg_abbreviations = [lit ''dr.'']\<rparr>"

definition sample_segmenter :: segmenter where
  "sample_segmenter = \<lparr>sg_config = sample_config, sg_buffer = [], sg_buffer_source_start = 0,
     sg_next_sentence_id = 1\<rparr>"

text \<open>The default segmenter before any text.\<close>

definition default_segmenter :: segmenter where
  "default_segmenter = \<lparr>sg_config = default_segmenter_config, sg_buffer = [], sg_buffer_source_start = 0,
     sg_next_sentence_id = 1\<rparr>"

lemmas segmenter_eval = push_spans_def extract_spans.simps find_boundary_def scan_char_def
  terminal_boundary_def consume_whitespace_def best_word_boundary_def is_decimal_def is_abbreviation_def
  split_off_def str_slice_def is_char_boundary_def str_upto_def str_from_pos emit_raw_def
  trim_start_def trim_end_def trim_matches_def to_ascii_lowercase_def is_opener_def is_closer_def
  is_soft_def is_ascii_digit_def is_ascii_alphabetic_def is_whitespace_def is_blank_iff len_utf8_def
  wrap_inc64_def lit_def

lemma sample_stream:
  "push_all [lit '' Hi!'', lit '' Yes? no''] sample_segmenter =
     Some ([\<lparr>ss_sentence_id = 1, ss_text_start_bytes = 1, ss_text_end_bytes = 4, ss_text = lit ''Hi!''\<rparr>,
            \<lparr>ss_sentence_id = 2, ss_text_start_bytes = 5, ss_text_end_bytes = 9, ss_text = lit ''Yes?''\<rparr>],
       \<lparr>sg_config = sample_config, sg_buffer = lit ''no'', sg_buffer_source_start = 10, sg_next_sentence_id = 3\<rparr>)"
  by (simp add: segmenter_eval sample_segmenter_def sample_config_def)

lemma sample_finish:
  "finish_spans \<lparr>sg_config = sample_config, sg_buffer = lit ''no'', sg_buffer_source_start = 10, sg_next_sentence_id = 3\<rparr>
   = Some ([\<lparr>ss_sentence_id = 3, ss_text_start_bytes = 10, ss_text_end_bytes = 12, ss_text = lit ''no''\<rparr>],
       \<lparr>sg_config = sample_config, sg_buffer = [], sg_buffer_source_start = 12, sg_next_sentence_id = 4\<rparr>)"
  by (simp add: segmenter_eval finish_spans_def)

lemma new_sample: "new_segmenter sample_config = Some sample_segmenter"
  by (simp add: new_segmenter_def segmenter_config_ok_def sample_config_def sample_segmenter_def)

theorem segmenter_spans_exact_witness:
  "visible (concat [lit '' Hi!'', lit '' Yes? no'']) = lit ''Hi!Yes?no''"
proof -
  have l: "length ([\<lparr>ss_sentence_id = 1, ss_text_start_bytes = 1, ss_text_end_bytes = 4, ss_text = lit ''Hi!''\<rparr>,
            \<lparr>ss_sentence_id = 2, ss_text_start_bytes = 5, ss_text_end_bytes = 9, ss_text = lit ''Yes?''\<rparr>]
         @ [\<lparr>ss_sentence_id = 3, ss_text_start_bytes = 10, ss_text_end_bytes = 12, ss_text = lit ''no''\<rparr>]) + 1
       < 2 ^ 64" by simp
  from segmenter_spans_exact [OF new_sample sample_stream sample_finish l] show ?thesis
    by (simp add: visible_def is_whitespace_def lit_def)
qed

text \<open>
  C19. On ordinary text (every run of whitespace shorter than the minimum sentence, every word at least
  that much shorter than the hard limit: with the default configuration fewer than 18 whitespace
  characters in a row and words of at most 202 characters) the segmenter processes the whole stream,
  however it is cut into deltas, and its flush, without panicking.
\<close>

theorem segmenter_total_on_ordinary_text:
  assumes "new_segmenter cfg = Some st0" and "ordinary_text cfg (concat ds)"
  shows "\<exists>spans1 st1 spans2 st2. push_all ds st0 = Some (spans1, st1) \<and> finish_spans st1 = Some (spans2, st2)"
proof -
  note new = new_segmenter_SomeD [OF assms(1)]
  obtain spans1 st1 where "push_all ds st0 = Some (spans1, st1)"
    using push_all_ordinary [OF new(6), of ds] assms(2) new(2) by auto
  moreover obtain spans2 st2 where "finish_spans st1 = Some (spans2, st2)"
    using finish_spans_cases [of st1] by auto
  ultimately show ?thesis by blast
qed

theorem segmenter_total_on_ordinary_text_witness:
  "ordinary_text sample_config (concat [lit '' Hi!'', lit '' Yes? no''])
   \<and> (\<exists>spans1 st1 spans2 st2. push_all [lit '' Hi!'', lit '' Yes? no''] sample_segmenter = Some (spans1, st1)
        \<and> finish_spans st1 = Some (spans2, st2))"
proof -
  have o: "ordinary_text sample_config (concat [lit '' Hi!'', lit '' Yes? no''])"
    by (simp add: ordinary_text_def sample_config_def lit_def is_whitespace_def)
  from segmenter_total_on_ordinary_text [OF new_sample o] o show ?thesis by blast
qed

text \<open>
  The buffer that is rescanned on every delta stays below the hard limit: after a push fewer than
  \<open>hard_limit_chars\<close> characters are pending.
\<close>

theorem pending_text_below_hard_limit:
  assumes "segmenter_config_ok (sg_config st)" and "push_spans delta st = Some (spans, st')"
  shows "length (pending_text st') < sg_hard_limit_chars (sg_config st)"
  using assms extract_pending [of "st\<lparr>sg_buffer := sg_buffer st @ delta\<rparr>" spans st']
  by (simp add: push_spans_def pending_text_def segmenter_config_ok_def)

theorem pending_text_below_hard_limit_witness:
  "push_spans (lit ''abc'') sample_segmenter = Some ([], sample_segmenter\<lparr>sg_buffer := lit ''abc''\<rparr>)
   \<and> length (pending_text (sample_segmenter\<lparr>sg_buffer := lit ''abc''\<rparr>)) < 12"
proof -
  have c: "segmenter_config_ok (sg_config sample_segmenter)"
    by (simp add: segmenter_config_ok_def sample_config_def sample_segmenter_def)
  have p: "push_spans (lit ''abc'') sample_segmenter = Some ([], sample_segmenter\<lparr>sg_buffer := lit ''abc''\<rparr>)"
    by (simp add: segmenter_eval sample_segmenter_def sample_config_def)
  from pending_text_below_hard_limit [OF c p] p show ?thesis
    by (simp add: sample_segmenter_def sample_config_def)
qed

text \<open>Characters that the scan passes over until the hard limit.\<close>

definition plain_char :: "uchar \<Rightarrow> bool" where
  "plain_char c \<longleftrightarrow> \<not> is_soft c \<and> c \<notin> {33, 63, 10, 46}"

lemma scan_char_plain:
  "plain_char ch \<Longrightarrow> scan_char cfg buf pre ch None pv =
     (if length pre + 1 \<ge> sg_hard_limit_chars cfg then Some (best_word_boundary buf (blen (pre @ [ch]))) else None)"
  by (simp add: scan_char_def plain_char_def)

lemma scan_plain_to_hard_limit:
  "list_all plain_char rest \<Longrightarrow> rest \<noteq> [] \<Longrightarrow> length pre + length rest = sg_hard_limit_chars cfg \<Longrightarrow>
     scan cfg buf pre rest None pv = Some (best_word_boundary buf (blen (pre @ rest)))"
proof (induction rest arbitrary: pre pv)
  case (Cons ch rest)
  from Cons.prems have p: "plain_char ch" "\<not> is_soft ch" by (auto simp: plain_char_def)
  show ?case
  proof (cases "rest = []")
    case True
    with Cons.prems p show ?thesis by (simp add: scan_char_plain)
  next
    case False
    then have "\<not> sg_hard_limit_chars cfg \<le> Suc (length pre)"
      using Cons.prems(3) by (cases rest) auto
    with Cons.prems p False Cons.IH [of "pre @ [ch]" "Some ch"] show ?thesis
      by (simp add: scan_char_plain add.assoc)
  qed
qed simp

lemma scan_newlines:
  "n > 0 \<Longrightarrow> length pre + n = sg_min_sentence_chars cfg \<Longrightarrow> segmenter_config_ok cfg \<Longrightarrow>
     scan cfg buf pre (replicate n 10) None pv = Some (consume_whitespace buf (blen (pre @ replicate n 10)))"
proof (induction n arbitrary: pre pv)
  case (Suc n)
  have "\<not> is_soft 10" by (simp add: is_soft_def)
  with Suc.prems Suc.IH [of "pre @ [10]" "Some 10"] show ?case
    by (cases "n = 0")
      (simp_all add: scan_char_def segmenter_config_ok_def add.assoc len_utf8_def)
qed simp

lemma blank_boundary_panics:
  assumes "find_boundary (sg_config st) (sg_buffer st) flush = Some (blen raw)"
    and "sg_buffer st = raw @ c" and "is_blank raw"
  shows "extract_spans flush st = None"
  using assms(1)
proof (cases rule: extract_round)
  case (round w t v remainder)
  then have "(w @ t @ v) @ remainder = raw @ c" using assms(2) by (simp add: good_round_def)
  then have "w @ t @ v = raw" using round(2) prefix_blen_unique by metis
  with assms(3) have "\<forall>x\<in>set t. is_whitespace x" by (auto simp: is_blank_iff)
  moreover have "hd t \<in> set t" "\<not> is_whitespace (hd t)" using round(1) by (auto simp: good_round_def)
  ultimately show ?thesis by blast
qed

text \<open>
  The segmenter is not total: two kinds of provider output make it panic in the slice of the raw
  sentence, whatever its configuration. One is a run of newlines as long as the shortest sentence; the
  other is a space followed by a word that reaches the hard limit (for instance text in a script
  that does not put spaces between words). In both cases the raw segment before the boundary is
  blank, so its trimmed end lies before its trimmed start.
\<close>

theorem segmenter_panics_on_blank_segment:
  assumes "new_segmenter cfg = Some st0" and "plain_char c" and "\<not> is_whitespace c"
  shows "push_spans (replicate (sg_min_sentence_chars cfg) 10) st0 = None
    \<and> push_spans (32 # replicate (sg_hard_limit_chars cfg - 1) c) st0 = None"
proof
  note new = new_segmenter_SomeD [OF assms(1)]
  let ?nl = "replicate (sg_min_sentence_chars cfg) 10"
  have "scan cfg ?nl [] ?nl None None = Some (consume_whitespace ?nl (blen ([] @ ?nl)))"
    using new(1) by (intro scan_newlines) (auto simp: segmenter_config_ok_def)
  then have "find_boundary cfg ?nl False = Some (blen ?nl)"
    by (simp add: find_boundary_def consume_whitespace_def)
  then show "push_spans ?nl st0 = None"
    using blank_boundary_panics [of "st0\<lparr>sg_buffer := ?nl\<rparr>" False ?nl "[]"] new
    by (simp add: push_spans_def is_blank_iff is_whitespace_def)
  let ?w = "replicate (sg_hard_limit_chars cfg - 1) c"
  have "scan cfg (32 # ?w) [] (32 # ?w) None None = Some (best_word_boundary (32 # ?w) (blen ([] @ (32 # ?w))))"
    using new(1) assms(2)
    by (intro scan_plain_to_hard_limit)
      (auto simp: segmenter_config_ok_def plain_char_def is_soft_def list_all_iff)
  moreover have "best_word_boundary (32 # ?w) (blen (32 # ?w)) = blen [32]"
  proof -
    have "dropWhile (\<lambda>x. \<not> is_whitespace x) (?w @ [32]) = dropWhile (\<lambda>x. \<not> is_whitespace x) [32]"
      using assms(3) by (intro dropWhile_append2) simp
    then have "dropWhile (\<lambda>x. \<not> is_whitespace x) (rev (32 # ?w)) = [32]"
      by (simp add: is_whitespace_def)
    then show ?thesis by (simp only: best_word_boundary_def str_upto_blen) simp
  qed
  ultimately have "find_boundary cfg (32 # ?w) False = Some (blen [32])"
    by (simp add: find_boundary_def del: blen_simps)
  then show "push_spans (32 # ?w) st0 = None"
    using blank_boundary_panics [of "st0\<lparr>sg_buffer := 32 # ?w\<rparr>" False "[32]" ?w] new
    by (simp add: push_spans_def is_blank_iff is_whitespace_def)
qed

theorem segmenter_panics_on_blank_segment_witness:
  "push_spans (replicate 18 10) default_segmenter = None
   \<and> push_spans (32 # replicate 219 30028) default_segmenter = None"
proof -
  have n: "new_segmenter default_segmenter_config = Some default_segmenter"
    by (simp add: new_segmenter_def segmenter_config_ok_def default_segmenter_config_def default_segmenter_def)
  have p: "plain_char 30028" "\<not> is_whitespace 30028"
    by (simp_all add: plain_char_def is_soft_def is_whitespace_def)
  from segmenter_panics_on_blank_segment [OF n p] show ?thesis
    by (simp only: default_segmenter_config_def segmenter_config.simps) simp
qed

end
