(* ===== verification/Runtime_Types.thy ===== *)
theory Runtime_Types
  imports Prelude
begin

text \<open>
  The data model of \<open>crates/runtime-core/src/types.rs\<close> and of the error types of
  \<open>provider.rs\<close>: identities, requests, provider descriptors, lifecycle stages, structured effects,
  deliveries, outcomes and events, with request validation and effects validation.
  Durations are natural numbers of nanoseconds; ordered maps are association lists.
\<close>

type_synonym duration = nat
type_synonym bmap = "(rstr \<times> rstr) list"

section \<open>Identities, policies and providers\<close>

record turn_identity =
  ti_session_id :: rstr
  ti_turn_id :: rstr
  ti_generation :: nat

text \<open>The \<open>Display\<close> form, \<open>session/turn@generation\<close>.\<close>

definition display_identity :: "turn_identity \<Rightarrow> rstr" where
  "display_identity i = ti_session_id i @ lit ''/'' @ ti_turn_id i @ lit ''@'' @ dec (ti_generation i)"

datatype execution_mode = ModeCloud | ModeHybrid | ModeFullyLocal

datatype network_policy = NetOnline | NetOffline

datatype provider_modality = Recognition | LanguageModel | Effects | Speech

datatype provider_location = LocLocal | LocCloud rstr | LocExternalLocalServer

fun is_networked :: "provider_location \<Rightarrow> bool" where
  "is_networked (LocCloud _) = True"
| "is_networked _ = False"

definition is_local :: "provider_location \<Rightarrow> bool" where
  "is_local l \<longleftrightarrow> \<not> is_networked l"

datatype data_class = DcTranscript | DcPromptContext | DcAudio | DcEffectsSchema

record provider_descriptor =
  pd_id :: rstr
  pd_display_name :: rstr
  pd_modality :: provider_modality
  pd_location :: provider_location
  pd_may_retain_data :: bool
  pd_transmitted_data :: "data_class list"
  pd_capabilities :: bmap

section \<open>Lifecycles\<close>

datatype turn_lifecycle =
    LcAccepted | LcListening | LcTranscribing | LcIdentifying | LcRemembering | LcResponding
  | LcVoicing | LcAnimating | LcCommitting | LcCompleted | LcCancelled | LcFailed

datatype turn_lane = SpokenResponse | StructuredEffects

datatype lane_lifecycle =
  LanePending | LaneRunning | LaneCompleted | LaneNeutralized | LaneCancelled | LaneFailed

definition is_terminal :: "turn_lifecycle \<Rightarrow> bool" where
  "is_terminal l \<longleftrightarrow> l = LcCompleted \<or> l = LcCancelled \<or> l = LcFailed"

section \<open>Requests\<close>

record turn_request =
  tr_session_id :: rstr
  tr_turn_id :: rstr
  tr_transcript :: rstr
  tr_character_hint :: "rstr option"
  tr_game_id :: rstr
  tr_locale :: rstr
  tr_execution_mode :: execution_mode
  tr_network_policy :: network_policy
  tr_authorized_cloud_providers :: "rstr list"
  tr_allow_provider_fallback :: bool
  tr_allow_local_to_cloud_fallback :: bool
  tr_allow_retaining_providers :: bool
  tr_metadata :: bmap

datatype validation_error = Missing rstr

definition validate_request :: "turn_request \<Rightarrow> (validation_error, unit) result" where
  "validate_request r =
     (if is_blank (tr_session_id r) then Inl (Missing (lit ''session_id''))
      else if is_blank (tr_turn_id r) then Inl (Missing (lit ''turn_id''))
      else if is_blank (tr_transcript r) then Inl (Missing (lit ''transcript''))
      else if is_blank (tr_game_id r) then Inl (Missing (lit ''game_id''))
      else if is_blank (tr_locale r) then Inl (Missing (lit ''locale''))
      else Inr ())"

record character_identity =
  ci_character_id :: "rstr option"
  ci_display_name :: rstr
  ci_confidence :: fp
  ci_evidence :: "rstr list"
  ci_explicit_selection :: bool

record memory_context =
  mc_working_context :: "rstr list"
  mc_episodic_memories :: "rstr list"
  mc_canon_facts :: "rstr list"
  mc_relationship_summary :: "rstr option"
  mc_retrieval_degraded :: bool

record generation_request =
  gr_identity :: turn_identity
  gr_transcript :: rstr
  gr_character :: character_identity
  gr_memory :: memory_context
  gr_locale :: rstr
  gr_metadata :: bmap

record effects_request =
  er_generation :: generation_request
  er_response_text_hint :: "rstr option"

record llm_delta =
  ld_text :: rstr
  ld_sequence :: nat

record speech_request =
  sr_identity :: turn_identity
  sr_sentence_id :: nat
  sr_text :: rstr
  sr_locale :: rstr
  sr_voice_hint :: "rstr option"

section \<open>Structured effects\<close>

record memory_proposal =
  mp_content :: rstr
  mp_confidence :: fp

record relationship_proposal =
  rp_dimension :: rstr
  rp_delta :: fp
  rp_reason :: rstr

record action_proposal =
  ap_action :: rstr
  ap_arguments :: bmap

record npc_effects =
  ne_emotion :: "rstr option"
  ne_valence :: "fp option"
  ne_arousal :: "fp option"
  ne_intensity :: "fp option"
  ne_voice_style :: "rstr option"
  ne_animation_cues :: "rstr list"
  ne_interruption_policy :: "rstr option"
  ne_memory_proposals :: "memory_proposal list"
  ne_relationship_proposals :: "relationship_proposal list"
  ne_action_proposals :: "action_proposal list"

datatype effects_validation_error = OutOfRange rstr | InvalidProposal rstr

definition neutral_effects :: npc_effects where
  "neutral_effects = \<lparr>ne_emotion = None, ne_valence = None, ne_arousal = None, ne_intensity = None,
     ne_voice_style = None, ne_animation_cues = [], ne_interruption_policy = None,
     ne_memory_proposals = [], ne_relationship_proposals = [], ne_action_proposals = []\<rparr>"

definition validate_optional_range ::
  "rstr \<Rightarrow> fp option \<Rightarrow> rat \<Rightarrow> rat \<Rightarrow> (effects_validation_error, unit) result" where
  "validate_optional_range name v lo hi =
     (case v of
        Some x \<Rightarrow> if \<not> fp_is_finite x \<or> \<not> fp_in_range lo hi x then Inl (OutOfRange name) else Inr ()
      | None \<Rightarrow> Inr ())"

definition memory_proposal_invalid :: "memory_proposal \<Rightarrow> bool" where
  "memory_proposal_invalid p \<longleftrightarrow>
     is_blank (mp_content p) \<or> blen (mp_content p) > 2000
     \<or> \<not> fp_is_finite (mp_confidence p) \<or> \<not> fp_in_range 0 1 (mp_confidence p)"

definition relationship_proposal_invalid :: "relationship_proposal \<Rightarrow> bool" where
  "relationship_proposal_invalid p \<longleftrightarrow>
     is_blank (rp_dimension p) \<or> blen (rp_dimension p) > 64 \<or> blen (rp_reason p) > 500
     \<or> \<not> fp_is_finite (rp_delta p) \<or> \<not> fp_in_range (-1) 1 (rp_delta p)"

definition action_proposal_kept :: "rstr list \<Rightarrow> action_proposal \<Rightarrow> bool" where
  "action_proposal_kept allowed p \<longleftrightarrow>
     list_ex (\<lambda>v. v = ap_action p) allowed \<and> length (ap_arguments p) \<le> 16
     \<and> list_all (\<lambda>(k, v). blen k \<le> 64 \<and> blen v \<le> 1000) (ap_arguments p)"

definition animation_cue_kept :: "rstr \<Rightarrow> bool" where
  "animation_cue_kept cue \<longleftrightarrow> \<not> is_blank cue \<and> blen cue \<le> 64"

definition validate_effects ::
  "rstr list \<Rightarrow> npc_effects \<Rightarrow> (effects_validation_error, npc_effects) result" where
  "validate_effects allowed e =
     bind_result (validate_optional_range (lit ''valence'') (ne_valence e) (-1) 1) (\<lambda>_.
     bind_result (validate_optional_range (lit ''arousal'') (ne_arousal e) 0 1) (\<lambda>_.
     bind_result (validate_optional_range (lit ''intensity'') (ne_intensity e) 0 1) (\<lambda>_.
       if list_ex memory_proposal_invalid (ne_memory_proposals e)
       then Inl (InvalidProposal (lit ''memory''))
       else if list_ex relationship_proposal_invalid (ne_relationship_proposals e)
       then Inl (InvalidProposal (lit ''relationship''))
       else Inr (e\<lparr>ne_animation_cues := filter animation_cue_kept (ne_animation_cues e),
                   ne_action_proposals := filter (action_proposal_kept allowed) (ne_action_proposals e)\<rparr>))))"

section \<open>Deliveries, outcomes and events\<close>

datatype delivery_mode = DeliverAudio | DeliverSubtitle

record delivered_sentence =
  ds_sentence_id :: nat
  ds_text_start_bytes :: nat
  ds_text_end_bytes :: nat
  ds_text :: rstr
  ds_delivery :: delivery_mode
  ds_audible_frames :: nat
  ds_duration :: duration

record playback_receipt =
  pr_audible_frames :: nat
  pr_duration :: duration
  pr_completed :: bool

datatype degradation =
    IdentityToExplicitSelection
  | MemoryWithoutVectorRetrieval
  | NeutralEffects
  | VisualsDisabled
  | AudioToSubtitles
  | MemoryCommitDeferred
  | ProviderFallback rstr rstr

record turn_failure =
  tf_code :: rstr
  tf_message :: rstr
  tf_retryable :: bool

section \<open>Provider and dependency errors\<close>

datatype provider_error_kind =
  PeCancelled | PeTimeout | PeRateLimited | PeAuthentication | PeInvalidRequest | PeUnavailable
  | PeProtocol | PeInternal

record provider_error =
  pe_provider_id :: rstr
  pe_kind :: provider_error_kind
  pe_message :: rstr
  pe_retryable :: bool
  pe_retry_after :: "duration option"

definition provider_error_cancelled :: "rstr \<Rightarrow> provider_error" where
  "provider_error_cancelled p = \<lparr>pe_provider_id = p, pe_kind = PeCancelled,
     pe_message = lit ''request cancelled'', pe_retryable = True, pe_retry_after = None\<rparr>"

definition provider_error_unavailable :: "rstr \<Rightarrow> rstr \<Rightarrow> provider_error" where
  "provider_error_unavailable p m = \<lparr>pe_provider_id = p, pe_kind = PeUnavailable,
     pe_message = m, pe_retryable = True, pe_retry_after = None\<rparr>"

definition display_provider_error :: "provider_error \<Rightarrow> rstr" where
  "display_provider_error e = pe_provider_id e @ lit '': '' @ pe_message e"

datatype dependency_error = DepCancelled | DepUnavailable rstr | DepInvalid rstr | DepInternal rstr

fun dependency_retryable :: "dependency_error \<Rightarrow> bool" where
  "dependency_retryable DepCancelled = True"
| "dependency_retryable (DepUnavailable _) = True"
| "dependency_retryable _ = False"

fun display_dependency_error :: "dependency_error \<Rightarrow> rstr" where
  "display_dependency_error DepCancelled = lit ''cancelled''"
| "display_dependency_error (DepUnavailable m) = lit ''temporarily unavailable: '' @ m"
| "display_dependency_error (DepInvalid m) = lit ''invalid dependency response: '' @ m"
| "display_dependency_error (DepInternal m) = lit ''dependency failed: '' @ m"

section \<open>Lemmas\<close>

lemma is_local_simps [simp]:
  "is_local LocLocal" "is_local LocExternalLocalServer" "\<not> is_local (LocCloud s)"
  by (simp_all add: is_local_def)

lemma is_local_iff_not_networked: "is_local l \<longleftrightarrow> \<not> is_networked l"
  by (simp add: is_local_def)

lemma is_networked_iff: "is_networked l \<longleftrightarrow> (\<exists>s. l = LocCloud s)"
  by (cases l) auto

lemma validate_request_Inr_iff:
  "validate_request r = Inr () \<longleftrightarrow>
     \<not> is_blank (tr_session_id r) \<and> \<not> is_blank (tr_turn_id r) \<and> \<not> is_blank (tr_transcript r)
     \<and> \<not> is_blank (tr_game_id r) \<and> \<not> is_blank (tr_locale r)"
  by (simp add: validate_request_def)

lemma validate_optional_range_Inr_iff:
  "validate_optional_range n v lo hi = Inr () \<longleftrightarrow> (\<forall>x. v = Some x \<longrightarrow> fp_in_range lo hi x)"
  by (auto simp: validate_optional_range_def fp_in_range_finite split: option.splits)

lemma validate_effects_InrD:
  assumes "validate_effects allowed e = Inr e'"
  shows "\<forall>x. ne_valence e = Some x \<longrightarrow> fp_in_range (-1) 1 x"
    and "\<forall>x. ne_arousal e = Some x \<longrightarrow> fp_in_range 0 1 x"
    and "\<forall>x. ne_intensity e = Some x \<longrightarrow> fp_in_range 0 1 x"
    and "\<forall>p\<in>set (ne_memory_proposals e). \<not> memory_proposal_invalid p"
    and "\<forall>p\<in>set (ne_relationship_proposals e). \<not> relationship_proposal_invalid p"
    and "e' = e\<lparr>ne_animation_cues := filter animation_cue_kept (ne_animation_cues e),
                 ne_action_proposals := filter (action_proposal_kept allowed) (ne_action_proposals e)\<rparr>"
  using assms
  by (auto simp: validate_effects_def bind_result_Inr_iff validate_optional_range_Inr_iff
      list_ex_iff split: if_splits)

text \<open>What a structured effect may still contain after validation.\<close>

definition effects_safe :: "rstr list \<Rightarrow> npc_effects \<Rightarrow> bool" where
  "effects_safe allowed e \<longleftrightarrow>
     (\<forall>x. ne_valence e = Some x \<longrightarrow> fp_in_range (-1) 1 x)
     \<and> (\<forall>x. ne_arousal e = Some x \<longrightarrow> fp_in_range 0 1 x)
     \<and> (\<forall>x. ne_intensity e = Some x \<longrightarrow> fp_in_range 0 1 x)
     \<and> (\<forall>p\<in>set (ne_memory_proposals e). \<not> memory_proposal_invalid p)
     \<and> (\<forall>p\<in>set (ne_relationship_proposals e). \<not> relationship_proposal_invalid p)
     \<and> (\<forall>c\<in>set (ne_animation_cues e). animation_cue_kept c)
     \<and> (\<forall>p\<in>set (ne_action_proposals e). ap_action p \<in> set allowed \<and> action_proposal_kept allowed p)"

lemma neutral_effects_safe [simp]: "effects_safe allowed neutral_effects"
  by (simp add: effects_safe_def neutral_effects_def)

lemma validated_effects_safe:
  assumes "validate_effects allowed e = Inr e'"
  shows "effects_safe allowed e'"
  using validate_effects_InrD [OF assms]
  by (auto simp: effects_safe_def action_proposal_kept_def list_ex_iff)

end
