(* ===== verification/Structured_Response.thy ===== *)
theory Structured_Response
  imports Sentence_Segmenter Runtime_Types
begin

text \<open>
  The provider response boundary, \<open>crates/runtime-core/src/structured_response.rs\<close> up to the streaming
  adapter: the \<open>npc_response.v1\<close> envelope and its validation, the tolerant decoder, the speech-first
  scanner and the streaming adapter in its three formats. The JSON library \<open>serde_json\<close> is a
  parameter, a record of the conversions the source calls. \<open>None\<close> is a panic, which only the sentence
  segmenter and a slice off a character boundary can cause.
\<close>

section \<open>The envelope\<close>

definition MAX_PROVIDER_RESPONSE_BYTES :: nat where
  "MAX_PROVIDER_RESPONSE_BYTES = 65536"

definition MAX_SPOKEN_RESPONSE_BYTES :: nat where
  "MAX_SPOKEN_RESPONSE_BYTES = 16384"

definition TOP_LEVEL_FIELDS :: "rstr list" where
  "TOP_LEVEL_FIELDS = map lit [''schema_version'', ''spoken_response'', ''emotion'', ''voice_style'',
     ''animation_cues'', ''memory_proposals'', ''interruption_behavior'', ''actions'']"

datatype schema_version = SchemaV1

datatype emotion_kind = EmNeutral | EmJoy | EmSadness | EmAnger | EmFear | EmSurprise | EmDisgust
  | EmContempt | EmConcern | EmAmusement

fun emotion_as_str :: "emotion_kind \<Rightarrow> rstr" where
  "emotion_as_str EmNeutral = lit ''neutral''"
| "emotion_as_str EmJoy = lit ''joy''"
| "emotion_as_str EmSadness = lit ''sadness''"
| "emotion_as_str EmAnger = lit ''anger''"
| "emotion_as_str EmFear = lit ''fear''"
| "emotion_as_str EmSurprise = lit ''surprise''"
| "emotion_as_str EmDisgust = lit ''disgust''"
| "emotion_as_str EmContempt = lit ''contempt''"
| "emotion_as_str EmConcern = lit ''concern''"
| "emotion_as_str EmAmusement = lit ''amusement''"

record emotion_state =
  em_kind :: emotion_kind
  em_valence :: fp
  em_arousal :: fp
  em_intensity :: fp

datatype voice_style_kind = VoNeutral | VoWarm | VoTense | VoSomber | VoExcited | VoWhisper | VoShout

fun voice_as_str :: "voice_style_kind \<Rightarrow> rstr" where
  "voice_as_str VoNeutral = lit ''neutral''"
| "voice_as_str VoWarm = lit ''warm''"
| "voice_as_str VoTense = lit ''tense''"
| "voice_as_str VoSomber = lit ''somber''"
| "voice_as_str VoExcited = lit ''excited''"
| "voice_as_str VoWhisper = lit ''whisper''"
| "voice_as_str VoShout = lit ''shout''"

record voice_style =
  vs_kind :: voice_style_kind
  vs_speaking_rate :: fp
  vs_pitch_semitones :: fp
  vs_energy :: fp

definition default_voice_style :: voice_style where
  "default_voice_style = \<lparr>vs_kind = VoNeutral, vs_speaking_rate = Fin 1, vs_pitch_semitones = Fin 0, vs_energy = Fin 1\<rparr>"

datatype animation_kind = AnNod | AnShakeHead | AnLookAtPlayer | AnLookAway | AnGestureOpen | AnGesturePoint
  | AnIdleShift | AnVisemeStream

fun animation_as_str :: "animation_kind \<Rightarrow> rstr" where
  "animation_as_str AnNod = lit ''nod''"
| "animation_as_str AnShakeHead = lit ''shake_head''"
| "animation_as_str AnLookAtPlayer = lit ''look_at_player''"
| "animation_as_str AnLookAway = lit ''look_away''"
| "animation_as_str AnGestureOpen = lit ''gesture_open''"
| "animation_as_str AnGesturePoint = lit ''gesture_point''"
| "animation_as_str AnIdleShift = lit ''idle_shift''"
| "animation_as_str AnVisemeStream = lit ''viseme_stream''"

record animation_cue =
  an_kind :: animation_kind
  an_start_offset_ms :: nat
  an_duration_ms :: nat
  an_intensity :: fp

datatype memory_kind = MkEpisodic | MkFact | MkPreference | MkQuestState

record memory_proposal_v1 =
  mv_kind :: memory_kind
  mv_content :: rstr
  mv_importance :: fp
  mv_evidence_turn_ids :: "rstr list"
  mv_expires_after_ms :: "nat option"

datatype interruption_behavior = BargeInAllowed | FinishClause | Uninterruptible

fun interruption_as_str :: "interruption_behavior \<Rightarrow> rstr" where
  "interruption_as_str BargeInAllowed = lit ''barge_in_allowed''"
| "interruption_as_str FinishClause = lit ''finish_clause''"
| "interruption_as_str Uninterruptible = lit ''uninterruptible''"

record optional_action =
  oa_action_id :: rstr
  oa_arguments :: bmap
  oa_rationale :: rstr
  oa_requires_confirmation :: bool

record npc_response =
  nr_schema_version :: schema_version
  nr_spoken :: rstr
  nr_emotion :: "emotion_state option"
  nr_voice_style :: voice_style
  nr_animation_cues :: "animation_cue list"
  nr_memory_proposals :: "memory_proposal_v1 list"
  nr_interruption :: interruption_behavior
  nr_actions :: "optional_action list"

definition plain_text_response :: "rstr \<Rightarrow> npc_response" where
  "plain_text_response t = \<lparr>nr_schema_version = SchemaV1, nr_spoken = t, nr_emotion = None,
     nr_voice_style = default_voice_style, nr_animation_cues = [], nr_memory_proposals = [],
     nr_interruption = BargeInAllowed, nr_actions = []\<rparr>"

definition to_legacy_effects :: "npc_response \<Rightarrow> npc_effects" where
  "to_legacy_effects r =
     \<lparr>ne_emotion = map_option (\<lambda>e. emotion_as_str (em_kind e)) (nr_emotion r),
      ne_valence = map_option em_valence (nr_emotion r),
      ne_arousal = map_option em_arousal (nr_emotion r),
      ne_intensity = map_option em_intensity (nr_emotion r),
      ne_voice_style = Some (voice_as_str (vs_kind (nr_voice_style r))),
      ne_animation_cues = map (\<lambda>c. animation_as_str (an_kind c)) (nr_animation_cues r),
      ne_interruption_policy = Some (interruption_as_str (nr_interruption r)),
      ne_memory_proposals = map (\<lambda>p. \<lparr>mp_content = mv_content p, mp_confidence = mv_importance p\<rparr>) (nr_memory_proposals r),
      ne_relationship_proposals = [],
      ne_action_proposals = map (\<lambda>a. \<lparr>ap_action = oa_action_id a, ap_arguments = oa_arguments a\<rparr>) (nr_actions r)\<rparr>"

section \<open>Validation\<close>

record response_policy =
  vp_max_spoken_response_bytes :: nat
  vp_max_animation_cues :: nat
  vp_max_animation_duration_ms :: nat
  vp_max_memory_proposals :: nat
  vp_max_memory_text_bytes :: nat
  vp_max_evidence_turn_ids :: nat
  vp_max_actions :: nat
  vp_max_action_arguments :: nat
  vp_max_action_value_bytes :: nat
  vp_max_action_rationale_bytes :: nat
  vp_allow_uninterruptible :: bool
  vp_allowed_animation_cues :: "animation_kind list"
  vp_allowed_action_ids :: "rstr list"

definition default_response_policy :: response_policy where
  "default_response_policy = \<lparr>vp_max_spoken_response_bytes = MAX_SPOKEN_RESPONSE_BYTES, vp_max_animation_cues = 32,
     vp_max_animation_duration_ms = 60000, vp_max_memory_proposals = 16, vp_max_memory_text_bytes = 2000,
     vp_max_evidence_turn_ids = 32, vp_max_actions = 8, vp_max_action_arguments = 16, vp_max_action_value_bytes = 1000,
     vp_max_action_rationale_bytes = 1000, vp_allow_uninterruptible = False,
     vp_allowed_animation_cues = [AnNod, AnShakeHead, AnLookAtPlayer, AnLookAway, AnGestureOpen, AnGesturePoint,
        AnIdleShift, AnVisemeStream],
     vp_allowed_action_ids = []\<rparr>"

datatype response_error =
    ProviderOutputTooLarge nat
  | ExpectedObject
  | MalformedProviderOutput rstr
  | UnsupportedField rstr
  | EmptyText rstr
  | TextTooLarge rstr
  | InvalidText rstr
  | ResponseOutOfRange rstr
  | TooMany rstr
  | UnsupportedAnimation animation_kind
  | UnsupportedAction rstr
  | UninterruptibleDisabled

fun debug_animation :: "animation_kind \<Rightarrow> rstr" where
  "debug_animation AnNod = lit ''Nod''"
| "debug_animation AnShakeHead = lit ''ShakeHead''"
| "debug_animation AnLookAtPlayer = lit ''LookAtPlayer''"
| "debug_animation AnLookAway = lit ''LookAway''"
| "debug_animation AnGestureOpen = lit ''GestureOpen''"
| "debug_animation AnGesturePoint = lit ''GesturePoint''"
| "debug_animation AnIdleShift = lit ''IdleShift''"
| "debug_animation AnVisemeStream = lit ''VisemeStream''"

fun display_response_error :: "response_error \<Rightarrow> rstr" where
  "display_response_error (ProviderOutputTooLarge m) = lit ''provider response exceeds '' @ dec m @ lit '' bytes''"
| "display_response_error ExpectedObject = lit ''provider response must be a JSON object''"
| "display_response_error (MalformedProviderOutput e) = lit ''provider response is malformed: '' @ e"
| "display_response_error (UnsupportedField f) = lit ''unsupported response field: '' @ f"
| "display_response_error (EmptyText f) = lit ''required text is empty: '' @ f"
| "display_response_error (TextTooLarge f) = lit ''text exceeds its byte limit: '' @ f"
| "display_response_error (InvalidText f) = lit ''text contains a disallowed control character: '' @ f"
| "display_response_error (ResponseOutOfRange f) = lit ''numeric field is outside its accepted finite range: '' @ f"
| "display_response_error (TooMany f) = lit ''too many entries: '' @ f"
| "display_response_error (UnsupportedAnimation k) = lit ''animation cue is not allowed: '' @ debug_animation k"
| "display_response_error (UnsupportedAction a) = lit ''action is not allowlisted: '' @ a"
| "display_response_error UninterruptibleDisabled = lit ''uninterruptible speech is disabled by policy''"

definition disallowed_control :: "uchar \<Rightarrow> bool" where
  "disallowed_control c \<longleftrightarrow> is_control c \<and> \<not> (c = 10 \<or> c = 13 \<or> c = 9)"

definition validate_text :: "rstr \<Rightarrow> nat \<Rightarrow> rstr \<Rightarrow> (response_error, unit) result" where
  "validate_text t maximum field =
     (if is_blank t then Inl (EmptyText field)
      else if blen t > maximum then Inl (TextTooLarge field)
      else if list_ex disallowed_control t then Inl (InvalidText field)
      else Inr ())"

definition finite_range :: "fp \<Rightarrow> rat \<Rightarrow> rat \<Rightarrow> rstr \<Rightarrow> (response_error, unit) result" where
  "finite_range v lo hi field =
     (if fp_is_finite v \<and> fp_in_range lo hi v then Inr () else Inl (ResponseOutOfRange field))"

definition bounded_count :: "nat \<Rightarrow> nat \<Rightarrow> rstr \<Rightarrow> (response_error, unit) result" where
  "bounded_count actual maximum field = (if actual \<le> maximum then Inr () else Inl (TooMany field))"

text \<open>A \<open>for\<close> loop over checks with \<open>?\<close>.\<close>

fun check_all :: "('a \<Rightarrow> ('e, unit) result) \<Rightarrow> 'a list \<Rightarrow> ('e, unit) result" where
  "check_all f [] = Inr ()"
| "check_all f (x # xs) = bind_result (f x) (\<lambda>_. check_all f xs)"

definition validate_spoken :: "response_policy \<Rightarrow> rstr \<Rightarrow> (response_error, unit) result" where
  "validate_spoken p t = validate_text t (vp_max_spoken_response_bytes p) (lit ''spoken response'')"

definition validate_emotion :: "emotion_state \<Rightarrow> (response_error, unit) result" where
  "validate_emotion e =
     bind_result (finite_range (em_valence e) (-1) 1 (lit ''emotion valence'')) (\<lambda>_.
     bind_result (finite_range (em_arousal e) 0 1 (lit ''emotion arousal'')) (\<lambda>_.
       finite_range (em_intensity e) 0 1 (lit ''emotion intensity'')))"

definition validate_voice_style :: "voice_style \<Rightarrow> (response_error, unit) result" where
  "validate_voice_style s =
     bind_result (finite_range (vs_speaking_rate s) (1 / 2) 2 (lit ''voice speaking rate'')) (\<lambda>_.
     bind_result (finite_range (vs_pitch_semitones s) (-12) 12 (lit ''voice pitch semitones'')) (\<lambda>_.
       finite_range (vs_energy s) 0 2 (lit ''voice energy'')))"

definition validate_cue :: "response_policy \<Rightarrow> animation_cue \<Rightarrow> (response_error, unit) result" where
  "validate_cue p c =
     (if an_kind c \<notin> set (vp_allowed_animation_cues p) then Inl (UnsupportedAnimation (an_kind c))
      else if an_duration_ms c = 0 \<or> an_duration_ms c > vp_max_animation_duration_ms p
      then Inl (ResponseOutOfRange (lit ''animation duration''))
      else finite_range (an_intensity c) 0 1 (lit ''animation intensity''))"

definition validate_animation :: "response_policy \<Rightarrow> animation_cue list \<Rightarrow> (response_error, unit) result" where
  "validate_animation p cues =
     bind_result (bounded_count (length cues) (vp_max_animation_cues p) (lit ''animation cues'')) (\<lambda>_.
       check_all (validate_cue p) cues)"

definition validate_memory_item :: "response_policy \<Rightarrow> memory_proposal_v1 \<Rightarrow> (response_error, unit) result" where
  "validate_memory_item p m =
     bind_result (validate_text (mv_content m) (vp_max_memory_text_bytes p) (lit ''memory content'')) (\<lambda>_.
     bind_result (finite_range (mv_importance m) 0 1 (lit ''memory importance'')) (\<lambda>_.
     bind_result (bounded_count (length (mv_evidence_turn_ids m)) (vp_max_evidence_turn_ids p) (lit ''memory evidence turn IDs'')) (\<lambda>_.
       check_all (\<lambda>i. validate_text i 64 (lit ''memory evidence turn ID'')) (mv_evidence_turn_ids m))))"

definition validate_memory :: "response_policy \<Rightarrow> memory_proposal_v1 list \<Rightarrow> (response_error, unit) result" where
  "validate_memory p ms =
     bind_result (bounded_count (length ms) (vp_max_memory_proposals p) (lit ''memory proposals'')) (\<lambda>_.
       check_all (validate_memory_item p) ms)"

definition validate_interruption :: "response_policy \<Rightarrow> interruption_behavior \<Rightarrow> (response_error, unit) result" where
  "validate_interruption p b =
     (if b = Uninterruptible \<and> \<not> vp_allow_uninterruptible p then Inl UninterruptibleDisabled else Inr ())"

definition validate_action :: "response_policy \<Rightarrow> optional_action \<Rightarrow> (response_error, unit) result" where
  "validate_action p a =
     bind_result (validate_text (oa_action_id a) 128 (lit ''action ID'')) (\<lambda>_.
       if oa_action_id a \<notin> set (vp_allowed_action_ids p) then Inl (UnsupportedAction (oa_action_id a))
       else
         bind_result (bounded_count (length (oa_arguments a)) (vp_max_action_arguments p) (lit ''action arguments'')) (\<lambda>_.
         bind_result (check_all (\<lambda>(k, v).
             bind_result (validate_text k 64 (lit ''action argument key'')) (\<lambda>_.
               validate_text v (vp_max_action_value_bytes p) (lit ''action argument value''))) (oa_arguments a)) (\<lambda>_.
           validate_text (oa_rationale a) (vp_max_action_rationale_bytes p) (lit ''action rationale''))))"

definition validate_actions :: "response_policy \<Rightarrow> optional_action list \<Rightarrow> (response_error, unit) result" where
  "validate_actions p as =
     bind_result (bounded_count (length as) (vp_max_actions p) (lit ''actions'')) (\<lambda>_.
       check_all (validate_action p) as)"

definition validate_response :: "response_policy \<Rightarrow> npc_response \<Rightarrow> (response_error, unit) result" where
  "validate_response p r =
     bind_result (validate_spoken p (nr_spoken r)) (\<lambda>_.
     bind_result (case nr_emotion r of Some e \<Rightarrow> validate_emotion e | None \<Rightarrow> Inr ()) (\<lambda>_.
     bind_result (validate_voice_style (nr_voice_style r)) (\<lambda>_.
     bind_result (validate_animation p (nr_animation_cues r)) (\<lambda>_.
     bind_result (validate_memory p (nr_memory_proposals r)) (\<lambda>_.
     bind_result (validate_interruption p (nr_interruption r)) (\<lambda>_.
       validate_actions p (nr_actions r)))))))"

definition validate_provider_size :: "rstr \<Rightarrow> (response_error, unit) result" where
  "validate_provider_size raw =
     (if blen raw > MAX_PROVIDER_RESPONSE_BYTES then Inl (ProviderOutputTooLarge MAX_PROVIDER_RESPONSE_BYTES)
      else Inr ())"

section \<open>Decoding\<close>

text \<open>One step of a streaming deserializer: a value with the byte offset after it, an error that is
  the end of input, another error with its message, or no value.\<close>

datatype 'a json_step = JsonValue 'a nat | JsonEof | JsonError rstr | JsonNothing

text \<open>The conversions of \<open>serde_json\<close> that the source uses; errors are their messages. \<open>j_string_step\<close> and
  \<open>j_value_step\<close> are the first step of the streaming deserializer at the types \<open>String\<close> and \<open>Value\<close>.\<close>

record 'j json_api =
  j_from_str :: "rstr \<Rightarrow> (rstr, 'j) result"
  j_as_object :: "'j \<Rightarrow> (rstr \<times> 'j) list option"
  j_is_null :: "'j \<Rightarrow> bool"
  j_envelope :: "'j \<Rightarrow> (rstr, npc_response) result"
  j_schema :: "'j \<Rightarrow> (rstr, schema_version) result"
  j_spoken :: "'j \<Rightarrow> (rstr, rstr) result"
  j_emotion :: "'j \<Rightarrow> (rstr, emotion_state) result"
  j_voice_style :: "'j \<Rightarrow> (rstr, voice_style) result"
  j_animation_cues :: "'j \<Rightarrow> (rstr, animation_cue list) result"
  j_memory_proposals :: "'j \<Rightarrow> (rstr, memory_proposal_v1 list) result"
  j_interruption :: "'j \<Rightarrow> (rstr, interruption_behavior) result"
  j_actions :: "'j \<Rightarrow> (rstr, optional_action list) result"
  j_string_step :: "rstr \<Rightarrow> rstr json_step"
  j_value_step :: "rstr \<Rightarrow> unit json_step"
  j_str_schema :: "rstr \<Rightarrow> (rstr, schema_version) result"
  j_str_spoken :: "rstr \<Rightarrow> (rstr, rstr) result"

definition map_error :: "('e \<Rightarrow> 'f) \<Rightarrow> ('e, 'a) result \<Rightarrow> ('f, 'a) result" where
  "map_error f r = (case r of Inl e \<Rightarrow> Inl (f e) | Inr x \<Rightarrow> Inr x)"

definition unsupported_top_level_fields :: "(rstr \<times> 'j) list \<Rightarrow> rstr list" where
  "unsupported_top_level_fields obj = filter (\<lambda>k. k \<notin> set TOP_LEVEL_FIELDS) (map fst obj)"

definition from_json_strict :: "'j json_api \<Rightarrow> response_policy \<Rightarrow> rstr \<Rightarrow> (response_error, npc_response) result" where
  "from_json_strict js p raw =
     bind_result (validate_provider_size raw) (\<lambda>_.
     bind_result (map_error MalformedProviderOutput (j_from_str js raw)) (\<lambda>v.
     bind_result (case j_as_object js v of Some obj \<Rightarrow> Inr obj | None \<Rightarrow> Inl ExpectedObject) (\<lambda>obj.
       (case unsupported_top_level_fields obj of
          field # _ \<Rightarrow> Inl (UnsupportedField field)
        | [] \<Rightarrow>
            bind_result (map_error MalformedProviderOutput (j_envelope js v)) (\<lambda>r.
            bind_result (validate_response p r) (\<lambda>_. Inr r))))))"

datatype response_format = FmtStructured | FmtPlainTextCompatibility

datatype response_issue = UnsupportedTopLevelField rstr | OptionalSubsystemNeutralized rstr rstr

record decoded_response =
  dr_response :: npc_response
  dr_format :: response_format
  dr_issues :: "response_issue list"

definition decode_required :: "('j \<Rightarrow> (rstr, 'a) result) \<Rightarrow> (rstr \<times> 'j) list \<Rightarrow> rstr \<Rightarrow> (response_error, 'a) result" where
  "decode_required conv obj field =
     (case map_of obj field of
        None \<Rightarrow> Inl (MalformedProviderOutput (lit ''missing field `'' @ field @ lit ''`''))
      | Some v \<Rightarrow> map_error (\<lambda>e. MalformedProviderOutput (field @ lit '': '' @ e)) (conv v))"

definition decode_isolated_optional ::
  "'j json_api \<Rightarrow> ('j \<Rightarrow> (rstr, 'a) result) \<Rightarrow> ('a \<Rightarrow> (response_error, unit) result) \<Rightarrow> (rstr \<times> 'j) list \<Rightarrow> rstr \<Rightarrow> rstr
     \<Rightarrow> 'a option \<times> response_issue list" where
  "decode_isolated_optional js conv validate obj field subsystem =
     (case map_of obj field of
        None \<Rightarrow> (None, [])
      | Some v \<Rightarrow>
          if j_is_null js v then (None, [])
          else (case conv v of
                  Inl e \<Rightarrow> (None, [OptionalSubsystemNeutralized subsystem e])
                | Inr d \<Rightarrow>
                    (case validate d of
                       Inr _ \<Rightarrow> (Some d, [])
                     | Inl e \<Rightarrow> (None, [OptionalSubsystemNeutralized subsystem (display_response_error e)]))))"

definition decode_isolated_default ::
  "('j \<Rightarrow> (rstr, 'a) result) \<Rightarrow> ('a \<Rightarrow> (response_error, unit) result) \<Rightarrow> 'a \<Rightarrow> (rstr \<times> 'j) list \<Rightarrow> rstr \<Rightarrow> rstr
     \<Rightarrow> 'a \<times> response_issue list" where
  "decode_isolated_default conv validate neutral obj field subsystem =
     (case map_of obj field of
        None \<Rightarrow> (neutral, [])
      | Some v \<Rightarrow>
          (case conv v of
             Inl e \<Rightarrow> (neutral, [OptionalSubsystemNeutralized subsystem e])
           | Inr d \<Rightarrow>
               (case validate d of
                  Inr _ \<Rightarrow> (d, [])
                | Inl e \<Rightarrow> (neutral, [OptionalSubsystemNeutralized subsystem (display_response_error e)]))))"

text \<open>The optional parts of \<open>decode_structured_with_isolation\<close>.\<close>

definition isolated_response ::
  "'j json_api \<Rightarrow> response_policy \<Rightarrow> schema_version \<Rightarrow> rstr \<Rightarrow> (rstr \<times> 'j) list \<Rightarrow> npc_response \<times> response_issue list" where
  "isolated_response js p schema spk obj =
     (let (emotion, i1) = decode_isolated_optional js (j_emotion js) validate_emotion obj (lit ''emotion'') (lit ''emotion'');
          (style, i2) = decode_isolated_default (j_voice_style js) validate_voice_style default_voice_style obj
             (lit ''voice_style'') (lit ''voice_style'');
          (cues, i3) = decode_isolated_default (j_animation_cues js) (validate_animation p) [] obj
             (lit ''animation_cues'') (lit ''animation'');
          (mems, i4) = decode_isolated_default (j_memory_proposals js) (validate_memory p) [] obj
             (lit ''memory_proposals'') (lit ''memory'');
          (inter, i5) = decode_isolated_default (j_interruption js) (validate_interruption p) BargeInAllowed obj
             (lit ''interruption_behavior'') (lit ''interruption'');
          (acts, i6) = decode_isolated_default (j_actions js) (validate_actions p) [] obj (lit ''actions'') (lit ''actions'')
      in (\<lparr>nr_schema_version = schema, nr_spoken = spk, nr_emotion = emotion, nr_voice_style = style,
           nr_animation_cues = cues, nr_memory_proposals = mems, nr_interruption = inter, nr_actions = acts\<rparr>,
          map UnsupportedTopLevelField (unsupported_top_level_fields obj) @ i1 @ i2 @ i3 @ i4 @ i5 @ i6))"

definition decode_structured_with_isolation ::
  "'j json_api \<Rightarrow> response_policy \<Rightarrow> rstr \<Rightarrow> (response_error, decoded_response) result" where
  "decode_structured_with_isolation js p raw =
     bind_result (map_error MalformedProviderOutput (j_from_str js raw)) (\<lambda>v.
     bind_result (case j_as_object js v of Some obj \<Rightarrow> Inr obj | None \<Rightarrow> Inl ExpectedObject) (\<lambda>obj.
     bind_result (decode_required (j_schema js) obj (lit ''schema_version'')) (\<lambda>schema.
     bind_result (decode_required (j_spoken js) obj (lit ''spoken_response'')) (\<lambda>spk.
     bind_result (validate_spoken p spk) (\<lambda>_.
       (let (response, issues) = isolated_response js p schema spk obj in
        bind_result (validate_response p response) (\<lambda>_.
          Inr \<lparr>dr_response = response, dr_format = FmtStructured, dr_issues = issues\<rparr>)))))))"

definition decode :: "'j json_api \<Rightarrow> response_policy \<Rightarrow> rstr \<Rightarrow> (response_error, decoded_response) result" where
  "decode js p raw =
     bind_result (validate_provider_size raw) (\<lambda>_.
       (let trimmed = trim raw in
        if trimmed = [] then Inl (EmptyText (lit ''provider response''))
        else if hd trimmed = 123 \<or> hd trimmed = 91 then decode_structured_with_isolation js p trimmed
        else
          (let response = plain_text_response trimmed in
           bind_result (validate_response p response) (\<lambda>_.
             Inr \<lparr>dr_response = response, dr_format = FmtPlainTextCompatibility, dr_issues = []\<rparr>))))"

section \<open>The speech-first scanner\<close>

record envelope_scan =
  sc_spoken_response :: "rstr option"
  sc_complete :: bool

definition speech_first_scan_progress :: "bool \<Rightarrow> rstr option \<Rightarrow> envelope_scan" where
  "speech_first_scan_progress schema_ok spk =
     \<lparr>sc_spoken_response = (if schema_ok then spk else None), sc_complete = False\<rparr>"

text \<open>The position of the scanner is the rest of the input from that byte on.\<close>

definition skip_json_whitespace :: "rstr \<Rightarrow> rstr" where
  "skip_json_whitespace rest = dropWhile (\<lambda>c. c = 32 \<or> c = 10 \<or> c = 13 \<or> c = 9) rest"

text \<open>\<open>Ok(None)\<close> is the value \<open>Inr None\<close>.\<close>

definition parse_complete_json_value :: "(rstr \<Rightarrow> 'a json_step) \<Rightarrow> rstr \<Rightarrow> (response_error, ('a \<times> nat) option) result" where
  "parse_complete_json_value step rest =
     (if rest = [] then Inr None
      else (case step rest of
              JsonValue v n \<Rightarrow> Inr (Some (v, n))
            | JsonEof \<Rightarrow> Inr None
            | JsonError e \<Rightarrow> Inl (MalformedProviderOutput e)
            | JsonNothing \<Rightarrow> Inr None))"

text \<open>The value of one known field: the schema marker and the spoken response are decoded.\<close>

definition scan_field_value ::
  "'j json_api \<Rightarrow> rstr \<Rightarrow> rstr \<Rightarrow> bool \<Rightarrow> rstr option \<Rightarrow> (response_error, bool \<times> rstr option) result" where
  "scan_field_value js field raw_value schema_ok spk =
     (if field = lit ''schema_version''
      then bind_result (map_error MalformedProviderOutput (j_str_schema js raw_value)) (\<lambda>_. Inr (True, spk))
      else if field = lit ''spoken_response''
      then bind_result (map_error MalformedProviderOutput (j_str_spoken js raw_value)) (\<lambda>t. Inr (schema_ok, Some t))
      else Inr (schema_ok, spk))"

abbreviation malformed :: "string \<Rightarrow> response_error" where
  "malformed m \<equiv> MalformedProviderOutput (lit m)"

lemma skip_json_whitespace_length: "length (skip_json_whitespace r) \<le> length r"
  by (simp add: skip_json_whitespace_def length_dropWhile_le)

lemma str_from_length: "length (str_from s n) \<le> length s"
  by (induction s n rule: str_from.induct) auto

text \<open>One round of the loop of \<open>scan_speech_first_envelope\<close>: it returns, or it has read the field
  \<open>field\<close> and goes on at the rest with the schema flag and the spoken response read so far.\<close>

datatype scan_step =
    ScanDone "(response_error, envelope_scan) result"
  | ScanNext (scan_field: rstr) (scan_schema: bool) (scan_spoken: "rstr option") (scan_rest: rstr)

definition scan_object_end :: "bool \<Rightarrow> rstr option \<Rightarrow> rstr \<Rightarrow> (response_error, envelope_scan) result" where
  "scan_object_end schema_ok spk rest =
     (if skip_json_whitespace rest \<noteq> [] then Inl (malformed ''speech-first response has trailing provider output'')
      else if \<not> schema_ok \<or> spk = None then Inl (malformed ''speech-first response omitted a required field'')
      else Inr \<lparr>sc_spoken_response = spk, sc_complete = True\<rparr>)"

text \<open>The part of the round after the colon of a field.\<close>

definition scan_value :: "'j json_api \<Rightarrow> rstr list \<Rightarrow> bool \<Rightarrow> rstr option \<Rightarrow> rstr \<Rightarrow> rstr \<Rightarrow> scan_step" where
  "scan_value js seen schema_ok spk field rest =
     (if field \<in> set seen then ScanDone (Inl (MalformedProviderOutput (lit ''duplicate response field: '' @ field)))
      else if field \<notin> set TOP_LEVEL_FIELDS then ScanDone (Inl (UnsupportedField field))
      else
        (let value_start = skip_json_whitespace rest in
         case parse_complete_json_value (j_value_step js) value_start of
           Inl e \<Rightarrow> ScanDone (Inl e)
         | Inr None \<Rightarrow> ScanDone (Inr (speech_first_scan_progress schema_ok spk))
         | Inr (Some (_, n)) \<Rightarrow>
             (case scan_field_value js field (str_upto value_start n) schema_ok spk of
                Inl e \<Rightarrow> ScanDone (Inl e)
              | Inr (schema_ok', spk') \<Rightarrow>
                  (case skip_json_whitespace (str_from value_start n) of
                     [] \<Rightarrow> ScanDone (Inr \<lparr>sc_spoken_response = None, sc_complete = False\<rparr>)
                   | c # rest' \<Rightarrow>
                       if c = 44 then ScanNext field schema_ok' spk' rest'
                       else if c = 125 then ScanNext field schema_ok' spk' (c # rest')
                       else ScanDone (Inl (malformed
                         ''speech-first response fields require a comma or object terminator''))))))"

definition scan_round :: "'j json_api \<Rightarrow> rstr list \<Rightarrow> bool \<Rightarrow> rstr option \<Rightarrow> rstr \<Rightarrow> scan_step" where
  "scan_round js seen schema_ok spk rest =
     (let progress = ScanDone (Inr (speech_first_scan_progress schema_ok spk)) in
      case skip_json_whitespace rest of
        [] \<Rightarrow> progress
      | c # tail \<Rightarrow>
          if c = 125 then ScanDone (scan_object_end schema_ok spk tail)
          else
            (case parse_complete_json_value (j_string_step js) (c # tail) of
               Inl e \<Rightarrow> ScanDone (Inl e)
             | Inr None \<Rightarrow> progress
             | Inr (Some (field, n)) \<Rightarrow>
                 (case skip_json_whitespace (str_from (c # tail) n) of
                    [] \<Rightarrow> progress
                  | d # after \<Rightarrow>
                      if d = 58 then scan_value js seen schema_ok spk field after
                      else ScanDone (Inl (malformed ''speech-first response field is missing its colon'')))))"

lemma skip_json_whitespace_Cons_length: "skip_json_whitespace r = c # t \<Longrightarrow> length t < length r"
  using skip_json_whitespace_length [of r] by simp

lemma scan_value_shrinks: "scan_value js seen ok spk f rest = ScanNext f' ok' spk' rest' \<Longrightarrow> length rest' \<le> length rest"
proof -
  assume "scan_value js seen ok spk f rest = ScanNext f' ok' spk' rest'"
  then have "\<exists>n. length rest' \<le> length (skip_json_whitespace (str_from (skip_json_whitespace rest) n))"
    unfolding scan_value_def Let_def
    by (auto split: if_splits sum.splits option.splits list.splits)
      (metis length_Cons le_SucI order_refl, metis order_refl)
  then obtain n where "length rest' \<le> length (skip_json_whitespace (str_from (skip_json_whitespace rest) n))" ..
  then show ?thesis
    using skip_json_whitespace_length [of "str_from (skip_json_whitespace rest) n"]
      str_from_length [of "skip_json_whitespace rest" n] skip_json_whitespace_length [of rest] by simp
qed

lemma scan_round_shrinks: "scan_round js seen ok spk rest = ScanNext f ok' spk' rest' \<Longrightarrow> length rest' < length rest"
proof -
  assume "scan_round js seen ok spk rest = ScanNext f ok' spk' rest'"
  then obtain c t n d u g where c: "skip_json_whitespace rest = c # t"
    and d: "skip_json_whitespace (str_from (c # t) n) = d # u"
    and v: "scan_value js seen ok spk g u = ScanNext f ok' spk' rest'"
    unfolding scan_round_def Let_def by (auto split: if_splits sum.splits option.splits list.splits)
  show ?thesis
    using scan_value_shrinks [OF v] skip_json_whitespace_Cons_length [OF d] str_from_length [of "c # t" n]
      skip_json_whitespace_length [of rest] c by simp
qed

function scan_fields ::
  "'j json_api \<Rightarrow> rstr list \<Rightarrow> bool \<Rightarrow> rstr option \<Rightarrow> rstr \<Rightarrow> (response_error, envelope_scan) result" where
  "scan_fields js seen schema_ok spk rest =
     (case scan_round js seen schema_ok spk rest of
        ScanDone r \<Rightarrow> r
      | ScanNext field schema_ok' spk' rest' \<Rightarrow> scan_fields js (field # seen) schema_ok' spk' rest')"
  by pat_completeness auto
termination
  by (relation "measure (\<lambda>(js, seen, ok, spk, rest). length rest)") (auto dest: scan_round_shrinks)

declare scan_fields.simps [simp del]

definition scan_speech_first_envelope :: "'j json_api \<Rightarrow> rstr \<Rightarrow> (response_error, envelope_scan) result" where
  "scan_speech_first_envelope js raw =
     (case skip_json_whitespace raw of
        [] \<Rightarrow> Inr \<lparr>sc_spoken_response = None, sc_complete = False\<rparr>
      | c # rest \<Rightarrow>
          if c = 123 then scan_fields js [] False None rest
          else Inl (malformed ''speech-first response must start with a JSON object''))"

section \<open>The streaming adapter\<close>

datatype streaming_format = StructuredV1 | StructuredSpeechFirstV1 | LegacyPlainText

datatype adapter_state = AdActive | AdCancelled | AdFinalized

datatype streaming_error =
    StaleGeneration nat nat
  | StreamClosed
  | NonMonotonicSequence nat nat
  | UnsupportedRouteFormat rstr
  | InvalidResponse response_error

fun display_streaming_error :: "streaming_error \<Rightarrow> rstr" where
  "display_streaming_error (StaleGeneration e r) =
     lit ''stale cancellation generation: expected '' @ dec e @ lit '', received '' @ dec r"
| "display_streaming_error StreamClosed = lit ''response adapter is no longer accepting provider output''"
| "display_streaming_error (NonMonotonicSequence p r) =
     lit ''provider delta sequence did not advance beyond '' @ dec p @ lit '': '' @ dec r"
| "display_streaming_error (UnsupportedRouteFormat f) = lit ''unsupported response route format: '' @ f"
| "display_streaming_error (InvalidResponse e) = display_response_error e"

definition from_route_metadata :: "bmap \<Rightarrow> (streaming_error, streaming_format option) result" where
  "from_route_metadata metadata =
     (case map_of metadata (lit ''npc_response_format'') of
        Some v \<Rightarrow>
          if v = lit ''structured_v1'' then Inr (Some StructuredV1)
          else if v = lit ''structured_speech_first_v1'' then Inr (Some StructuredSpeechFirstV1)
          else if v = lit ''legacy_plain_text'' then Inr (Some LegacyPlainText)
          else Inl (UnsupportedRouteFormat v)
      | None \<Rightarrow> Inr None)"

record finalized_response =
  fr_response :: npc_response
  fr_format :: streaming_format
  fr_ready_sentences :: "sentence_span list"
  fr_all_sentences :: "sentence_span list"

record adapter =
  ad_format :: streaming_format
  ad_policy :: response_policy
  ad_sentence_config :: segmenter_config
  ad_segmenter :: "segmenter option"
  ad_generation :: nat
  ad_state :: adapter_state
  ad_last_sequence :: "nat option"
  ad_buffer :: rstr
  ad_released :: "sentence_span list"
  ad_speech_first_text :: "rstr option"

definition new_adapter :: "streaming_format \<Rightarrow> response_policy \<Rightarrow> segmenter_config \<Rightarrow> nat \<Rightarrow> adapter option" where
  "new_adapter format p cfg g =
     (let mk = (\<lambda>sg. \<lparr>ad_format = format, ad_policy = p, ad_sentence_config = cfg, ad_segmenter = sg, ad_generation = g,
                    ad_state = AdActive, ad_last_sequence = None, ad_buffer = [], ad_released = [],
                    ad_speech_first_text = None\<rparr>) in
      if format = LegacyPlainText then map_option (\<lambda>sg. mk (Some sg)) (new_segmenter cfg) else Some (mk None))"

definition released_spoken_text :: "adapter \<Rightarrow> rstr option" where
  "released_spoken_text ad = ad_speech_first_text ad"

definition require_generation :: "adapter \<Rightarrow> nat \<Rightarrow> (streaming_error, unit) result" where
  "require_generation ad observed =
     (if observed = ad_generation ad then Inr () else Inl (StaleGeneration (ad_generation ad) observed))"

definition require_active_generation :: "adapter \<Rightarrow> nat \<Rightarrow> (streaming_error, unit) result" where
  "require_active_generation ad observed =
     bind_result (require_generation ad observed) (\<lambda>_.
       if ad_state ad = AdActive then Inr () else Inl StreamClosed)"

text \<open>A fresh segmenter run over one whole text.\<close>

definition segment_text :: "segmenter_config \<Rightarrow> rstr \<Rightarrow> sentence_span list option" where
  "segment_text cfg t =
     (case new_segmenter cfg of
        None \<Rightarrow> None
      | Some sg \<Rightarrow>
          (case push_spans t sg of
             None \<Rightarrow> None
           | Some (ready, sg') \<Rightarrow> map_option (\<lambda>(rest, _). ready @ rest) (finish_spans sg')))"

definition adapter_maximum :: "adapter \<Rightarrow> nat" where
  "adapter_maximum ad =
     (case ad_format ad of
        LegacyPlainText \<Rightarrow> min (vp_max_spoken_response_bytes (ad_policy ad)) MAX_SPOKEN_RESPONSE_BYTES
      | _ \<Rightarrow> MAX_PROVIDER_RESPONSE_BYTES)"

text \<open>The guards of \<open>push_delta\<close>, in their order.\<close>

definition push_guard :: "adapter \<Rightarrow> nat \<Rightarrow> nat \<Rightarrow> rstr \<Rightarrow> (streaming_error, unit) result" where
  "push_guard ad observed sequence delta =
     bind_result (require_active_generation ad observed) (\<lambda>_.
     bind_result (case ad_last_sequence ad of
                    Some previous \<Rightarrow> if sequence \<le> previous then Inl (NonMonotonicSequence previous sequence) else Inr ()
                  | None \<Rightarrow> Inr ()) (\<lambda>_.
       if u64_max < blen (ad_buffer ad) + blen delta then Inl (InvalidResponse (ProviderOutputTooLarge (adapter_maximum ad)))
       else if adapter_maximum ad < blen (ad_buffer ad) + blen delta
       then Inl (InvalidResponse (ProviderOutputTooLarge (adapter_maximum ad)))
       else if ad_format ad = LegacyPlainText \<and> list_ex disallowed_control delta
       then Inl (InvalidResponse (InvalidText (lit ''spoken response'')))
       else Inr ()))"

text \<open>The speech-first branch of \<open>push_delta\<close>, on the adapter whose buffer already holds the delta.\<close>

definition speech_first_push :: "'j json_api \<Rightarrow> adapter \<Rightarrow> ((streaming_error, sentence_span list) result \<times> adapter) option" where
  "speech_first_push js ad =
     (case scan_speech_first_envelope js (ad_buffer ad) of
        Inl e \<Rightarrow> Some (Inl (InvalidResponse e), ad)
      | Inr s \<Rightarrow>
          (case sc_spoken_response s of
             None \<Rightarrow> Some (Inr [], ad)
           | Some t \<Rightarrow>
               (case validate_spoken (ad_policy ad) t of
                  Inl e \<Rightarrow> Some (Inl (InvalidResponse e), ad)
                | Inr _ \<Rightarrow>
                    (case ad_speech_first_text ad of
                       Some released \<Rightarrow>
                         if released \<noteq> t
                         then Some (Inl (InvalidResponse (malformed ''speech-first spoken response changed after release'')), ad)
                         else Some (Inr [], ad)
                     | None \<Rightarrow>
                         (case segment_text (ad_sentence_config ad) t of
                            None \<Rightarrow> None
                          | Some sentences \<Rightarrow>
                              Some (Inr sentences, ad\<lparr>ad_speech_first_text := Some t,
                                                      ad_released := ad_released ad @ sentences\<rparr>))))))"

definition push_delta ::
  "'j json_api \<Rightarrow> nat \<Rightarrow> nat \<Rightarrow> rstr \<Rightarrow> adapter \<Rightarrow> ((streaming_error, sentence_span list) result \<times> adapter) option" where
  "push_delta js observed sequence delta ad =
     (case push_guard ad observed sequence delta of
        Inl e \<Rightarrow> Some (Inl e, ad)
      | Inr _ \<Rightarrow>
          (let ad1 = ad\<lparr>ad_last_sequence := Some sequence, ad_buffer := ad_buffer ad @ delta\<rparr> in
           case ad_format ad of
             StructuredV1 \<Rightarrow> Some (Inr [], ad1)
           | StructuredSpeechFirstV1 \<Rightarrow> speech_first_push js ad1
           | LegacyPlainText \<Rightarrow>
               (case ad_segmenter ad of
                  None \<Rightarrow> None
                | Some sg \<Rightarrow>
                    (case push_spans delta sg of
                       None \<Rightarrow> None
                     | Some (sentences, sg') \<Rightarrow>
                         Some (Inr sentences, ad1\<lparr>ad_segmenter := Some sg', ad_released := ad_released ad @ sentences\<rparr>)))))"

text \<open>The three branches of \<open>finish\<close>: the response, the newly released sentences, all sentences and the adapter.\<close>

definition finish_structured ::
  "'j json_api \<Rightarrow> adapter \<Rightarrow> (response_error, npc_response \<times> sentence_span list \<times> sentence_span list \<times> adapter) result option" where
  "finish_structured js ad =
     (case from_json_strict js (ad_policy ad) (ad_buffer ad) of
        Inl e \<Rightarrow> Some (Inl e)
      | Inr r \<Rightarrow>
          (case segment_text (ad_sentence_config ad) (nr_spoken r) of
             None \<Rightarrow> None
           | Some sentences \<Rightarrow> Some (Inr (r, sentences, sentences, ad))))"

definition finish_speech_first ::
  "'j json_api \<Rightarrow> adapter \<Rightarrow> (response_error, npc_response \<times> sentence_span list \<times> sentence_span list \<times> adapter) result" where
  "finish_speech_first js ad =
     bind_result (scan_speech_first_envelope js (ad_buffer ad)) (\<lambda>s.
       if \<not> sc_complete s
       then Inl (malformed ''speech-first response ended before the top-level object closed'')
       else (case ad_speech_first_text ad of
               None \<Rightarrow> Inl (malformed ''speech-first response omitted its required validated fields'')
             | Some released \<Rightarrow>
                 bind_result (from_json_strict js (ad_policy ad) (ad_buffer ad)) (\<lambda>r.
                   if released \<noteq> nr_spoken r
                   then Inl (malformed ''speech-first spoken response changed after release'')
                   else Inr (r, [], ad_released ad, ad))))"

definition finish_legacy ::
  "adapter \<Rightarrow> (response_error, npc_response \<times> sentence_span list \<times> sentence_span list \<times> adapter) result option" where
  "finish_legacy ad =
     (let r = plain_text_response (ad_buffer ad) in
      case validate_response (ad_policy ad) r of
        Inl e \<Rightarrow> Some (Inl e)
      | Inr _ \<Rightarrow>
          (case ad_segmenter ad of
             None \<Rightarrow> None
           | Some sg \<Rightarrow>
               (case finish_spans sg of
                  None \<Rightarrow> None
                | Some (ready, sg') \<Rightarrow>
                    Some (Inr (r, ready, ad_released ad @ ready,
                               ad\<lparr>ad_segmenter := Some sg', ad_released := ad_released ad @ ready\<rparr>)))))"

definition adapter_finish ::
  "'j json_api \<Rightarrow> nat \<Rightarrow> adapter \<Rightarrow> ((streaming_error, finalized_response) result \<times> adapter) option" where
  "adapter_finish js observed ad =
     (case require_active_generation ad observed of
        Inl e \<Rightarrow> Some (Inl e, ad)
      | Inr _ \<Rightarrow>
          (case (case ad_format ad of
                   StructuredV1 \<Rightarrow> finish_structured js ad
                 | StructuredSpeechFirstV1 \<Rightarrow> Some (finish_speech_first js ad)
                 | LegacyPlainText \<Rightarrow> finish_legacy ad) of
             None \<Rightarrow> None
           | Some (Inl e) \<Rightarrow> Some (Inl (InvalidResponse e), ad)
           | Some (Inr (r, ready, all, ad')) \<Rightarrow>
               Some (Inr \<lparr>fr_response = r, fr_format = ad_format ad, fr_ready_sentences = ready, fr_all_sentences = all\<rparr>,
                     ad'\<lparr>ad_state := AdFinalized\<rparr>)))"

definition adapter_cancel :: "nat \<Rightarrow> adapter \<Rightarrow> (streaming_error, unit) result \<times> adapter" where
  "adapter_cancel observed ad =
     (case require_generation ad observed of
        Inl e \<Rightarrow> (Inl e, ad)
      | Inr _ \<Rightarrow>
          (case ad_state ad of
             AdActive \<Rightarrow> (Inr (), ad\<lparr>ad_state := AdCancelled, ad_buffer := [], ad_segmenter := None\<rparr>)
           | AdCancelled \<Rightarrow> (Inr (), ad)
           | AdFinalized \<Rightarrow> (Inl StreamClosed, ad)))"

end
