(* ===== verification/Circuit_Breaker.thy ===== *)
theory Circuit_Breaker
  imports Runtime_Types
begin

text \<open>
  The provider circuit breaker, \<open>crates/runtime-core/src/circuit_breaker.rs\<close>, with its counters kept
  at their 32-bit width. Every operation runs under the breaker's mutex, so an operation is one atomic
  function on the state; the clock is an argument. A permit is consumed by \<open>success\<close>, \<open>failure\<close>
  or by being dropped, and the machine \<open>breaker_step\<close> counts the permits in circulation.
  The registry maps circuit keys to breakers; the locale \<open>keyed_cells\<close> states the isolation of keys
  that the lanes of a turn rely on.
\<close>

section \<open>Definitions\<close>

type_synonym u32 = "32 word"
type_synonym instant = nat

record circuit_config =
  cc_failure_threshold :: u32
  cc_recovery_success_threshold :: u32
  cc_open_duration :: duration
  cc_half_open_max_in_flight :: u32

definition default_circuit_config :: circuit_config where
  "default_circuit_config = \<lparr>cc_failure_threshold = 3, cc_recovery_success_threshold = 2,
     cc_open_duration = 30000000000, cc_half_open_max_in_flight = 1\<rparr>"

datatype circuit_state = Closed u32 | Open instant | HalfOpen u32 u32

datatype circuit_snapshot = SnapClosed u32 | SnapOpen duration | SnapHalfOpen u32 u32

datatype circuit_open = CircuitOpen (retry_after: duration)

text \<open>The assertions of \<open>CircuitBreaker::new\<close>; \<open>None\<close> is the panic.\<close>

definition config_ok :: "circuit_config \<Rightarrow> bool" where
  "config_ok cfg \<longleftrightarrow> 0 < cc_failure_threshold cfg \<and> 0 < cc_recovery_success_threshold cfg
     \<and> 0 < cc_half_open_max_in_flight cfg"

definition new_breaker :: "circuit_config \<Rightarrow> circuit_state option" where
  "new_breaker cfg = (if config_ok cfg then Some (Closed 0) else None)"

text \<open>\<open>try_acquire_at\<close>: first an elapsed open circuit becomes half-open, then the half-open
  concurrency limit is applied to the state so obtained.\<close>

definition open_to_half_open ::
  "circuit_config \<Rightarrow> instant \<Rightarrow> circuit_state \<Rightarrow> (circuit_open, circuit_state) result" where
  "open_to_half_open cfg now st =
     (case st of
        Open opened_at \<Rightarrow>
          (let elapsed = sat_sub now opened_at in
           if elapsed \<ge> cc_open_duration cfg then Inr (HalfOpen 0 0)
           else Inl (CircuitOpen (cc_open_duration cfg - elapsed)))
      | _ \<Rightarrow> Inr st)"

definition take_half_open_slot ::
  "circuit_config \<Rightarrow> circuit_state \<Rightarrow> (circuit_open, unit) result \<times> circuit_state" where
  "take_half_open_slot cfg st =
     (case st of
        HalfOpen in_flight successes \<Rightarrow>
          if in_flight \<ge> cc_half_open_max_in_flight cfg then (Inl (CircuitOpen (cc_open_duration cfg)), st)
          else (Inr (), HalfOpen (in_flight + 1) successes)
      | _ \<Rightarrow> (Inr (), st))"

definition try_acquire_at ::
  "circuit_config \<Rightarrow> instant \<Rightarrow> circuit_state \<Rightarrow> (circuit_open, unit) result \<times> circuit_state" where
  "try_acquire_at cfg now st =
     (case open_to_half_open cfg now st of
        Inl e \<Rightarrow> (Inl e, st)
      | Inr st' \<Rightarrow> take_half_open_slot cfg st')"

definition snapshot :: "circuit_config \<Rightarrow> instant \<Rightarrow> circuit_state \<Rightarrow> circuit_snapshot" where
  "snapshot cfg now st =
     (case st of
        Closed n \<Rightarrow> SnapClosed n
      | Open opened_at \<Rightarrow> SnapOpen (sat_sub (cc_open_duration cfg) (sat_sub now opened_at))
      | HalfOpen f s \<Rightarrow> SnapHalfOpen f s)"

definition u32_sat_dec :: "u32 \<Rightarrow> u32" where
  "u32_sat_dec n = (if n = 0 then 0 else n - 1)"

definition record_success :: "circuit_config \<Rightarrow> circuit_state \<Rightarrow> circuit_state" where
  "record_success cfg st =
     (case st of
        Closed _ \<Rightarrow> Closed 0
      | HalfOpen in_flight successes \<Rightarrow>
          (let in_flight = u32_sat_dec in_flight; successes = successes + 1 in
           if successes \<ge> cc_recovery_success_threshold cfg then Closed 0
           else HalfOpen in_flight successes)
      | Open t \<Rightarrow> Open t)"

definition record_failure :: "circuit_config \<Rightarrow> instant \<Rightarrow> circuit_state \<Rightarrow> circuit_state" where
  "record_failure cfg now st =
     (case st of
        Closed n \<Rightarrow>
          (let n = n + 1 in if n \<ge> cc_failure_threshold cfg then Open now else Closed n)
      | HalfOpen _ _ \<Rightarrow> Open now
      | Open t \<Rightarrow> Open t)"

text \<open>Dropping an unfinished permit only gives back a half-open slot.\<close>

definition drop_permit :: "circuit_state \<Rightarrow> circuit_state" where
  "drop_permit st =
     (case st of HalfOpen in_flight successes \<Rightarrow> HalfOpen (u32_sat_dec in_flight) successes | _ \<Rightarrow> st)"

text \<open>The breaker with the permits in circulation.\<close>

datatype breaker_event = EvAcquire instant | EvSuccess | EvFailure instant | EvDrop

definition breaker_apply :: "circuit_config \<Rightarrow> breaker_event \<Rightarrow> circuit_state \<Rightarrow> circuit_state" where
  "breaker_apply cfg ev st =
     (case ev of
        EvAcquire now \<Rightarrow> snd (try_acquire_at cfg now st)
      | EvSuccess \<Rightarrow> record_success cfg st
      | EvFailure now \<Rightarrow> record_failure cfg now st
      | EvDrop \<Rightarrow> drop_permit st)"

inductive breaker_step :: "circuit_config \<Rightarrow> circuit_state \<times> nat \<Rightarrow> circuit_state \<times> nat \<Rightarrow> bool"
  for cfg where
  granted: "try_acquire_at cfg now st = (Inr (), st') \<Longrightarrow> breaker_step cfg (st, n) (st', Suc n)"
| refused: "try_acquire_at cfg now st = (Inl e, st') \<Longrightarrow> breaker_step cfg (st, n) (st', n)"
| success: "breaker_step cfg (st, Suc n) (record_success cfg st, n)"
| failure: "breaker_step cfg (st, Suc n) (record_failure cfg now st, n)"
| dropped: "breaker_step cfg (st, Suc n) (drop_permit st, n)"

inductive breaker_reachable :: "circuit_config \<Rightarrow> circuit_state \<times> nat \<Rightarrow> bool" for cfg where
  start: "new_breaker cfg = Some st \<Longrightarrow> breaker_reachable cfg (st, 0)"
| step: "breaker_reachable cfg s \<Longrightarrow> breaker_step cfg s s' \<Longrightarrow> breaker_reachable cfg s'"

section \<open>The registry\<close>

type_synonym registry = "(rstr, circuit_state) hmap"

definition debug_modality :: "provider_modality \<Rightarrow> rstr" where
  "debug_modality m =
     (case m of Recognition \<Rightarrow> lit ''Recognition'' | LanguageModel \<Rightarrow> lit ''LanguageModel''
      | Effects \<Rightarrow> lit ''Effects'' | Speech \<Rightarrow> lit ''Speech'')"

definition circuit_key :: "provider_descriptor \<Rightarrow> rstr" where
  "circuit_key d = debug_modality (pd_modality d) @ lit '':'' @ pd_id d"

text \<open>\<open>for_provider\<close>: the entry of the key, created closed on first use.\<close>

definition for_provider :: "registry \<Rightarrow> rstr \<Rightarrow> circuit_state \<times> registry" where
  "for_provider reg k =
     (case hm_get reg k of Some st \<Rightarrow> (st, reg) | None \<Rightarrow> (Closed 0, hm_insert k (Closed 0) reg))"

definition breaker_of :: "registry \<Rightarrow> rstr \<Rightarrow> circuit_state" where
  "breaker_of reg k = fst (for_provider reg k)"

definition registry_apply :: "circuit_config \<Rightarrow> rstr \<times> breaker_event \<Rightarrow> registry \<Rightarrow> registry" where
  "registry_apply cfg ke reg =
     (case ke of (k, ev) \<Rightarrow>
        (case for_provider reg k of (st, reg') \<Rightarrow> hm_insert k (breaker_apply cfg ev st) reg'))"

section \<open>The interface of a keyed collection of cells\<close>

locale keyed_cells =
  fixes cell :: "'m \<Rightarrow> 'k \<Rightarrow> 'v"
    and upd :: "'k \<times> 'e \<Rightarrow> 'm \<Rightarrow> 'm"
    and act :: "'e \<Rightarrow> 'v \<Rightarrow> 'v"
  assumes cell_upd: "cell (upd (k, e) m) k' = (if k' = k then act e (cell m k) else cell m k')"
begin

lemma cell_run:
  "cell (fold upd kes m) k = fold act (map snd (filter (\<lambda>ke. fst ke = k) kes)) (cell m k)"
proof (induction kes arbitrary: m)
  case (Cons ke kes)
  then show ?case by (cases ke) (simp add: cell_upd)
qed simp

lemma cell_run_other: "k \<notin> fst ` set kes \<Longrightarrow> cell (fold upd kes m) k = cell m k"
proof -
  assume "k \<notin> fst ` set kes"
  then have "filter (\<lambda>ke. fst ke = k) kes = []" by (auto simp: filter_empty_conv)
  then show ?thesis by (simp add: cell_run)
qed

end

interpretation circuits: keyed_cells breaker_of "registry_apply cfg" "breaker_apply cfg" for cfg
  by unfold_locales
    (auto simp: breaker_of_def registry_apply_def for_provider_def split: option.splits)

section \<open>The invariant\<close>

definition breaker_inv :: "circuit_config \<Rightarrow> circuit_state \<Rightarrow> bool" where
  "breaker_inv cfg st =
     (case st of
        Closed n \<Rightarrow> n < cc_failure_threshold cfg
      | Open _ \<Rightarrow> True
      | HalfOpen f s \<Rightarrow> f \<le> cc_half_open_max_in_flight cfg \<and> s < cc_recovery_success_threshold cfg)"

lemmas breaker_defs = try_acquire_at_def open_to_half_open_def take_half_open_slot_def
  record_success_def record_failure_def drop_permit_def Let_def

lemma word_less_inc: "(a::'a::len word) < b \<Longrightarrow> a + 1 \<le> b"
  by (rule inc_le)

lemma word_pos_ge_1: "(0::'a::len word) < b \<Longrightarrow> 1 \<le> b"
  using word_less_inc [of 0 b] by simp

lemma unat_of_nat_inc:
  assumes "n + 1 \<le> unat (w :: 'a::len word)"
  shows "unat (of_nat n + 1 :: 'a word) = n + 1"
proof -
  have "of_nat n + 1 = (of_nat (n + 1) :: 'a word)" by simp
  also have "n + 1 < 2 ^ LENGTH('a)"
    using assms unsigned_less order_le_less_trans by blast
  then have "unat (of_nat (n + 1) :: 'a word) = n + 1"
    by (subst unat_of_nat) (rule mod_less)
  finally show ?thesis .
qed

lemma u32_sat_dec_le: "u32_sat_dec n \<le> n"
  by (auto simp: u32_sat_dec_def word_le_nat_alt unat_minus_one)

lemma try_acquire_inv:
  assumes "config_ok cfg" "breaker_inv cfg st"
  shows "breaker_inv cfg (snd (try_acquire_at cfg now st))"
  using assms
  by (cases st) (auto simp: breaker_defs breaker_inv_def config_ok_def not_le intro: word_less_inc word_pos_ge_1)

lemma record_success_inv:
  assumes "config_ok cfg" "breaker_inv cfg st"
  shows "breaker_inv cfg (record_success cfg st)"
  using assms order_trans [OF u32_sat_dec_le]
  by (cases st) (auto simp: breaker_defs breaker_inv_def config_ok_def not_le)

lemma record_failure_inv: "config_ok cfg \<Longrightarrow> breaker_inv cfg (record_failure cfg now st)"
  by (cases st) (auto simp: breaker_defs breaker_inv_def not_le)

lemma drop_permit_inv: "breaker_inv cfg st \<Longrightarrow> breaker_inv cfg (drop_permit st)"
  using order_trans [OF u32_sat_dec_le]
  by (cases st) (auto simp: breaker_defs breaker_inv_def)

lemmas breaker_op_inv = try_acquire_inv record_success_inv record_failure_inv drop_permit_inv

lemma breaker_step_inv:
  "breaker_step cfg s s' \<Longrightarrow> config_ok cfg \<Longrightarrow> breaker_inv cfg (fst s) \<Longrightarrow> breaker_inv cfg (fst s')"
proof (induction rule: breaker_step.induct)
  case (granted now st st' n)
  then show ?case using try_acquire_inv [of cfg st now] by simp
next
  case (refused now st e st' n)
  then show ?case using try_acquire_inv [of cfg st now] by simp
qed (simp_all add: breaker_op_inv)

lemma breaker_reachable_config: "breaker_reachable cfg s \<Longrightarrow> config_ok cfg"
  by (induction rule: breaker_reachable.induct) (auto simp: new_breaker_def split: if_splits)

section \<open>Properties\<close>

text \<open>
  In every state the breaker can reach, with any number of permits in circulation and completed in
  any order, the failure count is below the failure threshold, the number of half-open slots in use
  is within the configured concurrency and the success count is below the recovery threshold: none of
  the three 32-bit counters can wrap around.
\<close>

theorem breaker_counters_bounded:
  assumes "breaker_reachable cfg (st, n)"
  shows "breaker_inv cfg st"
  using assms
proof (induction "(st, n)" arbitrary: st n rule: breaker_reachable.induct)
  case (start st)
  then show ?case by (auto simp: new_breaker_def breaker_inv_def config_ok_def split: if_splits)
next
  case (step s st n)
  obtain st0 n0 where s: "s = (st0, n0)" by (cases s)
  with step breaker_reachable_config [OF step(1)] show ?case
    using breaker_step_inv [OF step(3)] by simp
qed

theorem breaker_counters_bounded_witness:
  "breaker_reachable default_circuit_config (Closed 0, 0) \<and> breaker_inv default_circuit_config (Closed 0)"
proof -
  have r: "breaker_reachable default_circuit_config (Closed 0, 0)"
    by (rule breaker_reachable.start)
      (simp add: new_breaker_def config_ok_def default_circuit_config_def)
  with breaker_counters_bounded [OF r] show ?thesis by blast
qed

lemma record_failures_closed:
  assumes "config_ok cfg" "length ts < unat (cc_failure_threshold cfg)"
  shows "fold (record_failure cfg) ts (Closed 0) = Closed (of_nat (length ts))"
  using assms(2)
proof (induction ts rule: rev_induct)
  case (snoc t ts)
  have "unat (of_nat (length ts) + 1 :: u32) = length ts + 1"
    using snoc.prems by (intro unat_of_nat_inc [of _ "cc_failure_threshold cfg"]) simp
  with snoc show ?case
    by (simp add: record_failure_def word_le_nat_alt not_le add.commute)
qed simp

lemma record_failures_open: "fold (record_failure cfg) ts (Open t) = Open t"
  by (induction ts) (simp_all add: record_failure_def)

text \<open>
  The circuit trips exactly at the threshold: after \<open>k\<close> failures in a row a fresh breaker is
  closed with count \<open>k\<close> while \<open>k\<close> is below the failure threshold, and from the threshold on it is
  open since the instant of the failure that reached it; later failures do not extend it.
\<close>

theorem breaker_trips_at_threshold:
  assumes "config_ok cfg"
  shows "fold (record_failure cfg) ts (Closed 0) =
    (if length ts < unat (cc_failure_threshold cfg) then Closed (of_nat (length ts))
     else Open (ts ! (unat (cc_failure_threshold cfg) - 1)))"
proof (cases "length ts < unat (cc_failure_threshold cfg)")
  case True
  then show ?thesis using record_failures_closed [OF assms] by simp
next
  case False
  let ?k = "unat (cc_failure_threshold cfg)"
  have k: "0 < ?k" using assms by (simp add: config_ok_def word_less_nat_alt)
  define a where "a = take (?k - 1) ts"
  have split: "ts = a @ ts ! (?k - 1) # drop ?k ts"
    using False k id_take_nth_drop [of "?k - 1" ts] by (simp add: a_def)
  have la: "length a = ?k - 1" using False k by (simp add: a_def)
  have "unat (of_nat (?k - 1) + 1 :: u32) = ?k"
    using k unat_of_nat_inc [of "?k - 1" "cc_failure_threshold cfg"] by simp
  then have last: "record_failure cfg t (Closed (of_nat (?k - 1))) = Open t" for t
    by (simp add: record_failure_def word_le_nat_alt)
  have "fold (record_failure cfg) ts (Closed 0)
      = fold (record_failure cfg) (drop ?k ts) (record_failure cfg (ts ! (?k - 1))
          (fold (record_failure cfg) a (Closed 0)))"
    by (subst split) simp
  also have "fold (record_failure cfg) a (Closed 0) = Closed (of_nat (?k - 1))"
    using record_failures_closed [OF assms, of a] la k by simp
  finally show ?thesis using False by (simp only: last record_failures_open if_False)
qed

theorem breaker_trips_at_threshold_witness:
  "config_ok default_circuit_config
   \<and> fold (record_failure default_circuit_config) [5, 6, 9, 11] (Closed 0) = Open 9"
proof -
  have c: "config_ok default_circuit_config" by (simp add: config_ok_def default_circuit_config_def)
  from breaker_trips_at_threshold [OF c, of "[5, 6, 9, 11]"] c show ?thesis
    by (simp add: default_circuit_config_def)
qed

text \<open>
  The advertised \<open>retry_after\<close> of an open circuit is exact: it is positive, an attempt before it
  has passed is refused and leaves the circuit open, and the first attempt after it is granted as the
  single half-open probe.
\<close>

theorem open_circuit_retry_after_exact:
  assumes "config_ok cfg"
    and "t0 \<le> now"
    and "try_acquire_at cfg now (Open t0) = (Inl (CircuitOpen d), st')"
  shows "st' = Open t0 \<and> 0 < d
    \<and> (\<forall>now'. t0 \<le> now' \<and> now' < now + d \<longrightarrow>
          fst (try_acquire_at cfg now' (Open t0)) = Inl (CircuitOpen (now + d - now')))
    \<and> (\<forall>now' \<ge> now + d. try_acquire_at cfg now' (Open t0) = (Inr (), HalfOpen 1 0))"
proof -
  have pos: "\<not> cc_half_open_max_in_flight cfg \<le> 0"
    using assms(1) by (auto simp: config_ok_def)
  from assms(2,3) pos have lt: "now - t0 < cc_open_duration cfg" and d: "d = cc_open_duration cfg - (now - t0)"
    and st: "st' = Open t0"
    by (auto simp: breaker_defs split: if_splits)
  have "now + d = t0 + cc_open_duration cfg" using lt d assms(2) by simp
  then show ?thesis
    using lt d st pos by (auto simp: breaker_defs)
qed

theorem open_circuit_retry_after_exact_witness:
  "try_acquire_at default_circuit_config 10 (Open 4) = (Inl (CircuitOpen 29999999994), Open 4)
   \<and> try_acquire_at default_circuit_config 30000000004 (Open 4) = (Inr (), HalfOpen 1 0)"
proof -
  have c: "config_ok default_circuit_config" by (simp add: config_ok_def default_circuit_config_def)
  have r: "try_acquire_at default_circuit_config 10 (Open 4) = (Inl (CircuitOpen 29999999994), Open 4)"
    by (simp add: breaker_defs default_circuit_config_def)
  have le: "(4::nat) \<le> 10" by simp
  from open_circuit_retry_after_exact [OF c le r] r show ?thesis by simp
qed

text \<open>Calls to a provider one after the other, each at its own time and each successful. A call that is refused its permit
  does not happen, and the run has no result.\<close>

fun run_probes :: "circuit_config \<Rightarrow> instant list \<Rightarrow> circuit_state \<Rightarrow> circuit_state option" where
  "run_probes cfg [] st = Some st"
| "run_probes cfg (now # calls) st =
     (case try_acquire_at cfg now st of
        (Inl _, _) \<Rightarrow> None
      | (Inr _, st') \<Rightarrow> run_probes cfg calls (record_success cfg st'))"

lemma probe_open:
  assumes "config_ok cfg"
  shows "run_probes cfg (now # calls) (Open t0) =
    (if now - t0 < cc_open_duration cfg then None else run_probes cfg (now # calls) (HalfOpen 0 0))"
  using assms by (auto simp: breaker_defs)

lemma probe_half_open:
  assumes "config_ok cfg"
  shows "run_probes cfg (now # calls) (HalfOpen 0 s) =
    run_probes cfg calls (if s + 1 \<ge> cc_recovery_success_threshold cfg then Closed 0 else HalfOpen 0 (s + 1))"
  using assms by (auto simp: breaker_defs config_ok_def u32_sat_dec_def)

lemma probes_closed: "run_probes cfg calls (Closed 0) = Some (Closed 0)"
  by (induction calls) (simp_all add: breaker_defs)

lemma probes_half_open:
  assumes "config_ok cfg" and "k < unat (cc_recovery_success_threshold cfg)"
  shows "run_probes cfg calls (HalfOpen 0 (of_nat k)) =
    Some (if k + length calls < unat (cc_recovery_success_threshold cfg) then HalfOpen 0 (of_nat (k + length calls)) else Closed 0)"
  using assms(2)
proof (induction calls arbitrary: k)
  case (Cons now calls)
  have k: "unat (of_nat k + 1 :: u32) = k + 1"
    using Cons.prems by (intro unat_of_nat_inc [of _ "cc_recovery_success_threshold cfg"]) simp
  show ?case
  proof (cases "k + 1 < unat (cc_recovery_success_threshold cfg)")
    case True
    then show ?thesis using Cons.IH [of "k + 1"] k
      by (simp add: probe_half_open [OF assms(1)] word_le_nat_alt add.commute del: run_probes.simps)
  next
    case False
    then show ?thesis using k
      by (simp add: probe_half_open [OF assms(1)] word_le_nat_alt probes_closed del: run_probes.simps)
  qed
qed simp

text \<open>
  C40. Recovery. As long as the open period lasts, a call is refused. From then on every call of a provider that answers gets a permit,
  and the circuit closes with the configured number of successes and not before: after fewer of them it is half open with no
  call in flight and their number counted, from then on it is closed with a clean failure count and stays closed.
\<close>

theorem breaker_recovers:
  assumes "config_ok cfg" and "calls \<noteq> []"
  shows "(hd calls - t0 < cc_open_duration cfg \<longrightarrow> run_probes cfg calls (Open t0) = None)
    \<and> (cc_open_duration cfg \<le> hd calls - t0 \<longrightarrow> run_probes cfg calls (Open t0) =
         Some (if length calls < unat (cc_recovery_success_threshold cfg) then HalfOpen 0 (of_nat (length calls)) else Closed 0))"
proof -
  obtain now rest where calls: "calls = now # rest" using assms(2) by (cases calls) auto
  have "0 < unat (cc_recovery_success_threshold cfg)" using assms(1) by (simp add: config_ok_def word_less_nat_alt)
  from probes_half_open [OF assms(1) this, of calls] show ?thesis
    by (auto simp: calls probe_open [OF assms(1)] simp del: run_probes.simps)
qed

theorem breaker_recovers_witness:
  "run_probes default_circuit_config [30000000007, 30000000009] (Open 7) = Some (Closed 0)
   \<and> run_probes default_circuit_config [30000000006, 30000000009] (Open 7) = None"
proof -
  have c: "config_ok default_circuit_config" by (simp add: config_ok_def default_circuit_config_def)
  have d: "cc_open_duration default_circuit_config = 30000000000" "unat (cc_recovery_success_threshold default_circuit_config) = 2"
    by (simp_all add: default_circuit_config_def)
  from breaker_recovers [OF c, of "[30000000007, 30000000009]" 7] breaker_recovers [OF c, of "[30000000006, 30000000009]" 7]
  show ?thesis by (simp add: d del: run_probes.simps)
qed

text \<open>
  Provider circuits are isolated: after any interleaving of permits and completions over all
  circuit keys, the breaker of one key is what its own events alone would have made it.
\<close>

theorem registry_isolation:
  "breaker_of (fold (registry_apply cfg) kes reg) k =
     fold (breaker_apply cfg) (map snd (filter (\<lambda>ke. fst ke = k) kes)) (breaker_of reg k)"
  by (rule circuits.cell_run)

lemma debug_modality_no_colon: "of_char CHR '':'' \<notin> set (debug_modality m)"
  by (cases m) (auto simp: debug_modality_def lit_def)

lemma debug_modality_inj: "debug_modality m = debug_modality m' \<Longrightarrow> m = m'"
  by (cases m; cases m') (auto simp: debug_modality_def)

lemma split_at_separator:
  assumes "xs @ c # ys = xs' @ c # ys'" "c \<notin> set xs" "c \<notin> set xs'"
  shows "xs = xs' \<and> ys = ys'"
  using assms
proof (induction xs arbitrary: xs')
  case Nil
  then show ?case by (cases xs') auto
next
  case (Cons x xs)
  then show ?case by (cases xs') auto
qed

text \<open>
  Two providers share a circuit exactly when they have the same modality and the same identifier.
\<close>

theorem circuit_key_injective:
  "circuit_key d = circuit_key d' \<longleftrightarrow> pd_modality d = pd_modality d' \<and> pd_id d = pd_id d'"
proof
  assume "circuit_key d = circuit_key d'"
  then have "debug_modality (pd_modality d) @ of_char CHR '':'' # pd_id d
      = debug_modality (pd_modality d') @ of_char CHR '':'' # pd_id d'"
    by (simp add: circuit_key_def lit_def)
  from split_at_separator [OF this debug_modality_no_colon debug_modality_no_colon]
  show "pd_modality d = pd_modality d' \<and> pd_id d = pd_id d'"
    using debug_modality_inj by blast
qed (simp add: circuit_key_def)

text \<open>
  The half-open limit counts slots, not outstanding probes. A permit granted while the circuit was
  closed and completed after it became half-open gives back a slot it never took: with a limit of one,
  two half-open probes can be in flight at once. Here, with thresholds \<open>2\<close> and \<open>2\<close>, three permits are
  granted while closed, two of them fail and trip the circuit, one probe is granted half-open, the
  third permit is then dropped, and a second probe is granted while the first is still running.
\<close>

theorem half_open_limit_counts_stale_permits:
  "\<exists>cfg. cc_half_open_max_in_flight cfg = 1 \<and> config_ok cfg \<and>
     (let s3 = snd (try_acquire_at cfg 0 (snd (try_acquire_at cfg 0 (snd (try_acquire_at cfg 0 (Closed 0))))));
          tripped = record_failure cfg 2 (record_failure cfg 1 s3);
          probe1 = try_acquire_at cfg 100 tripped;
          probe2 = try_acquire_at cfg 101 (drop_permit (snd probe1))
      in s3 = Closed 0 \<and> tripped = Open 2 \<and> probe1 = (Inr (), HalfOpen 1 0)
         \<and> fst (try_acquire_at cfg 101 (snd probe1)) = Inl (CircuitOpen 10)
         \<and> probe2 = (Inr (), HalfOpen 1 0))"
  by (rule exI [of _ "\<lparr>cc_failure_threshold = 2, cc_recovery_success_threshold = 2,
        cc_open_duration = 10, cc_half_open_max_in_flight = 1\<rparr>"])
    (simp add: config_ok_def breaker_defs u32_sat_dec_def word_le_nat_alt)

end
