(* ===== verification/Routing_Policy.thy ===== *)
theory Routing_Policy
  imports Runtime_Types "HOL-Library.Sublist"
begin

text \<open>
  Privacy and fallback routing, \<open>crates/runtime-core/src/policy.rs\<close>: the privacy decision for one
  provider, the fallback transition rule and the candidate list of a routing plan. The locale
  \<open>privacy_gate\<close> states what any privacy filter of the runtime promises; it is interpreted here on
  the routing policy and, in the broker theory, on the broker's own privacy context.
\<close>

section \<open>Definitions\<close>

datatype privacy_decision =
    Allowed
  | BlockedOffline
  | BlockedFullyLocal
  | CloudProviderNotAuthorized
  | RetentionNotAuthorized

record privacy_policy =
  pp_execution_mode :: execution_mode
  pp_network_policy :: network_policy
  pp_authorized_cloud_providers :: "rstr list"
  pp_allow_retaining_providers :: bool

text \<open>\<open>PrivacyPolicy::from_request\<close>. The hash set is a list that is only tested for membership.\<close>

definition privacy_from_request :: "turn_request \<Rightarrow> privacy_policy" where
  "privacy_from_request r =
     \<lparr>pp_execution_mode = tr_execution_mode r,
      pp_network_policy = tr_network_policy r,
      pp_authorized_cloud_providers = tr_authorized_cloud_providers r,
      pp_allow_retaining_providers = tr_allow_retaining_providers r\<rparr>"

definition evaluate :: "privacy_policy \<Rightarrow> provider_descriptor \<Rightarrow> privacy_decision" where
  "evaluate p d =
     (if is_networked (pd_location d) \<and> pp_network_policy p = NetOffline then BlockedOffline
      else if is_networked (pd_location d) \<and> pp_execution_mode p = ModeFullyLocal then BlockedFullyLocal
      else if is_networked (pd_location d) \<and> pd_id d \<notin> set (pp_authorized_cloud_providers p)
      then CloudProviderNotAuthorized
      else if pd_may_retain_data d \<and> \<not> pp_allow_retaining_providers p then RetentionNotAuthorized
      else Allowed)"

record fallback_policy =
  fb_allow_provider_fallback :: bool
  fb_allow_local_to_cloud_fallback :: bool

definition fallback_from_request :: "turn_request \<Rightarrow> fallback_policy" where
  "fallback_from_request r =
     \<lparr>fb_allow_provider_fallback = tr_allow_provider_fallback r,
      fb_allow_local_to_cloud_fallback = tr_allow_local_to_cloud_fallback r\<rparr>"

definition allows_transition :: "fallback_policy \<Rightarrow> provider_descriptor \<Rightarrow> provider_descriptor \<Rightarrow> bool" where
  "allows_transition f from_d to_d =
     (if pd_id from_d = pd_id to_d then True
      else if \<not> fb_allow_provider_fallback f then False
      else if is_local (pd_location from_d) \<and> is_networked (pd_location to_d)
              \<and> \<not> fb_allow_local_to_cloud_fallback f then False
      else True)"

record routing_plan =
  rp_privacy :: privacy_policy
  rp_fallback :: fallback_policy

definition plan_from_request :: "turn_request \<Rightarrow> routing_plan" where
  "plan_from_request r = \<lparr>rp_privacy = privacy_from_request r, rp_fallback = fallback_from_request r\<rparr>"

text \<open>\<open>RoutingPlan::candidates\<close>: the first allowed provider is the primary; the result keeps the
  declared order of the providers that are allowed and reachable from it.\<close>

definition candidates :: "routing_plan \<Rightarrow> ('p \<Rightarrow> provider_descriptor) \<Rightarrow> 'p list \<Rightarrow> 'p list" where
  "candidates plan desc ps =
     (case find (\<lambda>p. evaluate (rp_privacy plan) (desc p) = Allowed) ps of
        None \<Rightarrow> []
      | Some primary \<Rightarrow>
          filter (\<lambda>c. evaluate (rp_privacy plan) (desc c) = Allowed
                    \<and> allows_transition (rp_fallback plan) (desc primary) (desc c)) ps)"

section \<open>The interface of a privacy filter\<close>

locale privacy_gate =
  fixes permits :: "'ctx \<Rightarrow> provider_descriptor \<Rightarrow> bool"
    and offline :: "'ctx \<Rightarrow> bool"
    and fully_local :: "'ctx \<Rightarrow> bool"
    and authorized :: "'ctx \<Rightarrow> rstr \<Rightarrow> bool"
    and retains_ok :: "'ctx \<Rightarrow> bool"
  assumes permits_iff:
    "permits c d \<longleftrightarrow>
       (is_networked (pd_location d) \<longrightarrow> \<not> offline c \<and> \<not> fully_local c \<and> authorized c (pd_id d))
       \<and> (pd_may_retain_data d \<longrightarrow> retains_ok c)"
begin

lemma offline_blocks_networked: "offline c \<Longrightarrow> permits c d \<Longrightarrow> \<not> is_networked (pd_location d)"
  by (simp add: permits_iff)

lemma fully_local_blocks_networked: "fully_local c \<Longrightarrow> permits c d \<Longrightarrow> \<not> is_networked (pd_location d)"
  by (simp add: permits_iff)

lemma networked_authorized: "permits c d \<Longrightarrow> is_networked (pd_location d) \<Longrightarrow> authorized c (pd_id d)"
  by (simp add: permits_iff)

lemma retention_authorized: "permits c d \<Longrightarrow> pd_may_retain_data d \<Longrightarrow> retains_ok c"
  by (simp add: permits_iff)

lemma local_non_retaining_always: "is_local (pd_location d) \<Longrightarrow> \<not> pd_may_retain_data d \<Longrightarrow> permits c d"
  by (simp add: permits_iff is_local_def)

text \<open>What leaves the machine under a filtered provider list: nothing while offline or fully local,
  and only to providers the user named.\<close>

lemma filtered_egress:
  assumes "p \<in> set (filter (\<lambda>p. permits c (desc p)) ps)" "is_networked (pd_location (desc p))"
  shows "\<not> offline c \<and> \<not> fully_local c \<and> authorized c (pd_id (desc p))"
  using assms by (simp add: permits_iff)

end

interpretation routing: privacy_gate
  "\<lambda>p d. evaluate p d = Allowed"
  "\<lambda>p. pp_network_policy p = NetOffline"
  "\<lambda>p. pp_execution_mode p = ModeFullyLocal"
  "\<lambda>p i. i \<in> set (pp_authorized_cloud_providers p)"
  "pp_allow_retaining_providers"
  by unfold_locales (auto simp: evaluate_def)

section \<open>Properties\<close>

lemma find_Some_split:
  "find P xs = Some x \<Longrightarrow> P x \<and> x \<in> set xs"
  by (induction xs) (auto split: if_splits)

lemma find_None_filter: "find P xs = None \<longleftrightarrow> filter P xs = []"
  by (induction xs) auto

lemma allows_transition_refl [simp]: "allows_transition f d d"
  by (simp add: allows_transition_def)

lemma filter_hd_find:
  assumes "find P xs = Some x" "Q x"
  shows "filter (\<lambda>y. P y \<and> Q y) xs \<noteq> [] \<and> hd (filter (\<lambda>y. P y \<and> Q y) xs) = x"
  using assms by (induction xs) (auto split: if_splits)

lemma candidates_primary:
  assumes "candidates plan desc ps \<noteq> []"
  obtains primary where
    "find (\<lambda>p. evaluate (rp_privacy plan) (desc p) = Allowed) ps = Some primary"
    "hd (candidates plan desc ps) = primary"
proof -
  from assms obtain p where f: "find (\<lambda>p. evaluate (rp_privacy plan) (desc p) = Allowed) ps = Some p"
    by (auto simp: candidates_def split: option.splits)
  from filter_hd_find [OF f, of "\<lambda>c. allows_transition (rp_fallback plan) (desc p) (desc c)"] f
  have "hd (candidates plan desc ps) = p" by (simp add: candidates_def)
  with f that show thesis by blast
qed

text \<open>What a request permits, written out: a networked provider needs the network, an execution mode that is not fully local and
  to be named by the user; a retaining provider needs the permission to retain. A provider can be reached from the primary if
  it has the primary's identifier, or if fallback is allowed and does not lead from the machine to the cloud without consent.\<close>

definition request_permits :: "turn_request \<Rightarrow> provider_descriptor \<Rightarrow> bool" where
  "request_permits r d \<longleftrightarrow>
     (is_networked (pd_location d) \<longrightarrow> tr_network_policy r = NetOnline \<and> tr_execution_mode r \<noteq> ModeFullyLocal
        \<and> pd_id d \<in> set (tr_authorized_cloud_providers r))
     \<and> (pd_may_retain_data d \<longrightarrow> tr_allow_retaining_providers r)"

definition request_reaches :: "turn_request \<Rightarrow> provider_descriptor \<Rightarrow> provider_descriptor \<Rightarrow> bool" where
  "request_reaches r primary d \<longleftrightarrow> pd_id d = pd_id primary
     \<or> tr_allow_provider_fallback r
       \<and> (is_networked (pd_location d) \<and> \<not> is_networked (pd_location primary) \<longrightarrow> tr_allow_local_to_cloud_fallback r)"

lemma evaluate_request: "evaluate (rp_privacy (plan_from_request r)) d = Allowed \<longleftrightarrow> request_permits r d"
  unfolding routing.permits_iff
  by (cases "tr_network_policy r") (auto simp: request_permits_def plan_from_request_def privacy_from_request_def)

lemma transition_request: "allows_transition (rp_fallback (plan_from_request r)) primary d \<longleftrightarrow> request_reaches r primary d"
  by (auto simp: allows_transition_def request_reaches_def plan_from_request_def fallback_from_request_def is_local_def)

lemma find_append_blocked: "\<forall>q\<in>set pre. \<not> P q \<Longrightarrow> P x \<Longrightarrow> find P (pre @ x # post) = Some x"
  by (induction pre) auto

text \<open>
  C16. The candidates of a request are exactly the providers that it permits and that can be reached from the primary, in
  declared order and none of them lost: the primary is the first permitted provider and heads the list, after it come all
  later providers that are permitted and reachable, and the list is empty exactly when no provider is permitted.
\<close>

theorem candidates_sound_and_complete:
  "(candidates (plan_from_request r) desc ps = [] \<longleftrightarrow> (\<forall>p\<in>set ps. \<not> request_permits r (desc p)))
   \<and> (\<forall>pre primary post. ps = pre @ primary # post \<and> (\<forall>q\<in>set pre. \<not> request_permits r (desc q)) \<and> request_permits r (desc primary)
        \<longrightarrow> candidates (plan_from_request r) desc ps
              = primary # filter (\<lambda>c. request_permits r (desc c) \<and> request_reaches r (desc primary) (desc c)) post)"
proof (intro conjI allI impI)
  let ?P = "\<lambda>p. request_permits r (desc p)"
  show "candidates (plan_from_request r) desc ps = [] \<longleftrightarrow> (\<forall>p\<in>set ps. \<not> ?P p)"
  proof (cases "find ?P ps")
    case (Some primary)
    then have "primary \<in> set (candidates (plan_from_request r) desc ps)"
      using find_Some_split [OF Some] by (simp add: candidates_def evaluate_request transition_request request_reaches_def)
    then show ?thesis using find_Some_split [OF Some] by auto
  next
    case None
    then show ?thesis using None [unfolded find_None_iff] by (simp add: candidates_def evaluate_request)
  qed
next
  fix pre primary post
  assume ps: "ps = pre @ primary # post \<and> (\<forall>q\<in>set pre. \<not> request_permits r (desc q)) \<and> request_permits r (desc primary)"
  then have "find (\<lambda>p. request_permits r (desc p)) ps = Some primary" by (simp add: find_append_blocked)
  moreover have "filter (\<lambda>c. request_permits r (desc c) \<and> Q c) pre = []" for Q using ps by (simp add: filter_empty_conv)
  ultimately show "candidates (plan_from_request r) desc ps
      = primary # filter (\<lambda>c. request_permits r (desc c) \<and> request_reaches r (desc primary) (desc c)) post"
    using ps by (simp add: candidates_def evaluate_request transition_request request_reaches_def)
qed

definition sample_local :: provider_descriptor where
  "sample_local = \<lparr>pd_id = lit ''local'', pd_display_name = lit ''local'', pd_modality = LanguageModel,
     pd_location = LocLocal, pd_may_retain_data = False, pd_transmitted_data = [DcTranscript],
     pd_capabilities = []\<rparr>"

definition sample_cloud :: provider_descriptor where
  "sample_cloud = \<lparr>pd_id = lit ''cloud'', pd_display_name = lit ''cloud'', pd_modality = LanguageModel,
     pd_location = LocCloud (lit ''test''), pd_may_retain_data = False,
     pd_transmitted_data = [DcTranscript], pd_capabilities = []\<rparr>"

definition sample_request :: turn_request where
  "sample_request = \<lparr>tr_session_id = lit ''s'', tr_turn_id = lit ''t'', tr_transcript = lit ''hello'',
     tr_character_hint = None, tr_game_id = lit ''generic'', tr_locale = lit ''en-US'',
     tr_execution_mode = ModeHybrid, tr_network_policy = NetOnline,
     tr_authorized_cloud_providers = [lit ''cloud''], tr_allow_provider_fallback = True,
     tr_allow_local_to_cloud_fallback = False, tr_allow_retaining_providers = False, tr_metadata = []\<rparr>"

lemmas sample_defs = sample_local_def sample_cloud_def sample_request_def

theorem candidates_sound_and_complete_witness:
  "candidates (plan_from_request sample_request) id [sample_local\<lparr>pd_may_retain_data := True\<rparr>, sample_cloud, sample_local]
     = [sample_cloud, sample_local]"
proof -
  let ?ps = "[sample_local\<lparr>pd_may_retain_data := True\<rparr>, sample_cloud, sample_local]"
  have "?ps = [sample_local\<lparr>pd_may_retain_data := True\<rparr>] @ sample_cloud # [sample_local]
      \<and> (\<forall>q\<in>set [sample_local\<lparr>pd_may_retain_data := True\<rparr>]. \<not> request_permits sample_request (id q))
      \<and> request_permits sample_request (id sample_cloud)"
    by (simp add: request_permits_def sample_defs)
  with candidates_sound_and_complete [of sample_request id ?ps]
  have "candidates (plan_from_request sample_request) id ?ps = sample_cloud # filter (\<lambda>c. request_permits sample_request (id c)
      \<and> request_reaches sample_request (id sample_cloud) (id c)) [sample_local]" by blast
  then show ?thesis by (simp add: request_permits_def request_reaches_def sample_defs)
qed

text \<open>
  C17. Nothing leaves the machine against the user's policy: a networked provider in the candidate list
  means the network policy is online, the execution mode is not fully local and the user named exactly
  this provider; a provider that may retain data means that the user allowed it; and unless local-to-cloud fallback was
  allowed, a list whose head is local holds no networked provider under another identifier than the head's.
\<close>

theorem candidates_respect_egress_policy:
  assumes "c \<in> set (candidates (plan_from_request r) desc ps)"
  shows "(is_networked (pd_location (desc c)) \<longrightarrow> tr_network_policy r = NetOnline \<and> tr_execution_mode r \<noteq> ModeFullyLocal
           \<and> pd_id (desc c) \<in> set (tr_authorized_cloud_providers r)
           \<and> (is_local (pd_location (desc (hd (candidates (plan_from_request r) desc ps))))
                \<and> pd_id (desc (hd (candidates (plan_from_request r) desc ps))) \<noteq> pd_id (desc c)
              \<longrightarrow> tr_allow_local_to_cloud_fallback r \<and> tr_allow_provider_fallback r))
         \<and> (pd_may_retain_data (desc c) \<longrightarrow> tr_allow_retaining_providers r)"
proof -
  let ?plan = "plan_from_request r"
  from assms have ne: "candidates ?plan desc ps \<noteq> []" by auto
  then obtain primary where f: "find (\<lambda>p. evaluate (rp_privacy ?plan) (desc p) = Allowed) ps = Some primary"
    and hd: "hd (candidates ?plan desc ps) = primary"
    by (rule candidates_primary)
  from assms f have "request_permits r (desc c)" "request_reaches r (desc primary) (desc c)"
    by (auto simp: candidates_def evaluate_request transition_request)
  with hd show ?thesis by (auto simp: request_permits_def request_reaches_def is_local_def)
qed

theorem candidates_respect_egress_policy_witness:
  "sample_cloud \<in> set (candidates (plan_from_request sample_request) id [sample_cloud])
   \<and> tr_network_policy sample_request = NetOnline"
proof -
  have m: "sample_cloud \<in> set (candidates (plan_from_request sample_request) id [sample_cloud])"
    by (simp add: candidates_def plan_from_request_def privacy_from_request_def
        fallback_from_request_def evaluate_def allows_transition_def sample_defs)
  have n: "is_networked (pd_location (id sample_cloud))" by (simp add: sample_defs)
  from candidates_respect_egress_policy [OF m] m n show ?thesis by blast
qed

end
