(* ===== verification/Timing_Spans.thy ===== *)
theory Timing_Spans
  imports Runtime_Types
begin

text \<open>
  The timing spans of a turn, \<open>crates/runtime-core/src/timing.rs\<close>. A guard is finished or dropped exactly once
  by its owner; readings of the monotonic clock are arguments, in nanoseconds, and a difference of instants
  saturates at zero as \<open>Instant::duration_since\<close> does.
\<close>

datatype span_outcome = SpanOk | SpanCancelled | SpanDegraded | SpanError

record timing_span =
  ts_name :: rstr
  ts_started_after_turn_start :: duration
  ts_duration :: duration
  ts_outcome :: span_outcome
  ts_attributes :: bmap

record timing_collector =
  tc_turn_start :: nat
  tc_spans :: "timing_span list"

definition new_collector :: "nat \<Rightarrow> timing_collector" where
  "new_collector now = \<lparr>tc_turn_start = now, tc_spans = []\<rparr>"

record timing_guard =
  tg_name :: rstr
  tg_started :: nat
  tg_finished :: bool

definition start_span :: "rstr \<Rightarrow> nat \<Rightarrow> timing_guard" where
  "start_span name now = \<lparr>tg_name = name, tg_started = now, tg_finished = False\<rparr>"

definition collector_snapshot :: "timing_collector \<Rightarrow> timing_span list" where
  "collector_snapshot c = tc_spans c"

definition push_span :: "timing_span \<Rightarrow> timing_collector \<Rightarrow> timing_collector" where
  "push_span sp c = c\<lparr>tc_spans := tc_spans c @ [sp]\<rparr>"

definition span_of_guard :: "timing_guard \<Rightarrow> span_outcome \<Rightarrow> bmap \<Rightarrow> nat \<Rightarrow> timing_collector \<Rightarrow> timing_span" where
  "span_of_guard g out attrs now c =
     \<lparr>ts_name = tg_name g, ts_started_after_turn_start = sat_sub (tg_started g) (tc_turn_start c),
      ts_duration = sat_sub now (tg_started g), ts_outcome = out, ts_attributes = attrs\<rparr>"

text \<open>\<open>finish\<close> consumes the guard: it is marked finished, so that its drop at the end of the call adds nothing.\<close>

definition finish_guard ::
  "timing_guard \<Rightarrow> span_outcome \<Rightarrow> bmap \<Rightarrow> nat \<Rightarrow> timing_collector \<Rightarrow> timing_span \<times> timing_guard \<times> timing_collector" where
  "finish_guard g out attrs now c =
     (let sp = span_of_guard g out attrs now c in (sp, g\<lparr>tg_finished := True\<rparr>, push_span sp c))"

definition drop_guard :: "timing_guard \<Rightarrow> nat \<Rightarrow> timing_collector \<Rightarrow> timing_collector" where
  "drop_guard g now c =
     (if \<not> tg_finished g then push_span (span_of_guard g SpanCancelled [] now c) c else c)"

text \<open>Every guard leaves exactly one span, whether it is finished and then dropped, or only dropped.\<close>

lemma finish_then_drop_adds_one:
  "finish_guard (start_span name t0) out attrs t1 c = (sp, g, c') \<Longrightarrow> drop_guard g t2 c' = c' \<and> tc_spans c' = tc_spans c @ [sp]"
  by (auto simp: finish_guard_def drop_guard_def push_span_def Let_def)

lemma unfinished_drop_is_cancelled:
  "tc_spans (drop_guard (start_span name t0) t1 c) =
     tc_spans c @ [\<lparr>ts_name = name, ts_started_after_turn_start = t0 - tc_turn_start c, ts_duration = t1 - t0,
                    ts_outcome = SpanCancelled, ts_attributes = []\<rparr>]"
  by (simp add: drop_guard_def push_span_def span_of_guard_def start_span_def)

end
