(* ===== verification/Turn_Lanes.thy ===== *)
theory Turn_Lanes
  imports Structured_Response Circuit_Breaker Routing_Policy Timing_Spans
begin

text \<open>
  The lanes of a turn, \<open>crates/runtime-core/src/supervisor.rs\<close>: the language model lane, the effects lane, the
  speech lane and the turn that composes them. A lane is a state transformer over \<open>lane_state\<close> that
  returns a value or a \<open>supervisor_error\<close>; \<open>None\<close> is a panic. Everything outside the runtime core is a
  field of \<open>lane_env\<close>, asked with a counter of interactions: the clock, whether the turn is found
  cancelled (or its channel closed) at a check, and the answers of providers, audio sink, identity resolver
  and memory store. All theorems hold for every such environment, so for every moment of cancellation.
\<close>

section \<open>Errors, outcomes and events\<close>

datatype supervisor_error =
    SupCancelled
  | NoAuthorizedProvider provider_modality
  | ProvidersExhausted provider_modality rstr
  | StreamFailed provider_error
  | InvalidProviderResponse streaming_error
  | DependencyFailed dependency_error

fun display_supervisor_error :: "supervisor_error \<Rightarrow> rstr" where
  "display_supervisor_error SupCancelled = lit ''turn cancelled''"
| "display_supervisor_error (NoAuthorizedProvider m) =
     lit ''no privacy-authorized '' @ debug_modality m @ lit '' provider is available''"
| "display_supervisor_error (ProvidersExhausted m e) =
     lit ''all '' @ debug_modality m @ lit '' providers failed before output: '' @ e"
| "display_supervisor_error (StreamFailed e) =
     lit ''provider stream failed after output began: '' @ display_provider_error e"
| "display_supervisor_error (InvalidProviderResponse e) =
     lit ''provider response contract failed: '' @ display_streaming_error e"
| "display_supervisor_error (DependencyFailed e) =
     lit ''runtime dependency failed: '' @ display_dependency_error e"

definition failure :: "supervisor_error \<Rightarrow> turn_failure" where
  "failure e =
     (let mk = (\<lambda>code retry. \<lparr>tf_code = lit code, tf_message = display_supervisor_error e, tf_retryable = retry\<rparr>) in
      case e of
        SupCancelled \<Rightarrow> mk ''cancelled'' True
      | NoAuthorizedProvider _ \<Rightarrow> mk ''privacy_policy_blocked'' False
      | ProvidersExhausted _ _ \<Rightarrow> mk ''providers_exhausted'' True
      | InvalidProviderResponse _ \<Rightarrow> mk ''provider_response_invalid'' True
      | StreamFailed p \<Rightarrow> mk ''provider_stream_failed'' (pe_retryable p)
      | DependencyFailed d \<Rightarrow> mk ''runtime_dependency_failed'' (dependency_retryable d))"

record turn_outcome =
  out_identity :: turn_identity
  out_lifecycle :: turn_lifecycle
  out_full_response :: rstr
  out_structured_response :: "npc_response option"
  out_effects :: npc_effects
  out_delivered :: "delivered_sentence list"
  out_degradations :: "degradation list"
  out_selected_llm_provider :: "rstr option"
  out_selected_tts_providers :: "rstr list"
  out_error :: "turn_failure option"

datatype turn_event =
    EvLifecycle turn_identity turn_lifecycle
  | EvLaneLifecycle turn_identity turn_lane lane_lifecycle
  | EvCharacterResolved turn_identity character_identity
  | EvMemoryReady turn_identity memory_context
  | EvTextDelta turn_identity llm_delta
  | EvSentenceReady turn_identity sentence_span
  | EvSpeechStarted turn_identity nat rstr
  | EvSpeechDelivered turn_identity delivered_sentence
  | EvEffectsReady turn_identity npc_effects
  | EvDegraded turn_identity degradation rstr
  | EvProviderRejected turn_identity rstr rstr
  | EvTiming turn_identity timing_span
  | EvTerminal turn_outcome

fun event_identity :: "turn_event \<Rightarrow> turn_identity" where
  "event_identity (EvLifecycle i _) = i"
| "event_identity (EvLaneLifecycle i _ _) = i"
| "event_identity (EvCharacterResolved i _) = i"
| "event_identity (EvMemoryReady i _) = i"
| "event_identity (EvTextDelta i _) = i"
| "event_identity (EvSentenceReady i _) = i"
| "event_identity (EvSpeechStarted i _ _) = i"
| "event_identity (EvSpeechDelivered i _) = i"
| "event_identity (EvEffectsReady i _) = i"
| "event_identity (EvDegraded i _ _) = i"
| "event_identity (EvProviderRejected i _ _) = i"
| "event_identity (EvTiming i _) = i"
| "event_identity (EvTerminal out) = out_identity out"

section \<open>The environment and the state of a lane\<close>

record lane_env =
  le_interrupted :: "nat \<Rightarrow> bool"
  le_clock :: "nat \<Rightarrow> instant"
  le_resolve :: "nat \<Rightarrow> (dependency_error, character_identity) result"
  le_retrieve :: "nat \<Rightarrow> (dependency_error, memory_context) result"
  le_commit :: "nat \<Rightarrow> (dependency_error, unit) result"
  le_stream :: "nat \<Rightarrow> (provider_error, (provider_error, llm_delta) result list) result"
  le_derive :: "nat \<Rightarrow> (provider_error, npc_effects) result"
  le_start_session :: "nat \<Rightarrow> (provider_error, unit) result"
  le_synthesize :: "nat \<Rightarrow> (provider_error, unit) result"
  le_play :: "nat \<Rightarrow> (dependency_error, playback_receipt) result"

text \<open>\<open>ls_sent\<close> is what was put into the sentence channel, \<open>ls_plays\<close> the playbacks asked of the audio sink,
  \<open>ls_commits\<close> the deliveries given to the memory store. \<open>ls_events\<close> are the events offered to the event
  channel, which drops what does not fit.\<close>

record lane_state =
  ls_time :: nat
  ls_registry :: registry
  ls_collector :: timing_collector
  ls_events :: "turn_event list"
  ls_sent :: "sentence_span list"
  ls_plays :: "(nat \<times> rstr) list"
  ls_commits :: "delivered_sentence list list"
  ls_outcome :: turn_outcome

type_synonym 'a lane = "lane_state \<Rightarrow> ((supervisor_error, 'a) result \<times> lane_state) option"

definition lret :: "'a \<Rightarrow> 'a lane" where
  "lret x s = Some (Inr x, s)"

definition lfail :: "supervisor_error \<Rightarrow> 'a lane" where
  "lfail e s = Some (Inl e, s)"

definition lbind :: "'a lane \<Rightarrow> ('a \<Rightarrow> 'b lane) \<Rightarrow> 'b lane" where
  "lbind m f s = (case m s of None \<Rightarrow> None | Some (Inl e, s') \<Rightarrow> Some (Inl e, s') | Some (Inr x, s') \<Rightarrow> f x s')"

definition lthen :: "unit lane \<Rightarrow> 'b lane \<Rightarrow> 'b lane" where
  "lthen m k = lbind m (\<lambda>_. k)"

definition lpanic :: "'a lane" where
  "lpanic s = None"

definition lmodify :: "(lane_state \<Rightarrow> lane_state) \<Rightarrow> unit lane" where
  "lmodify f s = Some (Inr (), f s)"

text \<open>The value of a spawned task: its error does not end the turn by itself.\<close>

definition lcatch :: "'a lane \<Rightarrow> (supervisor_error, 'a) result lane" where
  "lcatch m s = (case m s of None \<Rightarrow> None | Some (r, s') \<Rightarrow> Some (Inr r, s'))"

text \<open>Values dropped when \<open>?\<close> leaves a function early.\<close>

definition on_error :: "'a lane \<Rightarrow> unit lane \<Rightarrow> 'a lane" where
  "on_error m cleanup s =
     (case m s of
        Some (Inl e, s') \<Rightarrow> (case cleanup s' of None \<Rightarrow> None | Some (_, s'') \<Rightarrow> Some (Inl e, s''))
      | r \<Rightarrow> r)"

definition ask :: "(nat \<Rightarrow> 'a) \<Rightarrow> 'a lane" where
  "ask f s = Some (Inr (f (ls_time s)), s\<lparr>ls_time := Suc (ls_time s)\<rparr>)"

definition lcheck :: "lane_env \<Rightarrow> unit lane" where
  "lcheck env = lbind (ask (le_interrupted env)) (\<lambda>c. if c then lfail SupCancelled else lret ())"

section \<open>The event emitter\<close>

definition emit :: "lane_env \<Rightarrow> turn_event \<Rightarrow> unit lane" where
  "emit env ev = lthen (lcheck env) (lmodify (\<lambda>s. s\<lparr>ls_events := ls_events s @ [ev]\<rparr>))"

definition emit_lifecycle :: "lane_env \<Rightarrow> turn_identity \<Rightarrow> turn_lifecycle \<Rightarrow> unit lane" where
  "emit_lifecycle env i stage = emit env (EvLifecycle i stage)"

definition emit_lane :: "lane_env \<Rightarrow> turn_identity \<Rightarrow> turn_lane \<Rightarrow> lane_lifecycle \<Rightarrow> unit lane" where
  "emit_lane env i lane stage = emit env (EvLaneLifecycle i lane stage)"

definition emit_degraded :: "lane_env \<Rightarrow> turn_identity \<Rightarrow> degradation \<Rightarrow> rstr \<Rightarrow> unit lane" where
  "emit_degraded env i d reason = emit env (EvDegraded i d reason)"

definition emit_terminal :: "turn_outcome \<Rightarrow> lane_state \<Rightarrow> lane_state" where
  "emit_terminal out s = s\<lparr>ls_events := ls_events s @ [EvTerminal out]\<rparr>"

definition error_attributes :: "rstr \<Rightarrow> bmap" where
  "error_attributes message = [(lit ''error'', message)]"

definition begin_span :: "lane_env \<Rightarrow> rstr \<Rightarrow> timing_guard lane" where
  "begin_span env name = lbind (ask (le_clock env)) (\<lambda>now. lret (start_span name now))"

text \<open>\<open>finish\<close> of a guard followed by \<open>emit_timing\<close>.\<close>

definition emit_timing :: "lane_env \<Rightarrow> turn_identity \<Rightarrow> timing_guard \<Rightarrow> span_outcome \<Rightarrow> bmap \<Rightarrow> unit lane" where
  "emit_timing env i g out attrs =
     lbind (ask (le_clock env)) (\<lambda>now s.
       (case finish_guard g out attrs now (ls_collector s) of
          (sp, _, c) \<Rightarrow> emit env (EvTiming i sp) (s\<lparr>ls_collector := c\<rparr>)))"

definition drop_span :: "lane_env \<Rightarrow> timing_guard option \<Rightarrow> unit lane" where
  "drop_span env g =
     (case g of
        None \<Rightarrow> lret ()
      | Some g \<Rightarrow> lbind (ask (le_clock env)) (\<lambda>now. lmodify (\<lambda>s. s\<lparr>ls_collector := drop_guard g now (ls_collector s)\<rparr>)))"

section \<open>Permits\<close>

text \<open>The \<open>Debug\<close> form of a duration: whole units and the fraction without trailing zeros.\<close>

definition padded_fraction :: "nat \<Rightarrow> nat \<Rightarrow> rstr" where
  "padded_fraction width n =
     (let digits = replicate (width - length (dec n)) 48 @ dec n in
      rev (dropWhile (\<lambda>c. c = 48) (rev digits)))"

definition debug_decimal :: "nat \<Rightarrow> nat \<Rightarrow> nat \<Rightarrow> rstr" where
  "debug_decimal whole width part =
     dec whole @ (let f = padded_fraction width part in if f = [] then [] else 46 # f)"

definition debug_duration :: "duration \<Rightarrow> rstr" where
  "debug_duration d =
     (if 1000000000 \<le> d then debug_decimal (d div 1000000000) 9 (d mod 1000000000) @ lit ''s''
      else if 1000000 \<le> d then debug_decimal (d div 1000000) 6 (d mod 1000000) @ lit ''ms''
      else if 1000 \<le> d then debug_decimal (d div 1000) 3 (d mod 1000) @ [181] @ lit ''s''
      else dec d @ lit ''ns'')"

definition display_circuit_open :: "circuit_open \<Rightarrow> rstr" where
  "display_circuit_open e = lit ''provider circuit is open; retry after '' @ debug_duration (retry_after e)"

definition acquire :: "lane_env \<Rightarrow> circuit_config \<Rightarrow> provider_descriptor \<Rightarrow> (circuit_open, unit) result lane" where
  "acquire env cfg d =
     lbind (ask (le_clock env)) (\<lambda>now s.
       (case for_provider (ls_registry s) (circuit_key d) of
          (st, reg) \<Rightarrow>
            (case try_acquire_at cfg now st of
               (r, st') \<Rightarrow> Some (Inr r, s\<lparr>ls_registry := hm_insert (circuit_key d) st' reg\<rparr>))))"

definition settle :: "circuit_config \<Rightarrow> provider_descriptor \<Rightarrow> breaker_event \<Rightarrow> unit lane" where
  "settle cfg d ev = lmodify (\<lambda>s. s\<lparr>ls_registry := registry_apply cfg (circuit_key d, ev) (ls_registry s)\<rparr>)"

definition permit_success :: "circuit_config \<Rightarrow> provider_descriptor \<Rightarrow> unit lane" where
  "permit_success cfg d = settle cfg d EvSuccess"

definition permit_failure :: "lane_env \<Rightarrow> circuit_config \<Rightarrow> provider_descriptor \<Rightarrow> unit lane" where
  "permit_failure env cfg d = lbind (ask (le_clock env)) (\<lambda>now. settle cfg d (EvFailure now))"

definition permit_drop :: "circuit_config \<Rightarrow> provider_descriptor \<Rightarrow> unit lane" where
  "permit_drop cfg d = settle cfg d EvDrop"

section \<open>The language model lane\<close>

record llm_lane_result =
  ll_full_text :: rstr
  ll_structured_response :: "npc_response option"
  ll_provider_id :: rstr
  ll_degradations :: "degradation list"
  ll_terminal_error :: "supervisor_error option"

definition safe_partial_response :: "streaming_format \<Rightarrow> rstr \<Rightarrow> adapter \<Rightarrow> rstr" where
  "safe_partial_response format provider_output ad =
     (case format of
        LegacyPlainText \<Rightarrow> provider_output
      | StructuredSpeechFirstV1 \<Rightarrow> (case released_spoken_text ad of Some t \<Rightarrow> t | None \<Rightarrow> [])
      | StructuredV1 \<Rightarrow> [])"

definition allowed_llm_candidates :: "provider_descriptor list \<Rightarrow> routing_plan \<Rightarrow> provider_descriptor list" where
  "allowed_llm_candidates providers plan = filter (\<lambda>d. evaluate (rp_privacy plan) d = Allowed) providers"

text \<open>What stays fixed during the lane.\<close>

record 'j llm_context =
  lx_env :: lane_env
  lx_json :: "'j json_api"
  lx_circuit :: circuit_config
  lx_sentences :: segmenter_config
  lx_identity :: turn_identity
  lx_format :: streaming_format

definition send_sentence :: "lane_env \<Rightarrow> turn_identity \<Rightarrow> sentence_span \<Rightarrow> unit lane" where
  "send_sentence env i sp =
     lthen (emit env (EvSentenceReady i sp))
     (lthen (lcheck env) (lmodify (\<lambda>s. s\<lparr>ls_sent := ls_sent s @ [sp]\<rparr>)))"

fun send_sentences :: "lane_env \<Rightarrow> turn_identity \<Rightarrow> sentence_span list \<Rightarrow> unit lane" where
  "send_sentences env i [] = lret ()"
| "send_sentences env i (sp # sps) = lthen (send_sentence env i sp) (send_sentences env i sps)"

definition terminal_result :: "'j llm_context \<Rightarrow> provider_descriptor \<Rightarrow> rstr \<Rightarrow> adapter \<Rightarrow> supervisor_error \<Rightarrow> llm_lane_result" where
  "terminal_result cx d provider_output ad e =
     \<lparr>ll_full_text = safe_partial_response (lx_format cx) provider_output ad, ll_structured_response = None,
      ll_provider_id = pd_id d, ll_degradations = [], ll_terminal_error = Some e\<rparr>"

text \<open>The end of a stream that produced output: the adapter finalizes the response.\<close>

definition llm_finish ::
  "'j llm_context \<Rightarrow> provider_descriptor \<Rightarrow> provider_descriptor \<Rightarrow> rstr \<Rightarrow> adapter \<Rightarrow> llm_lane_result lane" where
  "llm_finish cx primary d provider_output ad =
     (let env = lx_env cx; cfg = lx_circuit cx; i = lx_identity cx in
      case adapter_finish (lx_json cx) (ti_generation i) ad of
        None \<Rightarrow> lpanic
      | Some (Inl e, ad') \<Rightarrow>
          lthen (permit_failure env cfg d) (lret (terminal_result cx d provider_output ad' (InvalidProviderResponse e)))
      | Some (Inr f, ad') \<Rightarrow>
          lthen (on_error (send_sentences env i (fr_ready_sentences f)) (permit_drop cfg d))
          (lthen (permit_success cfg d)
          (lbind (if pd_id d \<noteq> pd_id primary
                  then lthen (emit_degraded env i (ProviderFallback (pd_id primary) (pd_id d))
                                (lit ''primary LLM unavailable before output''))
                         (lret [ProviderFallback (pd_id primary) (pd_id d)])
                  else lret [])
             (\<lambda>degradations. lret
                \<lparr>ll_full_text = nr_spoken (fr_response f),
                 ll_structured_response = (if lx_format cx = LegacyPlainText then None else Some (fr_response f)),
                 ll_provider_id = pd_id d, ll_degradations = degradations, ll_terminal_error = None\<rparr>))))"

text \<open>One non-empty delta: the span of the first delta, the adapter, the events and the sentences.\<close>

definition llm_delta_step ::
  "'j llm_context \<Rightarrow> provider_descriptor \<Rightarrow> timing_guard option \<Rightarrow> llm_delta \<Rightarrow> rstr \<Rightarrow> adapter
     \<Rightarrow> (llm_lane_result + rstr \<times> adapter) lane" where
  "llm_delta_step cx d first_delta_span delta provider_output ad =
     (let env = lx_env cx; cfg = lx_circuit cx; i = lx_identity cx in
      lthen (case first_delta_span of
               None \<Rightarrow> lret ()
             | Some g \<Rightarrow> on_error (emit_timing env i g SpanOk [(lit ''provider_id'', pd_id d)]) (permit_drop cfg d))
      (case push_delta (lx_json cx) (ti_generation i) (ld_sequence delta) (ld_text delta) ad of
         None \<Rightarrow> lpanic
       | Some (Inl e, ad') \<Rightarrow>
           lthen (permit_failure env cfg d)
             (lret (Inl (terminal_result cx d provider_output ad' (InvalidProviderResponse e))))
       | Some (Inr ready, ad') \<Rightarrow>
           lthen (on_error (lthen (if lx_format cx = LegacyPlainText then emit env (EvTextDelta i delta) else lret ())
                              (send_sentences env i ready)) (permit_drop cfg d))
             (lret (Inr (provider_output @ ld_text delta, ad')))))"

text \<open>The loop over the provider's stream. \<open>first_delta_span\<close> is \<open>Some\<close> as long as no delta had text, which is the
  variable \<open>first_delta\<close> of the source. The left value is the error text with which the next provider is tried.\<close>

fun llm_stream_loop ::
  "'j llm_context \<Rightarrow> provider_descriptor \<Rightarrow> provider_descriptor \<Rightarrow> timing_guard option \<Rightarrow> rstr \<Rightarrow> adapter
     \<Rightarrow> (provider_error, llm_delta) result list \<Rightarrow> (rstr + llm_lane_result) lane" where
  "llm_stream_loop cx primary d first_delta_span provider_output ad [] =
     lthen (on_error (lcheck (lx_env cx)) (lthen (drop_span (lx_env cx) first_delta_span) (permit_drop (lx_circuit cx) d)))
     (case first_delta_span of
        Some g \<Rightarrow>
          lthen (on_error (emit_timing (lx_env cx) (lx_identity cx) g SpanError (error_attributes (lit ''empty model response'')))
                   (permit_drop (lx_circuit cx) d))
          (lthen (permit_failure (lx_env cx) (lx_circuit cx) d) (lret (Inl (lit ''empty model response''))))
      | None \<Rightarrow> lbind (llm_finish cx primary d provider_output ad) (\<lambda>r. lret (Inr r)))"
| "llm_stream_loop cx primary d first_delta_span provider_output ad (Inl e # items) =
     lthen (on_error (lcheck (lx_env cx)) (lthen (drop_span (lx_env cx) first_delta_span) (permit_drop (lx_circuit cx) d)))
     (lthen (permit_failure (lx_env cx) (lx_circuit cx) d)
     (lthen (drop_span (lx_env cx) first_delta_span)
     (if provider_output = [] then lret (Inl (display_provider_error e))
      else lret (Inr (terminal_result cx d provider_output ad (StreamFailed e))))))"
| "llm_stream_loop cx primary d first_delta_span provider_output ad (Inr delta # items) =
     lthen (on_error (lcheck (lx_env cx)) (lthen (drop_span (lx_env cx) first_delta_span) (permit_drop (lx_circuit cx) d)))
     (if ld_text delta = [] then llm_stream_loop cx primary d first_delta_span provider_output ad items
      else lbind (llm_delta_step cx d first_delta_span delta provider_output ad) (\<lambda>r.
        case r of
          Inl result \<Rightarrow> lret (Inr result)
        | Inr (provider_output', ad') \<Rightarrow> llm_stream_loop cx primary d None provider_output' ad' items))"

text \<open>One provider: its circuit, its stream and the loop.\<close>

definition llm_attempt ::
  "'j llm_context \<Rightarrow> provider_descriptor \<Rightarrow> provider_descriptor \<Rightarrow> (rstr + llm_lane_result) lane" where
  "llm_attempt cx primary d =
     (let env = lx_env cx; cfg = lx_circuit cx; i = lx_identity cx in
      lthen (lcheck env)
      (lbind (acquire env cfg d) (\<lambda>permit.
         case permit of
           Inl e \<Rightarrow> lret (Inl (display_circuit_open e))
         | Inr _ \<Rightarrow>
             lbind (begin_span env (lit ''llm.first_delta'')) (\<lambda>g.
             lbind (ask (le_stream env)) (\<lambda>stream.
               case stream of
                 Inl e \<Rightarrow>
                   lthen (permit_failure env cfg d)
                   (lthen (emit_timing env i g SpanError (error_attributes (display_provider_error e)))
                     (lret (Inl (display_provider_error e))))
               | Inr items \<Rightarrow>
                   (case new_adapter (lx_format cx) default_response_policy (lx_sentences cx) (ti_generation i) of
                      None \<Rightarrow> lpanic
                    | Some ad \<Rightarrow> llm_stream_loop cx primary d (Some g) [] ad items))))))"

fun llm_candidates_loop ::
  "'j llm_context \<Rightarrow> fallback_policy \<Rightarrow> provider_descriptor \<Rightarrow> rstr \<Rightarrow> provider_descriptor list \<Rightarrow> llm_lane_result lane" where
  "llm_candidates_loop cx fb primary last_error [] = lfail (ProvidersExhausted LanguageModel last_error)"
| "llm_candidates_loop cx fb primary last_error (d # ds) =
     (if \<not> allows_transition fb primary d then llm_candidates_loop cx fb primary last_error ds
      else lbind (llm_attempt cx primary d) (\<lambda>r.
        case r of
          Inl e \<Rightarrow> llm_candidates_loop cx fb primary e ds
        | Inr result \<Rightarrow> lret result))"

definition run_llm_lane ::
  "lane_env \<Rightarrow> 'j json_api \<Rightarrow> circuit_config \<Rightarrow> segmenter_config \<Rightarrow> generation_request \<Rightarrow> routing_plan
     \<Rightarrow> provider_descriptor list \<Rightarrow> llm_lane_result lane" where
  "run_llm_lane env js cfg sentences request plan providers =
     (case from_route_metadata (gr_metadata request) of
        Inl e \<Rightarrow> lfail (InvalidProviderResponse e)
      | Inr metadata_format \<Rightarrow>
          (let format = (case metadata_format of Some f \<Rightarrow> f | None \<Rightarrow> LegacyPlainText);
               cx = \<lparr>lx_env = env, lx_json = js, lx_circuit = cfg, lx_sentences = sentences,
                     lx_identity = gr_identity request, lx_format = format\<rparr>
           in case allowed_llm_candidates providers plan of
                [] \<Rightarrow> lfail (NoAuthorizedProvider LanguageModel)
              | primary # rest \<Rightarrow>
                  llm_candidates_loop cx (rp_fallback plan) primary (lit ''no provider attempted'') (primary # rest)))"

section \<open>The effects lane\<close>

record effects_lane_result =
  el_effects :: npc_effects
  el_degradations :: "degradation list"
  el_lifecycle :: lane_lifecycle

definition neutralized :: "lane_env \<Rightarrow> turn_identity \<Rightarrow> rstr \<Rightarrow> effects_lane_result lane" where
  "neutralized env i reason =
     lthen (emit_degraded env i NeutralEffects reason)
       (lret \<lparr>el_effects = neutral_effects, el_degradations = [NeutralEffects], el_lifecycle = LaneNeutralized\<rparr>)"

text \<open>The accepted effects of one provider.\<close>

definition effects_accepted ::
  "lane_env \<Rightarrow> circuit_config \<Rightarrow> turn_identity \<Rightarrow> provider_descriptor \<Rightarrow> provider_descriptor \<Rightarrow> npc_effects \<Rightarrow> effects_lane_result lane" where
  "effects_accepted env cfg i primary d effects =
     lthen (permit_success cfg d)
     (lthen (emit env (EvEffectsReady i effects))
     (lbind (if pd_id d \<noteq> pd_id primary
             then lthen (emit_degraded env i (ProviderFallback (pd_id primary) (pd_id d))
                           (lit ''primary effects provider unavailable''))
                    (lret [ProviderFallback (pd_id primary) (pd_id d)])
             else lret [])
        (\<lambda>degradations. lret \<lparr>el_effects = effects, el_degradations = degradations, el_lifecycle = LaneCompleted\<rparr>)))"

fun effects_loop ::
  "lane_env \<Rightarrow> circuit_config \<Rightarrow> turn_identity \<Rightarrow> fallback_policy \<Rightarrow> rstr list \<Rightarrow> provider_descriptor
     \<Rightarrow> provider_descriptor list \<Rightarrow> effects_lane_result lane" where
  "effects_loop env cfg i fb allowed primary [] = neutralized env i (lit ''effects providers failed; neutral effects used'')"
| "effects_loop env cfg i fb allowed primary (d # ds) =
     (if \<not> allows_transition fb primary d then effects_loop env cfg i fb allowed primary ds
      else lbind (acquire env cfg d) (\<lambda>permit.
        case permit of
          Inl _ \<Rightarrow> effects_loop env cfg i fb allowed primary ds
        | Inr _ \<Rightarrow>
            lthen (on_error (lcheck env) (permit_drop cfg d))
            (lbind (ask (le_derive env)) (\<lambda>result.
              case result of
                Inr effects \<Rightarrow>
                  (case validate_effects allowed effects of
                     Inr effects' \<Rightarrow> effects_accepted env cfg i primary d effects'
                   | Inl _ \<Rightarrow> lthen (permit_failure env cfg d) (effects_loop env cfg i fb allowed primary ds))
              | Inl e \<Rightarrow>
                  if pe_kind e = PeCancelled then lthen (permit_drop cfg d) (lfail SupCancelled)
                  else lthen (permit_failure env cfg d) (effects_loop env cfg i fb allowed primary ds)))))"

definition run_effects_lane ::
  "lane_env \<Rightarrow> circuit_config \<Rightarrow> effects_request \<Rightarrow> routing_plan \<Rightarrow> provider_descriptor list \<Rightarrow> rstr list
     \<Rightarrow> effects_lane_result lane" where
  "run_effects_lane env cfg request plan providers allowed =
     (let i = gr_identity (er_generation request) in
      case filter (\<lambda>d. evaluate (rp_privacy plan) d = Allowed) providers of
        [] \<Rightarrow> neutralized env i (lit ''no authorized effects provider; neutral effects used'')
      | primary # rest \<Rightarrow> effects_loop env cfg i (rp_fallback plan) allowed primary (primary # rest))"

section \<open>The speech lane\<close>

record speech_lane_result =
  sl_delivered :: "delivered_sentence list"
  sl_providers :: "rstr list"
  sl_degradations :: "degradation list"

text \<open>The variables of the loop over sentences.\<close>

record speech_loop =
  sv_sessions :: "rstr list"
  sv_delivered :: "delivered_sentence list"
  sv_selected :: "rstr list"
  sv_degradations :: "degradation list"
  sv_announced :: bool

text \<open>The session of a provider, opened on first use; \<open>False\<close> when it could not be opened.\<close>

definition open_session :: "lane_env \<Rightarrow> circuit_config \<Rightarrow> provider_descriptor \<Rightarrow> speech_loop \<Rightarrow> (bool \<times> speech_loop) lane" where
  "open_session env cfg d v =
     (if pd_id d \<in> set (sv_sessions v) then lret (True, v)
      else lbind (ask (le_start_session env)) (\<lambda>r.
        case r of
          Inr _ \<Rightarrow> lret (True, v\<lparr>sv_sessions := pd_id d # sv_sessions v\<rparr>)
        | Inl _ \<Rightarrow> lthen (permit_failure env cfg d) (lret (False, v))))"

text \<open>The receipt of a playback: \<open>Some receipt\<close> when it completed.\<close>

definition settle_playback ::
  "lane_env \<Rightarrow> circuit_config \<Rightarrow> turn_identity \<Rightarrow> provider_descriptor \<Rightarrow> provider_descriptor \<Rightarrow> speech_loop
     \<Rightarrow> (dependency_error, playback_receipt) result \<Rightarrow> (playback_receipt option \<times> speech_loop) lane" where
  "settle_playback env cfg i primary d v receipt =
     (case receipt of
        Inr r \<Rightarrow>
          if pr_completed r then
            lthen (permit_success cfg d)
            (let v1 = (if pd_id d \<in> set (sv_selected v) then v else v\<lparr>sv_selected := sv_selected v @ [pd_id d]\<rparr>) in
             if pd_id d \<noteq> pd_id primary
             then lthen (emit_degraded env i (ProviderFallback (pd_id primary) (pd_id d))
                           (lit ''primary speech provider unavailable''))
                    (lret (Some r, v1\<lparr>sv_degradations := sv_degradations v1 @ [ProviderFallback (pd_id primary) (pd_id d)]\<rparr>))
             else lret (Some r, v1))
          else lthen (permit_failure env cfg d) (lfail SupCancelled)
      | Inl e \<Rightarrow> lthen (permit_failure env cfg d) (lret (None, v)))"

definition play_sentence ::
  "lane_env \<Rightarrow> circuit_config \<Rightarrow> turn_identity \<Rightarrow> provider_descriptor \<Rightarrow> provider_descriptor \<Rightarrow> sentence_span \<Rightarrow> speech_loop
     \<Rightarrow> (playback_receipt option \<times> speech_loop) lane" where
  "play_sentence env cfg i primary d sp v =
     lthen (on_error (lthen (emit env (EvSpeechStarted i (ss_sentence_id sp) (pd_id d))) (emit_lifecycle env i LcAnimating))
              (permit_drop cfg d))
     (lthen (lmodify (\<lambda>s. s\<lparr>ls_plays := ls_plays s @ [(ss_sentence_id sp, pd_id d)]\<rparr>))
     (lbind (ask (le_play env)) (settle_playback env cfg i primary d v)))"

text \<open>The providers of one sentence; a playback that was started, completed or failed, ends the search.\<close>

fun speech_providers_loop ::
  "lane_env \<Rightarrow> circuit_config \<Rightarrow> turn_identity \<Rightarrow> fallback_policy \<Rightarrow> provider_descriptor \<Rightarrow> sentence_span
     \<Rightarrow> provider_descriptor list \<Rightarrow> speech_loop \<Rightarrow> (playback_receipt option \<times> speech_loop) lane" where
  "speech_providers_loop env cfg i fb primary sp [] v = lret (None, v)"
| "speech_providers_loop env cfg i fb primary sp (d # ds) v =
     (if \<not> allows_transition fb primary d then speech_providers_loop env cfg i fb primary sp ds v
      else lbind (acquire env cfg d) (\<lambda>permit.
        case permit of
          Inl _ \<Rightarrow> speech_providers_loop env cfg i fb primary sp ds v
        | Inr _ \<Rightarrow>
            lbind (open_session env cfg d v) (\<lambda>(opened, v1).
              if \<not> opened then speech_providers_loop env cfg i fb primary sp ds v1
              else lbind (ask (le_synthesize env)) (\<lambda>speech.
                case speech of
                  Inl _ \<Rightarrow> lthen (permit_failure env cfg d) (speech_providers_loop env cfg i fb primary sp ds v1)
                | Inr _ \<Rightarrow> play_sentence env cfg i primary d sp v1))))"

definition delivered_record :: "sentence_span \<Rightarrow> delivery_mode \<Rightarrow> nat \<Rightarrow> duration \<Rightarrow> delivered_sentence" where
  "delivered_record sp mode frames dur =
     \<lparr>ds_sentence_id = ss_sentence_id sp, ds_text_start_bytes = ss_text_start_bytes sp,
      ds_text_end_bytes = ss_text_end_bytes sp, ds_text = ss_text sp, ds_delivery = mode,
      ds_audible_frames = frames, ds_duration = dur\<rparr>"

definition note_subtitles :: "lane_env \<Rightarrow> turn_identity \<Rightarrow> speech_loop \<Rightarrow> speech_loop lane" where
  "note_subtitles env i v =
     (if AudioToSubtitles \<in> set (sv_degradations v) then lret v
      else lthen (emit_degraded env i AudioToSubtitles (lit ''speech unavailable; delivered through subtitles''))
             (lret (v\<lparr>sv_degradations := sv_degradations v @ [AudioToSubtitles]\<rparr>)))"

definition publish_sentence :: "lane_env \<Rightarrow> turn_identity \<Rightarrow> delivered_sentence \<Rightarrow> speech_loop \<Rightarrow> speech_loop lane" where
  "publish_sentence env i sentence v =
     lthen (emit env (EvSpeechDelivered i sentence)) (lret (v\<lparr>sv_delivered := sv_delivered v @ [sentence]\<rparr>))"

definition deliver_sentence ::
  "lane_env \<Rightarrow> turn_identity \<Rightarrow> sentence_span \<Rightarrow> playback_receipt option \<Rightarrow> speech_loop \<Rightarrow> speech_loop lane" where
  "deliver_sentence env i sp audio v =
     (case audio of
        Some r \<Rightarrow> publish_sentence env i (delivered_record sp DeliverAudio (pr_audible_frames r) (pr_duration r)) v
      | None \<Rightarrow> lbind (note_subtitles env i v) (publish_sentence env i (delivered_record sp DeliverSubtitle 0 0)))"

definition speech_sentence ::
  "lane_env \<Rightarrow> circuit_config \<Rightarrow> turn_identity \<Rightarrow> fallback_policy \<Rightarrow> provider_descriptor list \<Rightarrow> sentence_span \<Rightarrow> speech_loop
     \<Rightarrow> speech_loop lane" where
  "speech_sentence env cfg i fb cands sp v =
     lbind (if sv_announced v then lret v
            else lthen (emit_lifecycle env i LcVoicing) (lret (v\<lparr>sv_announced := True\<rparr>))) (\<lambda>v1.
     lbind (case cands of
              [] \<Rightarrow> lret (None, v1)
            | primary # _ \<Rightarrow> speech_providers_loop env cfg i fb primary sp cands v1) (\<lambda>(audio, v2).
       deliver_sentence env i sp audio v2))"

fun speech_loop_run ::
  "lane_env \<Rightarrow> circuit_config \<Rightarrow> turn_identity \<Rightarrow> fallback_policy \<Rightarrow> provider_descriptor list \<Rightarrow> sentence_span list
     \<Rightarrow> speech_loop \<Rightarrow> speech_loop lane" where
  "speech_loop_run env cfg i fb cands [] v = lthen (lcheck env) (lret v)"
| "speech_loop_run env cfg i fb cands (sp # sps) v =
     lthen (lcheck env)
     (lbind (speech_sentence env cfg i fb cands sp v) (speech_loop_run env cfg i fb cands sps))"

definition run_speech_lane ::
  "lane_env \<Rightarrow> circuit_config \<Rightarrow> turn_identity \<Rightarrow> routing_plan \<Rightarrow> provider_descriptor list \<Rightarrow> sentence_span list
     \<Rightarrow> speech_lane_result lane" where
  "run_speech_lane env cfg i plan providers sentences =
     lbind (speech_loop_run env cfg i (rp_fallback plan) (filter (\<lambda>d. evaluate (rp_privacy plan) d = Allowed) providers) sentences
              \<lparr>sv_sessions = [], sv_delivered = [], sv_selected = [], sv_degradations = [], sv_announced = False\<rparr>)
       (\<lambda>v. lret \<lparr>sl_delivered = sv_delivered v, sl_providers = sv_selected v, sl_degradations = sv_degradations v\<rparr>)"

end
