(* ===== verification/Turn_Execution.thy ===== *)
theory Turn_Execution
  imports Turn_Lanes
begin

text \<open>
  The execution of one turn, \<open>run_turn\<close> and \<open>run_turn_inner\<close> of \<open>supervisor.rs\<close>. The three lanes run
  concurrently in the source; they share the sentence channel, the event channel and the circuit registry, whose
  entries are keyed by modality and provider. The model runs the language model lane, then the speech lane on
  what was put into the channel, then the effects lane; each lane asks the environment afresh whether the
  turn is cancelled, so that a lane that ends early leaves the others any behaviour they can have.
  The outcome is part of the state because the source updates it in place before an early return.
\<close>

section \<open>Dependencies and configuration\<close>

record supervisor_config =
  sc_event_channel_capacity :: nat
  sc_sentence_channel_capacity :: nat
  sc_sentence_segmentation :: segmenter_config
  sc_circuit_breaker :: circuit_config
  sc_allowed_actions :: "rstr list"

definition default_supervisor_config :: supervisor_config where
  "default_supervisor_config = \<lparr>sc_event_channel_capacity = 256, sc_sentence_channel_capacity = 8,
     sc_sentence_segmentation = default_segmenter_config, sc_circuit_breaker = default_circuit_config,
     sc_allowed_actions = []\<rparr>"

record provider_pool =
  po_language_models :: "provider_descriptor list"
  po_effects :: "provider_descriptor list"
  po_speech :: "provider_descriptor list"

text \<open>Whatever a turn needs besides its request.\<close>

record 'j turn_setup =
  tu_env :: lane_env
  tu_json :: "'j json_api"
  tu_config :: supervisor_config
  tu_pool :: provider_pool

section \<open>The stages of a turn\<close>

fun debug_privacy_decision :: "privacy_decision \<Rightarrow> rstr" where
  "debug_privacy_decision Allowed = lit ''Allowed''"
| "debug_privacy_decision BlockedOffline = lit ''BlockedOffline''"
| "debug_privacy_decision BlockedFullyLocal = lit ''BlockedFullyLocal''"
| "debug_privacy_decision CloudProviderNotAuthorized = lit ''CloudProviderNotAuthorized''"
| "debug_privacy_decision RetentionNotAuthorized = lit ''RetentionNotAuthorized''"

fun emit_rejections :: "lane_env \<Rightarrow> turn_identity \<Rightarrow> privacy_policy \<Rightarrow> provider_descriptor list \<Rightarrow> unit lane" where
  "emit_rejections env i privacy [] = lret ()"
| "emit_rejections env i privacy (d # ds) =
     lthen (if evaluate privacy d \<noteq> Allowed
            then emit env (EvProviderRejected i (pd_id d) (debug_privacy_decision (evaluate privacy d))) else lret ())
       (emit_rejections env i privacy ds)"

definition emit_policy_rejections :: "lane_env \<Rightarrow> turn_identity \<Rightarrow> routing_plan \<Rightarrow> provider_pool \<Rightarrow> unit lane" where
  "emit_policy_rejections env i plan pool =
     emit_rejections env i (rp_privacy plan) (po_language_models pool @ po_effects pool @ po_speech pool)"

definition update_outcome :: "(turn_outcome \<Rightarrow> turn_outcome) \<Rightarrow> unit lane" where
  "update_outcome f = lmodify (\<lambda>s. s\<lparr>ls_outcome := f (ls_outcome s)\<rparr>)"

definition add_degradations :: "degradation list \<Rightarrow> unit lane" where
  "add_degradations ds = update_outcome (\<lambda>out. out\<lparr>out_degradations := out_degradations out @ ds\<rparr>)"

text \<open>A dependency that failed without being cancelled: its span, the degradation and the event.\<close>

definition degrade_dependency ::
  "lane_env \<Rightarrow> turn_identity \<Rightarrow> timing_guard \<Rightarrow> degradation \<Rightarrow> string \<Rightarrow> dependency_error \<Rightarrow> unit lane" where
  "degrade_dependency env i g d what e =
     lthen (emit_timing env i g SpanDegraded (error_attributes (display_dependency_error e)))
     (lthen (add_degradations [d]) (emit_degraded env i d (lit what @ display_dependency_error e)))"

definition selected_character :: "turn_request \<Rightarrow> character_identity" where
  "selected_character request =
     \<lparr>ci_character_id = tr_character_hint request,
      ci_display_name = (case tr_character_hint request of Some h \<Rightarrow> h | None \<Rightarrow> lit ''Selected NPC''),
      ci_confidence = Fin 1, ci_evidence = [lit ''explicit_or_generic_selection''], ci_explicit_selection = True\<rparr>"

definition degraded_memory :: memory_context where
  "degraded_memory = \<lparr>mc_working_context = [], mc_episodic_memories = [], mc_canon_facts = [],
     mc_relationship_summary = None, mc_retrieval_degraded = True\<rparr>"

definition resolve_character ::
  "lane_env \<Rightarrow> turn_identity \<Rightarrow> turn_request \<Rightarrow> timing_guard \<Rightarrow> (dependency_error, character_identity) result \<Rightarrow> character_identity lane" where
  "resolve_character env i request g r =
     (case r of
        Inr character \<Rightarrow> lthen (emit_timing env i g SpanOk []) (lret character)
      | Inl DepCancelled \<Rightarrow> lthen (drop_span env (Some g)) (lfail SupCancelled)
      | Inl e \<Rightarrow>
          lthen (degrade_dependency env i g IdentityToExplicitSelection ''identity resolver failed: '' e)
            (lret (selected_character request)))"

definition recall_memory ::
  "lane_env \<Rightarrow> turn_identity \<Rightarrow> timing_guard \<Rightarrow> (dependency_error, memory_context) result \<Rightarrow> memory_context lane" where
  "recall_memory env i g r =
     (case r of
        Inr memory \<Rightarrow> lthen (emit_timing env i g SpanOk []) (lret memory)
      | Inl DepCancelled \<Rightarrow> lthen (drop_span env (Some g)) (lfail SupCancelled)
      | Inl e \<Rightarrow>
          lthen (degrade_dependency env i g MemoryWithoutVectorRetrieval ''memory retrieval failed: '' e)
            (lret degraded_memory))"

text \<open>Everything up to the start of the lanes.\<close>

definition prepare_turn :: "'j turn_setup \<Rightarrow> turn_request \<Rightarrow> turn_identity \<Rightarrow> generation_request lane" where
  "prepare_turn tu request i =
     (let env = tu_env tu in
      lthen (emit_lifecycle env i LcAccepted)
      (lthen (emit_lifecycle env i LcIdentifying)
      (lbind (begin_span env (lit ''identity.resolve'')) (\<lambda>identity_span.
      (lbind (begin_span env (lit ''memory.retrieve'')) (\<lambda>memory_span.
      (lbind (ask (le_resolve env)) (\<lambda>character_result.
      (lbind (ask (le_retrieve env)) (\<lambda>memory_result.
      (lbind (on_error (resolve_character env i request identity_span character_result) (drop_span env (Some memory_span)))
         (\<lambda>character.
      (lthen (on_error (lthen (emit env (EvCharacterResolved i character)) (emit_lifecycle env i LcRemembering))
                (drop_span env (Some memory_span)))
      (lbind (recall_memory env i memory_span memory_result) (\<lambda>memory.
      (lthen (emit env (EvMemoryReady i memory))
         (lret \<lparr>gr_identity = i, gr_transcript = tr_transcript request, gr_character = character,
                gr_memory = memory, gr_locale = tr_locale request, gr_metadata = tr_metadata request\<rparr>)))))))))))))))))"

definition announce_lanes :: "'j turn_setup \<Rightarrow> turn_request \<Rightarrow> turn_identity \<Rightarrow> unit lane" where
  "announce_lanes tu request i =
     (let env = tu_env tu in
      lthen (emit_policy_rejections env i (plan_from_request request) (tu_pool tu))
      (lthen (emit_lifecycle env i LcResponding)
      (lthen (emit_lane env i SpokenResponse LaneRunning) (emit_lane env i StructuredEffects LaneRunning))))"

text \<open>The lanes; the sentences of the channel are what the language model lane has sent.\<close>

definition run_lanes ::
  "'j turn_setup \<Rightarrow> turn_request \<Rightarrow> turn_identity \<Rightarrow> generation_request
     \<Rightarrow> ((supervisor_error, llm_lane_result) result \<times> (supervisor_error, speech_lane_result) result
         \<times> (supervisor_error, effects_lane_result) result) lane" where
  "run_lanes tu request i gen =
     (let env = tu_env tu; cfg = sc_circuit_breaker (tu_config tu); plan = plan_from_request request in
      lbind (lcatch (run_llm_lane env (tu_json tu) cfg (sc_sentence_segmentation (tu_config tu)) gen plan
                       (po_language_models (tu_pool tu)))) (\<lambda>llm.
      lbind (\<lambda>s. lcatch (run_speech_lane env cfg i plan (po_speech (tu_pool tu)) (ls_sent s)) s) (\<lambda>speech.
      lbind (lcatch (run_effects_lane env cfg \<lparr>er_generation = gen, er_response_text_hint = None\<rparr> plan
                       (po_effects (tu_pool tu)) (sc_allowed_actions (tu_config tu)))) (\<lambda>effects.
        lret (llm, speech, effects)))))"

definition apply_effects :: "lane_env \<Rightarrow> turn_identity \<Rightarrow> (supervisor_error, effects_lane_result) result \<Rightarrow> unit lane" where
  "apply_effects env i r =
     (case r of
        Inr result \<Rightarrow>
          lthen (update_outcome (\<lambda>out. out\<lparr>out_effects := el_effects result\<rparr>))
          (lthen (add_degradations (el_degradations result)) (emit_lane env i StructuredEffects (el_lifecycle result)))
      | Inl SupCancelled \<Rightarrow> lfail SupCancelled
      | Inl e \<Rightarrow>
          lthen (add_degradations [NeutralEffects])
          (lthen (emit_degraded env i NeutralEffects (lit ''effects lane failed: '' @ display_supervisor_error e))
            (emit_lane env i StructuredEffects LaneNeutralized)))"

definition apply_speech :: "(supervisor_error, speech_lane_result) result \<Rightarrow> unit lane" where
  "apply_speech r =
     (case r of
        Inr result \<Rightarrow>
          lthen (update_outcome (\<lambda>out. out\<lparr>out_delivered := sl_delivered result,
                                           out_selected_tts_providers := sl_providers result\<rparr>))
            (add_degradations (sl_degradations result))
      | Inl e \<Rightarrow> lfail e)"

definition apply_llm :: "lane_env \<Rightarrow> turn_identity \<Rightarrow> llm_lane_result \<Rightarrow> unit lane" where
  "apply_llm env i llm =
     lthen (update_outcome (\<lambda>out. out\<lparr>out_full_response := ll_full_text llm,
              out_structured_response := ll_structured_response llm,
              out_selected_llm_provider := Some (ll_provider_id llm)\<rparr>))
     (lthen (add_degradations (ll_degradations llm))
       (emit_lane env i SpokenResponse (if ll_terminal_error llm \<noteq> None then LaneFailed else LaneCompleted)))"

text \<open>The memory store is given exactly the delivered sentences of the outcome.\<close>

definition commit_memory :: "lane_env \<Rightarrow> turn_identity \<Rightarrow> unit lane" where
  "commit_memory env i =
     lthen (emit_lifecycle env i LcCommitting)
     (lbind (begin_span env (lit ''memory.commit_delivered'')) (\<lambda>g.
      lthen (lmodify (\<lambda>s. s\<lparr>ls_commits := ls_commits s @ [out_delivered (ls_outcome s)]\<rparr>))
      (lbind (ask (le_commit env)) (\<lambda>r.
        case r of
          Inr _ \<Rightarrow> emit_timing env i g SpanOk []
        | Inl DepCancelled \<Rightarrow> lthen (drop_span env (Some g)) (lfail SupCancelled)
        | Inl e \<Rightarrow> degrade_dependency env i g MemoryCommitDeferred ''memory commit deferred: '' e))))"

definition conclude_turn ::
  "lane_env \<Rightarrow> turn_identity
     \<Rightarrow> (supervisor_error, llm_lane_result) result \<times> (supervisor_error, speech_lane_result) result
         \<times> (supervisor_error, effects_lane_result) result \<Rightarrow> unit lane" where
  "conclude_turn env i results =
     (case results of (llm_result, speech_result, effects_result) \<Rightarrow>
        lthen (apply_effects env i effects_result)
        (lthen (apply_speech speech_result)
        (case llm_result of
           Inl e \<Rightarrow> lfail e
         | Inr llm \<Rightarrow>
             lthen (apply_llm env i llm)
             (lthen (commit_memory env i)
             (case ll_terminal_error llm of
                Some e \<Rightarrow> lfail e
              | None \<Rightarrow> emit_lifecycle env i LcCompleted)))))"

definition run_turn_inner :: "'j turn_setup \<Rightarrow> turn_request \<Rightarrow> turn_identity \<Rightarrow> unit lane" where
  "run_turn_inner tu request i =
     lbind (prepare_turn tu request i) (\<lambda>gen.
     lthen (announce_lanes tu request i)
     (lbind (run_lanes tu request i gen) (conclude_turn (tu_env tu) i)))"

definition initial_outcome :: "turn_identity \<Rightarrow> turn_outcome" where
  "initial_outcome i = \<lparr>out_identity = i, out_lifecycle = LcAccepted, out_full_response = [],
     out_structured_response = None, out_effects = neutral_effects, out_delivered = [], out_degradations = [],
     out_selected_llm_provider = None, out_selected_tts_providers = [], out_error = None\<rparr>"

definition initial_lane_state :: "turn_identity \<Rightarrow> registry \<Rightarrow> nat \<Rightarrow> lane_state" where
  "initial_lane_state i reg now = \<lparr>ls_time = 0, ls_registry = reg, ls_collector = new_collector now, ls_events = [],
     ls_sent = [], ls_plays = [], ls_commits = [], ls_outcome = initial_outcome i\<rparr>"

text \<open>The lifecycle and the error of the outcome. \<open>generation.is_cancelled()\<close> is asked only after success.\<close>

definition finish_outcome :: "lane_env \<Rightarrow> (supervisor_error, unit) result \<Rightarrow> lane_state \<Rightarrow> turn_outcome \<times> lane_state" where
  "finish_outcome env r s =
     (let cancelled = le_interrupted env (ls_time s);
          closed = (\<lambda>lc e. (ls_outcome s)\<lparr>out_lifecycle := lc, out_error := Some (failure e)\<rparr>)
      in case r of
           Inr _ \<Rightarrow>
             (if cancelled then closed LcCancelled SupCancelled
              else (ls_outcome s)\<lparr>out_lifecycle := LcCompleted\<rparr>, s\<lparr>ls_time := Suc (ls_time s)\<rparr>)
         | Inl SupCancelled \<Rightarrow> (closed LcCancelled SupCancelled, s)
         | Inl e \<Rightarrow> (closed LcFailed e, s))"

definition run_turn :: "'j turn_setup \<Rightarrow> turn_request \<Rightarrow> turn_identity \<Rightarrow> registry \<Rightarrow> nat \<Rightarrow> (turn_outcome \<times> lane_state) option" where
  "run_turn tu request i reg now =
     (case run_turn_inner tu request i (initial_lane_state i reg now) of
        None \<Rightarrow> None
      | Some (r, s) \<Rightarrow> Some (finish_outcome (tu_env tu) r s))"

end
