(* ===== verification/Generation_Tokens.thy ===== *)
theory Generation_Tokens
  imports Prelude
begin

text \<open>
  Cancellation generations, \<open>crates/runtime-core/src/cancellation.rs\<close>. The tokens of the
  \<open>tokio_util\<close> crate are a parameter: a record of its three operations on some store of tokens, with
  the documented behaviour the runtime relies on collected in \<open>token_laws\<close>.
\<close>

section \<open>The token library\<close>

record ('st, 'tok) token_api =
  tok_new :: "'st \<Rightarrow> 'tok \<times> 'st"
  tok_cancel :: "'tok \<Rightarrow> 'st \<Rightarrow> 'st"
  tok_is_cancelled :: "'st \<Rightarrow> 'tok \<Rightarrow> bool"

text \<open>\<open>CancellationToken::new\<close> gives a token that is not cancelled and disturbs no other;
  \<open>cancel\<close> cancels its token and no token is ever un-cancelled.\<close>

definition token_laws :: "('st, 'tok) token_api \<Rightarrow> bool" where
  "token_laws api \<longleftrightarrow>
     (\<forall>st. \<not> tok_is_cancelled api (snd (tok_new api st)) (fst (tok_new api st)))
     \<and> (\<forall>st t. tok_is_cancelled api st t \<longrightarrow> tok_is_cancelled api (snd (tok_new api st)) t)
     \<and> (\<forall>st t. tok_is_cancelled api (tok_cancel api t st) t)
     \<and> (\<forall>st t t'. tok_is_cancelled api st t' \<longrightarrow> tok_is_cancelled api (tok_cancel api t st) t')"

section \<open>Generations\<close>

text \<open>The shared state: the atomic counter and the store of tokens.\<close>

record 'st cancel_world =
  cw_current :: nat
  cw_tokens :: 'st

record 'tok generation_token =
  gt_generation :: nat
  gt_cancellation :: 'tok

definition current_generation :: "'st cancel_world \<Rightarrow> nat" where
  "current_generation w = cw_current w"

text \<open>\<open>CancellationGeneration::next\<close>: \<open>fetch_add(1) + 1\<close> on an \<open>AtomicU64\<close>.\<close>

definition next_generation ::
  "('st, 'tok) token_api \<Rightarrow> 'st cancel_world \<Rightarrow> 'tok generation_token \<times> 'st cancel_world" where
  "next_generation api w =
     (let generation = wrap_inc64 (cw_current w);
          (t, st) = tok_new api (cw_tokens w)
      in (\<lparr>gt_generation = generation, gt_cancellation = t\<rparr>,
          w\<lparr>cw_current := generation, cw_tokens := st\<rparr>))"

definition gt_is_current :: "'st cancel_world \<Rightarrow> 'tok generation_token \<Rightarrow> bool" where
  "gt_is_current w g \<longleftrightarrow> cw_current w = gt_generation g"

definition gt_is_cancelled ::
  "('st, 'tok) token_api \<Rightarrow> 'st cancel_world \<Rightarrow> 'tok generation_token \<Rightarrow> bool" where
  "gt_is_cancelled api w g \<longleftrightarrow>
     tok_is_cancelled api (cw_tokens w) (gt_cancellation g) \<or> \<not> gt_is_current w g"

definition gt_cancel ::
  "('st, 'tok) token_api \<Rightarrow> 'tok generation_token \<Rightarrow> 'st cancel_world \<Rightarrow> 'st cancel_world" where
  "gt_cancel api g w = w\<lparr>cw_tokens := tok_cancel api (gt_cancellation g) (cw_tokens w)\<rparr>"

text \<open>The histories of a world: generations handed out and tokens cancelled, in any order. The
  counter is read and written atomically, so interleavings of threads are such histories.\<close>

datatype 'tok gen_op = GenNext | GenCancel "'tok generation_token"

fun gen_run ::
  "('st, 'tok) token_api \<Rightarrow> 'tok gen_op list \<Rightarrow> 'st cancel_world \<Rightarrow> 'st cancel_world" where
  "gen_run api [] w = w"
| "gen_run api (GenNext # ops) w = gen_run api ops (snd (next_generation api w))"
| "gen_run api (GenCancel g # ops) w = gen_run api ops (gt_cancel api g w)"

fun count_next :: "'tok gen_op list \<Rightarrow> nat" where
  "count_next [] = 0"
| "count_next (GenNext # ops) = Suc (count_next ops)"
| "count_next (GenCancel g # ops) = count_next ops"

section \<open>Properties\<close>

lemma next_generation_simps:
  "gt_generation (fst (next_generation api w)) = wrap_inc64 (cw_current w)"
  "cw_current (snd (next_generation api w)) = wrap_inc64 (cw_current w)"
  "cw_tokens (snd (next_generation api w)) = snd (tok_new api (cw_tokens w))"
  "gt_cancellation (fst (next_generation api w)) = fst (tok_new api (cw_tokens w))"
  by (simp_all add: next_generation_def Let_def split: prod.splits)

lemma gt_cancel_current [simp]: "cw_current (gt_cancel api g w) = cw_current w"
  by (simp add: gt_cancel_def)

lemma gen_run_current:
  "cw_current w + count_next ops < 2 ^ 64 \<Longrightarrow> cw_current (gen_run api ops w) = cw_current w + count_next ops"
proof (induction api ops w rule: gen_run.induct)
  case (2 api ops w)
  have "cw_current (snd (next_generation api w)) = cw_current w + 1"
    using "2.prems" by (simp add: next_generation_simps wrap_inc64_exact)
  with 2 show ?case by simp
qed simp_all

lemma gen_run_cancelled_mono:
  "token_laws api \<Longrightarrow> tok_is_cancelled api (cw_tokens w) t \<Longrightarrow>
     tok_is_cancelled api (cw_tokens (gen_run api ops w)) t"
proof (induction api ops w rule: gen_run.induct)
  case (2 api ops w)
  then show ?case by (simp add: next_generation_simps token_laws_def)
next
  case (3 api g ops w)
  then show ?case by (simp add: gt_cancel_def token_laws_def)
qed simp_all

text \<open>
  A token is current and uncancelled when it is handed out. From then on, as soon as another
  generation has been handed out (fewer than \<open>2^64\<close> in all), or its own token has been cancelled, it
  reports cancelled, and it keeps doing so whatever operations follow in whatever order: output an
  adapter returns late is rejected.
\<close>

theorem stale_generation_stays_cancelled:
  assumes laws: "token_laws api"
    and fresh: "next_generation api w = (g, w1)"
    and bound: "cw_current w + 1 + count_next ops < 2 ^ 64"
  shows "\<not> gt_is_cancelled api w1 g
    \<and> (0 < count_next ops \<longrightarrow> gt_is_cancelled api (gen_run api ops w1) g)
    \<and> gt_is_cancelled api (gen_run api ops (gt_cancel api g w1)) g"
proof -
  from fresh have g: "gt_generation g = cw_current w1" "cw_current w1 = cw_current w + 1"
    and t: "gt_cancellation g = fst (tok_new api (cw_tokens w))"
      "cw_tokens w1 = snd (tok_new api (cw_tokens w))"
    using next_generation_simps [of api w] bound by (auto simp: wrap_inc64_exact)
  have "\<not> gt_is_cancelled api w1 g"
    using laws g t by (simp add: gt_is_cancelled_def gt_is_current_def token_laws_def)
  moreover have "cw_current (gen_run api ops w1) = cw_current w1 + count_next ops"
    using bound g by (intro gen_run_current) simp
  then have "0 < count_next ops \<longrightarrow> gt_is_cancelled api (gen_run api ops w1) g"
    using g by (simp add: gt_is_cancelled_def gt_is_current_def)
  moreover have "tok_is_cancelled api (cw_tokens (gt_cancel api g w1)) (gt_cancellation g)"
    using laws by (simp add: gt_cancel_def token_laws_def)
  then have "gt_is_cancelled api (gen_run api ops (gt_cancel api g w1)) g"
    using laws by (simp add: gt_is_cancelled_def gen_run_cancelled_mono)
  ultimately show ?thesis by blast
qed

text \<open>A store that lists the cancelled tokens; a new token is a number above all of them.\<close>

definition counting_api :: "(nat list, nat) token_api" where
  "counting_api = \<lparr>tok_new = (\<lambda>cs. (Suc (sum_list cs), cs)),
     tok_cancel = (\<lambda>t cs. t # cs),
     tok_is_cancelled = (\<lambda>cs t. t \<in> set cs)\<rparr>"

lemma counting_api_laws: "token_laws counting_api"
proof -
  have "n \<in> set cs \<Longrightarrow> n \<le> sum_list cs" for n :: nat and cs
    by (simp add: member_le_sum_list)
  then have "Suc (sum_list cs) \<notin> set cs" for cs :: "nat list"
    using Suc_n_not_le_n by blast
  then show ?thesis
    by (simp add: token_laws_def counting_api_def)
qed

theorem stale_generation_stays_cancelled_witness:
  "gt_is_cancelled counting_api
     (gen_run counting_api [GenNext]
        (snd (next_generation counting_api \<lparr>cw_current = 0, cw_tokens = []\<rparr>)))
     (fst (next_generation counting_api \<lparr>cw_current = 0, cw_tokens = []\<rparr>))"
  using stale_generation_stays_cancelled
    [OF counting_api_laws, of "\<lparr>cw_current = 0, cw_tokens = []\<rparr>"
       "fst (next_generation counting_api \<lparr>cw_current = 0, cw_tokens = []\<rparr>)"
       "snd (next_generation counting_api \<lparr>cw_current = 0, cw_tokens = []\<rparr>)" "[GenNext]"]
  by simp

end
