(* ===== verification/Broker_Types.thy ===== *)
theory Broker_Types
  imports Routing_Policy
begin

text \<open>
  The data of the resource broker, \<open>crates/runtime-core/src/resource_broker.rs\<close> up to the broker
  state: jobs, compute targets, telemetry, residency ledger, configuration, diagnostics and errors,
  with the small methods of those types. Byte counts and milliseconds are \<open>u64\<close> values, kept as
  \<open>nat\<close> with the saturating operations of the source; the ratios of the pressure test are IEEE
  doubles, kept as the rational numbers they denote and rounded where the source rounds.
\<close>

section \<open>IEEE double arithmetic on non-negative values\<close>

definition f64_round :: "rat \<Rightarrow> rat" where
  "f64_round x =
     (if x \<le> 0 then 0
      else let u = pow2 (rat_exponent x - 52) in of_int (round_half_even (x / u)) * u)"

text \<open>\<open>a as f64 / b as f64\<close> for unsigned integers.\<close>

definition f64_ratio :: "nat \<Rightarrow> nat \<Rightarrow> rat" where
  "f64_ratio a b = f64_round (f64_round (of_nat a) / f64_round (of_nat b))"

lemma f64_ratio_0 [simp]: "f64_ratio 0 b = 0"
  by (simp add: f64_ratio_def f64_round_def)

section \<open>Jobs\<close>

datatype job_priority = Opportunistic | Background | Interactive | Critical

fun priority_rank :: "job_priority \<Rightarrow> nat" where
  "priority_rank Opportunistic = 0"
| "priority_rank Background = 1"
| "priority_rank Interactive = 2"
| "priority_rank Critical = 3"

instantiation job_priority :: linorder
begin

definition less_eq_job_priority :: "job_priority \<Rightarrow> job_priority \<Rightarrow> bool" where
  "less_eq_job_priority a b \<longleftrightarrow> priority_rank a \<le> priority_rank b"

definition less_job_priority :: "job_priority \<Rightarrow> job_priority \<Rightarrow> bool" where
  "less_job_priority a b \<longleftrightarrow> priority_rank a < priority_rank b"

instance
proof
  fix a b :: job_priority
  show "a \<le> b \<Longrightarrow> b \<le> a \<Longrightarrow> a = b"
    by (cases a; cases b) (auto simp: less_eq_job_priority_def)
qed (auto simp: less_eq_job_priority_def less_job_priority_def)

end

datatype resource_job_kind =
    InteractiveTurn rstr
  | ForegroundLlm rstr
  | SpeechSynthesis rstr nat
  | Embedding
  | ContinuousVision nat nat
  | ScreenSpaceLipSync nat nat
  | NativeRigAnimation rstr
  | ModelLoad
  | Maintenance

fun holds_foreground_turn_slot :: "resource_job_kind \<Rightarrow> bool" where
  "holds_foreground_turn_slot (InteractiveTurn _) = True"
| "holds_foreground_turn_slot (ForegroundLlm _) = True"
| "holds_foreground_turn_slot _ = False"

fun kind_utterance_id :: "resource_job_kind \<Rightarrow> rstr option" where
  "kind_utterance_id (InteractiveTurn u) = Some u"
| "kind_utterance_id (ForegroundLlm u) = Some u"
| "kind_utterance_id (SpeechSynthesis u _) = Some u"
| "kind_utterance_id (NativeRigAnimation u) = Some u"
| "kind_utterance_id _ = None"

fun kind_captured_at_ms :: "resource_job_kind \<Rightarrow> nat option" where
  "kind_captured_at_ms (ContinuousVision _ t) = Some t"
| "kind_captured_at_ms (ScreenSpaceLipSync _ t) = Some t"
| "kind_captured_at_ms _ = None"

fun is_visual_burst :: "resource_job_kind \<Rightarrow> bool" where
  "is_visual_burst (ContinuousVision _ _) = True"
| "is_visual_burst (ScreenSpaceLipSync _ _) = True"
| "is_visual_burst _ = False"

record resource_estimate =
  es_ram_bytes :: nat
  es_vram_resident_bytes :: nat
  es_vram_transient_bytes :: nat
  es_transient_duration_ms :: nat
  es_gpu_time_ms :: nat

definition total_vram :: "resource_estimate \<Rightarrow> nat" where
  "total_vram e = sat_add (es_vram_resident_bytes e) (es_vram_transient_bytes e)"

datatype gpu_residency = GpuNone | GpuShared | GpuExclusive

record compute_target =
  ct_target_id :: rstr
  ct_model_id :: "rstr option"
  ct_provider :: provider_descriptor
  ct_estimate :: resource_estimate
  ct_gpu_residency :: gpu_residency

datatype drop_policy = Never | DropIfLate | DropIfStale nat | DropUnderPressure | Supersede rstr

record broker_privacy =
  bp_execution_mode :: execution_mode
  bp_network_policy :: network_policy
  bp_authorized_cloud_providers :: "rstr list"
  bp_allow_retaining_providers :: bool
  bp_allow_local_to_cloud_fallback :: bool

definition privacy_fully_local :: broker_privacy where
  "privacy_fully_local = \<lparr>bp_execution_mode = ModeFullyLocal, bp_network_policy = NetOffline,
     bp_authorized_cloud_providers = [], bp_allow_retaining_providers = False,
     bp_allow_local_to_cloud_fallback = False\<rparr>"

definition allows :: "broker_privacy \<Rightarrow> provider_descriptor \<Rightarrow> bool" where
  "allows p d =
     (if pd_may_retain_data d \<and> \<not> bp_allow_retaining_providers p then False
      else if \<not> is_networked (pd_location d) then True
      else bp_network_policy p = NetOnline \<and> bp_execution_mode p \<noteq> ModeFullyLocal
           \<and> pd_id d \<in> set (bp_authorized_cloud_providers p))"

definition allows_fallback :: "broker_privacy \<Rightarrow> provider_descriptor \<Rightarrow> provider_descriptor \<Rightarrow> bool" where
  "allows_fallback p primary fallback \<longleftrightarrow>
     allows p fallback
     \<and> (\<not> is_local (pd_location primary) \<or> is_local (pd_location fallback)
        \<or> bp_allow_local_to_cloud_fallback p)"

record resource_job =
  rj_job_id :: rstr
  rj_kind :: resource_job_kind
  rj_priority :: job_priority
  rj_deadline_ms :: "nat option"
  rj_primary :: compute_target
  rj_fallbacks :: "compute_target list"
  rj_drop_policy :: drop_policy
  rj_privacy :: broker_privacy

record turn_resource_plan =
  tp_primary :: compute_target
  tp_fallbacks :: "compute_target list"
  tp_deadline_ms :: "nat option"
  tp_priority :: job_priority
  tp_drop_policy :: drop_policy

section \<open>Telemetry\<close>

datatype model_residency_state = Cold | Warming | Loaded | InFlight | Evicting | Quarantined

datatype broker_error =
    InvalidTelemetry rstr
  | InvalidJob rstr
  | InvalidResidency rstr
  | UnknownModel rstr
  | InvalidResidencyTransition rstr model_residency_state model_residency_state
  | ResidencyCapacityExceeded rstr

record budget_snapshot =
  sn_monotonic_ms :: nat
  sn_system_ram_budget_bytes :: nat
  sn_system_ram_used_bytes :: nat
  sn_additional_game_ram_reserve_bytes :: nat
  sn_gpu_vram_budget_bytes :: nat
  sn_gpu_vram_used_bytes :: nat
  sn_additional_game_vram_reserve_bytes :: nat
  sn_gpu_utilization :: fp

definition validate_snapshot :: "budget_snapshot \<Rightarrow> (broker_error, budget_snapshot) result" where
  "validate_snapshot s =
     (if sn_system_ram_budget_bytes s = 0 \<or> sn_gpu_vram_budget_bytes s = 0
      then Inl (InvalidTelemetry (lit ''RAM and VRAM budgets must be non-zero''))
      else if \<not> fp_is_finite (sn_gpu_utilization s) \<or> \<not> fp_in_range 0 1 (sn_gpu_utilization s)
      then Inl (InvalidTelemetry (lit ''GPU utilization must be finite and within 0..=1''))
      else Inr s)"

record gpu_usage =
  gu_resident_bytes :: nat
  gu_transient_bytes :: nat

definition no_gpu_usage :: gpu_usage where
  "no_gpu_usage = \<lparr>gu_resident_bytes = 0, gu_transient_bytes = 0\<rparr>"

text \<open>\<open>ReportedBudgetTelemetry\<close>: the last validated sample and the accounted usage.\<close>

record reported_telemetry =
  rt_snapshot :: budget_snapshot
  rt_accounted :: gpu_usage

definition reported_new :: "budget_snapshot \<Rightarrow> (broker_error, reported_telemetry) result" where
  "reported_new s =
     bind_result (validate_snapshot s) (\<lambda>s. Inr \<lparr>rt_snapshot = s, rt_accounted = no_gpu_usage\<rparr>)"

definition reported_update ::
  "budget_snapshot \<Rightarrow> reported_telemetry \<Rightarrow> (broker_error, unit) result \<times> reported_telemetry" where
  "reported_update s t =
     (case validate_snapshot s of
        Inl e \<Rightarrow> (Inl e, t)
      | Inr s \<Rightarrow>
          if sn_monotonic_ms s < sn_monotonic_ms (rt_snapshot t)
          then (Inl (InvalidTelemetry (lit ''telemetry time moved backwards'')), t)
          else (Inr (), t\<lparr>rt_snapshot := s\<rparr>))"

definition reported_update_accounted :: "gpu_usage \<Rightarrow> reported_telemetry \<Rightarrow> reported_telemetry" where
  "reported_update_accounted u t = t\<lparr>rt_accounted := u\<rparr>"

section \<open>The residency ledger\<close>

record gpu_envelope =
  ge_resident_bytes :: nat
  ge_p99_transient_bytes :: nat
  ge_sample_count :: nat

definition validate_envelope :: "gpu_envelope \<Rightarrow> (broker_error, gpu_envelope) result" where
  "validate_envelope e =
     (if ge_resident_bytes e = 0
      then Inl (InvalidResidency (lit ''measured resident_bytes must be non-zero''))
      else if ge_sample_count e = 0
      then Inl (InvalidResidency (lit ''measured GPU envelope must contain at least one sample''))
      else Inr e)"

record model_residency_spec =
  ms_model_id :: rstr
  ms_target_id :: rstr
  ms_provider :: provider_descriptor
  ms_gpu_residency :: gpu_residency
  ms_envelope :: gpu_envelope

record model_residency_status =
  mt_model_id :: rstr
  mt_target_id :: rstr
  mt_state :: model_residency_state
  mt_envelope :: gpu_envelope
  mt_active_jobs :: nat
  mt_quarantine_until_ms :: "nat option"

record ledger_snapshot =
  ls_models :: "model_residency_status list"
  ls_reserved_resident_bytes :: nat
  ls_reserved_p99_transient_bytes :: nat
  ls_telemetry_accounted :: gpu_usage
  ls_unreported_resident_bytes :: nat
  ls_unreported_transient_bytes :: nat

record model_residency_record =
  mr_spec :: model_residency_spec
  mr_state :: model_residency_state
  mr_active_jobs :: nat
  mr_quarantine_until_ms :: "nat option"

definition record_status :: "model_residency_record \<Rightarrow> model_residency_status" where
  "record_status r = \<lparr>mt_model_id = ms_model_id (mr_spec r), mt_target_id = ms_target_id (mr_spec r),
     mt_state = mr_state r, mt_envelope = ms_envelope (mr_spec r), mt_active_jobs = mr_active_jobs r,
     mt_quarantine_until_ms = mr_quarantine_until_ms r\<rparr>"

definition holds_resident_memory :: "model_residency_record \<Rightarrow> bool" where
  "holds_resident_memory r \<longleftrightarrow>
     mr_state r \<in> {Warming, Loaded, InFlight, Evicting} \<or> (mr_state r = Quarantined \<and> mr_active_jobs r > 0)"

section \<open>Configuration\<close>

record broker_config =
  bc_vram_ceiling_bytes :: nat
  bc_transient_vram_allowance_bytes :: nat
  bc_transient_vram_grace_ms :: nat
  bc_amber_enter_ratio :: rat
  bc_green_reenter_ratio :: rat
  bc_red_enter_ratio :: rat
  bc_amber_reenter_ratio :: rat
  bc_recovery_green_samples :: nat
  bc_default_vision_stale_ms :: nat
  bc_oom_failures_before_quarantine :: nat
  bc_quarantine_ms :: nat
  bc_diagnostic_capacity :: nat

definition MIB :: nat where
  "MIB = 1024 * 1024"

definition default_broker_config :: broker_config where
  "default_broker_config =
     \<lparr>bc_vram_ceiling_bytes = 10 * 1024 * MIB, bc_transient_vram_allowance_bytes = 256 * MIB,
      bc_transient_vram_grace_ms = 2000, bc_amber_enter_ratio = f64_round (3 / 4),
      bc_green_reenter_ratio = f64_round (13 / 20), bc_red_enter_ratio = f64_round (9 / 10),
      bc_amber_reenter_ratio = f64_round (41 / 50), bc_recovery_green_samples = 3,
      bc_default_vision_stale_ms = 100, bc_oom_failures_before_quarantine = 2,
      bc_quarantine_ms = 60000, bc_diagnostic_capacity = 2048\<rparr>"

text \<open>The assertions of \<open>ResourceBrokerConfig::validate\<close>.\<close>

definition broker_config_ok :: "broker_config \<Rightarrow> bool" where
  "broker_config_ok c \<longleftrightarrow>
     bc_vram_ceiling_bytes c > 0 \<and> bc_transient_vram_grace_ms c > 0
     \<and> bc_green_reenter_ratio c < bc_amber_enter_ratio c
     \<and> bc_amber_enter_ratio c < bc_amber_reenter_ratio c
     \<and> bc_amber_reenter_ratio c < bc_red_enter_ratio c \<and> bc_red_enter_ratio c \<le> 1
     \<and> bc_recovery_green_samples c > 0 \<and> bc_oom_failures_before_quarantine c > 0
     \<and> bc_diagnostic_capacity c > 0"

section \<open>Diagnostics\<close>

datatype pressure_level = Green | Amber | Red

datatype broker_degradation =
    ReduceContinuousVision
  | DisableScreenSpaceLipSync
  | NeutralizeOptionalEffects
  | DisableVectorRetrieval
  | AudioAndSubtitlesOnly
  | TypedInputOrSubtitles
  | RetryableLlmFailure

definition DEGRADATION_ORDER :: "broker_degradation list" where
  "DEGRADATION_ORDER = [ReduceContinuousVision, DisableScreenSpaceLipSync, NeutralizeOptionalEffects,
     DisableVectorRetrieval, AudioAndSubtitlesOnly, TypedInputOrSubtitles, RetryableLlmFailure]"

datatype admission_outcome =
    AdmittedPrimary | AdmittedFallback | QueuedOutcome | DroppedStale | DroppedLate | DroppedPressure
  | RejectedPrivacy | RejectedQuarantined | RejectedNoCapacity | RejectedDuplicate
  | RejectedUtteranceBinding | CancelledOutcome

record resource_projection =
  pj_ram_bytes :: nat
  pj_vram_bytes :: nat
  pj_vram_ceiling_bytes :: nat
  pj_transient_overshoot_bytes :: nat

record admission_diagnostic =
  ad_monotonic_ms :: nat
  ad_job_id :: rstr
  ad_kind :: resource_job_kind
  ad_priority :: job_priority
  ad_outcome :: admission_outcome
  ad_selected_target_id :: "rstr option"
  ad_pressure :: pressure_level
  ad_active_degradations :: "broker_degradation list"
  ad_projection :: resource_projection
  ad_reason :: rstr

datatype completion_status = CsCompleted | CsFailed | CsCancelled | CsOutOfMemory | CsDeadlineMissed

record actual_usage =
  au_peak_ram_bytes :: nat
  au_peak_vram_bytes :: nat
  au_gpu_time_ms :: nat

definition no_actual_usage :: actual_usage where
  "no_actual_usage = \<lparr>au_peak_ram_bytes = 0, au_peak_vram_bytes = 0, au_gpu_time_ms = 0\<rparr>"

record actual_diagnostic =
  xd_monotonic_ms :: nat
  xd_job_id :: rstr
  xd_target_id :: rstr
  xd_estimated :: resource_estimate
  xd_actual :: actual_usage
  xd_actual_usage_measured :: bool
  xd_status :: completion_status
  xd_deadline_missed :: bool
  xd_cancelled_by_broker :: bool

datatype broker_diagnostic =
    PressureChanged nat pressure_level pressure_level rat
  | DegradationChanged nat "broker_degradation list" rstr
  | AdmissionDiag admission_diagnostic
  | ActualDiag actual_diagnostic
  | TargetQuarantined nat rstr nat nat
  | CancellationRequested nat rstr rstr

datatype recovery_directive =
    RetrySameTargetAfterEviction rstr
  | RetryFallback rstr
  | AbortUtteranceNoModelSwap
  | QuarantinedNoSafeFallback
  | JobNotActive

section \<open>Broker state\<close>

record reservations =
  rv_ram_bytes :: nat
  rv_vram_resident_bytes :: nat
  rv_vram_transient_bytes :: nat
  rv_gpu_leases :: nat
  rv_exclusive_gpu_job :: "rstr option"
  rv_foreground_turn_job :: "rstr option"

definition no_reservations :: reservations where
  "no_reservations = \<lparr>rv_ram_bytes = 0, rv_vram_resident_bytes = 0, rv_vram_transient_bytes = 0,
     rv_gpu_leases = 0, rv_exclusive_gpu_job = None, rv_foreground_turn_job = None\<rparr>"

text \<open>The cancellation token of an active job is cancelled exactly where \<open>cancelled_by_broker\<close> is
  set, so the flag stands for both.\<close>

record active_record =
  ac_job :: resource_job
  ac_target :: compute_target
  ac_output_started :: bool
  ac_cancelled_by_broker :: bool
  ac_transient_deadline_ms :: "nat option"

record target_health =
  th_oom_failures :: nat
  th_quarantine_until_ms :: nat

record queued_record =
  qr_sequence :: nat
  qr_job :: resource_job

record broker_state =
  bs_pressure :: pressure_level
  bs_green_samples :: nat
  bs_degradation_count :: nat
  bs_sequence :: nat
  bs_reservations :: reservations
  bs_active :: "(rstr, active_record) hmap"
  bs_queued :: "queued_record list"
  bs_target_health :: "(rstr, target_health) hmap"
  bs_residency :: "(rstr, model_residency_record) hmap"
  bs_utterance_bindings :: "(rstr, rstr) hmap"
  bs_diagnostics :: "broker_diagnostic list"
  bs_telemetry_accounted :: gpu_usage

definition initial_broker_state :: broker_state where
  "initial_broker_state = \<lparr>bs_pressure = Green, bs_green_samples = 0, bs_degradation_count = 0,
     bs_sequence = 0, bs_reservations = no_reservations, bs_active = [], bs_queued = [],
     bs_target_health = [], bs_residency = [], bs_utterance_bindings = [], bs_diagnostics = [],
     bs_telemetry_accounted = no_gpu_usage\<rparr>"

section \<open>Lemmas\<close>

lemma validate_snapshot_InrD:
  "validate_snapshot s = Inr s' \<Longrightarrow> s' = s \<and> 0 < sn_system_ram_budget_bytes s \<and> 0 < sn_gpu_vram_budget_bytes s
     \<and> fp_in_range 0 1 (sn_gpu_utilization s)"
  by (auto simp: validate_snapshot_def split: if_splits)

text \<open>The broker's privacy context is another privacy filter with the same promises as the routing
  policy.\<close>

interpretation broker_gate: privacy_gate
  allows
  "\<lambda>p. bp_network_policy p = NetOffline"
  "\<lambda>p. bp_execution_mode p = ModeFullyLocal"
  "\<lambda>p i. i \<in> set (bp_authorized_cloud_providers p)"
  bp_allow_retaining_providers
proof
  fix c :: broker_privacy and d
  have "bp_network_policy c = NetOnline \<longleftrightarrow> bp_network_policy c \<noteq> NetOffline"
    by (cases "bp_network_policy c") auto
  then show "allows c d \<longleftrightarrow>
    (is_networked (pd_location d) \<longrightarrow> bp_network_policy c \<noteq> NetOffline \<and> bp_execution_mode c \<noteq> ModeFullyLocal
       \<and> pd_id d \<in> set (bp_authorized_cloud_providers c))
    \<and> (pd_may_retain_data d \<longrightarrow> bp_allow_retaining_providers c)"
    by (auto simp: allows_def)
qed

section \<open>The telemetry source\<close>

text \<open>What the broker relies on in the host-fed telemetry: every sample it reads is valid, and the
  samples it reads never go back in time.\<close>

locale telemetry_source =
  fixes sample :: "'t \<Rightarrow> budget_snapshot"
    and feed :: "budget_snapshot \<Rightarrow> 't \<Rightarrow> 't"
    and wf :: "'t \<Rightarrow> bool"
  assumes sample_valid: "wf t \<Longrightarrow> validate_snapshot (sample t) = Inr (sample t)"
    and feed_wf: "wf t \<Longrightarrow> wf (feed s t)"
    and feed_monotone: "wf t \<Longrightarrow> sn_monotonic_ms (sample t) \<le> sn_monotonic_ms (sample (feed s t))"
begin

lemma feeds_wf: "wf t \<Longrightarrow> wf (fold feed ss t)"
  by (induction ss arbitrary: t) (simp_all add: feed_wf)

lemma feeds_monotone: "wf t \<Longrightarrow> sn_monotonic_ms (sample t) \<le> sn_monotonic_ms (sample (fold feed ss t))"
proof (induction ss arbitrary: t)
  case (Cons s ss)
  from feed_monotone [OF Cons.prems, of s] Cons.IH [OF feed_wf [OF Cons.prems], of s]
  have "sn_monotonic_ms (sample t) \<le> sn_monotonic_ms (sample (fold feed ss (feed s t)))"
    by (rule order_trans)
  then show ?case by simp
qed simp

lemma feeds_valid: "wf t \<Longrightarrow> validate_snapshot (sample (fold feed ss t)) = Inr (sample (fold feed ss t))"
  by (simp add: feeds_wf sample_valid)

end

definition reported_wf :: "reported_telemetry \<Rightarrow> bool" where
  "reported_wf t \<longleftrightarrow> validate_snapshot (rt_snapshot t) = Inr (rt_snapshot t)"

interpretation reported: telemetry_source rt_snapshot "\<lambda>s t. snd (reported_update s t)" reported_wf
  by unfold_locales
    (auto simp: reported_wf_def reported_update_def dest: validate_snapshot_InrD split: sum.splits)

end
