(* ===== verification/Broker_Accounting.thy ===== *)
theory Broker_Accounting
  imports Broker_Types
begin

text \<open>
  The accounting of \<open>resource_broker.rs\<close>: effective estimates, reserved and unreported GPU usage,
  the fit test, residency checks, target selection, reservation and release, projections and the
  admission diagnostic; and the diagnostic ring. These are pure functions of the broker state.
\<close>

section \<open>Estimates and usage\<close>

definition registered_model_for_target ::
  "broker_state \<Rightarrow> compute_target \<Rightarrow> model_residency_record option" where
  "registered_model_for_target st t =
     (case ct_model_id t of
        None \<Rightarrow> None
      | Some m \<Rightarrow>
          (case hm_get (bs_residency st) m of
             None \<Rightarrow> None
           | Some r \<Rightarrow>
               if ms_target_id (mr_spec r) = ct_target_id t \<and> ms_gpu_residency (mr_spec r) = ct_gpu_residency t
               then Some r else None))"

definition effective_job_estimate :: "broker_state \<Rightarrow> compute_target \<Rightarrow> resource_estimate option" where
  "effective_job_estimate st t =
     (case ct_model_id t of
        None \<Rightarrow> Some (ct_estimate t)
      | Some m \<Rightarrow>
          (case hm_get (bs_residency st) m of
             None \<Rightarrow> Some (ct_estimate t)
           | Some r \<Rightarrow>
               if ms_target_id (mr_spec r) \<noteq> ct_target_id t \<or> ms_gpu_residency (mr_spec r) \<noteq> ct_gpu_residency t
                  \<or> mr_state r \<notin> {Loaded, InFlight}
               then None
               else Some ((ct_estimate t)\<lparr>es_vram_resident_bytes := 0,
                      es_vram_transient_bytes := max (es_vram_transient_bytes (ct_estimate t))
                        (ge_p99_transient_bytes (ms_envelope (mr_spec r)))\<rparr>)))"

definition ledger_resident :: "(rstr, model_residency_record) hmap \<Rightarrow> nat" where
  "ledger_resident res =
     fold (\<lambda>(_, r) total. sat_add total (ge_resident_bytes (ms_envelope (mr_spec r))))
       (filter (\<lambda>(_, r). holds_resident_memory r) res) 0"

definition broker_reserved_gpu_usage :: "broker_state \<Rightarrow> gpu_usage" where
  "broker_reserved_gpu_usage st =
     \<lparr>gu_resident_bytes = sat_add (rv_vram_resident_bytes (bs_reservations st)) (ledger_resident (bs_residency st)),
      gu_transient_bytes = rv_vram_transient_bytes (bs_reservations st)\<rparr>"

definition unreported_gpu_usage :: "gpu_usage \<Rightarrow> gpu_usage \<Rightarrow> gpu_usage" where
  "unreported_gpu_usage reserved accounted =
     \<lparr>gu_resident_bytes = sat_sub (gu_resident_bytes reserved)
        (min (gu_resident_bytes accounted) (gu_resident_bytes reserved)),
      gu_transient_bytes = sat_sub (gu_transient_bytes reserved)
        (min (gu_transient_bytes accounted) (gu_transient_bytes reserved))\<rparr>"

definition protected_system_ram_used :: "budget_snapshot \<Rightarrow> nat" where
  "protected_system_ram_used s = sat_add (sn_system_ram_used_bytes s) (sn_additional_game_ram_reserve_bytes s)"

definition protected_gpu_vram_used :: "budget_snapshot \<Rightarrow> nat" where
  "protected_gpu_vram_used s = sat_add (sn_gpu_vram_used_bytes s) (sn_additional_game_vram_reserve_bytes s)"

definition vram_ceiling :: "broker_config \<Rightarrow> budget_snapshot \<Rightarrow> nat" where
  "vram_ceiling cfg s = min (bc_vram_ceiling_bytes cfg) (sn_gpu_vram_budget_bytes s)"

text \<open>The VRAM that is in use or promised before a new job: reported usage, the game reserve and the
  broker's unreported reservations.\<close>

definition committed_vram :: "budget_snapshot \<Rightarrow> broker_state \<Rightarrow> nat" where
  "committed_vram s st =
     (let unreported = unreported_gpu_usage (broker_reserved_gpu_usage st) (bs_telemetry_accounted st)
      in sat_add (sat_add (protected_gpu_vram_used s) (gu_resident_bytes unreported)) (gu_transient_bytes unreported))"

definition committed_ram :: "budget_snapshot \<Rightarrow> broker_state \<Rightarrow> nat" where
  "committed_ram s st = sat_add (protected_system_ram_used s) (rv_ram_bytes (bs_reservations st))"

section \<open>Tests on a target\<close>

definition target_fits :: "broker_config \<Rightarrow> budget_snapshot \<Rightarrow> broker_state \<Rightarrow> compute_target \<Rightarrow> bool" where
  "target_fits cfg s st t =
     (case effective_job_estimate st t of
        None \<Rightarrow> False
      | Some e \<Rightarrow>
          if sat_add (committed_ram s st) (es_ram_bytes e) > sn_system_ram_budget_bytes s then False
          else
            (let ceiling = vram_ceiling cfg s;
                 projected_resident = sat_add (committed_vram s st) (es_vram_resident_bytes e);
                 projected_total = sat_add projected_resident (es_vram_transient_bytes e)
             in if projected_resident > ceiling then False
                else if projected_total \<le> ceiling then True
                else projected_total - ceiling \<le> bc_transient_vram_allowance_bytes cfg
                     \<and> es_transient_duration_ms e > 0
                     \<and> es_transient_duration_ms e \<le> bc_transient_vram_grace_ms cfg))"

definition residency_available :: "broker_state \<Rightarrow> resource_job \<Rightarrow> compute_target \<Rightarrow> bool" where
  "residency_available st job t =
     (if holds_foreground_turn_slot (rj_kind job) \<and> rv_foreground_turn_job (bs_reservations st) \<noteq> None then False
      else if (case ct_model_id t of
                 None \<Rightarrow> False
               | Some m \<Rightarrow>
                   (case hm_get (bs_residency st) m of
                      None \<Rightarrow> False
                    | Some r \<Rightarrow>
                        ms_target_id (mr_spec r) \<noteq> ct_target_id t
                        \<or> ms_gpu_residency (mr_spec r) \<noteq> ct_gpu_residency t
                        \<or> mr_state r \<notin> {Loaded, InFlight}))
      then False
      else (case ct_gpu_residency t of
              GpuNone \<Rightarrow> True
            | GpuShared \<Rightarrow> rv_exclusive_gpu_job (bs_reservations st) = None
            | GpuExclusive \<Rightarrow> rv_gpu_leases (bs_reservations st) = 0))"

definition is_target_quarantined :: "broker_state \<Rightarrow> rstr \<Rightarrow> nat \<Rightarrow> bool" where
  "is_target_quarantined st target_id now_ms \<longleftrightarrow>
     (case hm_get (bs_target_health st) target_id of
        Some h \<Rightarrow> th_quarantine_until_ms h > now_ms | None \<Rightarrow> False)
     \<or> list_ex (\<lambda>(_, r). ms_target_id (mr_spec r) = target_id \<and> mr_state r = Quarantined
          \<and> (case mr_quarantine_until_ms r of None \<Rightarrow> True | Some u \<Rightarrow> u > now_ms)) (bs_residency st)"

definition is_late :: "resource_job \<Rightarrow> nat \<Rightarrow> bool" where
  "is_late job now_ms \<longleftrightarrow> (case rj_deadline_ms job of Some d \<Rightarrow> now_ms > d | None \<Rightarrow> False)"

definition is_stale :: "broker_config \<Rightarrow> resource_job \<Rightarrow> nat \<Rightarrow> bool" where
  "is_stale cfg job now_ms =
     (case kind_captured_at_ms (rj_kind job) of
        None \<Rightarrow> False
      | Some captured_at_ms \<Rightarrow>
          (case (case rj_drop_policy job of
                   DropIfStale maximum_age_ms \<Rightarrow> Some maximum_age_ms
                 | _ \<Rightarrow> if is_visual_burst (rj_kind job) then Some (bc_default_vision_stale_ms cfg) else None) of
             None \<Rightarrow> False
           | Some maximum_age_ms \<Rightarrow> sat_sub now_ms captured_at_ms > maximum_age_ms))"

text \<open>The utterance binding of a job, if its utterance has produced output.\<close>

definition bound_target :: "broker_state \<Rightarrow> resource_job \<Rightarrow> rstr option" where
  "bound_target st job =
     (case kind_utterance_id (rj_kind job) of
        None \<Rightarrow> None | Some u \<Rightarrow> hm_get (bs_utterance_bindings st) u)"

definition job_targets :: "resource_job \<Rightarrow> (compute_target \<times> admission_outcome) list" where
  "job_targets job = (rj_primary job, AdmittedPrimary) # map (\<lambda>t. (t, AdmittedFallback)) (rj_fallbacks job)"

definition target_admissible ::
  "broker_config \<Rightarrow> budget_snapshot \<Rightarrow> broker_state \<Rightarrow> resource_job \<Rightarrow> bool \<Rightarrow> compute_target \<times> admission_outcome \<Rightarrow> bool" where
  "target_admissible cfg s st job allow_fallback to =
     (case to of (t, outcome) \<Rightarrow>
        \<not> (outcome = AdmittedFallback \<and> \<not> allow_fallback)
        \<and> (case bound_target st job of Some b \<Rightarrow> b = ct_target_id t | None \<Rightarrow> True)
        \<and> (if outcome = AdmittedPrimary then allows (rj_privacy job) (ct_provider t)
           else allows_fallback (rj_privacy job) (ct_provider (rj_primary job)) (ct_provider t))
        \<and> \<not> is_target_quarantined st (ct_target_id t) (sn_monotonic_ms s)
        \<and> target_fits cfg s st t
        \<and> residency_available st job t)"

definition select_target ::
  "broker_config \<Rightarrow> budget_snapshot \<Rightarrow> broker_state \<Rightarrow> resource_job \<Rightarrow> bool \<Rightarrow> (compute_target \<times> admission_outcome) option" where
  "select_target cfg s st job allow_fallback =
     find (target_admissible cfg s st job allow_fallback) (job_targets job)"

section \<open>Reservation and release\<close>

definition reserve :: "resource_job \<Rightarrow> compute_target \<Rightarrow> broker_state \<Rightarrow> broker_state" where
  "reserve job t st =
     (let e = (case effective_job_estimate st t of Some e \<Rightarrow> e | None \<Rightarrow> ct_estimate t);
          r = bs_reservations st;
          r' = r\<lparr>rv_ram_bytes := sat_add (rv_ram_bytes r) (es_ram_bytes e),
                 rv_vram_resident_bytes := sat_add (rv_vram_resident_bytes r) (es_vram_resident_bytes e),
                 rv_vram_transient_bytes := sat_add (rv_vram_transient_bytes r) (es_vram_transient_bytes e),
                 rv_gpu_leases := (if ct_gpu_residency t \<noteq> GpuNone then wrap_inc32 (rv_gpu_leases r) else rv_gpu_leases r),
                 rv_exclusive_gpu_job := (if ct_gpu_residency t = GpuExclusive then Some (rj_job_id job) else rv_exclusive_gpu_job r),
                 rv_foreground_turn_job := (if holds_foreground_turn_slot (rj_kind job) then Some (rj_job_id job) else rv_foreground_turn_job r)\<rparr>;
          res = (case registered_model_for_target st t of
                   None \<Rightarrow> bs_residency st
                 | Some m \<Rightarrow> hm_insert (ms_model_id (mr_spec m))
                     (m\<lparr>mr_active_jobs := sat_add32 (mr_active_jobs m) 1, mr_state := InFlight\<rparr>) (bs_residency st))
      in st\<lparr>bs_reservations := r', bs_residency := res\<rparr>)"

definition release_estimate :: "broker_state \<Rightarrow> compute_target \<Rightarrow> resource_estimate" where
  "release_estimate st t =
     (case registered_model_for_target st t of
        Some m \<Rightarrow> (ct_estimate t)\<lparr>es_vram_resident_bytes := 0,
                     es_vram_transient_bytes := max (es_vram_transient_bytes (ct_estimate t))
                       (ge_p99_transient_bytes (ms_envelope (mr_spec m)))\<rparr>
      | None \<Rightarrow> ct_estimate t)"

definition release :: "resource_job \<Rightarrow> compute_target \<Rightarrow> broker_state \<Rightarrow> broker_state" where
  "release job t st =
     (let e = release_estimate st t;
          r = bs_reservations st;
          r' = r\<lparr>rv_ram_bytes := sat_sub (rv_ram_bytes r) (es_ram_bytes e),
                 rv_vram_resident_bytes := sat_sub (rv_vram_resident_bytes r) (es_vram_resident_bytes e),
                 rv_vram_transient_bytes := sat_sub (rv_vram_transient_bytes r) (es_vram_transient_bytes e),
                 rv_gpu_leases := (if ct_gpu_residency t \<noteq> GpuNone then sat_sub (rv_gpu_leases r) 1 else rv_gpu_leases r),
                 rv_exclusive_gpu_job := (if rv_exclusive_gpu_job r = Some (rj_job_id job) then None else rv_exclusive_gpu_job r),
                 rv_foreground_turn_job := (if rv_foreground_turn_job r = Some (rj_job_id job) then None else rv_foreground_turn_job r)\<rparr>;
          res = (case registered_model_for_target st t of
                   None \<Rightarrow> bs_residency st
                 | Some m \<Rightarrow>
                     (let n = sat_sub (mr_active_jobs m) 1 in
                      hm_insert (ms_model_id (mr_spec m))
                        (m\<lparr>mr_active_jobs := n,
                           mr_state := (if n = 0 \<and> mr_state m = InFlight then Loaded else mr_state m)\<rparr>)
                        (bs_residency st)))
      in st\<lparr>bs_reservations := r', bs_residency := res\<rparr>)"

section \<open>Projections and diagnostics\<close>

definition projection ::
  "broker_config \<Rightarrow> budget_snapshot \<Rightarrow> broker_state \<Rightarrow> resource_estimate \<Rightarrow> resource_projection" where
  "projection cfg s st e =
     (let ceiling = vram_ceiling cfg s;
          ram = sat_add (committed_ram s st) (es_ram_bytes e);
          vram = sat_add (committed_vram s st) (total_vram e)
      in \<lparr>pj_ram_bytes = ram, pj_vram_bytes = vram, pj_vram_ceiling_bytes = ceiling,
          pj_transient_overshoot_bytes = sat_sub vram ceiling\<rparr>)"

text \<open>\<open>DEGRADATION_ORDER[..count]\<close>; the slice panics past the end, which the degradation
  invariant rules out.\<close>

definition active_degradations :: "broker_state \<Rightarrow> broker_degradation list" where
  "active_degradations st = take (bs_degradation_count st) DEGRADATION_ORDER"

definition make_admission_diagnostic ::
  "broker_config \<Rightarrow> budget_snapshot \<Rightarrow> broker_state \<Rightarrow> resource_job \<Rightarrow> admission_outcome \<Rightarrow> rstr option \<Rightarrow> rstr
     \<Rightarrow> admission_diagnostic" where
  "make_admission_diagnostic cfg s st job outcome selected reason =
     (let target = (case selected of
                      None \<Rightarrow> rj_primary job
                    | Some i \<Rightarrow>
                        (case find (\<lambda>t. ct_target_id t = i) (rj_primary job # rj_fallbacks job) of
                           Some t \<Rightarrow> t | None \<Rightarrow> rj_primary job));
          e = (case effective_job_estimate st target of Some e \<Rightarrow> e | None \<Rightarrow> ct_estimate target)
      in \<lparr>ad_monotonic_ms = sn_monotonic_ms s, ad_job_id = rj_job_id job, ad_kind = rj_kind job,
          ad_priority = rj_priority job, ad_outcome = outcome, ad_selected_target_id = selected,
          ad_pressure = bs_pressure st, ad_active_degradations = active_degradations st,
          ad_projection = projection cfg s st e, ad_reason = reason\<rparr>)"

definition push_diagnostic :: "broker_config \<Rightarrow> broker_diagnostic \<Rightarrow> broker_state \<Rightarrow> broker_state" where
  "push_diagnostic cfg d st =
     st\<lparr>bs_diagnostics := ring_push (bc_diagnostic_capacity cfg) d (bs_diagnostics st)\<rparr>"

definition push_admission :: "broker_config \<Rightarrow> admission_diagnostic \<Rightarrow> broker_state \<Rightarrow> broker_state" where
  "push_admission cfg d st = push_diagnostic cfg (AdmissionDiag d) st"

section \<open>Lemmas\<close>

lemma push_diagnostic_simps [simp, broker_simps]:
  "bs_pressure (push_diagnostic cfg d st) = bs_pressure st"
  "bs_green_samples (push_diagnostic cfg d st) = bs_green_samples st"
  "bs_degradation_count (push_diagnostic cfg d st) = bs_degradation_count st"
  "bs_sequence (push_diagnostic cfg d st) = bs_sequence st"
  "bs_reservations (push_diagnostic cfg d st) = bs_reservations st"
  "bs_active (push_diagnostic cfg d st) = bs_active st"
  "bs_queued (push_diagnostic cfg d st) = bs_queued st"
  "bs_target_health (push_diagnostic cfg d st) = bs_target_health st"
  "bs_residency (push_diagnostic cfg d st) = bs_residency st"
  "bs_utterance_bindings (push_diagnostic cfg d st) = bs_utterance_bindings st"
  "bs_telemetry_accounted (push_diagnostic cfg d st) = bs_telemetry_accounted st"
  by (simp_all add: push_diagnostic_def)

lemma push_admission_simps [simp, broker_simps]:
  "bs_pressure (push_admission cfg d st) = bs_pressure st"
  "bs_green_samples (push_admission cfg d st) = bs_green_samples st"
  "bs_degradation_count (push_admission cfg d st) = bs_degradation_count st"
  "bs_sequence (push_admission cfg d st) = bs_sequence st"
  "bs_reservations (push_admission cfg d st) = bs_reservations st"
  "bs_active (push_admission cfg d st) = bs_active st"
  "bs_queued (push_admission cfg d st) = bs_queued st"
  "bs_target_health (push_admission cfg d st) = bs_target_health st"
  "bs_residency (push_admission cfg d st) = bs_residency st"
  "bs_utterance_bindings (push_admission cfg d st) = bs_utterance_bindings st"
  "bs_telemetry_accounted (push_admission cfg d st) = bs_telemetry_accounted st"
  by (simp_all add: push_admission_def)

text \<open>Reported usage that the broker also owns is not counted twice: what remains unreported is the
  reservation less the overlap.\<close>

lemma unreported_gpu_usage_simps [simp]:
  "gu_resident_bytes (unreported_gpu_usage r a) = gu_resident_bytes r - gu_resident_bytes a"
  "gu_transient_bytes (unreported_gpu_usage r a) = gu_transient_bytes r - gu_transient_bytes a"
  by (auto simp: unreported_gpu_usage_def min_def)

lemma select_target_SomeD:
  assumes "select_target cfg s st job fb = Some (t, outcome)"
  shows "(t, outcome) \<in> set (job_targets job)" "target_admissible cfg s st job fb (t, outcome)"
  using find_Some_split [OF assms [unfolded select_target_def]] by auto

lemma target_admissibleD:
  assumes "target_admissible cfg s st job fb (t, outcome)"
  shows "outcome = AdmittedFallback \<Longrightarrow> fb"
    and "\<And>b. bound_target st job = Some b \<Longrightarrow> b = ct_target_id t"
    and "outcome = AdmittedPrimary \<Longrightarrow> allows (rj_privacy job) (ct_provider t)"
    and "outcome \<noteq> AdmittedPrimary \<Longrightarrow>
           allows_fallback (rj_privacy job) (ct_provider (rj_primary job)) (ct_provider t)"
    and "\<not> is_target_quarantined st (ct_target_id t) (sn_monotonic_ms s)"
    and "target_fits cfg s st t" and "residency_available st job t"
  using assms by (auto simp: target_admissible_def split: option.splits)

text \<open>What a target that fits leaves of the budgets.\<close>

lemma target_fits_bounds:
  assumes "target_fits cfg s st t" "effective_job_estimate st t = Some e"
  shows "sat_add (committed_ram s st) (es_ram_bytes e) \<le> sn_system_ram_budget_bytes s"
    and "sat_add (committed_vram s st) (es_vram_resident_bytes e) \<le> vram_ceiling cfg s"
    and "sat_add (committed_vram s st) (total_vram e) \<le> vram_ceiling cfg s + bc_transient_vram_allowance_bytes cfg"
    and "sat_add (committed_vram s st) (total_vram e) \<le> vram_ceiling cfg s
         \<or> (0 < es_transient_duration_ms e \<and> es_transient_duration_ms e \<le> bc_transient_vram_grace_ms cfg)"
  using assms
  by (auto simp: target_fits_def Let_def total_vram_def sat_add_assoc split: if_splits)

lemma target_fits_estimate: "target_fits cfg s st t \<Longrightarrow> \<exists>e. effective_job_estimate st t = Some e"
  by (auto simp: target_fits_def split: option.splits)

text \<open>A target with an effective estimate that belongs to a registered model is matched by it.\<close>

lemma effective_registered:
  assumes "effective_job_estimate st t = Some e"
  shows "registered_model_for_target st t = None \<Longrightarrow> e = ct_estimate t"
    and "registered_model_for_target st t = Some m \<Longrightarrow> e = release_estimate st t"
    and "release_estimate st t = e"
  using assms
  by (auto simp: effective_job_estimate_def registered_model_for_target_def release_estimate_def
      split: option.splits if_splits)

lemma registered_model_lookup:
  "registered_model_for_target st t = Some m \<Longrightarrow>
     (\<exists>i. ct_model_id t = Some i \<and> hm_get (bs_residency st) i = Some m)
     \<and> ms_target_id (mr_spec m) = ct_target_id t \<and> ms_gpu_residency (mr_spec m) = ct_gpu_residency t"
  by (auto simp: registered_model_for_target_def split: option.splits if_splits)

end
