(* ===== verification/Comparators.thy ===== *)
theory Comparators
  imports Prelude "HOL-Library.Multiset"
begin

text \<open>
  Comparators as the sources combine them with \<open>cmp\<close> and \<open>then_with\<close>, and the stable sort they drive. The locale
  \<open>total_comparator\<close> is the contract \<open>slice::sort_by\<close> demands of its argument; under it the result is sorted.
\<close>

datatype ordering = OLess | OEqual | OGreater

definition ord_cmp :: "'a::linorder \<Rightarrow> 'a \<Rightarrow> ordering" where
  "ord_cmp a b = (if a < b then OLess else if a = b then OEqual else OGreater)"

fun then_with :: "ordering \<Rightarrow> ordering \<Rightarrow> ordering" where
  "then_with OEqual o2 = o2"
| "then_with o1 _ = o1"

text \<open>\<open>str::cmp\<close> compares the encoded bytes, which is the lexicographic order of the scalar values.\<close>

fun str_cmp :: "rstr \<Rightarrow> rstr \<Rightarrow> ordering" where
  "str_cmp [] [] = OEqual"
| "str_cmp [] (_ # _) = OLess"
| "str_cmp (_ # _) [] = OGreater"
| "str_cmp (a # as) (b # bs) = (if a = b then str_cmp as bs else ord_cmp a b)"

text \<open>\<open>slice::sort_by\<close> is a stable sort: the stable insertion sort by the comparator.\<close>

fun insert_by :: "('a \<Rightarrow> 'a \<Rightarrow> ordering) \<Rightarrow> 'a \<Rightarrow> 'a list \<Rightarrow> 'a list" where
  "insert_by cmp x [] = [x]"
| "insert_by cmp x (y # ys) = (if cmp x y = OGreater then y # insert_by cmp x ys else x # y # ys)"

definition sort_by :: "('a \<Rightarrow> 'a \<Rightarrow> ordering) \<Rightarrow> 'a list \<Rightarrow> 'a list" where
  "sort_by cmp xs = foldr (insert_by cmp) xs []"

lemma insert_by_mset: "mset (insert_by cmp x xs) = add_mset x (mset xs)"
  by (induction xs) auto

lemma sort_by_mset [simp]: "mset (sort_by cmp xs) = mset xs"
  by (induction xs) (simp_all add: sort_by_def insert_by_mset)

lemma set_sort_by [simp]: "set (sort_by cmp xs) = set xs"
  by (metis set_mset_mset sort_by_mset)

lemma length_sort_by [simp]: "length (sort_by cmp xs) = length xs"
  by (metis size_mset sort_by_mset)

fun flip_ordering :: "ordering \<Rightarrow> ordering" where
  "flip_ordering OLess = OGreater"
| "flip_ordering OEqual = OEqual"
| "flip_ordering OGreater = OLess"

locale total_comparator =
  fixes cmp :: "'a \<Rightarrow> 'a \<Rightarrow> ordering"
  assumes cmp_flip: "cmp y x = flip_ordering (cmp x y)"
    and cmp_trans: "cmp x y \<noteq> OGreater \<Longrightarrow> cmp y z \<noteq> OGreater \<Longrightarrow> cmp x z \<noteq> OGreater"
begin

lemma cmp_total: "cmp x y = OGreater \<Longrightarrow> cmp y x \<noteq> OGreater"
  using cmp_flip [of y x] by simp

lemma cmp_equal: "cmp x y = OEqual \<Longrightarrow> cmp y z = OEqual \<Longrightarrow> cmp x z = OEqual"
  using cmp_trans [of x y z] cmp_trans [of z y x] cmp_flip [of y x] cmp_flip [of z y] cmp_flip [of z x]
  by (cases "cmp x z") auto

lemma cmp_less:
  assumes "cmp x y \<noteq> OGreater" and "cmp y z \<noteq> OGreater" and "cmp x y = OLess \<or> cmp y z = OLess"
  shows "cmp x z = OLess"
  using assms cmp_trans [of x y z] cmp_trans [of z x y] cmp_trans [of y z x] cmp_flip [of y x] cmp_flip [of z y] cmp_flip [of z x]
  by (cases "cmp x z"; cases "cmp x y"; cases "cmp y z") auto

lemma insert_by_sorted:
  "sorted_wrt (\<lambda>a b. cmp a b \<noteq> OGreater) xs \<Longrightarrow> sorted_wrt (\<lambda>a b. cmp a b \<noteq> OGreater) (insert_by cmp x xs)"
proof (induction xs)
  case (Cons y ys)
  have "set (insert_by cmp x ys) = insert x (set ys)"
    by (metis insert_by_mset set_mset_add_mset_insert set_mset_mset)
  then have set: "z \<in> set (insert_by cmp x ys) \<longleftrightarrow> z = x \<or> z \<in> set ys" for z by auto
  have ys: "\<forall>z\<in>set ys. cmp y z \<noteq> OGreater" and sorted: "sorted_wrt (\<lambda>a b. cmp a b \<noteq> OGreater) ys"
    using Cons.prems by auto
  show ?case
  proof (cases "cmp x y = OGreater")
    case True
    then show ?thesis using Cons.IH [OF sorted] ys cmp_total [OF True] set by (auto simp del: insert_by.simps(1))
  next
    case False
    then have "\<forall>z\<in>set ys. cmp x z \<noteq> OGreater" using ys cmp_trans [OF False] by blast
    with False show ?thesis using Cons.prems by simp
  qed
qed simp

lemma sort_by_sorted: "sorted_wrt (\<lambda>a b. cmp a b \<noteq> OGreater) (sort_by cmp xs)"
  by (induction xs) (simp_all add: sort_by_def insert_by_sorted)

end

text \<open>Comparators by a key, and lexicographic combinations of them.\<close>

lemma ord_cmp_simps [simp]:
  "ord_cmp a b = OGreater \<longleftrightarrow> b < a" "ord_cmp a b = OLess \<longleftrightarrow> a < b" "ord_cmp a b = OEqual \<longleftrightarrow> a = b"
  by (auto simp: ord_cmp_def)

lemma then_with_Greater: "then_with a b = OGreater \<longleftrightarrow> a = OGreater \<or> a = OEqual \<and> b = OGreater"
  by (cases a) auto

lemma then_with_Equal: "then_with a b = OEqual \<longleftrightarrow> a = OEqual \<and> b = OEqual"
  by (cases a) auto

lemma comparator_of_key: "total_comparator (\<lambda>x y. ord_cmp (k x) (k y))"
proof
  fix x y
  show "ord_cmp (k y) (k x) = flip_ordering (ord_cmp (k x) (k y))"
    by (cases "k x" "k y" rule: linorder_cases) (auto simp: ord_cmp_def)
qed auto

lemma comparator_then_with:
  assumes "total_comparator c1" and "total_comparator c2"
  shows "total_comparator (\<lambda>x y. then_with (c1 x y) (c2 x y))"
proof
  fix x y z
  show "then_with (c1 y x) (c2 y x) = flip_ordering (then_with (c1 x y) (c2 x y))"
    unfolding total_comparator.cmp_flip [OF assms(1), of y x] total_comparator.cmp_flip [OF assms(2), of y x]
    by (cases "c1 x y") auto
  assume xy: "then_with (c1 x y) (c2 x y) \<noteq> OGreater" and yz: "then_with (c1 y z) (c2 y z) \<noteq> OGreater"
  show "then_with (c1 x z) (c2 x z) \<noteq> OGreater"
  proof (cases "c1 x y = OEqual \<and> c1 y z = OEqual")
    case True
    then have "c1 x z = OEqual" using total_comparator.cmp_equal [OF assms(1)] by blast
    then show ?thesis using True xy yz total_comparator.cmp_trans [OF assms(2), of x y z] by simp
  next
    case False
    then have "c1 x y = OLess \<or> c1 y z = OLess" using xy yz by (cases "c1 x y"; cases "c1 y z") auto
    then have "c1 x z = OLess"
      using xy yz by (intro total_comparator.cmp_less [OF assms(1), of x y z]) (auto simp: then_with_Greater)
    then show ?thesis by simp
  qed
qed

lemma comparator_reversed:
  assumes "total_comparator c"
  shows "total_comparator (\<lambda>x y. c y x)"
proof
  fix x y z
  show "c x y = flip_ordering (c y x)" by (rule total_comparator.cmp_flip [OF assms])
  show "c y x \<noteq> OGreater \<Longrightarrow> c z y \<noteq> OGreater \<Longrightarrow> c z x \<noteq> OGreater"
    using total_comparator.cmp_trans [OF assms, of z y x] by blast
qed

end
