(* ===== verification/Resource_Broker.thy ===== *)
theory Resource_Broker
  imports Broker_Accounting Comparators "HOL-Library.Product_Lexorder"
begin

text \<open>
  The operations of \<open>ResourceBroker\<close> and \<open>ResourceLease\<close> (\<open>resource_broker.rs\<close>): submission, the
  queue, pressure and degradation, model residency transitions, cancellation, output binding,
  out-of-memory recovery and lease completion. Every operation takes what the telemetry source
  returned to its calls and the broker state, and returns its result with the new state; the broker
  mutex makes each of them atomic. The last sections have the lemmas on single operations that the
  invariant theory and the properties share.
\<close>

section \<open>Telemetry reads\<close>

text \<open>The answers of the \<open>BudgetTelemetry\<close> object to one operation: \<open>snapshot()\<close> and
  \<open>broker_accounted_gpu_usage()\<close>.\<close>

record telemetry_reading =
  tl_snapshot :: "(broker_error, budget_snapshot) result"
  tl_accounted :: "(broker_error, gpu_usage) result"

definition read_snapshot :: "telemetry_reading \<Rightarrow> (broker_error, budget_snapshot) result" where
  "read_snapshot tm = bind_result (tl_snapshot tm) validate_snapshot"

definition read_telemetry :: "telemetry_reading \<Rightarrow> (broker_error, budget_snapshot \<times> gpu_usage) result" where
  "read_telemetry tm =
     bind_result (read_snapshot tm) (\<lambda>s. bind_result (tl_accounted tm) (\<lambda>a. Inr (s, a)))"

section \<open>Pressure and degradation\<close>

definition emit_degradation :: "broker_config \<Rightarrow> nat \<Rightarrow> rstr \<Rightarrow> broker_state \<Rightarrow> broker_state" where
  "emit_degradation cfg now_ms reason st =
     push_diagnostic cfg (DegradationChanged now_ms (active_degradations st) reason) st"

definition escalate_degradation :: "broker_config \<Rightarrow> nat \<Rightarrow> rstr \<Rightarrow> broker_state \<Rightarrow> broker_state" where
  "escalate_degradation cfg now_ms reason st =
     (if bs_degradation_count st < length DEGRADATION_ORDER
      then emit_degradation cfg now_ms reason (st\<lparr>bs_degradation_count := bs_degradation_count st + 1\<rparr>)
      else st)"

definition overage_expired :: "nat \<Rightarrow> active_record \<Rightarrow> bool" where
  "overage_expired now_ms a \<longleftrightarrow>
     (case ac_transient_deadline_ms a of Some d \<Rightarrow> now_ms > d | None \<Rightarrow> False) \<and> \<not> ac_cancelled_by_broker a"

definition expire_transient_overages :: "broker_config \<Rightarrow> nat \<Rightarrow> broker_state \<Rightarrow> broker_state" where
  "expire_transient_overages cfg now_ms st =
     fold (\<lambda>(job_id, _). push_diagnostic cfg
             (CancellationRequested now_ms job_id (lit ''transient VRAM ceiling grace expired'')))
       (filter (\<lambda>(_, a). overage_expired now_ms a) (bs_active st))
       (st\<lparr>bs_active := map (\<lambda>(job_id, a).
              (job_id, if overage_expired now_ms a then a\<lparr>ac_cancelled_by_broker := True\<rparr> else a)) (bs_active st)\<rparr>)"

text \<open>The sampled utilization is a finite number of the unit interval once the snapshot is
  validated; \<open>f64::max\<close> skips a NaN operand.\<close>

definition fp_value :: "fp \<Rightarrow> rat" where
  "fp_value x = (case x of Fin r \<Rightarrow> r | _ \<Rightarrow> 0)"

definition utilization :: "broker_config \<Rightarrow> budget_snapshot \<Rightarrow> broker_state \<Rightarrow> rat" where
  "utilization cfg s st =
     max (max (f64_ratio (committed_vram s st) (vram_ceiling cfg s))
              (f64_ratio (committed_ram s st) (sn_system_ram_budget_bytes s)))
         (fp_value (sn_gpu_utilization s))"

fun next_pressure :: "broker_config \<Rightarrow> rat \<Rightarrow> pressure_level \<Rightarrow> pressure_level" where
  "next_pressure cfg u Green =
     (if u \<ge> bc_red_enter_ratio cfg then Red else if u \<ge> bc_amber_enter_ratio cfg then Amber else Green)"
| "next_pressure cfg u Amber =
     (if u \<ge> bc_red_enter_ratio cfg then Red else if u \<le> bc_green_reenter_ratio cfg then Green else Amber)"
| "next_pressure cfg u Red = (if u \<le> bc_amber_reenter_ratio cfg then Amber else Red)"

fun pressure_floor :: "pressure_level \<Rightarrow> nat" where
  "pressure_floor Green = 0"
| "pressure_floor Amber = 1"
| "pressure_floor Red = 2"

definition set_pressure :: "broker_config \<Rightarrow> budget_snapshot \<Rightarrow> broker_state \<Rightarrow> broker_state" where
  "set_pressure cfg s st =
     (let u = utilization cfg s st;
          previous = bs_pressure st;
          p = next_pressure cfg u previous;
          st = st\<lparr>bs_pressure := p\<rparr>
      in if p \<noteq> previous
         then push_diagnostic cfg (PressureChanged (sn_monotonic_ms s) previous p u) st
         else st)"

definition raise_pressure_floor :: "broker_config \<Rightarrow> nat \<Rightarrow> broker_state \<Rightarrow> broker_state" where
  "raise_pressure_floor cfg now_ms st =
     (let floor = pressure_floor (bs_pressure st) in
      if bs_degradation_count st < floor
      then emit_degradation cfg now_ms (lit ''pressure floor increased'') (st\<lparr>bs_degradation_count := floor\<rparr>)
      else st)"

definition recover_degradation :: "broker_config \<Rightarrow> nat \<Rightarrow> broker_state \<Rightarrow> broker_state" where
  "recover_degradation cfg now_ms st =
     (if bs_pressure st = Green then
        (let st = st\<lparr>bs_green_samples := wrap_inc32 (bs_green_samples st)\<rparr> in
         if bs_green_samples st \<ge> bc_recovery_green_samples cfg \<and> bs_degradation_count st > 0
         then emit_degradation cfg now_ms (lit ''sustained green pressure recovery'')
                (st\<lparr>bs_degradation_count := bs_degradation_count st - 1, bs_green_samples := 0\<rparr>)
         else st)
      else st\<lparr>bs_green_samples := 0\<rparr>)"

definition update_pressure :: "broker_config \<Rightarrow> budget_snapshot \<Rightarrow> broker_state \<Rightarrow> broker_state" where
  "update_pressure cfg s st =
     recover_degradation cfg (sn_monotonic_ms s)
       (raise_pressure_floor cfg (sn_monotonic_ms s) (set_pressure cfg s st))"

text \<open>What \<open>submit\<close>, \<open>poll_ready\<close> and \<open>refresh_pressure\<close> do first under the lock.\<close>

definition observe :: "broker_config \<Rightarrow> budget_snapshot \<Rightarrow> gpu_usage \<Rightarrow> broker_state \<Rightarrow> broker_state" where
  "observe cfg s accounted st =
     update_pressure cfg s
       (expire_transient_overages cfg (sn_monotonic_ms s) (st\<lparr>bs_telemetry_accounted := accounted\<rparr>))"

definition refresh_pressure ::
  "broker_config \<Rightarrow> telemetry_reading \<Rightarrow> broker_state \<Rightarrow> (broker_error, pressure_level) result \<times> broker_state" where
  "refresh_pressure cfg tm st =
     (case read_telemetry tm of
        Inl e \<Rightarrow> (Inl e, st)
      | Inr (s, accounted) \<Rightarrow> (let st = observe cfg s accounted st in (Inr (bs_pressure st), st)))"

section \<open>Submission\<close>

text \<open>The uniqueness test of the target ids inserts them one after the other into a hash set.\<close>

definition validate_job :: "resource_job \<Rightarrow> (broker_error, unit) result" where
  "validate_job job =
     (if is_blank (rj_job_id job) then Inl (InvalidJob (lit ''job_id is empty''))
      else if is_blank (ct_target_id (rj_primary job)) then Inl (InvalidJob (lit ''primary target_id is empty''))
      else if pd_modality (ct_provider (rj_primary job))
                \<noteq> (case rj_fallbacks job of [] \<Rightarrow> pd_modality (ct_provider (rj_primary job))
                     | t # _ \<Rightarrow> pd_modality (ct_provider t))
              \<or> list_ex (\<lambda>t. pd_modality (ct_provider t) \<noteq> pd_modality (ct_provider (rj_primary job))) (rj_fallbacks job)
      then Inl (InvalidJob (lit ''fallback modality differs from primary''))
      else if \<not> distinct (map ct_target_id (rj_primary job # rj_fallbacks job))
      then Inl (InvalidJob (lit ''target IDs must be unique within a job''))
      else Inr ())"

text \<open>A lease as its owner holds it; the broker side is the active record of the job.\<close>

record resource_lease =
  rl_job_id :: rstr
  rl_target_id :: rstr

record submission =
  sb_diagnostic :: admission_diagnostic
  sb_lease :: "resource_lease option"

definition rejected_submission ::
  "broker_config \<Rightarrow> budget_snapshot \<Rightarrow> resource_job \<Rightarrow> admission_outcome \<Rightarrow> rstr \<Rightarrow> broker_state
     \<Rightarrow> submission \<times> broker_state" where
  "rejected_submission cfg s job outcome reason st =
     (let d = make_admission_diagnostic cfg s st job outcome None reason
      in (\<lparr>sb_diagnostic = d, sb_lease = None\<rparr>, push_admission cfg d st))"

definition admit ::
  "broker_config \<Rightarrow> budget_snapshot \<Rightarrow> resource_job \<Rightarrow> compute_target \<Rightarrow> admission_outcome \<Rightarrow> broker_state
     \<Rightarrow> submission \<times> broker_state" where
  "admit cfg s job t outcome st =
     (let d = make_admission_diagnostic cfg s st job outcome (Some (ct_target_id t))
            (if outcome = AdmittedFallback then lit ''primary target unavailable; authorized fallback admitted''
             else lit ''resource lease admitted'');
          st = reserve job t st;
          st = st\<lparr>bs_active := hm_insert (rj_job_id job)
                 \<lparr>ac_job = job, ac_target = t, ac_output_started = False, ac_cancelled_by_broker = False,
                  ac_transient_deadline_ms =
                    (if pj_transient_overshoot_bytes (ad_projection d) > 0
                     then Some (sat_add (sn_monotonic_ms s) (bc_transient_vram_grace_ms cfg)) else None)\<rparr>
                 (bs_active st)\<rparr>
      in (\<lparr>sb_diagnostic = d, sb_lease = Some \<lparr>rl_job_id = rj_job_id job, rl_target_id = ct_target_id t\<rparr>\<rparr>,
          push_admission cfg d st))"

definition drop_before_admission ::
  "broker_config \<Rightarrow> budget_snapshot \<Rightarrow> resource_job \<Rightarrow> broker_state \<Rightarrow> (submission \<times> broker_state) option" where
  "drop_before_admission cfg s job st =
     (if is_late job (sn_monotonic_ms s) \<and> rj_drop_policy job = DropIfLate
      then Some (rejected_submission cfg s job DroppedLate (lit ''job arrived after its deadline'') st)
      else if is_stale cfg job (sn_monotonic_ms s)
      then Some (rejected_submission cfg s job DroppedStale (lit ''vision frame is stale'') st)
      else if is_visual_burst (rj_kind job) \<and> bs_pressure st \<noteq> Green \<and> rj_drop_policy job = DropUnderPressure
      then Some (rejected_submission cfg s job DroppedPressure (lit ''visual burst dropped under memory pressure'') st)
      else None)"

definition privacy_allowed_targets :: "resource_job \<Rightarrow> compute_target list" where
  "privacy_allowed_targets job =
     filter (\<lambda>t. if ct_target_id t = ct_target_id (rj_primary job) then allows (rj_privacy job) (ct_provider t)
                 else allows_fallback (rj_privacy job) (ct_provider (rj_primary job)) (ct_provider t))
       (rj_primary job # rj_fallbacks job)"

definition terminal_rejection ::
  "budget_snapshot \<Rightarrow> broker_state \<Rightarrow> resource_job \<Rightarrow> (admission_outcome \<times> rstr) option" where
  "terminal_rejection s st job =
     (let allowed = privacy_allowed_targets job in
      if allowed = [] then Some (RejectedPrivacy, lit ''no target is authorized by the job privacy policy'')
      else if (case bound_target st job of
                 Some b \<Rightarrow> list_all (\<lambda>t. ct_target_id t \<noteq> b) allowed | None \<Rightarrow> False)
      then Some (RejectedUtteranceBinding, lit ''no authorized target matches the utterance model binding'')
      else if list_all (\<lambda>t. is_target_quarantined st (ct_target_id t) (sn_monotonic_ms s)) allowed
      then Some (RejectedQuarantined, lit ''all privacy-authorized targets are quarantined'')
      else None)"

definition job_id_in_use :: "rstr \<Rightarrow> broker_state \<Rightarrow> bool" where
  "job_id_in_use job_id st \<longleftrightarrow>
     hm_get (bs_active st) job_id \<noteq> None \<or> list_ex (\<lambda>q. rj_job_id (qr_job q) = job_id) (bs_queued st)"

text \<open>The coalescing step of \<open>submit\<close>: the queued jobs with the same supersede key are dropped.\<close>

definition supersede_queued :: "broker_config \<Rightarrow> budget_snapshot \<Rightarrow> resource_job \<Rightarrow> broker_state \<Rightarrow> broker_state" where
  "supersede_queued cfg s job st =
     (case rj_drop_policy job of
        Supersede key \<Rightarrow>
          fold (\<lambda>q st. push_admission cfg
                  (make_admission_diagnostic cfg s st (qr_job q) DroppedStale None
                     (lit ''superseded by a newer coalesced job'')) st)
            (filter (\<lambda>q. rj_drop_policy (qr_job q) = Supersede key) (bs_queued st))
            (st\<lparr>bs_queued := filter (\<lambda>q. rj_drop_policy (qr_job q) \<noteq> Supersede key) (bs_queued st)\<rparr>)
      | _ \<Rightarrow> st)"

definition enqueue :: "broker_config \<Rightarrow> budget_snapshot \<Rightarrow> resource_job \<Rightarrow> broker_state \<Rightarrow> submission \<times> broker_state" where
  "enqueue cfg s job st =
     (let st = escalate_degradation cfg (sn_monotonic_ms s) (lit ''admission could not fit current budget'') st;
          st = st\<lparr>bs_sequence := wrap_inc64 (bs_sequence st)\<rparr>;
          st = st\<lparr>bs_queued := bs_queued st @ [\<lparr>qr_sequence = bs_sequence st, qr_job = job\<rparr>]\<rparr>;
          d = make_admission_diagnostic cfg s st job QueuedOutcome None
                (lit ''waiting for resource, foreground, or residency lease'')
      in (\<lparr>sb_diagnostic = d, sb_lease = None\<rparr>, push_admission cfg d st))"

definition submit_unplaced ::
  "broker_config \<Rightarrow> budget_snapshot \<Rightarrow> resource_job \<Rightarrow> broker_state \<Rightarrow> submission \<times> broker_state" where
  "submit_unplaced cfg s job st =
     (case terminal_rejection s st job of
        Some (outcome, reason) \<Rightarrow> rejected_submission cfg s job outcome reason st
      | None \<Rightarrow>
          if rj_drop_policy job = DropUnderPressure
          then rejected_submission cfg s job DroppedPressure
                 (lit ''job cannot fit the current pressure and residency constraints'') st
          else if rj_drop_policy job = DropIfLate \<and> is_late job (sn_monotonic_ms s)
          then rejected_submission cfg s job DroppedLate (lit ''job deadline has elapsed'') st
          else enqueue cfg s job st)"

definition submit_locked ::
  "broker_config \<Rightarrow> budget_snapshot \<Rightarrow> resource_job \<Rightarrow> broker_state \<Rightarrow> submission \<times> broker_state" where
  "submit_locked cfg s job st =
     (if job_id_in_use (rj_job_id job) st
      then rejected_submission cfg s job RejectedDuplicate (lit ''job ID is already active or queued'') st
      else (case drop_before_admission cfg s job st of
              Some r \<Rightarrow> r
            | None \<Rightarrow>
                (let st = supersede_queued cfg s job st in
                 case select_target cfg s st job True of
                   Some (t, outcome) \<Rightarrow> admit cfg s job t outcome st
                 | None \<Rightarrow> submit_unplaced cfg s job st)))"

definition submit ::
  "broker_config \<Rightarrow> telemetry_reading \<Rightarrow> resource_job \<Rightarrow> broker_state \<Rightarrow> (broker_error, submission) result \<times> broker_state" where
  "submit cfg tm job st =
     (case validate_job job of
        Inl e \<Rightarrow> (Inl e, st)
      | Inr _ \<Rightarrow>
          (case read_telemetry tm of
             Inl e \<Rightarrow> (Inl e, st)
           | Inr (s, accounted) \<Rightarrow>
               (let (sub, st) = submit_locked cfg s job (observe cfg s accounted st) in (Inr sub, st))))"

section \<open>The queue\<close>

definition deadline_key :: "resource_job \<Rightarrow> nat" where
  "deadline_key job = (case rj_deadline_ms job of Some d \<Rightarrow> d | None \<Rightarrow> u64_max)"

definition queue_order :: "queued_record \<Rightarrow> queued_record \<Rightarrow> ordering" where
  "queue_order l r =
     then_with (then_with (ord_cmp (rj_priority (qr_job r)) (rj_priority (qr_job l)))
                  (ord_cmp (deadline_key (qr_job l)) (deadline_key (qr_job r))))
       (ord_cmp (qr_sequence l) (qr_sequence r))"

fun poll_queue ::
  "broker_config \<Rightarrow> budget_snapshot \<Rightarrow> queued_record list \<Rightarrow> broker_state \<Rightarrow> resource_lease list \<times> broker_state" where
  "poll_queue cfg s [] st = ([], st)"
| "poll_queue cfg s (q # qs) st =
     (if is_late (qr_job q) (sn_monotonic_ms s) \<and> rj_drop_policy (qr_job q) = DropIfLate
      then poll_queue cfg s qs (push_admission cfg
             (make_admission_diagnostic cfg s st (qr_job q) DroppedLate None (lit ''queued job deadline elapsed'')) st)
      else if is_stale cfg (qr_job q) (sn_monotonic_ms s)
      then poll_queue cfg s qs (push_admission cfg
             (make_admission_diagnostic cfg s st (qr_job q) DroppedStale None (lit ''queued vision frame became stale'')) st)
      else (case select_target cfg s st (qr_job q) True of
              Some (t, outcome) \<Rightarrow>
                (let (sub, st) = admit cfg s (qr_job q) t outcome st;
                     (leases, st) = poll_queue cfg s qs st
                 in (case sb_lease sub of Some l \<Rightarrow> l # leases | None \<Rightarrow> leases, st))
            | None \<Rightarrow> poll_queue cfg s qs (st\<lparr>bs_queued := bs_queued st @ [q]\<rparr>)))"

definition poll_ready ::
  "broker_config \<Rightarrow> telemetry_reading \<Rightarrow> broker_state \<Rightarrow> (broker_error, resource_lease list) result \<times> broker_state" where
  "poll_ready cfg tm st =
     (case read_telemetry tm of
        Inl e \<Rightarrow> (Inl e, st)
      | Inr (s, accounted) \<Rightarrow>
          (let st = observe cfg s accounted st;
               queued = sort_by queue_order (bs_queued st);
               (leases, st) = poll_queue cfg s queued (st\<lparr>bs_queued := []\<rparr>)
           in (Inr leases, st)))"

section \<open>Model residency\<close>

definition set_residency :: "rstr \<Rightarrow> model_residency_record \<Rightarrow> broker_state \<Rightarrow> broker_state" where
  "set_residency model_id r st = st\<lparr>bs_residency := hm_insert model_id r (bs_residency st)\<rparr>"

definition register_model_residency ::
  "model_residency_spec \<Rightarrow> broker_state \<Rightarrow> (broker_error, unit) result \<times> broker_state" where
  "register_model_residency spec st =
     (if is_blank (ms_model_id spec) \<or> is_blank (ms_target_id spec)
      then (Inl (InvalidResidency (lit ''model_id and target_id must be non-empty'')), st)
      else if is_networked (pd_location (ms_provider spec)) \<or> ms_gpu_residency spec = GpuNone
      then (Inl (InvalidResidency (lit ''API-only and CPU-only targets have no GPU model residency context'')), st)
      else (case validate_envelope (ms_envelope spec) of
              Inl e \<Rightarrow> (Inl e, st)
            | Inr _ \<Rightarrow>
                if hm_get (bs_residency st) (ms_model_id spec) \<noteq> None
                   \<or> list_ex (\<lambda>(_, r). ms_target_id (mr_spec r) = ms_target_id spec) (bs_residency st)
                then (Inl (InvalidResidency (lit ''model_id and target_id must be unique in the residency ledger'')), st)
                else (Inr (), set_residency (ms_model_id spec)
                       \<lparr>mr_spec = spec, mr_state = Cold, mr_active_jobs = 0, mr_quarantine_until_ms = None\<rparr> st)))"

definition begin_model_warming ::
  "broker_config \<Rightarrow> telemetry_reading \<Rightarrow> rstr \<Rightarrow> broker_state \<Rightarrow> (broker_error, unit) result \<times> broker_state" where
  "begin_model_warming cfg tm model_id st =
     (case read_telemetry tm of
        Inl e \<Rightarrow> (Inl e, st)
      | Inr (s, accounted) \<Rightarrow>
          (case hm_get (bs_residency st) model_id of
             None \<Rightarrow> (Inl (UnknownModel model_id), st)
           | Some r \<Rightarrow>
               if mr_state r \<noteq> Cold then (Inl (InvalidResidencyTransition model_id (mr_state r) Warming), st)
               else
                 (let unreported = unreported_gpu_usage (broker_reserved_gpu_usage st) accounted;
                      projected = sat_add (sat_add (sat_add (protected_gpu_vram_used s) (gu_resident_bytes unreported))
                                    (gu_transient_bytes unreported)) (ge_resident_bytes (ms_envelope (mr_spec r)))
                  in if projected > vram_ceiling cfg s then (Inl (ResidencyCapacityExceeded model_id), st)
                     else (Inr (), set_residency model_id (r\<lparr>mr_state := Warming\<rparr>) st))))"

definition mark_model_loaded ::
  "broker_config \<Rightarrow> telemetry_reading \<Rightarrow> rstr \<Rightarrow> gpu_envelope \<Rightarrow> broker_state \<Rightarrow> (broker_error, unit) result \<times> broker_state" where
  "mark_model_loaded cfg tm model_id measured st =
     (case validate_envelope measured of
        Inl e \<Rightarrow> (Inl e, st)
      | Inr measured \<Rightarrow>
          (case read_telemetry tm of
             Inl e \<Rightarrow> (Inl e, st)
           | Inr (s, accounted) \<Rightarrow>
               (let st = st\<lparr>bs_telemetry_accounted := accounted\<rparr> in
                case hm_get (bs_residency st) model_id of
                  None \<Rightarrow> (Inl (UnknownModel model_id), st)
                | Some r \<Rightarrow>
                    if mr_state r \<noteq> Warming then (Inl (InvalidResidencyTransition model_id (mr_state r) Loaded), st)
                    else
                      (let reserved = broker_reserved_gpu_usage st;
                           future_reserved =
                             \<lparr>gu_resident_bytes = sat_add (sat_sub (gu_resident_bytes reserved)
                                (ge_resident_bytes (ms_envelope (mr_spec r)))) (ge_resident_bytes measured),
                              gu_transient_bytes = gu_transient_bytes reserved\<rparr>;
                           unreported = unreported_gpu_usage future_reserved accounted
                       in if sat_add (sat_add (protected_gpu_vram_used s) (gu_resident_bytes unreported))
                                (gu_transient_bytes unreported) > vram_ceiling cfg s
                          then (Inl (ResidencyCapacityExceeded model_id), st)
                          else (Inr (), set_residency model_id
                                 (r\<lparr>mr_spec := (mr_spec r)\<lparr>ms_envelope := measured\<rparr>, mr_state := Loaded\<rparr>) st)))))"

definition transition_idle_model ::
  "rstr \<Rightarrow> model_residency_state \<Rightarrow> model_residency_state \<Rightarrow> broker_state \<Rightarrow> (broker_error, unit) result \<times> broker_state" where
  "transition_idle_model model_id from to st =
     (case hm_get (bs_residency st) model_id of
        None \<Rightarrow> (Inl (UnknownModel model_id), st)
      | Some r \<Rightarrow>
          if mr_state r \<noteq> from \<or> mr_active_jobs r \<noteq> 0
          then (Inl (InvalidResidencyTransition model_id (mr_state r) to), st)
          else (Inr (), set_residency model_id (r\<lparr>mr_state := to\<rparr>) st))"

definition begin_model_eviction :: "rstr \<Rightarrow> broker_state \<Rightarrow> (broker_error, unit) result \<times> broker_state" where
  "begin_model_eviction model_id st = transition_idle_model model_id Loaded Evicting st"

definition mark_model_cold :: "rstr \<Rightarrow> broker_state \<Rightarrow> (broker_error, unit) result \<times> broker_state" where
  "mark_model_cold model_id st = transition_idle_model model_id Evicting Cold st"

definition quarantine_model_residency :: "rstr \<Rightarrow> nat \<Rightarrow> broker_state \<Rightarrow> (broker_error, unit) result \<times> broker_state" where
  "quarantine_model_residency model_id until_ms st =
     (case hm_get (bs_residency st) model_id of
        None \<Rightarrow> (Inl (UnknownModel model_id), st)
      | Some r \<Rightarrow> (Inr (), set_residency model_id
                     (r\<lparr>mr_state := Quarantined, mr_quarantine_until_ms := Some until_ms\<rparr>) st))"

definition clear_model_quarantine ::
  "telemetry_reading \<Rightarrow> rstr \<Rightarrow> broker_state \<Rightarrow> (broker_error, unit) result \<times> broker_state" where
  "clear_model_quarantine tm model_id st =
     (case read_snapshot tm of
        Inl e \<Rightarrow> (Inl e, st)
      | Inr s \<Rightarrow>
          (case hm_get (bs_residency st) model_id of
             None \<Rightarrow> (Inl (UnknownModel model_id), st)
           | Some r \<Rightarrow>
               if mr_state r \<noteq> Quarantined
                  \<or> (case mr_quarantine_until_ms r of Some until \<Rightarrow> sn_monotonic_ms s < until | None \<Rightarrow> False)
               then (Inl (InvalidResidencyTransition model_id (mr_state r) Cold), st)
               else (Inr (), set_residency model_id
                       (r\<lparr>mr_state := Cold, mr_quarantine_until_ms := None\<rparr>) st)))"

definition residency_ledger_snapshot ::
  "telemetry_reading \<Rightarrow> broker_state \<Rightarrow> (broker_error, ledger_snapshot) result" where
  "residency_ledger_snapshot tm st =
     bind_result (tl_accounted tm) (\<lambda>accounted.
       (let reserved = broker_reserved_gpu_usage st;
            unreported = unreported_gpu_usage reserved accounted
        in Inr \<lparr>ls_models = sort_by (\<lambda>l r. str_cmp (mt_model_id l) (mt_model_id r))
                  (map (\<lambda>(_, r). record_status r) (bs_residency st)),
                ls_reserved_resident_bytes = gu_resident_bytes reserved,
                ls_reserved_p99_transient_bytes = gu_transient_bytes reserved,
                ls_telemetry_accounted = accounted,
                ls_unreported_resident_bytes = gu_resident_bytes unreported,
                ls_unreported_transient_bytes = gu_transient_bytes unreported\<rparr>))"

section \<open>Cancellation, output and recovery\<close>

text \<open>\<open>queued.remove(index)\<close> at the first position that satisfies the predicate.\<close>

fun remove_first :: "('a \<Rightarrow> bool) \<Rightarrow> 'a list \<Rightarrow> 'a list" where
  "remove_first P [] = []"
| "remove_first P (x # xs) = (if P x then xs else x # remove_first P xs)"

definition cancel ::
  "broker_config \<Rightarrow> telemetry_reading \<Rightarrow> rstr \<Rightarrow> rstr \<Rightarrow> broker_state \<Rightarrow> bool \<times> broker_state" where
  "cancel cfg tm job_id reason st =
     (case tl_snapshot tm of
        Inl _ \<Rightarrow> (False, st)
      | Inr s \<Rightarrow>
          (case find (\<lambda>q. rj_job_id (qr_job q) = job_id) (bs_queued st) of
             Some q \<Rightarrow>
               (let st = st\<lparr>bs_queued := remove_first (\<lambda>q. rj_job_id (qr_job q) = job_id) (bs_queued st)\<rparr> in
                (True, push_admission cfg
                   (make_admission_diagnostic cfg s st (qr_job q) CancelledOutcome None (lit ''queued job cancelled'')) st))
           | None \<Rightarrow>
               (case hm_get (bs_active st) job_id of
                  None \<Rightarrow> (False, st)
                | Some a \<Rightarrow>
                    (True, push_diagnostic cfg (CancellationRequested (sn_monotonic_ms s) job_id reason)
                       (st\<lparr>bs_active := hm_insert job_id (a\<lparr>ac_cancelled_by_broker := True\<rparr>) (bs_active st)\<rparr>)))))"

definition mark_output_started :: "rstr \<Rightarrow> broker_state \<Rightarrow> bool \<times> broker_state" where
  "mark_output_started job_id st =
     (case hm_get (bs_active st) job_id of
        None \<Rightarrow> (False, st)
      | Some a \<Rightarrow>
          (let st = st\<lparr>bs_active := hm_insert job_id (a\<lparr>ac_output_started := True\<rparr>) (bs_active st)\<rparr> in
           (True, case kind_utterance_id (rj_kind (ac_job a)) of
                    None \<Rightarrow> st
                  | Some u \<Rightarrow> st\<lparr>bs_utterance_bindings := hm_insert u (ct_target_id (ac_target a)) (bs_utterance_bindings st)\<rparr>)))"

definition finish_utterance :: "rstr \<Rightarrow> broker_state \<Rightarrow> broker_state" where
  "finish_utterance utterance_id st =
     st\<lparr>bs_utterance_bindings := hm_remove utterance_id (bs_utterance_bindings st)\<rparr>"

definition default_health :: target_health where
  "default_health = \<lparr>th_oom_failures = 0, th_quarantine_until_ms = 0\<rparr>"

definition quarantine_record :: "compute_target \<Rightarrow> nat \<Rightarrow> broker_state \<Rightarrow> broker_state" where
  "quarantine_record t until_ms st =
     (case ct_model_id t of
        None \<Rightarrow> st
      | Some m \<Rightarrow>
          (case hm_get (bs_residency st) m of
             None \<Rightarrow> st
           | Some r \<Rightarrow> set_residency m (r\<lparr>mr_state := Quarantined, mr_quarantine_until_ms := Some until_ms\<rparr>) st))"

definition report_oom ::
  "broker_config \<Rightarrow> telemetry_reading \<Rightarrow> rstr \<Rightarrow> broker_state \<Rightarrow> (broker_error, recovery_directive) result \<times> broker_state" where
  "report_oom cfg tm job_id st =
     (case read_telemetry tm of
        Inl e \<Rightarrow> (Inl e, st)
      | Inr (s, accounted) \<Rightarrow>
          (let st = st\<lparr>bs_telemetry_accounted := accounted\<rparr> in
           case hm_get (bs_active st) job_id of
             None \<Rightarrow> (Inr JobNotActive, st)
           | Some a \<Rightarrow>
               (let target_id = ct_target_id (ac_target a);
                    health = (case hm_get (bs_target_health st) target_id of Some h \<Rightarrow> h | None \<Rightarrow> default_health);
                    failures = wrap_inc32 (th_oom_failures health)
                in if failures < bc_oom_failures_before_quarantine cfg
                   then (Inr (RetrySameTargetAfterEviction target_id),
                         st\<lparr>bs_target_health := hm_insert target_id (health\<lparr>th_oom_failures := failures\<rparr>) (bs_target_health st)\<rparr>)
                   else
                     (let until_ms = sat_add (sn_monotonic_ms s) (bc_quarantine_ms cfg);
                          st = st\<lparr>bs_target_health := hm_insert target_id
                                 \<lparr>th_oom_failures = failures, th_quarantine_until_ms = until_ms\<rparr> (bs_target_health st)\<rparr>;
                          st = quarantine_record (ac_target a) until_ms st;
                          st = push_diagnostic cfg (TargetQuarantined (sn_monotonic_ms s) target_id until_ms failures) st;
                          job = ac_job a
                      in (if ac_output_started a \<or> holds_foreground_turn_slot (rj_kind job)
                          then Inr AbortUtteranceNoModelSwap
                          else (case find (\<lambda>t. allows_fallback (rj_privacy job) (ct_provider (rj_primary job)) (ct_provider t)
                                            \<and> \<not> is_target_quarantined st (ct_target_id t) (sn_monotonic_ms s)
                                            \<and> target_fits cfg s st t) (rj_fallbacks job) of
                                  Some t \<Rightarrow> Inr (RetryFallback (ct_target_id t))
                                | None \<Rightarrow> Inr QuarantinedNoSafeFallback),
                          st)))))"

definition drain_diagnostics :: "broker_state \<Rightarrow> broker_diagnostic list \<times> broker_state" where
  "drain_diagnostics st = (bs_diagnostics st, st\<lparr>bs_diagnostics := []\<rparr>)"

section \<open>Leases\<close>

text \<open>\<open>finish_lease\<close>: \<open>complete\<close>, \<open>complete_unmeasured\<close> and the drop of a lease all end here; a
  failed telemetry read only costs the time stamp.\<close>

definition finish_lease ::
  "broker_config \<Rightarrow> telemetry_reading \<Rightarrow> rstr \<Rightarrow> actual_usage \<Rightarrow> bool \<Rightarrow> completion_status \<Rightarrow> broker_state \<Rightarrow> broker_state" where
  "finish_lease cfg tm job_id actual measured status st =
     (case hm_get (bs_active st) job_id of
        None \<Rightarrow> st
      | Some a \<Rightarrow>
          (let st = st\<lparr>bs_active := hm_remove job_id (bs_active st)\<rparr>;
               st = release (ac_job a) (ac_target a) st;
               st = (if status = CsCompleted
                     then st\<lparr>bs_target_health := hm_remove (ct_target_id (ac_target a)) (bs_target_health st)\<rparr> else st);
               now_ms = (case tl_snapshot tm of Inr s \<Rightarrow> sn_monotonic_ms s | Inl _ \<Rightarrow> 0)
           in push_diagnostic cfg
                (ActualDiag \<lparr>xd_monotonic_ms = now_ms, xd_job_id = job_id, xd_target_id = ct_target_id (ac_target a),
                   xd_estimated = ct_estimate (ac_target a), xd_actual = actual, xd_actual_usage_measured = measured,
                   xd_status = status, xd_deadline_missed = is_late (ac_job a) now_ms,
                   xd_cancelled_by_broker = ac_cancelled_by_broker a\<rparr>) st))"

definition lease_complete ::
  "broker_config \<Rightarrow> telemetry_reading \<Rightarrow> resource_lease \<Rightarrow> actual_usage \<Rightarrow> completion_status \<Rightarrow> broker_state \<Rightarrow> broker_state" where
  "lease_complete cfg tm l actual status = finish_lease cfg tm (rl_job_id l) actual True status"

definition lease_complete_unmeasured ::
  "broker_config \<Rightarrow> telemetry_reading \<Rightarrow> resource_lease \<Rightarrow> completion_status \<Rightarrow> broker_state \<Rightarrow> broker_state" where
  "lease_complete_unmeasured cfg tm l status = finish_lease cfg tm (rl_job_id l) no_actual_usage False status"

definition lease_drop :: "broker_config \<Rightarrow> telemetry_reading \<Rightarrow> resource_lease \<Rightarrow> broker_state \<Rightarrow> broker_state" where
  "lease_drop cfg tm l = finish_lease cfg tm (rl_job_id l) no_actual_usage False CsCancelled"

section \<open>What the steps leave alone\<close>

text \<open>The jobs that hold a lease, with the targets they run on.\<close>

definition holders :: "broker_state \<Rightarrow> (rstr, resource_job \<times> compute_target) hmap" where
  "holders st = map (\<lambda>(k, a). (k, ac_job a, ac_target a)) (bs_active st)"

text \<open>The broker state without pressure, degradation, diagnostics and cancellation flags: what the
  admission of jobs depends on.\<close>

definition same_leases :: "broker_state \<Rightarrow> broker_state \<Rightarrow> bool" where
  "same_leases st st' \<longleftrightarrow>
     bs_reservations st' = bs_reservations st \<and> holders st' = holders st \<and> bs_queued st' = bs_queued st"

lemma same_leases_refl [simp]: "same_leases st st"
  by (simp add: same_leases_def)

lemma same_leases_trans: "same_leases a b \<Longrightarrow> same_leases b c \<Longrightarrow> same_leases a c"
  by (simp add: same_leases_def)

lemma holders_cong: "bs_active st = bs_active st' \<Longrightarrow> holders st = holders st'"
  by (simp add: holders_def)

lemma hm_get_map_values: "hm_get (map (\<lambda>(k, a). (k, f a)) m) k = map_option f (hm_get m k)"
  by (induction m) auto

lemma hm_insert_map_values:
  "map (\<lambda>(k, a). (k, f a)) (hm_insert k v m) = hm_insert k (f v) (map (\<lambda>(k, a). (k, f a)) m)"
  by (induction m) auto

lemma hm_remove_map_values:
  "map (\<lambda>(k, a). (k, f a)) (hm_remove k m) = hm_remove k (map (\<lambda>(k, a). (k, f a)) m)"
  by (induction m) auto

lemma hm_insert_same: "hm_get m k = Some v \<Longrightarrow> hm_insert k v m = m"
  by (induction m) (auto split: if_splits)

lemma hm_get_holders: "hm_get (holders st) k = map_option (\<lambda>a. (ac_job a, ac_target a)) (hm_get (bs_active st) k)"
  using hm_get_map_values [of "\<lambda>a. (ac_job a, ac_target a)"] by (simp add: holders_def)

lemma holders_insert:
  "holders (st\<lparr>bs_active := hm_insert k a (bs_active st)\<rparr>) = hm_insert k (ac_job a, ac_target a) (holders st)"
  using hm_insert_map_values [of "\<lambda>a. (ac_job a, ac_target a)" k a "bs_active st"] by (simp add: holders_def)

lemma holders_remove: "holders (st\<lparr>bs_active := hm_remove k (bs_active st)\<rparr>) = hm_remove k (holders st)"
  using hm_remove_map_values [of "\<lambda>a. (ac_job a, ac_target a)" k "bs_active st"] by (simp add: holders_def)

lemma holders_update:
  assumes "hm_get (bs_active st) k = Some a" "ac_job a' = ac_job a" "ac_target a' = ac_target a"
  shows "holders (st\<lparr>bs_active := hm_insert k a' (bs_active st)\<rparr>) = holders st"
proof -
  have "hm_get (holders st) k = Some (ac_job a', ac_target a')"
    using assms by (simp add: hm_get_holders)
  then show ?thesis unfolding holders_insert by (rule hm_insert_same)
qed

lemma holders_length [simp]: "length (holders st) = length (bs_active st)"
  by (simp add: holders_def)

text \<open>Steps that only append diagnostics.\<close>

lemma fold_push_simps [simp]:
  "bs_reservations (fold (\<lambda>x. push_diagnostic cfg (g x)) xs st) = bs_reservations st"
  "bs_active (fold (\<lambda>x. push_diagnostic cfg (g x)) xs st) = bs_active st"
  "bs_queued (fold (\<lambda>x. push_diagnostic cfg (g x)) xs st) = bs_queued st"
  "bs_residency (fold (\<lambda>x. push_diagnostic cfg (g x)) xs st) = bs_residency st"
  "bs_target_health (fold (\<lambda>x. push_diagnostic cfg (g x)) xs st) = bs_target_health st"
  "bs_utterance_bindings (fold (\<lambda>x. push_diagnostic cfg (g x)) xs st) = bs_utterance_bindings st"
  "bs_telemetry_accounted (fold (\<lambda>x. push_diagnostic cfg (g x)) xs st) = bs_telemetry_accounted st"
  "bs_degradation_count (fold (\<lambda>x. push_diagnostic cfg (g x)) xs st) = bs_degradation_count st"
  "bs_pressure (fold (\<lambda>x. push_diagnostic cfg (g x)) xs st) = bs_pressure st"
  "bs_green_samples (fold (\<lambda>x. push_diagnostic cfg (g x)) xs st) = bs_green_samples st"
  "bs_sequence (fold (\<lambda>x. push_diagnostic cfg (g x)) xs st) = bs_sequence st"
  by (induction xs arbitrary: st) simp_all

lemma emit_degradation_simps [simp]:
  "bs_reservations (emit_degradation cfg n r st) = bs_reservations st"
  "bs_active (emit_degradation cfg n r st) = bs_active st"
  "bs_queued (emit_degradation cfg n r st) = bs_queued st"
  "bs_residency (emit_degradation cfg n r st) = bs_residency st"
  "bs_target_health (emit_degradation cfg n r st) = bs_target_health st"
  "bs_utterance_bindings (emit_degradation cfg n r st) = bs_utterance_bindings st"
  "bs_telemetry_accounted (emit_degradation cfg n r st) = bs_telemetry_accounted st"
  "bs_degradation_count (emit_degradation cfg n r st) = bs_degradation_count st"
  "bs_pressure (emit_degradation cfg n r st) = bs_pressure st"
  "bs_green_samples (emit_degradation cfg n r st) = bs_green_samples st"
  "bs_sequence (emit_degradation cfg n r st) = bs_sequence st"
  by (simp_all add: emit_degradation_def)

lemma escalate_degradation_simps [simp]:
  "bs_reservations (escalate_degradation cfg n r st) = bs_reservations st"
  "bs_active (escalate_degradation cfg n r st) = bs_active st"
  "bs_queued (escalate_degradation cfg n r st) = bs_queued st"
  "bs_residency (escalate_degradation cfg n r st) = bs_residency st"
  "bs_target_health (escalate_degradation cfg n r st) = bs_target_health st"
  "bs_utterance_bindings (escalate_degradation cfg n r st) = bs_utterance_bindings st"
  "bs_telemetry_accounted (escalate_degradation cfg n r st) = bs_telemetry_accounted st"
  "bs_pressure (escalate_degradation cfg n r st) = bs_pressure st"
  "bs_sequence (escalate_degradation cfg n r st) = bs_sequence st"
  by (simp_all add: escalate_degradation_def)

lemma update_pressure_simps [simp]:
  "bs_reservations (update_pressure cfg s st) = bs_reservations st"
  "bs_active (update_pressure cfg s st) = bs_active st"
  "bs_queued (update_pressure cfg s st) = bs_queued st"
  "bs_residency (update_pressure cfg s st) = bs_residency st"
  "bs_target_health (update_pressure cfg s st) = bs_target_health st"
  "bs_utterance_bindings (update_pressure cfg s st) = bs_utterance_bindings st"
  "bs_telemetry_accounted (update_pressure cfg s st) = bs_telemetry_accounted st"
  "bs_sequence (update_pressure cfg s st) = bs_sequence st"
  by (simp_all add: update_pressure_def recover_degradation_def raise_pressure_floor_def set_pressure_def Let_def)

lemma expire_push_eq:
  "expire_transient_overages cfg now st =
     fold (\<lambda>e. push_diagnostic cfg (CancellationRequested now (fst e) (lit ''transient VRAM ceiling grace expired'')))
       (filter (\<lambda>(_, a). overage_expired now a) (bs_active st))
       (st\<lparr>bs_active := map (\<lambda>(job_id, a).
              (job_id, if overage_expired now a then a\<lparr>ac_cancelled_by_broker := True\<rparr> else a)) (bs_active st)\<rparr>)"
  by (simp add: expire_transient_overages_def case_prod_unfold)

lemma expire_transient_overages_simps [simp]:
  "bs_reservations (expire_transient_overages cfg n st) = bs_reservations st"
  "bs_queued (expire_transient_overages cfg n st) = bs_queued st"
  "bs_residency (expire_transient_overages cfg n st) = bs_residency st"
  "bs_target_health (expire_transient_overages cfg n st) = bs_target_health st"
  "bs_utterance_bindings (expire_transient_overages cfg n st) = bs_utterance_bindings st"
  "bs_telemetry_accounted (expire_transient_overages cfg n st) = bs_telemetry_accounted st"
  "bs_degradation_count (expire_transient_overages cfg n st) = bs_degradation_count st"
  "bs_pressure (expire_transient_overages cfg n st) = bs_pressure st"
  "bs_sequence (expire_transient_overages cfg n st) = bs_sequence st"
  by (simp_all add: expire_push_eq)

lemma holders_expire [simp]: "holders (expire_transient_overages cfg n st) = holders st"
  by (auto simp: expire_push_eq holders_def)

lemma observe_simps [simp]:
  "bs_reservations (observe cfg s a st) = bs_reservations st"
  "bs_queued (observe cfg s a st) = bs_queued st"
  "bs_residency (observe cfg s a st) = bs_residency st"
  "bs_target_health (observe cfg s a st) = bs_target_health st"
  "bs_utterance_bindings (observe cfg s a st) = bs_utterance_bindings st"
  "bs_telemetry_accounted (observe cfg s a st) = a"
  "bs_sequence (observe cfg s a st) = bs_sequence st"
  by (simp_all add: observe_def)

lemma holders_observe [simp]: "holders (observe cfg s a st) = holders st"
proof -
  have "holders (observe cfg s a st) = holders (expire_transient_overages cfg (sn_monotonic_ms s)
          (st\<lparr>bs_telemetry_accounted := a\<rparr>))"
    by (rule holders_cong) (simp add: observe_def)
  also have "\<dots> = holders (st\<lparr>bs_telemetry_accounted := a\<rparr>)" by simp
  also have "\<dots> = holders st" by (rule holders_cong) simp
  finally show ?thesis .
qed

lemma observe_active_None [simp]: "hm_get (bs_active (observe cfg s a st)) k = None \<longleftrightarrow> hm_get (bs_active st) k = None"
proof -
  have "hm_get (holders (observe cfg s a st)) k = hm_get (holders st) k" by simp
  then show ?thesis unfolding hm_get_holders by (auto simp: map_option_case split: option.splits)
qed

lemma same_leases_observe: "same_leases st (observe cfg s a st)"
  by (simp add: same_leases_def)

text \<open>The supersede step changes the queue only.\<close>

lemma fold_push_admission_simps [simp]:
  "bs_reservations (fold (\<lambda>x st. push_admission cfg (g x st) st) xs st) = bs_reservations st"
  "bs_active (fold (\<lambda>x st. push_admission cfg (g x st) st) xs st) = bs_active st"
  "bs_queued (fold (\<lambda>x st. push_admission cfg (g x st) st) xs st) = bs_queued st"
  "bs_residency (fold (\<lambda>x st. push_admission cfg (g x st) st) xs st) = bs_residency st"
  "bs_target_health (fold (\<lambda>x st. push_admission cfg (g x st) st) xs st) = bs_target_health st"
  "bs_utterance_bindings (fold (\<lambda>x st. push_admission cfg (g x st) st) xs st) = bs_utterance_bindings st"
  "bs_telemetry_accounted (fold (\<lambda>x st. push_admission cfg (g x st) st) xs st) = bs_telemetry_accounted st"
  "bs_degradation_count (fold (\<lambda>x st. push_admission cfg (g x st) st) xs st) = bs_degradation_count st"
  "bs_pressure (fold (\<lambda>x st. push_admission cfg (g x st) st) xs st) = bs_pressure st"
  "bs_sequence (fold (\<lambda>x st. push_admission cfg (g x st) st) xs st) = bs_sequence st"
  by (induction xs arbitrary: st) simp_all

lemma supersede_queued_simps [simp]:
  "bs_reservations (supersede_queued cfg s job st) = bs_reservations st"
  "bs_active (supersede_queued cfg s job st) = bs_active st"
  "bs_residency (supersede_queued cfg s job st) = bs_residency st"
  "bs_target_health (supersede_queued cfg s job st) = bs_target_health st"
  "bs_utterance_bindings (supersede_queued cfg s job st) = bs_utterance_bindings st"
  "bs_telemetry_accounted (supersede_queued cfg s job st) = bs_telemetry_accounted st"
  "bs_degradation_count (supersede_queued cfg s job st) = bs_degradation_count st"
  "bs_pressure (supersede_queued cfg s job st) = bs_pressure st"
  "bs_sequence (supersede_queued cfg s job st) = bs_sequence st"
  by (simp_all add: supersede_queued_def split: drop_policy.split)

lemma supersede_queued_queue:
  "bs_queued (supersede_queued cfg s job st) =
     (case rj_drop_policy job of
        Supersede key \<Rightarrow> filter (\<lambda>q. rj_drop_policy (qr_job q) \<noteq> Supersede key) (bs_queued st)
      | _ \<Rightarrow> bs_queued st)"
  by (simp add: supersede_queued_def split: drop_policy.split)

lemma rejected_submission_simps [simp]:
  "sb_lease (fst (rejected_submission cfg s job oc r st)) = None"
  "ad_outcome (sb_diagnostic (fst (rejected_submission cfg s job oc r st))) = oc"
  "snd (rejected_submission cfg s job oc r st)
     = push_admission cfg (make_admission_diagnostic cfg s st job oc None r) st"
  by (simp_all add: rejected_submission_def make_admission_diagnostic_def Let_def)

lemma enqueue_simps [simp]:
  "sb_lease (fst (enqueue cfg s job st)) = None"
  "ad_outcome (sb_diagnostic (fst (enqueue cfg s job st))) = QueuedOutcome"
  "bs_reservations (snd (enqueue cfg s job st)) = bs_reservations st"
  "bs_active (snd (enqueue cfg s job st)) = bs_active st"
  "bs_residency (snd (enqueue cfg s job st)) = bs_residency st"
  "bs_queued (snd (enqueue cfg s job st)) =
     bs_queued st @ [\<lparr>qr_sequence = wrap_inc64 (bs_sequence st), qr_job = job\<rparr>]"
  by (simp_all add: enqueue_def Let_def make_admission_diagnostic_def)

lemma admit_simps [simp]:
  "sb_lease (fst (admit cfg s job t oc st)) = Some \<lparr>rl_job_id = rj_job_id job, rl_target_id = ct_target_id t\<rparr>"
  "ad_outcome (sb_diagnostic (fst (admit cfg s job t oc st))) = oc"
  "bs_reservations (snd (admit cfg s job t oc st)) = bs_reservations (reserve job t st)"
  "bs_residency (snd (admit cfg s job t oc st)) = bs_residency (reserve job t st)"
  "bs_queued (snd (admit cfg s job t oc st)) = bs_queued st"
  by (simp_all add: admit_def Let_def make_admission_diagnostic_def reserve_def)

lemma reserve_simps [simp]:
  "bs_active (reserve job t st) = bs_active st" "bs_queued (reserve job t st) = bs_queued st"
  "bs_pressure (reserve job t st) = bs_pressure st" "bs_diagnostics (reserve job t st) = bs_diagnostics st"
  "bs_degradation_count (reserve job t st) = bs_degradation_count st"
  "bs_target_health (reserve job t st) = bs_target_health st"
  "bs_utterance_bindings (reserve job t st) = bs_utterance_bindings st"
  by (simp_all add: reserve_def Let_def)

lemma release_simps [simp]:
  "bs_active (release job t st) = bs_active st" "bs_queued (release job t st) = bs_queued st"
  "bs_pressure (release job t st) = bs_pressure st" "bs_diagnostics (release job t st) = bs_diagnostics st"
  "bs_degradation_count (release job t st) = bs_degradation_count st"
  "bs_target_health (release job t st) = bs_target_health st"
  "bs_utterance_bindings (release job t st) = bs_utterance_bindings st"
  by (simp_all add: release_def Let_def)

lemma holders_admit [simp]:
  "holders (snd (admit cfg s job t oc st)) = hm_insert (rj_job_id job) (job, t) (holders st)"
proof -
  have "\<exists>a. bs_active (snd (admit cfg s job t oc st)) = hm_insert (rj_job_id job) a (bs_active st)
          \<and> ac_job a = job \<and> ac_target a = t"
    by (simp add: admit_def Let_def) (metis active_record.select_convs(1,2))
  then obtain a where a: "bs_active (snd (admit cfg s job t oc st)) = hm_insert (rj_job_id job) a (bs_active st)"
    "ac_job a = job" "ac_target a = t" by blast
  then have "holders (snd (admit cfg s job t oc st)) = holders (st\<lparr>bs_active := hm_insert (rj_job_id job) a (bs_active st)\<rparr>)"
    by (intro holders_cong) simp
  with a show ?thesis by (simp only: holders_insert)
qed

text \<open>The result of a submission that reaches the broker state, by cases.\<close>

lemma submit_locked_cases:
  obtains (admitted) t oc where
      "\<not> job_id_in_use (rj_job_id job) st" "drop_before_admission cfg s job st = None"
      "select_target cfg s (supersede_queued cfg s job st) job True = Some (t, oc)"
      "submit_locked cfg s job st = admit cfg s job t oc (supersede_queued cfg s job st)"
  | (refused) st0 oc r where "st0 = st \<or> st0 = supersede_queued cfg s job st"
      "oc \<notin> {AdmittedPrimary, AdmittedFallback, QueuedOutcome}"
      "submit_locked cfg s job st = rejected_submission cfg s job oc r st0"
  | (queued) "\<not> job_id_in_use (rj_job_id job) st" "drop_before_admission cfg s job st = None"
      "select_target cfg s (supersede_queued cfg s job st) job True = None"
      "submit_locked cfg s job st = enqueue cfg s job (supersede_queued cfg s job st)"
proof (cases "job_id_in_use (rj_job_id job) st")
  case True
  then show ?thesis by (intro refused [of st]) (auto simp: submit_locked_def)
next
  case fresh: False
  show ?thesis
  proof (cases "drop_before_admission cfg s job st")
    case (Some r)
    then obtain oc rs where "r = rejected_submission cfg s job oc rs st" "oc \<in> {DroppedLate, DroppedStale, DroppedPressure}"
      by (auto simp: drop_before_admission_def split: if_splits)
    with fresh Some show ?thesis by (intro refused [of st]) (auto simp: submit_locked_def)
  next
    case keep: None
    let ?st = "supersede_queued cfg s job st"
    show ?thesis
    proof (cases "select_target cfg s ?st job True")
      case (Some x)
      obtain t oc where "x = (t, oc)" by (cases x)
      with fresh keep Some show ?thesis by (intro admitted) (auto simp: submit_locked_def Let_def)
    next
      case none: None
      then have eq: "submit_locked cfg s job st = submit_unplaced cfg s job ?st"
        using fresh keep by (simp add: submit_locked_def Let_def)
      show ?thesis
      proof (cases "submit_unplaced cfg s job ?st = enqueue cfg s job ?st")
        case True
        with fresh keep none eq show ?thesis by (intro queued) auto
      next
        case False
        then obtain oc rs where "submit_unplaced cfg s job ?st = rejected_submission cfg s job oc rs ?st"
          "oc \<notin> {AdmittedPrimary, AdmittedFallback, QueuedOutcome}"
          by (auto simp: submit_unplaced_def terminal_rejection_def Let_def split: option.splits if_splits)
        with eq show ?thesis by (intro refused [of ?st]) auto
      qed
    qed
  qed
qed

end
