(* ===== verification/Broker_Invariants.thy ===== *)
theory Broker_Invariants
  imports Resource_Broker
begin

text \<open>
  The broker as a state machine: one step per public operation of \<open>ResourceBroker\<close> and
  \<open>ResourceLease\<close>, the states it can reach, and the invariants of those states: the lease ledger
  (RAM and GPU leases are exactly those of the active jobs, exclusive and foreground slots belong to
  active jobs), the bounds on degradation and diagnostics, and the shape of the residency ledger.
\<close>

section \<open>Steps\<close>

text \<open>A telemetry answer whose RAM budget is below the saturation point of \<open>u64\<close>.\<close>


definition telemetry_in_range :: "telemetry_reading \<Rightarrow> bool" where
  "telemetry_in_range tm \<longleftrightarrow>
     (case tl_snapshot tm of Inl _ \<Rightarrow> True | Inr s \<Rightarrow> sn_system_ram_budget_bytes s < u64_max)"

text \<open>The lease counter is a \<open>u32\<close>: a step starts with fewer than \<open>2^32 - 1\<close> jobs in the broker.\<close>

definition room_for_job :: "broker_state \<Rightarrow> bool" where
  "room_for_job st \<longleftrightarrow> length (bs_active st) + length (bs_queued st) < u32_max"

inductive broker_op :: "broker_config \<Rightarrow> broker_state \<Rightarrow> broker_state \<Rightarrow> bool" for cfg where
  op_submit: "telemetry_in_range tm \<Longrightarrow> room_for_job st \<Longrightarrow> broker_op cfg st (snd (submit cfg tm job st))"
| op_poll: "telemetry_in_range tm \<Longrightarrow> room_for_job st \<Longrightarrow> broker_op cfg st (snd (poll_ready cfg tm st))"
| op_refresh: "broker_op cfg st (snd (refresh_pressure cfg tm st))"
| op_register: "broker_op cfg st (snd (register_model_residency spec st))"
| op_warming: "broker_op cfg st (snd (begin_model_warming cfg tm model_id st))"
| op_loaded: "broker_op cfg st (snd (mark_model_loaded cfg tm model_id measured st))"
| op_eviction: "broker_op cfg st (snd (begin_model_eviction model_id st))"
| op_cold: "broker_op cfg st (snd (mark_model_cold model_id st))"
| op_quarantine: "broker_op cfg st (snd (quarantine_model_residency model_id until_ms st))"
| op_clear: "broker_op cfg st (snd (clear_model_quarantine tm model_id st))"
| op_cancel: "broker_op cfg st (snd (cancel cfg tm job_id reason st))"
| op_output: "broker_op cfg st (snd (mark_output_started job_id st))"
| op_utterance: "broker_op cfg st (finish_utterance u st)"
| op_oom: "broker_op cfg st (snd (report_oom cfg tm job_id st))"
| op_drain: "broker_op cfg st (snd (drain_diagnostics st))"
| op_finish: "broker_op cfg st (finish_lease cfg tm job_id actual measured status st)"

inductive broker_reachable :: "broker_config \<Rightarrow> broker_state \<Rightarrow> bool" for cfg where
  reach_init: "broker_config_ok cfg \<Longrightarrow> broker_reachable cfg initial_broker_state"
| reach_step: "broker_reachable cfg st \<Longrightarrow> broker_op cfg st st' \<Longrightarrow> broker_reachable cfg st'"

section \<open>The lease ledger\<close>

abbreviation uses_gpu :: "resource_job \<times> compute_target \<Rightarrow> nat" where
  "uses_gpu \<equiv> \<lambda>(_, t). if ct_gpu_residency t = GpuNone then 0 else 1"

abbreviation ram_of :: "resource_job \<times> compute_target \<Rightarrow> nat" where
  "ram_of \<equiv> \<lambda>(_, t). es_ram_bytes (ct_estimate t)"

definition slots_inv :: "reservations \<Rightarrow> (rstr, resource_job \<times> compute_target) hmap \<Rightarrow> bool" where
  "slots_inv r hs \<longleftrightarrow>
     rv_ram_bytes r = hm_sum ram_of hs
     \<and> rv_gpu_leases r = hm_sum uses_gpu hs
     \<and> (\<forall>k. rv_exclusive_gpu_job r = Some k \<longleftrightarrow> (\<exists>j t. hm_get hs k = Some (j, t) \<and> ct_gpu_residency t = GpuExclusive))
     \<and> (rv_exclusive_gpu_job r \<noteq> None \<longrightarrow> rv_gpu_leases r = 1)
     \<and> (\<forall>k. rv_foreground_turn_job r = Some k \<longleftrightarrow> (\<exists>j t. hm_get hs k = Some (j, t) \<and> holds_foreground_turn_slot (rj_kind j)))"

definition ids_inv :: "(rstr, resource_job \<times> compute_target) hmap \<Rightarrow> queued_record list \<Rightarrow> bool" where
  "ids_inv hs q \<longleftrightarrow>
     hm_wf hs
     \<and> (\<forall>k j t. hm_get hs k = Some (j, t) \<longrightarrow> rj_job_id j = k)
     \<and> distinct (map (rj_job_id \<circ> qr_job) q) \<and> (\<forall>x\<in>set q. hm_get hs (rj_job_id (qr_job x)) = None)"

definition ledger_inv ::
  "reservations \<Rightarrow> (rstr, resource_job \<times> compute_target) hmap \<Rightarrow> queued_record list \<Rightarrow> bool" where
  "ledger_inv r hs q \<longleftrightarrow> slots_inv r hs \<and> ids_inv hs q"

definition lease_inv :: "broker_state \<Rightarrow> bool" where
  "lease_inv st \<longleftrightarrow> ledger_inv (bs_reservations st) (holders st) (bs_queued st)"

lemma lease_inv_same: "same_leases st st' \<Longrightarrow> lease_inv st \<Longrightarrow> lease_inv st'"
  by (simp add: lease_inv_def same_leases_def)

lemma distinct_iff_count: "distinct xs \<longleftrightarrow> (\<forall>a. count (mset xs) a \<le> 1)"
proof -
  have "count (mset xs) a = 0 \<longleftrightarrow> a \<notin> set xs" for a by simp
  then have "count (mset xs) a = (if a \<in> set xs then 1 else 0) \<longleftrightarrow> count (mset xs) a \<le> 1" for a
    by (metis le_less_linear less_one linorder_not_le nat_le_linear order_antisym_conv)
  then show ?thesis by (simp only: distinct_count_atmost_1)
qed

lemma distinct_submset: "distinct ys \<Longrightarrow> mset xs \<subseteq># mset ys \<Longrightarrow> distinct xs"
  unfolding distinct_iff_count by (meson mset_subset_eq_count order_trans)

text \<open>Dropping or reordering queued jobs keeps the ledger.\<close>

lemma ledger_inv_queue:
  assumes "ledger_inv r hs q" "mset (map (rj_job_id \<circ> qr_job) q') \<subseteq># mset (map (rj_job_id \<circ> qr_job) q)"
  shows "ledger_inv r hs q'"
proof -
  let ?ids = "\<lambda>q. map (rj_job_id \<circ> qr_job) q"
  from assms(2) have sub: "set (?ids q') \<subseteq> set (?ids q)"
    by (metis set_mset_mono set_mset_mset)
  have dist: "distinct (?ids q')"
    using assms(1) distinct_submset [OF _ assms(2)] by (simp add: ledger_inv_def ids_inv_def)
  have "hm_get hs (rj_job_id (qr_job x)) = None" if "x \<in> set q'" for x
  proof -
    from that have "rj_job_id (qr_job x) \<in> set (?ids q')" by auto
    with sub have "rj_job_id (qr_job x) \<in> set (?ids q)" by blast
    then obtain y where "y \<in> set q" "rj_job_id (qr_job y) = rj_job_id (qr_job x)" by auto
    with assms(1) show ?thesis unfolding ledger_inv_def ids_inv_def by metis
  qed
  with assms(1) dist show ?thesis by (simp add: ledger_inv_def ids_inv_def)
qed

lemma uses_gpu_le_length: "hm_sum uses_gpu hs \<le> length hs"
  by (induction hs) (auto split: if_splits)


lemma reserve_ledger_fields:
  "rv_ram_bytes (bs_reservations (reserve job t st)) = sat_add (rv_ram_bytes (bs_reservations st)) (es_ram_bytes (ct_estimate t))"
  "rv_gpu_leases (bs_reservations (reserve job t st)) =
     (if ct_gpu_residency t \<noteq> GpuNone then wrap_inc32 (rv_gpu_leases (bs_reservations st)) else rv_gpu_leases (bs_reservations st))"
  "rv_exclusive_gpu_job (bs_reservations (reserve job t st)) =
     (if ct_gpu_residency t = GpuExclusive then Some (rj_job_id job) else rv_exclusive_gpu_job (bs_reservations st))"
  "rv_foreground_turn_job (bs_reservations (reserve job t st)) =
     (if holds_foreground_turn_slot (rj_kind job) then Some (rj_job_id job) else rv_foreground_turn_job (bs_reservations st))"
  by (auto simp: reserve_def Let_def effective_job_estimate_def split: option.splits)

lemma release_ledger_fields:
  "rv_ram_bytes (bs_reservations (release job t st)) = rv_ram_bytes (bs_reservations st) - es_ram_bytes (ct_estimate t)"
  "rv_gpu_leases (bs_reservations (release job t st)) =
     (if ct_gpu_residency t \<noteq> GpuNone then rv_gpu_leases (bs_reservations st) - 1 else rv_gpu_leases (bs_reservations st))"
  "rv_exclusive_gpu_job (bs_reservations (release job t st)) =
     (if rv_exclusive_gpu_job (bs_reservations st) = Some (rj_job_id job) then None else rv_exclusive_gpu_job (bs_reservations st))"
  "rv_foreground_turn_job (bs_reservations (release job t st)) =
     (if rv_foreground_turn_job (bs_reservations st) = Some (rj_job_id job) then None else rv_foreground_turn_job (bs_reservations st))"
  by (auto simp: release_def Let_def release_estimate_def split: option.splits)

text \<open>Admission of a fresh job on a target that passes the admission tests.\<close>

lemma ledger_inv_admit:
  assumes inv: "ledger_inv r hs q" and fresh: "hm_get hs (rj_job_id job) = None"
    "\<And>x. x \<in> set q \<Longrightarrow> rj_job_id (qr_job x) \<noteq> rj_job_id job"
    and gpu: "case ct_gpu_residency t of GpuNone \<Rightarrow> True | GpuShared \<Rightarrow> rv_exclusive_gpu_job r = None
                | GpuExclusive \<Rightarrow> rv_gpu_leases r = 0"
    and fg: "holds_foreground_turn_slot (rj_kind job) \<Longrightarrow> rv_foreground_turn_job r = None"
    and r': "rv_ram_bytes r' = rv_ram_bytes r + es_ram_bytes (ct_estimate t)"
      "rv_gpu_leases r' = (if ct_gpu_residency t \<noteq> GpuNone then Suc (rv_gpu_leases r) else rv_gpu_leases r)"
      "rv_exclusive_gpu_job r' = (if ct_gpu_residency t = GpuExclusive then Some (rj_job_id job) else rv_exclusive_gpu_job r)"
      "rv_foreground_turn_job r' = (if holds_foreground_turn_slot (rj_kind job) then Some (rj_job_id job) else rv_foreground_turn_job r)"
  shows "ledger_inv r' (hm_insert (rj_job_id job) (job, t) hs) q"
proof -
  let ?k = "rj_job_id job"
  from inv have sums: "rv_ram_bytes r = hm_sum ram_of hs" "rv_gpu_leases r = hm_sum uses_gpu hs"
    and excl: "\<And>k. rv_exclusive_gpu_job r = Some k \<longleftrightarrow> (\<exists>j t. hm_get hs k = Some (j, t) \<and> ct_gpu_residency t = GpuExclusive)"
    and one: "rv_exclusive_gpu_job r \<noteq> None \<Longrightarrow> rv_gpu_leases r = 1"
    and fgd: "\<And>k. rv_foreground_turn_job r = Some k \<longleftrightarrow> (\<exists>j t. hm_get hs k = Some (j, t) \<and> holds_foreground_turn_slot (rj_kind j))"
    unfolding ledger_inv_def slots_inv_def by blast+
  have none: "ct_gpu_residency t \<noteq> GpuNone \<Longrightarrow> rv_exclusive_gpu_job r = None"
    using gpu one by (cases "ct_gpu_residency t"; cases "rv_exclusive_gpu_job r") auto
  have "rv_exclusive_gpu_job r' = Some k \<longleftrightarrow>
      (\<exists>j u. hm_get (hm_insert ?k (job, t) hs) k = Some (j, u) \<and> ct_gpu_residency u = GpuExclusive)" for k
  proof (cases "ct_gpu_residency t = GpuExclusive")
    case True
    with none have "\<And>k j u. hm_get hs k = Some (j, u) \<Longrightarrow> ct_gpu_residency u \<noteq> GpuExclusive"
      using excl by (metis gpu_residency.distinct(3) option.distinct(1))
    with True r'(3) show ?thesis by auto
  next
    case False
    with fresh(1) r'(3) excl show ?thesis by auto
  qed
  moreover have "rv_foreground_turn_job r' = Some k \<longleftrightarrow>
      (\<exists>j u. hm_get (hm_insert ?k (job, t) hs) k = Some (j, u) \<and> holds_foreground_turn_slot (rj_kind j))" for k
  proof (cases "holds_foreground_turn_slot (rj_kind job)")
    case True
    with fg have "\<And>k j u. hm_get hs k = Some (j, u) \<Longrightarrow> \<not> holds_foreground_turn_slot (rj_kind j)"
      using fgd by (metis option.distinct(1))
    with True r'(4) show ?thesis by auto
  next
    case False
    with fresh(1) r'(4) fgd show ?thesis by auto
  qed
  moreover have "rv_exclusive_gpu_job r' \<noteq> None \<longrightarrow> rv_gpu_leases r' = 1"
    using r'(2,3) gpu one by (cases "ct_gpu_residency t") auto
  moreover have "rv_ram_bytes r' = hm_sum ram_of (hm_insert ?k (job, t) hs)"
    "rv_gpu_leases r' = hm_sum uses_gpu (hm_insert ?k (job, t) hs)"
    using sums r'(1,2) fresh(1) by (simp_all add: hm_sum_insert_new)
  ultimately have "slots_inv r' (hm_insert ?k (job, t) hs)"
    unfolding slots_inv_def by blast
  moreover have "ids_inv (hm_insert ?k (job, t) hs) q"
    using inv fresh(2) by (simp add: ledger_inv_def ids_inv_def)
  ultimately show ?thesis by (simp add: ledger_inv_def)
qed

text \<open>The end of a lease gives back exactly what the job held.\<close>

lemma ledger_inv_finish:
  assumes inv: "ledger_inv r hs q" and get: "hm_get hs k = Some (job, t)"
    and r': "rv_ram_bytes r' = rv_ram_bytes r - es_ram_bytes (ct_estimate t)"
      "rv_gpu_leases r' = (if ct_gpu_residency t \<noteq> GpuNone then rv_gpu_leases r - 1 else rv_gpu_leases r)"
      "rv_exclusive_gpu_job r' = (if rv_exclusive_gpu_job r = Some k then None else rv_exclusive_gpu_job r)"
      "rv_foreground_turn_job r' = (if rv_foreground_turn_job r = Some k then None else rv_foreground_turn_job r)"
  shows "ledger_inv r' (hm_remove k hs) q"
proof -
  from inv have wf: "hm_wf hs"
    and rsums: "rv_ram_bytes r = hm_sum ram_of hs" "rv_gpu_leases r = hm_sum uses_gpu hs"
    and excl: "\<And>k. rv_exclusive_gpu_job r = Some k \<longleftrightarrow> (\<exists>j t. hm_get hs k = Some (j, t) \<and> ct_gpu_residency t = GpuExclusive)"
    and one: "rv_exclusive_gpu_job r \<noteq> None \<Longrightarrow> rv_gpu_leases r = 1"
    and fgd: "\<And>k. rv_foreground_turn_job r = Some k \<longleftrightarrow> (\<exists>j t. hm_get hs k = Some (j, t) \<and> holds_foreground_turn_slot (rj_kind j))"
    unfolding ledger_inv_def slots_inv_def ids_inv_def by blast+
  have sums: "hm_sum ram_of hs = hm_sum ram_of (hm_remove k hs) + es_ram_bytes (ct_estimate t)"
    "hm_sum uses_gpu hs = hm_sum uses_gpu (hm_remove k hs) + uses_gpu (job, t)"
    using hm_sum_remove [OF wf get, of ram_of] hm_sum_remove [OF wf get, of uses_gpu] by simp_all
  have "rv_exclusive_gpu_job r' = Some i \<longleftrightarrow>
      (\<exists>j u. hm_get (hm_remove k hs) i = Some (j, u) \<and> ct_gpu_residency u = GpuExclusive)" for i
    using r'(3) excl [of i] excl [of k] by (cases "rv_exclusive_gpu_job r") (auto split: if_splits)
  moreover have "rv_foreground_turn_job r' = Some i \<longleftrightarrow>
      (\<exists>j u. hm_get (hm_remove k hs) i = Some (j, u) \<and> holds_foreground_turn_slot (rj_kind j))" for i
    using r'(4) fgd [of i] fgd [of k] by (cases "rv_foreground_turn_job r") (auto split: if_splits)
  moreover have "rv_gpu_leases r' = 1" if "rv_exclusive_gpu_job r' \<noteq> None"
  proof -
    from that r'(3) obtain i where i: "rv_exclusive_gpu_job r = Some i" "i \<noteq> k" by (auto split: if_splits)
    then obtain j u where u: "hm_get hs i = Some (j, u)" "ct_gpu_residency u = GpuExclusive" using excl by blast
    with i have "hm_get (hm_remove k hs) i = Some (j, u)" by simp
    from hm_sum_ge [OF this, of uses_gpu] u(2) have "1 \<le> hm_sum uses_gpu (hm_remove k hs)" by simp
    moreover have "hm_sum uses_gpu hs = 1" using rsums(2) one i(1) by simp
    ultimately have "ct_gpu_residency t = GpuNone" using sums(2) by (auto split: if_splits)
    with r'(2) one i show ?thesis by simp
  qed
  moreover have "rv_ram_bytes r' = hm_sum ram_of (hm_remove k hs)"
    "rv_gpu_leases r' = hm_sum uses_gpu (hm_remove k hs)"
    using r'(1,2) sums rsums by simp_all
  ultimately have "slots_inv r' (hm_remove k hs)"
    unfolding slots_inv_def by blast
  moreover have "ids_inv (hm_remove k hs) q"
    using inv by (simp add: ledger_inv_def ids_inv_def)
  ultimately show ?thesis by (simp add: ledger_inv_def)
qed

lemma room_gpu_leases:
  assumes "slots_inv (bs_reservations st) (holders st)" "length (bs_active st) < u32_max"
  shows "wrap_inc32 (rv_gpu_leases (bs_reservations st)) = Suc (rv_gpu_leases (bs_reservations st))"
proof -
  from assms(1) have "rv_gpu_leases (bs_reservations st) = hm_sum uses_gpu (holders st)"
    by (simp add: slots_inv_def)
  also have "\<dots> \<le> length (bs_active st)" using uses_gpu_le_length [of "holders st"] by simp
  finally show ?thesis using assms(2) by (simp add: wrap_inc32_def u32_max_def)
qed


lemma admit_ledger_inv:
  assumes inv: "ledger_inv (bs_reservations st) (holders st) q" and sel: "select_target cfg s st job fb = Some (t, oc)"
    and budget: "sn_system_ram_budget_bytes s < u64_max" and room: "length (bs_active st) < u32_max"
    and fresh: "hm_get (bs_active st) (rj_job_id job) = None"
      "\<And>x. x \<in> set q \<Longrightarrow> rj_job_id (qr_job x) \<noteq> rj_job_id job"
  shows "ledger_inv (bs_reservations (snd (admit cfg s job t oc st))) (holders (snd (admit cfg s job t oc st))) q"
proof -
  let ?r = "bs_reservations st"
  from select_target_SomeD(2) [OF sel] have fits: "target_fits cfg s st t" and avail: "residency_available st job t"
    by (rule target_admissibleD)+
  obtain e where e: "effective_job_estimate st t = Some e" using target_fits_estimate [OF fits] by blast
  then have "es_ram_bytes e = es_ram_bytes (ct_estimate t)"
    by (auto simp: effective_job_estimate_def split: option.splits if_splits)
  with target_fits_bounds(1) [OF fits e] budget
  have "committed_ram s st + es_ram_bytes (ct_estimate t) < u64_max"
    by (simp add: sat_add_less_max_iff)
  then have "rv_ram_bytes ?r + es_ram_bytes (ct_estimate t) < u64_max"
    by (auto simp: committed_ram_def sat_add_def min_def split: if_splits)
  then have ram: "sat_add (rv_ram_bytes ?r) (es_ram_bytes (ct_estimate t)) = rv_ram_bytes ?r + es_ram_bytes (ct_estimate t)"
    by (simp add: sat_add_def)
  show ?thesis
    unfolding holders_admit admit_simps
  proof (rule ledger_inv_admit [OF inv])
    show "hm_get (holders st) (rj_job_id job) = None" using fresh(1) by (simp add: hm_get_holders)
    show "case ct_gpu_residency t of GpuNone \<Rightarrow> True | GpuShared \<Rightarrow> rv_exclusive_gpu_job ?r = None
            | GpuExclusive \<Rightarrow> rv_gpu_leases ?r = 0"
      using avail by (auto simp: residency_available_def split: if_splits)
    show "holds_foreground_turn_slot (rj_kind job) \<Longrightarrow> rv_foreground_turn_job ?r = None"
      using avail by (auto simp: residency_available_def split: if_splits)
  qed (use fresh(2) ram room_gpu_leases [OF inv [unfolded ledger_inv_def, THEN conjunct1] room] in \<open>simp_all add: reserve_ledger_fields\<close>)
qed

lemma lease_inv_finish: "lease_inv st \<Longrightarrow> lease_inv (finish_lease cfg tm k actual measured status st)"
proof (cases "hm_get (bs_active st) k")
  case (Some a)
  assume inv: "lease_inv st"
  let ?st = "st\<lparr>bs_active := hm_remove k (bs_active st)\<rparr>"
  let ?fin = "finish_lease cfg tm k actual measured status st"
  have get: "hm_get (holders st) k = Some (ac_job a, ac_target a)" using Some by (simp add: hm_get_holders)
  with inv have id: "rj_job_id (ac_job a) = k" unfolding lease_inv_def ledger_inv_def ids_inv_def by blast
  have fields: "bs_reservations ?fin = bs_reservations (release (ac_job a) (ac_target a) ?st)"
    "bs_active ?fin = bs_active ?st" "bs_queued ?fin = bs_queued st"
    using Some by (simp_all add: finish_lease_def Let_def)
  then have "holders ?fin = hm_remove k (holders st)"
    using holders_cong [of ?fin ?st] holders_remove by metis
  moreover have "ledger_inv (bs_reservations ?fin) (hm_remove k (holders st)) (bs_queued st)"
  proof (rule ledger_inv_finish [OF _ get])
    show "ledger_inv (bs_reservations st) (holders st) (bs_queued st)" using inv by (simp add: lease_inv_def)
  qed (simp_all only: fields release_ledger_fields id, simp_all)
  ultimately show ?thesis by (simp add: lease_inv_def fields)
qed (simp add: finish_lease_def)

text \<open>Submission, the queue and cancellation.\<close>

lemma lease_inv_queue_change:
  assumes "lease_inv st" "bs_reservations st' = bs_reservations st" "holders st' = holders st"
    "mset (map (rj_job_id \<circ> qr_job) (bs_queued st')) \<subseteq># mset (map (rj_job_id \<circ> qr_job) (bs_queued st))"
  shows "lease_inv st'"
  using assms ledger_inv_queue unfolding lease_inv_def by metis

lemma filter_ids_subset: "mset (map f (filter P q)) \<subseteq># mset (map f q)"
  by (induction q) (auto simp: subset_mset.add_increasing2 intro: subset_mset.order_trans)

lemma lease_inv_supersede:
  assumes "lease_inv st"
  shows "lease_inv (supersede_queued cfg s job st)"
  using assms
proof (rule lease_inv_queue_change)
  show "mset (map (rj_job_id \<circ> qr_job) (bs_queued (supersede_queued cfg s job st)))
          \<subseteq># mset (map (rj_job_id \<circ> qr_job) (bs_queued st))"
    unfolding supersede_queued_queue by (cases "rj_drop_policy job") (simp_all add: filter_ids_subset del: mset_map mset_filter)
qed (simp_all add: holders_def)

lemma supersede_queue_subset: "set (bs_queued (supersede_queued cfg s job st)) \<subseteq> set (bs_queued st)"
  unfolding supersede_queued_queue by (cases "rj_drop_policy job") auto

lemma job_id_fresh:
  assumes "\<not> job_id_in_use k st"
  shows "hm_get (bs_active st) k = None" "x \<in> set (bs_queued st) \<Longrightarrow> rj_job_id (qr_job x) \<noteq> k"
  using assms by (auto simp: job_id_in_use_def list_ex_iff)

lemma lease_inv_push [simp]:
  "lease_inv (push_admission cfg d st) \<longleftrightarrow> lease_inv st" "lease_inv (push_diagnostic cfg d' st) \<longleftrightarrow> lease_inv st"
  by (simp_all add: lease_inv_def holders_def)

lemma ids_inv_append:
  assumes "ids_inv hs q" "hm_get hs (rj_job_id (qr_job y)) = None"
    "\<And>x. x \<in> set q \<Longrightarrow> rj_job_id (qr_job x) \<noteq> rj_job_id (qr_job y)"
  shows "ids_inv hs (q @ [y])"
proof -
  have "distinct (map (rj_job_id \<circ> qr_job) (q @ [y]))"
    using assms(1,3) by (force simp: ids_inv_def)
  then show ?thesis using assms(1,2) by (simp add: ids_inv_def)
qed

lemma lease_inv_enqueue:
  assumes inv: "lease_inv st" and fresh: "\<not> job_id_in_use (rj_job_id job) st"
  shows "lease_inv (snd (enqueue cfg s job st))"
proof -
  have "holders (snd (enqueue cfg s job st)) = holders st" by (rule holders_cong) simp
  moreover have "ids_inv (holders st) (bs_queued st @ [\<lparr>qr_sequence = n, qr_job = job\<rparr>])" for n
  proof (rule ids_inv_append)
    show "ids_inv (holders st) (bs_queued st)" using inv by (simp add: lease_inv_def ledger_inv_def)
  qed (use job_id_fresh [OF fresh] in \<open>simp_all add: hm_get_holders\<close>)
  ultimately show ?thesis using inv by (simp add: lease_inv_def ledger_inv_def)
qed

lemma lease_inv_submit_locked:
  assumes inv: "lease_inv st" and budget: "sn_system_ram_budget_bytes s < u64_max" and room: "room_for_job st"
  shows "lease_inv (snd (submit_locked cfg s job st))"
proof -
  let ?st = "supersede_queued cfg s job st"
  have inv': "lease_inv ?st" using inv by (rule lease_inv_supersede)
  have fresh': "\<not> job_id_in_use (rj_job_id job) ?st" if "\<not> job_id_in_use (rj_job_id job) st"
    using that supersede_queue_subset [of cfg s job st] by (auto simp: job_id_in_use_def list_ex_iff)
  show ?thesis
  proof (cases rule: submit_locked_cases [of job st cfg s])
    case (admitted t oc)
    then show ?thesis
      using admit_ledger_inv [OF inv' [unfolded lease_inv_def] admitted(3) budget]
        job_id_fresh [OF fresh' [OF admitted(1)]] room
      by (simp add: room_for_job_def lease_inv_def)
  next
    case (refused st0 oc r)
    then show ?thesis using inv inv' by auto
  next
    case queued
    then show ?thesis using lease_inv_enqueue [OF inv'] fresh' by auto
  qed
qed


lemma length_hm_insert_le: "length (hm_insert k v m) \<le> Suc (length m)"
  by (induction m) auto

lemma length_active_admit: "length (bs_active (snd (admit cfg s job t oc st))) \<le> Suc (length (bs_active st))"
  using length_hm_insert_le [of "rj_job_id job" "(job, t)" "holders st"]
  by (metis holders_admit holders_length)

lemma ids_inv_head:
  assumes "ids_inv hs (p @ q # r)"
  shows "hm_get hs (rj_job_id (qr_job q)) = None"
    and "y \<in> set (p @ r) \<Longrightarrow> rj_job_id (qr_job y) \<noteq> rj_job_id (qr_job q)"
proof -
  show "hm_get hs (rj_job_id (qr_job q)) = None" using assms by (simp add: ids_inv_def)
  have "distinct (map (rj_job_id \<circ> qr_job) (p @ q # r))" using assms by (simp add: ids_inv_def)
  then have "rj_job_id (qr_job q) \<notin> (rj_job_id \<circ> qr_job) ` set (p @ r)" by auto
  then show "y \<in> set (p @ r) \<Longrightarrow> rj_job_id (qr_job y) \<noteq> rj_job_id (qr_job q)" by (metis comp_apply imageI)
qed

lemma poll_queue_ledger_inv:
  assumes "ledger_inv (bs_reservations st) (holders st) (bs_queued st @ qs)"
    and "sn_system_ram_budget_bytes s < u64_max"
    and "length (bs_active st) + length (bs_queued st) + length qs \<le> u32_max"
  shows "lease_inv (snd (poll_queue cfg s qs st))"
  using assms
proof (induction qs arbitrary: st)
  case Nil
  then show ?case by (simp add: lease_inv_def)
next
  case (Cons q qs)
  have rest: "ledger_inv (bs_reservations st) (holders st) (bs_queued st @ qs)"
    using Cons.prems(1) by (rule ledger_inv_queue) simp
  have drop: "lease_inv (snd (poll_queue cfg s qs (push_admission cfg d st)))" for d
    using Cons.prems rest by (intro Cons.IH) (simp_all add: holders_def)
  show ?case
  proof (cases "is_late (qr_job q) (sn_monotonic_ms s) \<and> rj_drop_policy (qr_job q) = DropIfLate
                \<or> is_stale cfg (qr_job q) (sn_monotonic_ms s)")
    case True
    then show ?thesis using drop by auto
  next
    case keep: False
    show ?thesis
    proof (cases "select_target cfg s st (qr_job q) True")
      case None
      have "lease_inv (snd (poll_queue cfg s qs (st\<lparr>bs_queued := bs_queued st @ [q]\<rparr>)))"
        using Cons.prems by (intro Cons.IH) (simp_all add: holders_def)
      with keep None show ?thesis by auto
    next
      case (Some x)
      obtain t oc where x: "x = (t, oc)" by (cases x)
      let ?st = "snd (admit cfg s (qr_job q) t oc st)"
      have "ids_inv (holders st) (bs_queued st @ q # qs)" using Cons.prems(1) by (simp add: ledger_inv_def)
      then have fresh: "hm_get (bs_active st) (rj_job_id (qr_job q)) = None"
        "\<And>y. y \<in> set (bs_queued st @ qs) \<Longrightarrow> rj_job_id (qr_job y) \<noteq> rj_job_id (qr_job q)"
        using ids_inv_head [of "holders st" "bs_queued st" q qs] by (simp_all add: hm_get_holders)
      have "ledger_inv (bs_reservations ?st) (holders ?st) (bs_queued st @ qs)"
        using Cons.prems(2,3) fresh by (intro admit_ledger_inv [OF rest Some [unfolded x]]) simp_all
      then have "lease_inv (snd (poll_queue cfg s qs ?st))"
        using Cons.prems(2,3) length_active_admit [of cfg s "qr_job q" t oc st]
        by (intro Cons.IH) simp_all
      with keep Some x show ?thesis by (auto simp: case_prod_unfold Let_def)
    qed
  qed
qed

lemma read_telemetry_InrD:
  "read_telemetry tm = Inr (s, a) \<Longrightarrow> validate_snapshot s = Inr s \<and> tl_snapshot tm = Inr s \<and> tl_accounted tm = Inr a"
  by (auto simp: read_telemetry_def read_snapshot_def bind_result_def dest: validate_snapshot_InrD split: sum.splits)

lemma observe_length [simp]: "length (bs_active (observe cfg s a st)) = length (bs_active st)"
  by (metis holders_length holders_observe)

lemma lease_inv_observe: "lease_inv st \<Longrightarrow> lease_inv (observe cfg s a st)"
  by (rule lease_inv_same [OF same_leases_observe])

lemma lease_inv_poll:
  assumes "lease_inv st" "telemetry_in_range tm" "room_for_job st"
  shows "lease_inv (snd (poll_ready cfg tm st))"
proof (cases "read_telemetry tm")
  case (Inr x)
  obtain s a where x: "x = (s, a)" by (cases x)
  from read_telemetry_InrD [OF Inr [unfolded x]] assms(2)
  have budget: "sn_system_ram_budget_bytes s < u64_max" by (simp add: telemetry_in_range_def)
  let ?st = "observe cfg s a st"
  have "ledger_inv (bs_reservations ?st) (holders ?st) (sort_by queue_order (bs_queued ?st))"
    using lease_inv_observe [OF assms(1), of cfg s a] unfolding lease_inv_def
    by (rule ledger_inv_queue) simp
  then have "lease_inv (snd (poll_queue cfg s (sort_by queue_order (bs_queued ?st)) (?st\<lparr>bs_queued := []\<rparr>)))"
    using budget assms(3) holders_cong [of "?st\<lparr>bs_queued := []\<rparr>" ?st]
    by (intro poll_queue_ledger_inv) (simp_all add: room_for_job_def)
  with Inr x show ?thesis by (simp add: poll_ready_def Let_def case_prod_unfold)
qed (use assms in \<open>simp add: poll_ready_def\<close>)

lemma lease_inv_submit:
  assumes "lease_inv st" "telemetry_in_range tm" "room_for_job st"
  shows "lease_inv (snd (submit cfg tm job st))"
proof (cases "validate_job job"; cases "read_telemetry tm")
  fix u x
  assume ok: "validate_job job = Inr u" "read_telemetry tm = Inr x"
  obtain s a where x: "x = (s, a)" by (cases x)
  from read_telemetry_InrD [OF ok(2) [unfolded x]] assms(2)
  have budget: "sn_system_ram_budget_bytes s < u64_max" by (simp add: telemetry_in_range_def)
  have "lease_inv (snd (submit_locked cfg s job (observe cfg s a st)))"
    using lease_inv_observe [OF assms(1)] budget assms(3) by (intro lease_inv_submit_locked) (simp_all add: room_for_job_def)
  with ok x show ?thesis by (simp add: submit_def case_prod_unfold Let_def)
qed (use assms in \<open>simp_all add: submit_def\<close>)

lemma remove_first_subset: "mset (remove_first P xs) \<subseteq># mset xs"
  by (induction xs) (auto intro: subset_mset.order_trans)

lemma lease_inv_cancel:
  assumes inv: "lease_inv st"
  shows "lease_inv (snd (cancel cfg tm k reason st))"
proof -
  let ?q = "remove_first (\<lambda>q. rj_job_id (qr_job q) = k) (bs_queued st)"
  have "lease_inv (st\<lparr>bs_queued := ?q\<rparr>)"
    using inv by (rule lease_inv_queue_change)
      (simp_all add: holders_def image_mset_subseteq_mono remove_first_subset)
  moreover have "lease_inv (st\<lparr>bs_active := hm_insert k (a\<lparr>ac_cancelled_by_broker := True\<rparr>) (bs_active st)\<rparr>)"
    if "hm_get (bs_active st) k = Some a" for a
    using inv holders_update [OF that, of "a\<lparr>ac_cancelled_by_broker := True\<rparr>"] by (simp add: lease_inv_def)
  ultimately show ?thesis
    using inv by (auto simp: cancel_def Let_def split: sum.split option.split)
qed


text \<open>The remaining operations do not touch the ledger.\<close>

lemma same_leases_set_residency [simp]: "same_leases st (set_residency m r st)"
  by (simp add: same_leases_def set_residency_def holders_def)

lemma same_leases_accounted [simp]: "same_leases st (st\<lparr>bs_telemetry_accounted := a\<rparr>)"
  by (simp add: same_leases_def holders_def)

lemma same_leases_residency_ops:
  "same_leases st (snd (register_model_residency spec st))"
  "same_leases st (snd (begin_model_warming cfg tm m st))"
  "same_leases st (snd (begin_model_eviction m st))"
  "same_leases st (snd (mark_model_cold m st))"
  "same_leases st (snd (quarantine_model_residency m until st))"
  "same_leases st (snd (clear_model_quarantine tm m st))"
  by (auto simp: register_model_residency_def begin_model_warming_def begin_model_eviction_def mark_model_cold_def
      transition_idle_model_def quarantine_model_residency_def clear_model_quarantine_def Let_def
      split: sum.split option.split)

lemma same_leases_loaded: "same_leases st (snd (mark_model_loaded cfg tm m e st))"
proof -
  have "same_leases st (set_residency m r (st\<lparr>bs_telemetry_accounted := a\<rparr>))" for r a
    by (simp add: same_leases_def set_residency_def holders_def)
  then show ?thesis by (auto simp: mark_model_loaded_def Let_def split: sum.split option.split)
qed

lemma same_leases_refresh: "same_leases st (snd (refresh_pressure cfg tm st))"
  by (auto simp: refresh_pressure_def Let_def same_leases_observe split: sum.split)

lemma same_leases_output: "same_leases st (snd (mark_output_started k st))"
proof (cases "hm_get (bs_active st) k")
  case (Some a)
  have "holders (st\<lparr>bs_active := hm_insert k (a\<lparr>ac_output_started := True\<rparr>) (bs_active st)\<rparr>) = holders st"
    by (rule holders_update [OF Some]) simp_all
  with Some show ?thesis
    by (auto simp: mark_output_started_def same_leases_def holders_def Let_def split: option.split)
qed (simp add: mark_output_started_def)

lemma same_leases_utterance: "same_leases st (finish_utterance u st)"
  by (simp add: finish_utterance_def same_leases_def holders_def)

lemma same_leases_drain: "same_leases st (snd (drain_diagnostics st))"
  by (simp add: drain_diagnostics_def same_leases_def holders_def)

lemma quarantine_record_simps [simp]:
  "bs_reservations (quarantine_record t u st) = bs_reservations st"
  "bs_active (quarantine_record t u st) = bs_active st"
  "bs_queued (quarantine_record t u st) = bs_queued st"
  "bs_diagnostics (quarantine_record t u st) = bs_diagnostics st"
  "bs_degradation_count (quarantine_record t u st) = bs_degradation_count st"
  "bs_pressure (quarantine_record t u st) = bs_pressure st"
  "bs_target_health (quarantine_record t u st) = bs_target_health st"
  by (simp_all add: quarantine_record_def set_residency_def split: option.split)

lemma same_leases_oom: "same_leases st (snd (report_oom cfg tm k st))"
  by (auto simp: report_oom_def Let_def same_leases_def holders_def split: sum.split option.split)

lemmas same_leases_ops = same_leases_residency_ops same_leases_loaded same_leases_refresh same_leases_output
  same_leases_utterance same_leases_drain same_leases_oom

lemma lease_inv_init: "lease_inv initial_broker_state"
  by (simp add: lease_inv_def ledger_inv_def slots_inv_def ids_inv_def initial_broker_state_def no_reservations_def
      holders_def)

lemma lease_inv_op: "broker_op cfg st st' \<Longrightarrow> lease_inv st \<Longrightarrow> lease_inv st'"
  by (induction rule: broker_op.induct)
    (simp_all add: lease_inv_submit lease_inv_poll lease_inv_cancel lease_inv_finish lease_inv_same [OF same_leases_ops(1)]
      lease_inv_same [OF same_leases_ops(2)] lease_inv_same [OF same_leases_ops(3)] lease_inv_same [OF same_leases_ops(4)]
      lease_inv_same [OF same_leases_ops(5)] lease_inv_same [OF same_leases_ops(6)] lease_inv_same [OF same_leases_ops(7)]
      lease_inv_same [OF same_leases_ops(8)] lease_inv_same [OF same_leases_ops(9)] lease_inv_same [OF same_leases_ops(10)]
      lease_inv_same [OF same_leases_ops(11)] lease_inv_same [OF same_leases_ops(12)])

lemma lease_inv_reachable: "broker_reachable cfg st \<Longrightarrow> lease_inv st"
  by (induction rule: broker_reachable.induct) (auto intro: lease_inv_init lease_inv_op)

section \<open>Degradation and diagnostics\<close>

definition bounds_inv :: "broker_config \<Rightarrow> broker_state \<Rightarrow> bool" where
  "bounds_inv cfg st \<longleftrightarrow>
     pressure_floor (bs_pressure st) \<le> bs_degradation_count st
     \<and> bs_degradation_count st \<le> length DEGRADATION_ORDER
     \<and> length (bs_diagnostics st) \<le> bc_diagnostic_capacity cfg"

lemma bounds_inv_same:
  assumes "bounds_inv cfg st" "bs_pressure st' = bs_pressure st" "bs_degradation_count st' = bs_degradation_count st"
    "bs_diagnostics st' = bs_diagnostics st"
  shows "bounds_inv cfg st'"
  using assms by (simp add: bounds_inv_def)

lemma push_diagnostic_ring:
  "bs_diagnostics (push_diagnostic cfg d st) = ring_push (bc_diagnostic_capacity cfg) d (bs_diagnostics st)"
  by (simp add: push_diagnostic_def)

lemma bounds_inv_push:
  assumes "0 < bc_diagnostic_capacity cfg" "bounds_inv cfg st"
  shows "bounds_inv cfg (push_diagnostic cfg d st)" "bounds_inv cfg (push_admission cfg d' st)"
  using assms by (simp_all add: bounds_inv_def push_admission_def push_diagnostic_ring ring_push_length)

lemma bounds_inv_fold_push:
  assumes "0 < bc_diagnostic_capacity cfg" "bounds_inv cfg st"
  shows "bounds_inv cfg (fold (\<lambda>x. push_diagnostic cfg (g x)) xs st)"
    and "bounds_inv cfg (fold (\<lambda>x st. push_admission cfg (h x st) st) xs st)"
  using assms(2) by (induction xs arbitrary: st) (simp_all add: bounds_inv_push assms(1))

lemma update_pressure_bounds:
  assumes cap: "0 < bc_diagnostic_capacity cfg" and inv: "bounds_inv cfg st"
  shows "bounds_inv cfg (update_pressure cfg s st)"
proof -
  let ?a = "set_pressure cfg s st"
  have ring: "length (bs_diagnostics (push_diagnostic cfg d st')) \<le> bc_diagnostic_capacity cfg"
    if "length (bs_diagnostics st') \<le> bc_diagnostic_capacity cfg" for d st'
    using that cap by (simp add: push_diagnostic_ring ring_push_length)
  have a: "bs_degradation_count ?a \<le> length DEGRADATION_ORDER" "length (bs_diagnostics ?a) \<le> bc_diagnostic_capacity cfg"
    using inv by (auto simp: set_pressure_def Let_def bounds_inv_def ring)
  let ?b = "raise_pressure_floor cfg (sn_monotonic_ms s) ?a"
  have floor: "pressure_floor p \<le> length DEGRADATION_ORDER" for p
    by (cases p) (simp_all add: DEGRADATION_ORDER_def)
  have b: "bounds_inv cfg ?b"
    using a floor by (auto simp: raise_pressure_floor_def Let_def bounds_inv_def emit_degradation_def ring)
  then show ?thesis
    by (auto simp: update_pressure_def recover_degradation_def Let_def bounds_inv_def emit_degradation_def ring)
qed

lemma observe_bounds:
  assumes cap: "0 < bc_diagnostic_capacity cfg" and inv: "bounds_inv cfg st"
  shows "bounds_inv cfg (observe cfg s a st)"
proof -
  have "bounds_inv cfg (expire_transient_overages cfg n (st\<lparr>bs_telemetry_accounted := a\<rparr>))" for n
    unfolding expire_push_eq
    by (rule bounds_inv_fold_push(1) [OF cap]) (rule bounds_inv_same [OF inv]; simp)
  then show ?thesis unfolding observe_def by (rule update_pressure_bounds [OF cap])
qed

lemma supersede_bounds:
  assumes cap: "0 < bc_diagnostic_capacity cfg" and inv: "bounds_inv cfg st"
  shows "bounds_inv cfg (supersede_queued cfg s job st)"
proof -
  have "bounds_inv cfg (st\<lparr>bs_queued := q\<rparr>)" for q using inv by (rule bounds_inv_same) simp_all
  then show ?thesis
    using inv by (auto simp: supersede_queued_def bounds_inv_fold_push(2) [OF cap] split: drop_policy.split)
qed

lemma enqueue_bounds:
  assumes cap: "0 < bc_diagnostic_capacity cfg" and inv: "bounds_inv cfg st"
  shows "bounds_inv cfg (snd (enqueue cfg s job st))"
proof -
  have "bounds_inv cfg (escalate_degradation cfg n r st)" for n r
  proof -
    have "bounds_inv cfg (st\<lparr>bs_degradation_count := bs_degradation_count st + 1\<rparr>)"
      if "bs_degradation_count st < length DEGRADATION_ORDER"
      using inv that by (simp add: bounds_inv_def)
    then show ?thesis
      using inv by (auto simp: escalate_degradation_def emit_degradation_def bounds_inv_push(1) [OF cap])
  qed
  then have "bounds_inv cfg (escalate_degradation cfg n r st\<lparr>bs_sequence := i, bs_queued := q\<rparr>)" for n r i q
    by (rule bounds_inv_same) simp_all
  then show ?thesis by (simp add: enqueue_def Let_def bounds_inv_push(2) [OF cap])
qed

lemma admit_bounds:
  assumes cap: "0 < bc_diagnostic_capacity cfg" and inv: "bounds_inv cfg st"
  shows "bounds_inv cfg (snd (admit cfg s job t oc st))"
proof -
  have "bounds_inv cfg (reserve job t st\<lparr>bs_active := x\<rparr>)" for x
    using inv by (rule bounds_inv_same) simp_all
  then show ?thesis by (simp add: admit_def Let_def bounds_inv_push(2) [OF cap])
qed

lemma submit_bounds:
  assumes cap: "0 < bc_diagnostic_capacity cfg" and inv: "bounds_inv cfg st"
  shows "bounds_inv cfg (snd (submit cfg tm job st))"
proof -
  have "bounds_inv cfg (snd (submit_locked cfg s job st'))" if "bounds_inv cfg st'" for s st'
    by (cases rule: submit_locked_cases [of job st' cfg s])
      (use that in \<open>auto simp: admit_bounds enqueue_bounds supersede_bounds bounds_inv_push cap\<close>)
  then show ?thesis
    using inv observe_bounds [OF cap inv] by (simp add: submit_def Let_def case_prod_unfold split: sum.split)
qed

lemma poll_queue_bounds:
  assumes cap: "0 < bc_diagnostic_capacity cfg" and inv: "bounds_inv cfg st"
  shows "bounds_inv cfg (snd (poll_queue cfg s qs st))"
  using inv
proof (induction qs arbitrary: st)
  case (Cons q qs)
  have "bounds_inv cfg (st\<lparr>bs_queued := x\<rparr>)" for x using Cons.prems by (rule bounds_inv_same) simp_all
  with Cons show ?case
    by (auto simp: bounds_inv_push cap admit_bounds Let_def case_prod_unfold split: option.split)
qed simp

lemma poll_bounds:
  assumes cap: "0 < bc_diagnostic_capacity cfg" and inv: "bounds_inv cfg st"
  shows "bounds_inv cfg (snd (poll_ready cfg tm st))"
proof -
  have "bounds_inv cfg (observe cfg s a st\<lparr>bs_queued := x\<rparr>)" for s a x
    using observe_bounds [OF cap inv] by (rule bounds_inv_same) simp_all
  then show ?thesis
    using inv by (simp add: poll_ready_def poll_queue_bounds [OF cap] Let_def case_prod_unfold split: sum.split)
qed

lemma set_residency_simps [simp]:
  "bs_pressure (set_residency m r st) = bs_pressure st"
  "bs_degradation_count (set_residency m r st) = bs_degradation_count st"
  "bs_diagnostics (set_residency m r st) = bs_diagnostics st"
  "bs_residency (set_residency m r st) = hm_insert m r (bs_residency st)"
  by (simp_all add: set_residency_def)

lemma bounds_quiet_ops:
  assumes "bounds_inv cfg st"
  shows "bounds_inv cfg (snd (register_model_residency spec st))"
    "bounds_inv cfg (snd (begin_model_warming cfg' tm m st))"
    "bounds_inv cfg (snd (mark_model_loaded cfg' tm m e st))"
    "bounds_inv cfg (snd (begin_model_eviction m st))"
    "bounds_inv cfg (snd (mark_model_cold m st))"
    "bounds_inv cfg (snd (quarantine_model_residency m until st))"
    "bounds_inv cfg (snd (clear_model_quarantine tm m st))"
    "bounds_inv cfg (snd (mark_output_started k st))"
    "bounds_inv cfg (finish_utterance u st)"
    "bounds_inv cfg (snd (drain_diagnostics st))"
  using assms
  by (auto simp: bounds_inv_def register_model_residency_def begin_model_warming_def mark_model_loaded_def
      begin_model_eviction_def mark_model_cold_def transition_idle_model_def quarantine_model_residency_def
      clear_model_quarantine_def mark_output_started_def finish_utterance_def drain_diagnostics_def Let_def
      split: sum.split option.split)

lemma bounds_pushing_ops:
  assumes cap: "0 < bc_diagnostic_capacity cfg" and inv: "bounds_inv cfg st"
  shows "bounds_inv cfg (snd (refresh_pressure cfg tm st))"
    "bounds_inv cfg (snd (cancel cfg tm k reason st))"
    "bounds_inv cfg (snd (report_oom cfg tm k st))"
    "bounds_inv cfg (finish_lease cfg tm k actual measured status st)"
proof -
  show "bounds_inv cfg (snd (refresh_pressure cfg tm st))"
    using inv observe_bounds [OF cap inv] by (simp add: refresh_pressure_def Let_def split: sum.split)
  have upd: "bounds_inv cfg (st\<lparr>bs_queued := q\<rparr>)" "bounds_inv cfg (st\<lparr>bs_active := x\<rparr>)"
    "bounds_inv cfg (quarantine_record t n (st\<lparr>bs_telemetry_accounted := a, bs_target_health := h\<rparr>))"
    "bounds_inv cfg (st\<lparr>bs_telemetry_accounted := a\<rparr>)"
    "bounds_inv cfg (st\<lparr>bs_telemetry_accounted := a, bs_target_health := h\<rparr>)"
    "bounds_inv cfg (release j t (st\<lparr>bs_active := x\<rparr>))"
    "bounds_inv cfg (release j t (st\<lparr>bs_active := x\<rparr>)\<lparr>bs_target_health := h\<rparr>)"
    for q x t n a h j
    using inv by (simp_all add: bounds_inv_def)
  show "bounds_inv cfg (snd (cancel cfg tm k reason st))"
    using inv by (simp add: cancel_def Let_def bounds_inv_push cap upd split: sum.split option.split)
  show "bounds_inv cfg (snd (report_oom cfg tm k st))"
    using inv by (simp add: report_oom_def Let_def bounds_inv_push cap upd split: sum.split option.split)
  show "bounds_inv cfg (finish_lease cfg tm k actual measured status st)"
    using inv by (simp add: finish_lease_def Let_def bounds_inv_push cap upd split: option.split)
qed

lemma reachable_config_ok: "broker_reachable cfg st \<Longrightarrow> broker_config_ok cfg"
  by (induction rule: broker_reachable.induct)

lemma bounds_inv_op: "broker_op cfg st st' \<Longrightarrow> 0 < bc_diagnostic_capacity cfg \<Longrightarrow> bounds_inv cfg st \<Longrightarrow> bounds_inv cfg st'"
  by (induction rule: broker_op.induct) (simp_all add: submit_bounds poll_bounds bounds_quiet_ops bounds_pushing_ops)

lemma bounds_inv_reachable: "broker_reachable cfg st \<Longrightarrow> bounds_inv cfg st"
proof (induction rule: broker_reachable.induct)
  case reach_init
  then show ?case by (simp add: bounds_inv_def initial_broker_state_def)
next
  case (reach_step st st')
  then show ?case
    using bounds_inv_op reachable_config_ok by (auto simp: broker_config_ok_def)
qed

section \<open>The residency ledger\<close>

definition record_ok :: "rstr \<Rightarrow> model_residency_record \<Rightarrow> bool" where
  "record_ok k r \<longleftrightarrow>
     ms_model_id (mr_spec r) = k \<and> ms_gpu_residency (mr_spec r) \<noteq> GpuNone
     \<and> is_local (pd_location (ms_provider (mr_spec r)))
     \<and> 0 < ge_resident_bytes (ms_envelope (mr_spec r)) \<and> 0 < ge_sample_count (ms_envelope (mr_spec r))"

definition residency_inv :: "(rstr, model_residency_record) hmap \<Rightarrow> bool" where
  "residency_inv res \<longleftrightarrow>
     hm_wf res \<and> (\<forall>k r. hm_get res k = Some r \<longrightarrow> record_ok k r)
     \<and> (\<forall>k k' r r'. hm_get res k = Some r \<longrightarrow> hm_get res k' = Some r'
          \<longrightarrow> ms_target_id (mr_spec r) = ms_target_id (mr_spec r') \<longrightarrow> k = k')"

lemma residency_inv_update:
  assumes "residency_inv res" "hm_get res k = Some r" "record_ok k r'"
    "ms_target_id (mr_spec r') = ms_target_id (mr_spec r)"
  shows "residency_inv (hm_insert k r' res)"
  using assms unfolding residency_inv_def by (smt (verit) hm_get_insert hm_wf_insert option.inject)

lemma residency_inv_state_update:
  assumes "residency_inv res" "hm_get res k = Some r" "mr_spec r' = mr_spec r"
  shows "residency_inv (hm_insert k r' res)"
proof (rule residency_inv_update [OF assms(1,2)])
  have "record_ok k r" using assms(1,2) by (simp add: residency_inv_def)
  with assms(3) show "record_ok k r'" by (simp add: record_ok_def)
qed (simp add: assms(3))

lemma residency_inv_insert_new:
  assumes "residency_inv res" "hm_get res k = None" "record_ok k r"
    "\<And>i x. hm_get res i = Some x \<Longrightarrow> ms_target_id (mr_spec x) \<noteq> ms_target_id (mr_spec r)"
  shows "residency_inv (hm_insert k r res)"
  using assms unfolding residency_inv_def by (smt (verit) hm_get_insert hm_wf_insert option.inject)

lemma residency_inv_lookup:
  assumes "residency_inv (bs_residency st)" "registered_model_for_target st t = Some m"
  shows "hm_get (bs_residency st) (ms_model_id (mr_spec m)) = Some m"
  using registered_model_lookup [OF assms(2)] assms(1) unfolding residency_inv_def record_ok_def by metis

lemma residency_inv_reserve: "residency_inv (bs_residency st) \<Longrightarrow> residency_inv (bs_residency (reserve job t st))"
  by (auto simp: reserve_def Let_def intro: residency_inv_state_update dest: residency_inv_lookup split: option.split)

lemma residency_inv_release: "residency_inv (bs_residency st) \<Longrightarrow> residency_inv (bs_residency (release job t st))"
  by (auto simp: release_def Let_def intro: residency_inv_state_update dest: residency_inv_lookup split: option.split)


lemma residency_inv_submit:
  assumes "residency_inv (bs_residency st)"
  shows "residency_inv (bs_residency (snd (submit cfg tm job st)))"
proof -
  have "residency_inv (bs_residency (snd (submit_locked cfg s job st')))" if "residency_inv (bs_residency st')" for s st'
    by (cases rule: submit_locked_cases [of job st' cfg s]) (use that in \<open>auto simp: residency_inv_reserve\<close>)
  then show ?thesis using assms by (simp add: submit_def Let_def case_prod_unfold split: sum.split)
qed

lemma residency_inv_poll_queue:
  "residency_inv (bs_residency st) \<Longrightarrow> residency_inv (bs_residency (snd (poll_queue cfg s qs st)))"
  by (induction qs arbitrary: st)
    (simp_all add: residency_inv_reserve Let_def case_prod_unfold split: option.split)

lemma residency_inv_poll:
  "residency_inv (bs_residency st) \<Longrightarrow> residency_inv (bs_residency (snd (poll_ready cfg tm st)))"
  by (simp add: poll_ready_def residency_inv_poll_queue Let_def case_prod_unfold split: sum.split)

lemma residency_inv_register:
  assumes "residency_inv (bs_residency st)"
  shows "residency_inv (bs_residency (snd (register_model_residency spec st)))"
proof (cases "snd (register_model_residency spec st) = st")
  case False
  let ?r = "\<lparr>mr_spec = spec, mr_state = Cold, mr_active_jobs = 0, mr_quarantine_until_ms = None\<rparr>"
  have ok: "record_ok (ms_model_id spec) ?r" and new: "hm_get (bs_residency st) (ms_model_id spec) = None"
    and fresh: "\<not> list_ex (\<lambda>(_, r). ms_target_id (mr_spec r) = ms_target_id spec) (bs_residency st)"
    and eq: "snd (register_model_residency spec st) = set_residency (ms_model_id spec) ?r st"
    using False by (auto simp: register_model_residency_def record_ok_def validate_envelope_def
        is_local_iff_not_networked split: if_splits sum.splits)
  have "ms_target_id (mr_spec x) \<noteq> ms_target_id (mr_spec ?r)" if "hm_get (bs_residency st) i = Some x" for i x
    using fresh map_of_SomeD [OF that] by (force simp: list_ex_iff)
  then show ?thesis unfolding eq using residency_inv_insert_new [OF assms new ok] by simp
qed (simp add: assms)

lemma residency_inv_loaded:
  assumes inv: "residency_inv (bs_residency st)"
  shows "residency_inv (bs_residency (snd (mark_model_loaded cfg tm m e st)))"
proof -
  have "residency_inv (hm_insert m (r\<lparr>mr_spec := (mr_spec r)\<lparr>ms_envelope := e\<rparr>, mr_state := x\<rparr>) (bs_residency st))"
    if "hm_get (bs_residency st) m = Some r" "validate_envelope e = Inr e'" for r x e'
  proof (rule residency_inv_update [OF inv that(1)])
    have "record_ok m r" using inv that(1) by (simp add: residency_inv_def)
    with that(2) show "record_ok m (r\<lparr>mr_spec := (mr_spec r)\<lparr>ms_envelope := e\<rparr>, mr_state := x\<rparr>)"
      by (auto simp: record_ok_def validate_envelope_def split: if_splits)
  qed simp
  moreover have "validate_envelope e = Inr e' \<Longrightarrow> e' = e" for e'
    by (auto simp: validate_envelope_def split: if_splits)
  ultimately show ?thesis
    using inv by (auto simp: mark_model_loaded_def Let_def split: sum.split option.split)
qed

lemma residency_inv_state_ops:
  assumes inv: "residency_inv (bs_residency st)"
  shows "residency_inv (bs_residency (snd (begin_model_warming cfg tm m st)))"
    "residency_inv (bs_residency (snd (begin_model_eviction m st)))"
    "residency_inv (bs_residency (snd (mark_model_cold m st)))"
    "residency_inv (bs_residency (snd (quarantine_model_residency m until st)))"
    "residency_inv (bs_residency (snd (clear_model_quarantine tm m st)))"
    "residency_inv (bs_residency (snd (report_oom cfg tm k st)))"
    "residency_inv (bs_residency (finish_lease cfg tm k actual measured status st))"
  using residency_inv_state_update [OF inv] inv
  by (auto simp: begin_model_warming_def begin_model_eviction_def mark_model_cold_def transition_idle_model_def
      quarantine_model_residency_def clear_model_quarantine_def report_oom_def quarantine_record_def
      finish_lease_def residency_inv_release Let_def
      split: sum.split option.split)

lemma residency_inv_quiet_ops:
  "bs_residency (snd (refresh_pressure cfg tm st)) = bs_residency st"
  "bs_residency (snd (cancel cfg tm k reason st)) = bs_residency st"
  "bs_residency (snd (mark_output_started k st)) = bs_residency st"
  "bs_residency (finish_utterance u st) = bs_residency st"
  "bs_residency (snd (drain_diagnostics st)) = bs_residency st"
  by (simp_all add: refresh_pressure_def cancel_def mark_output_started_def finish_utterance_def
      drain_diagnostics_def Let_def split: sum.split option.split)

lemma residency_inv_op:
  "broker_op cfg st st' \<Longrightarrow> residency_inv (bs_residency st) \<Longrightarrow> residency_inv (bs_residency st')"
  by (induction rule: broker_op.induct)
    (simp_all add: residency_inv_submit residency_inv_poll residency_inv_register residency_inv_loaded
      residency_inv_state_ops residency_inv_quiet_ops)

lemma residency_inv_init: "residency_inv (bs_residency initial_broker_state)"
  by (simp add: residency_inv_def initial_broker_state_def)

lemma residency_inv_reachable: "broker_reachable cfg st \<Longrightarrow> residency_inv (bs_residency st)"
  by (induction rule: broker_reachable.induct) (auto intro: residency_inv_op residency_inv_init)


section \<open>Committed memory\<close>

text \<open>Accounting depends on the reservations, the ledger and the accounted usage only.\<close>

lemma accounting_cong:
  assumes "bs_reservations st' = bs_reservations st" "bs_residency st' = bs_residency st"
    "bs_telemetry_accounted st' = bs_telemetry_accounted st"
  shows "committed_ram s st' = committed_ram s st" "committed_vram s st' = committed_vram s st"
    "effective_job_estimate st' t = effective_job_estimate st t" "target_fits cfg s st' t = target_fits cfg s st t"
proof -
  show a: "committed_ram s st' = committed_ram s st" "committed_vram s st' = committed_vram s st"
    and e: "effective_job_estimate st' t = effective_job_estimate st t"
    by (simp_all only: committed_ram_def committed_vram_def broker_reserved_gpu_usage_def
        effective_job_estimate_def assms)
  show "target_fits cfg s st' t = target_fits cfg s st t"
    by (simp only: target_fits_def a e)
qed

lemma ledger_resident_update:
  assumes "hm_get res k = Some r" "holds_resident_memory r' = holds_resident_memory r"
    "ms_envelope (mr_spec r') = ms_envelope (mr_spec r)"
  shows "ledger_resident (hm_insert k r' res) = ledger_resident res"
proof -
  have "fold f (filter P (hm_insert k r' res)) acc = fold f (filter P res) acc"
    if "P (k, r') = P (k, r)" "f (k, r') = f (k, r)" for f :: "_ \<Rightarrow> nat \<Rightarrow> nat" and P acc
    using assms(1) that by (induction res arbitrary: acc) (auto split: if_splits)
  with assms show ?thesis by (simp add: ledger_resident_def)
qed

text \<open>Reservation of a target with an effective estimate adds that estimate to the committed memory,
  less what the telemetry already counts.\<close>

lemma reserve_ledger_resident:
  assumes "residency_inv (bs_residency st)" "effective_job_estimate st t = Some e"
  shows "ledger_resident (bs_residency (reserve job t st)) = ledger_resident (bs_residency st)"
proof (cases "registered_model_for_target st t")
  case None
  then show ?thesis by (simp add: reserve_def Let_def)
next
  case (Some m)
  from registered_model_lookup [OF Some] obtain i where i: "ct_model_id t = Some i" "hm_get (bs_residency st) i = Some m"
    by blast
  then have "mr_state m \<in> {Loaded, InFlight}"
    using assms(2) by (auto simp: effective_job_estimate_def split: if_splits)
  moreover have "hm_get (bs_residency st) (ms_model_id (mr_spec m)) = Some m"
    using residency_inv_lookup [OF assms(1) Some] .
  ultimately show ?thesis
    using Some by (simp add: reserve_def Let_def) (rule ledger_resident_update, auto simp: holds_resident_memory_def)
qed

lemma reserve_committed:
  assumes inv: "residency_inv (bs_residency st)" and e: "effective_job_estimate st t = Some e"
  shows "committed_ram s (reserve job t st) = sat_add (committed_ram s st) (es_ram_bytes e)"
    and "committed_vram s (reserve job t st) \<le> sat_add (committed_vram s st) (total_vram e)"
proof -
  show "committed_ram s (reserve job t st) = sat_add (committed_ram s st) (es_ram_bytes e)"
    using e by (simp add: committed_ram_def reserve_def Let_def sat_add_assoc)
  have "rv_vram_resident_bytes (bs_reservations (reserve job t st)) = sat_add (rv_vram_resident_bytes (bs_reservations st)) (es_vram_resident_bytes e)"
    "rv_vram_transient_bytes (bs_reservations (reserve job t st)) = sat_add (rv_vram_transient_bytes (bs_reservations st)) (es_vram_transient_bytes e)"
    "bs_telemetry_accounted (reserve job t st) = bs_telemetry_accounted st"
    using e by (simp_all add: reserve_def Let_def)
  moreover define r where "r = rv_vram_resident_bytes (bs_reservations st)"
  define l where "l = ledger_resident (bs_residency st)"
  ultimately have "committed_vram s (reserve job t st) =
      sat_add (sat_add (protected_gpu_vram_used s)
        (sat_add (sat_add r (es_vram_resident_bytes e)) l - gu_resident_bytes (bs_telemetry_accounted st)))
        (sat_add (rv_vram_transient_bytes (bs_reservations st)) (es_vram_transient_bytes e)
           - gu_transient_bytes (bs_telemetry_accounted st))"
    by (simp add: committed_vram_def broker_reserved_gpu_usage_def reserve_ledger_resident [OF inv e] Let_def r_def)
  also have "sat_add (sat_add r (es_vram_resident_bytes e)) l = sat_add (sat_add r l) (es_vram_resident_bytes e)"
    by (simp add: sat_add_ac)
  also have "sat_add (sat_add (protected_gpu_vram_used s)
        (sat_add (sat_add r l) (es_vram_resident_bytes e) - gu_resident_bytes (bs_telemetry_accounted st)))
        (sat_add (rv_vram_transient_bytes (bs_reservations st)) (es_vram_transient_bytes e)
           - gu_transient_bytes (bs_telemetry_accounted st))
      \<le> sat_add (sat_add (protected_gpu_vram_used s)
        (sat_add (sat_add r l - gu_resident_bytes (bs_telemetry_accounted st)) (es_vram_resident_bytes e)))
        (sat_add (rv_vram_transient_bytes (bs_reservations st) - gu_transient_bytes (bs_telemetry_accounted st))
           (es_vram_transient_bytes e))"
    by (intro sat_add_mono sat_add_diff_le order_refl)
  also have "\<dots> = sat_add (committed_vram s st) (total_vram e)"
    by (simp add: committed_vram_def broker_reserved_gpu_usage_def Let_def total_vram_def r_def l_def sat_add_ac)
  finally show "committed_vram s (reserve job t st) \<le> sat_add (committed_vram s st) (total_vram e)" .
qed

end
