(* ===== verification/Broker_Properties.thy ===== *)
theory Broker_Properties
  imports Broker_Invariants "HOL-Library.Sublist"
begin

text \<open>
  The properties of the resource broker: what an admission guarantees, what a refusal leaves alone,
  mutual exclusion and exact accounting in every reachable state, fairness of the queue, pressure
  hysteresis, the residency ledger, utterance binding, out-of-memory recovery and the release of
  leases; and two places where the ledger loses track of memory.
\<close>

section \<open>Sample data\<close>

definition sample_target :: compute_target where
  "sample_target = \<lparr>ct_target_id = lit ''gpu0'', ct_model_id = Some (lit ''m''), ct_provider = sample_local,
     ct_estimate = \<lparr>es_ram_bytes = 64, es_vram_resident_bytes = 512, es_vram_transient_bytes = 16,
        es_transient_duration_ms = 5, es_gpu_time_ms = 5\<rparr>, ct_gpu_residency = GpuExclusive\<rparr>"

definition sample_job :: resource_job where
  "sample_job = \<lparr>rj_job_id = lit ''job'', rj_kind = InteractiveTurn (lit ''u''), rj_priority = Critical,
     rj_deadline_ms = None, rj_primary = sample_target, rj_fallbacks = [], rj_drop_policy = Never,
     rj_privacy = privacy_fully_local\<rparr>"

definition sample_snapshot :: budget_snapshot where
  "sample_snapshot = \<lparr>sn_monotonic_ms = 10, sn_system_ram_budget_bytes = 4096, sn_system_ram_used_bytes = 0,
     sn_additional_game_ram_reserve_bytes = 0, sn_gpu_vram_budget_bytes = 4096, sn_gpu_vram_used_bytes = 0,
     sn_additional_game_vram_reserve_bytes = 0, sn_gpu_utilization = Fin 0\<rparr>"

definition sample_broker_config :: broker_config where
  "sample_broker_config = \<lparr>bc_vram_ceiling_bytes = 4096, bc_transient_vram_allowance_bytes = 256,
      bc_transient_vram_grace_ms = 2000, bc_amber_enter_ratio = 3 / 4, bc_green_reenter_ratio = 1 / 2,
      bc_red_enter_ratio = 1, bc_amber_reenter_ratio = 7 / 8, bc_recovery_green_samples = 3,
      bc_default_vision_stale_ms = 100, bc_oom_failures_before_quarantine = 2,
      bc_quarantine_ms = 60000, bc_diagnostic_capacity = 16\<rparr>"

definition sample_telemetry :: telemetry_reading where
  "sample_telemetry = \<lparr>tl_snapshot = Inr sample_snapshot, tl_accounted = Inr no_gpu_usage\<rparr>"

lemmas sample_broker_defs = sample_local_def sample_target_def sample_job_def sample_snapshot_def sample_broker_config_def
  sample_telemetry_def privacy_fully_local_def no_gpu_usage_def no_reservations_def

lemma sample_reads [simp]:
  "validate_job sample_job = Inr ()"
  "read_telemetry sample_telemetry = Inr (sample_snapshot, no_gpu_usage)"
  "telemetry_in_range sample_telemetry" "broker_config_ok sample_broker_config"
  by (simp_all add: validate_job_def read_telemetry_def read_snapshot_def bind_result_def validate_snapshot_def
      telemetry_in_range_def broker_config_ok_def sample_broker_defs is_blank_iff lit_def is_whitespace_def u64_max_def)

lemma sample_observe:
  "observe sample_broker_config sample_snapshot no_gpu_usage initial_broker_state = initial_broker_state\<lparr>bs_green_samples := 1\<rparr>"
  by (simp add: observe_def expire_transient_overages_def update_pressure_def set_pressure_def recover_degradation_def
      raise_pressure_floor_def utilization_def committed_vram_def committed_ram_def protected_gpu_vram_used_def
      protected_system_ram_used_def broker_reserved_gpu_usage_def ledger_resident_def fp_value_def sat_add_def
      initial_broker_state_def sample_broker_defs wrap_inc32_def)

text \<open>The state after the sample job was admitted on an idle broker.\<close>

definition sample_running :: broker_state where
  "sample_running = snd (submit sample_broker_config sample_telemetry sample_job initial_broker_state)"

lemma sample_select:
  "select_target sample_broker_config sample_snapshot (initial_broker_state\<lparr>bs_green_samples := 1\<rparr>) sample_job True
     = Some (sample_target, AdmittedPrimary)"
  by (simp add: select_target_def job_targets_def target_admissible_def bound_target_def allows_def
      is_target_quarantined_def target_fits_def effective_job_estimate_def residency_available_def vram_ceiling_def
      committed_vram_def committed_ram_def protected_gpu_vram_used_def u64_max_def
      protected_system_ram_used_def broker_reserved_gpu_usage_def ledger_resident_def sat_add_def
      initial_broker_state_def sample_broker_defs)

lemma sample_submit:
  "submit sample_broker_config sample_telemetry sample_job initial_broker_state =
     (let r = admit sample_broker_config sample_snapshot sample_job sample_target AdmittedPrimary
                (initial_broker_state\<lparr>bs_green_samples := 1\<rparr>) in (Inr (fst r), snd r))"
proof -
  let ?st = "initial_broker_state\<lparr>bs_green_samples := 1\<rparr>"
  have "supersede_queued sample_broker_config sample_snapshot sample_job ?st = ?st"
    by (simp add: supersede_queued_def sample_job_def)
  moreover have "\<not> job_id_in_use (rj_job_id sample_job) ?st"
    by (simp add: job_id_in_use_def initial_broker_state_def)
  moreover have "drop_before_admission sample_broker_config sample_snapshot sample_job ?st = None"
    by (simp add: drop_before_admission_def is_stale_def sample_job_def)
  ultimately have "submit_locked sample_broker_config sample_snapshot sample_job ?st
      = admit sample_broker_config sample_snapshot sample_job sample_target AdmittedPrimary ?st"
    using sample_select by (simp add: submit_locked_def Let_def)
  then show ?thesis by (simp add: submit_def sample_observe case_prod_unfold Let_def)
qed

lemma sample_running_reachable: "broker_reachable sample_broker_config sample_running"
  unfolding sample_running_def
  by (rule reach_step [OF reach_init op_submit]) (simp_all add: room_for_job_def initial_broker_state_def u32_max_def)

lemma sample_running_fields:
  "bs_reservations sample_running = \<lparr>rv_ram_bytes = 64, rv_vram_resident_bytes = 512, rv_vram_transient_bytes = 16,
     rv_gpu_leases = 1, rv_exclusive_gpu_job = Some (lit ''job''), rv_foreground_turn_job = Some (lit ''job'')\<rparr>"
  "bs_active sample_running = [(lit ''job'', \<lparr>ac_job = sample_job, ac_target = sample_target, ac_output_started = False,
     ac_cancelled_by_broker = False, ac_transient_deadline_ms = None\<rparr>)]"
  "bs_residency sample_running = []" "bs_queued sample_running = []" "bs_utterance_bindings sample_running = []"
  "bs_target_health sample_running = []"
  unfolding sample_running_def sample_submit Let_def snd_conv
  by (simp_all add: admit_def reserve_def effective_job_estimate_def registered_model_for_target_def
      make_admission_diagnostic_def projection_def vram_ceiling_def total_vram_def
      committed_vram_def committed_ram_def protected_gpu_vram_used_def wrap_inc32_def
      protected_system_ram_used_def broker_reserved_gpu_usage_def ledger_resident_def sat_add_def Let_def
      initial_broker_state_def sample_broker_defs u64_max_def)

section \<open>Admission\<close>

lemma submit_lease_cases:
  assumes "submit cfg tm job st = (Inr sub, st')" "sb_lease sub = Some l"
  obtains s a t oc where "read_telemetry tm = Inr (s, a)" "validate_job job = Inr ()"
    "\<not> job_id_in_use (rj_job_id job) st"
    "select_target cfg s (supersede_queued cfg s job (observe cfg s a st)) job True = Some (t, oc)"
    "(sub, st') = admit cfg s job t oc (supersede_queued cfg s job (observe cfg s a st))"
    "l = \<lparr>rl_job_id = rj_job_id job, rl_target_id = ct_target_id t\<rparr>"
proof -
  from assms(1) obtain s a where tm: "read_telemetry tm = Inr (s, a)" "validate_job job = Inr ()"
    and eq: "submit_locked cfg s job (observe cfg s a st) = (sub, st')"
    by (auto simp: submit_def case_prod_unfold Let_def split: sum.splits)
  show thesis
  proof (cases rule: submit_locked_cases [of job "observe cfg s a st" cfg s])
    case (admitted t oc)
    from admitted(4) eq have ad: "(sub, st') = admit cfg s job t oc (supersede_queued cfg s job (observe cfg s a st))"
      by simp
    then have "sub = fst (admit cfg s job t oc (supersede_queued cfg s job (observe cfg s a st)))"
      by (metis fst_conv)
    with assms(2) have "l = \<lparr>rl_job_id = rj_job_id job, rl_target_id = ct_target_id t\<rparr>" by simp
    moreover have "\<not> job_id_in_use (rj_job_id job) st"
      using admitted(1) by (auto simp: job_id_in_use_def)
    ultimately show ?thesis using that tm admitted(3) ad by blast
  next
    case (refused st0 oc r)
    with eq assms(2) show ?thesis by (metis fst_conv option.distinct(1) rejected_submission_simps(1))
  next
    case queued
    with eq assms(2) show ?thesis by (metis enqueue_simps(1) fst_conv option.distinct(1))
  qed
qed

lemma quarantined_cong:
  assumes "bs_target_health st' = bs_target_health st" "bs_residency st' = bs_residency st"
  shows "is_target_quarantined st' t n = is_target_quarantined st t n"
  by (simp only: is_target_quarantined_def assms)

lemma job_targets_cases:
  assumes "(t, oc) \<in> set (job_targets job)"
  shows "t = rj_primary job \<and> oc = AdmittedPrimary \<or> t \<in> set (rj_fallbacks job) \<and> oc = AdmittedFallback"
  using assms by (auto simp: job_targets_def)

text \<open>C4. Admission is safe. Whenever a submission returns a lease, the lease is for the job and one
  of its targets; the target's provider passes the job's privacy policy, also as a fallback from the
  primary; the target is not quarantined; and after the admission the RAM the host reports, the
  game's reserve and all reservations are within the RAM budget, while the VRAM total exceeds the
  ceiling by at most the transient allowance, and only for a job whose transient use is declared
  to last no longer than the grace period.\<close>

theorem admission_safe:
  assumes reach: "broker_reachable cfg st" and sub: "submit cfg tm job st = (Inr sub, st')" and l: "sb_lease sub = Some l"
  shows "\<exists>s a t. read_telemetry tm = Inr (s, a) \<and> t \<in> set (rj_primary job # rj_fallbacks job)
    \<and> l = \<lparr>rl_job_id = rj_job_id job, rl_target_id = ct_target_id t\<rparr>
    \<and> allows (rj_privacy job) (ct_provider t)
    \<and> (t \<noteq> rj_primary job \<longrightarrow> allows_fallback (rj_privacy job) (ct_provider (rj_primary job)) (ct_provider t))
    \<and> \<not> is_target_quarantined st (ct_target_id t) (sn_monotonic_ms s)
    \<and> committed_ram s st' \<le> sn_system_ram_budget_bytes s
    \<and> committed_vram s st' \<le> vram_ceiling cfg s + bc_transient_vram_allowance_bytes cfg
    \<and> (committed_vram s st' > vram_ceiling cfg s \<longrightarrow>
         0 < es_transient_duration_ms (ct_estimate t)
         \<and> es_transient_duration_ms (ct_estimate t) \<le> bc_transient_vram_grace_ms cfg)"
proof -
  from sub l obtain s a t oc where tm: "read_telemetry tm = Inr (s, a)"
    and sel: "select_target cfg s (supersede_queued cfg s job (observe cfg s a st)) job True = Some (t, oc)"
    and ad: "(sub, st') = admit cfg s job t oc (supersede_queued cfg s job (observe cfg s a st))"
    and lease: "l = \<lparr>rl_job_id = rj_job_id job, rl_target_id = ct_target_id t\<rparr>"
    by (rule submit_lease_cases)
  define st1 where "st1 = supersede_queued cfg s job (observe cfg s a st)"
  note adm = target_admissibleD [OF select_target_SomeD(2) [OF sel [folded st1_def]]]
  obtain e where e: "effective_job_estimate st1 t = Some e" using target_fits_estimate [OF adm(6)] by blast
  have inv: "residency_inv (bs_residency st1)" using residency_inv_reachable [OF reach] by (simp add: st1_def)
  have st': "bs_reservations st' = bs_reservations (reserve job t st1)" "bs_residency st' = bs_residency (reserve job t st1)"
    "bs_telemetry_accounted st' = bs_telemetry_accounted (reserve job t st1)"
    using ad [folded st1_def] by (simp_all add: admit_def Let_def)
  note acct = accounting_cong(1,2) [OF st'] reserve_committed [OF inv e] target_fits_bounds [OF adm(6) e]
  have ram: "committed_ram s st' \<le> sn_system_ram_budget_bytes s"
    using acct by simp
  have vram: "committed_vram s st' \<le> sat_add (committed_vram s st1) (total_vram e)"
    using acct by simp
  have dur: "es_transient_duration_ms e = es_transient_duration_ms (ct_estimate t)"
    using e by (auto simp: effective_job_estimate_def split: option.splits if_splits)
  have quar: "\<not> is_target_quarantined st (ct_target_id t) (sn_monotonic_ms s)"
    using adm(5) quarantined_cong [of st1 st] by (simp add: st1_def)
  have mem: "t = rj_primary job \<and> oc = AdmittedPrimary \<or> t \<in> set (rj_fallbacks job) \<and> oc = AdmittedFallback"
    using job_targets_cases select_target_SomeD(1) [OF sel] by blast
  have priv: "allows (rj_privacy job) (ct_provider t)"
    "t \<noteq> rj_primary job \<longrightarrow> allows_fallback (rj_privacy job) (ct_provider (rj_primary job)) (ct_provider t)"
    using mem adm(3,4) by (auto simp: allows_fallback_def)
  have over: "committed_vram s st' \<le> vram_ceiling cfg s + bc_transient_vram_allowance_bytes cfg"
    "committed_vram s st' > vram_ceiling cfg s \<longrightarrow> 0 < es_transient_duration_ms (ct_estimate t)
         \<and> es_transient_duration_ms (ct_estimate t) \<le> bc_transient_vram_grace_ms cfg"
    using vram acct(7,8) dur by auto
  have "t \<in> set (rj_primary job # rj_fallbacks job)" using mem by auto
  with tm lease priv quar ram over show ?thesis by blast
qed

theorem admission_safe_witness:
  "sb_lease (fst (admit sample_broker_config sample_snapshot sample_job sample_target AdmittedPrimary
      (initial_broker_state\<lparr>bs_green_samples := 1\<rparr>))) \<noteq> None
   \<and> (\<exists>s. committed_ram s sample_running \<le> sn_system_ram_budget_bytes s)"
proof -
  let ?r = "admit sample_broker_config sample_snapshot sample_job sample_target AdmittedPrimary
      (initial_broker_state\<lparr>bs_green_samples := 1\<rparr>)"
  have "submit sample_broker_config sample_telemetry sample_job initial_broker_state = (Inr (fst ?r), sample_running)"
    by (simp add: sample_running_def sample_submit Let_def)
  from admission_safe [OF reach_init this] show ?thesis by auto
qed


text \<open>A refusal costs nothing. A submission that fails or returns no lease leaves the
  reservations, the running jobs and the residency ledger as they were and is never reported as
  admitted; an error (invalid job, failed or invalid telemetry) leaves the whole broker state
  unchanged, and it happens exactly when the job or the telemetry is invalid.\<close>

theorem refusal_keeps_ledger:
  assumes "submit cfg tm job st = (r, st')" "\<And>sub. r = Inr sub \<Longrightarrow> sb_lease sub = None"
  shows "bs_reservations st' = bs_reservations st \<and> holders st' = holders st \<and> bs_residency st' = bs_residency st
    \<and> (case r of Inl e \<Rightarrow> st' = st \<and> (validate_job job = Inl e \<or> read_telemetry tm = Inl e)
         | Inr sub \<Rightarrow> ad_outcome (sb_diagnostic sub) \<notin> {AdmittedPrimary, AdmittedFallback})"
proof (cases r)
  case (Inl e)
  with assms(1) show ?thesis by (auto simp: submit_def case_prod_unfold Let_def split: sum.splits)
next
  case (Inr sub)
  with assms(1) obtain s a where eq: "submit_locked cfg s job (observe cfg s a st) = (sub, st')"
    by (auto simp: submit_def case_prod_unfold Let_def split: sum.splits)
  let ?st = "observe cfg s a st"
  show ?thesis
  proof (cases rule: submit_locked_cases [of job ?st cfg s])
    case (admitted t oc)
    with eq have "sub = fst (admit cfg s job t oc (supersede_queued cfg s job ?st))" by (metis fst_conv)
    with assms(2) Inr show ?thesis by simp
  next
    case (refused st0 oc rs)
    then have keep: "bs_reservations st0 = bs_reservations st" "bs_residency st0 = bs_residency st" "holders st0 = holders st"
      using holders_cong [of "supersede_queued cfg s job ?st" ?st] by auto
    have "sub = fst (rejected_submission cfg s job oc rs st0)" "st' = snd (rejected_submission cfg s job oc rs st0)"
      using refused(3) eq by (metis fst_conv, metis snd_conv)
    then show ?thesis
      using keep refused(2) Inr holders_cong [of st' st0] by simp
  next
    case queued
    have "sub = fst (enqueue cfg s job (supersede_queued cfg s job ?st))"
      "st' = snd (enqueue cfg s job (supersede_queued cfg s job ?st))"
      using queued(4) eq by (metis fst_conv, metis snd_conv)
    then show ?thesis using Inr holders_cong [of st' ?st] by simp
  qed
qed

theorem refusal_keeps_ledger_witness:
  "(\<exists>sub. fst (submit sample_broker_config sample_telemetry sample_job sample_running) = Inr sub \<and> sb_lease sub = None)
   \<and> bs_reservations (snd (submit sample_broker_config sample_telemetry sample_job sample_running)) = bs_reservations sample_running"
proof -
  let ?r = "submit sample_broker_config sample_telemetry sample_job sample_running"
  have used: "job_id_in_use (rj_job_id sample_job) (observe sample_broker_config sample_snapshot no_gpu_usage sample_running)"
  proof -
    have "hm_get (bs_active sample_running) (rj_job_id sample_job) \<noteq> None"
      by (simp add: sample_running_fields sample_job_def)
    then show ?thesis by (simp add: job_id_in_use_def)
  qed
  have "\<exists>st. ?r = (Inr (fst (rejected_submission sample_broker_config sample_snapshot sample_job RejectedDuplicate
          (lit ''job ID is already active or queued'') (observe sample_broker_config sample_snapshot no_gpu_usage sample_running))), st)"
    using used by (simp add: submit_def submit_locked_def case_prod_unfold Let_def)
  then obtain sub st where "?r = (Inr sub, st)" "sb_lease sub = None" by fastforce
  then show ?thesis using refusal_keeps_ledger [of sample_broker_config sample_telemetry sample_job sample_running "Inr sub" st]
    by simp
qed

text \<open>Privacy is decided before capacity. A job none of whose targets its privacy policy allows is
  neither admitted nor queued, whatever the memory situation: it gets no lease and no queue entry.\<close>

theorem private_job_never_waits:
  assumes "\<And>t. t \<in> set (rj_primary job # rj_fallbacks job) \<Longrightarrow> \<not> allows (rj_privacy job) (ct_provider t)"
    and "submit cfg tm job st = (Inr sub, st')"
  shows "sb_lease sub = None \<and> set (bs_queued st') \<subseteq> set (bs_queued st)
    \<and> ad_outcome (sb_diagnostic sub) \<notin> {AdmittedPrimary, AdmittedFallback, QueuedOutcome}"
proof -
  from assms(2) obtain s a where eq: "submit_locked cfg s job (observe cfg s a st) = (sub, st')"
    by (auto simp: submit_def case_prod_unfold Let_def split: sum.splits)
  let ?st = "observe cfg s a st"
  let ?su = "supersede_queued cfg s job ?st"
  have none: "privacy_allowed_targets job = []"
    using assms(1) by (auto simp: privacy_allowed_targets_def allows_fallback_def filter_empty_conv)
  show ?thesis
  proof (cases rule: submit_locked_cases [of job ?st cfg s])
    case (admitted t oc)
    from job_targets_cases [OF select_target_SomeD(1) [OF admitted(3)]] target_admissibleD(3,4) [OF select_target_SomeD(2) [OF admitted(3)]]
    have "t \<in> set (rj_primary job # rj_fallbacks job) \<and> allows (rj_privacy job) (ct_provider t)"
      by (auto simp: allows_fallback_def)
    with assms(1) show ?thesis by blast
  next
    case (refused st0 oc rs)
    have "sub = fst (rejected_submission cfg s job oc rs st0)" "st' = snd (rejected_submission cfg s job oc rs st0)"
      using refused(3) eq by (metis fst_conv, metis snd_conv)
    moreover have "set (bs_queued st0) \<subseteq> set (bs_queued st)"
      using refused(1) supersede_queue_subset [of cfg s job ?st] by auto
    ultimately show ?thesis using refused(2) by simp
  next
    case queued
    have "submit_locked cfg s job ?st = submit_unplaced cfg s job ?su"
      using queued(1-3) by (simp add: submit_locked_def Let_def)
    also have "\<dots> = rejected_submission cfg s job RejectedPrivacy
        (lit ''no target is authorized by the job privacy policy'') ?su"
      by (simp add: submit_unplaced_def terminal_rejection_def none)
    finally have "sub = fst (rejected_submission cfg s job RejectedPrivacy
        (lit ''no target is authorized by the job privacy policy'') ?su)"
      "st' = snd (rejected_submission cfg s job RejectedPrivacy
        (lit ''no target is authorized by the job privacy policy'') ?su)"
      using eq by (metis fst_conv, metis snd_conv)
    then show ?thesis using supersede_queue_subset [of cfg s job ?st] by simp
  qed
qed


definition sample_private_job :: resource_job where
  "sample_private_job = sample_job\<lparr>rj_primary := sample_target\<lparr>ct_provider := sample_cloud\<rparr>\<rparr>"

theorem private_job_never_waits_witness:
  "\<exists>sub. fst (submit sample_broker_config sample_telemetry sample_private_job initial_broker_state) = Inr sub
     \<and> sb_lease sub = None
     \<and> ad_outcome (sb_diagnostic sub) \<notin> {AdmittedPrimary, AdmittedFallback, QueuedOutcome}"
proof -
  let ?r = "submit sample_broker_config sample_telemetry sample_private_job initial_broker_state"
  have "validate_job sample_private_job = Inr ()"
    by (simp add: validate_job_def sample_private_job_def sample_broker_defs is_blank_iff lit_def is_whitespace_def)
  then obtain sub st' where eq: "?r = (Inr sub, st')"
    by (simp add: submit_def case_prod_unfold Let_def)
  have "\<not> allows (rj_privacy sample_private_job) (ct_provider t)"
    if "t \<in> set (rj_primary sample_private_job # rj_fallbacks sample_private_job)" for t
    using that by (auto simp: sample_private_job_def sample_broker_defs sample_cloud_def allows_def)
  from private_job_never_waits [OF this eq] eq show ?thesis by simp
qed

section \<open>The running jobs\<close>

text \<open>C7. In every reachable state the ledger is exact: the reserved RAM is the sum of the RAM
  estimates of the running jobs and the lease counter is the number of running GPU jobs; a job that
  holds the GPU exclusively is the only GPU job; at most one foreground job runs, and the foreground
  and exclusive slots name exactly these jobs.\<close>

theorem running_jobs_exact:
  assumes "broker_reachable cfg st"
  shows "rv_ram_bytes (bs_reservations st) = (\<Sum>(k, j, t)\<leftarrow>holders st. es_ram_bytes (ct_estimate t))
    \<and> rv_gpu_leases (bs_reservations st) = length (filter (\<lambda>(k, j, t). ct_gpu_residency t \<noteq> GpuNone) (holders st))
    \<and> (\<forall>k j t k' j' t'. hm_get (holders st) k = Some (j, t) \<and> hm_get (holders st) k' = Some (j', t')
         \<and> ct_gpu_residency t = GpuExclusive \<and> ct_gpu_residency t' \<noteq> GpuNone \<longrightarrow> k = k')
    \<and> (\<forall>k j t k' j' t'. hm_get (holders st) k = Some (j, t) \<and> hm_get (holders st) k' = Some (j', t')
         \<and> holds_foreground_turn_slot (rj_kind j) \<and> holds_foreground_turn_slot (rj_kind j') \<longrightarrow> k = k')
    \<and> (\<forall>k. rv_foreground_turn_job (bs_reservations st) = Some k
          \<longleftrightarrow> (\<exists>j t. hm_get (holders st) k = Some (j, t) \<and> holds_foreground_turn_slot (rj_kind j)))
    \<and> (\<forall>k. rv_exclusive_gpu_job (bs_reservations st) = Some k
          \<longleftrightarrow> (\<exists>j t. hm_get (holders st) k = Some (j, t) \<and> ct_gpu_residency t = GpuExclusive))"
proof -
  let ?r = "bs_reservations st" and ?h = "holders st"
  from lease_inv_reachable [OF assms] have slots: "slots_inv ?r ?h" and wf: "hm_wf ?h"
    by (simp_all add: lease_inv_def ledger_inv_def ids_inv_def)
  note slots = slots [unfolded slots_inv_def]
  have sums: "hm_sum ram_of hs = (\<Sum>(k, j, t)\<leftarrow>hs. es_ram_bytes (ct_estimate t))"
    "hm_sum uses_gpu hs = length (filter (\<lambda>(k, j, t). ct_gpu_residency t \<noteq> GpuNone) hs)" for hs :: "(rstr, resource_job \<times> compute_target) hmap"
    by (induction hs) auto
  have excl: "k = k'" if k: "hm_get ?h k = Some (j, t)" "hm_get ?h k' = Some (j', t')"
    "ct_gpu_residency t = GpuExclusive" "ct_gpu_residency t' \<noteq> GpuNone" for k j t k' j' t'
  proof (rule ccontr)
    assume ne: "k \<noteq> k'"
    have "rv_exclusive_gpu_job ?r = Some k" using slots k(1,3) by blast
    with slots have one: "hm_sum uses_gpu ?h = 1" by simp
    have "hm_get (hm_remove k ?h) k' = Some (j', t')" using ne k(2) by simp
    from hm_sum_ge [OF this, of uses_gpu] k(4) hm_sum_remove [OF wf k(1), of uses_gpu] k(3) one
    show False by simp
  qed
  have fg: "k = k'" if "hm_get ?h k = Some (j, t)" "hm_get ?h k' = Some (j', t')"
    "holds_foreground_turn_slot (rj_kind j)" "holds_foreground_turn_slot (rj_kind j')" for k j t k' j' t'
  proof -
    have "rv_foreground_turn_job ?r = Some k" "rv_foreground_turn_job ?r = Some k'" using slots that by blast+
    then show ?thesis by simp
  qed
  from slots sums have "rv_ram_bytes ?r = (\<Sum>(k, j, t)\<leftarrow>?h. es_ram_bytes (ct_estimate t))"
    "rv_gpu_leases ?r = length (filter (\<lambda>(k, j, t). ct_gpu_residency t \<noteq> GpuNone) ?h)" by metis+
  with excl fg slots show ?thesis by blast
qed

theorem running_jobs_exact_witness:
  "broker_reachable sample_broker_config sample_running \<and> bs_active sample_running \<noteq> []
   \<and> rv_ram_bytes (bs_reservations sample_running) = (\<Sum>(k, j, t)\<leftarrow>holders sample_running. es_ram_bytes (ct_estimate t))"
  using running_jobs_exact [OF sample_running_reachable] sample_running_reachable by (simp add: sample_running_fields)

text \<open>Leases do not leak. When no job is running, no RAM is reserved, no GPU lease is counted and
  neither the exclusive GPU slot nor the foreground slot is taken.\<close>

theorem idle_broker_is_free:
  assumes "broker_reachable cfg st" "bs_active st = []"
  shows "rv_ram_bytes (bs_reservations st) = 0 \<and> rv_gpu_leases (bs_reservations st) = 0
    \<and> rv_exclusive_gpu_job (bs_reservations st) = None \<and> rv_foreground_turn_job (bs_reservations st) = None"
proof -
  have "holders st = []" using assms(2) by (simp add: holders_def)
  with lease_inv_reachable [OF assms(1)] have "slots_inv (bs_reservations st) []"
    by (simp add: lease_inv_def ledger_inv_def)
  then show ?thesis unfolding slots_inv_def by (auto intro: option.exhaust)
qed

theorem idle_broker_is_free_witness:
  "broker_reachable sample_broker_config (lease_drop sample_broker_config sample_telemetry \<lparr>rl_job_id = lit ''job'', rl_target_id = lit ''gpu0''\<rparr> sample_running)
   \<and> rv_exclusive_gpu_job (bs_reservations (lease_drop sample_broker_config sample_telemetry
        \<lparr>rl_job_id = lit ''job'', rl_target_id = lit ''gpu0''\<rparr> sample_running)) = None"
proof -
  let ?st = "lease_drop sample_broker_config sample_telemetry \<lparr>rl_job_id = lit ''job'', rl_target_id = lit ''gpu0''\<rparr> sample_running"
  have r: "broker_reachable sample_broker_config ?st"
    unfolding lease_drop_def by (rule reach_step [OF sample_running_reachable op_finish])
  have "bs_active ?st = []"
    by (simp add: lease_drop_def finish_lease_def sample_running_fields Let_def)
  from idle_broker_is_free [OF r this] r show ?thesis by simp
qed

section \<open>The queue\<close>

text \<open>The comparator is the lexicographic order of a key, so the sort is the library's stable sort.\<close>

definition queue_key :: "queued_record \<Rightarrow> nat \<times> nat \<times> nat" where
  "queue_key q = (3 - priority_rank (rj_priority (qr_job q)), deadline_key (qr_job q), qr_sequence q)"

lemma priority_rank_bound: "priority_rank p \<le> 3"
  by (cases p) simp_all

lemma priority_rank_less_iff: "p < p' \<longleftrightarrow> 3 - priority_rank p' < 3 - priority_rank p"
  using priority_rank_bound [of p] priority_rank_bound [of p'] by (auto simp: less_job_priority_def)

lemma priority_rank_inj: "priority_rank p = priority_rank p' \<longleftrightarrow> p = p'"
  by (cases p; cases p') simp_all

lemma queue_order_key: "queue_order l r = OGreater \<longleftrightarrow> \<not> queue_key l \<le> queue_key r"
proof -
  have eq: "rj_priority (qr_job r) = rj_priority (qr_job l) \<longleftrightarrow>
      3 - priority_rank (rj_priority (qr_job r)) = 3 - priority_rank (rj_priority (qr_job l))"
    using priority_rank_bound [of "rj_priority (qr_job r)"] priority_rank_bound [of "rj_priority (qr_job l)"]
      priority_rank_inj [of "rj_priority (qr_job r)" "rj_priority (qr_job l)"] by linarith
  show ?thesis
    unfolding queue_order_def ord_cmp_def queue_key_def less_eq_prod_def
    by (auto simp: priority_rank_less_iff eq)
qed

lemma sort_by_queue_order: "sort_by queue_order xs = sort_key queue_key xs"
proof -
  have "insert_by queue_order x ys = insort_key queue_key x ys" for x ys
    by (induction ys) (auto simp: queue_order_key)
  then have "insert_by queue_order = insort_key queue_key" by (intro ext)
  then show ?thesis by (simp add: sort_by_def sort_key_def)
qed

definition queue_drops :: "broker_config \<Rightarrow> nat \<Rightarrow> queued_record \<Rightarrow> bool" where
  "queue_drops cfg now q \<longleftrightarrow>
     is_late (qr_job q) now \<and> rj_drop_policy (qr_job q) = DropIfLate \<or> is_stale cfg (qr_job q) now"

lemma poll_queue_partition:
  "\<exists>granted dropped kept.
     bs_queued (snd (poll_queue cfg s qs st)) = bs_queued st @ kept
     \<and> map rl_job_id (fst (poll_queue cfg s qs st)) = map (\<lambda>x. rj_job_id (qr_job x)) granted
     \<and> subseq granted qs \<and> subseq kept qs
     \<and> mset qs = mset granted + mset kept + mset dropped
     \<and> (\<forall>x\<in>set dropped. queue_drops cfg (sn_monotonic_ms s) x)"
proof (induction qs arbitrary: st)
  case (Cons q qs)
  show ?case
  proof (cases "queue_drops cfg (sn_monotonic_ms s) q")
    case True
    then obtain d where eq: "poll_queue cfg s (q # qs) st = poll_queue cfg s qs (push_admission cfg d st)"
      by (cases "is_late (qr_job q) (sn_monotonic_ms s) \<and> rj_drop_policy (qr_job q) = DropIfLate")
        (auto simp: queue_drops_def)
    from Cons.IH [of "push_admission cfg d st"] obtain g dr k where
      "bs_queued (snd (poll_queue cfg s qs (push_admission cfg d st))) = bs_queued st @ k"
      "map rl_job_id (fst (poll_queue cfg s qs (push_admission cfg d st))) = map (\<lambda>x. rj_job_id (qr_job x)) g"
      "subseq g qs" "subseq k qs" "mset qs = mset g + mset k + mset dr" "\<forall>x\<in>set dr. queue_drops cfg (sn_monotonic_ms s) x"
      by auto
    with True eq show ?thesis by (intro exI [of _ g] exI [of _ "q # dr"] exI [of _ k]) auto
  next
    case False
    show ?thesis
    proof (cases "select_target cfg s st (qr_job q) True")
      case None
      with False have eq: "poll_queue cfg s (q # qs) st = poll_queue cfg s qs (st\<lparr>bs_queued := bs_queued st @ [q]\<rparr>)"
        by (auto simp: queue_drops_def)
      from Cons.IH [of "st\<lparr>bs_queued := bs_queued st @ [q]\<rparr>"] obtain g dr k where
        "bs_queued (snd (poll_queue cfg s (q # qs) st)) = bs_queued st @ q # k"
        "map rl_job_id (fst (poll_queue cfg s (q # qs) st)) = map (\<lambda>x. rj_job_id (qr_job x)) g"
        "subseq g qs" "subseq k qs" "mset qs = mset g + mset k + mset dr" "\<forall>x\<in>set dr. queue_drops cfg (sn_monotonic_ms s) x"
        unfolding eq by auto
      then show ?thesis by (intro exI [of _ g] exI [of _ dr] exI [of _ "q # k"]) auto
    next
      case (Some x)
      obtain t oc where x: "x = (t, oc)" by (cases x)
      let ?st = "snd (admit cfg s (qr_job q) t oc st)"
      from False Some x have eq: "poll_queue cfg s (q # qs) st
          = (\<lparr>rl_job_id = rj_job_id (qr_job q), rl_target_id = ct_target_id t\<rparr> # fst (poll_queue cfg s qs ?st),
             snd (poll_queue cfg s qs ?st))"
        by (auto simp: queue_drops_def case_prod_unfold Let_def)
      from Cons.IH [of ?st] obtain g dr k where
        "bs_queued (snd (poll_queue cfg s qs ?st)) = bs_queued st @ k"
        "map rl_job_id (fst (poll_queue cfg s qs ?st)) = map (\<lambda>x. rj_job_id (qr_job x)) g"
        "subseq g qs" "subseq k qs" "mset qs = mset g + mset k + mset dr" "\<forall>x\<in>set dr. queue_drops cfg (sn_monotonic_ms s) x"
        by auto
      then show ?thesis unfolding eq by (intro exI [of _ "q # g"] exI [of _ dr] exI [of _ k]) auto
    qed
  qed
qed simp

lemma subseq_sorted_wrt: "subseq xs ys \<Longrightarrow> sorted_wrt R ys \<Longrightarrow> sorted_wrt R xs"
proof (induction rule: list_emb.induct)
  case (list_emb_Cons2 x y xs ys)
  then show ?case by (auto dest: list_emb_set)
qed auto

text \<open>No queued job is lost or duplicated by a poll, and service follows priority, then deadline,
  then submission order: the jobs that were waiting are those granted a lease, those still waiting
  and those dropped; a job is dropped only if it is late under a drop-if-late policy or a stale
  frame; and the granted leases and the remaining queue are each in queue order.\<close>

theorem poll_ready_fair:
  assumes "poll_ready cfg tm st = (Inr leases, st')"
  shows "\<exists>s a granted dropped. read_telemetry tm = Inr (s, a)
    \<and> map rl_job_id leases = map (\<lambda>x. rj_job_id (qr_job x)) granted
    \<and> mset (bs_queued st) = mset granted + mset (bs_queued st') + mset dropped
    \<and> (\<forall>x\<in>set dropped. is_late (qr_job x) (sn_monotonic_ms s) \<and> rj_drop_policy (qr_job x) = DropIfLate
          \<or> is_stale cfg (qr_job x) (sn_monotonic_ms s))
    \<and> sorted_wrt (\<lambda>l r. queue_order l r \<noteq> OGreater) granted
    \<and> sorted_wrt (\<lambda>l r. queue_order l r \<noteq> OGreater) (bs_queued st')"
proof -
  from assms obtain s a where tm: "read_telemetry tm = Inr (s, a)"
    by (auto simp: poll_ready_def split: sum.splits)
  let ?q = "sort_key queue_key (bs_queued st)"
  let ?p = "poll_queue cfg s ?q (observe cfg s a st\<lparr>bs_queued := []\<rparr>)"
  from assms tm have eq: "leases = fst ?p" "st' = snd ?p"
    by (auto simp: poll_ready_def Let_def case_prod_unfold sort_by_queue_order)
  from poll_queue_partition [of cfg s ?q "observe cfg s a st\<lparr>bs_queued := []\<rparr>"] obtain g dr k where p:
    "bs_queued st' = k" "map rl_job_id leases = map (\<lambda>x. rj_job_id (qr_job x)) g" "subseq g ?q" "subseq k ?q"
    "mset (bs_queued st) = mset g + mset k + mset dr" "\<forall>x\<in>set dr. queue_drops cfg (sn_monotonic_ms s) x"
    unfolding eq by auto
  have "sorted_wrt (\<lambda>l r. queue_order l r \<noteq> OGreater) xs" if "subseq xs ?q" for xs
    using subseq_sorted_wrt [OF that] sorted_sort_key [of queue_key "bs_queued st"]
    by (simp add: queue_order_key sorted_map)
  with p tm show ?thesis unfolding queue_drops_def by blast
qed


definition sample_waiting :: broker_state where
  "sample_waiting = initial_broker_state\<lparr>bs_queued := [\<lparr>qr_sequence = 1, qr_job = sample_job\<rparr>]\<rparr>"

theorem poll_ready_fair_witness:
  "\<exists>leases st' granted dropped. poll_ready sample_broker_config sample_telemetry sample_waiting = (Inr leases, st')
     \<and> {#\<lparr>qr_sequence = 1, qr_job = sample_job\<rparr>#} = mset granted + mset (bs_queued st') + mset dropped
     \<and> map rl_job_id leases = map (\<lambda>x. rj_job_id (qr_job x)) granted"
proof -
  obtain leases st' where eq: "poll_ready sample_broker_config sample_telemetry sample_waiting = (Inr leases, st')"
    by (simp add: poll_ready_def case_prod_unfold Let_def)
  from poll_ready_fair [OF this] show ?thesis
    using eq by (auto simp: sample_waiting_def)
qed

section \<open>Pressure\<close>

text \<open>Pressure follows utilization with hysteresis. A red reading reaches the red level at once
  from every level; recovery goes down one level at a time; a higher reading never gives a lower
  level; inside the two dead bands the level does not move; and a constant reading settles after two
  samples, so a steady load cannot make the level oscillate.\<close>

theorem pressure_hysteresis:
  assumes "broker_config_ok cfg"
  shows "(bc_red_enter_ratio cfg \<le> u \<longrightarrow> next_pressure cfg u p = Red)
    \<and> (p = Red \<longrightarrow> next_pressure cfg u p \<noteq> Green)
    \<and> (u \<le> u' \<longrightarrow> pressure_floor (next_pressure cfg u p) \<le> pressure_floor (next_pressure cfg u' p))
    \<and> (bc_green_reenter_ratio cfg < u \<and> u < bc_amber_enter_ratio cfg \<and> p \<noteq> Red \<longrightarrow> next_pressure cfg u p = p)
    \<and> (bc_amber_reenter_ratio cfg < u \<and> u < bc_red_enter_ratio cfg \<and> p \<noteq> Green \<longrightarrow> next_pressure cfg u p = p)
    \<and> next_pressure cfg u (next_pressure cfg u (next_pressure cfg u p)) = next_pressure cfg u (next_pressure cfg u p)"
proof -
  from assms have o: "bc_green_reenter_ratio cfg < bc_amber_enter_ratio cfg"
    "bc_amber_enter_ratio cfg < bc_amber_reenter_ratio cfg" "bc_amber_reenter_ratio cfg < bc_red_enter_ratio cfg"
    by (simp_all add: broker_config_ok_def)
  show ?thesis by (intro conjI impI; cases p) (use o in auto)
qed

theorem pressure_hysteresis_witness:
  "next_pressure sample_broker_config (9 / 10) Red = Red \<and> next_pressure sample_broker_config (9 / 10) Green = Amber
   \<and> next_pressure sample_broker_config (9 / 10) (next_pressure sample_broker_config (9 / 10) (next_pressure sample_broker_config (9 / 10) Green))
       = next_pressure sample_broker_config (9 / 10) (next_pressure sample_broker_config (9 / 10) Green)"
  using pressure_hysteresis [of sample_broker_config "9 / 10" Green "9 / 10"] by (simp add: sample_broker_config_def)

text \<open>In every reachable state the degradation ladder stays within its seven rungs, so slicing
  \<open>DEGRADATION_ORDER\<close> cannot panic; the rungs the pressure level demands are active; and the
  diagnostic log never exceeds its capacity.\<close>

theorem degradation_and_log_bounded:
  assumes "broker_reachable cfg st"
  shows "bs_degradation_count st \<le> 7 \<and> length (active_degradations st) = bs_degradation_count st
    \<and> (bs_pressure st \<noteq> Green \<longrightarrow> ReduceContinuousVision \<in> set (active_degradations st))
    \<and> (bs_pressure st = Red \<longrightarrow> DisableScreenSpaceLipSync \<in> set (active_degradations st))
    \<and> length (bs_diagnostics st) \<le> bc_diagnostic_capacity cfg"
proof -
  from bounds_inv_reachable [OF assms] have b: "pressure_floor (bs_pressure st) \<le> bs_degradation_count st"
    "bs_degradation_count st \<le> 7" "length (bs_diagnostics st) \<le> bc_diagnostic_capacity cfg"
    by (simp_all add: bounds_inv_def DEGRADATION_ORDER_def)
  have len: "length (active_degradations st) = bs_degradation_count st"
    using b(2) by (simp add: active_degradations_def DEGRADATION_ORDER_def)
  have "ReduceContinuousVision \<in> set (active_degradations st)" if "1 \<le> bs_degradation_count st"
    using that by (cases "bs_degradation_count st") (simp_all add: active_degradations_def DEGRADATION_ORDER_def)
  moreover have "DisableScreenSpaceLipSync \<in> set (active_degradations st)" if "2 \<le> bs_degradation_count st"
  proof -
    define n where "n = bs_degradation_count st - 2"
    with that have "bs_degradation_count st = Suc (Suc n)" by linarith
    then show ?thesis by (simp add: active_degradations_def DEGRADATION_ORDER_def)
  qed
  moreover have "bs_pressure st \<noteq> Green \<Longrightarrow> 1 \<le> bs_degradation_count st" "bs_pressure st = Red \<Longrightarrow> 2 \<le> bs_degradation_count st"
    using b(1) by (cases "bs_pressure st"; simp)+
  ultimately show ?thesis using b len by blast
qed

theorem degradation_and_log_bounded_witness:
  "broker_reachable sample_broker_config sample_running \<and> length (bs_diagnostics sample_running) \<le> 16"
  using degradation_and_log_bounded [OF sample_running_reachable] sample_running_reachable
  by (simp add: sample_broker_config_def)

section \<open>Lease completion\<close>

text \<open>Completing a lease is idempotent: after \<open>complete\<close>, \<open>complete_unmeasured\<close> or the drop of a
  lease, another completion for the same job changes nothing, whatever status it reports.\<close>

theorem finish_lease_idempotent:
  "finish_lease cfg tm' job_id actual' measured' status' (finish_lease cfg tm job_id actual measured status st)
     = finish_lease cfg tm job_id actual measured status st"
  by (simp add: finish_lease_def Let_def split: option.split)

lemma registered_cong:
  "bs_residency st' = bs_residency st \<Longrightarrow> registered_model_for_target st' t = registered_model_for_target st t"
  by (simp only: registered_model_for_target_def)

lemma release_reserve_registered:
  assumes inv: "residency_inv (bs_residency st)" and e: "effective_job_estimate st t = Some e"
    and st': "bs_residency st' = bs_residency (reserve job t st)"
  shows "release_estimate st' t = e"
proof (cases "registered_model_for_target st t")
  case None
  then have "bs_residency st' = bs_residency st" using st' by (simp add: reserve_def Let_def)
  then have "registered_model_for_target st' t = None" using None registered_cong [of st' st t] by simp
  then show ?thesis using effective_registered(1) [OF e None] by (simp add: release_estimate_def)
next
  case (Some m)
  from registered_model_lookup [OF Some] obtain i where i: "ct_model_id t = Some i" "hm_get (bs_residency st) i = Some m"
    and spec: "ms_target_id (mr_spec m) = ct_target_id t" "ms_gpu_residency (mr_spec m) = ct_gpu_residency t" by blast
  have "ms_model_id (mr_spec m) = i" using inv i(2) by (simp add: residency_inv_def record_ok_def)
  with Some st' i(1) spec have "registered_model_for_target st' t
      = Some (m\<lparr>mr_active_jobs := sat_add32 (mr_active_jobs m) 1, mr_state := InFlight\<rparr>)"
    by (simp add: reserve_def Let_def registered_model_for_target_def)
  then show ?thesis
    using effective_registered(2) [OF e Some] Some by (simp add: release_estimate_def)
qed


lemma sat_add_diff_exact: "sat_add a b < u64_max \<Longrightarrow> sat_add a b - b = a"
  by (auto simp: sat_add_def)

lemma reserve_reservations:
  assumes "effective_job_estimate st t = Some e"
  shows "bs_reservations (reserve job t st) =
    \<lparr>rv_ram_bytes = sat_add (rv_ram_bytes (bs_reservations st)) (es_ram_bytes e),
     rv_vram_resident_bytes = sat_add (rv_vram_resident_bytes (bs_reservations st)) (es_vram_resident_bytes e),
     rv_vram_transient_bytes = sat_add (rv_vram_transient_bytes (bs_reservations st)) (es_vram_transient_bytes e),
     rv_gpu_leases = (if ct_gpu_residency t \<noteq> GpuNone then wrap_inc32 (rv_gpu_leases (bs_reservations st))
                      else rv_gpu_leases (bs_reservations st)),
     rv_exclusive_gpu_job = (if ct_gpu_residency t = GpuExclusive then Some (rj_job_id job)
                             else rv_exclusive_gpu_job (bs_reservations st)),
     rv_foreground_turn_job = (if holds_foreground_turn_slot (rj_kind job) then Some (rj_job_id job)
                               else rv_foreground_turn_job (bs_reservations st))\<rparr>"
  using assms by (simp add: reserve_def Let_def)

text \<open>A lease gives back exactly what it took. If a submission on a reachable state returns a lease,
  ending that lease, with whatever status, restores the reservations and the set of running jobs to
  those before the submission, as long as the byte totals stay below saturation.\<close>

theorem lease_roundtrip:
  assumes reach: "broker_reachable cfg st" and sub: "submit cfg tm job st = (Inr sub, st')" and l: "sb_lease sub = Some l"
    and room: "length (bs_active st) < u32_max"
    and ram: "rv_ram_bytes (bs_reservations st') < u64_max"
    and res: "rv_vram_resident_bytes (bs_reservations st') < u64_max"
    and trans: "rv_vram_transient_bytes (bs_reservations st') < u64_max"
  shows "bs_reservations (finish_lease cfg tm' (rl_job_id l) actual measured status st') = bs_reservations st
    \<and> holders (finish_lease cfg tm' (rl_job_id l) actual measured status st') = holders st"
proof -
  from sub l obtain s a t oc where
    sel: "select_target cfg s (supersede_queued cfg s job (observe cfg s a st)) job True = Some (t, oc)"
    and fresh: "\<not> job_id_in_use (rj_job_id job) st"
    and ad: "(sub, st') = admit cfg s job t oc (supersede_queued cfg s job (observe cfg s a st))"
    and lease: "l = \<lparr>rl_job_id = rj_job_id job, rl_target_id = ct_target_id t\<rparr>"
    by (rule submit_lease_cases)
  define st1 where "st1 = supersede_queued cfg s job (observe cfg s a st)"
  note adm = target_admissibleD [OF select_target_SomeD(2) [OF sel [folded st1_def]]]
  obtain e where e: "effective_job_estimate st1 t = Some e" using target_fits_estimate [OF adm(6)] by blast
  have st1: "bs_reservations st1 = bs_reservations st" "residency_inv (bs_residency st1)"
    using residency_inv_reachable [OF reach] by (simp_all add: st1_def)
  from ad have st'_eq: "st' = snd (admit cfg s job t oc st1)" by (metis st1_def snd_conv)
  have hs: "holders st' = hm_insert (rj_job_id job) (job, t) (holders st)"
    using st'_eq holders_cong [of st1 "observe cfg s a st"] by (simp add: st1_def)
  then have "hm_get (holders st') (rj_job_id job) = Some (job, t)" by simp
  then obtain ac where ac: "hm_get (bs_active st') (rj_job_id job) = Some ac" "ac_job ac = job" "ac_target ac = t"
    by (auto simp: hm_get_holders)
  let ?k = "rj_job_id job"
  let ?st2 = "st'\<lparr>bs_active := hm_remove ?k (bs_active st')\<rparr>"
  let ?fin = "finish_lease cfg tm' (rl_job_id l) actual measured status st'"
  have fin: "bs_reservations ?fin = bs_reservations (release job t ?st2)" "bs_active ?fin = bs_active ?st2"
    using ac lease by (simp_all add: finish_lease_def Let_def)
  have "hm_get (holders st) ?k = None" using job_id_fresh(1) [OF fresh] by (simp add: hm_get_holders)
  then have "hm_remove ?k (hm_insert ?k (job, t) (holders st)) = holders st"
    by (rule hm_remove_insert_new)
  then have H: "holders ?fin = holders st"
    using holders_cong [OF fin(2)] holders_remove [of ?k st'] hs by simp
  have rest: "release_estimate ?st2 t = e"
    using release_reserve_registered [OF st1(2) e] st'_eq by simp
  have slots: "slots_inv (bs_reservations st) (holders st)"
    using lease_inv_reachable [OF reach] by (simp add: lease_inv_def ledger_inv_def)
  have nok: "rv_exclusive_gpu_job (bs_reservations st) \<noteq> Some ?k" "rv_foreground_turn_job (bs_reservations st) \<noteq> Some ?k"
    using slots \<open>hm_get (holders st) ?k = None\<close> unfolding slots_inv_def by auto
  have gpu: "wrap_inc32 (rv_gpu_leases (bs_reservations st)) = Suc (rv_gpu_leases (bs_reservations st))"
    using room_gpu_leases [OF slots room] .
  have ex: "ct_gpu_residency t = GpuExclusive \<Longrightarrow> rv_exclusive_gpu_job (bs_reservations st) = None"
  proof -
    assume "ct_gpu_residency t = GpuExclusive"
    then have "rv_gpu_leases (bs_reservations st) = 0"
      using adm(7) st1(1) by (auto simp: residency_available_def split: if_splits)
    moreover have "rv_exclusive_gpu_job (bs_reservations st) \<noteq> None \<Longrightarrow> rv_gpu_leases (bs_reservations st) = 1"
      using slots unfolding slots_inv_def by blast
    ultimately show "rv_exclusive_gpu_job (bs_reservations st) = None" by linarith
  qed
  have fg: "holds_foreground_turn_slot (rj_kind job) \<Longrightarrow> rv_foreground_turn_job (bs_reservations st) = None"
    using adm(7) st1(1) by (auto simp: residency_available_def split: if_splits)
  have r': "bs_reservations st' = bs_reservations (reserve job t st1)" using st'_eq by simp
  note R = reserve_reservations [OF e, of job, folded r', unfolded st1(1)]
  have "bs_reservations (release job t ?st2) = bs_reservations st"
    using ram res trans nok ex fg
    by (simp add: release_def rest Let_def R gpu sat_add_diff_exact)
  with fin(1) H show ?thesis by simp
qed


theorem lease_roundtrip_witness:
  "bs_reservations (finish_lease sample_broker_config sample_telemetry (lit ''job'') no_actual_usage True CsFailed sample_running)
     = bs_reservations initial_broker_state"
proof -
  let ?r = "admit sample_broker_config sample_snapshot sample_job sample_target AdmittedPrimary
      (initial_broker_state\<lparr>bs_green_samples := 1\<rparr>)"
  have eq: "submit sample_broker_config sample_telemetry sample_job initial_broker_state = (Inr (fst ?r), sample_running)"
    by (simp add: sample_running_def sample_submit Let_def)
  have l: "sb_lease (fst ?r) = Some \<lparr>rl_job_id = lit ''job'', rl_target_id = lit ''gpu0''\<rparr>"
    by (simp add: sample_job_def sample_target_def)
  have c: "broker_config_ok sample_broker_config" by simp
  have "bs_active initial_broker_state = []" by (simp add: initial_broker_state_def)
  then show ?thesis
    using lease_roundtrip [OF reach_init [OF c] eq l, of sample_telemetry no_actual_usage True CsFailed]
    by (simp add: sample_running_fields u64_max_def u32_max_def)
qed

section \<open>Output binding and recovery\<close>

definition binding_of :: "broker_state \<Rightarrow> rstr \<Rightarrow> rstr option" where
  "binding_of st u = hm_get (bs_utterance_bindings st) u"

inductive binding_keeping :: "broker_config \<Rightarrow> rstr \<Rightarrow> broker_state \<Rightarrow> broker_state \<Rightarrow> bool" for cfg u where
  keep_refl: "binding_keeping cfg u st st"
| keep_op: "binding_keeping cfg u st st1 \<Longrightarrow> broker_op cfg st1 st2
     \<Longrightarrow> (\<And>k. st2 \<noteq> snd (mark_output_started k st1)) \<Longrightarrow> st2 \<noteq> finish_utterance u st1
     \<Longrightarrow> binding_keeping cfg u st st2"

lemma poll_queue_bindings [simp]:
  "bs_utterance_bindings (snd (poll_queue cfg s qs st)) = bs_utterance_bindings st"
  by (induction qs arbitrary: st) (simp_all add: admit_def Let_def case_prod_unfold split: option.split)

lemma submit_bindings [simp]: "bs_utterance_bindings (snd (submit cfg tm job st)) = bs_utterance_bindings st"
proof -
  have "bs_utterance_bindings (snd (submit_locked cfg s job st')) = bs_utterance_bindings st'" for s st'
    by (cases rule: submit_locked_cases [of job st' cfg s]) (auto simp: admit_def enqueue_def Let_def)
  then show ?thesis by (simp add: submit_def Let_def case_prod_unfold split: sum.split)
qed

lemma op_keeps_binding:
  assumes "broker_op cfg st st'" "\<And>k. st' \<noteq> snd (mark_output_started k st)" "st' \<noteq> finish_utterance u st"
  shows "binding_of st' u = binding_of st u"
  using assms
proof (induction rule: broker_op.cases)
  case (op_utterance st v)
  then have "v \<noteq> u" by auto
  with op_utterance show ?case by (simp add: binding_of_def finish_utterance_def)
qed (auto simp: binding_of_def poll_ready_def refresh_pressure_def register_model_residency_def begin_model_warming_def
    mark_model_loaded_def begin_model_eviction_def mark_model_cold_def transition_idle_model_def
    quarantine_model_residency_def clear_model_quarantine_def cancel_def report_oom_def quarantine_record_def
    drain_diagnostics_def finish_lease_def set_residency_def Let_def case_prod_unfold
    split: sum.split option.split)

lemma keeps_binding: "binding_keeping cfg u st st' \<Longrightarrow> binding_of st' u = binding_of st u"
  by (induction rule: binding_keeping.induct) (use op_keeps_binding in auto)

text \<open>Once a job has started user-visible output, its utterance is bound to its target: any later
  submission for the same utterance that is admitted runs on that target, until the utterance is
  finished or another of its running jobs starts output. The binding survives every other operation.\<close>

theorem utterance_stays_on_target:
  assumes "hm_get (bs_active st) k = Some a" "kind_utterance_id (rj_kind (ac_job a)) = Some u"
    and "binding_keeping cfg u (snd (mark_output_started k st)) st1"
    and "kind_utterance_id (rj_kind job) = Some u"
    and "submit cfg tm job st1 = (Inr sub, st2)" "sb_lease sub = Some l"
  shows "rl_target_id l = ct_target_id (ac_target a)"
proof -
  have "binding_of (snd (mark_output_started k st)) u = Some (ct_target_id (ac_target a))"
    using assms(1,2) by (simp add: mark_output_started_def binding_of_def)
  with keeps_binding [OF assms(3)] have b: "hm_get (bs_utterance_bindings st1) u = Some (ct_target_id (ac_target a))"
    by (simp add: binding_of_def)
  from assms(5,6) obtain s a' t oc where
    sel: "select_target cfg s (supersede_queued cfg s job (observe cfg s a' st1)) job True = Some (t, oc)"
    and lease: "l = \<lparr>rl_job_id = rj_job_id job, rl_target_id = ct_target_id t\<rparr>"
    by (rule submit_lease_cases)
  have "bound_target (supersede_queued cfg s job (observe cfg s a' st1)) job = Some (ct_target_id (ac_target a))"
    using b assms(4) by (simp add: bound_target_def)
  from target_admissibleD(2) [OF select_target_SomeD(2) [OF sel] this] lease show ?thesis by simp
qed


lemma submit_admits:
  assumes "validate_job job = Inr ()" "read_telemetry tm = Inr (s, a)" "\<not> job_id_in_use (rj_job_id job) (observe cfg s a st)"
    "drop_before_admission cfg s job (observe cfg s a st) = None"
    "select_target cfg s (supersede_queued cfg s job (observe cfg s a st)) job True = Some (t, oc)"
  shows "\<exists>sub st'. submit cfg tm job st = (Inr sub, st')
    \<and> sb_lease sub = Some \<lparr>rl_job_id = rj_job_id job, rl_target_id = ct_target_id t\<rparr>"
  using assms by (simp add: submit_def submit_locked_def Let_def case_prod_unfold)

definition sample_speech_job :: resource_job where
  "sample_speech_job = \<lparr>rj_job_id = lit ''say'', rj_kind = SpeechSynthesis (lit ''u'') 0, rj_priority = Interactive,
     rj_deadline_ms = None, rj_primary = \<lparr>ct_target_id = lit ''gpu0'', ct_model_id = None, ct_provider = sample_local,
       ct_estimate = \<lparr>es_ram_bytes = 0, es_vram_resident_bytes = 0, es_vram_transient_bytes = 0,
          es_transient_duration_ms = 0, es_gpu_time_ms = 0\<rparr>, ct_gpu_residency = GpuNone\<rparr>,
     rj_fallbacks = [], rj_drop_policy = Never, rj_privacy = privacy_fully_local\<rparr>"

definition sample_speaking :: broker_state where
  "sample_speaking = snd (mark_output_started (lit ''job'') sample_running)"

lemma sample_speaking_fields:
  "bs_reservations sample_speaking = bs_reservations sample_running" "bs_residency sample_speaking = []"
  "bs_queued sample_speaking = []" "bs_target_health sample_speaking = []"
  "bs_utterance_bindings sample_speaking = [(lit ''u'', lit ''gpu0'')]"
  "hm_get (bs_active sample_speaking) (lit ''say'') = None"
  by (simp_all add: sample_speaking_def mark_output_started_def sample_running_fields sample_job_def sample_target_def)

lemma sample_speech_valid: "validate_job sample_speech_job = Inr ()"
  by (simp add: validate_job_def sample_speech_job_def sample_local_def is_blank_iff lit_def is_whitespace_def)

theorem utterance_stays_on_target_witness:
  "\<exists>sub st l. submit sample_broker_config sample_telemetry sample_speech_job sample_speaking = (Inr sub, st)
     \<and> sb_lease sub = Some l \<and> rl_target_id l = ct_target_id sample_target"
proof -
  let ?o = "observe sample_broker_config sample_snapshot no_gpu_usage sample_speaking"
  have "\<exists>sub st. submit sample_broker_config sample_telemetry sample_speech_job sample_speaking = (Inr sub, st)
      \<and> sb_lease sub = Some \<lparr>rl_job_id = rj_job_id sample_speech_job, rl_target_id = ct_target_id (rj_primary sample_speech_job)\<rparr>"
  proof (rule submit_admits [OF sample_speech_valid])
    show "read_telemetry sample_telemetry = Inr (sample_snapshot, no_gpu_usage)" by simp
    show "\<not> job_id_in_use (rj_job_id sample_speech_job) ?o"
      by (simp add: job_id_in_use_def sample_speaking_fields sample_speech_job_def)
    show "drop_before_admission sample_broker_config sample_snapshot sample_speech_job ?o = None"
      by (simp add: drop_before_admission_def sample_speech_job_def is_late_def is_stale_def)
    show "select_target sample_broker_config sample_snapshot (supersede_queued sample_broker_config sample_snapshot sample_speech_job ?o)
        sample_speech_job True = Some (rj_primary sample_speech_job, AdmittedPrimary)"
      by (simp add: select_target_def job_targets_def target_admissible_def bound_target_def allows_def
          is_target_quarantined_def target_fits_def effective_job_estimate_def residency_available_def vram_ceiling_def
          committed_vram_def committed_ram_def protected_gpu_vram_used_def u64_max_def Let_def
          protected_system_ram_used_def broker_reserved_gpu_usage_def ledger_resident_def sat_add_def
          sample_speaking_fields sample_running_fields sample_speech_job_def sample_broker_defs)
  qed
  then obtain sub st l where sub: "submit sample_broker_config sample_telemetry sample_speech_job sample_speaking = (Inr sub, st)"
    "sb_lease sub = Some l" by blast
  have a: "hm_get (bs_active sample_running) (lit ''job'') = Some \<lparr>ac_job = sample_job, ac_target = sample_target,
      ac_output_started = False, ac_cancelled_by_broker = False, ac_transient_deadline_ms = None\<rparr>"
    by (simp add: sample_running_fields)
  have "rl_target_id l = ct_target_id sample_target"
    using utterance_stays_on_target [OF a _ keep_refl _ sub [unfolded sample_speaking_def], where u = "lit ''u''"]
    by (simp add: sample_job_def sample_speech_job_def)
  with sub show ?thesis by blast
qed

text \<open>Recovery from an out-of-memory failure is safe. The report quarantines the target from the
  configured number of failures on, for the configured time; a job that already produced output, or
  holds the foreground slot, is told to abort and never to switch its model; a fallback is proposed
  only to another job, and only one that the privacy policy allows as a fallback, that is not itself
  quarantined and that fits the budgets; and before the threshold the same target is retried.\<close>

theorem oom_recovery_safe:
  assumes "read_telemetry tm = Inr (s, acc)" "hm_get (bs_active st) k = Some a" "report_oom cfg tm k st = (Inr d, st')"
    and "sat_add (sn_monotonic_ms s) (bc_quarantine_ms cfg) > now"
  shows "(d = RetrySameTargetAfterEviction (ct_target_id (ac_target a))
          \<or> is_target_quarantined st' (ct_target_id (ac_target a)) now)
    \<and> (ac_output_started a \<or> holds_foreground_turn_slot (rj_kind (ac_job a))
         \<longrightarrow> d \<in> {RetrySameTargetAfterEviction (ct_target_id (ac_target a)), AbortUtteranceNoModelSwap})
    \<and> (\<forall>i. d = RetryFallback i \<longrightarrow> \<not> ac_output_started a
         \<and> (\<exists>t\<in>set (rj_fallbacks (ac_job a)). ct_target_id t = i
              \<and> allows_fallback (rj_privacy (ac_job a)) (ct_provider (rj_primary (ac_job a))) (ct_provider t)
              \<and> \<not> is_target_quarantined st' i (sn_monotonic_ms s) \<and> target_fits cfg s st' t))
    \<and> (d = RetrySameTargetAfterEviction (ct_target_id (ac_target a)) \<longrightarrow>
         (\<exists>h. hm_get (bs_target_health st') (ct_target_id (ac_target a)) = Some h
             \<and> th_oom_failures h < bc_oom_failures_before_quarantine cfg))"
proof -
  define st0 where "st0 = st\<lparr>bs_telemetry_accounted := acc\<rparr>"
  define i where "i = ct_target_id (ac_target a)"
  define h where "h = (case hm_get (bs_target_health st) i of Some h \<Rightarrow> h | None \<Rightarrow> default_health)"
  define n where "n = wrap_inc32 (th_oom_failures h)"
  note defs = report_oom_def assms(1,2) Let_def
  show ?thesis
  proof (cases "n < bc_oom_failures_before_quarantine cfg")
    case True
    then have "d = RetrySameTargetAfterEviction i"
      "st' = st0\<lparr>bs_target_health := hm_insert i (h\<lparr>th_oom_failures := n\<rparr>) (bs_target_health st)\<rparr>"
      using assms(3) by (auto simp: defs st0_def i_def h_def n_def)
    with True show ?thesis by (simp add: i_def)
  next
    case False
    let ?u = "sat_add (sn_monotonic_ms s) (bc_quarantine_ms cfg)"
    define st1 where "st1 = push_diagnostic cfg (TargetQuarantined (sn_monotonic_ms s) i ?u n)
        (quarantine_record (ac_target a) ?u
          (st0\<lparr>bs_target_health := hm_insert i \<lparr>th_oom_failures = n, th_quarantine_until_ms = ?u\<rparr> (bs_target_health st)\<rparr>))"
    let ?ok = "\<lambda>t. allows_fallback (rj_privacy (ac_job a)) (ct_provider (rj_primary (ac_job a))) (ct_provider t)
        \<and> \<not> is_target_quarantined st1 (ct_target_id t) (sn_monotonic_ms s) \<and> target_fits cfg s st1 t"
    from False have st': "st' = st1"
      and d: "d = (if ac_output_started a \<or> holds_foreground_turn_slot (rj_kind (ac_job a)) then AbortUtteranceNoModelSwap
             else case find ?ok (rj_fallbacks (ac_job a)) of Some t \<Rightarrow> RetryFallback (ct_target_id t)
                  | None \<Rightarrow> QuarantinedNoSafeFallback)"
      using assms(3) by (auto simp: defs st0_def i_def h_def n_def st1_def split: if_splits option.splits)
    have q: "is_target_quarantined st1 i now"
      using assms(4) by (simp add: is_target_quarantined_def st1_def)
    have f: "t \<in> set (rj_fallbacks (ac_job a)) \<and> ?ok t" if "find ?ok (rj_fallbacks (ac_job a)) = Some t" for t
      using find_Some_split [OF that] by auto
    show ?thesis
    proof (cases "ac_output_started a \<or> holds_foreground_turn_slot (rj_kind (ac_job a))")
      case True
      with d q show ?thesis by (simp add: st' i_def)
    next
      case free: False
      show ?thesis
      proof (cases "find ?ok (rj_fallbacks (ac_job a))")
        case None
        with d free q show ?thesis by (simp add: st' i_def)
      next
        case (Some t)
        then have "d = RetryFallback (ct_target_id t)" using d free by simp
        with f [OF Some] free q show ?thesis unfolding st' i_def by (auto simp del: find_Some_iff)
      qed
    qed
  qed
qed


theorem oom_recovery_safe_witness:
  "\<exists>st'. report_oom (sample_broker_config\<lparr>bc_oom_failures_before_quarantine := 1\<rparr>) sample_telemetry (lit ''job'') sample_running
          = (Inr AbortUtteranceNoModelSwap, st')
     \<and> is_target_quarantined st' (lit ''gpu0'') 1000"
proof -
  let ?c = "sample_broker_config\<lparr>bc_oom_failures_before_quarantine := 1\<rparr>"
  have "fst (report_oom ?c sample_telemetry (lit ''job'') sample_running) = Inr AbortUtteranceNoModelSwap"
    by (simp add: report_oom_def sample_running_fields default_health_def wrap_inc32_def Let_def sample_job_def)
  then obtain st' where eq: "report_oom ?c sample_telemetry (lit ''job'') sample_running = (Inr AbortUtteranceNoModelSwap, st')"
    by (metis prod.collapse)
  have r: "read_telemetry sample_telemetry = Inr (sample_snapshot, no_gpu_usage)" by simp
  have a: "hm_get (bs_active sample_running) (lit ''job'') = Some \<lparr>ac_job = sample_job, ac_target = sample_target,
      ac_output_started = False, ac_cancelled_by_broker = False, ac_transient_deadline_ms = None\<rparr>"
    by (simp add: sample_running_fields)
  have "1000 < sat_add (sn_monotonic_ms sample_snapshot) (bc_quarantine_ms ?c)"
    by (simp add: sample_snapshot_def sample_broker_config_def sat_add_def u64_max_def)
  from oom_recovery_safe [OF r a eq this] eq show ?thesis by (simp add: sample_target_def)
qed

section \<open>The residency ledger\<close>

abbreviation resident_of :: "model_residency_record \<Rightarrow> nat" where
  "resident_of r \<equiv> if holds_resident_memory r then ge_resident_bytes (ms_envelope (mr_spec r)) else 0"

lemma ledger_resident_sum: "ledger_resident res = min u64_max (hm_sum resident_of res)"
proof -
  have "fold (\<lambda>(_, r) total. sat_add total (ge_resident_bytes (ms_envelope (mr_spec r))))
      (filter (\<lambda>(_, r). holds_resident_memory r) res) (min u64_max acc) = min u64_max (acc + hm_sum resident_of res)" for acc
  proof (induction res arbitrary: acc)
    case (Cons x res)
    obtain k r where x: "x = (k, r)" by (cases x)
    have "sat_add (min u64_max acc) b = min u64_max (acc + b)" for b by (auto simp: sat_add_def)
    with Cons show ?case by (simp add: x add.assoc)
  qed simp
  from this [of 0] show ?thesis by (simp add: ledger_resident_def)
qed

text \<open>A model is warmed only into free VRAM. When \<open>begin_model_warming\<close> succeeds, the model was cold
  and is now warming with its measured resident memory in the ledger, and with it the reported
  usage, the game reserve and everything the broker has promised stay within the VRAM ceiling; when
  it fails, the broker state is unchanged.\<close>

theorem warming_respects_ceiling:
  assumes reach: "broker_reachable cfg st" and run: "begin_model_warming cfg tm m st = (r, st')"
  shows "case r of
      Inl e \<Rightarrow> st' = st
    | Inr _ \<Rightarrow> \<exists>s a rec. read_telemetry tm = Inr (s, a) \<and> hm_get (bs_residency st) m = Some rec \<and> mr_state rec = Cold
        \<and> hm_get (bs_residency st') m = Some (rec\<lparr>mr_state := Warming\<rparr>)
        \<and> committed_vram s (st'\<lparr>bs_telemetry_accounted := a\<rparr>) \<le> vram_ceiling cfg s"
proof (cases r)
  case (Inl e)
  with run show ?thesis
    by (auto simp: begin_model_warming_def Let_def split: sum.splits option.splits if_splits)
next
  case (Inr u)
  with run obtain s a rec where
    ok: "read_telemetry tm = Inr (s, a)" "hm_get (bs_residency st) m = Some rec" "mr_state rec = Cold"
    and st': "st' = set_residency m (rec\<lparr>mr_state := Warming\<rparr>) st"
    and cap: "sat_add (sat_add (sat_add (protected_gpu_vram_used s)
        (gu_resident_bytes (broker_reserved_gpu_usage st) - gu_resident_bytes a))
        (gu_transient_bytes (broker_reserved_gpu_usage st) - gu_transient_bytes a))
        (ge_resident_bytes (ms_envelope (mr_spec rec))) \<le> vram_ceiling cfg s"
    by (auto simp: begin_model_warming_def Let_def split: sum.splits option.splits if_splits)
  let ?b = "ge_resident_bytes (ms_envelope (mr_spec rec))"
  let ?l = "ledger_resident (bs_residency st)" and ?v = "rv_vram_resident_bytes (bs_reservations st)"
  have "hm_wf (bs_residency st)" using residency_inv_reachable [OF reach] by (simp add: residency_inv_def)
  from hm_sum_replace [OF this ok(2), of resident_of "rec\<lparr>mr_state := Warming\<rparr>"] ok(3)
  have "hm_sum resident_of (hm_insert m (rec\<lparr>mr_state := Warming\<rparr>) (bs_residency st)) = hm_sum resident_of (bs_residency st) + ?b"
    by (simp add: holds_resident_memory_def)
  then have led: "ledger_resident (bs_residency st') = sat_add ?l ?b"
    by (auto simp: st' ledger_resident_sum sat_add_def)
  let ?t = "rv_vram_transient_bytes (bs_reservations st) - gu_transient_bytes a"
  have "committed_vram s (st'\<lparr>bs_telemetry_accounted := a\<rparr>)
      = sat_add (sat_add (protected_gpu_vram_used s) (sat_add ?v (sat_add ?l ?b) - gu_resident_bytes a)) ?t"
    using led by (simp add: committed_vram_def broker_reserved_gpu_usage_def st' set_residency_def Let_def)
  also have "\<dots> \<le> sat_add (sat_add (protected_gpu_vram_used s) (sat_add (sat_add ?v ?l - gu_resident_bytes a) ?b)) ?t"
    unfolding sat_add_assoc [symmetric, of ?v ?l ?b] by (intro sat_add_mono sat_add_diff_le order_refl)
  also have "\<dots> = sat_add (sat_add (sat_add (protected_gpu_vram_used s) (sat_add ?v ?l - gu_resident_bytes a)) ?t) ?b"
    by (simp add: sat_add_ac)
  also have "\<dots> \<le> vram_ceiling cfg s" using cap by (simp add: broker_reserved_gpu_usage_def)
  finally show ?thesis using Inr ok by (simp add: st')
qed


definition sample_spec :: model_residency_spec where
  "sample_spec = \<lparr>ms_model_id = lit ''m'', ms_target_id = lit ''gpu0'', ms_provider = sample_local,
     ms_gpu_residency = GpuExclusive,
     ms_envelope = \<lparr>ge_resident_bytes = 512, ge_p99_transient_bytes = 16, ge_sample_count = 3\<rparr>\<rparr>"

definition sample_record :: model_residency_record where
  "sample_record = \<lparr>mr_spec = sample_spec, mr_state = Cold, mr_active_jobs = 0, mr_quarantine_until_ms = None\<rparr>"

lemma sample_register:
  assumes "bs_residency st = []"
  shows "register_model_residency sample_spec st = (Inr (), st\<lparr>bs_residency := [(lit ''m'', sample_record)]\<rparr>)"
  using assms by (simp add: register_model_residency_def sample_spec_def sample_record_def set_residency_def sample_local_def
      validate_envelope_def is_blank_iff lit_def is_whitespace_def)

definition sample_registered :: broker_state where
  "sample_registered = initial_broker_state\<lparr>bs_residency := [(lit ''m'', sample_record)]\<rparr>"

lemma sample_registered_reachable: "broker_reachable sample_broker_config sample_registered"
proof -
  have "broker_reachable sample_broker_config (snd (register_model_residency sample_spec initial_broker_state))"
    by (rule reach_step [OF reach_init op_register]) simp
  moreover have "bs_residency initial_broker_state = []" by (simp add: initial_broker_state_def)
  ultimately show ?thesis by (simp add: sample_register sample_registered_def)
qed

theorem warming_respects_ceiling_witness:
  "\<exists>st'. begin_model_warming sample_broker_config sample_telemetry (lit ''m'') sample_registered = (Inr (), st')
     \<and> committed_vram sample_snapshot (st'\<lparr>bs_telemetry_accounted := no_gpu_usage\<rparr>) \<le> 4096"
proof -
  have "fst (begin_model_warming sample_broker_config sample_telemetry (lit ''m'') sample_registered) = Inr ()"
    by (simp add: begin_model_warming_def sample_registered_def sample_record_def sample_spec_def
        broker_reserved_gpu_usage_def ledger_resident_def holds_resident_memory_def protected_gpu_vram_used_def
        vram_ceiling_def initial_broker_state_def no_reservations_def no_gpu_usage_def sample_snapshot_def
        sample_broker_config_def sat_add_def u64_max_def Let_def)
  then obtain st' where eq: "begin_model_warming sample_broker_config sample_telemetry (lit ''m'') sample_registered = (Inr (), st')"
    by (metis prod.collapse)
  have "vram_ceiling sample_broker_config sample_snapshot = 4096"
    by (simp add: vram_ceiling_def sample_broker_config_def sample_snapshot_def)
  with warming_respects_ceiling [OF sample_registered_reachable eq] eq show ?thesis by auto
qed

text \<open>How one operation may move a model through its residency states.\<close>

definition residency_edge :: "model_residency_state \<Rightarrow> model_residency_state \<Rightarrow> bool" where
  "residency_edge from to \<longleftrightarrow> from = to \<or> to = Quarantined
     \<or> (from, to) \<in> {(Cold, Warming), (Warming, Loaded), (Loaded, InFlight), (InFlight, Loaded),
                     (Loaded, Evicting), (Evicting, Cold), (Quarantined, Cold)}"

definition record_moves :: "model_residency_record \<Rightarrow> model_residency_record \<Rightarrow> bool" where
  "record_moves r r' \<longleftrightarrow> residency_edge (mr_state r) (mr_state r')
     \<and> (mr_state r' \<in> {Evicting, Cold} \<and> mr_state r \<notin> {mr_state r', Quarantined} \<longrightarrow> mr_active_jobs r = 0)
     \<and> ms_model_id (mr_spec r') = ms_model_id (mr_spec r) \<and> ms_target_id (mr_spec r') = ms_target_id (mr_spec r)
     \<and> ms_gpu_residency (mr_spec r') = ms_gpu_residency (mr_spec r) \<and> ms_provider (mr_spec r') = ms_provider (mr_spec r)"

definition ledger_moves :: "(rstr, model_residency_record) hmap \<Rightarrow> (rstr, model_residency_record) hmap \<Rightarrow> bool" where
  "ledger_moves res res' \<longleftrightarrow> (\<forall>m r. hm_get res m = Some r \<longrightarrow> (\<exists>r'. hm_get res' m = Some r' \<and> record_moves r r'))"

lemma record_moves_refl [simp]: "record_moves r r"
  by (simp add: record_moves_def residency_edge_def)

lemma ledger_moves_refl [simp]: "ledger_moves res res"
  by (simp add: ledger_moves_def)

lemma ledger_moves_update: "hm_get res m = Some r \<Longrightarrow> record_moves r r' \<Longrightarrow> ledger_moves res (hm_insert m r' res)"
  by (auto simp: ledger_moves_def)

lemma ledger_moves_new: "hm_get res m = None \<Longrightarrow> ledger_moves res (hm_insert m r' res)"
  by (auto simp: ledger_moves_def)

text \<open>Reservations only take loaded models in flight, and a series of them composes.\<close>

definition ledger_reserves :: "(rstr, model_residency_record) hmap \<Rightarrow> (rstr, model_residency_record) hmap \<Rightarrow> bool" where
  "ledger_reserves res res' \<longleftrightarrow> (\<forall>m r. hm_get res m = Some r \<longrightarrow> (\<exists>r'. hm_get res' m = Some r' \<and> mr_spec r' = mr_spec r
     \<and> (mr_state r' = mr_state r \<or> mr_state r \<in> {Loaded, InFlight} \<and> mr_state r' = InFlight)))"

lemma ledger_reserves_refl [simp]: "ledger_reserves res res"
  by (simp add: ledger_reserves_def)

lemma ledger_reserves_trans:
  assumes "ledger_reserves a b" "ledger_reserves b c"
  shows "ledger_reserves a c"
  unfolding ledger_reserves_def
proof (intro allI impI)
  fix m r assume "hm_get a m = Some r"
  with assms(1) obtain r1 where r1: "hm_get b m = Some r1" "mr_spec r1 = mr_spec r"
    "mr_state r1 = mr_state r \<or> mr_state r \<in> {Loaded, InFlight} \<and> mr_state r1 = InFlight"
    unfolding ledger_reserves_def by blast
  with assms(2) obtain r2 where "hm_get c m = Some r2" "mr_spec r2 = mr_spec r1"
    "mr_state r2 = mr_state r1 \<or> mr_state r1 \<in> {Loaded, InFlight} \<and> mr_state r2 = InFlight"
    unfolding ledger_reserves_def by blast
  with r1 show "\<exists>r'. hm_get c m = Some r' \<and> mr_spec r' = mr_spec r
     \<and> (mr_state r' = mr_state r \<or> mr_state r \<in> {Loaded, InFlight} \<and> mr_state r' = InFlight)" by auto
qed

lemma ledger_reserves_moves: "ledger_reserves res res' \<Longrightarrow> ledger_moves res res'"
  unfolding ledger_reserves_def ledger_moves_def record_moves_def residency_edge_def by fastforce

lemma reserve_reserves:
  assumes inv: "residency_inv (bs_residency st)" and e: "effective_job_estimate st t = Some e"
  shows "ledger_reserves (bs_residency st) (bs_residency (reserve job t st))"
proof (cases "registered_model_for_target st t")
  case None
  then show ?thesis by (simp add: reserve_def Let_def)
next
  case (Some m)
  from registered_model_lookup [OF Some] obtain i where i: "ct_model_id t = Some i" "hm_get (bs_residency st) i = Some m"
    by blast
  then have "mr_state m \<in> {Loaded, InFlight}"
    using e by (auto simp: effective_job_estimate_def split: if_splits)
  with residency_inv_lookup [OF inv Some] Some show ?thesis
    by (auto simp: reserve_def Let_def ledger_reserves_def)
qed

lemma admit_reserves:
  assumes "residency_inv (bs_residency st)" "select_target cfg s st job fb = Some (t, oc)"
  shows "ledger_reserves (bs_residency st) (bs_residency (snd (admit cfg s job t oc st)))"
proof -
  have "target_fits cfg s st t" by (rule target_admissibleD(6) [OF select_target_SomeD(2) [OF assms(2)]])
  then obtain e where "effective_job_estimate st t = Some e" using target_fits_estimate by blast
  then show ?thesis using reserve_reserves [OF assms(1)] by simp
qed

lemma poll_queue_reserves:
  "residency_inv (bs_residency st) \<Longrightarrow> ledger_reserves (bs_residency st) (bs_residency (snd (poll_queue cfg s qs st)))"
proof (induction qs arbitrary: st)
  case (Cons q qs)
  have "ledger_reserves (bs_residency st) (bs_residency (snd (poll_queue cfg s qs (snd (admit cfg s (qr_job q) t oc st)))))"
    if "select_target cfg s st (qr_job q) True = Some (t, oc)" for t oc
    using ledger_reserves_trans [OF admit_reserves [OF Cons.prems that] Cons.IH] residency_inv_reserve [OF Cons.prems] by simp
  moreover have same: "ledger_reserves (bs_residency st) (bs_residency (snd (poll_queue cfg s qs st')))"
    if "bs_residency st' = bs_residency st" for st'
    using Cons.IH [of st'] Cons.prems that by simp
  ultimately show ?case by (auto simp: Let_def case_prod_unfold same split: option.split)
qed simp

lemma submit_reserves:
  assumes "residency_inv (bs_residency st)"
  shows "ledger_reserves (bs_residency st) (bs_residency (snd (submit cfg tm job st)))"
proof -
  have "ledger_reserves (bs_residency st') (bs_residency (snd (submit_locked cfg s job st')))"
    if "residency_inv (bs_residency st')" for s st'
  proof (cases rule: submit_locked_cases [of job st' cfg s])
    case (admitted t oc)
    then show ?thesis using admit_reserves [OF _ admitted(3)] that by simp
  qed auto
  then have "ledger_reserves (bs_residency st) (bs_residency (snd (submit_locked cfg s job (observe cfg s a st))))" for s a
    using assms by (metis observe_simps(3))
  then show ?thesis by (simp add: submit_def Let_def case_prod_unfold split: sum.split)
qed


lemma register_moves: "ledger_moves (bs_residency st) (bs_residency (snd (register_model_residency spec st)))"
  by (auto simp: register_model_residency_def intro: ledger_moves_new split: sum.split)

lemma state_op_moves:
  "ledger_moves (bs_residency st) (bs_residency (snd (begin_model_warming cfg tm m st)))"
  "ledger_moves (bs_residency st) (bs_residency (snd (mark_model_loaded cfg tm m e st)))"
  "ledger_moves (bs_residency st) (bs_residency (snd (begin_model_eviction m st)))"
  "ledger_moves (bs_residency st) (bs_residency (snd (mark_model_cold m st)))"
  "ledger_moves (bs_residency st) (bs_residency (snd (quarantine_model_residency m until st)))"
  "ledger_moves (bs_residency st) (bs_residency (snd (clear_model_quarantine tm m st)))"
  "ledger_moves (bs_residency st) (bs_residency (snd (report_oom cfg tm k st)))"
  by (auto simp: begin_model_warming_def mark_model_loaded_def begin_model_eviction_def mark_model_cold_def
      transition_idle_model_def quarantine_model_residency_def clear_model_quarantine_def report_oom_def
      quarantine_record_def Let_def record_moves_def residency_edge_def
      intro!: ledger_moves_update split: sum.split option.split)

lemma finish_moves:
  assumes "residency_inv (bs_residency st)"
  shows "ledger_moves (bs_residency st) (bs_residency (finish_lease cfg tm k actual measured status st))"
proof -
  have "ledger_moves (bs_residency st') (bs_residency (release j t st'))" if "residency_inv (bs_residency st')" for j t st'
    using residency_inv_lookup [OF that]
    by (auto simp: release_def Let_def record_moves_def residency_edge_def intro!: ledger_moves_update split: option.split)
  then have "ledger_moves (bs_residency st) (bs_residency (release j t (st\<lparr>bs_active := x\<rparr>)))" for j t x
    using assms by (metis broker_state.select_convs(9) broker_state.surjective broker_state.update_convs(6))
  then show ?thesis by (auto simp: finish_lease_def Let_def split: option.split)
qed

text \<open>The residency ledger moves only along its protocol. Whatever operation the broker performs in a
  reachable state, every registered model stays registered under the same target, kind of residency
  and provider, and its state stays or follows one edge of cold, warming, loaded, in flight, evicting,
  with quarantine from everywhere and back to cold; and a model leaves \<open>Loaded\<close> for eviction, or
  \<open>Evicting\<close> for cold, only while the ledger counts no active job on it.\<close>

theorem residency_follows_protocol:
  assumes "broker_reachable cfg st" "broker_op cfg st st'" "hm_get (bs_residency st) m = Some r"
  shows "\<exists>r'. hm_get (bs_residency st') m = Some r' \<and> residency_edge (mr_state r) (mr_state r')
    \<and> (mr_state r = Loaded \<and> mr_state r' = Evicting \<or> mr_state r = Evicting \<and> mr_state r' = Cold \<longrightarrow> mr_active_jobs r = 0)
    \<and> ms_target_id (mr_spec r') = ms_target_id (mr_spec r) \<and> ms_gpu_residency (mr_spec r') = ms_gpu_residency (mr_spec r)
    \<and> ms_provider (mr_spec r') = ms_provider (mr_spec r)"
proof -
  have "residency_inv (bs_residency st)" by (rule residency_inv_reachable [OF assms(1)])
  with assms(2) have "ledger_moves (bs_residency st) (bs_residency st')"
  proof (induction rule: broker_op.cases)
    case (op_submit tm st job)
    then show ?case using ledger_reserves_moves submit_reserves by blast
  next
    case (op_poll tm st)
    have "ledger_reserves (bs_residency st) (bs_residency (snd (poll_ready cfg tm st)))"
      using op_poll poll_queue_reserves [of "observe cfg s a st\<lparr>bs_queued := []\<rparr>" cfg s q for s a q]
      by (auto simp: poll_ready_def Let_def case_prod_unfold split: sum.split)
    with op_poll show ?case using ledger_reserves_moves by blast
  qed (auto simp: register_moves state_op_moves finish_moves residency_inv_quiet_ops)
  with assms(3) obtain r' where r': "hm_get (bs_residency st') m = Some r'" "record_moves r r'"
    unfolding ledger_moves_def by blast
  then show ?thesis by (intro exI [of _ r']) (auto simp: record_moves_def)
qed

theorem residency_follows_protocol_witness:
  "\<exists>r'. hm_get (bs_residency (snd (begin_model_warming sample_broker_config sample_telemetry (lit ''m'') sample_registered))) (lit ''m'') = Some r'
     \<and> residency_edge Cold (mr_state r')"
proof -
  have "hm_get (bs_residency sample_registered) (lit ''m'') = Some sample_record" by (simp add: sample_registered_def)
  from residency_follows_protocol [OF sample_registered_reachable op_warming this]
  show ?thesis by (auto simp: sample_record_def)
qed

section \<open>Where the ledger loses track\<close>

text \<open>Registering a model while a job already runs on its target leaks VRAM. The job reserved its
  resident memory as an unregistered target; at its end \<open>release\<close> finds the registered model and
  gives back no resident memory. There is a reachable state with no running and no queued job in
  which resident VRAM is still reserved.\<close>

theorem late_registration_leaks_vram:
  "\<exists>cfg st. broker_reachable cfg st \<and> bs_active st = [] \<and> bs_queued st = []
     \<and> rv_vram_resident_bytes (bs_reservations st) = 512"
proof -
  let ?reg = "sample_running\<lparr>bs_residency := [(lit ''m'', sample_record)]\<rparr>"
  let ?done = "finish_lease sample_broker_config sample_telemetry (lit ''job'') no_actual_usage False CsCancelled ?reg"
  have "broker_reachable sample_broker_config (snd (register_model_residency sample_spec sample_running))"
    by (rule reach_step [OF sample_running_reachable op_register])
  then have "broker_reachable sample_broker_config ?reg" by (simp add: sample_register sample_running_fields)
  then have "broker_reachable sample_broker_config ?done" by (rule reach_step [OF _ op_finish])
  moreover have "bs_active ?done = []" "bs_queued ?done = []" "rv_vram_resident_bytes (bs_reservations ?done) = 512"
    by (simp_all add: finish_lease_def release_def release_estimate_def registered_model_for_target_def
        sample_running_fields sample_target_def sample_record_def sample_spec_def Let_def)
  ultimately show ?thesis by blast
qed

definition sample_loaded :: broker_state where
  "sample_loaded = initial_broker_state\<lparr>bs_residency := [(lit ''m'', sample_record\<lparr>mr_state := Loaded\<rparr>)]\<rparr>"

lemma sample_loaded_reachable: "broker_reachable sample_broker_config sample_loaded"
proof -
  let ?warm = "initial_broker_state\<lparr>bs_residency := [(lit ''m'', sample_record\<lparr>mr_state := Warming\<rparr>)]\<rparr>"
  have "begin_model_warming sample_broker_config sample_telemetry (lit ''m'') sample_registered = (Inr (), ?warm)"
    by (simp add: begin_model_warming_def sample_registered_def sample_record_def sample_spec_def set_residency_def
        broker_reserved_gpu_usage_def ledger_resident_def holds_resident_memory_def protected_gpu_vram_used_def
        vram_ceiling_def initial_broker_state_def no_reservations_def no_gpu_usage_def sample_snapshot_def
        sample_broker_config_def sat_add_def u64_max_def Let_def)
  with reach_step [OF sample_registered_reachable op_warming, of sample_telemetry "lit ''m''"]
  have w: "broker_reachable sample_broker_config ?warm" by simp
  have "mark_model_loaded sample_broker_config sample_telemetry (lit ''m'') (ms_envelope sample_spec) ?warm = (Inr (), sample_loaded)"
    by (simp add: mark_model_loaded_def validate_envelope_def sample_loaded_def sample_record_def sample_spec_def
        set_residency_def
        broker_reserved_gpu_usage_def ledger_resident_def holds_resident_memory_def protected_gpu_vram_used_def
        vram_ceiling_def initial_broker_state_def no_reservations_def no_gpu_usage_def sample_snapshot_def
        sample_broker_config_def sat_add_def u64_max_def Let_def)
  with reach_step [OF w op_loaded, of sample_telemetry "lit ''m''" "ms_envelope sample_spec"] show ?thesis by simp
qed

text \<open>The sample job running on the registered, loaded model.\<close>

definition sample_in_flight :: broker_state where
  "sample_in_flight = snd (submit sample_broker_config sample_telemetry sample_job sample_loaded)"

lemma sample_in_flight_reachable: "broker_reachable sample_broker_config sample_in_flight"
  unfolding sample_in_flight_def
  by (rule reach_step [OF sample_loaded_reachable op_submit])
    (simp_all add: room_for_job_def sample_loaded_def initial_broker_state_def u32_max_def)

lemma sample_in_flight_fields:
  "bs_residency sample_in_flight = [(lit ''m'', sample_record\<lparr>mr_state := InFlight, mr_active_jobs := 1\<rparr>)]"
  "hm_get (holders sample_in_flight) (lit ''job'') = Some (sample_job, sample_target)"
proof -
  let ?o = "observe sample_broker_config sample_snapshot no_gpu_usage sample_loaded"
  have o: "bs_residency sample_loaded = [(lit ''m'', sample_record\<lparr>mr_state := Loaded\<rparr>)]" "bs_queued sample_loaded = []"
    "bs_reservations sample_loaded = no_reservations" "bs_target_health sample_loaded = []"
    "bs_utterance_bindings sample_loaded = []" "hm_get (bs_active sample_loaded) (rj_job_id sample_job) = None"
    by (simp_all add: sample_loaded_def initial_broker_state_def)
  have sup: "supersede_queued sample_broker_config sample_snapshot sample_job ?o = ?o"
    by (simp add: supersede_queued_def sample_job_def)
  have "\<not> job_id_in_use (rj_job_id sample_job) ?o" by (simp add: job_id_in_use_def o)
  moreover have "drop_before_admission sample_broker_config sample_snapshot sample_job ?o = None"
    by (simp add: drop_before_admission_def is_stale_def sample_job_def)
  moreover have "select_target sample_broker_config sample_snapshot ?o sample_job True = Some (sample_target, AdmittedPrimary)"
    by (simp add: o select_target_def job_targets_def target_admissible_def bound_target_def allows_def
      is_target_quarantined_def target_fits_def effective_job_estimate_def residency_available_def vram_ceiling_def
      committed_vram_def committed_ram_def protected_gpu_vram_used_def u64_max_def Let_def holds_resident_memory_def
      protected_system_ram_used_def broker_reserved_gpu_usage_def ledger_resident_def sat_add_def
      sample_broker_defs sample_record_def sample_spec_def)
  ultimately have eq: "sample_in_flight = snd (admit sample_broker_config sample_snapshot sample_job sample_target AdmittedPrimary ?o)"
    by (simp add: sample_in_flight_def submit_def submit_locked_def sup Let_def case_prod_unfold)
  show "bs_residency sample_in_flight = [(lit ''m'', sample_record\<lparr>mr_state := InFlight, mr_active_jobs := 1\<rparr>)]"
    unfolding eq admit_simps
    by (simp add: reserve_def registered_model_for_target_def o sample_record_def sample_spec_def sample_target_def
        Let_def sat_add32_def u32_max_def)
  show "hm_get (holders sample_in_flight) (lit ''job'') = Some (sample_job, sample_target)"
    unfolding eq holders_admit by (simp add: sample_job_def)
qed

text \<open>Clearing a quarantine forgets running jobs. A quarantined model keeps its memory in the ledger
  while jobs run on it, but \<open>clear_model_quarantine\<close> takes it to cold without looking at them: there
  is a reachable state in which a job runs on a model that the ledger holds for cold, with the job
  still counted and none of the model's resident memory accounted for.\<close>

theorem clear_quarantine_forgets_running_job:
  "\<exists>cfg st k job t m r. broker_reachable cfg st \<and> hm_get (holders st) k = Some (job, t) \<and> ct_model_id t = Some m
     \<and> hm_get (bs_residency st) m = Some r \<and> mr_state r = Cold \<and> mr_active_jobs r = 1
     \<and> 0 < ge_resident_bytes (ms_envelope (mr_spec r)) \<and> ledger_resident (bs_residency st) = 0"
proof -
  let ?q = "snd (quarantine_model_residency (lit ''m'') 0 sample_in_flight)"
  let ?c = "snd (clear_model_quarantine sample_telemetry (lit ''m'') ?q)"
  have q: "broker_reachable sample_broker_config ?q" by (rule reach_step [OF sample_in_flight_reachable op_quarantine])
  have c: "broker_reachable sample_broker_config ?c" by (rule reach_step [OF q op_clear])
  have h: "hm_get (holders ?c) (lit ''job'') = Some (sample_job, sample_target)"
    using same_leases_residency_ops(5) [of sample_in_flight "lit ''m''" 0]
      same_leases_residency_ops(6) [of ?q sample_telemetry "lit ''m''"] sample_in_flight_fields(2)
    by (simp add: same_leases_def)
  have snap: "read_snapshot sample_telemetry = Inr sample_snapshot"
    by (simp add: read_snapshot_def sample_telemetry_def sample_snapshot_def validate_snapshot_def)
  have r: "bs_residency ?c = [(lit ''m'', sample_record\<lparr>mr_state := Cold, mr_active_jobs := 1, mr_quarantine_until_ms := None\<rparr>)]"
    by (simp add: quarantine_model_residency_def clear_model_quarantine_def snap sample_in_flight_fields(1) sample_record_def
        set_residency_def)
  show ?thesis
    by (rule exI [of _ sample_broker_config], rule exI [of _ ?c], rule exI [of _ "lit ''job''"], rule exI [of _ sample_job],
        rule exI [of _ sample_target], rule exI [of _ "lit ''m''"],
        rule exI [of _ "sample_record\<lparr>mr_state := Cold, mr_active_jobs := 1, mr_quarantine_until_ms := None\<rparr>"])
      (simp add: c h r sample_target_def sample_record_def sample_spec_def ledger_resident_def holds_resident_memory_def)
qed


definition sample_other_speech_job :: resource_job where
  "sample_other_speech_job = sample_speech_job\<lparr>rj_primary := (rj_primary sample_speech_job)\<lparr>ct_target_id := lit ''cpu1''\<rparr>\<rparr>"

definition sample_both :: broker_state where
  "sample_both = snd (submit sample_broker_config sample_telemetry sample_other_speech_job sample_running)"

lemma sample_both_facts:
  "broker_reachable sample_broker_config sample_both"
  "hm_get (holders sample_both) (lit ''job'') = Some (sample_job, sample_target)"
  "hm_get (holders sample_both) (lit ''say'') = Some (sample_other_speech_job, rj_primary sample_other_speech_job)"
proof -
  let ?o = "observe sample_broker_config sample_snapshot no_gpu_usage sample_running"
  show "broker_reachable sample_broker_config sample_both"
    unfolding sample_both_def
    by (rule reach_step [OF sample_running_reachable op_submit]) (simp_all add: room_for_job_def sample_running_fields u32_max_def)
  have v: "validate_job sample_other_speech_job = Inr ()"
    by (simp add: validate_job_def sample_other_speech_job_def sample_speech_job_def sample_local_def is_blank_iff lit_def
        is_whitespace_def)
  have sup: "supersede_queued sample_broker_config sample_snapshot sample_other_speech_job ?o = ?o"
    by (simp add: supersede_queued_def sample_other_speech_job_def sample_speech_job_def)
  have "\<not> job_id_in_use (rj_job_id sample_other_speech_job) ?o"
    by (simp add: job_id_in_use_def sample_running_fields sample_other_speech_job_def sample_speech_job_def)
  moreover have "drop_before_admission sample_broker_config sample_snapshot sample_other_speech_job ?o = None"
    by (simp add: drop_before_admission_def sample_other_speech_job_def sample_speech_job_def is_late_def is_stale_def)
  moreover have "select_target sample_broker_config sample_snapshot ?o sample_other_speech_job True
      = Some (rj_primary sample_other_speech_job, AdmittedPrimary)"
    by (simp add: select_target_def job_targets_def target_admissible_def bound_target_def allows_def
        is_target_quarantined_def target_fits_def effective_job_estimate_def residency_available_def vram_ceiling_def
        committed_vram_def committed_ram_def protected_gpu_vram_used_def u64_max_def Let_def
        protected_system_ram_used_def broker_reserved_gpu_usage_def ledger_resident_def sat_add_def
        sample_running_fields sample_other_speech_job_def sample_speech_job_def sample_broker_defs)
  ultimately have eq: "sample_both = snd (admit sample_broker_config sample_snapshot sample_other_speech_job
      (rj_primary sample_other_speech_job) AdmittedPrimary ?o)"
    by (simp add: sample_both_def submit_def v submit_locked_def sup Let_def case_prod_unfold)
  have "holders sample_running = [(lit ''job'', sample_job, sample_target)]"
    by (simp add: holders_def sample_running_fields)
  then show "hm_get (holders sample_both) (lit ''job'') = Some (sample_job, sample_target)"
    "hm_get (holders sample_both) (lit ''say'') = Some (sample_other_speech_job, rj_primary sample_other_speech_job)"
    unfolding eq holders_admit by (simp_all add: sample_other_speech_job_def sample_speech_job_def)
qed

lemma mark_output_binding:
  assumes "hm_get (holders st) k = Some (job, t)" "kind_utterance_id (rj_kind job) = Some u"
  shows "binding_of (snd (mark_output_started k st)) u = Some (ct_target_id t)"
    and "holders (snd (mark_output_started k st)) = holders st"
proof -
  from assms(1) obtain a where "hm_get (bs_active st) k = Some a" "ac_job a = job" "ac_target a = t"
    by (auto simp: hm_get_holders)
  with assms(2) show "binding_of (snd (mark_output_started k st)) u = Some (ct_target_id t)"
    by (simp add: mark_output_started_def binding_of_def)
  show "holders (snd (mark_output_started k st)) = holders st"
    using same_leases_output by (simp add: same_leases_def)
qed

text \<open>The binding of an utterance is not immutable. The comment on \<open>mark_output_started\<close> says that the
  binding cannot change once output began; but two jobs of one utterance that run on different targets
  both bind it, and the second call overwrites the first binding: such a pair of calls is possible
  in a reachable state.\<close>

theorem utterance_binding_overwritten:
  "\<exists>cfg st k k' u i i'. broker_reachable cfg st \<and> i \<noteq> i'
     \<and> binding_of (snd (mark_output_started k st)) u = Some i
     \<and> binding_of (snd (mark_output_started k' (snd (mark_output_started k st)))) u = Some i'"
proof -
  let ?s = "snd (mark_output_started (lit ''job'') sample_both)"
  have u: "kind_utterance_id (rj_kind sample_job) = Some (lit ''u'')"
    "kind_utterance_id (rj_kind sample_other_speech_job) = Some (lit ''u'')"
    by (simp_all add: sample_job_def sample_other_speech_job_def sample_speech_job_def)
  note one = mark_output_binding [OF sample_both_facts(2) u(1)]
  have "hm_get (holders ?s) (lit ''say'') = Some (sample_other_speech_job, rj_primary sample_other_speech_job)"
    using one(2) sample_both_facts(3) by simp
  note two = mark_output_binding(1) [OF this u(2)]
  have "ct_target_id sample_target \<noteq> ct_target_id (rj_primary sample_other_speech_job)"
    by (simp add: sample_target_def sample_other_speech_job_def)
  with sample_both_facts(1) one(1) two show ?thesis by blast
qed

end
