(* ===== verification/Turn_Supervisor.thy ===== *)
theory Turn_Supervisor
  imports Turn_Execution Generation_Tokens Broker_Properties
begin

text \<open>
  The turn supervisor, \<open>TurnSupervisor\<close> and \<open>TurnHandle\<close> of \<open>crates/runtime-core/src/supervisor.rs\<close>: starting a turn,
  barge-in, shutdown and the admission of a turn through the resource broker, and the world of tasks around it.
  The host's \<open>TurnResourcePlanner\<close> and the telemetry source are parameters; every call of the broker that reads
  telemetry takes the reading it gets. The tokens of \<open>tokio_util\<close> are the parameter of the theory
  of cancellation generations.
\<close>

section \<open>Starting a turn\<close>

datatype start_turn_error =
    InvalidRequest validation_error
  | ShuttingDown
  | StartResourceBroker broker_error
  | ResourceNotAdmitted admission_outcome rstr

record 'tok active_turn =
  at_identity :: turn_identity
  at_generation :: "'tok generation_token"
  at_resource_job_id :: "rstr option"

text \<open>\<open>TurnResourceAdmissionRuntime\<close>: the broker's configuration and the host's planner.\<close>

record turn_admission =
  ta_config :: broker_config
  ta_plan :: "turn_request \<Rightarrow> turn_identity \<Rightarrow> (broker_error, turn_resource_plan) result"

record 'tok turn_handle =
  th_identity :: turn_identity
  th_generation :: "'tok generation_token"
  th_resource_job :: "rstr option"

text \<open>\<open>su_stops\<close> are the requests to the audio sink to stop; a failing sink is only logged. \<open>su_broker\<close> is the
  process-wide broker, which the supervisor shares with other clients.\<close>

record ('st, 'tok) supervisor =
  su_generations :: "'st cancel_world"
  su_current :: "'tok active_turn option"
  su_shutting_down :: bool
  su_broker :: broker_state
  su_stops :: "turn_identity list"

definition build_supervisor :: "supervisor_config \<Rightarrow> 'st \<Rightarrow> broker_state \<Rightarrow> ('st, 'tok) supervisor option" where
  "build_supervisor cfg tokens broker =
     (if 0 < sc_event_channel_capacity cfg \<and> 0 < sc_sentence_channel_capacity cfg
      then Some \<lparr>su_generations = \<lparr>cw_current = 0, cw_tokens = tokens\<rparr>, su_current = None, su_shutting_down = False,
             su_broker = broker, su_stops = []\<rparr>
      else None)"

definition turn_job_id :: "turn_identity \<Rightarrow> rstr" where
  "turn_job_id i = lit ''turn/'' @ ti_session_id i @ lit ''/'' @ ti_turn_id i @ lit ''/'' @ dec (ti_generation i)"

definition turn_privacy :: "turn_request \<Rightarrow> broker_privacy" where
  "turn_privacy request =
     \<lparr>bp_execution_mode = tr_execution_mode request, bp_network_policy = tr_network_policy request,
      bp_authorized_cloud_providers = tr_authorized_cloud_providers request,
      bp_allow_retaining_providers = tr_allow_retaining_providers request,
      bp_allow_local_to_cloud_fallback = tr_allow_local_to_cloud_fallback request\<rparr>"

definition turn_job :: "turn_request \<Rightarrow> turn_identity \<Rightarrow> turn_resource_plan \<Rightarrow> resource_job" where
  "turn_job request i plan =
     \<lparr>rj_job_id = turn_job_id i, rj_kind = InteractiveTurn (display_identity i), rj_priority = tp_priority plan,
      rj_deadline_ms = tp_deadline_ms plan, rj_primary = tp_primary plan, rj_fallbacks = tp_fallbacks plan,
      rj_drop_policy = tp_drop_policy plan, rj_privacy = turn_privacy request\<rparr>"

text \<open>The two readings are those of \<open>submit\<close> and of the \<open>cancel\<close> that withdraws a job that was not admitted.\<close>

definition admit_turn_resources ::
  "turn_admission option \<Rightarrow> telemetry_reading \<Rightarrow> telemetry_reading \<Rightarrow> turn_request \<Rightarrow> turn_identity \<Rightarrow> broker_state
     \<Rightarrow> (start_turn_error, resource_lease option \<times> rstr option) result \<times> broker_state" where
  "admit_turn_resources adm tm_submit tm_cancel request i st =
     (case adm of
        None \<Rightarrow> (Inr (None, None), st)
      | Some a \<Rightarrow>
          (case ta_plan a request i of
             Inl e \<Rightarrow> (Inl (StartResourceBroker e), st)
           | Inr plan \<Rightarrow>
               (case submit (ta_config a) tm_submit (turn_job request i plan) st of
                  (Inl e, st) \<Rightarrow> (Inl (StartResourceBroker e), st)
                | (Inr sub, st) \<Rightarrow>
                    (case sb_lease sub of
                       Some l \<Rightarrow> (Inr (Some l, Some (turn_job_id i)), st)
                     | None \<Rightarrow>
                         (Inl (ResourceNotAdmitted (ad_outcome (sb_diagnostic sub)) (ad_reason (sb_diagnostic sub))),
                          snd (cancel (ta_config a) tm_cancel (turn_job_id i)
                                 (lit ''turn start requires immediate admission'') st))))))"

text \<open>The barge-in under the start gate is one step. In the code the lock of \<open>current\<close> is released between taking the active turn and
  cancelling its generation; the gate keeps every other start and barge-in out of that window, the barge-in of a
  shutdown as well, and a turn that finishes there finds nothing to clear, as it does after the step. What can be observed in between
  is that \<open>active_turn\<close> already returns nothing while the turn that was taken is about to be cancelled.\<close>

definition barge_in_locked ::
  "('st, 'tok) token_api \<Rightarrow> turn_admission option \<Rightarrow> telemetry_reading \<Rightarrow> rstr \<Rightarrow> ('st, 'tok) supervisor
     \<Rightarrow> turn_identity option \<times> ('st, 'tok) supervisor" where
  "barge_in_locked api adm tm reason su =
     (case su_current su of
        None \<Rightarrow> (None, su)
      | Some active \<Rightarrow>
          (Some (at_identity active),
           su\<lparr>su_current := None,
              su_generations := gt_cancel api (at_generation active) (su_generations su),
              su_broker := (case (adm, at_resource_job_id active) of
                              (Some a, Some job_id) \<Rightarrow> snd (cancel (ta_config a) tm job_id reason (su_broker su))
                            | _ \<Rightarrow> su_broker su),
              su_stops := su_stops su @ [at_identity active]\<rparr>))"

text \<open>\<open>start_turn\<close> in its three parts: before the start gate, the barge-in, and the rest under the gate.\<close>

definition start_check :: "turn_request \<Rightarrow> ('st, 'tok) supervisor \<Rightarrow> (start_turn_error, unit) result" where
  "start_check request su =
     (case validate_request request of
        Inl e \<Rightarrow> Inl (InvalidRequest e)
      | Inr _ \<Rightarrow> if su_shutting_down su then Inl ShuttingDown else Inr ())"

text \<open>The spawned task of a turn: what it owns besides the request.\<close>

record 'tok turn_task =
  tt_identity :: turn_identity
  tt_generation :: "'tok generation_token"
  tt_lease :: "resource_lease option"

definition start_launch ::
  "('st, 'tok) token_api \<Rightarrow> turn_admission option \<Rightarrow> telemetry_reading \<Rightarrow> telemetry_reading \<Rightarrow> turn_request \<Rightarrow> ('st, 'tok) supervisor
     \<Rightarrow> (start_turn_error, 'tok turn_handle \<times> 'tok turn_task) result \<times> ('st, 'tok) supervisor" where
  "start_launch api adm tm_submit tm_cancel request su =
     (case next_generation api (su_generations su) of
        (generation, world) \<Rightarrow>
          (let i = \<lparr>ti_session_id = tr_session_id request, ti_turn_id = tr_turn_id request,
                    ti_generation = gt_generation generation\<rparr>
           in case admit_turn_resources adm tm_submit tm_cancel request i (su_broker su) of
                (Inl e, broker) \<Rightarrow> (Inl e, su\<lparr>su_generations := world, su_broker := broker\<rparr>)
              | (Inr (lease, job_id), broker) \<Rightarrow>
                  (Inr (\<lparr>th_identity = i, th_generation = generation,
                         th_resource_job = (case adm of None \<Rightarrow> None | Some _ \<Rightarrow> job_id)\<rparr>,
                        \<lparr>tt_identity = i, tt_generation = generation, tt_lease = lease\<rparr>),
                   su\<lparr>su_generations := world, su_broker := broker,
                      su_current := Some \<lparr>at_identity = i, at_generation = generation, at_resource_job_id = job_id\<rparr>\<rparr>)))"

definition superseded :: rstr where
  "superseded = lit ''superseded by a newer foreground turn''"

text \<open>The whole call, when nothing interleaves.\<close>

definition start_turn ::
  "('st, 'tok) token_api \<Rightarrow> turn_admission option \<Rightarrow> telemetry_reading \<Rightarrow> telemetry_reading \<Rightarrow> telemetry_reading \<Rightarrow> turn_request
     \<Rightarrow> ('st, 'tok) supervisor \<Rightarrow> (start_turn_error, 'tok turn_handle \<times> 'tok turn_task) result \<times> ('st, 'tok) supervisor" where
  "start_turn api adm tm_barge tm_submit tm_cancel request su =
     (case start_check request su of
        Inl e \<Rightarrow> (Inl e, su)
      | Inr _ \<Rightarrow> start_launch api adm tm_submit tm_cancel request (snd (barge_in_locked api adm tm_barge superseded su)))"

definition barge_in ::
  "('st, 'tok) token_api \<Rightarrow> turn_admission option \<Rightarrow> telemetry_reading \<Rightarrow> rstr \<Rightarrow> ('st, 'tok) supervisor
     \<Rightarrow> turn_identity option \<times> ('st, 'tok) supervisor" where
  "barge_in = barge_in_locked"

definition begin_shutdown :: "('st, 'tok) supervisor \<Rightarrow> ('st, 'tok) supervisor" where
  "begin_shutdown su = su\<lparr>su_shutting_down := True\<rparr>"

definition shutdown ::
  "('st, 'tok) token_api \<Rightarrow> turn_admission option \<Rightarrow> telemetry_reading \<Rightarrow> ('st, 'tok) supervisor \<Rightarrow> ('st, 'tok) supervisor" where
  "shutdown api adm tm su = snd (barge_in_locked api adm tm (lit ''runtime shutdown'') (begin_shutdown su))"

definition active_turn :: "('st, 'tok) supervisor \<Rightarrow> turn_identity option" where
  "active_turn su = map_option at_identity (su_current su)"

definition clear_if_current :: "turn_identity \<Rightarrow> ('st, 'tok) supervisor \<Rightarrow> ('st, 'tok) supervisor" where
  "clear_if_current i su =
     (case su_current su of
        Some active \<Rightarrow> if ti_generation (at_identity active) = ti_generation i then su\<lparr>su_current := None\<rparr> else su
      | None \<Rightarrow> su)"

definition handle_cancel ::
  "('st, 'tok) token_api \<Rightarrow> turn_admission option \<Rightarrow> telemetry_reading \<Rightarrow> 'tok turn_handle \<Rightarrow> ('st, 'tok) supervisor \<Rightarrow> ('st, 'tok) supervisor" where
  "handle_cancel api adm tm h su =
     su\<lparr>su_generations := gt_cancel api (th_generation h) (su_generations su),
        su_broker := (case (adm, th_resource_job h) of
                        (Some a, Some job_id) \<Rightarrow> snd (cancel (ta_config a) tm job_id (lit ''turn handle cancelled'') (su_broker su))
                      | _ \<Rightarrow> su_broker su)\<rparr>"

section \<open>The task of a turn\<close>

fun completion_of :: "turn_lifecycle \<Rightarrow> completion_status" where
  "completion_of LcCompleted = CsCompleted"
| "completion_of LcCancelled = CsCancelled"
| "completion_of _ = CsFailed"

text \<open>The end of \<open>run_turn\<close> in the task: the lease is completed with the outcome's lifecycle.\<close>

definition task_finish ::
  "turn_admission option \<Rightarrow> telemetry_reading \<Rightarrow> turn_lifecycle \<Rightarrow> 'tok turn_task \<Rightarrow> ('st, 'tok) supervisor \<Rightarrow> ('st, 'tok) supervisor" where
  "task_finish adm tm lifecycle t su =
     (case (adm, tt_lease t) of
        (Some a, Some l) \<Rightarrow> su\<lparr>su_broker := lease_complete_unmeasured (ta_config a) tm l (completion_of lifecycle) (su_broker su)\<rparr>
      | _ \<Rightarrow> su)"

text \<open>The bridge task: the broker's cancellation of the lease reaches the generation.\<close>

definition broker_cancelled :: "'tok turn_task \<Rightarrow> ('st, 'tok) supervisor \<Rightarrow> bool" where
  "broker_cancelled t su =
     (case tt_lease t of
        None \<Rightarrow> False
      | Some l \<Rightarrow> (case hm_get (bs_active (su_broker su)) (rl_job_id l) of None \<Rightarrow> False | Some a \<Rightarrow> ac_cancelled_by_broker a))"

definition bridge_cancel :: "('st, 'tok) token_api \<Rightarrow> 'tok turn_task \<Rightarrow> ('st, 'tok) supervisor \<Rightarrow> ('st, 'tok) supervisor" where
  "bridge_cancel api t su = su\<lparr>su_generations := gt_cancel api (tt_generation t) (su_generations su)\<rparr>"

section \<open>Interleavings\<close>

text \<open>Callers and tasks around one supervisor: calls of \<open>start_turn\<close> that have passed the check and wait for the
  gate, the call that holds it, the running tasks, those that have yet to clear themselves, and all handles.\<close>

record ('st, 'tok) world =
  wd_supervisor :: "('st, 'tok) supervisor"
  wd_waiting :: "turn_request list"
  wd_gate :: "turn_request option"
  wd_tasks :: "'tok turn_task list"
  wd_ended :: "'tok turn_task list"
  wd_handles :: "'tok turn_handle list"

definition initial_world :: "('st, 'tok) supervisor \<Rightarrow> ('st, 'tok) world" where
  "initial_world su = \<lparr>wd_supervisor = su, wd_waiting = [], wd_gate = None, wd_tasks = [], wd_ended = [], wd_handles = []\<rparr>"

text \<open>What a step does to the foreground slot.\<close>

datatype slot_event = SlotSet turn_identity | SlotClear | SlotDone nat | SlotKeep

text \<open>One step of some caller or task. The start gate serialises barge-in, shutdown and the gated part of
  \<open>start_turn\<close>; the generation counter, the current turn and the broker are each updated atomically. A launch
  presupposes that the 64-bit generation counter does not wrap. Other clients of the broker perform any
  broker operation.\<close>

inductive world_step ::
  "('st, 'tok) token_api \<Rightarrow> turn_admission option \<Rightarrow> ('st, 'tok) world \<Rightarrow> slot_event \<Rightarrow> ('st, 'tok) world \<Rightarrow> bool" for api adm where
  ws_request: "start_check request (wd_supervisor w) = Inr () \<Longrightarrow>
     world_step api adm w SlotKeep (w\<lparr>wd_waiting := wd_waiting w @ [request]\<rparr>)"
| ws_enter: "wd_gate w = None \<Longrightarrow> request \<in> set (wd_waiting w) \<Longrightarrow>
     world_step api adm w SlotClear
       (w\<lparr>wd_gate := Some request, wd_waiting := remove1 request (wd_waiting w),
          wd_supervisor := snd (barge_in_locked api adm tm superseded (wd_supervisor w))\<rparr>)"
| ws_refused: "wd_gate w = Some request \<Longrightarrow> cw_current (su_generations (wd_supervisor w)) + 1 < 2 ^ 64 \<Longrightarrow>
     start_launch api adm tm tm' request (wd_supervisor w) = (Inl e, su') \<Longrightarrow>
     world_step api adm w SlotKeep (w\<lparr>wd_gate := None, wd_supervisor := su'\<rparr>)"
| ws_launch: "wd_gate w = Some request \<Longrightarrow> cw_current (su_generations (wd_supervisor w)) + 1 < 2 ^ 64 \<Longrightarrow>
     start_launch api adm tm tm' request (wd_supervisor w) = (Inr (h, t), su') \<Longrightarrow>
     world_step api adm w (SlotSet (tt_identity t))
       (w\<lparr>wd_gate := None, wd_supervisor := su', wd_tasks := t # wd_tasks w, wd_handles := h # wd_handles w\<rparr>)"
| ws_barge_in: "wd_gate w = None \<Longrightarrow>
     world_step api adm w SlotClear (w\<lparr>wd_supervisor := snd (barge_in api adm tm reason (wd_supervisor w))\<rparr>)"
| ws_shutdown: "world_step api adm w SlotKeep (w\<lparr>wd_supervisor := begin_shutdown (wd_supervisor w)\<rparr>)"
| ws_finish: "t \<in> set (wd_tasks w) \<Longrightarrow> is_terminal lifecycle \<Longrightarrow>
     world_step api adm w SlotKeep
       (w\<lparr>wd_supervisor := task_finish adm tm lifecycle t (wd_supervisor w),
          wd_tasks := remove1 t (wd_tasks w), wd_ended := t # wd_ended w\<rparr>)"
| ws_clear: "t \<in> set (wd_ended w) \<Longrightarrow>
     world_step api adm w (SlotDone (ti_generation (tt_identity t)))
       (w\<lparr>wd_supervisor := clear_if_current (tt_identity t) (wd_supervisor w), wd_ended := remove1 t (wd_ended w)\<rparr>)"
| ws_cancel: "h \<in> set (wd_handles w) \<Longrightarrow>
     world_step api adm w SlotKeep (w\<lparr>wd_supervisor := handle_cancel api adm tm h (wd_supervisor w)\<rparr>)"
| ws_bridge: "t \<in> set (wd_tasks w) \<Longrightarrow> broker_cancelled t (wd_supervisor w) \<Longrightarrow>
     world_step api adm w SlotKeep (w\<lparr>wd_supervisor := bridge_cancel api t (wd_supervisor w)\<rparr>)"
| ws_broker: "adm = Some a \<Longrightarrow> broker_op (ta_config a) (su_broker (wd_supervisor w)) broker \<Longrightarrow>
     world_step api adm w SlotKeep (w\<lparr>wd_supervisor := (wd_supervisor w)\<lparr>su_broker := broker\<rparr>\<rparr>)"

inductive world_run ::
  "('st, 'tok) token_api \<Rightarrow> turn_admission option \<Rightarrow> ('st, 'tok) world \<Rightarrow> slot_event list \<Rightarrow> ('st, 'tok) world \<Rightarrow> bool" for api adm where
  wr_done: "world_run api adm w [] w"
| wr_step: "world_run api adm w evs w1 \<Longrightarrow> world_step api adm w1 ev w2 \<Longrightarrow> world_run api adm w (evs @ [ev]) w2"

end
