(* ===== verification/Lane_Logic.thy ===== *)
theory Lane_Logic
  imports Turn_Execution
begin

text \<open>
  Rules for reasoning about lanes: \<open>keeps f m\<close> says that \<open>m\<close> leaves the projection \<open>f\<close> of the state unchanged on
  every path, and \<open>ltriple P m Q E\<close> is a Hoare triple with a postcondition for a value and one for an
  error. Panics satisfy both, as partial correctness; that the turn returns is a separate statement.
\<close>

section \<open>Projections that a lane keeps\<close>

named_theorems keeps_rules

definition keeps :: "(lane_state \<Rightarrow> 'b) \<Rightarrow> 'a lane \<Rightarrow> bool" where
  "keeps f m \<longleftrightarrow> (\<forall>s r s'. m s = Some (r, s') \<longrightarrow> f s' = f s)"

text \<open>A projection on which clock, registry, timing spans and events have no influence.\<close>

definition unobserved :: "(lane_state \<Rightarrow> 'b) \<Rightarrow> bool" where
  "unobserved f \<longleftrightarrow>
     (\<forall>s x. f (s\<lparr>ls_time := x\<rparr>) = f s) \<and> (\<forall>s x. f (s\<lparr>ls_registry := x\<rparr>) = f s)
     \<and> (\<forall>s x. f (s\<lparr>ls_collector := x\<rparr>) = f s) \<and> (\<forall>s x. f (s\<lparr>ls_events := x\<rparr>) = f s)"

lemma keepsD: "keeps f m \<Longrightarrow> m s = Some (r, s') \<Longrightarrow> f s' = f s"
  by (auto simp: keeps_def)

lemma keeps_lret [keeps_rules]: "keeps f (lret x)"
  by (simp add: keeps_def lret_def)

lemma keeps_lfail [keeps_rules]: "keeps f (lfail e)"
  by (simp add: keeps_def lfail_def)

lemma keeps_lpanic [keeps_rules]: "keeps f lpanic"
  by (simp add: keeps_def lpanic_def)

lemma keeps_lbind [keeps_rules]: "keeps f m \<Longrightarrow> (\<And>x. keeps f (k x)) \<Longrightarrow> keeps f (lbind m k)"
  unfolding keeps_def lbind_def by (fastforce split: option.splits sum.splits prod.splits)

lemma keeps_lthen [keeps_rules]: "keeps f m \<Longrightarrow> keeps f k \<Longrightarrow> keeps f (lthen m k)"
  by (simp add: lthen_def keeps_lbind)

lemma keeps_on_error [keeps_rules]: "keeps f m \<Longrightarrow> keeps f c \<Longrightarrow> keeps f (on_error m c)"
  unfolding keeps_def on_error_def by (fastforce split: option.splits sum.splits prod.splits)

lemma keeps_lcatch [keeps_rules]: "keeps f m \<Longrightarrow> keeps f (lcatch m)"
  unfolding keeps_def lcatch_def by (fastforce split: option.splits prod.splits)

lemma keeps_lmodify [keeps_rules]: "(\<And>s. f (g s) = f s) \<Longrightarrow> keeps f (lmodify g)"
  by (simp add: keeps_def lmodify_def)

lemma keeps_ask [keeps_rules]: "unobserved f \<Longrightarrow> keeps f (ask g)"
  by (simp add: keeps_def ask_def unobserved_def)

lemma keeps_lcheck [keeps_rules]: "unobserved f \<Longrightarrow> keeps f (lcheck env)"
  by (auto simp: lcheck_def intro!: keeps_rules)

lemma keeps_emit [keeps_rules]: "unobserved f \<Longrightarrow> keeps f (emit env ev)"
  by (auto simp: emit_def unobserved_def intro!: keeps_lthen keeps_lmodify keeps_lcheck)

lemma keeps_emitters [keeps_rules]:
  assumes "unobserved f"
  shows "keeps f (emit_lifecycle env i stage)" "keeps f (emit_lane env i lane lstage)" "keeps f (emit_degraded env i d reason)"
  by (simp_all add: assms emit_lifecycle_def emit_lane_def emit_degraded_def keeps_emit)

lemma keeps_begin_span [keeps_rules]: "unobserved f \<Longrightarrow> keeps f (begin_span env name)"
  by (auto simp: begin_span_def intro!: keeps_rules)

lemma keeps_emit_timing [keeps_rules]: "unobserved f \<Longrightarrow> keeps f (emit_timing env i g out attrs)"
  unfolding emit_timing_def
proof (intro keeps_lbind keeps_ask)
  fix now assume f: "unobserved f"
  show "keeps f (\<lambda>s. case finish_guard g out attrs now (ls_collector s) of
      (sp, _, c) \<Rightarrow> emit env (EvTiming i sp) (s\<lparr>ls_collector := c\<rparr>))"
    using keeps_emit [OF f] f by (auto simp: keeps_def unobserved_def split: prod.splits)
qed

lemma keeps_drop_span [keeps_rules]: "unobserved f \<Longrightarrow> keeps f (drop_span env g)"
  by (cases g) (auto simp: drop_span_def unobserved_def intro!: keeps_lret keeps_lbind keeps_lmodify keeps_ask)

lemma keeps_acquire [keeps_rules]: "unobserved f \<Longrightarrow> keeps f (acquire env cfg d)"
  unfolding acquire_def
  by (intro keeps_lbind keeps_ask) (auto simp: keeps_def unobserved_def split: prod.splits)

lemma keeps_permits [keeps_rules]:
  assumes "unobserved f"
  shows "keeps f (permit_success cfg d)" "keeps f (permit_failure env cfg d)" "keeps f (permit_drop cfg d)"
proof -
  have "keeps f (settle cfg d ev)" for ev
    using assms by (auto simp: settle_def unobserved_def intro!: keeps_lmodify)
  with assms show "keeps f (permit_success cfg d)" "keeps f (permit_failure env cfg d)" "keeps f (permit_drop cfg d)"
    by (auto simp: permit_success_def permit_failure_def permit_drop_def intro!: keeps_lbind keeps_ask)
qed

section \<open>Operations whose only error is cancellation\<close>

named_theorems cancels_rules

definition cancels :: "'a lane \<Rightarrow> bool" where
  "cancels m \<longleftrightarrow> (\<forall>s e s'. m s = Some (Inl e, s') \<longrightarrow> e = SupCancelled)"

lemma cancels_basic [cancels_rules]:
  "cancels (lret x)" "cancels lpanic" "cancels (lfail SupCancelled)" "cancels (lmodify g)" "cancels (ask h)"
  by (simp_all add: cancels_def lret_def lpanic_def lfail_def lmodify_def ask_def)

lemma cancels_lbind [cancels_rules]: "cancels m \<Longrightarrow> (\<And>x. cancels (k x)) \<Longrightarrow> cancels (lbind m k)"
  unfolding cancels_def lbind_def by (fastforce split: option.splits sum.splits prod.splits)

lemma cancels_lthen [cancels_rules]: "cancels m \<Longrightarrow> cancels k \<Longrightarrow> cancels (lthen m k)"
  by (simp add: lthen_def cancels_lbind)

lemma cancels_on_error [cancels_rules]: "cancels m \<Longrightarrow> cancels (on_error m c)"
  unfolding cancels_def on_error_def by (fastforce split: option.splits sum.splits prod.splits)

lemma cancels_lcheck [cancels_rules]: "cancels (lcheck env)"
  by (auto simp: lcheck_def intro!: cancels_rules)

lemma cancels_emit [cancels_rules]: "cancels (emit env ev)"
  by (auto simp: emit_def intro!: cancels_rules)

lemma cancels_emitters [cancels_rules]:
  "cancels (emit_lifecycle env i stage)" "cancels (emit_lane env i lane lstage)" "cancels (emit_degraded env i d reason)"
  "cancels (begin_span env name)" "cancels (drop_span env g)"
  by (auto simp: emit_lifecycle_def emit_lane_def emit_degraded_def begin_span_def drop_span_def
      split: option.split intro!: cancels_rules)

lemma cancels_emit_timing [cancels_rules]: "cancels (emit_timing env i g out attrs)"
  unfolding emit_timing_def
proof (rule cancels_lbind [OF cancels_basic(5)])
  fix now
  show "cancels (\<lambda>s. case finish_guard g out attrs now (ls_collector s) of
      (sp, _, c) \<Rightarrow> emit env (EvTiming i sp) (s\<lparr>ls_collector := c\<rparr>))"
    using cancels_emit by (fastforce simp: cancels_def split: prod.splits)
qed

lemma cancels_permits [cancels_rules]:
  "cancels (acquire env cfg d)" "cancels (permit_success cfg d)" "cancels (permit_failure env cfg d)" "cancels (permit_drop cfg d)"
proof -
  show "cancels (acquire env cfg d)"
    unfolding acquire_def
    by (rule cancels_lbind [OF cancels_basic(5)]) (auto simp: cancels_def split: prod.splits)
qed (auto simp: permit_success_def permit_failure_def permit_drop_def settle_def intro!: cancels_rules)

section \<open>Triples\<close>

definition ltriple ::
  "(lane_state \<Rightarrow> bool) \<Rightarrow> 'a lane \<Rightarrow> ('a \<Rightarrow> lane_state \<Rightarrow> bool) \<Rightarrow> (supervisor_error \<Rightarrow> lane_state \<Rightarrow> bool) \<Rightarrow> bool" where
  "ltriple P m Q E \<longleftrightarrow>
     (\<forall>s r s'. P s \<longrightarrow> m s = Some (r, s') \<longrightarrow> (case r of Inr x \<Rightarrow> Q x s' | Inl e \<Rightarrow> E e s'))"

lemma ltripleD:
  "ltriple P m Q E \<Longrightarrow> P s \<Longrightarrow> m s = Some (Inr x, s') \<Longrightarrow> Q x s'"
  "ltriple P m Q E \<Longrightarrow> P s \<Longrightarrow> m s = Some (Inl e, s') \<Longrightarrow> E e s'"
  unfolding ltriple_def by (fastforce)+

lemma ltriple_lret: "(\<And>s. P s \<Longrightarrow> Q x s) \<Longrightarrow> ltriple P (lret x) Q E"
  by (simp add: ltriple_def lret_def)

lemma ltriple_lfail: "(\<And>s. P s \<Longrightarrow> E e s) \<Longrightarrow> ltriple P (lfail e) Q E"
  by (simp add: ltriple_def lfail_def)

lemma ltriple_lpanic: "ltriple P lpanic Q E"
  by (simp add: ltriple_def lpanic_def)

lemma ltriple_lbind: "ltriple P m R E \<Longrightarrow> (\<And>x. ltriple (R x) (k x) Q E) \<Longrightarrow> ltriple P (lbind m k) Q E"
  unfolding ltriple_def lbind_def by (fastforce split: option.splits sum.splits prod.splits)

lemma ltriple_lthen: "ltriple P m (\<lambda>_. R) E \<Longrightarrow> ltriple R k Q E \<Longrightarrow> ltriple P (lthen m k) Q E"
  by (simp add: lthen_def ltriple_lbind)

lemma ltriple_conseq:
  "ltriple P' m Q' E' \<Longrightarrow> (\<And>s. P s \<Longrightarrow> P' s) \<Longrightarrow> (\<And>x s. Q' x s \<Longrightarrow> Q x s) \<Longrightarrow> (\<And>e s. E' e s \<Longrightarrow> E e s) \<Longrightarrow> ltriple P m Q E"
  unfolding ltriple_def by (fastforce split: sum.splits)

text \<open>An operation that keeps the part of the state an assertion speaks about.\<close>

lemma ltriple_keeps: "keeps f m \<Longrightarrow> ltriple (\<lambda>s. P (f s)) m (\<lambda>_ s. P (f s)) (\<lambda>_ s. P (f s))"
  unfolding ltriple_def keeps_def by (fastforce split: sum.splits)

lemma ltriple_pure: "(C \<Longrightarrow> ltriple P m Q E) \<Longrightarrow> ltriple (\<lambda>s. C \<and> P s) m Q E"
  unfolding ltriple_def by blast

lemma ltriple_ex: "(\<And>x. C x \<Longrightarrow> ltriple (P x) m Q E) \<Longrightarrow> ltriple (\<lambda>s. \<exists>x. P x s \<and> C x) m Q E"
  unfolding ltriple_def by blast

text \<open>One step that leaves the observed part alone and can only be cancelled.\<close>

lemma ltriple_step:
  assumes "keeps f m" "cancels m" "ltriple (\<lambda>s. f s = x) k Q E" "\<And>s. E SupCancelled s"
  shows "ltriple (\<lambda>s. f s = x) (lthen m k) Q E"
proof (rule ltriple_lthen [OF _ assms(3)])
  show "ltriple (\<lambda>s. f s = x) m (\<lambda>_ s. f s = x) E"
    using assms(1,2,4) unfolding ltriple_def keeps_def cancels_def by (fastforce split: sum.splits)
qed

lemma ltriple_step_bind:
  assumes "keeps f m" "cancels m" "\<And>y. ltriple (\<lambda>s. f s = x) (k y) Q E" "\<And>s. E SupCancelled s"
  shows "ltriple (\<lambda>s. f s = x) (lbind m k) Q E"
proof (rule ltriple_lbind [OF _ assms(3)])
  show "ltriple (\<lambda>s. f s = x) m (\<lambda>_ s. f s = x) E"
    using assms(1,2,4) unfolding ltriple_def keeps_def cancels_def by (fastforce split: sum.splits)
qed

lemma ltriple_pass:
  assumes "cancels m" "ltriple (\<lambda>_. True) k Q E" "\<And>s. E SupCancelled s"
  shows "ltriple (\<lambda>_. True) (lthen m k) Q E"
  using ltriple_step [of "\<lambda>_. ()" m "()" k Q E] assms by (simp add: keeps_def)

lemma ltriple_pass_bind:
  assumes "cancels m" "\<And>y. ltriple (\<lambda>_. True) (k y) Q E" "\<And>s. E SupCancelled s"
  shows "ltriple (\<lambda>_. True) (lbind m k) Q E"
  using ltriple_step_bind [of "\<lambda>_. ()" m "()" k Q E] assms by (simp add: keeps_def)

lemma ltriple_lmodify: "(\<And>s. P s \<Longrightarrow> Q () (g s)) \<Longrightarrow> ltriple P (lmodify g) Q E"
  by (simp add: ltriple_def lmodify_def)

lemma ltriple_on_error:
  "ltriple P m Q E' \<Longrightarrow> (\<And>e. ltriple (E' e) c (\<lambda>_. E e) (\<lambda>_. E e)) \<Longrightarrow> ltriple P (on_error m c) Q E"
  unfolding ltriple_def on_error_def by (fastforce split: option.splits sum.splits prod.splits)

lemma ltriple_lcatch: "ltriple P m Q E \<Longrightarrow> ltriple P (lcatch m) (\<lambda>r s. case r of Inr x \<Rightarrow> Q x s | Inl e \<Rightarrow> E e s) E'"
  unfolding ltriple_def lcatch_def by (fastforce split: option.splits prod.splits)

lemma unobserved_projections:
  "unobserved ls_sent" "unobserved ls_plays" "unobserved ls_commits" "unobserved ls_outcome"
  "unobserved (\<lambda>s. (ls_plays s, ls_commits s, ls_outcome s))" "unobserved (\<lambda>s. (ls_sent s, ls_commits s, ls_outcome s))"
  "unobserved (\<lambda>s. (ls_sent s, ls_plays s, ls_commits s, ls_outcome s))"
  "unobserved (\<lambda>s. (ls_sent s, ls_plays s, ls_commits s))"
  by (simp_all add: unobserved_def)

section \<open>What the lanes keep\<close>

lemma keeps_send_sentences [keeps_rules]:
  "unobserved f \<Longrightarrow> (\<And>s x. f (s\<lparr>ls_sent := x\<rparr>) = f s) \<Longrightarrow> keeps f (send_sentences env i sps)"
  by (induction sps) (auto simp: send_sentence_def intro!: keeps_rules)

lemma keeps_llm_finish:
  assumes "unobserved f" "\<And>s x. f (s\<lparr>ls_sent := x\<rparr>) = f s"
  shows "keeps f (llm_finish cx primary d out ad)"
  using assms unfolding llm_finish_def Let_def by (auto split: option.split prod.split sum.split intro!: keeps_rules)

lemma keeps_llm_delta_step:
  assumes "unobserved f" "\<And>s x. f (s\<lparr>ls_sent := x\<rparr>) = f s"
  shows "keeps f (llm_delta_step cx d g delta out ad)"
  using assms unfolding llm_delta_step_def Let_def by (auto split: option.split prod.split sum.split intro!: keeps_rules)

lemma keeps_llm_stream_loop:
  assumes "unobserved f" "\<And>s x. f (s\<lparr>ls_sent := x\<rparr>) = f s"
  shows "keeps f (llm_stream_loop cx primary d g out ad items)"
  using assms
proof (induction cx primary d g out ad items rule: llm_stream_loop.induct)
  case (1 cx primary d g out ad)
  then show ?case by (auto split: option.split intro!: keeps_rules keeps_llm_finish)
next
  case (2 cx primary d g out ad e items)
  then show ?case by (auto intro!: keeps_rules)
next
  case (3 cx primary d g out ad delta items)
  then show ?case by (auto split: sum.split prod.split intro!: keeps_rules keeps_llm_delta_step)
qed

lemma keeps_llm_attempt:
  assumes "unobserved f" "\<And>s x. f (s\<lparr>ls_sent := x\<rparr>) = f s"
  shows "keeps f (llm_attempt cx primary d)"
  using assms unfolding llm_attempt_def Let_def
  by (auto split: option.split sum.split intro!: keeps_rules keeps_llm_stream_loop)

lemma keeps_llm_candidates_loop:
  assumes "unobserved f" "\<And>s x. f (s\<lparr>ls_sent := x\<rparr>) = f s"
  shows "keeps f (llm_candidates_loop cx fb primary e ds)"
  using assms
  by (induction ds arbitrary: e) (auto split: sum.split intro!: keeps_rules keeps_llm_attempt)

lemma keeps_run_llm_lane:
  "keeps (\<lambda>s. (ls_plays s, ls_commits s, ls_outcome s)) (run_llm_lane env js cfg sc request plan ps)"
  unfolding run_llm_lane_def Let_def
  by (auto split: sum.split list.split intro!: keeps_rules keeps_llm_candidates_loop simp: unobserved_projections
      simp del: llm_candidates_loop.simps)

lemma keeps_effects_loop: "unobserved f \<Longrightarrow> keeps f (effects_loop env cfg i fb allowed primary ds)"
  by (induction ds) (auto simp: neutralized_def effects_accepted_def split: sum.split intro!: keeps_rules)

lemma keeps_run_effects_lane: "unobserved f \<Longrightarrow> keeps f (run_effects_lane env cfg request plan ps allowed)"
  unfolding run_effects_lane_def Let_def
  by (auto split: list.split simp: neutralized_def intro!: keeps_effects_loop keeps_rules simp del: effects_loop.simps)

lemma keeps_play_sentence:
  assumes "unobserved f" "\<And>s x. f (s\<lparr>ls_plays := x\<rparr>) = f s"
  shows "keeps f (play_sentence env cfg i primary d sp v)"
  using assms unfolding play_sentence_def settle_playback_def Let_def by (auto split: sum.split intro!: keeps_rules)

lemma keeps_speech_providers_loop:
  assumes "unobserved f" "\<And>s x. f (s\<lparr>ls_plays := x\<rparr>) = f s"
  shows "keeps f (speech_providers_loop env cfg i fb primary sp ds v)"
  using assms
  by (induction ds arbitrary: v)
    (auto simp: open_session_def split: sum.split prod.split intro!: keeps_rules keeps_play_sentence)

lemma keeps_deliver_sentence: "unobserved f \<Longrightarrow> keeps f (deliver_sentence env i sp audio v)"
  unfolding deliver_sentence_def note_subtitles_def publish_sentence_def by (auto split: option.split intro!: keeps_rules)

lemma keeps_run_speech_lane:
  "keeps (\<lambda>s. (ls_sent s, ls_commits s, ls_outcome s)) (run_speech_lane env cfg i plan ps sentences)"
proof -
  have "keeps (\<lambda>s. (ls_sent s, ls_commits s, ls_outcome s)) (speech_loop_run env cfg i fb cands sps v)" for fb cands sps v
    by (induction sps arbitrary: v)
      (auto simp: speech_sentence_def unobserved_projections split: list.split prod.split
        simp del: speech_providers_loop.simps
        intro!: keeps_rules keeps_speech_providers_loop keeps_deliver_sentence)
  then show ?thesis unfolding run_speech_lane_def by (auto intro!: keeps_rules)
qed

end
