(* ===== verification/Response_Adapter.thy ===== *)
theory Response_Adapter
  imports Structured_Response "HOL-Library.Sublist"
begin

text \<open>
  What the streaming adapter of \<open>Structured_Response\<close> promises to the speech lane, over every sequence of
  deltas, finishes and cancellations: the sentences it has handed out are an exact segmentation of a
  validated spoken response, whatever the format of the route.
\<close>

section \<open>Runs of the adapter\<close>

datatype adapter_event = PushDelta nat nat rstr | FinishStream nat | CancelStream nat

datatype adapter_output =
  Sentences "sentence_span list" | Final finalized_response | Refused streaming_error | CancelDone

fun adapter_step :: "'j json_api \<Rightarrow> adapter_event \<Rightarrow> adapter \<Rightarrow> (adapter_output \<times> adapter) option" where
  "adapter_step js (PushDelta g n d) ad =
     map_option (\<lambda>(r, ad'). (case_sum Refused Sentences r, ad')) (push_delta js g n d ad)"
| "adapter_step js (FinishStream g) ad =
     map_option (\<lambda>(r, ad'). (case_sum Refused Final r, ad')) (adapter_finish js g ad)"
| "adapter_step js (CancelStream g) ad =
     (let (r, ad') = adapter_cancel g ad in Some (case_sum Refused (\<lambda>_. CancelDone) r, ad'))"

fun adapter_run :: "'j json_api \<Rightarrow> adapter_event list \<Rightarrow> adapter \<Rightarrow> (adapter_output list \<times> adapter) option" where
  "adapter_run js [] ad = Some ([], ad)"
| "adapter_run js (ev # evs) ad =
     (case adapter_step js ev ad of
        None \<Rightarrow> None
      | Some (out, ad1) \<Rightarrow> map_option (\<lambda>(outs, ad'). (out # outs, ad')) (adapter_run js evs ad1))"

lemma output_eq_Final [simp]:
  "case_sum Refused Sentences r \<noteq> Final f" "case_sum Refused (\<lambda>_. CancelDone) u \<noteq> Final f"
  "case_sum Refused Final v = Final f \<longleftrightarrow> v = Inr f"
  by (auto split: sum.splits)

text \<open>The sentences a run hands to the speech lane.\<close>

fun handed_out :: "adapter_output \<Rightarrow> sentence_span list" where
  "handed_out (Sentences s) = s"
| "handed_out (Final f) = fr_ready_sentences f"
| "handed_out _ = []"

definition delivered :: "adapter_output list \<Rightarrow> sentence_span list" where
  "delivered outs = concat (map handed_out outs)"

lemma delivered_simps [simp]: "delivered [] = []" "delivered (out # outs) = handed_out out @ delivered outs"
  by (simp_all add: delivered_def)

section \<open>Validated results\<close>

lemma from_json_strict_validated: "from_json_strict js p raw = Inr r \<Longrightarrow> validate_response p r = Inr ()"
  by (auto simp: from_json_strict_def bind_result_Inr_iff neq_Nil_conv split: list.splits)

lemma validate_response_spoken: "validate_response p r = Inr () \<Longrightarrow> validate_spoken p (nr_spoken r) = Inr ()"
  by (auto simp: validate_response_def bind_result_Inr_iff)

lemma segment_text_exact: "segment_text cfg t = Some spans \<Longrightarrow> exact_segmentation t spans"
proof -
  assume "segment_text cfg t = Some spans"
  then obtain sg a sg' b sg'' where n: "new_segmenter cfg = Some sg" and p: "push_spans t sg = Some (a, sg')"
    and f: "finish_spans sg' = Some (b, sg'')" and s: "spans = a @ b"
    by (auto simp: segment_text_def split: option.splits)
  from p have "push_all [t] sg = Some (a, sg')" by simp
  from stream_segmentation [OF n this f] s show ?thesis by simp
qed

section \<open>Requests after the end\<close>

lemma require_active_InrD:
  "require_active_generation ad g = Inr () \<Longrightarrow> g = ad_generation ad \<and> ad_state ad = AdActive"
  by (auto simp: require_active_generation_def require_generation_def bind_result_Inr_iff split: if_splits)

lemma require_active_closed: "ad_state ad \<noteq> AdActive \<Longrightarrow> \<exists>e. require_active_generation ad g = Inl e"
  by (simp add: require_active_generation_def require_generation_def)

lemma push_guard_InrD: "push_guard ad g n d = Inr () \<Longrightarrow> require_active_generation ad g = Inr ()"
  by (auto simp: push_guard_def bind_result_Inr_iff)

lemma adapter_step_closed:
  assumes "ad_state ad \<noteq> AdActive"
  shows "\<exists>out. adapter_step js ev ad = Some (out, ad) \<and> handed_out out = [] \<and> (\<forall>f. out \<noteq> Final f)"
proof (cases ev)
  case (PushDelta g n d)
  then show ?thesis using require_active_closed [OF assms, of g]
    by (auto simp: push_delta_def push_guard_def)
next
  case (FinishStream g)
  then show ?thesis using require_active_closed [OF assms, of g] by (auto simp: adapter_finish_def)
next
  case (CancelStream g)
  then show ?thesis using assms by (cases "ad_state ad") (auto simp: adapter_cancel_def require_generation_def)
qed

lemma adapter_run_closed:
  "ad_state ad \<noteq> AdActive \<Longrightarrow>
     \<exists>outs. adapter_run js evs ad = Some (outs, ad) \<and> delivered outs = [] \<and> (\<forall>f. Final f \<notin> set outs)"
proof (induction evs)
  case (Cons ev evs)
  then obtain outs where outs: "adapter_run js evs ad = Some (outs, ad)" "delivered outs = []"
    "\<forall>f. Final f \<notin> set outs" by blast
  obtain out where "adapter_step js ev ad = Some (out, ad)" "handed_out out = []" "\<forall>f. out \<noteq> Final f"
    using adapter_step_closed [OF Cons.prems, of js ev] by blast
  with outs show ?case by auto
qed simp

section \<open>The invariant of an open adapter\<close>

text \<open>What an active adapter has handed out so far, by format.\<close>

definition adapter_inv :: "sentence_span list \<Rightarrow> adapter \<Rightarrow> bool" where
  "adapter_inv sent ad \<longleftrightarrow>
     ad_released ad = sent \<and>
     (case ad_format ad of
        StructuredV1 \<Rightarrow> sent = []
      | StructuredSpeechFirstV1 \<Rightarrow>
          (case ad_speech_first_text ad of
             None \<Rightarrow> sent = []
           | Some t \<Rightarrow> validate_spoken (ad_policy ad) t = Inr () \<and> segment_text (ad_sentence_config ad) t = Some sent)
      | LegacyPlainText \<Rightarrow>
          (\<exists>ds sg0 sg. new_segmenter (ad_sentence_config ad) = Some sg0 \<and> ad_buffer ad = concat ds
             \<and> push_all ds sg0 = Some (sent, sg) \<and> ad_segmenter ad = Some sg))"

lemma new_adapter_inv:
  assumes "new_adapter format p cfg g = Some ad"
  shows "adapter_inv [] ad \<and> ad_format ad = format \<and> ad_policy ad = p \<and> ad_state ad = AdActive"
proof -
  have "push_all [] sg = Some ([], sg)" for sg by simp
  then show ?thesis using assms unfolding adapter_inv_def new_adapter_def Let_def
    by (cases format) (auto intro!: exI [of _ "[]"])
qed

lemma push_all_snoc:
  "push_all ds st = Some (a, st1) \<Longrightarrow> push_spans d st1 = Some (b, st2) \<Longrightarrow> push_all (ds @ [d]) st = Some (a @ b, st2)"
  by (induction ds arbitrary: st a) (auto split: option.splits)

lemma speech_first_push_inv:
  assumes "speech_first_push js ad = Some (r, ad')" and "adapter_inv sent ad"
    and "ad_format ad = StructuredSpeechFirstV1"
  shows "adapter_inv (sent @ (case r of Inl _ \<Rightarrow> [] | Inr s \<Rightarrow> s)) ad'
    \<and> ad_format ad' = ad_format ad \<and> ad_policy ad' = ad_policy ad \<and> ad_state ad' = ad_state ad"
  using assms unfolding speech_first_push_def adapter_inv_def
  by (auto split: sum.splits option.splits if_splits)

lemma push_delta_inv:
  assumes "push_delta js g n d ad = Some (r, ad')" and "adapter_inv sent ad"
  shows "adapter_inv (sent @ (case r of Inl _ \<Rightarrow> [] | Inr s \<Rightarrow> s)) ad'
    \<and> ad_format ad' = ad_format ad \<and> ad_policy ad' = ad_policy ad \<and> ad_state ad' = ad_state ad"
proof (cases "push_guard ad g n d")
  case (Inl e)
  then show ?thesis using assms by (auto simp: push_delta_def)
next
  case (Inr u)
  let ?ad = "ad\<lparr>ad_last_sequence := Some n, ad_buffer := ad_buffer ad @ d\<rparr>"
  show ?thesis
  proof (cases "ad_format ad")
    case StructuredV1
    then show ?thesis using assms Inr by (auto simp: push_delta_def adapter_inv_def)
  next
    case StructuredSpeechFirstV1
    then have "adapter_inv sent ?ad" using assms(2) by (simp add: adapter_inv_def split: option.splits)
    then show ?thesis
      using speech_first_push_inv [of js ?ad r ad' sent] StructuredSpeechFirstV1 assms(1) Inr
      by (simp add: push_delta_def)
  next
    case LegacyPlainText
    then obtain ds sg0 sg where i: "new_segmenter (ad_sentence_config ad) = Some sg0" "ad_buffer ad = concat ds"
      "push_all ds sg0 = Some (sent, sg)" "ad_segmenter ad = Some sg" "ad_released ad = sent"
      using assms(2) by (auto simp: adapter_inv_def)
    obtain b sg' where p: "push_spans d sg = Some (b, sg')" and r: "r = Inr b"
      and ad': "ad' = ?ad\<lparr>ad_segmenter := Some sg', ad_released := ad_released ad @ b\<rparr>"
      using assms(1) Inr LegacyPlainText i(4) by (auto simp: push_delta_def split: option.splits)
    have "concat (ds @ [d]) = ad_buffer ad @ d" using i(2) by simp
    then show ?thesis using push_all_snoc [OF i(3) p] i r ad' LegacyPlainText
      unfolding adapter_inv_def by (auto intro!: exI [of _ "ds @ [d]"])
  qed
qed

text \<open>A successful finish: the response passed validation and everything handed out segments its text.\<close>

lemma adapter_finish_exact:
  assumes "adapter_finish js g ad = Some (Inr f, ad')" and "adapter_inv sent ad"
  shows "validate_response (ad_policy ad) (fr_response f) = Inr ()
    \<and> fr_all_sentences f = sent @ fr_ready_sentences f
    \<and> exact_segmentation (nr_spoken (fr_response f)) (fr_all_sentences f)
    \<and> ad_state ad' = AdFinalized"
proof (cases "ad_format ad")
  case StructuredV1
  then show ?thesis using assms
    by (auto simp: adapter_finish_def finish_structured_def adapter_inv_def
        split: sum.splits option.splits dest: from_json_strict_validated segment_text_exact)
next
  case StructuredSpeechFirstV1
  then obtain r t where r: "from_json_strict js (ad_policy ad) (ad_buffer ad) = Inr r"
    and t: "ad_speech_first_text ad = Some t" "t = nr_spoken r"
    and f: "fr_response f = r" "fr_ready_sentences f = []" "fr_all_sentences f = ad_released ad" "ad_state ad' = AdFinalized"
    using assms(1) by (auto simp: adapter_finish_def finish_speech_first_def bind_result_Inr_iff
        split: sum.splits option.splits if_splits)
  then show ?thesis using assms(2) StructuredSpeechFirstV1 from_json_strict_validated [OF r]
    by (auto simp: adapter_inv_def dest: segment_text_exact)
next
  case LegacyPlainText
  then obtain ds sg0 sg where i: "new_segmenter (ad_sentence_config ad) = Some sg0" "ad_buffer ad = concat ds"
    "push_all ds sg0 = Some (sent, sg)" "ad_segmenter ad = Some sg" "ad_released ad = sent"
    using assms(2) by (auto simp: adapter_inv_def)
  obtain b sg' where b: "finish_spans sg = Some (b, sg')"
    and v: "validate_response (ad_policy ad) (plain_text_response (ad_buffer ad)) = Inr ()"
    and f: "fr_response f = plain_text_response (ad_buffer ad)" "fr_ready_sentences f = b"
      "fr_all_sentences f = sent @ b" "ad_state ad' = AdFinalized"
    using assms(1) LegacyPlainText i(4,5)
    by (auto simp: adapter_finish_def finish_legacy_def Let_def split: sum.splits option.splits)
  show ?thesis using stream_segmentation [OF i(1,3) b] i(2) f v
    by (simp add: plain_text_response_def)
qed

lemma adapter_finish_refused: "adapter_finish js g ad = Some (Inl e, ad') \<Longrightarrow> ad' = ad"
  by (auto simp: adapter_finish_def split: sum.splits option.splits)

section \<open>Where released speech comes from\<close>

text \<open>The complete fields at the start of an object of which only a part has arrived: name, colon, value, each as the JSON library
  reads it, and a comma or the end of the object after the value. A field is its name and the text of its value.\<close>

inductive complete_fields :: "'j json_api \<Rightarrow> rstr \<Rightarrow> (rstr \<times> rstr) list \<Rightarrow> bool" for js where
  no_field: "complete_fields js rest []"
| next_field: "skip_json_whitespace rest = c # r \<Longrightarrow> j_string_step js (c # r) = JsonValue name n \<Longrightarrow>
     skip_json_whitespace (str_from (c # r) n) = 58 # after \<Longrightarrow>
     j_value_step js (skip_json_whitespace after) = JsonValue u m \<Longrightarrow>
     skip_json_whitespace (str_from (skip_json_whitespace after) m) = d # tail \<Longrightarrow> d = 44 \<or> d = 125 \<Longrightarrow>
     complete_fields js (if d = 44 then tail else d # tail) fs \<Longrightarrow>
     complete_fields js rest ((name, str_upto (skip_json_whitespace after) m) # fs)"

text \<open>A text that starts an object in which a schema marker that decodes and the spoken response \<open>t\<close> are complete, all fields known
  and none twice.\<close>

definition announces :: "'j json_api \<Rightarrow> rstr \<Rightarrow> rstr \<Rightarrow> bool" where
  "announces js raw t \<longleftrightarrow>
     (\<exists>rest fs sv schema tv. skip_json_whitespace raw = 123 # rest \<and> complete_fields js rest fs
        \<and> distinct (map fst fs) \<and> fst ` set fs \<subseteq> set TOP_LEVEL_FIELDS
        \<and> (lit ''schema_version'', sv) \<in> set fs \<and> j_str_schema js sv = Inr schema
        \<and> (lit ''spoken_response'', tv) \<in> set fs \<and> j_str_spoken js tv = Inr t)"

lemma scan_round_done:
  assumes "scan_round js seen ok spk rest = ScanDone (Inr s)" and "sc_spoken_response s = Some t"
  shows "ok \<and> spk = Some t"
  using assms
  by (auto simp: scan_round_def scan_value_def scan_object_end_def speech_first_scan_progress_def Let_def
      split: if_splits sum.splits option.splits list.splits prod.splits)

lemma parse_complete_Some: "parse_complete_json_value step rest = Inr (Some (v, n)) \<longleftrightarrow> rest \<noteq> [] \<and> step rest = JsonValue v n"
  by (auto simp: parse_complete_json_value_def split: json_step.splits)

lemma scan_round_next:
  assumes "scan_round js seen ok spk rest = ScanNext field ok' spk' rest'"
  obtains v where "\<forall>fs. complete_fields js rest' fs \<longrightarrow> complete_fields js rest ((field, v) # fs)"
    and "field \<notin> set seen" "field \<in> set TOP_LEVEL_FIELDS" "scan_field_value js field v ok spk = Inr (ok', spk')"
proof -
  have name: "field' = field" if "scan_value js seen ok spk field' after = ScanNext field ok' spk' rest'" for field' after
    using that by (auto simp: scan_value_def Let_def split: if_splits sum.splits option.splits list.splits prod.splits)
  from assms obtain c r n after where 1: "skip_json_whitespace rest = c # r"
    "parse_complete_json_value (j_string_step js) (c # r) = Inr (Some (field, n))"
    "skip_json_whitespace (str_from (c # r) n) = 58 # after" and v: "scan_value js seen ok spk field after = ScanNext field ok' spk' rest'"
    by (auto simp: scan_round_def Let_def split: if_splits sum.splits option.splits list.splits prod.splits dest: name)
  let ?v = "skip_json_whitespace after"
  have f: "field \<notin> set seen" "field \<in> set TOP_LEVEL_FIELDS" using v by (auto simp: scan_value_def split: if_splits)
  with v obtain u m where p: "parse_complete_json_value (j_value_step js) ?v = Inr (Some (u, m))"
    by (auto simp: scan_value_def Let_def split: sum.splits option.splits)
  with v f obtain ok1 spk1 where q: "scan_field_value js field (str_upto ?v m) ok spk = Inr (ok1, spk1)"
    by (auto simp: scan_value_def Let_def split: sum.splits)
  with v f p obtain d tail where e: "skip_json_whitespace (str_from ?v m) = d # tail"
    by (cases "skip_json_whitespace (str_from ?v m)") (auto simp: scan_value_def Let_def)
  have 2: "scan_field_value js field (str_upto ?v m) ok spk = Inr (ok', spk')" "d = 44 \<or> d = 125"
    "rest' = (if d = 44 then tail else d # tail)"
    using v f p q e by (auto simp: scan_value_def Let_def split: if_splits)
  show thesis
    by (rule that [of "str_upto ?v m"])
       (use 1 2 f p in \<open>auto simp: parse_complete_Some intro: next_field [OF 1(1) _ 1(3) _ e 2(2)]\<close>)
qed

lemma scan_fields_sound:
  "scan_fields js seen ok spk rest = Inr s \<Longrightarrow> sc_spoken_response s = Some t \<Longrightarrow>
     \<exists>fs. complete_fields js rest fs \<and> distinct (map fst fs) \<and> fst ` set fs \<inter> set seen = {}
       \<and> fst ` set fs \<subseteq> set TOP_LEVEL_FIELDS
       \<and> (ok \<or> (\<exists>sv schema. (lit ''schema_version'', sv) \<in> set fs \<and> j_str_schema js sv = Inr schema))
       \<and> (spk = Some t \<or> (\<exists>tv. (lit ''spoken_response'', tv) \<in> set fs \<and> j_str_spoken js tv = Inr t))"
proof (induction js seen ok spk rest rule: scan_fields.induct)
  case (1 js seen ok spk rest)
  show ?case
  proof (cases "scan_round js seen ok spk rest")
    case (ScanDone r)
    then have "r = Inr s" using 1(2) by (simp add: scan_fields.simps)
    then have "ok \<and> spk = Some t" using scan_round_done [of js seen ok spk rest s t] ScanDone 1(3) by simp
    then show ?thesis using no_field by fastforce
  next
    case (ScanNext field ok' spk' rest')
    then have "scan_fields js (field # seen) ok' spk' rest' = Inr s" using 1(2) by (simp add: scan_fields.simps)
    from 1(1) [OF ScanNext this 1(3)] obtain fs where f: "complete_fields js rest' fs" "distinct (map fst fs)"
      "fst ` set fs \<inter> set (field # seen) = {}" "fst ` set fs \<subseteq> set TOP_LEVEL_FIELDS"
      "ok' \<or> (\<exists>sv schema. (lit ''schema_version'', sv) \<in> set fs \<and> j_str_schema js sv = Inr schema)"
      "spk' = Some t \<or> (\<exists>tv. (lit ''spoken_response'', tv) \<in> set fs \<and> j_str_spoken js tv = Inr t)" by blast
    from ScanNext obtain v where v: "\<forall>fs. complete_fields js rest' fs \<longrightarrow> complete_fields js rest ((field, v) # fs)"
      "field \<notin> set seen" "field \<in> set TOP_LEVEL_FIELDS" "scan_field_value js field v ok spk = Inr (ok', spk')"
      by (rule scan_round_next)
    have "ok \<or> (\<exists>sv schema. (lit ''schema_version'', sv) \<in> set ((field, v) # fs) \<and> j_str_schema js sv = Inr schema)"
      "spk = Some t \<or> (\<exists>tv. (lit ''spoken_response'', tv) \<in> set ((field, v) # fs) \<and> j_str_spoken js tv = Inr t)"
      using v(4) f(5,6) by (auto simp: scan_field_value_def bind_result_Inr_iff map_error_def split: if_splits sum.splits)
    then show ?thesis using v(1,2,3) f(1,2,3,4) by (intro exI [of _ "(field, v) # fs"]) auto
  qed
qed

lemma scan_announces:
  "scan_speech_first_envelope js raw = Inr s \<Longrightarrow> sc_spoken_response s = Some t \<Longrightarrow> announces js raw t"
  unfolding scan_speech_first_envelope_def announces_def
  by (auto split: list.splits if_splits dest!: scan_fields_sound)

text \<open>What arrived for a generation: deltas of that generation in the order of their sequence numbers.\<close>

fun pushes :: "adapter_event list \<Rightarrow> (nat \<times> nat \<times> rstr) list" where
  "pushes [] = []"
| "pushes (PushDelta g n d # evs) = (g, n, d) # pushes evs"
| "pushes (_ # evs) = pushes evs"

lemma pushes_append [simp]: "pushes (a @ b) = pushes a @ pushes b"
  by (induction a rule: pushes.induct) simp_all

definition received :: "nat \<Rightarrow> adapter_event list \<Rightarrow> (nat \<times> nat \<times> rstr) list \<Rightarrow> bool" where
  "received g evs ps \<longleftrightarrow> subseq ps (pushes evs) \<and> (\<forall>x\<in>set ps. fst x = g) \<and> sorted_wrt (<) (map (fst \<circ> snd) ps)"

definition stream_text :: "(nat \<times> nat \<times> rstr) list \<Rightarrow> rstr" where
  "stream_text ps = concat (map (snd \<circ> snd) ps)"

definition heard :: "'j json_api \<Rightarrow> nat \<Rightarrow> adapter_event list \<Rightarrow> rstr \<Rightarrow> bool" where
  "heard js g evs t \<longleftrightarrow> (\<exists>ps. received g evs ps \<and> announces js (stream_text ps) t)"

definition source_inv :: "'j json_api \<Rightarrow> adapter_event list \<Rightarrow> adapter \<Rightarrow> bool" where
  "source_inv js evs ad \<longleftrightarrow>
     (\<exists>ps. received (ad_generation ad) evs ps \<and> ad_buffer ad = stream_text ps
        \<and> ad_last_sequence ad = (if ps = [] then None else Some (fst (snd (last ps)))))
     \<and> (\<forall>t. ad_speech_first_text ad = Some t \<longrightarrow> heard js (ad_generation ad) evs t)"

lemma received_more: "received g evs ps \<Longrightarrow> received g (evs @ later) ps"
  by (auto simp: received_def intro: list_emb_append2)

lemma source_inv_more: "source_inv js evs ad \<Longrightarrow> source_inv js (evs @ later) ad"
  unfolding source_inv_def heard_def by (blast intro: received_more)

lemma received_push:
  assumes "received g evs ps" and "ps \<noteq> [] \<Longrightarrow> fst (snd (last ps)) < n"
  shows "received g (evs @ [PushDelta g n d]) (ps @ [(g, n, d)])"
proof -
  have "\<forall>x\<in>set ps. fst (snd x) < n"
    using assms by (cases ps rule: rev_cases) (auto simp: received_def sorted_wrt_append)
  then show ?thesis using assms(1) by (auto simp: received_def sorted_wrt_append intro: list_emb_append_mono)
qed

lemma push_delta_source:
  assumes "push_delta js g n d ad = Some (r, ad')" and "source_inv js evs ad"
  shows "source_inv js (evs @ [PushDelta g n d]) ad' \<and> ad_generation ad' = ad_generation ad"
proof (cases "push_guard ad g n d")
  case (Inl e)
  then show ?thesis using assms by (auto simp: push_delta_def intro: source_inv_more)
next
  case (Inr u)
  let ?ad = "ad\<lparr>ad_last_sequence := Some n, ad_buffer := ad_buffer ad @ d\<rparr>" and ?evs = "evs @ [PushDelta g n d]"
  obtain ps where ps: "received (ad_generation ad) evs ps" "ad_buffer ad = stream_text ps"
    "ad_last_sequence ad = (if ps = [] then None else Some (fst (snd (last ps))))"
    using assms(2) by (auto simp: source_inv_def)
  have g: "g = ad_generation ad" using Inr by (auto dest!: push_guard_InrD require_active_InrD)
  have "fst (snd (last ps)) < n" if "ps \<noteq> []"
    using Inr ps(3) that by (auto simp: push_guard_def bind_result_Inr_iff split: if_splits)
  from received_push [OF ps(1) this] have rec: "received (ad_generation ad) ?evs (ps @ [(g, n, d)])" by (simp add: g)
  have buf: "ad_buffer ad @ d = stream_text (ps @ [(g, n, d)])" by (simp add: ps(2) stream_text_def)
  have old: "heard js (ad_generation ad) ?evs t" if "ad_speech_first_text ad = Some t" for t
    using source_inv_more [OF assms(2)] that by (auto simp: source_inv_def)
  have inv: "source_inv js ?evs (?ad\<lparr>ad_segmenter := sg, ad_released := rel\<rparr>)" "source_inv js ?evs ?ad" for sg rel
    unfolding source_inv_def using rec buf old by (auto intro!: exI [of _ "ps @ [(g, n, d)]"])
  show ?thesis
  proof (cases "ad_format ad")
    case StructuredSpeechFirstV1
    then have push: "speech_first_push js ?ad = Some (r, ad')" using assms(1) Inr by (simp add: push_delta_def)
    show ?thesis
    proof (cases "ad' = ?ad")
      case False
      then obtain s t rel where s: "scan_speech_first_envelope js (ad_buffer ad @ d) = Inr s" "sc_spoken_response s = Some t"
        and ad': "ad' = ?ad\<lparr>ad_speech_first_text := Some t, ad_released := rel\<rparr>"
        using push by (auto simp: speech_first_push_def split: sum.splits option.splits if_splits)
      have "heard js (ad_generation ad) ?evs t"
        unfolding heard_def using rec scan_announces [OF s] buf by auto
      then show ?thesis unfolding ad' source_inv_def using rec buf by (auto intro!: exI [of _ "ps @ [(g, n, d)]"])
    qed (use inv in simp)
  next
    case StructuredV1
    then show ?thesis using assms(1) Inr inv by (auto simp: push_delta_def)
  next
    case LegacyPlainText
    then show ?thesis using assms(1) Inr inv by (auto simp: push_delta_def split: option.splits)
  qed
qed

section \<open>Whole runs\<close>

lemma adapter_step_inv:
  assumes "adapter_step js ev ad = Some (out, ad1)" and "adapter_inv sent ad" and "ad_state ad = AdActive"
  shows "ad_policy ad1 = ad_policy ad \<and> ad_format ad1 = ad_format ad \<or> ad_state ad1 \<noteq> AdActive"
    and "ad_state ad1 = AdActive \<Longrightarrow> adapter_inv (sent @ handed_out out) ad1 \<and> (\<forall>f. out \<noteq> Final f)"
    and "ad_state ad1 \<noteq> AdActive \<Longrightarrow> (\<exists>f. out = Final f) \<or> handed_out out = []"
proof -
  have "(ad_policy ad1 = ad_policy ad \<and> ad_format ad1 = ad_format ad \<or> ad_state ad1 \<noteq> AdActive)
    \<and> (ad_state ad1 = AdActive \<longrightarrow> adapter_inv (sent @ handed_out out) ad1 \<and> (\<forall>f. out \<noteq> Final f))
    \<and> (ad_state ad1 \<noteq> AdActive \<longrightarrow> (\<exists>f. out = Final f) \<or> handed_out out = [])"
  proof (cases ev)
    case (PushDelta g n d)
    then obtain r where r: "push_delta js g n d ad = Some (r, ad1)" "out = case_sum Refused Sentences r"
      using assms(1) by auto
    then show ?thesis using push_delta_inv [OF r(1) assms(2)] assms(3) by (cases r) auto
  next
    case (FinishStream g)
    then obtain r where r: "adapter_finish js g ad = Some (r, ad1)" "out = case_sum Refused Final r"
      using assms(1) by auto
    show ?thesis
    proof (cases r)
      case (Inl e)
      then show ?thesis using r adapter_finish_refused [of js g ad e ad1] assms by simp
    next
      case (Inr f)
      then show ?thesis using r adapter_finish_exact [of js g ad f ad1 sent] assms by simp
    qed
  next
    case (CancelStream g)
    then show ?thesis using assms by (auto simp: adapter_cancel_def require_generation_def split: if_splits)
  qed
  then show "ad_policy ad1 = ad_policy ad \<and> ad_format ad1 = ad_format ad \<or> ad_state ad1 \<noteq> AdActive"
    and "ad_state ad1 = AdActive \<Longrightarrow> adapter_inv (sent @ handed_out out) ad1 \<and> (\<forall>f. out \<noteq> Final f)"
    and "ad_state ad1 \<noteq> AdActive \<Longrightarrow> (\<exists>f. out = Final f) \<or> handed_out out = []"
    by blast+
qed

lemma adapter_step_source:
  assumes "adapter_step js ev ad = Some (out, ad1)" and "source_inv js evs ad" and "ad_state ad = AdActive" "ad_state ad1 = AdActive"
  shows "source_inv js (evs @ [ev]) ad1 \<and> ad_generation ad1 = ad_generation ad"
proof (cases ev)
  case (PushDelta g n d)
  then show ?thesis using assms(1) push_delta_source [OF _ assms(2)] by auto
next
  case (FinishStream g)
  then obtain r where r: "adapter_finish js g ad = Some (r, ad1)" using assms(1) by auto
  then have "ad_state ad1 = AdFinalized" if "r = Inr f" for f
    using that by (auto simp: adapter_finish_def split: sum.splits option.splits)
  then have "ad1 = ad" using adapter_finish_refused r assms(4) by (cases r) auto
  then show ?thesis using source_inv_more [OF assms(2)] by simp
next
  case (CancelStream g)
  then have "ad1 = ad" using assms(1,3,4) by (auto simp: adapter_cancel_def require_generation_def split: if_splits)
  then show ?thesis using source_inv_more [OF assms(2)] by simp
qed

lemma adapter_run_unfinished:
  "adapter_run js evs ad = Some (outs, ad') \<Longrightarrow> adapter_inv sent ad \<Longrightarrow> source_inv js past ad \<Longrightarrow> ad_state ad = AdActive \<Longrightarrow>
     \<forall>f. Final f \<notin> set outs \<Longrightarrow>
     \<exists>ad1. adapter_inv (sent @ delivered outs) ad1 \<and> source_inv js (past @ evs) ad1 \<and> ad_generation ad1 = ad_generation ad
       \<and> ad_policy ad1 = ad_policy ad \<and> ad_format ad1 = ad_format ad"
proof (induction evs arbitrary: ad sent past outs)
  case (Cons ev evs)
  then obtain out ad1 outs1 where st: "adapter_step js ev ad = Some (out, ad1)"
    and run: "adapter_run js evs ad1 = Some (outs1, ad')" and outs: "outs = out # outs1"
    by (auto split: option.splits)
  note step = adapter_step_inv [OF st Cons.prems(2,4)]
  show ?case
  proof (cases "ad_state ad1 = AdActive")
    case True
    then show ?thesis
      using Cons.IH [OF run, of "sent @ handed_out out" "past @ [ev]"] step adapter_step_source [OF st Cons.prems(3,4)] Cons.prems(5) outs
      by auto
  next
    case False
    with adapter_run_closed [OF False, of js evs] run step(3) Cons.prems(2,5) outs source_inv_more [OF Cons.prems(3), of "ev # evs"]
    show ?thesis by auto
  qed
qed auto

lemma adapter_run_finished:
  "adapter_run js evs ad = Some (outs, ad') \<Longrightarrow> adapter_inv sent ad \<Longrightarrow> ad_state ad = AdActive \<Longrightarrow>
     Final f \<in> set outs \<Longrightarrow>
     validate_response (ad_policy ad) (fr_response f) = Inr () \<and> fr_all_sentences f = sent @ delivered outs
     \<and> exact_segmentation (nr_spoken (fr_response f)) (fr_all_sentences f)"
proof (induction evs arbitrary: ad sent outs)
  case (Cons ev evs)
  then obtain out ad1 outs1 where st: "adapter_step js ev ad = Some (out, ad1)"
    and run: "adapter_run js evs ad1 = Some (outs1, ad')" and outs: "outs = out # outs1"
    by (auto split: option.splits)
  note step = adapter_step_inv [OF st Cons.prems(2,3)]
  show ?case
  proof (cases "ad_state ad1 = AdActive")
    case True
    then show ?thesis using Cons.IH [OF run, of "sent @ handed_out out"] step Cons.prems(4) outs by auto
  next
    case False
    then have rest: "delivered outs1 = []" "\<forall>f. Final f \<notin> set outs1"
      using adapter_run_closed [OF False, of js evs] run by auto
    then have out: "out = Final f" using Cons.prems(4) outs by auto
    with st obtain g where "adapter_finish js g ad = Some (Inr f, ad1)"
      by (cases ev) (auto simp: Let_def split: prod.splits)
    from adapter_finish_exact [OF this Cons.prems(2)] out rest outs show ?thesis by auto
  qed
qed auto

section \<open>Properties\<close>

text \<open>
  C5. Whatever the format of the route and however deltas, finishes and cancellations are interleaved: when the
  adapter finalizes a response, the response has passed validation, and the sentences handed to the speech lane
  over the whole run (before, at and after the finish) are exactly the sentences of that response: exact
  slices of its spoken text, in order, each handed out once, with nothing but whitespace left out.
\<close>

theorem adapter_delivers_the_response:
  assumes "new_adapter format p cfg g = Some ad0" and "adapter_run js evs ad0 = Some (outs, ad)"
    and "Final f \<in> set outs"
  shows "validate_response p (fr_response f) = Inr () \<and> fr_all_sentences f = delivered outs
    \<and> exact_segmentation (nr_spoken (fr_response f)) (delivered outs)"
  using adapter_run_finished [OF assms(2) _ _ assms(3), of "[]"] new_adapter_inv [OF assms(1)] by auto

text \<open>
  C20. A structured route never speaks provider output that has not been validated: without a finalized response a
  whole-envelope route has handed out nothing, and a speech-first route has handed out nothing or exactly the
  sentences of one text that passed validation and that is the value of the field \<open>spoken_response\<close>: the deltas accepted up to some
  point, which are deltas of this generation with increasing sequence numbers, start an object in which that field and a
  schema marker that decodes are complete, no field is unknown and none occurs twice.
\<close>

theorem structured_speech_gate:
  assumes "new_adapter format p cfg g = Some ad0" and "adapter_run js evs ad0 = Some (outs, ad)"
    and "format \<noteq> LegacyPlainText" and "\<forall>f. Final f \<notin> set outs"
  shows "delivered outs = [] \<or> format = StructuredSpeechFirstV1
    \<and> (\<exists>t. heard js g evs t \<and> validate_spoken p t = Inr () \<and> exact_segmentation t (delivered outs))"
proof -
  have gen: "ad_generation ad0 = g" "source_inv js [] ad0"
    using assms(1) by (auto simp: new_adapter_def Let_def source_inv_def received_def stream_text_def split: if_splits)
  obtain ad1 where ad1: "adapter_inv (delivered outs) ad1" "ad_policy ad1 = p" "ad_format ad1 = format"
    and src: "source_inv js evs ad1" "ad_generation ad1 = g"
    using adapter_run_unfinished [OF assms(2) _ gen(2) _ assms(4), of "[]"] new_adapter_inv [OF assms(1)] gen(1) by auto
  have "heard js g evs t" if "ad_speech_first_text ad1 = Some t" for t using src that by (auto simp: source_inv_def)
  with ad1 assms(3) show ?thesis
    by (cases format) (auto simp: adapter_inv_def split: option.splits dest: segment_text_exact)
qed

text \<open>
  A finalized or cancelled adapter is closed: whatever is sent to it afterwards, it hands out nothing, finalizes
  nothing, does not panic and does not change.
\<close>

theorem closed_adapter_is_inert:
  assumes "ad_state ad \<noteq> AdActive"
  shows "\<exists>outs. adapter_run js evs ad = Some (outs, ad) \<and> delivered outs = [] \<and> (\<forall>f. Final f \<notin> set outs)"
  by (rule adapter_run_closed [OF assms])

section \<open>Concrete routes\<close>

text \<open>A fragment of JSON with strings only, to run the adapter: no escapes, and an envelope is its spoken text.\<close>

definition quoted :: "string \<Rightarrow> rstr" where
  "quoted s = [34] @ lit s @ [34]"

definition quoted_step :: "rstr \<Rightarrow> (rstr \<times> nat) option" where
  "quoted_step rest =
     (let s = takeWhile (\<lambda>c. c \<noteq> 34) (drop 1 rest) in
      if take 1 rest = [34] \<and> length s + 1 < length rest then Some (s, blen s + 2) else None)"

definition sample_json :: "rstr json_api" where
  "sample_json = \<lparr>j_from_str = Inr, j_as_object = (\<lambda>_. Some []), j_is_null = (\<lambda>_. False),
     j_envelope = (\<lambda>v. Inr (plain_text_response v)), j_schema = (\<lambda>_. Inr SchemaV1), j_spoken = Inr,
     j_emotion = (\<lambda>_. Inl []), j_voice_style = (\<lambda>_. Inl []), j_animation_cues = (\<lambda>_. Inl []),
     j_memory_proposals = (\<lambda>_. Inl []), j_interruption = (\<lambda>_. Inl []), j_actions = (\<lambda>_. Inl []),
     j_string_step = (\<lambda>r. case quoted_step r of None \<Rightarrow> JsonEof | Some (s, n) \<Rightarrow> JsonValue s n),
     j_value_step = (\<lambda>r. case quoted_step r of None \<Rightarrow> JsonEof | Some (s, n) \<Rightarrow> JsonValue () n),
     j_str_schema = (\<lambda>_. Inr SchemaV1), j_str_spoken = (\<lambda>r. Inr (butlast (tl r)))\<rparr>"

definition sample_adapter :: "streaming_format \<Rightarrow> adapter" where
  "sample_adapter format = the (new_adapter format default_response_policy sample_config 7)"

lemma new_sample_adapter: "new_adapter format default_response_policy sample_config 7 = Some (sample_adapter format)"
  by (simp add: sample_adapter_def new_adapter_def new_sample Let_def)

definition hi_span :: sentence_span where
  "hi_span = \<lparr>ss_sentence_id = 1, ss_text_start_bytes = 1, ss_text_end_bytes = 4, ss_text = lit ''Hi!''\<rparr>"

definition yes_span :: sentence_span where
  "yes_span = \<lparr>ss_sentence_id = 2, ss_text_start_bytes = 5, ss_text_end_bytes = 9, ss_text = lit ''Yes?''\<rparr>"

definition first_two :: "sentence_span list" where
  "first_two = [hi_span, yes_span]"

definition last_one :: sentence_span where
  "last_one = \<lparr>ss_sentence_id = 3, ss_text_start_bytes = 10, ss_text_end_bytes = 12, ss_text = lit ''no''\<rparr>"

definition spoken_sample :: rstr where
  "spoken_sample = lit '' Hi! Yes? no''"

lemma push_spoken_sample:
  "push_spans spoken_sample sample_segmenter = Some (first_two,
     \<lparr>sg_config = sample_config, sg_buffer = lit ''no'', sg_buffer_source_start = 10, sg_next_sentence_id = 3\<rparr>)"
  by (simp add: segmenter_eval sample_segmenter_def sample_config_def spoken_sample_def first_two_def hi_span_def yes_span_def)

lemma segment_spoken_sample: "segment_text sample_config spoken_sample = Some (first_two @ [last_one])"
  by (simp add: segment_text_def new_sample push_spoken_sample sample_finish last_one_def)

lemma validate_spoken_sample: "validate_spoken default_response_policy spoken_sample = Inr ()"
  by (simp add: validate_spoken_def validate_text_def default_response_policy_def MAX_SPOKEN_RESPONSE_BYTES_def
      spoken_sample_def lit_def is_blank_iff is_whitespace_def disallowed_control_def is_control_def len_utf8_def)

lemma validate_plain_sample: "validate_response default_response_policy (plain_text_response spoken_sample) = Inr ()"
  by (simp add: validate_response_def plain_text_response_def validate_spoken_sample default_voice_style_def
      validate_voice_style_def validate_animation_def validate_memory_def validate_interruption_def
      validate_actions_def bounded_count_def finite_range_def)

lemmas adapter_eval = sample_adapter_def new_adapter_def push_delta_def push_guard_def adapter_finish_def
  require_active_generation_def require_generation_def adapter_maximum_def MAX_PROVIDER_RESPONSE_BYTES_def
  u64_max_def Let_def

lemma blen_spoken_sample: "blen spoken_sample = 12"
  by (simp add: spoken_sample_def lit_def len_utf8_def)

lemma strict_spoken_sample:
  "from_json_strict sample_json default_response_policy spoken_sample = Inr (plain_text_response spoken_sample)"
  by (simp add: from_json_strict_def validate_provider_size_def blen_spoken_sample MAX_PROVIDER_RESPONSE_BYTES_def
      sample_json_def map_error_def unsupported_top_level_fields_def validate_plain_sample)

definition sample_final :: finalized_response where
  "sample_final = \<lparr>fr_response = plain_text_response spoken_sample, fr_format = StructuredV1,
     fr_ready_sentences = first_two @ [last_one], fr_all_sentences = first_two @ [last_one]\<rparr>"

lemma sample_structured_run:
  "\<exists>ad. adapter_run sample_json [PushDelta 7 1 spoken_sample, FinishStream 7] (sample_adapter StructuredV1)
     = Some ([Sentences [], Final sample_final], ad)"
  by (simp add: adapter_eval finish_structured_def blen_spoken_sample strict_spoken_sample segment_spoken_sample
      sample_final_def plain_text_response_def [of spoken_sample])

theorem adapter_delivers_the_response_witness:
  "\<exists>outs ad. adapter_run sample_json [PushDelta 7 1 spoken_sample, FinishStream 7] (sample_adapter StructuredV1) = Some (outs, ad)
     \<and> delivered outs = first_two @ [last_one] \<and> exact_segmentation spoken_sample (delivered outs)"
proof -
  obtain ad where r: "adapter_run sample_json [PushDelta 7 1 spoken_sample, FinishStream 7] (sample_adapter StructuredV1)
     = Some ([Sentences [], Final sample_final], ad)" using sample_structured_run by blast
  have "Final sample_final \<in> set [Sentences [], Final sample_final]" by simp
  from adapter_delivers_the_response [OF new_sample_adapter r this]
  have "delivered [Sentences [], Final sample_final] = first_two @ [last_one]
     \<and> exact_segmentation spoken_sample (delivered [Sentences [], Final sample_final])"
    by (simp add: sample_final_def plain_text_response_def)
  with r show ?thesis by blast
qed

definition speech_sample :: rstr where
  "speech_sample = [123] @ quoted ''schema_version'' @ [58] @ quoted ''v1'' @ [44]
     @ quoted ''spoken_response'' @ [58] @ quoted '' Hi! Yes? no'' @ [44]"

lemma scan_speech_sample:
  "scan_speech_first_envelope sample_json speech_sample = Inr \<lparr>sc_spoken_response = Some spoken_sample, sc_complete = False\<rparr>"
  by (simp add: speech_sample_def quoted_def scan_speech_first_envelope_def skip_json_whitespace_def lit_def
      scan_fields.simps scan_round_def scan_value_def parse_complete_json_value_def scan_field_value_def
      sample_json_def quoted_step_def Let_def len_utf8_def str_from_pos str_upto_def TOP_LEVEL_FIELDS_def map_error_def
      speech_first_scan_progress_def spoken_sample_def)

lemma sample_speech_first_run:
  "\<exists>ad. adapter_run sample_json [PushDelta 7 1 speech_sample] (sample_adapter StructuredSpeechFirstV1)
     = Some ([Sentences (first_two @ [last_one])], ad)"
proof -
  have "blen speech_sample < 100" by (simp add: speech_sample_def quoted_def lit_def len_utf8_def)
  then show ?thesis
    by (simp add: adapter_eval speech_first_push_def scan_speech_sample validate_spoken_sample segment_spoken_sample)
qed

theorem structured_speech_gate_witness:
  "\<exists>outs ad. adapter_run sample_json [PushDelta 7 1 speech_sample] (sample_adapter StructuredSpeechFirstV1) = Some (outs, ad)
     \<and> delivered outs \<noteq> []
     \<and> (\<exists>t. heard sample_json 7 [PushDelta 7 1 speech_sample] t \<and> exact_segmentation t (delivered outs))"
proof -
  obtain ad where r: "adapter_run sample_json [PushDelta 7 1 speech_sample] (sample_adapter StructuredSpeechFirstV1)
     = Some ([Sentences (first_two @ [last_one])], ad)" using sample_speech_first_run by blast
  have f: "StructuredSpeechFirstV1 \<noteq> LegacyPlainText" "\<forall>f. Final f \<notin> set [Sentences (first_two @ [last_one])]"
    by simp_all
  from structured_speech_gate [OF new_sample_adapter r f] r show ?thesis by fastforce
qed

theorem closed_adapter_is_inert_witness:
  "\<exists>outs. adapter_run sample_json [PushDelta 7 1 spoken_sample, FinishStream 7, CancelStream 7]
     (snd (adapter_cancel 7 (sample_adapter StructuredV1))) = Some (outs, snd (adapter_cancel 7 (sample_adapter StructuredV1)))
     \<and> delivered outs = []"
proof -
  have "ad_state (snd (adapter_cancel 7 (sample_adapter StructuredV1))) \<noteq> AdActive"
    by (simp add: adapter_cancel_def adapter_eval)
  from closed_adapter_is_inert [OF this] show ?thesis by blast
qed

end
