(* ===== verification/Lane_Properties.thy ===== *)
theory Lane_Properties
  imports Lane_Logic Response_Adapter
begin

text \<open>
  What the three lanes promise to the turn: the language model lane has put exactly the sentences of one
  provider's response into the channel, the speech lane delivers every sentence of the channel once and in
  order, and the effects lane returns validated or neutral effects.
\<close>

section \<open>The language model lane\<close>

text \<open>Spans that are exact slices of a text and in order, perhaps not all of it.\<close>

definition partial_segmentation :: "rstr \<Rightarrow> sentence_span list \<Rightarrow> bool" where
  "partial_segmentation src spans \<longleftrightarrow> (\<forall>sp\<in>set spans. span_of src sp) \<and> ordered_between 0 spans (blen src)"

lemma exact_partial: "exact_segmentation src spans \<Longrightarrow> partial_segmentation src spans"
  by (simp add: exact_segmentation_def partial_segmentation_def)

text \<open>The adapter of the current provider and what has been sent for it.\<close>

definition lane_inv :: "'j llm_context \<Rightarrow> rstr \<Rightarrow> adapter \<Rightarrow> sentence_span list \<Rightarrow> bool" where
  "lane_inv cx out ad sent \<longleftrightarrow> adapter_inv sent ad \<and> ad_format ad = lx_format cx
     \<and> (lx_format cx = LegacyPlainText \<longrightarrow> ad_buffer ad = out)"

definition result_ok :: "llm_lane_result \<Rightarrow> sentence_span list \<Rightarrow> bool" where
  "result_ok r sent \<longleftrightarrow> partial_segmentation (ll_full_text r) sent
     \<and> (ll_terminal_error r = None \<longrightarrow> exact_segmentation (ll_full_text r) sent)"

lemma push_all_partial:
  assumes "new_segmenter cfg = Some st0" and "push_all ds st0 = Some (spans, st)"
  shows "partial_segmentation (concat ds) spans"
proof -
  note new = new_segmenter_SomeD [OF assms(1)]
  have t: "tracks (concat ds) st" "\<forall>sp\<in>set spans. span_of (concat ds) sp"
    using push_all_tracks [OF assms(2) new(6)] by auto
  have "ordered_between 0 spans (sg_buffer_source_start st)" using push_all_rest [OF assms(2)] new(4) by simp
  moreover have "sg_buffer_source_start st \<le> blen (concat ds)" using t(1) by (auto simp: tracks_def)
  ultimately show ?thesis using t(2) ordered_between_mono by (auto simp: partial_segmentation_def)
qed

lemma partial_segmentation_Nil [simp]: "partial_segmentation src []"
  by (simp add: partial_segmentation_def)

lemma safe_partial_response_exact:
  assumes "lane_inv cx out ad sent"
  shows "partial_segmentation (safe_partial_response (lx_format cx) out ad) sent"
proof (cases "lx_format cx")
  case LegacyPlainText
  with assms obtain ds sg0 sg where "new_segmenter (ad_sentence_config ad) = Some sg0" "out = concat ds"
    "push_all ds sg0 = Some (sent, sg)" by (auto simp: lane_inv_def adapter_inv_def)
  with LegacyPlainText show ?thesis using push_all_partial by (simp add: safe_partial_response_def)
qed (use assms in \<open>auto simp: lane_inv_def adapter_inv_def safe_partial_response_def released_spoken_text_def
      split: option.splits dest!: segment_text_exact intro: exact_partial\<close>)

lemma terminal_result_ok: "lane_inv cx out ad sent \<Longrightarrow> result_ok (terminal_result cx d out ad e) sent"
  by (simp add: result_ok_def terminal_result_def safe_partial_response_exact)

lemma push_delta_lane_inv:
  assumes "lane_inv cx out ad sent" and "push_delta js g n t ad = Some (r, ad')"
  shows "case r of Inl _ \<Rightarrow> lane_inv cx out ad' sent | Inr ready \<Rightarrow> lane_inv cx (out @ t) ad' (sent @ ready)"
proof -
  have i: "adapter_inv (sent @ (case r of Inl _ \<Rightarrow> [] | Inr s \<Rightarrow> s)) ad'" "ad_format ad' = ad_format ad"
    using push_delta_inv [OF assms(2), of sent] assms(1) by (auto simp: lane_inv_def)
  have "ad_format ad = LegacyPlainText \<Longrightarrow> ad_buffer ad' = ad_buffer ad @ (case r of Inl _ \<Rightarrow> [] | Inr _ \<Rightarrow> t)"
    using assms(2) by (auto simp: push_delta_def split: sum.splits option.splits)
  with i assms(1) show ?thesis by (auto simp: lane_inv_def split: sum.splits)
qed

lemma finish_lane_inv:
  assumes "lane_inv cx out ad sent" and "adapter_finish js g ad = Some (r, ad')"
  shows "case r of Inl _ \<Rightarrow> ad' = ad
     | Inr f \<Rightarrow> exact_segmentation (nr_spoken (fr_response f)) (sent @ fr_ready_sentences f)"
proof (cases r)
  case (Inl e)
  then show ?thesis using adapter_finish_refused assms(2) by auto
next
  case (Inr f)
  then have "adapter_finish js g ad = Some (Inr f, ad')" using assms(2) by simp
  from adapter_finish_exact [OF this, of sent] assms(1) Inr show ?thesis by (auto simp: lane_inv_def)
qed

abbreviation sent_is :: "sentence_span list \<Rightarrow> lane_state \<Rightarrow> bool" where
  "sent_is x s \<equiv> ls_sent s = x"

abbreviation cancelled_error :: "supervisor_error \<Rightarrow> lane_state \<Rightarrow> bool" where
  "cancelled_error e s \<equiv> e = SupCancelled"

lemma send_sentences_triple:
  "ltriple (sent_is base) (send_sentences env i sps) (\<lambda>_. sent_is (base @ sps)) cancelled_error"
proof (induction sps arbitrary: base)
  case (Cons sp sps)
  have "ltriple (sent_is base) (send_sentence env i sp) (\<lambda>_. sent_is (base @ [sp])) cancelled_error"
    unfolding send_sentence_def
    by (intro ltriple_step ltriple_lmodify) (auto intro!: keeps_rules cancels_rules simp: unobserved_projections)
  from ltriple_lthen [OF this] Cons.IH [of "base @ [sp]"] show ?case by simp
qed (simp add: ltriple_lret)

lemma cancels_send_sentences [cancels_rules]: "cancels (send_sentences env i sps)"
  by (induction sps) (auto simp: send_sentence_def intro!: cancels_rules)

text \<open>Sending the ready sentences of an adapter, with the permit given back when the turn is cancelled.\<close>

lemma send_ready_triple:
  assumes "keeps ls_sent m" "cancels m" "keeps ls_sent c"
  shows "ltriple (sent_is base) (on_error (lthen m (send_sentences env i sps)) c) (\<lambda>_. sent_is (base @ sps)) cancelled_error"
proof (rule ltriple_on_error)
  show "ltriple (sent_is base) (lthen m (send_sentences env i sps)) (\<lambda>_. sent_is (base @ sps)) cancelled_error"
    by (intro ltriple_step assms(1,2) send_sentences_triple) simp
qed (simp add: ltriple_def split: sum.splits)

lemma send_finished_triple:
  "ltriple (sent_is base) (on_error (send_sentences env i sps) c) (\<lambda>_. sent_is (base @ sps)) cancelled_error"
  by (rule ltriple_on_error [OF send_sentences_triple]) (simp add: ltriple_def split: sum.splits)

lemmas lane_step_rules = keeps_rules cancels_rules

lemma llm_finish_triple:
  assumes "lane_inv cx out ad sent"
  shows "ltriple (sent_is (base @ sent)) (llm_finish cx primary d out ad)
    (\<lambda>r s. \<exists>sent'. sent_is (base @ sent') s \<and> result_ok r sent' \<and> ll_provider_id r = pd_id d) cancelled_error"
proof (cases "adapter_finish (lx_json cx) (ti_generation (lx_identity cx)) ad")
  case None
  then show ?thesis by (simp add: llm_finish_def Let_def ltriple_lpanic)
next
  case (Some p)
  obtain r ad' where p: "p = (r, ad')" by fastforce
  note fin = finish_lane_inv [OF assms Some [unfolded p]]
  show ?thesis
  proof (cases r)
    case (Inl e)
    then have "result_ok (terminal_result cx d out ad' (InvalidProviderResponse e)) sent"
      using fin assms terminal_result_ok by fastforce
    with Some p Inl show ?thesis
      by (auto simp: llm_finish_def Let_def terminal_result_def unobserved_projections
          intro!: ltriple_step ltriple_lret lane_step_rules)
  next
    case (Inr f)
    have send: "ltriple (sent_is (base @ sent))
        (on_error (send_sentences (lx_env cx) (lx_identity cx) (fr_ready_sentences f)) (permit_drop (lx_circuit cx) d))
        (\<lambda>_. sent_is (base @ sent @ fr_ready_sentences f)) cancelled_error"
      using send_finished_triple [of "base @ sent"] by simp
    show ?thesis using fin Inr Some p
      unfolding llm_finish_def Let_def
      by (auto simp: result_ok_def unobserved_projections exact_partial
          intro!: ltriple_lthen [OF send] ltriple_step ltriple_step_bind ltriple_lret lane_step_rules)
  qed
qed

lemma llm_delta_step_triple:
  assumes "lane_inv cx out ad sent"
  shows "ltriple (sent_is (base @ sent)) (llm_delta_step cx d g delta out ad)
    (\<lambda>r s. case r of
       Inl result \<Rightarrow> sent_is (base @ sent) s \<and> result_ok result sent \<and> ll_provider_id result = pd_id d
     | Inr (out', ad') \<Rightarrow> out' = out @ ld_text delta \<and> (\<exists>sent'. sent_is (base @ sent') s \<and> lane_inv cx out' ad' sent'))
    cancelled_error"
proof (cases "push_delta (lx_json cx) (ti_generation (lx_identity cx)) (ld_sequence delta) (ld_text delta) ad")
  case None
  then show ?thesis unfolding llm_delta_step_def Let_def
    by (auto split: option.split simp: unobserved_projections intro!: ltriple_step ltriple_lpanic lane_step_rules)
next
  case (Some p)
  obtain r ad' where p: "p = (r, ad')" by fastforce
  note push = push_delta_lane_inv [OF assms Some [unfolded p]]
  show ?thesis
  proof (cases r)
    case (Inl e)
    with push have "result_ok (terminal_result cx d out ad' (InvalidProviderResponse e)) sent"
      by (auto intro: terminal_result_ok)
    with Some p Inl show ?thesis unfolding llm_delta_step_def Let_def
      by (auto split: option.split simp: terminal_result_def unobserved_projections
          intro!: ltriple_step ltriple_lret lane_step_rules)
  next
    case (Inr ready)
    let ?m = "if lx_format cx = LegacyPlainText then emit (lx_env cx) (EvTextDelta (lx_identity cx) delta) else lret ()"
    have "keeps ls_sent ?m" "cancels ?m"
      by (auto simp: unobserved_projections intro!: lane_step_rules)
    from send_ready_triple [OF this, of "permit_drop (lx_circuit cx) d" "base @ sent"]
    have send: "ltriple (sent_is (base @ sent))
        (on_error (lthen ?m (send_sentences (lx_env cx) (lx_identity cx) ready)) (permit_drop (lx_circuit cx) d))
        (\<lambda>_. sent_is (base @ sent @ ready)) cancelled_error"
      by (simp add: keeps_permits unobserved_projections)
    let ?Q = "\<lambda>r s. case r of
        Inl result \<Rightarrow> sent_is (base @ sent) s \<and> result_ok result sent \<and> ll_provider_id result = pd_id d
      | Inr (out', ad') \<Rightarrow> out' = out @ ld_text delta \<and> (\<exists>sent'. sent_is (base @ sent') s \<and> lane_inv cx out' ad' sent')"
    have "ltriple (sent_is (base @ sent))
        (lthen (on_error (lthen ?m (send_sentences (lx_env cx) (lx_identity cx) ready)) (permit_drop (lx_circuit cx) d))
          (lret (Inr (out @ ld_text delta, ad')))) ?Q cancelled_error"
      using push Inr by (intro ltriple_lthen [OF send] ltriple_lret) auto
    note rest = this
    show ?thesis
      unfolding llm_delta_step_def Let_def Some p Inr option.case prod.case sum.case
      by (rule ltriple_step [OF _ _ rest])
        (auto simp: unobserved_projections intro!: lane_step_rules split: option.split)
  qed
qed

definition attempt_post :: "sentence_span list \<Rightarrow> provider_descriptor \<Rightarrow> rstr + llm_lane_result \<Rightarrow> lane_state \<Rightarrow> bool" where
  "attempt_post base d r s =
     (case r of
        Inl _ \<Rightarrow> sent_is base s
      | Inr result \<Rightarrow> \<exists>sent'. sent_is (base @ sent') s \<and> result_ok result sent' \<and> ll_provider_id result = pd_id d)"

lemma attempt_post_simps [simp]:
  "attempt_post base d (Inl e) s \<longleftrightarrow> sent_is base s"
  "attempt_post base d (Inr result) s \<longleftrightarrow>
     (\<exists>sent'. sent_is (base @ sent') s \<and> result_ok result sent' \<and> ll_provider_id result = pd_id d)"
  by (simp_all add: attempt_post_def)

text \<open>The loop over one provider's stream: either it has a result, or it goes on to the next provider without
  having sent anything. As long as nothing was received, nothing was sent.\<close>

lemma llm_stream_loop_triple:
  assumes "lane_inv cx out ad sent" and "out = [] \<longrightarrow> sent = []" and "g \<noteq> None \<longrightarrow> out = []"
  shows "ltriple (sent_is (base @ sent)) (llm_stream_loop cx primary d g out ad items)
    (attempt_post base d)
    cancelled_error"
  using assms
proof (induction items arbitrary: g out ad sent)
  case Nil
  show ?case
  proof (cases g)
    case None
    from llm_finish_triple [OF Nil.prems(1), of base primary d]
    have "ltriple (sent_is (base @ sent)) (lbind (llm_finish cx primary d out ad) (\<lambda>r. lret (Inr r)))
      (attempt_post base d)
      cancelled_error"
      by (rule ltriple_lbind) (auto intro!: ltriple_lret)
    with None show ?thesis
      by (auto simp: unobserved_projections intro!: ltriple_step lane_step_rules)
  next
    case (Some g')
    with Nil.prems show ?thesis
      by (auto simp: unobserved_projections intro!: ltriple_step ltriple_lret lane_step_rules)
  qed
next
  case (Cons item items)
  show ?case
  proof (cases item)
    case (Inl e)
    have "result_ok (terminal_result cx d out ad (StreamFailed e)) sent" using Cons.prems terminal_result_ok by blast
    with Cons.prems Inl show ?thesis
      by (auto simp: terminal_result_def unobserved_projections intro!: ltriple_step ltriple_lret lane_step_rules)
  next
    case item: (Inr delta)
    show ?thesis
  proof (cases "ld_text delta = []")
    case True
    with Cons item show ?thesis by (auto simp: unobserved_projections intro!: ltriple_step lane_step_rules)
  next
    case False
    let ?next = "\<lambda>r. case r of Inl result \<Rightarrow> lret (Inr result)
        | Inr (out', ad') \<Rightarrow> llm_stream_loop cx primary d None out' ad' items"
    let ?Q = "attempt_post base d"
    have "ltriple (sent_is (base @ sent)) (lbind (llm_delta_step cx d g delta out ad) ?next) ?Q cancelled_error"
    proof (rule ltriple_lbind [OF llm_delta_step_triple [OF Cons.prems(1)]])
      fix r
      show "ltriple (\<lambda>s. case r of
         Inl result \<Rightarrow> sent_is (base @ sent) s \<and> result_ok result sent \<and> ll_provider_id result = pd_id d
       | Inr (out', ad') \<Rightarrow> out' = out @ ld_text delta \<and> (\<exists>sent'. sent_is (base @ sent') s \<and> lane_inv cx out' ad' sent'))
        (?next r) ?Q cancelled_error"
      proof (cases r)
        case (Inl result)
        then show ?thesis by (auto intro!: ltriple_lret)
      next
        case (Inr q)
        obtain out' ad' where q: "q = (out', ad')" by fastforce
        have "ltriple (sent_is (base @ sent')) (llm_stream_loop cx primary d None out' ad' items) ?Q cancelled_error"
          if "out' = out @ ld_text delta" "lane_inv cx out' ad' sent'" for sent'
          using Cons.IH [of out' ad' sent' None] that False by auto
        with Inr q show ?thesis by (simp, intro ltriple_pure ltriple_ex) simp
      qed
    qed
    with False item show ?thesis by (auto simp: unobserved_projections intro!: ltriple_step lane_step_rules)
  qed
  qed
qed

lemma llm_attempt_triple:
  "ltriple (sent_is base) (llm_attempt cx primary d)
    (attempt_post base d)
    cancelled_error"
proof -
  have "ltriple (sent_is base) (llm_stream_loop cx primary d (Some g) [] ad items)
    (attempt_post base d)
    cancelled_error"
    if "new_adapter (lx_format cx) default_response_policy (lx_sentences cx) (ti_generation (lx_identity cx)) = Some ad" for g ad items
  proof -
    have "ad_buffer ad = []" using that by (auto simp: new_adapter_def Let_def split: if_splits)
    then have "lane_inv cx [] ad []" using new_adapter_inv [OF that] by (simp add: lane_inv_def)
    from llm_stream_loop_triple [OF this, of "Some g" base primary d items] show ?thesis by simp
  qed
  then show ?thesis unfolding llm_attempt_def Let_def
    by (auto simp: unobserved_projections split: sum.split option.split
        intro!: ltriple_step ltriple_step_bind ltriple_lret ltriple_lpanic lane_step_rules)
qed

text \<open>The whole lane: the selected provider is one of the transitions the policy allows.\<close>

lemma llm_candidates_loop_triple:
  "ltriple (sent_is base) (llm_candidates_loop cx fb primary e ds)
    (\<lambda>r s. \<exists>sent'. sent_is (base @ sent') s \<and> result_ok r sent'
       \<and> (\<exists>d\<in>set ds. allows_transition fb primary d \<and> ll_provider_id r = pd_id d))
    (\<lambda>e s. e = SupCancelled \<or> sent_is base s)"
proof (induction ds arbitrary: e)
  case Nil
  then show ?case by (simp add: ltriple_lfail)
next
  case (Cons d ds)
  show ?case
  proof (cases "allows_transition fb primary d")
    case False
    have "ltriple (sent_is base) (llm_candidates_loop cx fb primary e ds)
      (\<lambda>r s. \<exists>sent'. sent_is (base @ sent') s \<and> result_ok r sent'
         \<and> (\<exists>d\<in>set (d # ds). allows_transition fb primary d \<and> ll_provider_id r = pd_id d))
      (\<lambda>e s. e = SupCancelled \<or> sent_is base s)"
      by (rule ltriple_conseq [OF Cons.IH]) auto
    with False show ?thesis by simp
  next
    case True
    have "ltriple (sent_is base)
      (lbind (llm_attempt cx primary d) (\<lambda>r. case r of Inl e \<Rightarrow> llm_candidates_loop cx fb primary e ds | Inr x \<Rightarrow> lret x))
      (\<lambda>r s. \<exists>sent'. sent_is (base @ sent') s \<and> result_ok r sent'
         \<and> (\<exists>d\<in>set (d # ds). allows_transition fb primary d \<and> ll_provider_id r = pd_id d))
      (\<lambda>e s. e = SupCancelled \<or> sent_is base s)"
    proof (rule ltriple_lbind)
      show "ltriple (sent_is base) (llm_attempt cx primary d) (attempt_post base d) (\<lambda>e s. e = SupCancelled \<or> sent_is base s)"
        by (rule ltriple_conseq [OF llm_attempt_triple [of base]]) auto
      fix r
      show "ltriple (attempt_post base d r)
        (case r of Inl e \<Rightarrow> llm_candidates_loop cx fb primary e ds | Inr x \<Rightarrow> lret x)
        (\<lambda>r s. \<exists>sent'. sent_is (base @ sent') s \<and> result_ok r sent'
           \<and> (\<exists>d\<in>set (d # ds). allows_transition fb primary d \<and> ll_provider_id r = pd_id d))
        (\<lambda>e s. e = SupCancelled \<or> sent_is base s)"
      proof (cases r)
        case (Inl e')
        then show ?thesis by (auto intro!: ltriple_conseq [OF Cons.IH])
      next
        case (Inr result)
        then show ?thesis using True by (auto intro!: ltriple_lret)
      qed
    qed
    with True show ?thesis by simp
  qed
qed

lemma allowed_then_reachable_candidates:
  assumes "allowed_llm_candidates ps plan = primary # rest"
    and "d \<in> set (primary # rest)" and "allows_transition (rp_fallback plan) primary d"
  shows "d \<in> set (candidates plan (\<lambda>d. d) ps)"
proof -
  have "find (\<lambda>d. evaluate (rp_privacy plan) d = Allowed) ps = Some primary"
    using assms(1) unfolding allowed_llm_candidates_def
    by (induction ps) (auto split: if_splits)
  moreover have "d \<in> set ps \<and> evaluate (rp_privacy plan) d = Allowed"
    using assms(2) unfolding assms(1) [symmetric] allowed_llm_candidates_def by simp
  ultimately show ?thesis using assms(3) by (simp add: candidates_def)
qed

lemma run_llm_lane_triple:
  "ltriple (sent_is base) (run_llm_lane env js cfg sc request plan ps)
    (\<lambda>r s. \<exists>sent'. sent_is (base @ sent') s \<and> result_ok r sent' \<and> (\<exists>d\<in>set (candidates plan (\<lambda>d. d) ps). ll_provider_id r = pd_id d))
    (\<lambda>e s. e = SupCancelled \<or> sent_is base s)"
proof (cases "from_route_metadata (gr_metadata request)")
  case (Inl e)
  then show ?thesis by (simp add: run_llm_lane_def ltriple_lfail)
next
  case (Inr fmt)
  show ?thesis
  proof (cases "allowed_llm_candidates ps plan")
    case Nil
    with Inr show ?thesis by (simp add: run_llm_lane_def Let_def ltriple_lfail)
  next
    case (Cons primary rest)
    have "ltriple (sent_is base)
      (llm_candidates_loop cx (rp_fallback plan) primary e (primary # rest))
      (\<lambda>r s. \<exists>sent'. sent_is (base @ sent') s \<and> result_ok r sent' \<and> (\<exists>d\<in>set (candidates plan (\<lambda>d. d) ps). ll_provider_id r = pd_id d))
      (\<lambda>e s. e = SupCancelled \<or> sent_is base s)" for cx :: "'a llm_context" and e
      by (rule ltriple_conseq [OF llm_candidates_loop_triple])
        (use allowed_then_reachable_candidates [OF Cons] in blast)+
    with Inr Cons show ?thesis by (simp add: run_llm_lane_def Let_def del: llm_candidates_loop.simps)
  qed
qed

section \<open>The effects lane\<close>

definition effects_post :: "rstr list \<Rightarrow> effects_lane_result \<Rightarrow> lane_state \<Rightarrow> bool" where
  "effects_post allowed r s \<longleftrightarrow> effects_safe allowed (el_effects r)
     \<and> (el_lifecycle r = LaneCompleted \<and> NeutralEffects \<notin> set (el_degradations r)
        \<or> el_lifecycle r = LaneNeutralized \<and> NeutralEffects \<in> set (el_degradations r) \<and> el_effects r = neutral_effects)"

lemma neutralized_triple: "ltriple (\<lambda>_. True) (neutralized env i reason) (effects_post allowed) cancelled_error"
  unfolding neutralized_def
  by (auto simp: effects_post_def intro!: ltriple_pass ltriple_lret cancels_rules)

lemma effects_accepted_triple:
  "effects_safe allowed e \<Longrightarrow> ltriple (\<lambda>_. True) (effects_accepted env cfg i primary d e) (effects_post allowed) cancelled_error"
  unfolding effects_accepted_def
  by (auto simp: effects_post_def intro!: ltriple_pass ltriple_lbind [where R = "\<lambda>ds _. NeutralEffects \<notin> set ds"]
      ltriple_lret cancels_rules)

lemma effects_loop_triple:
  "ltriple (\<lambda>_. True) (effects_loop env cfg i fb allowed primary ds) (effects_post allowed) cancelled_error"
proof (induction ds)
  case (Cons d ds)
  have "ltriple (\<lambda>_. True) (case validate_effects allowed e of
           Inr e' \<Rightarrow> effects_accepted env cfg i primary d e'
         | Inl _ \<Rightarrow> lthen (permit_failure env cfg d) (effects_loop env cfg i fb allowed primary ds))
       (effects_post allowed) cancelled_error" for e
    using Cons.IH validated_effects_safe [of allowed e]
    by (auto split: sum.split intro!: effects_accepted_triple ltriple_pass cancels_rules)
  with Cons.IH show ?case
    by (auto split: sum.split intro!: ltriple_pass ltriple_pass_bind ltriple_lfail cancels_rules)
qed (simp add: neutralized_triple)

lemma run_effects_lane_triple:
  "ltriple (\<lambda>_. True) (run_effects_lane env cfg request plan ps allowed) (effects_post allowed) cancelled_error"
  unfolding run_effects_lane_def Let_def
  by (auto split: list.split simp del: effects_loop.simps intro!: neutralized_triple effects_loop_triple)

section \<open>The speech lane\<close>

definition delivered_span :: "delivered_sentence \<Rightarrow> sentence_span" where
  "delivered_span d = \<lparr>ss_sentence_id = ds_sentence_id d, ss_text_start_bytes = ds_text_start_bytes d,
     ss_text_end_bytes = ds_text_end_bytes d, ss_text = ds_text d\<rparr>"

text \<open>What the search for a voice leaves of the loop variables.\<close>

definition speech_frame :: "rstr set \<Rightarrow> speech_loop \<Rightarrow> speech_loop \<Rightarrow> bool" where
  "speech_frame ids v v' \<longleftrightarrow> sv_delivered v' = sv_delivered v
     \<and> (AudioToSubtitles \<in> set (sv_degradations v') \<longleftrightarrow> AudioToSubtitles \<in> set (sv_degradations v))
     \<and> set (sv_selected v') \<subseteq> set (sv_selected v) \<union> ids"

lemma speech_frame_refl [simp]: "speech_frame ids v v"
  by (simp add: speech_frame_def)

lemma speech_frame_trans: "speech_frame ids a b \<Longrightarrow> speech_frame ids b c \<Longrightarrow> speech_frame ids a c"
  by (auto simp: speech_frame_def)

abbreviation plays_are :: "(nat \<times> rstr) list \<Rightarrow> lane_state \<Rightarrow> bool" where
  "plays_are x s \<equiv> ls_plays s = x"

text \<open>At most one playback for the sentence; a completed one selects its provider.\<close>

definition voice_post ::
  "(nat \<times> rstr) list \<Rightarrow> rstr set \<Rightarrow> nat \<Rightarrow> speech_loop \<Rightarrow> playback_receipt option \<times> speech_loop \<Rightarrow> lane_state \<Rightarrow> bool" where
  "voice_post base ids sid v r s \<longleftrightarrow> speech_frame ids v (snd r) \<and>
     (plays_are base s \<and> fst r = None
      \<or> (\<exists>pid\<in>ids. plays_are (base @ [(sid, pid)]) s \<and> (fst r \<noteq> None \<longrightarrow> pid \<in> set (sv_selected (snd r)))))"

lemma settle_playback_triple:
  assumes "pd_id d \<in> ids"
  shows "ltriple (plays_are (base @ [(sid, pd_id d)])) (settle_playback env cfg i primary d v receipt)
    (voice_post base ids sid v) cancelled_error"
  using assms unfolding settle_playback_def Let_def
  by (auto split: sum.split simp: unobserved_projections voice_post_def speech_frame_def
      intro!: ltriple_step ltriple_lret ltriple_lfail lane_step_rules)

lemma play_sentence_triple:
  assumes "pd_id d \<in> ids"
  shows "ltriple (plays_are base) (play_sentence env cfg i primary d sp v) (voice_post base ids (ss_sentence_id sp) v) cancelled_error"
proof -
  let ?x = "base @ [(ss_sentence_id sp, pd_id d)]"
  have "ltriple (plays_are ?x) (lbind (ask (le_play env)) (settle_playback env cfg i primary d v))
     (voice_post base ids (ss_sentence_id sp) v) cancelled_error"
    by (rule ltriple_step_bind [OF _ _ settle_playback_triple [OF assms]])
      (auto simp: unobserved_projections intro!: lane_step_rules)
  then have "ltriple (plays_are base) (lthen (lmodify (\<lambda>s. s\<lparr>ls_plays := ls_plays s @ [(ss_sentence_id sp, pd_id d)]\<rparr>))
      (lbind (ask (le_play env)) (settle_playback env cfg i primary d v)))
     (voice_post base ids (ss_sentence_id sp) v) cancelled_error"
    by (intro ltriple_lthen [OF ltriple_lmodify [where Q = "\<lambda>_. plays_are ?x"]]) auto
  note play = this
  show ?thesis unfolding play_sentence_def
    by (rule ltriple_step [OF _ _ play]) (auto simp: unobserved_projections intro!: lane_step_rules)
qed

lemma voice_post_frame: "voice_post base ids sid v1 r s \<Longrightarrow> speech_frame ids v v1 \<Longrightarrow> voice_post base ids sid v r s"
  by (auto simp: voice_post_def intro: speech_frame_trans)

text \<open>Opening a session does not play anything.\<close>

lemma open_session_triple:
  "ltriple (plays_are base) (open_session env cfg d v) (\<lambda>(_, v1) s. speech_frame ids v v1 \<and> plays_are base s) cancelled_error"
  unfolding open_session_def
  by (auto split: sum.split simp: unobserved_projections speech_frame_def
      intro!: ltriple_step ltriple_step_bind ltriple_lret lane_step_rules)

lemma speech_providers_loop_triple:
  "{pd_id d | d. d \<in> set ds \<and> allows_transition fb primary d} \<subseteq> ids \<Longrightarrow>
   ltriple (plays_are base) (speech_providers_loop env cfg i fb primary sp ds v) (voice_post base ids (ss_sentence_id sp) v) cancelled_error"
proof (induction ds arbitrary: v)
  case Nil
  then show ?case by (auto simp: voice_post_def intro!: ltriple_lret)
next
  case (Cons d ds)
  have rest: "ltriple (plays_are base) (speech_providers_loop env cfg i fb primary sp ds v1)
      (voice_post base ids (ss_sentence_id sp) v) cancelled_error" if "speech_frame ids v v1" for v1
    by (rule ltriple_conseq [OF Cons.IH]) (use Cons.prems that in \<open>auto intro: voice_post_frame\<close>)
  show ?case
  proof (cases "allows_transition fb primary d")
    case False
    with rest [of v] show ?thesis by simp
  next
    case True
    with Cons.prems have d: "pd_id d \<in> ids" by auto
    have play: "ltriple (plays_are base) (play_sentence env cfg i primary d sp v1)
        (voice_post base ids (ss_sentence_id sp) v) cancelled_error" if "speech_frame ids v v1" for v1
      by (rule ltriple_conseq [OF play_sentence_triple [OF d]]) (use that in \<open>auto intro: voice_post_frame\<close>)
    have "ltriple (plays_are base) (lbind (open_session env cfg d v) (\<lambda>(opened, v1).
              if \<not> opened then speech_providers_loop env cfg i fb primary sp ds v1
              else lbind (ask (le_synthesize env)) (\<lambda>speech.
                case speech of
                  Inl _ \<Rightarrow> lthen (permit_failure env cfg d) (speech_providers_loop env cfg i fb primary sp ds v1)
                | Inr _ \<Rightarrow> play_sentence env cfg i primary d sp v1)))
        (voice_post base ids (ss_sentence_id sp) v) cancelled_error"
    proof (rule ltriple_lbind [OF open_session_triple [where ids = ids]])
      fix x
      show "ltriple (case x of (_, v1) \<Rightarrow> \<lambda>s. speech_frame ids v v1 \<and> plays_are base s)
        (case x of (opened, v1) \<Rightarrow>
              if \<not> opened then speech_providers_loop env cfg i fb primary sp ds v1
              else lbind (ask (le_synthesize env)) (\<lambda>speech.
                case speech of
                  Inl _ \<Rightarrow> lthen (permit_failure env cfg d) (speech_providers_loop env cfg i fb primary sp ds v1)
                | Inr _ \<Rightarrow> play_sentence env cfg i primary d sp v1))
        (voice_post base ids (ss_sentence_id sp) v) cancelled_error"
        by (cases x) (auto split: sum.split simp: unobserved_projections
            intro!: ltriple_pure rest play ltriple_step ltriple_step_bind lane_step_rules)
    qed
    with True rest [of v] show ?thesis
      by (auto split: sum.split simp: unobserved_projections intro!: ltriple_step_bind lane_step_rules)
  qed
qed

text \<open>The loop over the channel. The subtitle degradation is recorded exactly when a sentence was only shown.\<close>

definition subtitles_recorded :: "speech_loop \<Rightarrow> bool" where
  "subtitles_recorded v \<longleftrightarrow>
     (AudioToSubtitles \<in> set (sv_degradations v) \<longleftrightarrow> (\<exists>d\<in>set (sv_delivered v). ds_delivery d = DeliverSubtitle))"

definition speech_post ::
  "(nat \<times> rstr) list \<Rightarrow> rstr set \<Rightarrow> sentence_span list \<Rightarrow> speech_loop \<Rightarrow> speech_loop \<Rightarrow> lane_state \<Rightarrow> bool" where
  "speech_post base ids sps v v' s \<longleftrightarrow>
     map delivered_span (sv_delivered v') = map delivered_span (sv_delivered v) @ sps
     \<and> (subtitles_recorded v \<longrightarrow> subtitles_recorded v')
     \<and> set (sv_selected v') \<subseteq> set (sv_selected v) \<union> ids
     \<and> (\<exists>ps. plays_are (base @ ps) s \<and> subseq (map fst ps) (map ss_sentence_id sps) \<and> snd ` set ps \<subseteq> ids)"

lemma publish_sentence_triple:
  assumes "speech_frame ids v v1 \<or> speech_frame ids v v0 \<and> sv_delivered v1 = sv_delivered v0 \<and> sv_selected v1 = sv_selected v0"
    and "delivered_span d = sp" and "\<exists>ps. x = base @ ps \<and> subseq (map fst ps) [ss_sentence_id sp] \<and> snd ` set ps \<subseteq> ids"
    and "subtitles_recorded v \<longrightarrow> subtitles_recorded (v1\<lparr>sv_delivered := sv_delivered v1 @ [d]\<rparr>)"
  shows "ltriple (plays_are x) (publish_sentence env i d v1) (speech_post base ids [sp] v) cancelled_error"
  using assms unfolding publish_sentence_def
  by (auto simp: unobserved_projections speech_post_def speech_frame_def
      intro!: ltriple_step ltriple_lret lane_step_rules)

lemma note_subtitles_triple:
  "ltriple (plays_are x) (note_subtitles env i v)
    (\<lambda>v1 s. (sv_delivered v1 = sv_delivered v \<and> sv_selected v1 = sv_selected v \<and> AudioToSubtitles \<in> set (sv_degradations v1))
       \<and> plays_are x s) cancelled_error"
  unfolding note_subtitles_def
  by (auto simp: unobserved_projections intro!: ltriple_step ltriple_lret lane_step_rules)

lemma delivered_record_simps [simp]:
  "delivered_span (delivered_record sp mode n t) = sp" "ds_delivery (delivered_record sp mode n t) = mode"
  by (simp_all add: delivered_span_def delivered_record_def)

lemma deliver_sentence_triple:
  assumes "voice_post base ids (ss_sentence_id sp) v (audio, v1) s0" and "x = ls_plays s0"
  shows "ltriple (plays_are x) (deliver_sentence env i sp audio v1) (speech_post base ids [sp] v) cancelled_error"
proof -
  have plays: "\<exists>ps. x = base @ ps \<and> subseq (map fst ps) [ss_sentence_id sp] \<and> snd ` set ps \<subseteq> ids"
    using assms by (auto simp: voice_post_def)
  have f: "speech_frame ids v v1" using assms(1) by (simp add: voice_post_def)
  show ?thesis
  proof (cases audio)
    case None
    have "ltriple (plays_are x) (publish_sentence env i (delivered_record sp DeliverSubtitle 0 0) v2)
        (speech_post base ids [sp] v) cancelled_error"
      if "sv_delivered v2 = sv_delivered v1 \<and> sv_selected v2 = sv_selected v1 \<and> AudioToSubtitles \<in> set (sv_degradations v2)" for v2
      by (rule publish_sentence_triple [of ids v v2 v1])
        (use f plays that in \<open>auto simp: subtitles_recorded_def\<close>)
    then show ?thesis unfolding deliver_sentence_def None option.case
      by (intro ltriple_lbind [OF note_subtitles_triple] ltriple_pure)
  next
    case (Some r)
    have "ltriple (plays_are x) (publish_sentence env i (delivered_record sp DeliverAudio (pr_audible_frames r) (pr_duration r)) v1)
        (speech_post base ids [sp] v) cancelled_error"
      by (rule publish_sentence_triple [of ids v v1 v1])
        (use f plays in \<open>auto simp: subtitles_recorded_def speech_frame_def\<close>)
    then show ?thesis by (simp add: deliver_sentence_def Some)
  qed
qed

lemma speech_sentence_triple:
  assumes "\<And>primary rest. cands = primary # rest \<Longrightarrow> {pd_id d | d. d \<in> set cands \<and> allows_transition fb primary d} \<subseteq> ids"
  shows "ltriple (plays_are base) (speech_sentence env cfg i fb cands sp v) (speech_post base ids [sp] v) cancelled_error"
proof -
  have voice: "ltriple (plays_are base) (case cands of [] \<Rightarrow> lret (None, v1)
       | primary # _ \<Rightarrow> speech_providers_loop env cfg i fb primary sp cands v1)
     (voice_post base ids (ss_sentence_id sp) v1) cancelled_error" for v1
  proof (cases cands)
    case Nil
    then show ?thesis by (auto simp: voice_post_def intro!: ltriple_lret)
  next
    case (Cons primary rest)
    with assms speech_providers_loop_triple [of cands fb primary ids] show ?thesis
      by (simp del: speech_providers_loop.simps)
  qed
  have dlv: "ltriple (voice_post base ids (ss_sentence_id sp) v1 r) (case r of (audio, v2) \<Rightarrow> deliver_sentence env i sp audio v2)
     (speech_post base ids [sp] v1) cancelled_error" for r v1
  proof -
    obtain audio v2 where r: "r = (audio, v2)" by fastforce
    show ?thesis unfolding r prod.case ltriple_def
      using deliver_sentence_triple [of base ids sp v1 audio v2] unfolding ltriple_def by blast
  qed
  have post: "speech_post base ids [sp] (v\<lparr>sv_announced := b\<rparr>) = speech_post base ids [sp] v" for b
    by (intro ext) (simp add: speech_post_def subtitles_recorded_def)
  have rest: "ltriple (plays_are base) (lbind (case cands of [] \<Rightarrow> lret (None, v1)
       | primary # _ \<Rightarrow> speech_providers_loop env cfg i fb primary sp cands v1) (\<lambda>(audio, v2). deliver_sentence env i sp audio v2))
     (speech_post base ids [sp] v) cancelled_error" if "v1 = v \<or> v1 = v\<lparr>sv_announced := True\<rparr>" for v1
    using ltriple_lbind [OF voice dlv, of v1] that post by auto
  show ?thesis unfolding speech_sentence_def
    by (rule ltriple_lbind [where R = "\<lambda>v1 s. (v1 = v \<or> v1 = v\<lparr>sv_announced := True\<rparr>) \<and> plays_are base s"])
      (auto simp: unobserved_projections intro!: ltriple_pure rest ltriple_step ltriple_lret lane_step_rules)
qed

lemma speech_post_trans:
  assumes "speech_post base ids a v v1 s1" and "speech_post (ls_plays s1) ids b v1 v2 s2"
  shows "speech_post base ids (a @ b) v v2 s2"
proof -
  obtain p1 where p1: "ls_plays s1 = base @ p1" "subseq (map fst p1) (map ss_sentence_id a)" "snd ` set p1 \<subseteq> ids"
    using assms(1) by (auto simp: speech_post_def)
  obtain p2 where p2: "ls_plays s2 = ls_plays s1 @ p2" "subseq (map fst p2) (map ss_sentence_id b)" "snd ` set p2 \<subseteq> ids"
    using assms(2) by (auto simp: speech_post_def)
  have "\<exists>ps. plays_are (base @ ps) s2 \<and> subseq (map fst ps) (map ss_sentence_id (a @ b)) \<and> snd ` set ps \<subseteq> ids"
    by (rule exI [of _ "p1 @ p2"]) (use p1 p2 in \<open>auto intro: list_emb_append_mono\<close>)
  with assms show ?thesis by (auto simp: speech_post_def)
qed

lemma speech_loop_run_triple:
  assumes "\<And>primary rest. cands = primary # rest \<Longrightarrow> {pd_id d | d. d \<in> set cands \<and> allows_transition fb primary d} \<subseteq> ids"
  shows "ltriple (plays_are base) (speech_loop_run env cfg i fb cands sps v) (speech_post base ids sps v) cancelled_error"
proof (induction sps arbitrary: base v)
  case Nil
  then show ?case
    by (auto simp: unobserved_projections speech_post_def intro!: ltriple_step ltriple_lret lane_step_rules)
next
  case (Cons sp sps)
  have "ltriple (plays_are base) (lbind (speech_sentence env cfg i fb cands sp v) (speech_loop_run env cfg i fb cands sps))
      (speech_post base ids (sp # sps) v) cancelled_error"
  proof (rule ltriple_lbind [OF speech_sentence_triple [OF assms]])
    show "ltriple (speech_post base ids [sp] v v1) (speech_loop_run env cfg i fb cands sps v1)
      (speech_post base ids (sp # sps) v) cancelled_error" for v1
      using Cons.IH [of _ v1] speech_post_trans [of base ids "[sp]" v v1] unfolding ltriple_def
      by (fastforce split: sum.splits)
  qed simp
  then show ?case
    by (auto simp: unobserved_projections intro!: ltriple_step lane_step_rules)
qed

end
