(* ===== verification/Turn_Properties.thy ===== *)
theory Turn_Properties
  imports Lane_Properties
begin

text \<open>
  The outcome of a whole turn, over every environment: what is reported as delivered, what is given to the
  memory store and which effects survive.
\<close>

section \<open>The part of the state the outcome depends on\<close>

definition core_of :: "lane_state \<Rightarrow> sentence_span list \<times> delivered_sentence list list \<times> turn_outcome" where
  "core_of s = (ls_sent s, ls_commits s, (ls_outcome s)\<lparr>out_degradations := []\<rparr>)"

lemma unobserved_core: "unobserved core_of"
  by (simp add: unobserved_def core_of_def)

lemma ltriple_keep_last:
  assumes "keeps f m" "\<And>e s. f s = x \<Longrightarrow> E e s" "\<And>y s. f s = x \<Longrightarrow> Q y s"
  shows "ltriple (\<lambda>s. f s = x) m Q E"
  using assms unfolding ltriple_def keeps_def by (simp split: sum.split)

lemma ltriple_keep_step:
  assumes "keeps f m" "\<And>e s. f s = x \<Longrightarrow> E e s" "ltriple (\<lambda>s. f s = x) k Q E"
  shows "ltriple (\<lambda>s. f s = x) (lthen m k) Q E"
  by (rule ltriple_lthen [OF ltriple_keep_last [OF assms(1,2)] assms(3)])

lemma ltriple_keep_bind:
  assumes "keeps f m" "\<And>e s. f s = x \<Longrightarrow> E e s" "\<And>y. ltriple (\<lambda>s. f s = x) (k y) Q E"
  shows "ltriple (\<lambda>s. f s = x) (lbind m k) Q E"
  by (rule ltriple_lbind [OF ltriple_keep_last [OF assms(1,2)] assms(3)])

lemma keeps_add_degradations [keeps_rules]: "keeps core_of (add_degradations ds)"
  by (auto simp: add_degradations_def update_outcome_def core_of_def intro!: keeps_rules)

lemma keeps_degrade_dependency [keeps_rules]: "keeps core_of (degrade_dependency env i g d what e)"
  by (auto simp: degrade_dependency_def unobserved_core intro!: keeps_rules)

lemma keeps_prepare_turn: "keeps core_of (prepare_turn tu request i)"
proof -
  have r: "keeps core_of (resolve_character env i request g x)" for env g x
    by (auto simp: resolve_character_def unobserved_core split: sum.split dependency_error.split intro!: keeps_rules)
  have m: "keeps core_of (recall_memory env i g x)" for env g x
    by (auto simp: recall_memory_def unobserved_core split: sum.split dependency_error.split intro!: keeps_rules)
  show ?thesis unfolding prepare_turn_def Let_def
    by (auto simp: unobserved_core intro!: keeps_rules r m)
qed

lemma keeps_announce_lanes: "keeps core_of (announce_lanes tu request i)"
proof -
  have "keeps core_of (emit_rejections env i p ds)" for env p ds
    by (induction ds) (auto simp: unobserved_core intro!: keeps_rules)
  then show ?thesis unfolding announce_lanes_def Let_def emit_policy_rejections_def
    by (auto simp: unobserved_core intro!: keeps_rules)
qed

section \<open>The lanes together\<close>

definition lanes_post ::
  "rstr list \<Rightarrow> turn_outcome
     \<Rightarrow> (supervisor_error, llm_lane_result) result \<times> (supervisor_error, speech_lane_result) result
         \<times> (supervisor_error, effects_lane_result) result \<Rightarrow> lane_state \<Rightarrow> bool" where
  "lanes_post allowed out rs s \<longleftrightarrow>
     (case rs of (llm, speech, effects) \<Rightarrow>
        \<exists>sent. core_of s = (sent, [], out)
          \<and> (\<forall>r. llm = Inr r \<longrightarrow> result_ok r sent)
          \<and> (\<forall>r. speech = Inr r \<longrightarrow> map delivered_span (sl_delivered r) = sent)
          \<and> (\<forall>r. effects = Inr r \<longrightarrow> effects_safe allowed (el_effects r)))"

lemma keeps_llm_outcome: "keeps (\<lambda>s. (ls_commits s, ls_outcome s)) (run_llm_lane env js cfg sc request plan ps)"
  using keeps_run_llm_lane [of env js cfg sc request plan ps] by (simp add: keeps_def)

lemma keeps_core_effects: "keeps core_of (run_effects_lane env cfg request plan ps allowed)"
  by (rule keeps_run_effects_lane [OF unobserved_core])

lemma keeps_core_speech: "keeps core_of (run_speech_lane env cfg i plan ps sentences)"
  using keeps_run_speech_lane [of env cfg i plan ps sentences] by (simp add: keeps_def core_of_def)

lemma run_speech_lane_triple:
  "ltriple (\<lambda>_. True) (run_speech_lane env cfg i plan ps sentences)
     (\<lambda>r _. map delivered_span (sl_delivered r) = sentences) cancelled_error"
proof -
  let ?cands = "filter (\<lambda>d. evaluate (rp_privacy plan) d = Allowed) ps"
  let ?v = "\<lparr>sv_sessions = [], sv_delivered = [], sv_selected = [], sv_degradations = [], sv_announced = False\<rparr>"
  have "ltriple (plays_are base) (speech_loop_run env cfg i (rp_fallback plan) ?cands sentences ?v)
      (speech_post base UNIV sentences ?v) cancelled_error" for base
    by (rule speech_loop_run_triple) simp
  then have "ltriple (\<lambda>_. True) (speech_loop_run env cfg i (rp_fallback plan) ?cands sentences ?v)
      (\<lambda>v _. map delivered_span (sv_delivered v) = sentences) cancelled_error"
    unfolding ltriple_def by (fastforce simp: speech_post_def split: sum.splits)
  then show ?thesis unfolding run_speech_lane_def
    by (rule ltriple_lbind) (auto intro!: ltriple_lret)
qed

lemma run_lanes_post:
  assumes "core_of s = ([], [], out)" and "run_lanes tu request i gen s = Some (r, s')"
  shows "\<exists>rs. r = Inr rs \<and> lanes_post (sc_allowed_actions (tu_config tu)) out rs s'"
proof -
  let ?env = "tu_env tu" and ?cfg = "sc_circuit_breaker (tu_config tu)" and ?plan = "plan_from_request request"
  let ?llm = "run_llm_lane ?env (tu_json tu) ?cfg (sc_sentence_segmentation (tu_config tu)) gen ?plan (po_language_models (tu_pool tu))"
  let ?eff = "run_effects_lane ?env ?cfg \<lparr>er_generation = gen, er_response_text_hint = None\<rparr> ?plan
      (po_effects (tu_pool tu)) (sc_allowed_actions (tu_config tu))"
  obtain llm s1 where l: "?llm s = Some (llm, s1)"
    using assms(2) by (auto simp: run_lanes_def Let_def lbind_def lcatch_def split: option.splits)
  let ?sp = "run_speech_lane ?env ?cfg i ?plan (po_speech (tu_pool tu)) (ls_sent s1)"
  obtain speech s2 where sp: "?sp s1 = Some (speech, s2)"
    using assms(2) l by (auto simp: run_lanes_def Let_def lbind_def lcatch_def split: option.splits)
  obtain effects where e: "?eff s2 = Some (effects, s')" and r: "r = Inr (llm, speech, effects)"
    using assms(2) l sp by (auto simp: run_lanes_def Let_def lbind_def lcatch_def lret_def split: option.splits)
  have "(ls_commits s1, ls_outcome s1) = (ls_commits s, ls_outcome s)" using keepsD [OF keeps_llm_outcome l] .
  moreover have "core_of s' = core_of s1" using keepsD [OF keeps_core_effects e] keepsD [OF keeps_core_speech sp] by simp
  ultimately have core: "core_of s' = (ls_sent s1, [], out)" using assms(1) by (simp add: core_of_def)
  have s0: "ls_sent s = []" using assms(1) by (simp add: core_of_def)
  have "llm = Inr x \<Longrightarrow> result_ok x (ls_sent s1)" for x
    using ltripleD(1) [OF run_llm_lane_triple [of "[]"] s0] l by fastforce
  moreover have "speech = Inr x \<Longrightarrow> map delivered_span (sl_delivered x) = ls_sent s1" for x
    using ltripleD(1) [OF run_speech_lane_triple] sp by fastforce
  moreover have "effects = Inr x \<Longrightarrow> effects_safe (sc_allowed_actions (tu_config tu)) (el_effects x)" for x
    using ltripleD(1) [OF run_effects_lane_triple] e by (fastforce simp: effects_post_def)
  ultimately show ?thesis using core r by (auto simp: lanes_post_def)
qed

section \<open>The end of the turn\<close>

text \<open>What holds of the outcome and of the commits at every exit of the turn, and what more holds on success.\<close>

definition core_ok :: "rstr list \<Rightarrow> turn_identity \<Rightarrow> sentence_span list \<times> delivered_sentence list list \<times> turn_outcome \<Rightarrow> bool" where
  "core_ok allowed i c \<longleftrightarrow>
     (case c of (sent, commits, out) \<Rightarrow>
        out_identity out = i \<and> out_error out = None \<and> effects_safe allowed (out_effects out)
        \<and> (commits = []
           \<or> commits = [out_delivered out]
              \<and> partial_segmentation (out_full_response out) (map delivered_span (out_delivered out))))"

definition core_complete :: "sentence_span list \<times> delivered_sentence list list \<times> turn_outcome \<Rightarrow> bool" where
  "core_complete c \<longleftrightarrow>
     (case c of (sent, commits, out) \<Rightarrow>
        commits = [out_delivered out] \<and> exact_segmentation (out_full_response out) (map delivered_span (out_delivered out)))"

abbreviation core_is :: "sentence_span list \<times> delivered_sentence list list \<times> turn_outcome \<Rightarrow> lane_state \<Rightarrow> bool" where
  "core_is c s \<equiv> core_of s = c"

lemma core_update_outcome:
  "(\<And>out. (f out)\<lparr>out_degradations := []\<rparr> = f (out\<lparr>out_degradations := []\<rparr>)) \<Longrightarrow>
   ltriple (core_is (sent, commits, out)) (update_outcome f) (\<lambda>_. core_is (sent, commits, f out)) E"
  unfolding update_outcome_def by (rule ltriple_lmodify) (auto simp: core_of_def)

lemma apply_effects_triple:
  assumes "core_ok allowed i (sent, commits, out)" and "\<And>r. er = Inr r \<Longrightarrow> effects_safe allowed (el_effects r)"
    and "\<And>e. effects_safe allowed e \<Longrightarrow> ltriple (core_is (sent, commits, out\<lparr>out_effects := e\<rparr>)) k Q (\<lambda>_ s. core_ok allowed i (core_of s))"
  shows "ltriple (core_is (sent, commits, out)) (lthen (apply_effects env i er) k) Q (\<lambda>_ s. core_ok allowed i (core_of s))"
proof (cases er)
  case (Inr r)
  have ok: "core_ok allowed i (sent, commits, out\<lparr>out_effects := el_effects r\<rparr>)"
    using assms(1,2) Inr by (auto simp: core_ok_def)
  have "ltriple (core_is (sent, commits, out)) (apply_effects env i er)
      (\<lambda>_. core_is (sent, commits, out\<lparr>out_effects := el_effects r\<rparr>)) (\<lambda>_ s. core_ok allowed i (core_of s))"
    unfolding Inr apply_effects_def sum.case
    by (rule ltriple_lthen [OF core_update_outcome], simp)
      (auto simp: unobserved_core ok intro!: ltriple_keep_last keeps_rules)
  from ltriple_lthen [OF this assms(3)] assms(2) Inr show ?thesis by simp
next
  case (Inl e)
  have safe: "effects_safe allowed (out_effects out)" using assms(1) by (simp add: core_ok_def)
  have "keeps core_of (apply_effects env i er)" unfolding Inl apply_effects_def sum.case
    by (auto simp: unobserved_core split: supervisor_error.split intro!: keeps_rules)
  moreover have "ltriple (core_is (sent, commits, out)) k Q (\<lambda>_ s. core_ok allowed i (core_of s))"
    using assms(3) [OF safe] by simp
  ultimately show ?thesis using assms(1) by (intro ltriple_keep_step) auto
qed

lemma apply_speech_triple:
  assumes "core_ok allowed i (sent, [], out)"
    and "\<And>r. sr = Inr r \<Longrightarrow> ltriple (core_is (sent, [], out\<lparr>out_delivered := sl_delivered r, out_selected_tts_providers := sl_providers r\<rparr>))
           k Q (\<lambda>_ s. core_ok allowed i (core_of s))"
  shows "ltriple (core_is (sent, [], out)) (lthen (apply_speech sr) k) Q (\<lambda>_ s. core_ok allowed i (core_of s))"
proof (cases sr)
  case (Inr r)
  let ?out = "out\<lparr>out_delivered := sl_delivered r, out_selected_tts_providers := sl_providers r\<rparr>"
  have "core_ok allowed i (sent, [], ?out)" using assms(1) by (auto simp: core_ok_def)
  then have "ltriple (core_is (sent, [], out)) (apply_speech sr) (\<lambda>_. core_is (sent, [], ?out)) (\<lambda>_ s. core_ok allowed i (core_of s))"
    unfolding Inr apply_speech_def sum.case
    by (intro ltriple_lthen [OF core_update_outcome]) (auto intro!: ltriple_keep_last keeps_rules)
  from ltriple_lthen [OF this assms(2) [OF Inr]] show ?thesis .
next
  case (Inl e)
  have "keeps core_of (apply_speech sr)" by (simp add: Inl apply_speech_def keeps_lfail)
  moreover have "ltriple (core_is (sent, [], out)) (lthen (apply_speech sr) k) Q (\<lambda>_ s. core_ok allowed i (core_of s))"
    using assms(1) by (auto simp: Inl apply_speech_def ltriple_def lthen_def lbind_def lfail_def)
  ultimately show ?thesis by simp
qed

lemma apply_llm_triple:
  assumes "core_ok allowed i (sent, [], out)"
    and "ltriple (core_is (sent, [], out\<lparr>out_full_response := ll_full_text r, out_structured_response := ll_structured_response r,
            out_selected_llm_provider := Some (ll_provider_id r)\<rparr>)) k Q (\<lambda>_ s. core_ok allowed i (core_of s))"
  shows "ltriple (core_is (sent, [], out)) (lthen (apply_llm env i r) k) Q (\<lambda>_ s. core_ok allowed i (core_of s))"
proof -
  let ?out = "out\<lparr>out_full_response := ll_full_text r, out_structured_response := ll_structured_response r,
            out_selected_llm_provider := Some (ll_provider_id r)\<rparr>"
  have "core_ok allowed i (sent, [], ?out)" using assms(1) by (auto simp: core_ok_def)
  then have "ltriple (core_is (sent, [], out)) (apply_llm env i r) (\<lambda>_. core_is (sent, [], ?out)) (\<lambda>_ s. core_ok allowed i (core_of s))"
    unfolding apply_llm_def
    by (intro ltriple_lthen [OF core_update_outcome]) (auto simp: unobserved_core intro!: ltriple_keep_last keeps_rules)
  from ltriple_lthen [OF this assms(2)] show ?thesis .
qed

lemma commit_memory_triple:
  assumes "core_ok allowed i (sent, [], out)" and "core_ok allowed i (sent, [out_delivered out], out)"
  shows "ltriple (core_is (sent, [], out)) (commit_memory env i) (\<lambda>_. core_is (sent, [out_delivered out], out))
    (\<lambda>_ s. core_ok allowed i (core_of s))"
proof -
  let ?c = "(sent, [out_delivered out], out)"
  have add: "ltriple (core_is (sent, [], out)) (lmodify (\<lambda>s. s\<lparr>ls_commits := ls_commits s @ [out_delivered (ls_outcome s)]\<rparr>))
      (\<lambda>_. core_is ?c) (\<lambda>_ s. core_ok allowed i (core_of s))"
    by (rule ltriple_lmodify) (auto simp: core_of_def)
  have rest: "ltriple (core_is ?c) (lbind (ask (le_commit env)) (\<lambda>r.
        case r of
          Inr _ \<Rightarrow> emit_timing env i g SpanOk []
        | Inl DepCancelled \<Rightarrow> lthen (drop_span env (Some g)) (lfail SupCancelled)
        | Inl e \<Rightarrow> degrade_dependency env i g MemoryCommitDeferred ''memory commit deferred: '' e))
      (\<lambda>_. core_is ?c) (\<lambda>_ s. core_ok allowed i (core_of s))" for g
    using assms(2) by (auto simp: unobserved_core split: sum.split dependency_error.split intro!: ltriple_keep_last keeps_rules)
  show ?thesis unfolding commit_memory_def using assms(1)
    by (auto simp: unobserved_core intro!: ltriple_keep_step ltriple_keep_bind ltriple_lthen [OF add rest] keeps_rules)
qed

lemma conclude_turn_triple:
  assumes "core_ok allowed i (sent, [], out)"
    and "\<And>r. llm = Inr r \<Longrightarrow> result_ok r sent"
    and "\<And>r. speech = Inr r \<Longrightarrow> map delivered_span (sl_delivered r) = sent"
    and "\<And>r. effects = Inr r \<Longrightarrow> effects_safe allowed (el_effects r)"
  shows "ltriple (core_is (sent, [], out)) (conclude_turn env i (llm, speech, effects))
    (\<lambda>_ s. core_ok allowed i (core_of s) \<and> core_complete (core_of s)) (\<lambda>_ s. core_ok allowed i (core_of s))"
  unfolding conclude_turn_def prod.case
proof (intro apply_effects_triple apply_speech_triple)
  fix e sr
  assume e: "effects_safe allowed e" and sr: "speech = Inr sr"
  let ?out = "out\<lparr>out_effects := e, out_delivered := sl_delivered sr, out_selected_tts_providers := sl_providers sr\<rparr>"
  have ok: "core_ok allowed i (sent, [], ?out)" using assms(1) e by (auto simp: core_ok_def)
  show "ltriple (core_is (sent, [], ?out)) (case llm of Inl e \<Rightarrow> lfail e
       | Inr llm \<Rightarrow> lthen (apply_llm env i llm) (lthen (commit_memory env i)
             (case ll_terminal_error llm of Some e \<Rightarrow> lfail e | None \<Rightarrow> emit_lifecycle env i LcCompleted)))
     (\<lambda>_ s. core_ok allowed i (core_of s) \<and> core_complete (core_of s)) (\<lambda>_ s. core_ok allowed i (core_of s))"
  proof (cases llm)
    case (Inl err)
    then show ?thesis using ok by (auto intro: ltriple_lfail)
  next
    case (Inr r)
    let ?o = "?out\<lparr>out_full_response := ll_full_text r, out_structured_response := ll_structured_response r,
            out_selected_llm_provider := Some (ll_provider_id r)\<rparr>"
    have r: "result_ok r (map delivered_span (sl_delivered sr))" using assms(2,3) Inr sr by simp
    have o1: "core_ok allowed i (sent, [], ?o)" using ok by (simp add: core_ok_def)
    have o2: "core_ok allowed i (sent, [out_delivered ?o], ?o)" using ok r by (simp add: core_ok_def result_ok_def)
    have "ltriple (core_is (sent, [out_delivered ?o], ?o))
        (case ll_terminal_error r of Some e \<Rightarrow> lfail e | None \<Rightarrow> emit_lifecycle env i LcCompleted)
        (\<lambda>_ s. core_ok allowed i (core_of s) \<and> core_complete (core_of s)) (\<lambda>_ s. core_ok allowed i (core_of s))"
      using o2 r by (auto split: option.split simp: unobserved_core core_complete_def result_ok_def
          intro!: ltriple_lfail ltriple_keep_last keeps_rules)
    note last = ltriple_lthen [OF commit_memory_triple [OF o1 o2] this]
    show ?thesis unfolding Inr sum.case by (rule apply_llm_triple [OF ok last])
  qed
qed (use assms in \<open>auto simp: core_ok_def\<close>)

lemma run_turn_inner_post:
  assumes "core_of s = ([], [], initial_outcome i)" and "run_turn_inner tu request i s = Some (r, s')"
  shows "core_ok (sc_allowed_actions (tu_config tu)) i (core_of s')
    \<and> (r = Inr () \<longrightarrow> core_complete (core_of s'))"
proof -
  let ?al = "sc_allowed_actions (tu_config tu)"
  let ?c = "([], [], initial_outcome i)"
  have ok: "core_ok ?al i ?c" by (simp add: core_ok_def initial_outcome_def)
  have lanes: "ltriple (core_is ?c) (run_lanes tu request i gen) (lanes_post ?al (initial_outcome i)) (\<lambda>_ s. core_ok ?al i (core_of s))" for gen
    unfolding ltriple_def using run_lanes_post by (fastforce split: sum.splits)
  have conclude: "ltriple (lanes_post ?al (initial_outcome i) rs) (conclude_turn (tu_env tu) i rs)
     (\<lambda>_ s. core_ok ?al i (core_of s) \<and> core_complete (core_of s)) (\<lambda>_ s. core_ok ?al i (core_of s))" for rs
  proof -
    obtain llm speech effects where rs: "rs = (llm, speech, effects)" by (cases rs)
    have "core_ok ?al i (sent, [], initial_outcome i)" for sent by (simp add: core_ok_def initial_outcome_def)
    from conclude_turn_triple [OF this, of llm _ speech effects "tu_env tu"] show ?thesis
      unfolding rs ltriple_def lanes_post_def by blast
  qed
  have "ltriple (core_is ?c) (run_turn_inner tu request i)
     (\<lambda>_ s. core_ok ?al i (core_of s) \<and> core_complete (core_of s)) (\<lambda>_ s. core_ok ?al i (core_of s))"
    unfolding run_turn_inner_def using ok
    by (intro ltriple_keep_bind [OF keeps_prepare_turn] ltriple_keep_step [OF keeps_announce_lanes]
        ltriple_lbind [OF lanes conclude]) auto
  then show ?thesis using assms unfolding ltriple_def by (cases r) fastforce+
qed

lemma finish_outcome_cases:
  "finish_outcome env r s = (out, s') \<Longrightarrow>
     (out = (ls_outcome s)\<lparr>out_lifecycle := LcCompleted\<rparr> \<and> r = Inr ()
      \<or> (\<exists>lc e. lc \<in> {LcCancelled, LcFailed} \<and> out = (ls_outcome s)\<lparr>out_lifecycle := lc, out_error := Some e\<rparr>))
     \<and> ls_commits s' = ls_commits s"
  by (auto simp: finish_outcome_def Let_def split: sum.splits supervisor_error.splits if_splits)

end
