(* ===== verification/Turn_Progress.thy ===== *)
theory Turn_Progress
  imports Turn_Properties
begin

text \<open>
  That a turn completes: when nothing interrupts it and the first authorized language model streams a response
  that the adapter accepts, the turn returns with the lifecycle Completed, whatever the speech and effects providers,
  the identity resolver and the memory store do short of cancelling.
\<close>

section \<open>Lanes that succeed\<close>

named_theorems succeeds_rules

definition succeeds :: "'a lane \<Rightarrow> ('a \<Rightarrow> bool) \<Rightarrow> bool" where
  "succeeds m Q \<longleftrightarrow> (\<forall>s. \<exists>x s'. m s = Some (Inr x, s') \<and> Q x)"

abbreviation returns :: "'a lane \<Rightarrow> bool" where
  "returns m \<equiv> succeeds m (\<lambda>_. True)"

lemma succeeds_lret [succeeds_rules]: "Q x \<Longrightarrow> succeeds (lret x) Q"
  by (simp add: succeeds_def lret_def)

lemma succeeds_lmodify [succeeds_rules]: "Q () \<Longrightarrow> succeeds (lmodify f) Q"
  by (simp add: succeeds_def lmodify_def)

lemma succeeds_lbind: "succeeds m R \<Longrightarrow> (\<And>x. R x \<Longrightarrow> succeeds (k x) Q) \<Longrightarrow> succeeds (lbind m k) Q"
  unfolding succeeds_def lbind_def by (fastforce split: option.splits sum.splits prod.splits)

lemma succeeds_lbind_any [succeeds_rules]: "returns m \<Longrightarrow> (\<And>x. succeeds (k x) Q) \<Longrightarrow> succeeds (lbind m k) Q"
  by (rule succeeds_lbind)

lemma succeeds_lthen [succeeds_rules]: "returns m \<Longrightarrow> succeeds k Q \<Longrightarrow> succeeds (lthen m k) Q"
  by (simp add: lthen_def succeeds_lbind_any)

lemma succeeds_on_error [succeeds_rules]: "succeeds m Q \<Longrightarrow> succeeds (on_error m c) Q"
  unfolding succeeds_def on_error_def by (fastforce split: option.splits sum.splits prod.splits)

lemma succeeds_lcatch: "succeeds m Q \<Longrightarrow> succeeds (lcatch m) (\<lambda>r. \<exists>x. r = Inr x \<and> Q x)"
  unfolding succeeds_def lcatch_def by (fastforce split: option.splits sum.splits prod.splits)

lemma succeeds_ask: "(\<And>n. Q (f n)) \<Longrightarrow> succeeds (ask f) Q"
  by (simp add: succeeds_def ask_def)

lemma returns_ask [succeeds_rules]: "returns (ask f)"
  by (simp add: succeeds_ask)

definition uninterrupted :: "lane_env \<Rightarrow> bool" where
  "uninterrupted env \<longleftrightarrow> (\<forall>n. \<not> le_interrupted env n)"

lemma returns_lcheck [succeeds_rules]: "uninterrupted env \<Longrightarrow> returns (lcheck env)"
  by (auto simp: succeeds_def lcheck_def lbind_def ask_def lret_def uninterrupted_def)

lemma returns_emit [succeeds_rules]: "uninterrupted env \<Longrightarrow> returns (emit env ev)"
  by (auto simp: emit_def intro!: succeeds_rules)

lemma returns_emitters [succeeds_rules]:
  assumes "uninterrupted env"
  shows "returns (emit_lifecycle env i stage)" "returns (emit_lane env i lane lstage)" "returns (emit_degraded env i d reason)"
  by (simp_all add: assms emit_lifecycle_def emit_lane_def emit_degraded_def returns_emit)

lemma returns_spans [succeeds_rules]: "returns (begin_span env name)" "returns (drop_span env g)"
  by (auto simp: begin_span_def drop_span_def split: option.split intro!: succeeds_rules)

lemma returns_emit_timing [succeeds_rules]: "uninterrupted env \<Longrightarrow> returns (emit_timing env i g out attrs)"
  unfolding emit_timing_def
proof (rule succeeds_lbind_any [OF returns_ask])
  fix now assume "uninterrupted env"
  then show "returns (\<lambda>s. case finish_guard g out attrs now (ls_collector s) of
      (sp, _, c) \<Rightarrow> emit env (EvTiming i sp) (s\<lparr>ls_collector := c\<rparr>))"
    using returns_emit unfolding succeeds_def by (fastforce split: prod.splits)
qed

lemma returns_permits [succeeds_rules]:
  "returns (acquire env cfg d)" "returns (permit_success cfg d)" "returns (permit_failure env cfg d)" "returns (permit_drop cfg d)"
proof -
  show "returns (acquire env cfg d)"
    unfolding acquire_def
    by (rule succeeds_lbind_any [OF returns_ask]) (auto simp: succeeds_def split: prod.splits)
qed (auto simp: permit_success_def permit_failure_def permit_drop_def settle_def intro!: succeeds_rules)

section \<open>The speech and the effects lane\<close>

text \<open>The other parts of the system may fail in any way except by reporting a cancellation.\<close>

definition never_cancels :: "lane_env \<Rightarrow> bool" where
  "never_cancels env \<longleftrightarrow> uninterrupted env
     \<and> (\<forall>n. le_resolve env n \<noteq> Inl DepCancelled) \<and> (\<forall>n. le_retrieve env n \<noteq> Inl DepCancelled)
     \<and> (\<forall>n. le_commit env n \<noteq> Inl DepCancelled)
     \<and> (\<forall>n e. le_derive env n = Inl e \<longrightarrow> pe_kind e \<noteq> PeCancelled)
     \<and> (\<forall>n r. le_play env n = Inr r \<longrightarrow> pr_completed r)"

lemma never_cancels_uninterrupted [simp]: "never_cancels env \<Longrightarrow> uninterrupted env"
  by (simp add: never_cancels_def)

lemma returns_effects_lane: "never_cancels env \<Longrightarrow> returns (run_effects_lane env cfg request plan ps allowed)"
proof -
  assume n: "never_cancels env"
  have neutral: "returns (neutralized env i reason)" for i reason
    using n by (auto simp: neutralized_def intro!: succeeds_rules)
  have "returns (effects_loop env cfg i fb allowed primary ds)" for i fb primary ds
  proof (induction ds)
    case (Cons d ds)
    have acc: "returns (effects_accepted env cfg i primary d e)" for e
      using n by (auto simp: effects_accepted_def intro!: succeeds_rules)
    have derive: "succeeds (ask (le_derive env)) (\<lambda>r. \<forall>e. r = Inl e \<longrightarrow> pe_kind e \<noteq> PeCancelled)"
      using n by (auto simp: never_cancels_def intro!: succeeds_ask)
    show ?case using n Cons.IH acc
      by (auto split: sum.split intro!: succeeds_rules succeeds_lbind [OF derive])
  qed (simp add: neutral)
  then show ?thesis unfolding run_effects_lane_def Let_def using neutral
    by (auto split: list.split simp del: effects_loop.simps)
qed

lemma returns_speech_lane: "never_cancels env \<Longrightarrow> returns (run_speech_lane env cfg i plan ps sentences)"
proof -
  assume n: "never_cancels env"
  have play: "returns (play_sentence env cfg i primary d sp v)" for primary d sp v
  proof -
    have "succeeds (ask (le_play env)) (\<lambda>r. \<forall>x. r = Inr x \<longrightarrow> pr_completed x)"
      using n by (auto simp: never_cancels_def intro!: succeeds_ask)
    moreover have "returns (settle_playback env cfg i primary d v r)" if "\<forall>x. r = Inr x \<longrightarrow> pr_completed x" for r
      using n that by (auto simp: settle_playback_def Let_def split: sum.split intro!: succeeds_rules)
    ultimately have "returns (lbind (ask (le_play env)) (settle_playback env cfg i primary d v))"
      by (rule succeeds_lbind)
    with n show ?thesis by (auto simp: play_sentence_def intro!: succeeds_rules)
  qed
  have session: "returns (open_session env cfg d v)" for d v
    by (auto simp: open_session_def split: sum.split intro!: succeeds_rules)
  have voices: "returns (speech_providers_loop env cfg i fb primary sp ds v)" for fb primary sp ds v
    by (induction ds arbitrary: v) (use play session in \<open>auto split: sum.split prod.split intro!: succeeds_rules\<close>)
  have dlv: "returns (deliver_sentence env i sp audio v)" for sp audio v
    using n by (auto simp: deliver_sentence_def note_subtitles_def publish_sentence_def split: option.split intro!: succeeds_rules)
  have "returns (speech_sentence env cfg i fb cands sp v)" for fb cands sp v
    using n voices dlv unfolding speech_sentence_def
    by (auto split: list.split prod.split simp del: speech_providers_loop.simps intro!: succeeds_rules)
  then have "returns (speech_loop_run env cfg i fb cands sps v)" for fb cands sps v
    using n by (induction sps arbitrary: v) (auto intro!: succeeds_rules)
  then show ?thesis unfolding run_speech_lane_def by (auto intro!: succeeds_rules)
qed

section \<open>The language model lane\<close>

text \<open>The adapter after the non-empty deltas of a stream, when it accepts all of them.\<close>

fun feed :: "'j json_api \<Rightarrow> nat \<Rightarrow> llm_delta list \<Rightarrow> adapter \<Rightarrow> adapter option" where
  "feed js g [] ad = Some ad"
| "feed js g (delta # deltas) ad =
     (if ld_text delta = [] then feed js g deltas ad
      else (case push_delta js g (ld_sequence delta) (ld_text delta) ad of
              Some (Inr _, ad') \<Rightarrow> feed js g deltas ad'
            | _ \<Rightarrow> None))"

definition response_is :: "finalized_response \<Rightarrow> llm_lane_result \<Rightarrow> bool" where
  "response_is f r \<longleftrightarrow> ll_terminal_error r = None \<and> ll_full_text r = nr_spoken (fr_response f)"

lemma returns_send_sentences [succeeds_rules]: "uninterrupted env \<Longrightarrow> returns (send_sentences env i sps)"
  by (induction sps) (auto simp: send_sentence_def intro!: succeeds_rules)

lemma llm_finish_succeeds:
  assumes "uninterrupted (lx_env cx)"
    and "adapter_finish (lx_json cx) (ti_generation (lx_identity cx)) ad = Some (Inr f, ad')"
  shows "succeeds (llm_finish cx primary d out ad) (response_is f)"
  using assms unfolding llm_finish_def Let_def
  by (auto simp: response_is_def intro!: succeeds_rules)

lemma llm_stream_loop_succeeds:
  assumes "uninterrupted (lx_env cx)"
    and "feed (lx_json cx) (ti_generation (lx_identity cx)) deltas ad = Some ad'"
    and "adapter_finish (lx_json cx) (ti_generation (lx_identity cx)) ad' = Some (Inr f, ad'')"
    and "g \<noteq> None \<longrightarrow> (\<exists>delta\<in>set deltas. ld_text delta \<noteq> [])"
  shows "succeeds (llm_stream_loop cx primary d g out ad (map Inr deltas)) (\<lambda>r. \<exists>x. r = Inr x \<and> response_is f x)"
  using assms
proof (induction deltas arbitrary: g out ad)
  case Nil
  then have "succeeds (llm_finish cx primary d out ad) (response_is f)" using llm_finish_succeeds by simp
  then have "succeeds (lbind (llm_finish cx primary d out ad) (\<lambda>r. lret (Inr r))) (\<lambda>r. \<exists>x. r = Inr x \<and> response_is f x)"
    by (rule succeeds_lbind) (simp add: succeeds_lret)
  with Nil show ?case by (auto intro!: succeeds_lthen succeeds_on_error returns_lcheck)
next
  case (Cons delta deltas)
  show ?case
  proof (cases "ld_text delta = []")
    case True
    with Cons show ?thesis by (auto intro!: succeeds_rules)
  next
    case False
    with Cons.prems(2) obtain ready ad1 where
      push: "push_delta (lx_json cx) (ti_generation (lx_identity cx)) (ld_sequence delta) (ld_text delta) ad = Some (Inr ready, ad1)"
      and feed: "feed (lx_json cx) (ti_generation (lx_identity cx)) deltas ad1 = Some ad'"
      by (auto split: option.splits sum.splits)
    have step: "succeeds (llm_delta_step cx d g delta out ad) (\<lambda>r. r = Inr (out @ ld_text delta, ad1))"
      using push Cons.prems(1) unfolding llm_delta_step_def Let_def
      by (auto split: option.split intro!: succeeds_rules)
    have "succeeds (llm_stream_loop cx primary d None (out @ ld_text delta) ad1 (map Inr deltas))
        (\<lambda>r. \<exists>x. r = Inr x \<and> response_is f x)"
      using Cons.IH [OF Cons.prems(1) feed Cons.prems(3)] by simp
    with False Cons.prems(1) show ?thesis
      by (auto intro!: succeeds_lthen succeeds_on_error returns_lcheck succeeds_lbind [OF step])
  qed
qed

lemma acquire_closed:
  assumes "breaker_of (ls_registry s) (circuit_key d) = Closed n"
  shows "\<exists>s'. acquire env cfg d s = Some (Inr (Inr ()), s')"
  using assms
  by (auto simp: acquire_def lbind_def ask_def breaker_of_def try_acquire_at_def open_to_half_open_def take_half_open_slot_def
      split: prod.splits)

text \<open>What a stream must be for the lane to succeed on it.\<close>

definition stream_accepted :: "'j json_api \<Rightarrow> segmenter_config \<Rightarrow> streaming_format \<Rightarrow> nat \<Rightarrow> llm_delta list \<Rightarrow> finalized_response \<Rightarrow> bool" where
  "stream_accepted js sc format g deltas f \<longleftrightarrow>
     (\<exists>ad ad' ad''. new_adapter format default_response_policy sc g = Some ad \<and> feed js g deltas ad = Some ad'
        \<and> adapter_finish js g ad' = Some (Inr f, ad''))
     \<and> (\<exists>delta\<in>set deltas. ld_text delta \<noteq> [])"

lemma llm_attempt_succeeds:
  assumes "uninterrupted (lx_env cx)" and "\<And>n. le_stream (lx_env cx) n = Inr (map Inr deltas)"
    and "stream_accepted (lx_json cx) (lx_sentences cx) (lx_format cx) (ti_generation (lx_identity cx)) deltas f"
    and "breaker_of (ls_registry s) (circuit_key d) = Closed n"
  shows "\<exists>x s'. llm_attempt cx primary d s = Some (Inr (Inr x), s') \<and> response_is f x"
proof -
  let ?s = "s\<lparr>ls_time := Suc (ls_time s)\<rparr>"
  have "breaker_of (ls_registry ?s) (circuit_key d) = Closed n" using assms(4) by simp
  from acquire_closed [OF this, of "lx_env cx" "lx_circuit cx"] obtain s1 where
    a: "acquire (lx_env cx) (lx_circuit cx) d ?s = Some (Inr (Inr ()), s1)" by blast
  have c: "lcheck (lx_env cx) s = Some (Inr (), ?s)"
    using assms(1) by (simp add: lcheck_def lbind_def ask_def lret_def uninterrupted_def)
  obtain ad where ad: "new_adapter (lx_format cx) default_response_policy (lx_sentences cx) (ti_generation (lx_identity cx)) = Some ad"
    and ok: "succeeds (llm_stream_loop cx primary d (Some g) [] ad (map Inr deltas)) (\<lambda>r. \<exists>x. r = Inr x \<and> response_is f x)" for g
    using assms(1,3) llm_stream_loop_succeeds [of cx deltas] unfolding stream_accepted_def by blast
  obtain g s2 where b: "begin_span (lx_env cx) (lit ''llm.first_delta'') s1 = Some (Inr g, s2)"
    using returns_spans(1) unfolding succeeds_def by blast
  obtain x s3 where "llm_stream_loop cx primary d (Some g) [] ad (map Inr deltas) (s2\<lparr>ls_time := Suc (ls_time s2)\<rparr>) = Some (Inr (Inr x), s3)"
    "response_is f x" using ok [of g] unfolding succeeds_def by blast
  then show ?thesis unfolding llm_attempt_def Let_def lthen_def
    by (simp add: lbind_def c a b ask_def assms(2) ad)
qed

lemma run_llm_lane_succeeds:
  assumes "uninterrupted env" and "\<And>n. le_stream env n = Inr (map Inr deltas)"
    and "from_route_metadata (gr_metadata request) = Inr fmt"
    and "allowed_llm_candidates ps plan = primary # rest"
    and "stream_accepted js sc (case fmt of Some x \<Rightarrow> x | None \<Rightarrow> LegacyPlainText) (ti_generation (gr_identity request)) deltas f"
    and "breaker_of (ls_registry s) (circuit_key primary) = Closed n"
  shows "\<exists>x s'. run_llm_lane env js cfg sc request plan ps s = Some (Inr x, s') \<and> response_is f x"
proof -
  let ?cx = "\<lparr>lx_env = env, lx_json = js, lx_circuit = cfg, lx_sentences = sc, lx_identity = gr_identity request,
     lx_format = (case fmt of Some x \<Rightarrow> x | None \<Rightarrow> LegacyPlainText)\<rparr>"
  obtain x s' where x: "llm_attempt ?cx primary primary s = Some (Inr (Inr x), s')" "response_is f x"
    using llm_attempt_succeeds [of ?cx deltas f s primary n primary] assms by auto
  then show ?thesis using assms(3,4) by (simp add: run_llm_lane_def Let_def lbind_def lret_def)
qed

section \<open>The stages around the lanes\<close>

text \<open>Before the lanes start, no circuit is touched.\<close>

lemma keeps_registry [keeps_rules]:
  "keeps ls_registry (ask h)" "keeps ls_registry (lcheck env)" "keeps ls_registry (emit env ev)"
  "keeps ls_registry (begin_span env name)" "keeps ls_registry (drop_span env g)" "keeps ls_registry (update_outcome u)"
proof -
  show a: "keeps ls_registry (ask h)" for h :: "nat \<Rightarrow> 'x" by (simp add: keeps_def ask_def)
  show c: "keeps ls_registry (lcheck env)" by (auto simp: lcheck_def intro!: keeps_rules a)
  then show "keeps ls_registry (emit env ev)" by (auto simp: emit_def intro!: keeps_lthen keeps_lmodify)
  show "keeps ls_registry (begin_span env name)" by (auto simp: begin_span_def intro!: keeps_lbind keeps_lret a)
  show "keeps ls_registry (drop_span env g)"
    by (auto simp: drop_span_def split: option.split intro!: keeps_lbind keeps_lret keeps_lmodify a)
  show "keeps ls_registry (update_outcome u)" by (auto simp: update_outcome_def intro!: keeps_lmodify)
qed

lemma keeps_registry_emitters [keeps_rules]:
  "keeps ls_registry (emit_lifecycle env i stage)" "keeps ls_registry (emit_lane env i lane lstage)"
  "keeps ls_registry (emit_degraded env i d reason)" "keeps ls_registry (add_degradations ds)"
  by (simp_all add: emit_lifecycle_def emit_lane_def emit_degraded_def add_degradations_def keeps_registry)

lemma keeps_registry_timing [keeps_rules]: "keeps ls_registry (emit_timing env i g out attrs)"
  unfolding emit_timing_def
proof (intro keeps_lbind keeps_registry(1))
  fix now
  show "keeps ls_registry (\<lambda>s. case finish_guard g out attrs now (ls_collector s) of
      (sp, _, c) \<Rightarrow> emit env (EvTiming i sp) (s\<lparr>ls_collector := c\<rparr>))"
    using keeps_registry(3) by (auto simp: keeps_def split: prod.splits)
qed

lemma keeps_registry_degrade [keeps_rules]: "keeps ls_registry (degrade_dependency env i g d what e)"
  unfolding degrade_dependency_def by (intro keeps_lthen keeps_registry_timing keeps_registry_emitters)

lemma returns_outcome [succeeds_rules]: "returns (update_outcome u)" "returns (add_degradations ds)"
  by (auto simp: update_outcome_def add_degradations_def intro!: succeeds_rules)

lemma returns_stages [succeeds_rules]:
  assumes "uninterrupted env"
  shows "returns (degrade_dependency env i g d what e)"
  using assms by (auto simp: degrade_dependency_def intro!: succeeds_rules)

lemma resolve_character_succeeds:
  "uninterrupted env \<Longrightarrow> r \<noteq> Inl DepCancelled \<Longrightarrow> returns (resolve_character env i request g r)"
  by (auto simp: resolve_character_def split: sum.split dependency_error.split intro!: succeeds_rules)

lemma recall_memory_succeeds:
  "uninterrupted env \<Longrightarrow> r \<noteq> Inl DepCancelled \<Longrightarrow> returns (recall_memory env i g r)"
  by (auto simp: recall_memory_def split: sum.split dependency_error.split intro!: succeeds_rules)

definition generation_for :: "turn_request \<Rightarrow> turn_identity \<Rightarrow> generation_request \<Rightarrow> bool" where
  "generation_for request i gen \<longleftrightarrow> gr_identity gen = i \<and> gr_metadata gen = tr_metadata request"

lemma prepare_turn_succeeds:
  assumes "never_cancels (tu_env tu)"
  shows "succeeds (prepare_turn tu request i) (generation_for request i)"
proof -
  let ?env = "tu_env tu"
  have u: "uninterrupted ?env" using assms by simp
  have res: "succeeds (ask (le_resolve ?env)) (\<lambda>r. r \<noteq> Inl DepCancelled)"
    "succeeds (ask (le_retrieve ?env)) (\<lambda>r. r \<noteq> Inl DepCancelled)"
    using assms by (auto simp: never_cancels_def intro!: succeeds_ask)
  show ?thesis unfolding prepare_turn_def Let_def
    apply (intro succeeds_lthen succeeds_lbind_any [OF returns_spans(1)] succeeds_lbind [OF res(1)] succeeds_lbind [OF res(2)])
    by (auto simp: u generation_for_def intro!: succeeds_rules resolve_character_succeeds recall_memory_succeeds)
qed

lemma announce_lanes_returns: "uninterrupted (tu_env tu) \<Longrightarrow> returns (announce_lanes tu request i)"
proof -
  assume u: "uninterrupted (tu_env tu)"
  have "returns (emit_rejections (tu_env tu) i p ds)" for p ds
    by (induction ds) (use u in \<open>auto intro!: succeeds_rules\<close>)
  with u show ?thesis unfolding announce_lanes_def Let_def emit_policy_rejections_def by (auto intro!: succeeds_rules)
qed

lemma keeps_registry_prepare: "keeps ls_registry (prepare_turn tu request i)"
proof -
  have "keeps ls_registry (resolve_character env i request g r)" for env g r
    by (auto simp: resolve_character_def split: sum.split dependency_error.split
        intro!: keeps_lthen keeps_lret keeps_lfail keeps_registry keeps_registry_timing keeps_registry_degrade)
  moreover have "keeps ls_registry (recall_memory env i g r)" for env g r
    by (auto simp: recall_memory_def split: sum.split dependency_error.split
        intro!: keeps_lthen keeps_lret keeps_lfail keeps_registry keeps_registry_timing keeps_registry_degrade)
  ultimately show ?thesis unfolding prepare_turn_def Let_def
    by (auto intro!: keeps_lthen keeps_lbind keeps_lret keeps_on_error keeps_registry keeps_registry_emitters)
qed

lemma keeps_registry_announce: "keeps ls_registry (announce_lanes tu request i)"
proof -
  have "keeps ls_registry (emit_rejections env i p ds)" for env p ds
    by (induction ds) (auto intro!: keeps_lthen keeps_lret keeps_registry)
  then show ?thesis unfolding announce_lanes_def Let_def emit_policy_rejections_def
    by (auto intro!: keeps_lthen keeps_registry_emitters)
qed

text \<open>The three lanes, when the language model lane succeeds.\<close>

lemma run_lanes_succeed:
  assumes "never_cancels (tu_env tu)"
    and "run_llm_lane (tu_env tu) (tu_json tu) (sc_circuit_breaker (tu_config tu)) (sc_sentence_segmentation (tu_config tu)) gen
           (plan_from_request request) (po_language_models (tu_pool tu)) s = Some (Inr x, s1)"
  shows "\<exists>speech effects s'. run_lanes tu request i gen s = Some (Inr (Inr x, Inr speech, Inr effects), s')"
proof -
  obtain speech s2 where "run_speech_lane (tu_env tu) (sc_circuit_breaker (tu_config tu)) i (plan_from_request request)
      (po_speech (tu_pool tu)) (ls_sent s1) s1 = Some (Inr speech, s2)"
    using returns_speech_lane [OF assms(1)] unfolding succeeds_def by blast
  moreover obtain effects s3 where "run_effects_lane (tu_env tu) (sc_circuit_breaker (tu_config tu))
      \<lparr>er_generation = gen, er_response_text_hint = None\<rparr> (plan_from_request request) (po_effects (tu_pool tu))
      (sc_allowed_actions (tu_config tu)) s2 = Some (Inr effects, s3)"
    using returns_effects_lane [OF assms(1)] unfolding succeeds_def by blast
  ultimately show ?thesis using assms(2) by (simp add: run_lanes_def Let_def lbind_def lcatch_def lret_def)
qed

lemma conclude_turn_returns:
  assumes "never_cancels env" and "ll_terminal_error x = None"
  shows "returns (conclude_turn env i (Inr x, Inr speech, Inr effects))"
proof -
  have u: "uninterrupted env" using assms(1) by simp
  have c: "succeeds (ask (le_commit env)) (\<lambda>r. r \<noteq> Inl DepCancelled)"
    using assms(1) by (auto simp: never_cancels_def intro!: succeeds_ask)
  have "returns (commit_memory env i)" unfolding commit_memory_def
    apply (intro succeeds_lthen succeeds_lbind_any [OF returns_spans(1)] succeeds_lbind [OF c])
    by (auto simp: u split: sum.split dependency_error.split intro!: succeeds_rules)
  with assms u show ?thesis unfolding conclude_turn_def
    by (auto simp: apply_effects_def apply_speech_def apply_llm_def
        intro!: succeeds_lthen returns_outcome returns_emitters)
qed

lemma conclude_turn_response:
  "ltriple (\<lambda>_. True) (conclude_turn env i (Inr x, speech, effects))
     (\<lambda>_ s. out_full_response (ls_outcome s) = ll_full_text x) (\<lambda>_ _. True)"
proof -
  let ?f = "\<lambda>s. out_full_response (ls_outcome s)"
  have f: "unobserved ?f" by (simp add: unobserved_def)
  have d: "keeps ?f (add_degradations ds)" for ds
    by (auto simp: add_degradations_def update_outcome_def intro!: keeps_lmodify)
  have "keeps ?f (commit_memory env i)" unfolding commit_memory_def degrade_dependency_def
    by (auto simp: f split: sum.split dependency_error.split intro!: keeps_rules d)
  then have rest: "ltriple (\<lambda>s. ?f s = ll_full_text x) (lthen (commit_memory env i) (case ll_terminal_error x of
      Some e \<Rightarrow> lfail e | None \<Rightarrow> emit_lifecycle env i LcCompleted)) (\<lambda>_ s. ?f s = ll_full_text x) (\<lambda>_ _. True)"
    by (intro ltriple_keep_last keeps_lthen) (auto simp: f split: option.split intro!: keeps_rules)
  have "ltriple (\<lambda>_. True) (apply_llm env i x) (\<lambda>_ s. ?f s = ll_full_text x) (\<lambda>_ _. True)"
    unfolding apply_llm_def update_outcome_def
    by (rule ltriple_lthen [OF ltriple_lmodify [where Q = "\<lambda>_ s. ?f s = ll_full_text x"]])
      (auto simp: f intro!: ltriple_keep_last keeps_lthen d keeps_emitters)
  note llm = ltriple_lthen [OF this rest]
  show ?thesis unfolding conclude_turn_def prod.case sum.case
    by (intro ltriple_lthen [where R = "\<lambda>_. True"] llm) (auto simp: ltriple_def split: sum.split)
qed

lemma run_turn_completes:
  assumes "never_cancels (tu_env tu)" and "\<And>n. le_stream (tu_env tu) n = Inr (map Inr deltas)"
    and "from_route_metadata (tr_metadata request) = Inr fmt"
    and "allowed_llm_candidates (po_language_models (tu_pool tu)) (plan_from_request request) = primary # rest"
    and "stream_accepted (tu_json tu) (sc_sentence_segmentation (tu_config tu))
           (case fmt of Some x \<Rightarrow> x | None \<Rightarrow> LegacyPlainText) (ti_generation i) deltas f"
    and "breaker_of reg (circuit_key primary) = Closed n"
  shows "\<exists>out s. run_turn tu request i reg now = Some (out, s) \<and> out_lifecycle out = LcCompleted
    \<and> out_full_response out = nr_spoken (fr_response f)"
proof -
  let ?s = "initial_lane_state i reg now"
  have u: "uninterrupted (tu_env tu)" using assms(1) by simp
  obtain gen s1 where p: "prepare_turn tu request i ?s = Some (Inr gen, s1)" and gen: "generation_for request i gen"
    using prepare_turn_succeeds [OF assms(1)] unfolding succeeds_def by blast
  obtain s2 where a: "announce_lanes tu request i s1 = Some (Inr (), s2)"
    using announce_lanes_returns [OF u] unfolding succeeds_def by force
  have "ls_registry s2 = reg"
    using keepsD [OF keeps_registry_prepare p] keepsD [OF keeps_registry_announce a] by (simp add: initial_lane_state_def)
  then obtain x s3 where l: "run_llm_lane (tu_env tu) (tu_json tu) (sc_circuit_breaker (tu_config tu))
      (sc_sentence_segmentation (tu_config tu)) gen (plan_from_request request) (po_language_models (tu_pool tu)) s2 = Some (Inr x, s3)"
    and x: "response_is f x"
    using run_llm_lane_succeeds [of "tu_env tu" deltas gen fmt "po_language_models (tu_pool tu)" "plan_from_request request"
        primary rest "tu_json tu" "sc_sentence_segmentation (tu_config tu)" f s2 n "sc_circuit_breaker (tu_config tu)"] u assms gen by (auto simp: generation_for_def)
  obtain sp ef s4 where lanes: "run_lanes tu request i gen s2 = Some (Inr (Inr x, Inr sp, Inr ef), s4)"
    using run_lanes_succeed [OF assms(1) l] by blast
  obtain s5 where c: "conclude_turn (tu_env tu) i (Inr x, Inr sp, Inr ef) s4 = Some (Inr (), s5)"
    using conclude_turn_returns [OF assms(1)] x unfolding succeeds_def response_is_def by force
  have "out_full_response (ls_outcome s5) = ll_full_text x" using ltripleD(1) [OF conclude_turn_response _ c] by simp
  then show ?thesis using u x
    by (simp add: run_turn_def run_turn_inner_def lthen_def lbind_def p a lanes c finish_outcome_def uninterrupted_def response_is_def)
qed

section \<open>A sample turn\<close>

definition sample_env :: lane_env where
  "sample_env = \<lparr>le_interrupted = (\<lambda>_. False), le_clock = (\<lambda>n. n),
     le_resolve = (\<lambda>_. Inl (DepUnavailable [])), le_retrieve = (\<lambda>_. Inl (DepUnavailable [])), le_commit = (\<lambda>_. Inr ()),
     le_stream = (\<lambda>_. Inr [Inr \<lparr>ld_text = spoken_sample, ld_sequence = 2\<rparr>]),
     le_derive = (\<lambda>_. Inl (provider_error_unavailable [] [])), le_start_session = (\<lambda>_. Inr ()),
     le_synthesize = (\<lambda>_. Inr ()),
     le_play = (\<lambda>_. Inr \<lparr>pr_audible_frames = 480, pr_duration = 10, pr_completed = True\<rparr>)\<rparr>"

definition local_descriptor :: "string \<Rightarrow> provider_modality \<Rightarrow> provider_descriptor" where
  "local_descriptor n m = \<lparr>pd_id = lit n, pd_display_name = lit n, pd_modality = m, pd_location = LocLocal,
     pd_may_retain_data = False, pd_transmitted_data = [], pd_capabilities = []\<rparr>"

definition sample_setup :: "rstr turn_setup" where
  "sample_setup = \<lparr>tu_env = sample_env, tu_json = sample_json,
     tu_config = default_supervisor_config\<lparr>sc_sentence_segmentation := sample_config\<rparr>,
     tu_pool = \<lparr>po_language_models = [local_descriptor ''llm'' LanguageModel], po_effects = [],
       po_speech = [local_descriptor ''tts'' Speech]\<rparr>\<rparr>"

definition sample_turn_request :: turn_request where
  "sample_turn_request = \<lparr>tr_session_id = lit ''s'', tr_turn_id = lit ''t'', tr_transcript = lit ''hello'',
     tr_character_hint = None, tr_game_id = lit ''g'', tr_locale = lit ''en'', tr_execution_mode = ModeFullyLocal,
     tr_network_policy = NetOffline, tr_authorized_cloud_providers = [], tr_allow_provider_fallback = False,
     tr_allow_local_to_cloud_fallback = False, tr_allow_retaining_providers = False, tr_metadata = []\<rparr>"

definition sample_identity :: turn_identity where
  "sample_identity = \<lparr>ti_session_id = lit ''s'', ti_turn_id = lit ''t'', ti_generation = 7\<rparr>"

definition legacy_adapter :: "rstr \<Rightarrow> segmenter \<Rightarrow> sentence_span list \<Rightarrow> nat option \<Rightarrow> adapter" where
  "legacy_adapter buf sg sent seq = \<lparr>ad_format = LegacyPlainText, ad_policy = default_response_policy,
     ad_sentence_config = sample_config, ad_segmenter = Some sg, ad_generation = 7, ad_state = AdActive,
     ad_last_sequence = seq, ad_buffer = buf, ad_released = sent, ad_speech_first_text = None\<rparr>"

definition segmenter_after :: segmenter where
  "segmenter_after = \<lparr>sg_config = sample_config, sg_buffer = lit ''no'', sg_buffer_source_start = 10, sg_next_sentence_id = 3\<rparr>"

lemma new_legacy: "new_adapter LegacyPlainText default_response_policy sample_config 7 = Some (legacy_adapter [] sample_segmenter [] None)"
  by (simp add: new_adapter_def new_sample legacy_adapter_def)

lemma push_legacy:
  "push_delta sample_json 7 2 spoken_sample (legacy_adapter [] sample_segmenter [] None)
   = Some (Inr first_two, legacy_adapter spoken_sample segmenter_after first_two (Some 2))"
proof -
  have "\<not> list_ex disallowed_control spoken_sample"
    by (simp add: spoken_sample_def lit_def disallowed_control_def is_control_def)
  then show ?thesis
    by (simp add: push_delta_def push_guard_def require_active_generation_def require_generation_def legacy_adapter_def
        adapter_maximum_def default_response_policy_def MAX_SPOKEN_RESPONSE_BYTES_def u64_max_def blen_spoken_sample
        push_spoken_sample segmenter_after_def)
qed

definition legacy_final :: finalized_response where
  "legacy_final = \<lparr>fr_response = plain_text_response spoken_sample, fr_format = LegacyPlainText,
     fr_ready_sentences = [last_one], fr_all_sentences = first_two @ [last_one]\<rparr>"

lemma finish_legacy_sample:
  "\<exists>ad. adapter_finish sample_json 7 (legacy_adapter spoken_sample segmenter_after first_two (Some 2)) = Some (Inr legacy_final, ad)"
  by (simp add: adapter_finish_def finish_legacy_def require_active_generation_def require_generation_def legacy_adapter_def
      validate_plain_sample sample_finish segmenter_after_def legacy_final_def last_one_def Let_def)

lemma spoken_sample_not_Nil: "spoken_sample \<noteq> []"
  by (simp add: spoken_sample_def lit_def)

definition sample_delta :: llm_delta where
  "sample_delta = \<lparr>ld_text = spoken_sample, ld_sequence = 2\<rparr>"

lemma sample_turn_hypotheses:
  "never_cancels (tu_env sample_setup)" "le_stream (tu_env sample_setup) n = Inr (map Inr [sample_delta])"
  "from_route_metadata (tr_metadata sample_turn_request) = Inr None"
  "allowed_llm_candidates (po_language_models (tu_pool sample_setup)) (plan_from_request sample_turn_request)
     = [local_descriptor ''llm'' LanguageModel]"
  "stream_accepted (tu_json sample_setup) (sc_sentence_segmentation (tu_config sample_setup)) LegacyPlainText
     (ti_generation sample_identity) [sample_delta] legacy_final"
  "breaker_of [] (circuit_key (local_descriptor ''llm'' LanguageModel)) = Closed 0"
proof -
  show "never_cancels (tu_env sample_setup)"
    by (simp add: never_cancels_def uninterrupted_def sample_setup_def sample_env_def provider_error_unavailable_def)
  show "le_stream (tu_env sample_setup) n = Inr (map Inr [sample_delta])"
    by (simp add: sample_setup_def sample_env_def sample_delta_def)
  show "from_route_metadata (tr_metadata sample_turn_request) = Inr None"
    by (simp add: sample_turn_request_def from_route_metadata_def)
  show "allowed_llm_candidates (po_language_models (tu_pool sample_setup)) (plan_from_request sample_turn_request)
     = [local_descriptor ''llm'' LanguageModel]"
    by (simp add: allowed_llm_candidates_def sample_setup_def plan_from_request_def privacy_from_request_def
        sample_turn_request_def evaluate_def local_descriptor_def)
  show "stream_accepted (tu_json sample_setup) (sc_sentence_segmentation (tu_config sample_setup)) LegacyPlainText
     (ti_generation sample_identity) [sample_delta] legacy_final"
    using finish_legacy_sample
    by (simp add: stream_accepted_def sample_setup_def sample_identity_def new_legacy push_legacy sample_delta_def
        spoken_sample_not_Nil)
  show "breaker_of [] (circuit_key (local_descriptor ''llm'' LanguageModel)) = Closed 0"
    by (simp add: breaker_of_def for_provider_def)
qed

lemma sample_turn_completes:
  "\<exists>out s. run_turn sample_setup sample_turn_request sample_identity [] 0 = Some (out, s) \<and> out_lifecycle out = LcCompleted"
  using run_turn_completes [OF sample_turn_hypotheses(1,2,3,4) _ sample_turn_hypotheses(6), of sample_identity legacy_final 0]
    sample_turn_hypotheses(5) by auto

section \<open>Properties\<close>

text \<open>
  C2. A turn completes and reports the model's response. When nothing interrupts the turn, the first authorized
  language model's circuit is closed and its stream is one the adapter accepts in the negotiated format,
  the turn does not panic and returns the lifecycle Completed, with the finalized spoken text as its full
  response; the identity resolver, the memory store and the effects and speech providers
  may fail in any way short of cancelling.
\<close>

theorem turn_completes:
  assumes "never_cancels (tu_env tu)" and "\<And>n. le_stream (tu_env tu) n = Inr (map Inr deltas)"
    and "from_route_metadata (tr_metadata request) = Inr fmt"
    and "allowed_llm_candidates (po_language_models (tu_pool tu)) (plan_from_request request) = primary # rest"
    and "stream_accepted (tu_json tu) (sc_sentence_segmentation (tu_config tu))
           (case fmt of Some x \<Rightarrow> x | None \<Rightarrow> LegacyPlainText) (ti_generation i) deltas f"
    and "breaker_of reg (circuit_key primary) = Closed n"
  shows "\<exists>out s. run_turn tu request i reg now = Some (out, s) \<and> out_lifecycle out = LcCompleted
    \<and> out_full_response out = nr_spoken (fr_response f)"
  by (rule run_turn_completes [OF assms])

theorem turn_completes_witness:
  "\<exists>out s. run_turn sample_setup sample_turn_request sample_identity [] 0 = Some (out, s) \<and> out_lifecycle out = LcCompleted
     \<and> out_full_response out = spoken_sample"
  using turn_completes [OF sample_turn_hypotheses(1,2,3,4) _ sample_turn_hypotheses(6), of sample_identity legacy_final 0]
    sample_turn_hypotheses(5) by (simp add: legacy_final_def plain_text_response_def)

text \<open>
  C1. The outcome of a turn is honest, whatever the environment does and whenever the turn is cancelled. Its
  lifecycle is terminal, and it carries an error exactly when it did not complete. Its effects are safe
  for the allowed actions. The memory store was given nothing, or once exactly the sentences the outcome
  reports as delivered, which are then exact slices, in order, of the response the outcome reports.
  A completed turn has committed, and has delivered the whole of that response.
\<close>

theorem turn_outcome_is_honest:
  assumes "run_turn tu request i reg now = Some (out, s)"
  shows "out_identity out = i \<and> is_terminal (out_lifecycle out)
    \<and> (out_error out = None \<longleftrightarrow> out_lifecycle out = LcCompleted)
    \<and> effects_safe (sc_allowed_actions (tu_config tu)) (out_effects out)
    \<and> (ls_commits s = [] \<or> ls_commits s = [out_delivered out]
         \<and> partial_segmentation (out_full_response out) (map delivered_span (out_delivered out)))
    \<and> (out_lifecycle out = LcCompleted \<longrightarrow> ls_commits s = [out_delivered out]
         \<and> exact_segmentation (out_full_response out) (map delivered_span (out_delivered out)))"
proof -
  obtain r s1 where run: "run_turn_inner tu request i (initial_lane_state i reg now) = Some (r, s1)"
    and fin: "finish_outcome (tu_env tu) r s1 = (out, s)"
    using assms by (auto simp: run_turn_def split: option.splits)
  have "core_of (initial_lane_state i reg now) = ([], [], initial_outcome i)"
    by (simp add: core_of_def initial_lane_state_def initial_outcome_def)
  from run_turn_inner_post [OF this run] finish_outcome_cases [OF fin] show ?thesis
    by (auto simp: core_ok_def core_complete_def core_of_def is_terminal_def)
qed

theorem turn_outcome_is_honest_witness:
  "\<exists>out s. run_turn sample_setup sample_turn_request sample_identity [] 0 = Some (out, s)
     \<and> exact_segmentation (out_full_response out) (map delivered_span (out_delivered out))"
proof -
  obtain out s where run: "run_turn sample_setup sample_turn_request sample_identity [] 0 = Some (out, s)"
    and lc: "out_lifecycle out = LcCompleted"
    using sample_turn_completes by blast
  with turn_outcome_is_honest [OF run] show ?thesis by blast
qed

lemma run_speech_lane_post:
  assumes "run_speech_lane env cfg i plan ps sentences s = Some (Inr r, s')"
  shows "\<exists>v. r = \<lparr>sl_delivered = sv_delivered v, sl_providers = sv_selected v, sl_degradations = sv_degradations v\<rparr>
    \<and> speech_post (ls_plays s) (pd_id ` set (candidates plan (\<lambda>d. d) ps)) sentences
        \<lparr>sv_sessions = [], sv_delivered = [], sv_selected = [], sv_degradations = [], sv_announced = False\<rparr> v s'"
proof -
  let ?v = "\<lparr>sv_sessions = [], sv_delivered = [], sv_selected = [], sv_degradations = [], sv_announced = False\<rparr>"
  let ?ids = "pd_id ` set (candidates plan (\<lambda>d. d) ps)"
  have "ltriple (plays_are (ls_plays s)) (speech_loop_run env cfg i (rp_fallback plan)
      (filter (\<lambda>d. evaluate (rp_privacy plan) d = Allowed) ps) sentences ?v) (speech_post (ls_plays s) ?ids sentences ?v) cancelled_error"
    by (rule speech_loop_run_triple) (use allowed_then_reachable_candidates in \<open>fastforce simp: allowed_llm_candidates_def\<close>)
  then show ?thesis using assms unfolding run_speech_lane_def ltriple_def
    by (fastforce simp: lbind_def lret_def split: option.splits sum.splits prod.splits)
qed

text \<open>
  C8. The language model lane speaks for exactly one provider, whatever the streams do. When it returns, the
  sentences it has put into the channel are exact slices, in order, of the text it reports, all of that text
  unless it reports a terminal error, and the provider it names is one that privacy and fallback policy
  admit. When it fails other than by cancellation, it has put nothing into the channel.
\<close>

theorem llm_lane_speaks_for_one_provider:
  assumes "run_llm_lane env js cfg sc request plan ps s = Some (r, s')"
  shows "case r of
      Inl e \<Rightarrow> e = SupCancelled \<or> ls_sent s' = ls_sent s
    | Inr x \<Rightarrow> \<exists>sent d. ls_sent s' = ls_sent s @ sent \<and> d \<in> set (candidates plan (\<lambda>d. d) ps) \<and> ll_provider_id x = pd_id d
        \<and> partial_segmentation (ll_full_text x) sent
        \<and> (ll_terminal_error x = None \<longrightarrow> exact_segmentation (ll_full_text x) sent)"
proof (cases r)
  case (Inl e)
  with ltripleD(2) [OF run_llm_lane_triple, of s "ls_sent s"] assms show ?thesis by fastforce
next
  case (Inr x)
  with ltripleD(1) [OF run_llm_lane_triple, of s "ls_sent s"] assms show ?thesis by (fastforce simp: result_ok_def)
qed

definition sample_generation :: generation_request where
  "sample_generation = \<lparr>gr_identity = sample_identity, gr_transcript = lit ''hello'',
     gr_character = selected_character sample_turn_request, gr_memory = degraded_memory, gr_locale = lit ''en'', gr_metadata = []\<rparr>"

lemma sample_llm_lane:
  "\<exists>x s'. run_llm_lane sample_env sample_json default_circuit_config sample_config sample_generation
     (plan_from_request sample_turn_request) (po_language_models (tu_pool sample_setup)) (initial_lane_state sample_identity [] 0)
     = Some (Inr x, s') \<and> response_is legacy_final x"
proof (rule run_llm_lane_succeeds)
  show "le_stream sample_env n = Inr (map Inr [sample_delta])" for n using sample_turn_hypotheses(2) by (simp add: sample_setup_def)
  show "uninterrupted sample_env" using sample_turn_hypotheses(1) by (simp add: sample_setup_def)
  show "from_route_metadata (gr_metadata sample_generation) = Inr None"
    by (simp add: sample_generation_def from_route_metadata_def)
  show "stream_accepted sample_json sample_config (case None of Some x \<Rightarrow> x | None \<Rightarrow> LegacyPlainText)
     (ti_generation (gr_identity sample_generation)) [sample_delta] legacy_final"
    using sample_turn_hypotheses(5) by (simp add: sample_setup_def sample_generation_def)
qed (use sample_turn_hypotheses(4,6) in \<open>simp_all add: initial_lane_state_def\<close>)

theorem llm_lane_speaks_for_one_provider_witness:
  "\<exists>x s'. run_llm_lane sample_env sample_json default_circuit_config sample_config sample_generation
     (plan_from_request sample_turn_request) (po_language_models (tu_pool sample_setup)) (initial_lane_state sample_identity [] 0)
     = Some (Inr x, s') \<and> exact_segmentation spoken_sample (ls_sent s')"
proof -
  obtain x s' where run: "run_llm_lane sample_env sample_json default_circuit_config sample_config sample_generation
     (plan_from_request sample_turn_request) (po_language_models (tu_pool sample_setup)) (initial_lane_state sample_identity [] 0)
     = Some (Inr x, s')" and x: "response_is legacy_final x"
    using sample_llm_lane by blast
  have "ls_sent (initial_lane_state sample_identity [] 0) = []" by (simp add: initial_lane_state_def)
  with llm_lane_speaks_for_one_provider [OF run] x show ?thesis
    by (auto simp: run response_is_def legacy_final_def plain_text_response_def)
qed

text \<open>
  C9. The speech lane delivers every sentence of the channel once, in the channel's order, as audio or as a subtitle,
  and reports the subtitle degradation exactly when some sentence was only shown. Each sentence is played
  at most once, playbacks follow the order of the sentences, and every provider that played or
  is reported as selected is one that privacy and fallback policy admit.
\<close>

theorem speech_lane_delivers_every_sentence:
  assumes "run_speech_lane env cfg i plan ps sentences s = Some (Inr r, s')"
  shows "map delivered_span (sl_delivered r) = sentences
    \<and> (AudioToSubtitles \<in> set (sl_degradations r) \<longleftrightarrow> (\<exists>d\<in>set (sl_delivered r). ds_delivery d = DeliverSubtitle))
    \<and> set (sl_providers r) \<subseteq> pd_id ` set (candidates plan (\<lambda>d. d) ps)
    \<and> (\<exists>plays. ls_plays s' = ls_plays s @ plays \<and> subseq (map fst plays) (map ss_sentence_id sentences)
         \<and> snd ` set plays \<subseteq> pd_id ` set (candidates plan (\<lambda>d. d) ps))"
  using run_speech_lane_post [OF assms]
  by (auto simp: speech_post_def subtitles_recorded_def)

theorem speech_lane_delivers_every_sentence_witness:
  "\<exists>r s'. run_speech_lane sample_env default_circuit_config sample_identity (plan_from_request sample_turn_request)
     (po_speech (tu_pool sample_setup)) first_two (initial_lane_state sample_identity [] 0) = Some (Inr r, s')
     \<and> map delivered_span (sl_delivered r) = first_two"
proof -
  have "never_cancels sample_env" using sample_turn_hypotheses(1) by (simp add: sample_setup_def)
  then obtain r s' where run: "run_speech_lane sample_env default_circuit_config sample_identity
     (plan_from_request sample_turn_request) (po_speech (tu_pool sample_setup)) first_two
     (initial_lane_state sample_identity [] 0) = Some (Inr r, s')"
    using returns_speech_lane unfolding succeeds_def by blast
  with speech_lane_delivers_every_sentence [OF run] show ?thesis by blast
qed

end
