(* ===== verification/Supervisor_Properties.thy ===== *)
theory Supervisor_Properties
  imports Turn_Supervisor Turn_Progress
begin

text \<open>
  The supervisor in every interleaving: at most one live turn, barge-in, the foreground slot as a refinement of a
  one-slot specification, shutdown, and the admission of turns through the broker, stated over the interface
  \<open>lease_desk\<close> that the broker is shown to provide. The last section holds three behaviours that are not intended.
\<close>

section \<open>Cancelled stays cancelled\<close>

abbreviation live :: "('st, 'tok) token_api \<Rightarrow> ('st, 'tok) supervisor \<Rightarrow> 'tok generation_token \<Rightarrow> bool" where
  "live api su g \<equiv> \<not> gt_is_cancelled api (su_generations su) g"

text \<open>The generations a step may leave: the counter does not go back, and no token is revived that was handed out.\<close>

definition gens_advance :: "('st, 'tok) token_api \<Rightarrow> 'st cancel_world \<Rightarrow> 'st cancel_world \<Rightarrow> bool" where
  "gens_advance api c c' \<longleftrightarrow> cw_current c \<le> cw_current c'
     \<and> (\<forall>t. tok_is_cancelled api (cw_tokens c) t \<longrightarrow> tok_is_cancelled api (cw_tokens c') t)"

lemma gens_advance_refl [simp]: "gens_advance api c c"
  by (simp add: gens_advance_def)

lemma gens_advance_cancel [simp]: "token_laws api \<Longrightarrow> gens_advance api c (gt_cancel api g c)"
  by (simp add: gens_advance_def gt_cancel_def token_laws_def)

lemma gens_advance_next:
  "token_laws api \<Longrightarrow> cw_current c + 1 < 2 ^ 64 \<Longrightarrow> next_generation api c = (g, c') \<Longrightarrow>
   gens_advance api c c' \<and> cw_current c' = cw_current c + 1 \<and> gt_generation g = cw_current c + 1"
  using next_generation_simps [of api c] by (auto simp: gens_advance_def wrap_inc64_exact token_laws_def)

lemma gens_advance_cancelled:
  "gens_advance api c c' \<Longrightarrow> gt_generation g \<le> cw_current c \<Longrightarrow> gt_is_cancelled api c g \<Longrightarrow> gt_is_cancelled api c' g"
  by (auto simp: gens_advance_def gt_is_cancelled_def gt_is_current_def)

lemma gt_cancel_cancels: "token_laws api \<Longrightarrow> gt_is_cancelled api (gt_cancel api g c) g"
  by (simp add: gt_is_cancelled_def gt_cancel_def token_laws_def)

section \<open>The invariant of the world\<close>

abbreviation gen_of :: "'tok turn_task \<Rightarrow> nat" where
  "gen_of t \<equiv> ti_generation (tt_identity t)"

definition task_ok :: "nat \<Rightarrow> 'tok turn_task \<Rightarrow> bool" where
  "task_ok n t \<longleftrightarrow> gen_of t = gt_generation (tt_generation t) \<and> gen_of t \<le> n"

text \<open>The tasks have different generations, none from the future; the current turn has the newest one; a call that
  holds the gate has cleared the current turn; and a running turn that is not cancelled is the current turn.\<close>

definition world_inv :: "('st, 'tok) token_api \<Rightarrow> ('st, 'tok) world \<Rightarrow> bool" where
  "world_inv api w \<longleftrightarrow>
     (let su = wd_supervisor w; n = cw_current (su_generations su) in
      (\<forall>t\<in>set (wd_tasks w) \<union> set (wd_ended w). task_ok n t)
      \<and> distinct (map gen_of (wd_tasks w @ wd_ended w))
      \<and> (\<forall>a. su_current su = Some a \<longrightarrow> ti_generation (at_identity a) = n \<and> gt_generation (at_generation a) = n)
      \<and> (wd_gate w \<noteq> None \<longrightarrow> su_current su = None)
      \<and> (\<forall>t\<in>set (wd_tasks w). live api su (tt_generation t) \<longrightarrow>
           (\<exists>a. su_current su = Some a \<and> at_identity a = tt_identity t \<and> at_generation a = tt_generation t)))"

lemma world_invD:
  assumes "world_inv api w"
  shows "t \<in> set (wd_tasks w) \<Longrightarrow> live api (wd_supervisor w) (tt_generation t) \<Longrightarrow>
           \<exists>a. su_current (wd_supervisor w) = Some a \<and> at_identity a = tt_identity t \<and> at_generation a = tt_generation t"
    and "t \<in> set (wd_tasks w) \<union> set (wd_ended w) \<Longrightarrow> task_ok (cw_current (su_generations (wd_supervisor w))) t"
  using assms by (auto simp: world_inv_def Let_def)

text \<open>A step of the supervisor that cancels some tokens, at most clears the current turn, and may change the broker.\<close>

lemma world_inv_quiet:
  assumes "world_inv api w" and "gens_advance api (su_generations (wd_supervisor w)) (su_generations su')"
    and "cw_current (su_generations su') = cw_current (su_generations (wd_supervisor w))"
    and "su_current su' = su_current (wd_supervisor w)"
    and "set (wd_tasks w') \<subseteq> set (wd_tasks w)" "mset (wd_tasks w' @ wd_ended w') \<subseteq># mset (wd_tasks w @ wd_ended w)"
    and "wd_supervisor w' = su'" "wd_gate w' = wd_gate w"
  shows "world_inv api w'"
proof -
  have sub: "set (wd_tasks w') \<union> set (wd_ended w') \<subseteq> set (wd_tasks w) \<union> set (wd_ended w)"
    using set_mset_mono [OF assms(6)] by simp
  have "mset (map gen_of (wd_tasks w' @ wd_ended w')) \<subseteq># mset (map gen_of (wd_tasks w @ wd_ended w))"
    using image_mset_subseteq_mono [OF assms(6), of gen_of] by simp
  then have d: "distinct (map gen_of (wd_tasks w' @ wd_ended w'))"
    by (rule distinct_submset [rotated]) (use assms(1) in \<open>simp add: world_inv_def Let_def\<close>)
  have live: "live api (wd_supervisor w) (tt_generation t)"
    if "live api su' (tt_generation t)" "t \<in> set (wd_tasks w')" for t
    using gens_advance_cancelled [OF assms(2), of "tt_generation t"] that assms(5) world_invD(2) [OF assms(1), of t]
    by (auto simp: task_ok_def)
  have tasks: "\<forall>t\<in>set (wd_tasks w'). live api su' (tt_generation t) \<longrightarrow>
           (\<exists>a. su_current su' = Some a \<and> at_identity a = tt_identity t \<and> at_generation a = tt_generation t)"
    using live world_invD(1) [OF assms(1)] assms(4,5) by fastforce
  show ?thesis unfolding world_inv_def Let_def assms(7)
    using d tasks sub assms(1,3,4,8) by (auto simp: world_inv_def Let_def subset_iff)
qed

lemma world_inv_barge:
  assumes "world_inv api w" "token_laws api" and "wd_supervisor w' = snd (barge_in_locked api adm tm reason (wd_supervisor w))"
    and "wd_tasks w' = wd_tasks w" "wd_ended w' = wd_ended w"
  shows "world_inv api w' \<and> (\<forall>t\<in>set (wd_tasks w). \<not> live api (wd_supervisor w') (tt_generation t))"
proof (cases "su_current (wd_supervisor w)")
  case None
  then have "wd_supervisor w' = wd_supervisor w" using assms(3) by (simp add: barge_in_locked_def)
  with None assms world_invD(1) [OF assms(1)] show ?thesis by (fastforce simp: world_inv_def Let_def)
next
  case (Some a)
  let ?c = "su_generations (wd_supervisor w)"
  have su: "su_generations (wd_supervisor w') = gt_cancel api (at_generation a) ?c" "su_current (wd_supervisor w') = None"
    using assms(3) Some by (simp_all add: barge_in_locked_def)
  have dead: "\<not> live api (wd_supervisor w') (tt_generation t)" if t: "t \<in> set (wd_tasks w)" for t
  proof (cases "live api (wd_supervisor w) (tt_generation t)")
    case True
    then have "at_generation a = tt_generation t" using world_invD(1) [OF assms(1) t] Some by auto
    then show ?thesis using gt_cancel_cancels [OF assms(2)] su by simp
  next
    case False
    then show ?thesis using gens_advance_cancelled [OF gens_advance_cancel [OF assms(2)]] world_invD(2) [OF assms(1), of t] t su
      by (auto simp: task_ok_def)
  qed
  then show ?thesis using assms(1,4,5) su by (auto simp: world_inv_def Let_def)
qed

lemma start_launch_fields:
  assumes "start_launch api adm tm tm' request su = (r, su')" "token_laws api" "cw_current (su_generations su) + 1 < 2 ^ 64"
  shows "gens_advance api (su_generations su) (su_generations su')"
    "cw_current (su_generations su') = cw_current (su_generations su) + 1"
    "r = Inl e \<Longrightarrow> su_current su' = su_current su"
    "r = Inr (h, t) \<Longrightarrow> gen_of t = cw_current (su_generations su') \<and> gt_generation (tt_generation t) = cw_current (su_generations su')
       \<and> (\<exists>a. su_current su' = Some a \<and> at_identity a = tt_identity t \<and> at_generation a = tt_generation t)"
proof -
  obtain g c where n: "next_generation api (su_generations su) = (g, c)" by fastforce
  note a = gens_advance_next [OF assms(2,3) n]
  let ?i = "\<lparr>ti_session_id = tr_session_id request, ti_turn_id = tr_turn_id request, ti_generation = gt_generation g\<rparr>"
  obtain x b where x: "admit_turn_resources adm tm tm' request ?i (su_broker su) = (x, b)" by fastforce
  note launch = assms(1) [unfolded start_launch_def n Let_def prod.case x]
  have gens: "su_generations su' = c" using launch by (auto split: sum.splits prod.splits)
  then show "gens_advance api (su_generations su) (su_generations su')"
    "cw_current (su_generations su') = cw_current (su_generations su) + 1" using a by simp_all
  show "r = Inl e \<Longrightarrow> su_current su' = su_current su" using launch by (auto split: sum.splits prod.splits)
  show "r = Inr (h, t) \<Longrightarrow> gen_of t = cw_current (su_generations su') \<and> gt_generation (tt_generation t) = cw_current (su_generations su')
       \<and> (\<exists>a. su_current su' = Some a \<and> at_identity a = tt_identity t \<and> at_generation a = tt_generation t)"
    unfolding gens using launch a by (auto split: sum.splits prod.splits)
qed

lemma live_needs_current: "live api su g \<Longrightarrow> gt_generation g = cw_current (su_generations su)"
  by (simp add: gt_is_cancelled_def gt_is_current_def)

lemma old_tasks_not_live:
  assumes "world_inv api w" "cw_current (su_generations (wd_supervisor w)) < cw_current (su_generations su')" "t \<in> set (wd_tasks w)"
  shows "\<not> live api su' (tt_generation t)"
  using live_needs_current world_invD(2) [OF assms(1), of t] assms(2,3) by (fastforce simp: task_ok_def)

lemma world_inv_launch:
  assumes "world_inv api w" "token_laws api" "cw_current (su_generations (wd_supervisor w)) + 1 < 2 ^ 64"
    and "start_launch api adm tm tm' request (wd_supervisor w) = (r, su')" "wd_gate w \<noteq> None"
  shows "r = Inl e \<Longrightarrow> world_inv api (w\<lparr>wd_gate := None, wd_supervisor := su'\<rparr>)"
    and "r = Inr (h, t) \<Longrightarrow>
      world_inv api (w\<lparr>wd_gate := None, wd_supervisor := su', wd_tasks := t # wd_tasks w, wd_handles := h # wd_handles w\<rparr>)"
proof -
  note f = start_launch_fields [OF assms(4,2,3)]
  have none: "su_current (wd_supervisor w) = None" using assms(1,5) by (simp add: world_inv_def Let_def)
  have old: "\<not> live api su' (tt_generation t)" if "t \<in> set (wd_tasks w)" for t
    using old_tasks_not_live [OF assms(1) _ that] f(2) by simp
  have ok: "task_ok (cw_current (su_generations su')) t \<and> gen_of t < cw_current (su_generations su')"
    if "t \<in> set (wd_tasks w) \<union> set (wd_ended w)" for t
    using world_invD(2) [OF assms(1) that] f(2) by (simp add: task_ok_def)
  show "r = Inl e \<Longrightarrow> world_inv api (w\<lparr>wd_gate := None, wd_supervisor := su'\<rparr>)"
    using assms(1) none f(3) old ok by (auto simp: world_inv_def Let_def)
  show "r = Inr (h, t) \<Longrightarrow>
      world_inv api (w\<lparr>wd_gate := None, wd_supervisor := su', wd_tasks := t # wd_tasks w, wd_handles := h # wd_handles w\<rparr>)"
  proof -
    assume r: "r = Inr (h, t)"
    let ?n = "cw_current (su_generations su')"
    note t = f(4) [OF r]
    have new: "task_ok ?n t" using t by (simp add: task_ok_def)
    have fresh: "gen_of t \<notin> gen_of ` (set (wd_tasks w) \<union> set (wd_ended w))" using ok t by fastforce
    have d: "distinct (map gen_of (wd_tasks w @ wd_ended w))" using assms(1) by (simp add: world_inv_def Let_def)
    obtain a where a: "su_current su' = Some a" "at_identity a = tt_identity t" "at_generation a = tt_generation t"
      using t by blast
    show ?thesis unfolding world_inv_def Let_def
      using new fresh d a t old ok by (auto simp: image_Un)
  qed
qed

lemma world_inv_clear:
  assumes "world_inv api w" "t \<in> set (wd_ended w)"
  shows "world_inv api (w\<lparr>wd_supervisor := clear_if_current (tt_identity t) (wd_supervisor w), wd_ended := remove1 t (wd_ended w)\<rparr>)"
proof (cases "su_current (clear_if_current (tt_identity t) (wd_supervisor w)) = su_current (wd_supervisor w)")
  case True
  then have "clear_if_current (tt_identity t) (wd_supervisor w) = wd_supervisor w"
    by (auto simp: clear_if_current_def split: option.splits)
  then show ?thesis
    by (intro world_inv_quiet [OF assms(1), of "wd_supervisor w"]) (auto simp: mset_remove1)
next
  case False
  then obtain a where a: "su_current (wd_supervisor w) = Some a" "ti_generation (at_identity a) = gen_of t"
    "clear_if_current (tt_identity t) (wd_supervisor w) = (wd_supervisor w)\<lparr>su_current := None\<rparr>"
    by (auto simp: clear_if_current_def split: option.splits if_splits)
  let ?w = "w\<lparr>wd_ended := remove1 t (wd_ended w)\<rparr>"
  have i: "world_inv api ?w"
    by (rule world_inv_quiet [OF assms(1), of "wd_supervisor w"]) (auto simp: mset_remove1)
  have "\<not> live api (wd_supervisor w) (tt_generation t')" if t': "t' \<in> set (wd_tasks w)" for t'
  proof
    assume "live api (wd_supervisor w) (tt_generation t')"
    with world_invD(1) [OF assms(1) t'] a have "gen_of t' = gen_of t" by auto
    moreover have "distinct (map gen_of (wd_tasks w @ wd_ended w))" using assms(1) by (simp add: world_inv_def Let_def)
    ultimately show False using t' assms(2) by (auto simp: image_iff)
  qed
  with i show ?thesis unfolding a(3) by (simp add: world_inv_def Let_def)
qed

lemma world_inv_step:
  assumes "world_step api adm w ev w'" "token_laws api" "world_inv api w"
  shows "world_inv api w'"
  using assms
proof (induction rule: world_step.induct)
  case (ws_finish t w lifecycle tm)
  have "su_generations (task_finish adm tm lifecycle t su) = su_generations su" "su_current (task_finish adm tm lifecycle t su) = su_current su"
    for su :: "('a, 'b) supervisor"
    by (simp_all add: task_finish_def split: option.split)
  with ws_finish show ?case
    by (intro world_inv_quiet [OF ws_finish(4)]) (auto simp: set_remove1_subset mset_remove1 dest: notin_set_remove1)
next
  case (ws_enter w request tm)
  show ?case by (rule world_inv_barge [OF ws_enter(4,3), of _ adm tm superseded, THEN conjunct1]) simp_all
next
  case (ws_barge_in w tm reason)
  show ?case
    by (rule world_inv_barge [OF ws_barge_in(3,2), of _ adm tm reason, THEN conjunct1]) (simp_all add: barge_in_def)
next
  case (ws_refused w request tm tm' e su')
  then show ?case by (intro world_inv_launch(1) [OF ws_refused(5,4,2,3)]) auto
next
  case (ws_launch w request tm tm' h t su')
  then show ?case by (intro world_inv_launch(2) [OF ws_launch(5,4,2,3)]) auto
next
  case (ws_clear t w)
  then show ?case by (intro world_inv_clear)
next
  case (ws_request request w)
  then show ?case by (intro world_inv_quiet [OF ws_request(3)]) auto
next
  case (ws_shutdown w)
  then show ?case by (intro world_inv_quiet [OF ws_shutdown(2)]) (auto simp: begin_shutdown_def)
next
  case (ws_cancel h w tm)
  then show ?case by (intro world_inv_quiet [OF ws_cancel(3)]) (auto simp: handle_cancel_def)
next
  case (ws_bridge t w)
  then show ?case by (intro world_inv_quiet [OF ws_bridge(4)]) (auto simp: bridge_cancel_def)
next
  case (ws_broker a w broker)
  then show ?case by (intro world_inv_quiet [OF ws_broker(4)]) auto
qed

lemma world_inv_initial: "build_supervisor cfg tokens broker = Some su \<Longrightarrow> world_inv api (initial_world su)"
  by (auto simp: build_supervisor_def world_inv_def initial_world_def Let_def split: if_splits)

lemma world_inv_run:
  "world_run api adm w evs w' \<Longrightarrow> token_laws api \<Longrightarrow> world_inv api w \<Longrightarrow> world_inv api w'"
  by (induction rule: world_run.induct) (auto intro: world_inv_step)

section \<open>The foreground slot\<close>

text \<open>The specification of the slot: at most one identity, set by a start, cleared by a barge-in, and cleared by the end of a
  turn only when it is that turn's.\<close>

fun slot_step :: "slot_event \<Rightarrow> turn_identity option \<Rightarrow> turn_identity option" where
  "slot_step (SlotSet i) _ = Some i"
| "slot_step SlotClear _ = None"
| "slot_step (SlotDone g) cur = (case cur of Some i \<Rightarrow> if ti_generation i = g then None else Some i | None \<Rightarrow> None)"
| "slot_step SlotKeep cur = cur"

fun started :: "slot_event list \<Rightarrow> turn_identity list" where
  "started [] = []"
| "started (SlotSet i # evs) = i # started evs"
| "started (_ # evs) = started evs"

lemma started_append [simp]: "started (a @ b) = started a @ started b"
  by (induction a rule: started.induct) simp_all

lemma active_turn_simps [simp]:
  "active_turn (snd (barge_in_locked api adm tm reason su)) = None"
  "active_turn (begin_shutdown su) = active_turn su"
  "active_turn (task_finish adm tm lifecycle t su) = active_turn su"
  "active_turn (handle_cancel api adm tm h su) = active_turn su"
  "active_turn (bridge_cancel api t su) = active_turn su"
  "active_turn (su\<lparr>su_broker := b\<rparr>) = active_turn su"
  by (simp_all add: active_turn_def barge_in_locked_def begin_shutdown_def task_finish_def handle_cancel_def bridge_cancel_def
      split: option.split)

lemma active_turn_clear: "active_turn (clear_if_current i su) = slot_step (SlotDone (ti_generation i)) (active_turn su)"
  by (simp add: clear_if_current_def active_turn_def split: option.split)

lemma active_turn_step:
  assumes "world_step api adm w ev w'" "token_laws api"
  shows "active_turn (wd_supervisor w') = slot_step ev (active_turn (wd_supervisor w))
    \<and> cw_current (su_generations (wd_supervisor w)) \<le> cw_current (su_generations (wd_supervisor w'))
    \<and> (\<forall>i\<in>set (started [ev]). cw_current (su_generations (wd_supervisor w)) < ti_generation i
         \<and> ti_generation i \<le> cw_current (su_generations (wd_supervisor w')))"
  using assms
proof (induction rule: world_step.induct)
  case (ws_refused w request tm tm' e su')
  from start_launch_fields [OF ws_refused(3,4,2)] show ?case by (simp add: active_turn_def)
next
  case (ws_launch w request tm tm' h t su')
  from start_launch_fields [OF ws_launch(3,4,2)] show ?case by (auto simp: active_turn_def)
next
  case (ws_clear t w)
  then show ?case by (simp add: active_turn_clear) (simp add: clear_if_current_def split: option.split)
qed (simp_all add: barge_in_def, simp_all add: barge_in_locked_def begin_shutdown_def task_finish_def handle_cancel_def bridge_cancel_def
     split: option.split)

lemma active_turn_run:
  "world_run api adm w evs w' \<Longrightarrow> token_laws api \<Longrightarrow>
   active_turn (wd_supervisor w') = fold slot_step evs (active_turn (wd_supervisor w))
   \<and> cw_current (su_generations (wd_supervisor w)) \<le> cw_current (su_generations (wd_supervisor w'))
   \<and> sorted_wrt (<) (map ti_generation (started evs))
   \<and> (\<forall>i\<in>set (started evs). ti_generation i \<le> cw_current (su_generations (wd_supervisor w')))"
proof (induction rule: world_run.induct)
  case (wr_step w evs w1 ev w2)
  note ih = wr_step.IH [OF wr_step.prems]
  note st = active_turn_step [OF wr_step.hyps(2) wr_step.prems]
  have "sorted_wrt (<) (map ti_generation (started evs @ started [ev]))"
    using ih st by (cases ev) (fastforce simp: sorted_wrt_append)+
  moreover have "\<forall>i\<in>set (started evs @ started [ev]). ti_generation i \<le> cw_current (su_generations (wd_supervisor w2))"
    using ih st by (auto dest: order_trans)
  ultimately show ?case using ih st by auto
qed simp

section \<open>Shutdown\<close>

text \<open>After shutdown, when no call of \<open>start_turn\<close> is past its check.\<close>

definition shut :: "('st, 'tok) token_api \<Rightarrow> ('st, 'tok) world \<Rightarrow> bool" where
  "shut api w \<longleftrightarrow> su_shutting_down (wd_supervisor w) \<and> wd_waiting w = [] \<and> wd_gate w = None
     \<and> su_current (wd_supervisor w) = None"

lemma shut_step: "world_step api adm w ev w' \<Longrightarrow> shut api w \<Longrightarrow> shut api w'"
proof (induction rule: world_step.induct)
  case (ws_request request w)
  then show ?case by (simp add: shut_def start_check_def split: sum.splits)
qed (auto simp: shut_def barge_in_def barge_in_locked_def begin_shutdown_def task_finish_def clear_if_current_def
      handle_cancel_def bridge_cancel_def split: option.split)

lemma shut_run: "world_run api adm w evs w' \<Longrightarrow> shut api w \<Longrightarrow> shut api w'"
  by (induction rule: world_run.induct) (auto intro: shut_step)

lemma world_run_trans: "world_run api adm w1 b w2 \<Longrightarrow> world_run api adm w a w1 \<Longrightarrow> world_run api adm w (a @ b) w2"
proof (induction rule: world_run.induct)
  case (wr_step w1 evs wx ev w2)
  then show ?case using world_run.wr_step [of api adm w "a @ evs" wx ev w2] by simp
qed simp

section \<open>A sample run\<close>

lemma launch_run:
  assumes "token_laws api" "wd_gate w = None" "wd_waiting w = [request]" "su_current (wd_supervisor w) = None"
    and "cw_current (su_generations (wd_supervisor w)) + 1 < 2 ^ 64"
  shows "\<exists>w' t evs. world_run api None w evs w' \<and> wd_gate w' = None \<and> wd_tasks w' = t # wd_tasks w
    \<and> su_shutting_down (wd_supervisor w') = su_shutting_down (wd_supervisor w)
    \<and> live api (wd_supervisor w') (tt_generation t)"
proof -
  let ?su = "wd_supervisor w"
  have b: "snd (barge_in_locked api None tm superseded ?su) = ?su" for tm
    using assms(4) by (simp add: barge_in_locked_def)
  let ?w1 = "w\<lparr>wd_gate := Some request, wd_waiting := [], wd_supervisor := ?su\<rparr>"
  have enter: "world_step api None w SlotClear ?w1"
    using ws_enter [of w request api None undefined] assms(2,3) b by simp
  obtain g c where n: "next_generation api (su_generations ?su) = (g, c)" by fastforce
  obtain h t su' where l: "start_launch api None undefined undefined request ?su = (Inr (h, t), su')"
    and su': "su_generations su' = c" "tt_generation t = g" "su_shutting_down su' = su_shutting_down ?su"
    by (simp add: start_launch_def n admit_turn_resources_def Let_def)
  let ?w2 = "?w1\<lparr>wd_gate := None, wd_supervisor := su', wd_tasks := t # wd_tasks ?w1, wd_handles := h # wd_handles ?w1\<rparr>"
  have "world_step api None ?w1 (SlotSet (tt_identity t)) ?w2"
    by (rule ws_launch [where request = request]) (use l assms(5) in simp_all)
  with enter have "world_run api None w ([] @ [SlotClear] @ [SlotSet (tt_identity t)]) ?w2"
    using wr_step [OF wr_step [OF wr_done enter]] by simp
  moreover have "live api su' g"
    using assms(1,5) n next_generation_simps [of api "su_generations ?su"] su'
    by (simp add: gt_is_cancelled_def gt_is_current_def token_laws_def)
  ultimately show ?thesis using su' by (intro exI [of _ ?w2] exI [of _ t]) auto
qed

definition sample_supervisor :: "(nat list, nat) supervisor" where
  "sample_supervisor = \<lparr>su_generations = \<lparr>cw_current = 0, cw_tokens = []\<rparr>, su_current = None, su_shutting_down = False,
     su_broker = initial_broker_state, su_stops = []\<rparr>"

lemma sample_supervisor_built:
  "build_supervisor default_supervisor_config [] initial_broker_state = Some sample_supervisor"
  by (simp add: build_supervisor_def default_supervisor_config_def sample_supervisor_def)

lemma sample_check: "start_check sample_turn_request sample_supervisor = Inr ()"
  by (simp add: start_check_def sample_supervisor_def validate_request_def sample_turn_request_def is_blank_iff lit_def is_whitespace_def)

abbreviation waiting_world :: "(nat list, nat) world" where
  "waiting_world \<equiv> (initial_world sample_supervisor)\<lparr>wd_waiting := [sample_turn_request]\<rparr>"

lemma waiting_run: "world_run counting_api None (initial_world sample_supervisor) [SlotKeep] waiting_world"
  using wr_step [OF wr_done ws_request, of sample_turn_request "initial_world sample_supervisor" counting_api None] sample_check
  by (simp add: initial_world_def)

lemma sample_world_run:
  "\<exists>w t evs. world_run counting_api None (initial_world sample_supervisor) evs w \<and> wd_gate w = None
     \<and> wd_tasks w = [t] \<and> live counting_api (wd_supervisor w) (tt_generation t)"
proof -
  obtain w t evs where "world_run counting_api None waiting_world evs w" "wd_gate w = None" "wd_tasks w = [t]"
    "live counting_api (wd_supervisor w) (tt_generation t)"
    using launch_run [OF counting_api_laws, of waiting_world sample_turn_request]
    by (auto simp: initial_world_def sample_supervisor_def)
  with world_run_trans [OF _ waiting_run] show ?thesis by blast
qed

section \<open>The lease desk\<close>

text \<open>What the supervisor relies on in the broker: a job that is not granted a lease can be withdrawn, a lease is
  held until it is given back, and neither touches the leases of other jobs. Withdrawing needs a
  telemetry reading.\<close>

locale lease_desk =
  fixes grant :: "'tm \<Rightarrow> 'job \<Rightarrow> 'b \<Rightarrow> bool \<times> 'b"
    and withdraw :: "'tm \<Rightarrow> 'id \<Rightarrow> 'b \<Rightarrow> 'b"
    and give_back :: "'tm \<Rightarrow> 'id \<Rightarrow> 'b \<Rightarrow> 'b"
    and holds :: "'b \<Rightarrow> 'id \<Rightarrow> bool"
    and waits :: "'b \<Rightarrow> 'id \<Rightarrow> bool"
    and key :: "'job \<Rightarrow> 'id"
    and readable :: "'tm \<Rightarrow> bool"
  assumes granted: "\<not> waits b (key j) \<Longrightarrow> grant tm j b = (True, b') \<Longrightarrow> holds b' (key j) \<and> \<not> waits b' (key j)"
    and refused: "\<not> holds b (key j) \<Longrightarrow> grant tm j b = (False, b') \<Longrightarrow> \<not> holds b' (key j)"
    and withdrawn: "\<not> waits b (key j) \<Longrightarrow> grant tm j b = (False, b') \<Longrightarrow> readable tm' \<Longrightarrow> \<not> waits (withdraw tm' (key j) b') (key j)"
    and grant_frame: "k \<noteq> key j \<Longrightarrow> holds (snd (grant tm j b)) k = holds b k"
    and withdraw_frame: "holds (withdraw tm k' b) k = holds b k"
    and given_back: "\<not> holds (give_back tm k b) k"
    and give_back_frame: "k' \<noteq> k \<Longrightarrow> holds (give_back tm k b) k' = holds b k'"
    and give_back_waits: "waits (give_back tm k b) k' = waits b k'"
begin

lemma refused_and_withdrawn:
  assumes "\<not> holds b (key j)" "\<not> waits b (key j)" "grant tm j b = (False, b')" "readable tm'"
  shows "\<not> waits (withdraw tm' (key j) b') (key j) \<and> (\<forall>k. holds (withdraw tm' (key j) b') k = holds b k)"
proof -
  have "holds b' k = holds b k" for k
    using refused [OF assms(1,3)] grant_frame [of k j tm b] assms(1,3) by (cases "k = key j") auto
  then show ?thesis using withdrawn [OF assms(2,3,4)] withdraw_frame by simp
qed

lemma lease_cycle:
  assumes "\<not> holds b (key j)" "\<not> waits b (key j)" "grant tm j b = (True, b')"
  shows "holds b' (key j) \<and> \<not> waits (give_back tm' (key j) b') (key j) \<and> (\<forall>k. holds (give_back tm' (key j) b') k = holds b k)"
proof -
  have "holds (give_back tm' (key j) b') k = holds b k" for k
    using given_back [of tm' "key j" b'] give_back_frame [of k "key j" tm' b'] grant_frame [of k j tm b] assms(1,3)
    by (cases "k = key j") auto
  then show ?thesis using granted [OF assms(2,3)] give_back_waits by simp
qed

end

definition desk_grant :: "broker_config \<Rightarrow> telemetry_reading \<Rightarrow> resource_job \<Rightarrow> broker_state \<Rightarrow> bool \<times> broker_state" where
  "desk_grant cfg tm job st =
     (case submit cfg tm job st of (Inl _, st') \<Rightarrow> (False, st') | (Inr sub, st') \<Rightarrow> (sb_lease sub \<noteq> None, st'))"

definition desk_withdraw :: "broker_config \<Rightarrow> telemetry_reading \<Rightarrow> rstr \<Rightarrow> broker_state \<Rightarrow> broker_state" where
  "desk_withdraw cfg tm k st = snd (cancel cfg tm k (lit ''turn start requires immediate admission'') st)"

definition desk_give_back :: "broker_config \<Rightarrow> completion_status \<Rightarrow> telemetry_reading \<Rightarrow> rstr \<Rightarrow> broker_state \<Rightarrow> broker_state" where
  "desk_give_back cfg status tm k st = finish_lease cfg tm k no_actual_usage False status st"

definition desk_holds :: "broker_state \<Rightarrow> rstr \<Rightarrow> bool" where
  "desk_holds st k \<longleftrightarrow> hm_get (bs_active st) k \<noteq> None"

definition desk_waits :: "broker_state \<Rightarrow> rstr \<Rightarrow> bool" where
  "desk_waits st k \<longleftrightarrow> list_ex (\<lambda>q. rj_job_id (qr_job q) = k) (bs_queued st)"

definition desk_readable :: "telemetry_reading \<Rightarrow> bool" where
  "desk_readable tm \<longleftrightarrow> (\<exists>s. tl_snapshot tm = Inr s)"

lemma desk_holds_holders: "desk_holds st k \<longleftrightarrow> hm_get (holders st) k \<noteq> None"
  by (simp add: desk_holds_def hm_get_holders)

lemma desk_not_held: "hm_get (bs_active st) k = None \<longleftrightarrow> \<not> desk_holds st k"
  by (simp add: desk_holds_def)

lemma job_id_in_use_desk: "job_id_in_use k st \<longleftrightarrow> desk_holds st k \<or> desk_waits st k"
  by (simp add: job_id_in_use_def desk_holds_def desk_waits_def)

text \<open>The queue and the leases after a submission.\<close>

lemma submit_locked_desk:
  assumes "submit_locked cfg s job st = (sub, st')"
  shows "case sb_lease sub of
      Some l \<Rightarrow> (\<exists>t. holders st' = hm_insert (rj_job_id job) (job, t) (holders st)) \<and> set (bs_queued st') \<subseteq> set (bs_queued st)
    | None \<Rightarrow> holders st' = holders st \<and> (set (bs_queued st') \<subseteq> set (bs_queued st)
        \<or> (\<exists>qs q. bs_queued st' = qs @ [q] \<and> set qs \<subseteq> set (bs_queued st) \<and> qr_job q = job))"
proof -
  have e0: "sub = fst (submit_locked cfg s job st)" "st' = snd (submit_locked cfg s job st)" using assms by simp_all
  note sub = supersede_queue_subset [of cfg s job st]
  show ?thesis
  proof (cases rule: submit_locked_cases [of job st cfg s])
    case (admitted t oc)
    have "holders (supersede_queued cfg s job st) = holders st" by (rule holders_cong) simp
    then show ?thesis unfolding e0 [unfolded admitted(4)] using sub by auto
  next
    case (refused st0 oc r)
    note e = e0 [unfolded refused(3)]
    have "holders st' = holders st" unfolding e by (rule holders_cong) (use refused(1) in auto)
    then show ?thesis unfolding e using refused(1) sub by auto
  next
    case queued
    note e = e0 [unfolded queued(4)]
    have "holders st' = holders st" unfolding e by (rule holders_cong) simp
    then show ?thesis unfolding e using sub by auto
  qed
qed

lemma submit_desk:
  assumes "submit cfg tm job st = (r, st')"
  shows "case r of
      Inl _ \<Rightarrow> st' = st
    | Inr sub \<Rightarrow> (case sb_lease sub of
        Some l \<Rightarrow> (\<exists>t. holders st' = hm_insert (rj_job_id job) (job, t) (holders st)) \<and> set (bs_queued st') \<subseteq> set (bs_queued st)
      | None \<Rightarrow> holders st' = holders st \<and> (set (bs_queued st') \<subseteq> set (bs_queued st)
          \<or> (\<exists>qs q. bs_queued st' = qs @ [q] \<and> set qs \<subseteq> set (bs_queued st) \<and> qr_job q = job)))"
proof (cases r)
  case (Inl e)
  then show ?thesis using assms by (auto simp: submit_def split: sum.splits prod.splits)
next
  case (Inr sub)
  with assms obtain s a where "submit_locked cfg s job (observe cfg s a st) = (sub, st')"
    by (auto simp: submit_def case_prod_unfold Let_def split: sum.splits)
  from submit_locked_desk [OF this] Inr show ?thesis by (auto split: option.splits)
qed

lemma remove_first_waits:
  "\<forall>q\<in>set qs. \<not> P q \<Longrightarrow> P q \<Longrightarrow> remove_first P (qs @ [q]) = qs"
  by (induction qs) auto

lemma cancel_waits:
  assumes "tl_snapshot tm = Inr s" "qs = bs_queued st"
    and "(\<forall>q\<in>set qs. rj_job_id (qr_job q) \<noteq> k)
      \<or> (\<exists>qs' q. qs = qs' @ [q] \<and> (\<forall>q\<in>set qs'. rj_job_id (qr_job q) \<noteq> k) \<and> rj_job_id (qr_job q) = k)"
  shows "\<not> desk_waits (snd (cancel cfg tm k reason st)) k"
proof (cases "\<forall>q\<in>set qs. rj_job_id (qr_job q) \<noteq> k")
  case True
  then have "find (\<lambda>q. rj_job_id (qr_job q) = k) (bs_queued st) = None" using assms(2) by (simp add: find_None_iff)
  with True assms(1,2) show ?thesis
    by (auto simp: cancel_def desk_waits_def list_ex_iff split: option.split)
next
  case False
  with assms(3) obtain qs' q where q: "qs = qs' @ [q]" "\<forall>q\<in>set qs'. rj_job_id (qr_job q) \<noteq> k" "rj_job_id (qr_job q) = k" by blast
  have "find (\<lambda>q. rj_job_id (qr_job q) = k) (bs_queued st) \<noteq> None" using q assms(2) by (auto simp: find_None_iff)
  then obtain q0 where "find (\<lambda>q. rj_job_id (qr_job q) = k) (bs_queued st) = Some q0" by auto
  moreover have "remove_first (\<lambda>q. rj_job_id (qr_job q) = k) (bs_queued st) = qs'"
    using q assms(2) remove_first_waits [of qs' "\<lambda>q. rj_job_id (qr_job q) = k" q] by simp
  ultimately show ?thesis using q assms(1)
    by (auto simp: cancel_def desk_waits_def list_ex_iff Let_def)
qed

lemma holders_cancel: "holders (snd (cancel cfg tm k reason st)) = holders st"
proof -
  have "holders (st\<lparr>bs_active := hm_insert k (a\<lparr>ac_cancelled_by_broker := True\<rparr>) (bs_active st)\<rparr>) = holders st"
    if "hm_get (bs_active st) k = Some a" for a
    by (rule holders_update [OF that]) simp_all
  moreover have "holders (push_diagnostic cfg d st') = holders st'" "holders (push_admission cfg d' st') = holders st'"
    "holders (st'\<lparr>bs_queued := q\<rparr>) = holders st'" for d d' st' q
    by (rule holders_cong; simp)+
  ultimately show ?thesis by (auto simp: cancel_def Let_def split: sum.split option.split)
qed

lemma holders_finish: "holders (finish_lease cfg tm k actual measured status st) = hm_remove k (holders st)"
proof (cases "hm_get (bs_active st) k")
  case None
  then have "hm_get (holders st) k = None" by (simp add: hm_get_holders)
  then have "hm_remove k (holders st) = holders st" by (rule hm_remove_absent)
  with None show ?thesis by (simp add: finish_lease_def)
next
  case (Some a)
  have "holders (finish_lease cfg tm k actual measured status st) = holders (st\<lparr>bs_active := hm_remove k (bs_active st)\<rparr>)"
    by (rule holders_cong) (simp add: Some finish_lease_def Let_def)
  then show ?thesis by (simp add: holders_remove)
qed

lemma queued_finish: "bs_queued (finish_lease cfg tm k actual measured status st) = bs_queued st"
  by (simp add: finish_lease_def Let_def split: option.split)

lemma desk_grant_cases:
  assumes "desk_grant cfg tm job st = (b, st')" "\<not> desk_waits st (rj_job_id job)"
  shows "b \<Longrightarrow> (\<exists>t. holders st' = hm_insert (rj_job_id job) (job, t) (holders st)) \<and> \<not> desk_waits st' (rj_job_id job)"
    and "\<not> b \<Longrightarrow> holders st' = holders st"
    and "\<not> b \<Longrightarrow> tl_snapshot tm' = Inr s \<Longrightarrow> \<not> desk_waits (desk_withdraw cfg tm' (rj_job_id job) st') (rj_job_id job)"
proof -
  obtain r where r: "submit cfg tm job st = (r, st')" and b: "b \<longleftrightarrow> (\<exists>sub l. r = Inr sub \<and> sb_lease sub = Some l)"
    using assms(1) by (auto simp: desk_grant_def split: prod.splits sum.splits)
  note d = submit_desk [OF r]
  have fresh: "\<forall>q\<in>set (bs_queued st). rj_job_id (qr_job q) \<noteq> rj_job_id job"
    using assms(2) by (auto simp: desk_waits_def list_ex_iff)
  show "b \<Longrightarrow> (\<exists>t. holders st' = hm_insert (rj_job_id job) (job, t) (holders st)) \<and> \<not> desk_waits st' (rj_job_id job)"
    using d b fresh by (auto simp: desk_waits_def list_ex_iff subset_iff)
  show "\<not> b \<Longrightarrow> holders st' = holders st" using d b by (auto split: sum.splits option.splits)
  assume nb: "\<not> b" and s: "tl_snapshot tm' = Inr s"
  have "set (bs_queued st') \<subseteq> set (bs_queued st)
      \<or> (\<exists>qs q. bs_queued st' = qs @ [q] \<and> set qs \<subseteq> set (bs_queued st) \<and> qr_job q = job)"
    using d b nb by (auto split: sum.splits option.splits)
  with fresh have "(\<forall>q\<in>set (bs_queued st'). rj_job_id (qr_job q) \<noteq> rj_job_id job)
      \<or> (\<exists>qs q. bs_queued st' = qs @ [q] \<and> (\<forall>q\<in>set qs. rj_job_id (qr_job q) \<noteq> rj_job_id job) \<and> rj_job_id (qr_job q) = rj_job_id job)"
    by blast
  from cancel_waits [OF s refl this] show "\<not> desk_waits (desk_withdraw cfg tm' (rj_job_id job) st') (rj_job_id job)"
    by (simp add: desk_withdraw_def)
qed

lemma desk_grant_frame: "k \<noteq> rj_job_id job \<Longrightarrow> desk_holds (snd (desk_grant cfg tm job st)) k = desk_holds st k"
proof -
  assume k: "k \<noteq> rj_job_id job"
  obtain r st' where r: "submit cfg tm job st = (r, st')" by fastforce
  from submit_desk [OF r] k r show ?thesis
    by (auto simp: desk_grant_def desk_holds_holders split: sum.splits option.splits)
qed

interpretation broker_desk: lease_desk "desk_grant cfg" "desk_withdraw cfg" "desk_give_back cfg status" desk_holds desk_waits rj_job_id desk_readable
  for cfg status
proof unfold_locales
  fix b j tm b'
  show "\<not> desk_waits b (rj_job_id j) \<Longrightarrow> desk_grant cfg tm j b = (True, b') \<Longrightarrow>
      desk_holds b' (rj_job_id j) \<and> \<not> desk_waits b' (rj_job_id j)"
    using desk_grant_cases(1) by (fastforce simp: desk_holds_holders)
  show "\<not> desk_holds b (rj_job_id j) \<Longrightarrow> desk_grant cfg tm j b = (False, b') \<Longrightarrow> \<not> desk_holds b' (rj_job_id j)"
  proof -
    assume g: "desk_grant cfg tm j b = (False, b')" and h: "\<not> desk_holds b (rj_job_id j)"
    obtain r where r: "submit cfg tm j b = (r, b')" and "\<forall>sub l. r = Inr sub \<longrightarrow> sb_lease sub \<noteq> Some l"
      using g by (auto simp: desk_grant_def split: prod.splits sum.splits)
    with submit_desk [OF r] h show ?thesis by (auto simp: desk_holds_holders split: sum.splits option.splits)
  qed
  show "k \<noteq> rj_job_id j \<Longrightarrow> desk_holds (snd (desk_grant cfg tm j b)) k = desk_holds b k" for k
    by (rule desk_grant_frame)
qed (auto simp: desk_readable_def desk_holds_holders holders_cancel desk_withdraw_def desk_give_back_def
      holders_finish desk_waits_def queued_finish dest: desk_grant_cases(3) [unfolded desk_waits_def desk_withdraw_def])

lemma admit_grant:
  assumes "admit_turn_resources (Some a) tm tm' request i st = (r, st')" and "ta_plan a request i = Inr plan"
    and "desk_grant (ta_config a) tm (turn_job request i plan) st = (b, st1)"
  shows "b \<longleftrightarrow> (\<exists>x. r = Inr x)" "b \<Longrightarrow> st' = st1"
    "\<not> b \<Longrightarrow> (\<exists>e. submit (ta_config a) tm (turn_job request i plan) st = (Inl e, st1)) \<and> st' = st1
       \<or> st' = desk_withdraw (ta_config a) tm' (turn_job_id i) st1"
  using assms by (auto simp: admit_turn_resources_def desk_grant_def desk_withdraw_def split: prod.splits sum.splits option.splits)

lemma turn_job_key [simp]: "rj_job_id (turn_job request i plan) = turn_job_id i"
  by (simp add: turn_job_def)

lemma admit_lease_key:
  assumes "admit_turn_resources (Some a) tm tm' request i st = (Inr (lease, job), st')"
  shows "\<exists>l plan. lease = Some l \<and> rl_job_id l = turn_job_id i \<and> ta_plan a request i = Inr plan"
proof -
  obtain plan sub l st1 where p: "ta_plan a request i = Inr plan" "lease = Some l"
    "submit (ta_config a) tm (turn_job request i plan) st = (Inr sub, st1)" "sb_lease sub = Some l"
    using assms by (fastforce simp: admit_turn_resources_def split: prod.splits sum.splits option.splits)
  have "rl_job_id l = turn_job_id i" by (rule submit_lease_cases [OF p(3,4)]) simp
  with p show ?thesis by blast
qed

text \<open>As long as some job holds the broker's foreground slot, no turn is admitted.\<close>

lemma held_slot_refuses:
  assumes "rv_foreground_turn_job (bs_reservations st) \<noteq> None"
  shows "\<exists>e st'. admit_turn_resources (Some a) tm tm' request i st = (Inl e, st')"
proof (cases "ta_plan a request i")
  case (Inl e)
  then show ?thesis by (simp add: admit_turn_resources_def)
next
  case (Inr plan)
  obtain r st1 where r: "submit (ta_config a) tm (turn_job request i plan) st = (r, st1)" by fastforce
  have "sb_lease sub = None" if "r = Inr sub" for sub
  proof (rule ccontr)
    assume "sb_lease sub \<noteq> None"
    then obtain l where "sb_lease sub = Some l" by blast
    from submit_lease_cases [OF r [unfolded that] this] obtain s acc t oc where
      "select_target (ta_config a) s (supersede_queued (ta_config a) s (turn_job request i plan) (observe (ta_config a) s acc st))
         (turn_job request i plan) True = Some (t, oc)" by metis
    then have "residency_available (supersede_queued (ta_config a) s (turn_job request i plan) (observe (ta_config a) s acc st))
         (turn_job request i plan) t"
      by (auto simp: select_target_def target_admissible_def dest!: find_Some_split)
    then show False using assms by (simp add: residency_available_def turn_job_def)
  qed
  with r Inr show ?thesis by (cases r) (auto simp: admit_turn_resources_def)
qed

section \<open>Properties\<close>

text \<open>
  C3. At most one turn lives. In every interleaving of starts, barge-ins, cancellations, shutdown, turn ends and broker
  activity, at most one running turn is not cancelled, and that turn is the one \<open>active_turn\<close> reports: a turn that
  was superseded, cancelled or barged into has every later output refused by its generation token.
\<close>

theorem one_live_turn:
  assumes "token_laws api" and "build_supervisor cfg tokens broker = Some su0"
    and "world_run api adm (initial_world su0) evs w"
  shows "length (filter (\<lambda>t. \<not> gt_is_cancelled api (su_generations (wd_supervisor w)) (tt_generation t)) (wd_tasks w)) \<le> 1
    \<and> (\<forall>t. t \<in> set (wd_tasks w) \<and> \<not> gt_is_cancelled api (su_generations (wd_supervisor w)) (tt_generation t)
         \<longrightarrow> active_turn (wd_supervisor w) = Some (tt_identity t))"
proof -
  have inv: "world_inv api w" using world_inv_run [OF assms(3,1) world_inv_initial [OF assms(2)]] .
  let ?live = "filter (\<lambda>t. live api (wd_supervisor w) (tt_generation t)) (wd_tasks w)"
  have active: "t \<in> set ?live \<Longrightarrow> active_turn (wd_supervisor w) = Some (tt_identity t)" for t
    using world_invD(1) [OF inv] by (fastforce simp: active_turn_def)
  have "distinct (map gen_of ?live)" using inv by (simp add: world_inv_def Let_def distinct_map_filter)
  moreover have "set (map gen_of ?live) \<subseteq> {cw_current (su_generations (wd_supervisor w))}"
    using live_needs_current world_invD(2) [OF inv] by (fastforce simp: task_ok_def)
  then have "card (set (map gen_of ?live)) \<le> 1"
    using card_mono [OF finite.insertI [OF finite.emptyI]] by fastforce
  ultimately have "length (map gen_of ?live) \<le> 1" by (simp only: distinct_card)
  then show ?thesis using active by simp
qed

theorem one_live_turn_witness:
  "\<exists>w t evs. world_run counting_api None (initial_world sample_supervisor) evs w \<and> wd_tasks w = [t]
     \<and> active_turn (wd_supervisor w) = Some (tt_identity t)"
proof -
  obtain w t evs where run: "world_run counting_api None (initial_world sample_supervisor) evs w" and t: "wd_tasks w = [t]"
    "live counting_api (wd_supervisor w) (tt_generation t)" using sample_world_run by blast
  with one_live_turn [OF counting_api_laws sample_supervisor_built run] show ?thesis by auto
qed

text \<open>
  C31. A barge-in silences the runtime: it reports the turn that was active, asks the audio sink to stop it, and
  afterwards no running turn is left that is not cancelled and no turn is active.
\<close>

theorem barge_in_silences_every_turn:
  assumes "token_laws api" and "build_supervisor cfg tokens broker = Some su0"
    and "world_run api adm (initial_world su0) evs w" and "wd_gate w = None"
    and "barge_in api adm tm reason (wd_supervisor w) = (i, su')"
  shows "i = active_turn (wd_supervisor w) \<and> active_turn su' = None
    \<and> su_stops su' = su_stops (wd_supervisor w) @ (case i of None \<Rightarrow> [] | Some x \<Rightarrow> [x])
    \<and> list_all (\<lambda>t. gt_is_cancelled api (su_generations su') (tt_generation t)) (wd_tasks w)"
proof -
  have inv: "world_inv api w" using world_inv_run [OF assms(3,1) world_inv_initial [OF assms(2)]] .
  have su': "su' = snd (barge_in_locked api adm tm reason (wd_supervisor w))" using assms(5) by (simp add: barge_in_def)
  have "list_all (\<lambda>t. gt_is_cancelled api (su_generations su') (tt_generation t)) (wd_tasks w)"
    using world_inv_barge [OF inv assms(1), of "w\<lparr>wd_supervisor := su'\<rparr>" adm tm reason] su' by (simp add: list_all_iff)
  moreover have "i = active_turn (wd_supervisor w)" "active_turn su' = None"
    "su_stops su' = su_stops (wd_supervisor w) @ (case i of None \<Rightarrow> [] | Some x \<Rightarrow> [x])"
    using assms(5) by (auto simp: barge_in_def barge_in_locked_def active_turn_def split: option.splits)
  ultimately show ?thesis by blast
qed

theorem barge_in_silences_every_turn_witness:
  "\<exists>w t evs. world_run counting_api None (initial_world sample_supervisor) evs w \<and> wd_tasks w = [t]
     \<and> \<not> gt_is_cancelled counting_api (su_generations (wd_supervisor w)) (tt_generation t)
     \<and> gt_is_cancelled counting_api
         (su_generations (snd (barge_in counting_api None sample_telemetry [] (wd_supervisor w)))) (tt_generation t)"
proof -
  obtain w t evs where run: "world_run counting_api None (initial_world sample_supervisor) evs w" and g: "wd_gate w = None"
    and t: "wd_tasks w = [t]" "live counting_api (wd_supervisor w) (tt_generation t)" using sample_world_run by blast
  obtain i su' where b: "barge_in counting_api None sample_telemetry [] (wd_supervisor w) = (i, su')" by fastforce
  from barge_in_silences_every_turn [OF counting_api_laws sample_supervisor_built run g b] b t run show ?thesis by auto
qed

text \<open>
  C6. \<open>active_turn\<close> refines the one-slot specification: over any interleaving, what it reports is what the specification
  computes from the starts, barge-ins and turn ends alone, so a turn that ends late never clears its successor;
  and the turns that start have strictly increasing generations.
\<close>

theorem active_turn_refines_slot:
  assumes "token_laws api" and "build_supervisor cfg tokens broker = Some su0"
    and "world_run api adm (initial_world su0) evs w"
  shows "active_turn (wd_supervisor w) = fold slot_step evs None
    \<and> sorted_wrt (<) (map ti_generation (started evs))"
proof -
  have "active_turn su0 = None" using assms(2) by (auto simp: build_supervisor_def active_turn_def split: if_splits)
  with active_turn_run [OF assms(3,1)] show ?thesis by (simp add: initial_world_def)
qed

theorem active_turn_refines_slot_witness:
  "\<exists>w evs. world_run counting_api None (initial_world sample_supervisor) evs w
     \<and> active_turn (wd_supervisor w) = fold slot_step evs None"
  using active_turn_refines_slot [OF counting_api_laws sample_supervisor_built] sample_world_run by blast

text \<open>
  Shutdown is final once no call of \<open>start_turn\<close> is between its check and the gate: after it, whatever happens, no
  turn becomes active and no running turn is left that is not cancelled.
\<close>

theorem quiescent_shutdown_is_final:
  assumes "token_laws api" and "build_supervisor cfg tokens broker = Some su0"
    and "world_run api adm (initial_world su0) evs w" and "wd_gate w = None" and "wd_waiting w = []"
    and "world_run api adm (w\<lparr>wd_supervisor := shutdown api adm tm (wd_supervisor w)\<rparr>) evs' w'"
  shows "active_turn (wd_supervisor w') = None \<and> su_shutting_down (wd_supervisor w')
    \<and> list_all (\<lambda>t. gt_is_cancelled api (su_generations (wd_supervisor w')) (tt_generation t)) (wd_tasks w')"
proof -
  let ?w = "w\<lparr>wd_supervisor := begin_shutdown (wd_supervisor w)\<rparr>"
  let ?w1 = "w\<lparr>wd_supervisor := shutdown api adm tm (wd_supervisor w)\<rparr>"
  have inv: "world_inv api ?w"
    using world_inv_step [OF ws_shutdown assms(1)] world_inv_run [OF assms(3,1) world_inv_initial [OF assms(2)]] .
  have inv1: "world_inv api ?w1"
    using world_inv_barge [OF inv assms(1), of ?w1 adm tm "lit ''runtime shutdown''"] by (simp add: shutdown_def)
  have "su_current (shutdown api adm tm (wd_supervisor w)) = None" "su_shutting_down (shutdown api adm tm (wd_supervisor w))"
    by (auto simp: shutdown_def begin_shutdown_def barge_in_locked_def split: option.split)
  then have "shut api ?w1" using assms(4,5) by (simp add: shut_def)
  from shut_run [OF assms(6) this] world_invD(1) [OF world_inv_run [OF assms(6,1) inv1]] show ?thesis
    by (fastforce simp: shut_def active_turn_def list_all_iff)
qed

theorem quiescent_shutdown_is_final_witness:
  "active_turn (wd_supervisor
     ((initial_world sample_supervisor)\<lparr>wd_supervisor := shutdown counting_api None sample_telemetry sample_supervisor\<rparr>)) = None"
  using quiescent_shutdown_is_final [OF counting_api_laws sample_supervisor_built wr_done, of None sample_telemetry "[]"]
    wr_done by (fastforce simp: initial_world_def)

text \<open>
  A turn that is refused its resources leaves no work behind: if the telemetry can be read when the job is withdrawn,
  the turn's job is afterwards neither running nor queued, and the set of running jobs is what it was.
\<close>

theorem refused_start_leaves_no_job:
  assumes "admit_turn_resources adm tm tm' request i st = (Inl e, st')" and "\<not> job_id_in_use (turn_job_id i) st"
    and "tl_snapshot tm' = Inr s"
  shows "\<not> job_id_in_use (turn_job_id i) st' \<and> (\<forall>k. hm_get (bs_active st') k = None \<longleftrightarrow> hm_get (bs_active st) k = None)"
proof -
  obtain a where a: "adm = Some a" using assms(1) by (auto simp: admit_turn_resources_def split: option.splits)
  note free = assms(2) [unfolded job_id_in_use_desk de_Morgan_disj]
  show ?thesis
  proof (cases "ta_plan a request i")
    case (Inl err)
    then show ?thesis using assms(1,2) a by (simp add: admit_turn_resources_def)
  next
    case (Inr plan)
    let ?job = "turn_job request i plan"
    obtain b st1 where g: "desk_grant (ta_config a) tm ?job st = (b, st1)" by fastforce
    note ag = admit_grant [OF assms(1) [unfolded a] Inr g]
    have b: "\<not> b" using ag(1) by simp
    have "st' = st \<or> st' = desk_withdraw (ta_config a) tm' (turn_job_id i) st1"
      using ag(3) [OF b] submit_desk [of "ta_config a" tm ?job st] by fastforce
    moreover have "\<not> desk_waits (desk_withdraw (ta_config a) tm' (turn_job_id i) st1) (turn_job_id i)
        \<and> (\<forall>k. desk_holds (desk_withdraw (ta_config a) tm' (turn_job_id i) st1) k = desk_holds st k)"
      using broker_desk.refused_and_withdrawn [of st ?job "ta_config a" tm st1 tm'] free g b assms(3)
      by (auto simp: desk_readable_def)
    ultimately show ?thesis using free by (auto simp only: job_id_in_use_desk desk_not_held)
  qed
qed

definition sample_turn_admission :: turn_admission where
  "sample_turn_admission = \<lparr>ta_config = sample_broker_config,
     ta_plan = (\<lambda>_ _. Inr \<lparr>tp_primary = sample_target, tp_fallbacks = [], tp_deadline_ms = None, tp_priority = Critical,
        tp_drop_policy = Never\<rparr>)\<rparr>"

lemma sample_running_free: "\<not> job_id_in_use (turn_job_id sample_identity) sample_running"
  using sample_running_fields by (simp add: job_id_in_use_def turn_job_id_def lit_def)

theorem refused_start_leaves_no_job_witness:
  "\<exists>e st'. admit_turn_resources (Some sample_turn_admission) sample_telemetry sample_telemetry sample_turn_request sample_identity
      sample_running = (Inl e, st') \<and> \<not> job_id_in_use (turn_job_id sample_identity) st'"
proof -
  have "rv_foreground_turn_job (bs_reservations sample_running) \<noteq> None" using sample_running_fields by simp
  from held_slot_refuses [OF this] obtain e st' where
    r: "admit_turn_resources (Some sample_turn_admission) sample_telemetry sample_telemetry sample_turn_request sample_identity
      sample_running = (Inl e, st')" by blast
  have "tl_snapshot sample_telemetry = Inr sample_snapshot" by (simp add: sample_telemetry_def)
  from refused_start_leaves_no_job [OF r sample_running_free this] r show ?thesis by blast
qed

text \<open>
  A turn's lease lives exactly as long as its task: an admitted turn runs under its own job id, and when its task
  ends, with whatever outcome, that job is neither running nor queued and every other job holds what it held.
\<close>

theorem turn_lease_is_given_back:
  assumes "admit_turn_resources (Some a) tm tm' request i st = (Inr (lease, job), st1)"
    and "\<not> job_id_in_use (turn_job_id i) st" and "tt_lease t = lease" and "su_broker su = st1"
  shows "hm_get (bs_active st1) (turn_job_id i) \<noteq> None
    \<and> \<not> job_id_in_use (turn_job_id i) (su_broker (task_finish (Some a) tm2 lc t su))
    \<and> (\<forall>k. hm_get (bs_active (su_broker (task_finish (Some a) tm2 lc t su))) k = None \<longleftrightarrow> hm_get (bs_active st) k = None)"
proof -
  from admit_lease_key [OF assms(1)] obtain l plan where
    l: "lease = Some l" "rl_job_id l = turn_job_id i" "ta_plan a request i = Inr plan" by blast
  let ?job = "turn_job request i plan"
  obtain b st' where g: "desk_grant (ta_config a) tm ?job st = (b, st')" by fastforce
  have "b" "st' = st1" using admit_grant [OF assms(1) l(3) g] by auto
  moreover have "su_broker (task_finish (Some a) tm2 lc t su) = desk_give_back (ta_config a) (completion_of lc) tm2 (turn_job_id i) st1"
    using assms(3,4) l by (simp add: task_finish_def lease_complete_unmeasured_def desk_give_back_def)
  moreover note broker_desk.lease_cycle [of st ?job "ta_config a" tm st1 "completion_of lc" tm2]
  ultimately show ?thesis using g assms(2) by (auto simp only: job_id_in_use_desk desk_not_held turn_job_key)
qed

lemma sample_turn_admitted:
  "\<exists>x st1. admit_turn_resources (Some sample_turn_admission) sample_telemetry sample_telemetry sample_turn_request sample_identity
     initial_broker_state = (Inr x, st1)"
proof -
  let ?plan = "\<lparr>tp_primary = sample_target, tp_fallbacks = [], tp_deadline_ms = None, tp_priority = Critical, tp_drop_policy = Never\<rparr>"
  let ?job = "turn_job sample_turn_request sample_identity ?plan"
  let ?st = "initial_broker_state\<lparr>bs_green_samples := 1\<rparr>"
  have v: "validate_job ?job = Inr ()"
    by (simp add: validate_job_def turn_job_def turn_job_id_def sample_target_def is_blank_iff lit_def is_whitespace_def)
  have sup: "supersede_queued sample_broker_config sample_snapshot ?job ?st = ?st"
    by (simp add: supersede_queued_def turn_job_def)
  have sel: "select_target sample_broker_config sample_snapshot ?st ?job True = Some (sample_target, AdmittedPrimary)"
    by (simp add: select_target_def job_targets_def target_admissible_def bound_target_def allows_def turn_job_def turn_privacy_def
      sample_turn_request_def is_target_quarantined_def target_fits_def effective_job_estimate_def residency_available_def vram_ceiling_def
      committed_vram_def committed_ram_def protected_gpu_vram_used_def u64_max_def
      protected_system_ram_used_def broker_reserved_gpu_usage_def ledger_resident_def sat_add_def
      initial_broker_state_def sample_broker_defs)
  have "\<not> job_id_in_use (rj_job_id ?job) ?st" by (simp add: job_id_in_use_def initial_broker_state_def)
  moreover have "drop_before_admission sample_broker_config sample_snapshot ?job ?st = None"
    by (simp add: drop_before_admission_def is_stale_def turn_job_def)
  ultimately obtain sub st1 l where "submit sample_broker_config sample_telemetry ?job initial_broker_state = (Inr sub, st1)"
    "sb_lease sub = Some l"
    using submit_admits [OF v, of sample_telemetry sample_snapshot no_gpu_usage sample_broker_config initial_broker_state
        sample_target AdmittedPrimary] sel sup by (auto simp: sample_observe)
  then show ?thesis by (simp add: admit_turn_resources_def sample_turn_admission_def)
qed

theorem turn_lease_is_given_back_witness:
  "\<exists>lease job st1. admit_turn_resources (Some sample_turn_admission) sample_telemetry sample_telemetry sample_turn_request
      sample_identity initial_broker_state = (Inr (lease, job), st1)
    \<and> \<not> job_id_in_use (turn_job_id sample_identity)
        (su_broker (task_finish (Some sample_turn_admission) sample_telemetry LcCompleted
           \<lparr>tt_identity = sample_identity, tt_generation = \<lparr>gt_generation = 7, gt_cancellation = 0\<rparr>, tt_lease = lease\<rparr>
           (sample_supervisor\<lparr>su_broker := st1\<rparr>)))"
proof -
  obtain lease job st1 where a: "admit_turn_resources (Some sample_turn_admission) sample_telemetry sample_telemetry sample_turn_request
     sample_identity initial_broker_state = (Inr (lease, job), st1)"
    using sample_turn_admitted by fastforce
  have free: "\<not> job_id_in_use (turn_job_id sample_identity) initial_broker_state"
    by (simp add: job_id_in_use_def initial_broker_state_def)
  from turn_lease_is_given_back [OF a free, of "\<lparr>tt_identity = sample_identity,
      tt_generation = \<lparr>gt_generation = 7, gt_cancellation = 0\<rparr>, tt_lease = lease\<rparr>" "sample_supervisor\<lparr>su_broker := st1\<rparr>"] a
  show ?thesis by auto
qed

section \<open>Admission and routing\<close>

lemma turn_privacy_permits: "allows (turn_privacy request) d \<longleftrightarrow> request_permits request d"
  by (auto simp: allows_def turn_privacy_def request_permits_def)

lemma turn_privacy_fallback:
  "allows_fallback (turn_privacy request) primary d \<longleftrightarrow> request_permits request d
     \<and> (is_networked (pd_location d) \<and> \<not> is_networked (pd_location primary) \<longrightarrow> tr_allow_local_to_cloud_fallback request)"
  by (auto simp: allows_fallback_def turn_privacy_permits is_local_def) (auto simp: turn_privacy_def)

lemma evaluate_permits: "evaluate (privacy_from_request request) d = Allowed \<longleftrightarrow> request_permits request d"
  using evaluate_request [of request d] by (simp add: plan_from_request_def)

text \<open>
  C39. A turn that is admitted through the broker runs on a compute target that the routing policy of its own request allows: the
  lease is for the turn's job and for the primary or a fallback target of the host's plan, routing allows the provider of
  that target (it is not networked or the request is online, not fully local and names it; it does not retain data or the request
  allows that), and a networked fallback for a local primary needs the consent of the request. If the request allows
  fallback between providers at all, routing also allows the transition from the primary to the target.
\<close>

theorem admitted_turn_follows_routing:
  assumes "admit_turn_resources (Some a) tm tm' request i st = (Inr (Some l, job), st')"
  shows "\<exists>plan t. ta_plan a request i = Inr plan \<and> t \<in> set (tp_primary plan # tp_fallbacks plan)
    \<and> l = \<lparr>rl_job_id = turn_job_id i, rl_target_id = ct_target_id t\<rparr> \<and> job = Some (turn_job_id i)
    \<and> evaluate (privacy_from_request request) (ct_provider t) = Allowed \<and> request_permits request (ct_provider t)
    \<and> (t \<noteq> tp_primary plan \<longrightarrow>
         (is_networked (pd_location (ct_provider t)) \<and> \<not> is_networked (pd_location (ct_provider (tp_primary plan)))
            \<longrightarrow> tr_allow_local_to_cloud_fallback request)
         \<and> (tr_allow_provider_fallback request
            \<longrightarrow> allows_transition (fallback_from_request request) (ct_provider (tp_primary plan)) (ct_provider t)))"
proof -
  from assms obtain plan sub where plan: "ta_plan a request i = Inr plan"
    and sub: "submit (ta_config a) tm (turn_job request i plan) st = (Inr sub, st')" "sb_lease sub = Some l"
    and job: "job = Some (turn_job_id i)"
    by (auto simp: admit_turn_resources_def split: sum.splits prod.splits option.splits)
  let ?job = "turn_job request i plan"
  have fields: "rj_primary ?job = tp_primary plan" "rj_fallbacks ?job = tp_fallbacks plan" "rj_privacy ?job = turn_privacy request"
    by (simp_all add: turn_job_def)
  from sub obtain s acc t oc where
    sel: "select_target (ta_config a) s (supersede_queued (ta_config a) s ?job (observe (ta_config a) s acc st)) ?job True = Some (t, oc)"
    and lease: "l = \<lparr>rl_job_id = turn_job_id i, rl_target_id = ct_target_id t\<rparr>"
    by (auto elim: submit_lease_cases)
  note adm = target_admissibleD [OF select_target_SomeD(2) [OF sel]]
  have mem: "t = tp_primary plan \<and> oc = AdmittedPrimary \<or> t \<in> set (tp_fallbacks plan) \<and> oc = AdmittedFallback"
    using job_targets_cases [OF select_target_SomeD(1) [OF sel]] by (simp add: fields)
  have ok: "request_permits request (ct_provider t)"
    "t \<noteq> tp_primary plan \<longrightarrow> is_networked (pd_location (ct_provider t)) \<and> \<not> is_networked (pd_location (ct_provider (tp_primary plan)))
      \<longrightarrow> tr_allow_local_to_cloud_fallback request"
    using mem adm(3,4) by (auto simp: fields turn_privacy_permits turn_privacy_fallback)
  then have "t \<noteq> tp_primary plan \<longrightarrow> tr_allow_provider_fallback request
      \<longrightarrow> allows_transition (fallback_from_request request) (ct_provider (tp_primary plan)) (ct_provider t)"
    by (auto simp: allows_transition_def fallback_from_request_def is_local_def)
  moreover have "t \<in> set (tp_primary plan # tp_fallbacks plan)" using mem by auto
  ultimately show ?thesis using plan lease job ok by (auto simp: evaluate_permits)
qed

theorem admitted_turn_follows_routing_witness:
  "\<exists>l job st1. admit_turn_resources (Some sample_turn_admission) sample_telemetry sample_telemetry sample_turn_request
      sample_identity initial_broker_state = (Inr (Some l, job), st1) \<and> job = Some (turn_job_id sample_identity)
    \<and> rl_target_id l = ct_target_id sample_target"
proof -
  obtain l job st1 where a: "admit_turn_resources (Some sample_turn_admission) sample_telemetry sample_telemetry sample_turn_request
     sample_identity initial_broker_state = (Inr (Some l, job), st1)"
    using sample_turn_admitted by (fastforce simp: admit_turn_resources_def split: sum.splits prod.splits option.splits)
  from admitted_turn_follows_routing [OF a] a show ?thesis by (auto simp: sample_turn_admission_def)
qed

section \<open>Where the supervisor does not do what it means to\<close>

text \<open>
  A newer turn cannot supersede an admitted one that is still running. The barge-in only asks the broker to cancel
  the old job; the foreground slot stays reserved until the old task ends and completes its lease, and the new
  turn's job is submitted before that can happen. So the start is refused, and the old turn
  is cancelled all the same: no turn is left.
\<close>

theorem superseding_start_is_refused:
  assumes "su_current su = Some active" and "rv_foreground_turn_job (bs_reservations (su_broker su)) \<noteq> None"
    and "token_laws api"
  shows "(\<exists>e. fst (start_turn api (Some a) tm1 tm2 tm3 request su) = Inl e)
    \<and> (start_check request su = Inr () \<longrightarrow> active_turn (snd (start_turn api (Some a) tm1 tm2 tm3 request su)) = None)"
proof (cases "start_check request su")
  case (Inl e)
  then show ?thesis by (simp add: start_turn_def)
next
  case (Inr u)
  let ?su = "snd (barge_in_locked api (Some a) tm1 superseded su)"
  have same: "bs_reservations (snd (cancel cfg tm k reason st)) = bs_reservations st" for cfg tm k reason st
    by (simp add: cancel_def Let_def split: sum.split option.split)
  have slot: "rv_foreground_turn_job (bs_reservations (su_broker ?su)) \<noteq> None"
    using assms(1,2) by (simp add: barge_in_locked_def same split: option.split)
  have none: "su_current ?su = None" using assms(1) by (simp add: barge_in_locked_def)
  obtain g c where n: "next_generation api (su_generations ?su) = (g, c)" by fastforce
  obtain e b where "admit_turn_resources (Some a) tm2 tm3 request \<lparr>ti_session_id = tr_session_id request,
      ti_turn_id = tr_turn_id request, ti_generation = gt_generation g\<rparr> (su_broker ?su) = (Inl e, b)"
    using held_slot_refuses [OF slot] by blast
  then show ?thesis using Inr n none by (simp add: start_turn_def start_launch_def Let_def active_turn_def)
qed

text \<open>
  A turn can start after shutdown: \<open>start_turn\<close> tests the shutdown flag before it waits for the gate and not again, so
  a call that passed the test runs after \<open>shutdown\<close> has barged in.
\<close>

theorem turn_starts_after_shutdown:
  "\<exists>w t evs. world_run counting_api None
       (waiting_world\<lparr>wd_supervisor := shutdown counting_api None sample_telemetry (wd_supervisor waiting_world)\<rparr>) evs w
     \<and> su_shutting_down (wd_supervisor w) \<and> wd_tasks w = [t]
     \<and> \<not> gt_is_cancelled counting_api (su_generations (wd_supervisor w)) (tt_generation t)"
proof -
  let ?w = "waiting_world\<lparr>wd_supervisor := shutdown counting_api None sample_telemetry (wd_supervisor waiting_world)\<rparr>"
  have "wd_gate ?w = None" "wd_waiting ?w = [sample_turn_request]" "su_current (wd_supervisor ?w) = None" "wd_tasks ?w = []"
    "su_shutting_down (wd_supervisor ?w)" "cw_current (su_generations (wd_supervisor ?w)) = 0"
    by (simp_all add: initial_world_def shutdown_def begin_shutdown_def barge_in_locked_def sample_supervisor_def)
  then show ?thesis using launch_run [OF counting_api_laws, of ?w sample_turn_request] by fastforce
qed

text \<open>
  A refused turn's job can stay in the queue: \<open>cancel\<close> does nothing when the telemetry cannot be read, and
  \<open>admit_turn_resources\<close> ignores its result, so a queued job that nobody owns remains.
\<close>

theorem refused_job_stays_queued:
  assumes "ta_plan a request i = Inr plan" and "submit (ta_config a) tm (turn_job request i plan) st = (Inr sub, st1)"
    and "sb_lease sub = None" and "desk_waits st1 (turn_job_id i)" and "tl_snapshot tm' = Inl err"
  shows "\<exists>e st'. admit_turn_resources (Some a) tm tm' request i st = (Inl e, st') \<and> desk_waits st' (turn_job_id i)"
  using assms by (simp add: admit_turn_resources_def cancel_def)

text \<open>
  The broker's context of a turn has no counterpart of \<open>allow_provider_fallback\<close>: with fallback between providers turned off,
  a fallback target of another provider passes the broker although routing refuses the transition to it.
\<close>

theorem admission_ignores_provider_fallback:
  assumes "\<not> tr_allow_provider_fallback request" and "pd_id primary \<noteq> pd_id d" and "request_permits request d"
    and "\<not> is_networked (pd_location d)"
  shows "allows_fallback (turn_privacy request) primary d \<and> \<not> allows_transition (fallback_from_request request) primary d"
  using assms by (simp add: turn_privacy_fallback allows_transition_def fallback_from_request_def)

end
