(* ===== verification/Response_Decoding.thy ===== *)
theory Response_Decoding
  imports Structured_Response
begin

text \<open>
  The tolerant decoder of \<open>structured_response.rs\<close> and the projection of a response onto the effects of
  \<open>types.rs\<close>: an invalid optional part never costs the spoken response, and an accepted response projects
  onto effects that the effects validation accepts unchanged.
\<close>

section \<open>Isolation of optional parts\<close>

lemma decode_isolated_default_valid:
  assumes "validate neutral = Inr ()"
  shows "validate (fst (decode_isolated_default conv validate neutral obj field subsystem)) = Inr ()"
  using assms by (auto simp: decode_isolated_default_def split: option.splits sum.splits)

lemma decode_isolated_optional_valid:
  "fst (decode_isolated_optional js conv validate obj field subsystem) = Some d \<Longrightarrow> validate d = Inr ()"
  by (auto simp: decode_isolated_optional_def split: option.splits sum.splits if_splits)

lemma neutral_parts_valid [simp]:
  "validate_voice_style default_voice_style = Inr ()" "validate_animation p [] = Inr ()"
  "validate_memory p [] = Inr ()" "validate_interruption p BargeInAllowed = Inr ()" "validate_actions p [] = Inr ()"
  by (simp_all add: validate_voice_style_def default_voice_style_def finite_range_def validate_animation_def
      bounded_count_def validate_memory_def validate_interruption_def validate_actions_def)

lemma validate_response_Inr_iff:
  "validate_response p r = Inr () \<longleftrightarrow>
     validate_spoken p (nr_spoken r) = Inr () \<and> (\<forall>e. nr_emotion r = Some e \<longrightarrow> validate_emotion e = Inr ())
     \<and> validate_voice_style (nr_voice_style r) = Inr () \<and> validate_animation p (nr_animation_cues r) = Inr ()
     \<and> validate_memory p (nr_memory_proposals r) = Inr () \<and> validate_interruption p (nr_interruption r) = Inr ()
     \<and> validate_actions p (nr_actions r) = Inr ()"
  by (auto simp: validate_response_def bind_result_Inr_iff split: option.splits)

lemma isolated_response_fields:
  "nr_spoken (fst (isolated_response js p schema t obj)) = t"
  "nr_emotion (fst (isolated_response js p schema t obj)) =
     fst (decode_isolated_optional js (j_emotion js) validate_emotion obj (lit ''emotion'') (lit ''emotion''))"
  "nr_voice_style (fst (isolated_response js p schema t obj)) =
     fst (decode_isolated_default (j_voice_style js) validate_voice_style default_voice_style obj
       (lit ''voice_style'') (lit ''voice_style''))"
  "nr_animation_cues (fst (isolated_response js p schema t obj)) =
     fst (decode_isolated_default (j_animation_cues js) (validate_animation p) [] obj
       (lit ''animation_cues'') (lit ''animation''))"
  "nr_memory_proposals (fst (isolated_response js p schema t obj)) =
     fst (decode_isolated_default (j_memory_proposals js) (validate_memory p) [] obj
       (lit ''memory_proposals'') (lit ''memory''))"
  "nr_interruption (fst (isolated_response js p schema t obj)) =
     fst (decode_isolated_default (j_interruption js) (validate_interruption p) BargeInAllowed obj
       (lit ''interruption_behavior'') (lit ''interruption''))"
  "nr_actions (fst (isolated_response js p schema t obj)) =
     fst (decode_isolated_default (j_actions js) (validate_actions p) [] obj (lit ''actions'') (lit ''actions''))"
  by (simp_all add: isolated_response_def case_prod_beta Let_def)

lemma isolated_response_valid:
  "validate_spoken p t = Inr () \<Longrightarrow> validate_response p (fst (isolated_response js p schema t obj)) = Inr ()"
  by (simp add: validate_response_Inr_iff isolated_response_fields decode_isolated_default_valid
      decode_isolated_optional_valid)

section \<open>Projection onto the effects\<close>

lemma check_all_Inr_iff: "check_all f xs = Inr () \<longleftrightarrow> (\<forall>x\<in>set xs. f x = Inr ())"
  by (induction xs) (auto simp: bind_result_Inr_iff)

lemma validate_text_Inr_iff:
  "validate_text t m f = Inr () \<longleftrightarrow> \<not> is_blank t \<and> blen t \<le> m \<and> \<not> list_ex disallowed_control t"
  by (simp add: validate_text_def)

lemma finite_range_Inr_iff: "finite_range v lo hi f = Inr () \<longleftrightarrow> fp_in_range lo hi v"
  by (auto simp: finite_range_def fp_in_range_finite)

lemma bounded_count_Inr_iff: "bounded_count n m f = Inr () \<longleftrightarrow> n \<le> m"
  by (simp add: bounded_count_def)

lemmas validation_iffs = check_all_Inr_iff validate_text_Inr_iff finite_range_Inr_iff bounded_count_Inr_iff
  bind_result_Inr_iff

lemma validate_emotion_ranges:
  "validate_emotion e = Inr () \<longleftrightarrow>
     fp_in_range (-1) 1 (em_valence e) \<and> fp_in_range 0 1 (em_arousal e) \<and> fp_in_range 0 1 (em_intensity e)"
  by (simp add: validate_emotion_def validation_iffs)

text \<open>The caller's limits are within those of the effects validation, as the default limits are.\<close>

definition policy_within_effects_limits :: "response_policy \<Rightarrow> bool" where
  "policy_within_effects_limits p \<longleftrightarrow> vp_max_memory_text_bytes p \<le> 2000 \<and> vp_max_action_arguments p \<le> 16
     \<and> vp_max_action_value_bytes p \<le> 1000"

lemma memory_projection_kept:
  assumes "validate_memory_item p m = Inr ()" and "policy_within_effects_limits p"
  shows "\<not> memory_proposal_invalid \<lparr>mp_content = mv_content m, mp_confidence = mv_importance m\<rparr>"
  using assms by (auto simp: validate_memory_item_def validation_iffs memory_proposal_invalid_def
      policy_within_effects_limits_def fp_in_range_finite)

lemma action_projection_kept:
  assumes "validate_action p a = Inr ()" and "policy_within_effects_limits p"
  shows "action_proposal_kept (vp_allowed_action_ids p) \<lparr>ap_action = oa_action_id a, ap_arguments = oa_arguments a\<rparr>"
  using assms by (fastforce simp: validate_action_def validation_iffs action_proposal_kept_def list_ex_iff list_all_iff
      policy_within_effects_limits_def split: if_splits prod.splits)

lemma animation_name_kept: "animation_cue_kept (animation_as_str k)"
  by (cases k) (simp_all add: animation_cue_kept_def lit_def is_blank_iff is_whitespace_def len_utf8_def)

section \<open>Properties\<close>

text \<open>Usable parts. A field of the object is usable if its value decodes to a valid part; a part of the response is faithful to the
  field if it is that part, or the neutral value when the field is missing or not usable.\<close>

definition usable :: "('j \<Rightarrow> (rstr, 'a) result) \<Rightarrow> ('a \<Rightarrow> (response_error, unit) result) \<Rightarrow> (rstr \<times> 'j) list \<Rightarrow> rstr \<Rightarrow> 'a \<Rightarrow> bool" where
  "usable conv validate obj field x \<longleftrightarrow> (\<exists>v. map_of obj field = Some v \<and> conv v = Inr x \<and> validate x = Inr ())"

definition faithful_part ::
  "('j \<Rightarrow> (rstr, 'a) result) \<Rightarrow> ('a \<Rightarrow> (response_error, unit) result) \<Rightarrow> 'a \<Rightarrow> (rstr \<times> 'j) list \<Rightarrow> rstr \<Rightarrow> 'a \<Rightarrow> bool" where
  "faithful_part conv validate neutral obj field x \<longleftrightarrow>
     usable conv validate obj field x \<or> (\<forall>y. \<not> usable conv validate obj field y) \<and> x = neutral"

text \<open>The emotion is optional: a missing field and an explicit null both mean none.\<close>

definition given :: "'j json_api \<Rightarrow> (rstr \<times> 'j) list \<Rightarrow> (rstr \<times> 'j) list" where
  "given js obj = filter (\<lambda>(_, v). \<not> j_is_null js v) obj"

definition faithful_response :: "'j json_api \<Rightarrow> response_policy \<Rightarrow> (rstr \<times> 'j) list \<Rightarrow> npc_response \<Rightarrow> bool" where
  "faithful_response js p obj r \<longleftrightarrow>
     (case nr_emotion r of
        Some e \<Rightarrow> usable (j_emotion js) validate_emotion (given js obj) (lit ''emotion'') e
      | None \<Rightarrow> \<forall>e. \<not> usable (j_emotion js) validate_emotion (given js obj) (lit ''emotion'') e)
     \<and> faithful_part (j_voice_style js) validate_voice_style default_voice_style obj (lit ''voice_style'') (nr_voice_style r)
     \<and> faithful_part (j_animation_cues js) (validate_animation p) [] obj (lit ''animation_cues'') (nr_animation_cues r)
     \<and> faithful_part (j_memory_proposals js) (validate_memory p) [] obj (lit ''memory_proposals'') (nr_memory_proposals r)
     \<and> faithful_part (j_interruption js) (validate_interruption p) BargeInAllowed obj (lit ''interruption_behavior'') (nr_interruption r)
     \<and> faithful_part (j_actions js) (validate_actions p) [] obj (lit ''actions'') (nr_actions r)"

text \<open>A part is unusable if its field is there and does not decode to a valid value.\<close>

definition unusable :: "('j \<Rightarrow> (rstr, 'a) result) \<Rightarrow> ('a \<Rightarrow> (response_error, unit) result) \<Rightarrow> (rstr \<times> 'j) list \<Rightarrow> rstr \<Rightarrow> bool" where
  "unusable conv validate obj field \<longleftrightarrow> map_of obj field \<noteq> None \<and> (\<forall>x. \<not> usable conv validate obj field x)"

definition reports :: "response_issue list \<Rightarrow> string \<Rightarrow> bool" where
  "reports issues subsystem \<longleftrightarrow> (\<exists>reason. OptionalSubsystemNeutralized (lit subsystem) reason \<in> set issues)"

definition honest_issues :: "'j json_api \<Rightarrow> response_policy \<Rightarrow> (rstr \<times> 'j) list \<Rightarrow> response_issue list \<Rightarrow> bool" where
  "honest_issues js p obj issues \<longleftrightarrow>
     (reports issues ''emotion'' \<longleftrightarrow> unusable (j_emotion js) validate_emotion (given js obj) (lit ''emotion''))
     \<and> (reports issues ''voice_style'' \<longleftrightarrow> unusable (j_voice_style js) validate_voice_style obj (lit ''voice_style''))
     \<and> (reports issues ''animation'' \<longleftrightarrow> unusable (j_animation_cues js) (validate_animation p) obj (lit ''animation_cues''))
     \<and> (reports issues ''memory'' \<longleftrightarrow> unusable (j_memory_proposals js) (validate_memory p) obj (lit ''memory_proposals''))
     \<and> (reports issues ''interruption'' \<longleftrightarrow>
          unusable (j_interruption js) (validate_interruption p) obj (lit ''interruption_behavior''))
     \<and> (reports issues ''actions'' \<longleftrightarrow> unusable (j_actions js) (validate_actions p) obj (lit ''actions''))"

lemma isolated_default_faithful:
  "faithful_part conv validate neutral obj field (fst (decode_isolated_default conv validate neutral obj field subsystem))"
  by (auto simp: faithful_part_def usable_def decode_isolated_default_def split: option.splits sum.splits)

lemma reports_simps [simp]:
  "reports (xs @ ys) s \<longleftrightarrow> reports xs s \<or> reports ys s" "\<not> reports (map UnsupportedTopLevelField fs) s"
  by (auto simp: reports_def)

lemma isolated_default_issues:
  "reports (snd (decode_isolated_default conv validate neutral obj field (lit subsystem))) s
     \<longleftrightarrow> s = subsystem \<and> unusable conv validate obj field"
  "UnsupportedTopLevelField f \<notin> set (snd (decode_isolated_default conv validate neutral obj field name))"
  by (auto simp: reports_def unusable_def usable_def decode_isolated_default_def split: option.splits sum.splits)

lemma distinct_given: "distinct (map fst obj) \<Longrightarrow> map_of (given js obj) k =
    (case map_of obj k of None \<Rightarrow> None | Some v \<Rightarrow> if j_is_null js v then None else Some v)"
proof (induction obj)
  case (Cons e obj)
  have "map_of (filter Q obj) k = None" if "k \<notin> fst ` set obj" for Q
    using that by (force simp: map_of_eq_None_iff)
  with Cons show ?case by (cases e) (auto simp: given_def map_of_eq_None_iff split: option.splits)
qed (simp add: given_def)

lemma isolated_optional_faithful:
  assumes "distinct (map fst obj)"
  shows "case fst (decode_isolated_optional js conv validate obj field subsystem) of
      Some e \<Rightarrow> usable conv validate (given js obj) field e
    | None \<Rightarrow> \<forall>e. \<not> usable conv validate (given js obj) field e"
  by (auto simp: usable_def decode_isolated_optional_def distinct_given [OF assms] split: option.splits sum.splits if_splits)

lemma isolated_optional_issues:
  assumes "distinct (map fst obj)"
  shows "reports (snd (decode_isolated_optional js conv validate obj field (lit subsystem))) s
      \<longleftrightarrow> s = subsystem \<and> unusable conv validate (given js obj) field"
    and "UnsupportedTopLevelField f \<notin> set (snd (decode_isolated_optional js conv validate obj field name))"
  by (auto simp: reports_def unusable_def usable_def decode_isolated_optional_def distinct_given [OF assms]
      split: option.splits sum.splits if_splits)

lemma isolated_faithful:
  assumes "distinct (map fst obj)"
  shows "faithful_response js p obj (fst (isolated_response js p schema t obj))"
  using isolated_optional_faithful [OF assms, where js = js and conv = "j_emotion js" and validate = validate_emotion
      and field = "lit ''emotion''" and subsystem = "lit ''emotion''"]
  by (simp add: faithful_response_def isolated_response_fields isolated_default_faithful)

lemma isolated_issues:
  "snd (isolated_response js p schema t obj) = map UnsupportedTopLevelField (unsupported_top_level_fields obj)
     @ snd (decode_isolated_optional js (j_emotion js) validate_emotion obj (lit ''emotion'') (lit ''emotion''))
     @ snd (decode_isolated_default (j_voice_style js) validate_voice_style default_voice_style obj (lit ''voice_style'') (lit ''voice_style''))
     @ snd (decode_isolated_default (j_animation_cues js) (validate_animation p) [] obj (lit ''animation_cues'') (lit ''animation''))
     @ snd (decode_isolated_default (j_memory_proposals js) (validate_memory p) [] obj (lit ''memory_proposals'') (lit ''memory''))
     @ snd (decode_isolated_default (j_interruption js) (validate_interruption p) BargeInAllowed obj
         (lit ''interruption_behavior'') (lit ''interruption''))
     @ snd (decode_isolated_default (j_actions js) (validate_actions p) [] obj (lit ''actions'') (lit ''actions''))"
  by (simp add: isolated_response_def case_prod_beta Let_def)

lemma isolated_honest:
  assumes "distinct (map fst obj)"
  shows "honest_issues js p obj (snd (isolated_response js p schema t obj))"
  unfolding honest_issues_def isolated_issues
  by (simp add: isolated_default_issues isolated_optional_issues [OF assms])

lemma isolated_unsupported:
  assumes "distinct (map fst obj)"
  shows "UnsupportedTopLevelField f \<in> set (snd (isolated_response js p schema t obj)) \<longleftrightarrow> f \<in> fst ` set obj \<and> f \<notin> set TOP_LEVEL_FIELDS"
  unfolding isolated_issues
  by (auto simp: isolated_default_issues isolated_optional_issues [OF assms] unsupported_top_level_fields_def)

text \<open>
  C21. A provider object (whose keys are distinct, as in every map of the JSON library) with a known schema marker and a valid spoken response is always accepted with exactly that speech,
  whatever its other fields hold. Each other part of the result is exactly what its field says if the field decodes to a valid
  value, and otherwise its neutral value: no emotion, the default voice, no animation, memory or action, barge-in allowed. The issues
  name exactly the subsystems whose field was there and could not be used and the fields that are not known, and the response as a whole passes validation.
\<close>

theorem invalid_optional_parts_never_cost_speech:
  assumes "j_from_str js raw = Inr v" and "j_as_object js v = Some obj" and "distinct (map fst obj)"
    and "map_of obj (lit ''schema_version'') = Some sv" and "j_schema js sv = Inr schema"
    and "map_of obj (lit ''spoken_response'') = Some tv" and "j_spoken js tv = Inr t"
    and "validate_spoken p t = Inr ()"
  shows "\<exists>d. decode_structured_with_isolation js p raw = Inr d
    \<and> nr_spoken (dr_response d) = t \<and> nr_schema_version (dr_response d) = schema \<and> faithful_response js p obj (dr_response d)
    \<and> honest_issues js p obj (dr_issues d)
    \<and> (\<forall>f. UnsupportedTopLevelField f \<in> set (dr_issues d) \<longleftrightarrow> f \<in> fst ` set obj \<and> f \<notin> set TOP_LEVEL_FIELDS)
    \<and> validate_response p (dr_response d) = Inr () \<and> dr_format d = FmtStructured"
proof -
  obtain r issues where i: "isolated_response js p schema t obj = (r, issues)" by fastforce
  then have "validate_response p r = Inr ()" "nr_spoken r = t"
    using isolated_response_valid [OF assms(8), of js schema obj] isolated_response_fields(1) [of js p schema t obj] by simp_all
  moreover have "nr_schema_version r = schema" using i by (auto simp: isolated_response_def case_prod_beta Let_def)
  moreover have "faithful_response js p obj r" "honest_issues js p obj issues"
    using isolated_faithful [OF assms(3), of js p schema t] isolated_honest [OF assms(3), of js p schema t] i by simp_all
  moreover have "UnsupportedTopLevelField f \<in> set issues \<longleftrightarrow> f \<in> fst ` set obj \<and> f \<notin> set TOP_LEVEL_FIELDS" for f
    using isolated_unsupported [OF assms(3), of f js p schema t] i by simp
  ultimately show ?thesis using assms i
    by (simp add: decode_structured_with_isolation_def map_error_def decode_required_def)
qed

definition sample_object :: "(rstr \<times> rstr) list" where
  "sample_object = [(lit ''schema_version'', []), (lit ''spoken_response'', lit ''Stay close.''), (lit ''emotion'', lit ''?'')]"

definition isolating_json :: "rstr json_api" where
  "isolating_json = \<lparr>j_from_str = Inr, j_as_object = (\<lambda>_. Some sample_object), j_is_null = (\<lambda>_. False),
     j_envelope = (\<lambda>v. Inl []), j_schema = (\<lambda>_. Inr SchemaV1), j_spoken = Inr,
     j_emotion = (\<lambda>_. Inl (lit ''invalid type'')), j_voice_style = (\<lambda>_. Inl []), j_animation_cues = (\<lambda>_. Inl []),
     j_memory_proposals = (\<lambda>_. Inl []), j_interruption = (\<lambda>_. Inl []), j_actions = (\<lambda>_. Inl []),
     j_string_step = (\<lambda>_. JsonEof), j_value_step = (\<lambda>_. JsonEof),
     j_str_schema = (\<lambda>_. Inr SchemaV1), j_str_spoken = Inr\<rparr>"

lemma stay_close_valid: "validate_spoken default_response_policy (lit ''Stay close.'') = Inr ()"
  by (simp add: validate_spoken_def validate_text_def default_response_policy_def MAX_SPOKEN_RESPONSE_BYTES_def
      lit_def is_blank_iff is_whitespace_def disallowed_control_def is_control_def len_utf8_def)

theorem invalid_optional_parts_never_cost_speech_witness:
  "\<exists>d. decode_structured_with_isolation isolating_json default_response_policy [] = Inr d
     \<and> nr_spoken (dr_response d) = lit ''Stay close.'' \<and> nr_emotion (dr_response d) = None \<and> reports (dr_issues d) ''emotion''"
proof -
  have given: "map_of (given isolating_json sample_object) (lit ''emotion'') = Some (lit ''?'')"
    by (simp add: given_def isolating_json_def sample_object_def)
  have none: "\<not> usable (j_emotion isolating_json) validate_emotion (given isolating_json sample_object) (lit ''emotion'') e" for e
    by (simp add: usable_def isolating_json_def)
  have "j_from_str isolating_json [] = Inr []" "j_as_object isolating_json [] = Some sample_object" "distinct (map fst sample_object)"
    "map_of sample_object (lit ''schema_version'') = Some []" "j_schema isolating_json [] = Inr SchemaV1"
    "map_of sample_object (lit ''spoken_response'') = Some (lit ''Stay close.'')"
    "j_spoken isolating_json (lit ''Stay close.'') = Inr (lit ''Stay close.'')"
    by (simp_all add: isolating_json_def sample_object_def)
  from invalid_optional_parts_never_cost_speech [OF this stay_close_valid]
  obtain d where d: "decode_structured_with_isolation isolating_json default_response_policy [] = Inr d"
    "nr_spoken (dr_response d) = lit ''Stay close.''" "faithful_response isolating_json default_response_policy sample_object (dr_response d)"
    "honest_issues isolating_json default_response_policy sample_object (dr_issues d)" by blast
  have "nr_emotion (dr_response d) = None" using d(3) none by (auto simp: faithful_response_def split: option.splits)
  moreover have "reports (dr_issues d) ''emotion''" using d(4) none given by (simp add: honest_issues_def unusable_def)
  ultimately show ?thesis using d(1,2) by blast
qed

text \<open>
  The projection of an accepted response onto the effects of a turn is accepted by the effects validation
  and comes out of it unchanged: no cue and no action is dropped and nothing is out of range.
\<close>

theorem accepted_response_projects_losslessly:
  assumes "validate_response p r = Inr ()" and "policy_within_effects_limits p"
  shows "validate_effects (vp_allowed_action_ids p) (to_legacy_effects r) = Inr (to_legacy_effects r)"
proof -
  have e: "\<forall>e. nr_emotion r = Some e \<longrightarrow> validate_emotion e = Inr ()"
    and m: "\<forall>m\<in>set (nr_memory_proposals r). validate_memory_item p m = Inr ()"
    and a: "\<forall>a\<in>set (nr_actions r). validate_action p a = Inr ()"
    using assms(1) by (simp_all add: validate_response_Inr_iff validate_memory_def validate_actions_def validation_iffs)
  have "validate_optional_range n (map_option em_valence (nr_emotion r)) (-1) 1 = Inr ()"
    "validate_optional_range n (map_option em_arousal (nr_emotion r)) 0 1 = Inr ()"
    "validate_optional_range n (map_option em_intensity (nr_emotion r)) 0 1 = Inr ()" for n
    using e by (auto simp: validate_optional_range_Inr_iff validate_emotion_ranges)
  moreover have "\<not> list_ex memory_proposal_invalid (ne_memory_proposals (to_legacy_effects r))"
    using m assms(2) by (auto simp: to_legacy_effects_def list_ex_iff dest: memory_projection_kept)
  moreover have "filter (action_proposal_kept (vp_allowed_action_ids p)) (ne_action_proposals (to_legacy_effects r))
      = ne_action_proposals (to_legacy_effects r)"
    using a assms(2) by (auto simp: to_legacy_effects_def filter_id_conv action_projection_kept)
  moreover have "filter animation_cue_kept (ne_animation_cues (to_legacy_effects r)) = ne_animation_cues (to_legacy_effects r)"
    by (auto simp: to_legacy_effects_def filter_id_conv animation_name_kept)
  ultimately show ?thesis
    by (simp add: validate_effects_def) (simp add: to_legacy_effects_def)
qed

theorem accepted_response_projects_losslessly_witness:
  "validate_effects [] (to_legacy_effects (plain_text_response (lit ''Stay close.'')))
   = Inr (to_legacy_effects (plain_text_response (lit ''Stay close.'')))"
proof -
  have "validate_response default_response_policy (plain_text_response (lit ''Stay close.'')) = Inr ()"
    by (simp add: validate_response_Inr_iff plain_text_response_def stay_close_valid)
  moreover have "policy_within_effects_limits default_response_policy"
    by (simp add: policy_within_effects_limits_def default_response_policy_def)
  ultimately show ?thesis
    using accepted_response_projects_losslessly [of default_response_policy] by (simp add: default_response_policy_def)
qed

end
