(* ===== verification/Delivered_Spans.thy ===== *)
theory Delivered_Spans
  imports Structured_Response
begin

text \<open>
  The delivered-span tracker, the last part of \<open>structured_response.rs\<close>: the generation-bound record of what was
  heard or read, from which durable dialogue is committed. \<open>None\<close> is a panic of the slice in \<open>record\<close>.
\<close>

section \<open>Definitions\<close>

datatype delivered_surface = SurfaceAudio | SurfaceSubtitle

record delivery_evidence =
  ev_generation :: nat
  ev_sentence_id :: nat
  ev_start :: nat
  ev_end :: nat
  ev_surface :: delivered_surface
  ev_audible_frames :: nat
  ev_duration :: duration

record committed_span =
  cs_sentence_id :: nat
  cs_start :: nat
  cs_end :: nat
  cs_text :: rstr
  cs_surface :: delivered_surface
  cs_audible_frames :: nat
  cs_duration :: duration

record span_commit =
  sp_schema_version :: schema_version
  sp_generation :: nat
  sp_cancelled :: bool
  sp_spans :: "committed_span list"

definition commit_is_empty :: "span_commit \<Rightarrow> bool" where
  "commit_is_empty c \<longleftrightarrow> sp_spans c = []"

definition commit_fragments :: "span_commit \<Rightarrow> rstr list" where
  "commit_fragments c = map cs_text (sp_spans c)"

datatype tracker_state = TkActive | TkCancelled | TkFinalized

datatype record_outcome = Recorded | DuplicateIgnored

datatype delivery_error =
    StaleDelivery nat nat
  | DeliveryClosed
  | InvalidRange
  | InvalidUtf8Boundary
  | InvalidSemanticBoundary
  | EmptyAudioEvidence
  | OverlappingOrOutOfOrder

record tracker =
  tk_generation :: nat
  tk_spoken_response :: rstr
  tk_state :: tracker_state
  tk_spans :: "committed_span list"

definition new_tracker :: "nat \<Rightarrow> rstr \<Rightarrow> (response_error, tracker) result" where
  "new_tracker g t =
     bind_result (validate_text t MAX_SPOKEN_RESPONSE_BYTES (lit ''spoken response'')) (\<lambda>_.
       Inr \<lparr>tk_generation = g, tk_spoken_response = t, tk_state = TkActive, tk_spans = []\<rparr>)"

definition is_ascii_punctuation :: "uchar \<Rightarrow> bool" where
  "is_ascii_punctuation c \<longleftrightarrow> 33 \<le> c \<and> c \<le> 47 \<or> 58 \<le> c \<and> c \<le> 64 \<or> 91 \<le> c \<and> c \<le> 96 \<or> 123 \<le> c \<and> c \<le> 126"

definition is_word_boundary_char :: "uchar \<Rightarrow> bool" where
  "is_word_boundary_char c \<longleftrightarrow> is_whitespace c \<or> is_ascii_punctuation c \<or> c = 8211 \<or> c = 8212 \<or> c = 8230"

definition is_semantic_boundary :: "rstr \<Rightarrow> nat \<Rightarrow> bool" where
  "is_semantic_boundary text offset \<longleftrightarrow>
     offset = 0 \<or> offset = blen text
     \<or> (str_upto text offset \<noteq> [] \<and> is_word_boundary_char (last (str_upto text offset)))
     \<or> (str_from text offset \<noteq> [] \<and> is_word_boundary_char (hd (str_from text offset)))"

definition require_tracker_generation :: "tracker \<Rightarrow> nat \<Rightarrow> (delivery_error, unit) result" where
  "require_tracker_generation tk received =
     (if received = tk_generation tk then Inr () else Inl (StaleDelivery (tk_generation tk) received))"

definition validate_range :: "tracker \<Rightarrow> nat \<Rightarrow> nat \<Rightarrow> (delivery_error, unit) result" where
  "validate_range tk a b =
     (if a \<ge> b \<or> b > blen (tk_spoken_response tk) then Inl InvalidRange
      else if \<not> is_char_boundary (tk_spoken_response tk) a \<or> \<not> is_char_boundary (tk_spoken_response tk) b
      then Inl InvalidUtf8Boundary
      else if \<not> is_semantic_boundary (tk_spoken_response tk) a \<or> \<not> is_semantic_boundary (tk_spoken_response tk) b
      then Inl InvalidSemanticBoundary
      else Inr ())"

text \<open>The checks of \<open>record\<close> before the search for an existing span.\<close>

definition evidence_guard :: "tracker \<Rightarrow> delivery_evidence \<Rightarrow> (delivery_error, unit) result" where
  "evidence_guard tk e =
     bind_result (require_tracker_generation tk (ev_generation e)) (\<lambda>_.
       if tk_state tk \<noteq> TkActive then Inl DeliveryClosed
       else bind_result (validate_range tk (ev_start e) (ev_end e)) (\<lambda>_.
         if ev_surface e = SurfaceAudio \<and> (ev_audible_frames e = 0 \<or> ev_duration e = 0) then Inl EmptyAudioEvidence
         else Inr ()))"

definition same_range :: "delivery_evidence \<Rightarrow> committed_span \<Rightarrow> bool" where
  "same_range e s \<longleftrightarrow> cs_start s = ev_start e \<and> cs_end s = ev_end e \<and> cs_surface s = ev_surface e"

definition same_receipt :: "delivery_evidence \<Rightarrow> committed_span \<Rightarrow> bool" where
  "same_receipt e s \<longleftrightarrow> cs_audible_frames s = ev_audible_frames e \<and> cs_duration s = ev_duration e
     \<and> cs_sentence_id s = ev_sentence_id e"

definition record_delivery :: "delivery_evidence \<Rightarrow> tracker \<Rightarrow> ((delivery_error, record_outcome) result \<times> tracker) option" where
  "record_delivery e tk =
     (case evidence_guard tk e of
        Inl err \<Rightarrow> Some (Inl err, tk)
      | Inr _ \<Rightarrow>
          (case find (same_range e) (tk_spans tk) of
             Some existing \<Rightarrow>
               Some (if same_receipt e existing then Inr DuplicateIgnored else Inl OverlappingOrOutOfOrder, tk)
           | None \<Rightarrow>
               if tk_spans tk \<noteq> []
                  \<and> (ev_start e < cs_end (last (tk_spans tk)) \<or> ev_end e \<le> cs_end (last (tk_spans tk)))
               then Some (Inl OverlappingOrOutOfOrder, tk)
               else (case str_slice (tk_spoken_response tk) (ev_start e) (ev_end e) of
                       None \<Rightarrow> None
                     | Some t \<Rightarrow>
                         Some (Inr Recorded, tk\<lparr>tk_spans := tk_spans tk @
                           [\<lparr>cs_sentence_id = ev_sentence_id e, cs_start = ev_start e, cs_end = ev_end e, cs_text = t,
                             cs_surface = ev_surface e, cs_audible_frames = ev_audible_frames e,
                             cs_duration = ev_duration e\<rparr>]\<rparr>))))"

definition tracker_cancel :: "nat \<Rightarrow> tracker \<Rightarrow> (delivery_error, unit) result \<times> tracker" where
  "tracker_cancel observed tk =
     (case require_tracker_generation tk observed of
        Inl e \<Rightarrow> (Inl e, tk)
      | Inr _ \<Rightarrow> (Inr (), if tk_state tk = TkActive then tk\<lparr>tk_state := TkCancelled\<rparr> else tk))"

definition tracker_finalize :: "nat \<Rightarrow> tracker \<Rightarrow> (delivery_error, unit) result \<times> tracker" where
  "tracker_finalize observed tk =
     (case require_tracker_generation tk observed of
        Inl e \<Rightarrow> (Inl e, tk)
      | Inr _ \<Rightarrow> (Inr (), if tk_state tk = TkActive then tk\<lparr>tk_state := TkFinalized\<rparr> else tk))"

definition tracker_commit :: "tracker \<Rightarrow> span_commit" where
  "tracker_commit tk = \<lparr>sp_schema_version = SchemaV1, sp_generation = tk_generation tk,
     sp_cancelled = (tk_state tk = TkCancelled), sp_spans = tk_spans tk\<rparr>"

section \<open>Runs\<close>

datatype tracker_event = Evidence delivery_evidence | CancelTracker nat | FinalizeTracker nat

fun tracker_step :: "tracker_event \<Rightarrow> tracker \<Rightarrow> tracker option" where
  "tracker_step (Evidence e) tk = map_option snd (record_delivery e tk)"
| "tracker_step (CancelTracker g) tk = Some (snd (tracker_cancel g tk))"
| "tracker_step (FinalizeTracker g) tk = Some (snd (tracker_finalize g tk))"

fun tracker_run :: "tracker_event list \<Rightarrow> tracker \<Rightarrow> tracker option" where
  "tracker_run [] tk = Some tk"
| "tracker_run (ev # evs) tk = (case tracker_step ev tk of None \<Rightarrow> None | Some tk1 \<Rightarrow> tracker_run evs tk1)"

text \<open>The contract of a committed span of a text.\<close>

definition committed_exactly :: "rstr \<Rightarrow> committed_span \<Rightarrow> bool" where
  "committed_exactly text s \<longleftrightarrow>
     str_slice text (cs_start s) (cs_end s) = Some (cs_text s) \<and> cs_start s < cs_end s
     \<and> is_semantic_boundary text (cs_start s) \<and> is_semantic_boundary text (cs_end s)
     \<and> (cs_surface s = SurfaceAudio \<longrightarrow> 0 < cs_audible_frames s \<and> 0 < cs_duration s)"

definition spans_inv :: "tracker \<Rightarrow> bool" where
  "spans_inv tk \<longleftrightarrow> list_all (committed_exactly (tk_spoken_response tk)) (tk_spans tk)
     \<and> sorted_wrt (\<lambda>a b. cs_end a \<le> cs_start b) (tk_spans tk)"

lemma evidence_guard_InrD:
  assumes "evidence_guard tk e = Inr ()"
  shows "tk_state tk = TkActive" "ev_start e < ev_end e"
    "is_semantic_boundary (tk_spoken_response tk) (ev_start e)" "is_semantic_boundary (tk_spoken_response tk) (ev_end e)"
    "ev_surface e = SurfaceAudio \<longrightarrow> 0 < ev_audible_frames e \<and> 0 < ev_duration e"
    "\<exists>t. str_slice (tk_spoken_response tk) (ev_start e) (ev_end e) = Some t"
  using assms by (auto simp: evidence_guard_def bind_result_Inr_iff validate_range_def str_slice_def split: if_splits)

text \<open>Recording always returns: the guard makes the slice total.\<close>

lemma record_delivery_total: "\<exists>r tk'. record_delivery e tk = Some (r, tk')"
  using evidence_guard_InrD(6) [of tk e]
  by (cases "evidence_guard tk e") (auto simp: record_delivery_def split: option.splits)

lemma ordered_snoc:
  assumes "sorted_wrt (\<lambda>a b. cs_end a \<le> cs_start b) xs" and "list_all (\<lambda>s. cs_start s < cs_end s) xs"
    and "xs \<noteq> [] \<longrightarrow> cs_end (last xs) \<le> cs_start s"
  shows "sorted_wrt (\<lambda>a b. cs_end a \<le> cs_start b) (xs @ [s])"
  using assms
proof (induction xs)
  case (Cons a xs)
  then have "sorted_wrt (\<lambda>a b. cs_end a \<le> cs_start b) (xs @ [s])" by (auto split: if_splits)
  moreover have "cs_end a \<le> cs_start s"
  proof (cases "xs = []")
    case False
    then have "cs_end a \<le> cs_start (last xs)" "cs_start (last xs) < cs_end (last xs)"
      using Cons.prems by (auto simp: list_all_iff)
    then show ?thesis using Cons.prems(3) False by simp
  qed (use Cons.prems(3) in simp)
  ultimately show ?case using Cons.prems(1) by auto
qed simp

lemma record_delivery_inv:
  assumes "spans_inv tk" and "record_delivery e tk = Some (r, tk')"
  shows "spans_inv tk' \<and> tk_spoken_response tk' = tk_spoken_response tk \<and> tk_generation tk' = tk_generation tk
    \<and> tk_state tk' = tk_state tk \<and> (tk_state tk \<noteq> TkActive \<longrightarrow> tk' = tk) \<and> prefix (tk_spans tk) (tk_spans tk')"
proof (cases "evidence_guard tk e")
  case (Inl err)
  then show ?thesis using assms by (simp add: record_delivery_def)
next
  case (Inr u)
  then have "evidence_guard tk e = Inr ()" by simp
  note g = evidence_guard_InrD [OF this]
  have "list_all (\<lambda>s. cs_start s < cs_end s) (tk_spans tk)"
    using assms(1) by (auto simp: spans_inv_def committed_exactly_def list_all_iff)
  then show ?thesis using assms g(1-5) Inr unfolding record_delivery_def
    by (auto simp: spans_inv_def committed_exactly_def intro!: ordered_snoc split: option.splits if_splits)
qed

lemma tracker_step_inv:
  assumes "spans_inv tk" and "tracker_step ev tk = Some tk'"
  shows "spans_inv tk' \<and> tk_spoken_response tk' = tk_spoken_response tk \<and> tk_generation tk' = tk_generation tk
    \<and> (tk_state tk \<noteq> TkActive \<longrightarrow> tk' = tk) \<and> prefix (tk_spans tk) (tk_spans tk')"
proof (cases ev)
  case (Evidence e)
  then show ?thesis using assms record_delivery_inv [OF assms(1)] by fastforce
qed (use assms in \<open>auto simp: tracker_cancel_def tracker_finalize_def spans_inv_def split: sum.splits\<close>)

lemma tracker_run_inv:
  "spans_inv tk \<Longrightarrow> \<exists>tk'. tracker_run evs tk = Some tk' \<and> spans_inv tk' \<and> tk_spoken_response tk' = tk_spoken_response tk
     \<and> tk_generation tk' = tk_generation tk \<and> (tk_state tk \<noteq> TkActive \<longrightarrow> tk' = tk) \<and> prefix (tk_spans tk) (tk_spans tk')"
proof (induction evs arbitrary: tk)
  case (Cons ev evs)
  obtain tk1 where s: "tracker_step ev tk = Some tk1"
    using record_delivery_total by (cases ev) fastforce+
  note i = tracker_step_inv [OF Cons.prems s]
  then obtain tk' where "tracker_run evs tk1 = Some tk'" "spans_inv tk'" "tk_spoken_response tk' = tk_spoken_response tk1"
    "tk_generation tk' = tk_generation tk1" "tk_state tk1 \<noteq> TkActive \<longrightarrow> tk' = tk1" "prefix (tk_spans tk1) (tk_spans tk')"
    using Cons.IH [of tk1] by blast
  then show ?case using s i by (auto intro: prefix_order.trans)
qed simp

lemma tracker_run_append:
  "tracker_run (a @ b) tk = (case tracker_run a tk of None \<Rightarrow> None | Some tk1 \<Rightarrow> tracker_run b tk1)"
  by (induction a arbitrary: tk) (auto split: option.splits)

section \<open>Properties\<close>

text \<open>
  C25. Durable dialogue is exactly what was delivered: from any evidence, cancellations and finalizations, in
  any order, the tracker never panics, and the commit of its generation holds non-empty exact slices of the spoken
  response that start and end at word or punctuation boundaries, in source order and without overlap, and
  every audible span has frames and a duration.
\<close>

theorem tracker_commits_exact_spans:
  assumes "new_tracker g t = Inr tk"
  shows "\<exists>tk'. tracker_run evs tk = Some tk' \<and> sp_generation (tracker_commit tk') = g
    \<and> list_all (committed_exactly t) (sp_spans (tracker_commit tk'))
    \<and> sorted_wrt (\<lambda>a b. cs_end a \<le> cs_start b) (sp_spans (tracker_commit tk'))"
proof -
  from assms have tk: "tk_spoken_response tk = t" "tk_generation tk = g" "spans_inv tk"
    by (auto simp: new_tracker_def bind_result_Inr_iff spans_inv_def)
  from tracker_run_inv [OF tk(3), of evs] tk show ?thesis by (auto simp: tracker_commit_def spans_inv_def)
qed

text \<open>
  What was delivered before a cancellation stays committed and nothing is added after it: once the tracker's
  generation is cancelled, the commit keeps every span recorded before, and later evidence, also a second
  cancellation or a finalization, changes nothing.
\<close>

theorem cancellation_freezes_the_commit:
  assumes "new_tracker g t = Inr tk" and "tracker_run evs tk = Some tk1" and "tk_state tk1 = TkActive"
  shows "\<exists>tk2. tracker_run (CancelTracker g # later) tk1 = Some tk2
    \<and> tracker_commit tk2 = (tracker_commit tk1)\<lparr>sp_cancelled := True\<rparr>"
proof -
  from assms(1) have tk: "tk_generation tk = g" "spans_inv tk"
    by (auto simp: new_tracker_def bind_result_Inr_iff spans_inv_def)
  have i: "spans_inv tk1" "tk_generation tk1 = g" using tracker_run_inv [OF tk(2), of evs] assms(2) tk by auto
  let ?c = "tk1\<lparr>tk_state := TkCancelled\<rparr>"
  have "spans_inv ?c" using i(1) by (simp add: spans_inv_def)
  from tracker_run_inv [OF this, of later] have "tracker_run later ?c = Some ?c" by auto
  then show ?thesis
    using i(2) assms(3) by (simp add: tracker_cancel_def require_tracker_generation_def tracker_commit_def)
qed

section \<open>A concrete delivery\<close>

definition two_words :: rstr where
  "two_words = lit ''Hold fast''"

definition sample_tracker :: tracker where
  "sample_tracker = \<lparr>tk_generation = 4, tk_spoken_response = two_words, tk_state = TkActive, tk_spans = []\<rparr>"

definition first_word :: delivery_evidence where
  "first_word = \<lparr>ev_generation = 4, ev_sentence_id = 1, ev_start = 0, ev_end = 4, ev_surface = SurfaceAudio,
     ev_audible_frames = 480, ev_duration = 10\<rparr>"

definition first_span :: committed_span where
  "first_span = \<lparr>cs_sentence_id = 1, cs_start = 0, cs_end = 4, cs_text = lit ''Hold'', cs_surface = SurfaceAudio,
     cs_audible_frames = 480, cs_duration = 10\<rparr>"

lemma new_sample_tracker: "new_tracker 4 two_words = Inr sample_tracker"
  by (simp add: new_tracker_def sample_tracker_def two_words_def validate_text_def MAX_SPOKEN_RESPONSE_BYTES_def
      lit_def is_blank_iff is_whitespace_def disallowed_control_def is_control_def len_utf8_def)

lemma sample_tracker_run:
  "tracker_run [Evidence first_word] sample_tracker = Some (sample_tracker\<lparr>tk_spans := [first_span]\<rparr>)"
  by (simp add: record_delivery_def evidence_guard_def require_tracker_generation_def validate_range_def
      sample_tracker_def first_word_def first_span_def two_words_def is_char_boundary_def str_upto_def str_slice_def
      is_semantic_boundary_def is_word_boundary_char_def is_whitespace_def lit_def len_utf8_def str_from_pos)

theorem tracker_commits_exact_spans_witness:
  "list_all (committed_exactly two_words) [first_span]"
  using tracker_commits_exact_spans [OF new_sample_tracker, of "[Evidence first_word]"]
  by (simp only: sample_tracker_run) (simp add: tracker_commit_def)

theorem cancellation_freezes_the_commit_witness:
  "\<exists>tk2. tracker_run [CancelTracker 4, Evidence first_word, FinalizeTracker 4] (sample_tracker\<lparr>tk_spans := [first_span]\<rparr>) = Some tk2
     \<and> sp_spans (tracker_commit tk2) = [first_span] \<and> sp_cancelled (tracker_commit tk2)"
proof -
  have "tk_state (sample_tracker\<lparr>tk_spans := [first_span]\<rparr>) = TkActive" by (simp add: sample_tracker_def)
  from cancellation_freezes_the_commit [OF new_sample_tracker sample_tracker_run this, of "[Evidence first_word, FinalizeTracker 4]"]
  show ?thesis by (force simp: tracker_commit_def)
qed

end
