(* ===== verification/Protocol_Version.thy ===== *)
theory Protocol_Version
  imports Runtime_Types
begin

text \<open>
  Versions of the transport contract and their negotiation, \<open>crates/protocol/src/version.rs\<close>, and the per-turn safety
  context, \<open>safety.rs\<close>. The version numbers are 32-bit words; versions have the derived lexicographic order.
\<close>

section \<open>Versions\<close>

datatype protocol_version = ProtocolVersion (pv_major: "32 word") (pv_minor: "32 word") (pv_patch: "32 word")

fun version_le :: "protocol_version \<Rightarrow> protocol_version \<Rightarrow> bool" where
  "version_le (ProtocolVersion a b c) (ProtocolVersion a' b' c') \<longleftrightarrow>
     a < a' \<or> a = a' \<and> (b < b' \<or> b = b' \<and> c \<le> c')"

instantiation protocol_version :: linorder
begin

definition less_eq_protocol_version :: "protocol_version \<Rightarrow> protocol_version \<Rightarrow> bool" where
  "less_eq_protocol_version v w \<longleftrightarrow> version_le v w"

definition less_protocol_version :: "protocol_version \<Rightarrow> protocol_version \<Rightarrow> bool" where
  "less_protocol_version v w \<longleftrightarrow> v \<le> w \<and> \<not> w \<le> v"

instance
proof
  fix u v w :: protocol_version
  show "u < v \<longleftrightarrow> u \<le> v \<and> \<not> v \<le> u" by (simp add: less_protocol_version_def)
  show "u \<le> u" by (cases u) (simp add: less_eq_protocol_version_def)
  show "u \<le> v \<Longrightarrow> v \<le> w \<Longrightarrow> u \<le> w" by (cases u; cases v; cases w) (auto simp: less_eq_protocol_version_def)
  show "u \<le> v \<Longrightarrow> v \<le> u \<Longrightarrow> u = v" by (cases u; cases v) (auto simp: less_eq_protocol_version_def)
  show "u \<le> v \<or> v \<le> u" by (cases u; cases v) (auto simp: less_eq_protocol_version_def)
qed

end

lemma version_le_iff [simp]: "ProtocolVersion a b c \<le> ProtocolVersion a' b' c' \<longleftrightarrow> a < a' \<or> a = a' \<and> (b < b' \<or> b = b' \<and> c \<le> c')"
  by (simp add: less_eq_protocol_version_def)

definition V1_0_0 :: protocol_version where
  "V1_0_0 = ProtocolVersion 1 0 0"

definition wire_compatible_with :: "protocol_version \<Rightarrow> protocol_version \<Rightarrow> bool" where
  "wire_compatible_with v w \<longleftrightarrow> pv_major v \<noteq> 0 \<and> pv_major v = pv_major w"

datatype negotiation_error = UnstableVersion | InvertedRange | CrossMajorRange | MissingRange | NoOverlap

record version_range =
  vr_minimum :: protocol_version
  vr_maximum :: protocol_version

definition V1_range :: version_range where
  "V1_range = \<lparr>vr_minimum = V1_0_0, vr_maximum = V1_0_0\<rparr>"

definition validate_version_range :: "version_range \<Rightarrow> (negotiation_error, unit) result" where
  "validate_version_range r =
     (if pv_major (vr_minimum r) = 0 \<or> pv_major (vr_maximum r) = 0 then Inl UnstableVersion
      else if vr_minimum r > vr_maximum r then Inl InvertedRange
      else if pv_major (vr_minimum r) \<noteq> pv_major (vr_maximum r) then Inl CrossMajorRange
      else Inr ())"

definition new_range :: "protocol_version \<Rightarrow> protocol_version \<Rightarrow> (negotiation_error, version_range) result" where
  "new_range minimum maximum =
     (let range = \<lparr>vr_minimum = minimum, vr_maximum = maximum\<rparr> in bind_result (validate_version_range range) (\<lambda>_. Inr range))"

definition range_contains :: "version_range \<Rightarrow> protocol_version \<Rightarrow> bool" where
  "range_contains r v \<longleftrightarrow> pv_major v = pv_major (vr_minimum r) \<and> v \<ge> vr_minimum r \<and> v \<le> vr_maximum r"

record negotiation_hello =
  nh_minimum :: "protocol_version option"
  nh_maximum :: "protocol_version option"
  nh_optional_features :: "rstr list"
  nh_peer_name :: rstr
  nh_peer_build :: rstr

definition hello_range :: "negotiation_hello \<Rightarrow> (negotiation_error, version_range) result" where
  "hello_range h =
     (case nh_minimum h of
        None \<Rightarrow> Inl MissingRange
      | Some lo \<Rightarrow> (case nh_maximum h of None \<Rightarrow> Inl MissingRange | Some hi \<Rightarrow> new_range lo hi))"

record negotiation_accepted =
  na_selected :: "protocol_version option"
  na_enabled_features :: "rstr list"

definition negotiate :: "version_range \<Rightarrow> version_range \<Rightarrow> (negotiation_error, protocol_version) result" where
  "negotiate local remote =
     bind_result (validate_version_range local) (\<lambda>_. bind_result (validate_version_range remote) (\<lambda>_.
       if pv_major (vr_minimum local) \<noteq> pv_major (vr_minimum remote) then Inl NoOverlap
       else
         (let minimum = max (vr_minimum local) (vr_minimum remote);
              maximum = min (vr_maximum local) (vr_maximum remote)
          in if minimum > maximum then Inl NoOverlap else Inr maximum)))"

section \<open>The safety context of a turn\<close>

datatype safety_evidence = VerifiedSafe | ConsoleIsolated | UnknownEvidence | BlockedEvidence

datatype safety_policy = SyntheticFixture | SinglePlayerOnly | OfflineOnly | ConsoleIsolatedNoGameInteraction | UnknownPolicy

record turn_safety_context =
  sx_evidence_state :: safety_evidence
  sx_profile_policy :: safety_policy
  sx_visuals_allowed :: bool
  sx_protected_online_detected :: bool
  sx_anti_cheat_detected :: bool

datatype safety_error = UnverifiedOrMismatched | ConsoleVisualsForbidden | ProtectedOnlineDetected | AntiCheatDetected

definition default_safety_context :: turn_safety_context where
  "default_safety_context = \<lparr>sx_evidence_state = UnknownEvidence, sx_profile_policy = UnknownPolicy, sx_visuals_allowed = False,
     sx_protected_online_detected = False, sx_anti_cheat_detected = False\<rparr>"

definition verified_safe :: turn_safety_context where
  "verified_safe = \<lparr>sx_evidence_state = VerifiedSafe, sx_profile_policy = SinglePlayerOnly, sx_visuals_allowed = False,
     sx_protected_online_detected = False, sx_anti_cheat_detected = False\<rparr>"

definition verified_synthetic_fixture :: turn_safety_context where
  "verified_synthetic_fixture = \<lparr>sx_evidence_state = VerifiedSafe, sx_profile_policy = SyntheticFixture, sx_visuals_allowed = True,
     sx_protected_online_detected = False, sx_anti_cheat_detected = False\<rparr>"

definition verified_console_isolated :: turn_safety_context where
  "verified_console_isolated = \<lparr>sx_evidence_state = ConsoleIsolated, sx_profile_policy = ConsoleIsolatedNoGameInteraction,
     sx_visuals_allowed = False, sx_protected_online_detected = False, sx_anti_cheat_detected = False\<rparr>"

fun pair_admitted :: "safety_evidence \<Rightarrow> safety_policy \<Rightarrow> bool" where
  "pair_admitted VerifiedSafe SyntheticFixture = True"
| "pair_admitted VerifiedSafe SinglePlayerOnly = True"
| "pair_admitted VerifiedSafe OfflineOnly = True"
| "pair_admitted ConsoleIsolated ConsoleIsolatedNoGameInteraction = True"
| "pair_admitted _ _ = False"

definition validate_admitted :: "turn_safety_context \<Rightarrow> (safety_error, unit) result" where
  "validate_admitted c =
     (if \<not> pair_admitted (sx_evidence_state c) (sx_profile_policy c) then Inl UnverifiedOrMismatched
      else if sx_evidence_state c = ConsoleIsolated \<and> sx_visuals_allowed c then Inl ConsoleVisualsForbidden
      else if sx_protected_online_detected c then Inl ProtectedOnlineDetected
      else if sx_anti_cheat_detected c then Inl AntiCheatDetected
      else Inr ())"

text \<open>An admitted context never has protected online play, anti-cheat, an unknown policy or console visuals.\<close>

lemma admitted_context_safe:
  "validate_admitted c = Inr () \<Longrightarrow> \<not> sx_protected_online_detected c \<and> \<not> sx_anti_cheat_detected c
     \<and> sx_profile_policy c \<noteq> UnknownPolicy \<and> sx_evidence_state c \<in> {VerifiedSafe, ConsoleIsolated}
     \<and> (sx_visuals_allowed c \<longrightarrow> sx_evidence_state c = VerifiedSafe)"
  by (cases "sx_evidence_state c"; cases "sx_profile_policy c") (auto simp: validate_admitted_def split: if_splits)

lemma admitted_constructors:
  "validate_admitted verified_safe = Inr ()" "validate_admitted verified_synthetic_fixture = Inr ()"
  "validate_admitted verified_console_isolated = Inr ()" "validate_admitted default_safety_context = Inl UnverifiedOrMismatched"
  by (simp_all add: validate_admitted_def verified_safe_def verified_synthetic_fixture_def verified_console_isolated_def
      default_safety_context_def)

section \<open>Properties\<close>

lemma validate_version_range_iff:
  "validate_version_range r = Inr () \<longleftrightarrow> pv_major (vr_minimum r) \<noteq> 0 \<and> vr_minimum r \<le> vr_maximum r
     \<and> pv_major (vr_minimum r) = pv_major (vr_maximum r)"
  by (auto simp: validate_version_range_def not_less)

lemma major_mono: "v \<le> w \<Longrightarrow> pv_major v \<le> pv_major w"
  by (cases v; cases w) auto

text \<open>In a valid range, the bounds alone determine membership.\<close>

lemma range_contains_bounds:
  "validate_version_range r = Inr () \<Longrightarrow> range_contains r v \<longleftrightarrow> vr_minimum r \<le> v \<and> v \<le> vr_maximum r"
  using major_mono [of "vr_minimum r" v] major_mono [of v "vr_maximum r"]
  by (auto simp: range_contains_def validate_version_range_iff)

text \<open>
  Negotiation selects the newest shared version: it succeeds with a version exactly when both ranges are valid and
  that version is the greatest one that both contain, so two peers that negotiate agree, in either order.
\<close>

theorem negotiate_newest_shared:
  "negotiate local remote = Inr v \<longleftrightarrow> validate_version_range local = Inr () \<and> validate_version_range remote = Inr ()
     \<and> range_contains local v \<and> range_contains remote v
     \<and> (\<forall>w. range_contains local w \<and> range_contains remote w \<longrightarrow> w \<le> v)"
proof (cases "validate_version_range local = Inr () \<and> validate_version_range remote = Inr ()")
  case False
  then show ?thesis by (auto simp: negotiate_def bind_result_Inr_iff)
next
  case True
  let ?lo = "max (vr_minimum local) (vr_minimum remote)" and ?hi = "min (vr_maximum local) (vr_maximum remote)"
  have both: "range_contains local w \<and> range_contains remote w \<longleftrightarrow> ?lo \<le> w \<and> w \<le> ?hi" for w
    using True by (auto simp: range_contains_bounds)
  have major: "pv_major (vr_minimum local) = pv_major (vr_minimum remote)" if "?lo \<le> ?hi"
  proof -
    have "range_contains local ?hi" "range_contains remote ?hi" using both [of ?hi] that by auto
    then show ?thesis by (simp add: range_contains_def)
  qed
  have "negotiate local remote = Inr v \<longleftrightarrow> ?lo \<le> ?hi \<and> v = ?hi"
  proof (cases "?lo \<le> ?hi")
    case le: True
    then have "\<not> ?hi < ?lo" by (simp only: not_less)
    then show ?thesis using True major [OF le] le by (simp only: negotiate_def Let_def) auto
  next
    case False
    then have "?hi < ?lo" by (simp only: not_le)
    then show ?thesis using True False by (simp only: negotiate_def Let_def) simp
  qed
  also have "\<dots> \<longleftrightarrow> (?lo \<le> v \<and> v \<le> ?hi) \<and> (\<forall>w. ?lo \<le> w \<and> w \<le> ?hi \<longrightarrow> w \<le> v)"
    by (meson antisym order_refl order_trans)
  finally show ?thesis using True by (auto simp: range_contains_bounds)
qed

theorem negotiate_newest_shared_witness:
  "negotiate \<lparr>vr_minimum = ProtocolVersion 1 1 0, vr_maximum = ProtocolVersion 1 4 0\<rparr>
     \<lparr>vr_minimum = ProtocolVersion 1 2 0, vr_maximum = ProtocolVersion 1 3 5\<rparr> = Inr (ProtocolVersion 1 3 5)"
proof -
  let ?l = "\<lparr>vr_minimum = ProtocolVersion 1 1 0, vr_maximum = ProtocolVersion 1 4 0\<rparr>"
  let ?r = "\<lparr>vr_minimum = ProtocolVersion 1 2 0, vr_maximum = ProtocolVersion 1 3 5\<rparr>"
  have "validate_version_range ?l = Inr ()" "validate_version_range ?r = Inr ()" by (simp_all add: validate_version_range_iff)
  then show ?thesis
    using negotiate_newest_shared [of ?l ?r "ProtocolVersion 1 3 5"] by (simp add: range_contains_bounds)
qed

end
