(* ===== verification/Protocol_Events.thy ===== *)
theory Protocol_Events
  imports Runtime_Types
begin

text \<open>
  Identifiers, transport errors and provider events of the wire protocol, \<open>crates/protocol/src/ids.rs\<close>, \<open>error.rs\<close> and
  \<open>events.rs\<close>, with their validation. Bytes are 8-bit words; 64-bit counters are 64-bit words; the enumerations
  of the protocol buffers are the \<open>i32\<close> on the wire, decoded by the generated conversions. Lengths are \<open>usize\<close>
  values, kept as \<open>nat\<close>.
\<close>

type_synonym byte = "8 word"
type_synonym u64 = "64 word"

section \<open>Identifiers\<close>

datatype id_error = InvalidLength nat | NilId | InvalidUuid rstr

type_synonym wire_id = "byte list"

definition BYTE_LEN :: nat where
  "BYTE_LEN = 16"

definition id_from_bytes :: "byte list \<Rightarrow> (id_error, wire_id) result" where
  "id_from_bytes bytes =
     (if length bytes \<noteq> BYTE_LEN then Inl (InvalidLength (length bytes))
      else if list_all (\<lambda>b. b = 0) bytes then Inl NilId
      else Inr bytes)"

definition id_validate :: "wire_id \<Rightarrow> (id_error, unit) result" where
  "id_validate i = bind_result (id_from_bytes i) (\<lambda>_. Inr ())"

section \<open>Errors\<close>

datatype error_code =
    EcUnspecified | EcInvalidArgument | EcUnsupportedVersion | EcUnauthorizedPeer | EcStaleLaunch | EcWrongSession | EcOutOfOrder
  | EcSequenceGap | EcDeadlineExceeded | EcCancelled | EcPayloadTooLarge | EcMalformedPayload | EcProviderUnavailable
  | EcProviderRateLimited | EcModelUnavailable | EcDeviceUnavailable | EcWorkerQuarantined | EcPolicyBlocked | EcInternal

definition error_codes :: "error_code list" where
  "error_codes = [EcUnspecified, EcInvalidArgument, EcUnsupportedVersion, EcUnauthorizedPeer, EcStaleLaunch, EcWrongSession,
     EcOutOfOrder, EcSequenceGap, EcDeadlineExceeded, EcCancelled, EcPayloadTooLarge, EcMalformedPayload, EcProviderUnavailable,
     EcProviderRateLimited, EcModelUnavailable, EcDeviceUnavailable, EcWorkerQuarantined, EcPolicyBlocked, EcInternal]"

text \<open>\<open>try_from\<close> of an enumeration whose discriminants are the positions in a list.\<close>

definition enum_of :: "'a list \<Rightarrow> int \<Rightarrow> 'a option" where
  "enum_of xs n = (if 0 \<le> n \<and> n < int (length xs) then Some (xs ! nat n) else None)"

record ipc_error =
  ie_code :: int
  ie_message :: rstr
  ie_retryable :: bool
  ie_retry_after_ms :: "nat option"
  ie_stage :: rstr
  ie_details :: "(rstr, rstr) hmap"

datatype ipc_error_validation = UnknownCode | InvalidMessage | InvalidDetails | ContradictoryRetry | InvalidRetryDelay

definition ipc_error_code :: "ipc_error \<Rightarrow> error_code" where
  "ipc_error_code e = (case enum_of error_codes (ie_code e) of Some c \<Rightarrow> c | None \<Rightarrow> EcUnspecified)"

definition validate_ipc_error :: "ipc_error \<Rightarrow> (ipc_error_validation, unit) result" where
  "validate_ipc_error e =
     (if ipc_error_code e = EcUnspecified then Inl UnknownCode
      else if is_blank (ie_message e) \<or> blen (ie_message e) > 16384 then Inl InvalidMessage
      else if blen (ie_stage e) > 128 \<or> length (ie_details e) > 64
              \<or> list_ex (\<lambda>(k, v). k = [] \<or> blen k > 128 \<or> blen v > 4096) (ie_details e)
      then Inl InvalidDetails
      else if \<not> ie_retryable e \<and> ie_retry_after_ms e \<noteq> None then Inl ContradictoryRetry
      else if (case ie_retry_after_ms e of Some d \<Rightarrow> d = 0 \<or> d > 86400000 | None \<Rightarrow> False) then Inl InvalidRetryDelay
      else Inr ())"

definition new_ipc_error :: "int \<Rightarrow> rstr \<Rightarrow> ipc_error" where
  "new_ipc_error code message = \<lparr>ie_code = code, ie_message = message, ie_retryable = False, ie_retry_after_ms = None,
     ie_stage = [], ie_details = []\<rparr>"

definition ipc_retryable :: "nat option \<Rightarrow> ipc_error \<Rightarrow> ipc_error" where
  "ipc_retryable retry_after e = e\<lparr>ie_retryable := True, ie_retry_after_ms := retry_after\<rparr>"

definition ipc_at_stage :: "rstr \<Rightarrow> ipc_error \<Rightarrow> ipc_error" where
  "ipc_at_stage stage e = e\<lparr>ie_stage := stage\<rparr>"

section \<open>Event validation\<close>

definition MAX_AUDIO_CHUNK_BYTES :: nat where
  "MAX_AUDIO_CHUNK_BYTES = 1024 * 1024"

definition MAX_TEXT_BYTES :: nat where
  "MAX_TEXT_BYTES = 256 * 1024"

datatype event_error =
    MissingKind | MissingMetadata | InvalidRequestId | ZeroSequenceEvent | EmptyText | TextTooLarge nat | MetadataTooLarge
  | UnknownEnum rstr | NonFiniteOrOutOfRange rstr | InvalidTimeRange | InvalidTextRange | InvalidAudioFormat rstr
  | MissingAudioFormat | AudioChunkSize nat | MalformedError | MalformedCancellation

record event_metadata =
  em_provider_id :: rstr
  em_model_id :: rstr
  em_request_id :: "wire_id option"
  em_provider_sequence :: u64
  em_provider_elapsed_ms :: u64

definition validate_metadata :: "event_metadata option \<Rightarrow> (event_error, unit) result" where
  "validate_metadata metadata =
     (case metadata of
        None \<Rightarrow> Inl MissingMetadata
      | Some md \<Rightarrow>
          if em_provider_id md = [] \<or> blen (em_provider_id md) > 128 \<or> blen (em_model_id md) > 512 then Inl MetadataTooLarge
          else (case em_request_id md of
                  None \<Rightarrow> Inl InvalidRequestId
                | Some i \<Rightarrow>
                    if id_validate i \<noteq> Inr () then Inl InvalidRequestId
                    else if em_provider_sequence md = 0 then Inl ZeroSequenceEvent else Inr ()))"

definition validate_unit_interval :: "fp option \<Rightarrow> string \<Rightarrow> (event_error, unit) result" where
  "validate_unit_interval v name =
     (case v of
        None \<Rightarrow> Inr ()
      | Some x \<Rightarrow> if \<not> fp_is_finite x \<or> \<not> fp_in_range 0 1 x then Inl (NonFiniteOrOutOfRange (lit name)) else Inr ())"

definition validate_event_text :: "rstr \<Rightarrow> bool \<Rightarrow> (event_error, unit) result" where
  "validate_event_text text allow_empty =
     (if \<not> allow_empty \<and> is_blank text then Inl EmptyText
      else if blen text > MAX_TEXT_BYTES then Inl (TextTooLarge (blen text))
      else Inr ())"

definition validate_event_error :: "ipc_error \<Rightarrow> (event_error, unit) result" where
  "validate_event_error e = (if validate_ipc_error e = Inr () then Inr () else Inl MalformedError)"

record cancelled_event =
  cn_reason :: rstr
  cn_observed_generation :: u64

definition validate_cancelled :: "cancelled_event \<Rightarrow> (event_error, unit) result" where
  "validate_cancelled c = (if blen (cn_reason c) > 1024 then Inl MalformedCancellation else Inr ())"

datatype audio_encoding = EncUnspecified | PcmS16Le | PcmF32Le | Opus | Mp3 | Wav

record audio_format =
  af_encoding :: int
  af_sample_rate_hz :: nat
  af_channels :: nat
  af_bits_per_sample :: nat

definition audio_encodings :: "audio_encoding list" where
  "audio_encodings = [EncUnspecified, PcmS16Le, PcmF32Le, Opus, Mp3, Wav]"

definition validate_audio_format :: "audio_format \<Rightarrow> (event_error, unit) result" where
  "validate_audio_format f =
     (case enum_of audio_encodings (af_encoding f) of
        None \<Rightarrow> Inl (UnknownEnum (lit ''audio encoding''))
      | Some enc \<Rightarrow>
          if enc = EncUnspecified then Inl (UnknownEnum (lit ''audio encoding''))
          else if \<not> (8000 \<le> af_sample_rate_hz f \<and> af_sample_rate_hz f \<le> 192000)
          then Inl (InvalidAudioFormat (lit ''sample rate must be between 8 kHz and 192 kHz''))
          else if \<not> (1 \<le> af_channels f \<and> af_channels f \<le> 8)
          then Inl (InvalidAudioFormat (lit ''channel count must be between 1 and 8''))
          else (case enc of
                  PcmS16Le \<Rightarrow> if af_bits_per_sample f \<noteq> 16 then Inl (InvalidAudioFormat (lit ''PCM S16 must use 16 bits'')) else Inr ()
                | PcmF32Le \<Rightarrow> if af_bits_per_sample f \<noteq> 32 then Inl (InvalidAudioFormat (lit ''PCM F32 must use 32 bits'')) else Inr ()
                | _ \<Rightarrow> if af_bits_per_sample f \<noteq> 0
                       then Inl (InvalidAudioFormat (lit ''compressed/container formats must report zero bits per sample''))
                       else Inr ()))"

record transcript_segment =
  tx_text :: rstr
  tx_language :: rstr
  tx_confidence :: "fp option"
  tx_stability :: "fp option"
  tx_start_ms :: nat
  tx_end_ms :: nat
  tx_provider_segment_id :: rstr

definition validate_segment :: "transcript_segment \<Rightarrow> bool \<Rightarrow> (event_error, unit) result" where
  "validate_segment s allow_empty =
     bind_result (validate_event_text (tx_text s) allow_empty) (\<lambda>_.
     bind_result (validate_unit_interval (tx_confidence s) ''confidence'') (\<lambda>_.
     bind_result (validate_unit_interval (tx_stability s) ''stability'') (\<lambda>_.
       if tx_end_ms s < tx_start_ms s then Inl InvalidTimeRange
       else if blen (tx_language s) > 64 \<or> blen (tx_provider_segment_id s) > 256 then Inl MetadataTooLarge
       else Inr ())))"

datatype endpoint_reason =
  ErUnspecified | PushToTalkReleased | VoiceActivitySilence | ProviderEndpoint | MaximumDuration | ManualStop

definition endpoint_reasons :: "endpoint_reason list" where
  "endpoint_reasons = [ErUnspecified, PushToTalkReleased, VoiceActivitySilence, ProviderEndpoint, MaximumDuration, ManualStop]"

datatype stt_kind =
    SttStarted audio_format
  | SttPartial transcript_segment
  | SttFinal transcript_segment
  | SttSpeechActivity bool fp fp
  | SttEndpoint int nat
  | SttFailed ipc_error
  | SttCancelled cancelled_event

record stt_event =
  se_metadata :: "event_metadata option"
  se_kind :: "stt_kind option"

text \<open>\<open>x > 0.0\<close> on an IEEE value.\<close>

fun fp_positive :: "fp \<Rightarrow> bool" where
  "fp_positive (Fin x) = (x > 0)"
| "fp_positive PosInf = True"
| "fp_positive _ = False"

fun validate_stt_kind :: "stt_kind \<Rightarrow> (event_error, unit) result" where
  "validate_stt_kind (SttStarted f) = validate_audio_format f"
| "validate_stt_kind (SttPartial s) = validate_segment s True"
| "validate_stt_kind (SttFinal s) = validate_segment s False"
| "validate_stt_kind (SttSpeechActivity active probability rms) =
     bind_result (validate_unit_interval (Some probability) ''speech probability'') (\<lambda>_.
       if \<not> fp_is_finite rms \<or> fp_positive rms then Inl (NonFiniteOrOutOfRange (lit ''rms_dbfs'')) else Inr ())"
| "validate_stt_kind (SttEndpoint reason captured) =
     (case enum_of endpoint_reasons reason of
        None \<Rightarrow> Inl (UnknownEnum (lit ''endpoint reason''))
      | Some r \<Rightarrow> if r = ErUnspecified then Inl (UnknownEnum (lit ''endpoint reason'')) else Inr ())"
| "validate_stt_kind (SttFailed e) = validate_event_error e"
| "validate_stt_kind (SttCancelled c) = validate_cancelled c"

definition validate_stt_event :: "stt_event \<Rightarrow> (event_error, unit) result" where
  "validate_stt_event ev =
     bind_result (validate_metadata (se_metadata ev)) (\<lambda>_.
       case se_kind ev of None \<Rightarrow> Inl MissingKind | Some k \<Rightarrow> validate_stt_kind k)"

datatype llm_finish_reason = FrUnspecified | FrStop | FrLength | FrContentFilter | FrToolBoundary | FrProvider

definition llm_finish_reasons :: "llm_finish_reason list" where
  "llm_finish_reasons = [FrUnspecified, FrStop, FrLength, FrContentFilter, FrToolBoundary, FrProvider]"

record sentence_ready =
  sr_sentence_id :: rstr
  sr_text :: rstr
  sr_text_start_bytes :: u64
  sr_text_end_bytes :: u64

record token_usage =
  ku_input_tokens :: u64
  ku_output_tokens :: u64
  ku_cached_input_tokens :: u64

datatype llm_kind =
    LlmStarted
  | LlmTextDelta rstr u64
  | LlmSentenceReady sentence_ready
  | LlmCompleted int "token_usage option" rstr
  | LlmFailed ipc_error
  | LlmCancelled cancelled_event

record llm_event =
  lv_metadata :: "event_metadata option"
  lv_kind :: "llm_kind option"

text \<open>The subtraction of the range test happens only when the end is greater, so it does not wrap.\<close>

definition validate_sentence_ready :: "sentence_ready \<Rightarrow> (event_error, unit) result" where
  "validate_sentence_ready s =
     bind_result (validate_event_text (sr_text s) False) (\<lambda>_.
       if sr_sentence_id s = [] \<or> blen (sr_sentence_id s) > 256 then Inl MetadataTooLarge
       else if sr_text_end_bytes s \<le> sr_text_start_bytes s
               \<or> sr_text_end_bytes s - sr_text_start_bytes s \<noteq> of_nat (blen (sr_text s))
       then Inl InvalidTextRange
       else Inr ())"

fun validate_llm_kind :: "llm_kind \<Rightarrow> (event_error, unit) result" where
  "validate_llm_kind LlmStarted = Inr ()"
| "validate_llm_kind (LlmTextDelta text _) = validate_event_text text False"
| "validate_llm_kind (LlmSentenceReady s) = validate_sentence_ready s"
| "validate_llm_kind (LlmCompleted reason _ provider_reason) =
     (case enum_of llm_finish_reasons reason of
        None \<Rightarrow> Inl (UnknownEnum (lit ''LLM finish reason''))
      | Some r \<Rightarrow>
          if r = FrUnspecified then Inl (UnknownEnum (lit ''LLM finish reason''))
          else if blen provider_reason > 256 then Inl MetadataTooLarge else Inr ())"
| "validate_llm_kind (LlmFailed e) = validate_event_error e"
| "validate_llm_kind (LlmCancelled c) = validate_cancelled c"

definition validate_llm_event :: "llm_event \<Rightarrow> (event_error, unit) result" where
  "validate_llm_event ev =
     bind_result (validate_metadata (lv_metadata ev)) (\<lambda>_.
       case lv_kind ev of None \<Rightarrow> Inl MissingKind | Some k \<Rightarrow> validate_llm_kind k)"

record audio_chunk =
  ak_chunk_sequence :: u64
  ak_start_sample :: u64
  ak_format :: "audio_format option"
  ak_data :: "byte list"
  ak_end_of_sentence :: bool

record word_alignment =
  wl_text :: rstr
  wl_start_ms :: u64
  wl_duration_ms :: u64
  wl_text_start_bytes :: u64
  wl_text_end_bytes :: u64

record viseme =
  vi_id :: rstr
  vi_start_ms :: u64
  vi_duration_ms :: u64
  vi_weight :: fp

datatype tts_kind =
    TtsStarted audio_format
  | TtsAudio audio_chunk
  | TtsAlignment "word_alignment list" "viseme list"
  | TtsCompleted u64 u64
  | TtsFailed ipc_error
  | TtsCancelled cancelled_event

record tts_event =
  te_metadata :: "event_metadata option"
  te_sentence_id :: rstr
  te_kind :: "tts_kind option"

definition validate_chunk :: "audio_chunk \<Rightarrow> (event_error, unit) result" where
  "validate_chunk c =
     (if ak_chunk_sequence c = 0 then Inl ZeroSequenceEvent
      else (case ak_format c of
              None \<Rightarrow> Inl MissingAudioFormat
            | Some f \<Rightarrow>
                bind_result (validate_audio_format f) (\<lambda>_.
                  if ak_data c = [] \<or> length (ak_data c) > MAX_AUDIO_CHUNK_BYTES then Inl (AudioChunkSize (length (ak_data c)))
                  else Inr ())))"

text \<open>A loop that returns at the first error.\<close>

fun each_valid :: "('a \<Rightarrow> ('e, unit) result) \<Rightarrow> 'a list \<Rightarrow> ('e, unit) result" where
  "each_valid f [] = Inr ()"
| "each_valid f (x # xs) = bind_result (f x) (\<lambda>_. each_valid f xs)"

definition validate_word :: "word_alignment \<Rightarrow> (event_error, unit) result" where
  "validate_word w =
     bind_result (validate_event_text (wl_text w) False) (\<lambda>_.
       if wl_text_end_bytes w \<le> wl_text_start_bytes w then Inl InvalidTextRange else Inr ())"

definition validate_viseme :: "viseme \<Rightarrow> (event_error, unit) result" where
  "validate_viseme v =
     (if vi_id v = [] \<or> blen (vi_id v) > 64 then Inl MetadataTooLarge
      else validate_unit_interval (Some (vi_weight v)) ''viseme weight'')"

fun validate_tts_kind :: "tts_kind \<Rightarrow> (event_error, unit) result" where
  "validate_tts_kind (TtsStarted f) = validate_audio_format f"
| "validate_tts_kind (TtsAudio c) = validate_chunk c"
| "validate_tts_kind (TtsAlignment words visemes) =
     (if length words > 2048 \<or> length visemes > 8192 then Inl MetadataTooLarge
      else bind_result (each_valid validate_word words) (\<lambda>_. each_valid validate_viseme visemes))"
| "validate_tts_kind (TtsCompleted _ _) = Inr ()"
| "validate_tts_kind (TtsFailed e) = validate_event_error e"
| "validate_tts_kind (TtsCancelled c) = validate_cancelled c"

definition validate_tts_event :: "tts_event \<Rightarrow> (event_error, unit) result" where
  "validate_tts_event ev =
     bind_result (validate_metadata (te_metadata ev)) (\<lambda>_.
       if te_sentence_id ev = [] \<or> blen (te_sentence_id ev) > 256 then Inl MetadataTooLarge
       else (case te_kind ev of None \<Rightarrow> Inl MissingKind | Some k \<Rightarrow> validate_tts_kind k))"

section \<open>Lemmas\<close>

lemma id_validate_iff: "id_validate i = Inr () \<longleftrightarrow> length i = 16 \<and> (\<exists>b\<in>set i. b \<noteq> 0)"
  by (auto simp: id_validate_def id_from_bytes_def BYTE_LEN_def list_all_iff)

lemma each_valid_iff: "each_valid f xs = Inr () \<longleftrightarrow> (\<forall>x\<in>set xs. f x = Inr ())"
  by (induction xs) (auto simp: bind_result_Inr_iff)

text \<open>A sentence that is accepted has the byte length its offsets say, without wrap-around.\<close>

lemma sentence_ready_exact:
  assumes "validate_sentence_ready s = Inr ()"
  shows "unat (sr_text_end_bytes s) = unat (sr_text_start_bytes s) + blen (sr_text s)"
proof -
  have le: "sr_text_start_bytes s \<le> sr_text_end_bytes s"
    and d: "sr_text_end_bytes s - sr_text_start_bytes s = of_nat (blen (sr_text s))" and b: "blen (sr_text s) \<le> MAX_TEXT_BYTES"
    using assms by (auto simp: validate_sentence_ready_def bind_result_Inr_iff validate_event_text_def split: if_splits)
  have "unat (sr_text_end_bytes s - sr_text_start_bytes s) = blen (sr_text s)"
    unfolding d using b by (simp add: unat_of_nat MAX_TEXT_BYTES_def)
  then show ?thesis using le by (simp add: unat_sub_if_size word_le_nat_alt)
qed

end
