(* ===== verification/Protocol_Effects.thy ===== *)
theory Protocol_Effects
  imports Protocol_Events
begin

text \<open>
  The structured suggestions of a turn on the wire, \<open>crates/protocol/src/effects.rs\<close>: the effects message, the
  validation of one effects value against a policy, and the safe failure contract that replaces a rejected value by the
  neutral one. \<open>serde_json\<close> is a parameter: the record \<open>effects_json\<close> holds the parser and the object test.
\<close>

section \<open>Messages\<close>

datatype emotion =
    EmUnspecified | EmNeutral | EmJoy | EmSadness | EmAnger | EmFear | EmSurprise | EmDisgust | EmContempt | EmConcern | EmAmusement

definition emotions :: "emotion list" where
  "emotions = [EmUnspecified, EmNeutral, EmJoy, EmSadness, EmAnger, EmFear, EmSurprise, EmDisgust, EmContempt, EmConcern, EmAmusement]"

datatype voice_style_v1 = VsUnspecified | VsNeutral | VsWarm | VsTense | VsSomber | VsExcited | VsWhisper | VsShout

definition voice_styles :: "voice_style_v1 list" where
  "voice_styles = [VsUnspecified, VsNeutral, VsWarm, VsTense, VsSomber, VsExcited, VsWhisper, VsShout]"

datatype animation_cue_kind =
  AkUnspecified | AkNod | AkShakeHead | AkLookAtPlayer | AkLookAway | AkGestureOpen | AkGesturePoint | AkIdleShift | AkVisemeStream

definition animation_cue_kinds :: "animation_cue_kind list" where
  "animation_cue_kinds = [AkUnspecified, AkNod, AkShakeHead, AkLookAtPlayer, AkLookAway, AkGestureOpen, AkGesturePoint, AkIdleShift,
     AkVisemeStream]"

datatype interruption_policy = IpUnspecified | IpBargeInAllowed | IpFinishClause | IpUninterruptible

definition interruption_policies :: "interruption_policy list" where
  "interruption_policies = [IpUnspecified, IpBargeInAllowed, IpFinishClause, IpUninterruptible]"

datatype memory_proposal_kind = MkUnspecified | MkEpisodic | MkFact | MkPreference | MkQuestState

definition memory_proposal_kinds :: "memory_proposal_kind list" where
  "memory_proposal_kinds = [MkUnspecified, MkEpisodic, MkFact, MkPreference, MkQuestState]"

datatype relationship_axis = RaUnspecified | RaAffinity | RaTrust | RaRespect | RaFear | RaFamiliarity

definition relationship_axes :: "relationship_axis list" where
  "relationship_axes = [RaUnspecified, RaAffinity, RaTrust, RaRespect, RaFear, RaFamiliarity]"

record animation_cue_v1 =
  ac_kind :: int
  ac_start_offset_ms :: u64
  ac_duration_ms :: u64
  ac_intensity :: fp

record wire_memory_proposal =
  mv_kind :: int
  mv_content :: rstr
  mv_importance :: fp
  mv_expires_after_ms :: "u64 option"
  mv_evidence_turn_ids :: "rstr list"

record relationship_proposal_v1 =
  rv_subject_actor_id :: "wire_id option"
  rv_axis :: int
  rv_delta :: fp
  rv_reason :: rstr

record action_proposal_v1 =
  av_action_id :: rstr
  av_parameters_json :: rstr
  av_rationale :: rstr
  av_requires_confirmation :: bool

record npc_effects_v1 =
  nx_emotion :: int
  nx_valence :: fp
  nx_arousal :: fp
  nx_intensity :: fp
  nx_voice_style :: int
  nx_speaking_rate :: fp
  nx_pitch_semitones :: fp
  nx_energy :: fp
  nx_animation_cues :: "animation_cue_v1 list"
  nx_interruption_policy :: int
  nx_memory_proposals :: "wire_memory_proposal list"
  nx_relationship_proposals :: "relationship_proposal_v1 list"
  nx_action_proposals :: "action_proposal_v1 list"

definition neutral_v1 :: npc_effects_v1 where
  "neutral_v1 = \<lparr>nx_emotion = 1, nx_valence = Fin 0, nx_arousal = Fin 0, nx_intensity = Fin 0, nx_voice_style = 1,
     nx_speaking_rate = Fin 1, nx_pitch_semitones = Fin 0, nx_energy = Fin 1, nx_animation_cues = [], nx_interruption_policy = 1,
     nx_memory_proposals = [], nx_relationship_proposals = [], nx_action_proposals = []\<rparr>"

section \<open>Policy and outcome\<close>

record effects_policy =
  xp_max_animation_cues :: nat
  xp_max_animation_duration_ms :: u64
  xp_max_memory_proposals :: nat
  xp_max_relationship_proposals :: nat
  xp_max_action_proposals :: nat
  xp_max_proposal_text_bytes :: nat
  xp_max_action_json_bytes :: nat
  xp_allowed_action_ids :: "rstr list"

definition default_effects_policy :: effects_policy where
  "default_effects_policy = \<lparr>xp_max_animation_cues = 32, xp_max_animation_duration_ms = 60000, xp_max_memory_proposals = 16,
     xp_max_relationship_proposals = 16, xp_max_action_proposals = 8, xp_max_proposal_text_bytes = 8 * 1024,
     xp_max_action_json_bytes = 16 * 1024, xp_allowed_action_ids = []\<rparr>"

datatype effects_error_v1 =
    XUnknownEnum string | XInvalidRange string | XTooMany string | XInvalidDuration string | XEmptyText string
  | XTextTooLarge string | XMissingActor | XActionNotAllowed rstr | XInvalidActionJson

record effects_outcome =
  xo_effects :: npc_effects_v1
  xo_neutralized :: bool
  xo_error :: "effects_error_v1 option"

record 'j effects_json =
  xj_from_str :: "rstr \<Rightarrow> 'j option"
  xj_is_object :: "'j \<Rightarrow> bool"

section \<open>Validation\<close>

definition known_nonzero :: "'a list \<Rightarrow> int \<Rightarrow> string \<Rightarrow> (effects_error_v1, unit) result" where
  "known_nonzero variants value name =
     (if value = 0 \<or> enum_of variants value = None then Inl (XUnknownEnum name) else Inr ())"

definition finite_range_v1 :: "fp \<Rightarrow> rat \<Rightarrow> rat \<Rightarrow> string \<Rightarrow> (effects_error_v1, unit) result" where
  "finite_range_v1 value minimum maximum name =
     (if fp_is_finite value \<and> fp_in_range minimum maximum value then Inr () else Inl (XInvalidRange name))"

definition bounded_count_v1 :: "nat \<Rightarrow> nat \<Rightarrow> string \<Rightarrow> (effects_error_v1, unit) result" where
  "bounded_count_v1 actual maximum name = (if actual > maximum then Inl (XTooMany name) else Inr ())"

definition validate_content :: "rstr \<Rightarrow> nat \<Rightarrow> string \<Rightarrow> (effects_error_v1, unit) result" where
  "validate_content content policy_max name =
     (if is_blank content then Inl (XEmptyText name)
      else if blen content > min policy_max MAX_TEXT_BYTES then Inl (XTextTooLarge name)
      else Inr ())"

definition validate_animation_cue :: "effects_policy \<Rightarrow> animation_cue_v1 \<Rightarrow> (effects_error_v1, unit) result" where
  "validate_animation_cue p cue =
     bind_result (known_nonzero animation_cue_kinds (ac_kind cue) ''animation cue'') (\<lambda>_.
       if ac_duration_ms cue = 0 \<or> ac_duration_ms cue > xp_max_animation_duration_ms p
       then Inl (XInvalidDuration ''animation cue'')
       else finite_range_v1 (ac_intensity cue) 0 1 ''animation intensity'')"

definition validate_memory_v1 :: "effects_policy \<Rightarrow> wire_memory_proposal \<Rightarrow> (effects_error_v1, unit) result" where
  "validate_memory_v1 p m =
     bind_result (known_nonzero memory_proposal_kinds (mv_kind m) ''memory kind'') (\<lambda>_.
     bind_result (validate_content (mv_content m) (xp_max_proposal_text_bytes p) ''memory'') (\<lambda>_.
     bind_result (finite_range_v1 (mv_importance m) 0 1 ''memory importance'') (\<lambda>_.
     bind_result (bounded_count_v1 (length (mv_evidence_turn_ids m)) 32 ''memory evidence'') (\<lambda>_.
       if list_ex (\<lambda>i. blen i > 64) (mv_evidence_turn_ids m) then Inl (XTextTooLarge ''memory evidence'') else Inr ()))))"

definition validate_relationship_v1 :: "effects_policy \<Rightarrow> relationship_proposal_v1 \<Rightarrow> (effects_error_v1, unit) result" where
  "validate_relationship_v1 p r =
     bind_result (known_nonzero relationship_axes (rv_axis r) ''relationship axis'') (\<lambda>_.
       case rv_subject_actor_id r of
         None \<Rightarrow> Inl XMissingActor
       | Some i \<Rightarrow>
           if id_validate i \<noteq> Inr () then Inl XMissingActor
           else bind_result (finite_range_v1 (rv_delta r) (-1) 1 ''relationship delta'') (\<lambda>_.
                  validate_content (rv_reason r) (xp_max_proposal_text_bytes p) ''relationship reason''))"

definition validate_action_v1 ::
  "'j effects_json \<Rightarrow> effects_policy \<Rightarrow> action_proposal_v1 \<Rightarrow> (effects_error_v1, unit) result" where
  "validate_action_v1 js p a =
     (if av_action_id a \<notin> set (xp_allowed_action_ids p) then Inl (XActionNotAllowed (av_action_id a))
      else if blen (av_parameters_json a) > xp_max_action_json_bytes p then Inl (XTextTooLarge ''action parameters'')
      else (case xj_from_str js (av_parameters_json a) of
              None \<Rightarrow> Inl XInvalidActionJson
            | Some v \<Rightarrow>
                if \<not> xj_is_object js v then Inl XInvalidActionJson
                else if blen (av_rationale a) > xp_max_proposal_text_bytes p then Inl (XTextTooLarge ''action rationale'')
                else Inr ()))"

definition validate_effects_v1 ::
  "'j effects_json \<Rightarrow> effects_policy \<Rightarrow> npc_effects_v1 \<Rightarrow> (effects_error_v1, unit) result" where
  "validate_effects_v1 js p e =
     bind_result (known_nonzero emotions (nx_emotion e) ''emotion'') (\<lambda>_.
     bind_result (known_nonzero voice_styles (nx_voice_style e) ''voice style'') (\<lambda>_.
     bind_result (known_nonzero interruption_policies (nx_interruption_policy e) ''interruption policy'') (\<lambda>_.
     bind_result (finite_range_v1 (nx_valence e) (-1) 1 ''valence'') (\<lambda>_.
     bind_result (finite_range_v1 (nx_arousal e) 0 1 ''arousal'') (\<lambda>_.
     bind_result (finite_range_v1 (nx_intensity e) 0 1 ''intensity'') (\<lambda>_.
     bind_result (finite_range_v1 (nx_speaking_rate e) (1 / 2) 2 ''speaking rate'') (\<lambda>_.
     bind_result (finite_range_v1 (nx_pitch_semitones e) (-12) 12 ''pitch'') (\<lambda>_.
     bind_result (finite_range_v1 (nx_energy e) 0 2 ''energy'') (\<lambda>_.
     bind_result (bounded_count_v1 (length (nx_animation_cues e)) (xp_max_animation_cues p) ''animation cues'') (\<lambda>_.
     bind_result (bounded_count_v1 (length (nx_memory_proposals e)) (xp_max_memory_proposals p) ''memory proposals'') (\<lambda>_.
     bind_result (bounded_count_v1 (length (nx_relationship_proposals e)) (xp_max_relationship_proposals p) ''relationship proposals'') (\<lambda>_.
     bind_result (bounded_count_v1 (length (nx_action_proposals e)) (xp_max_action_proposals p) ''action proposals'') (\<lambda>_.
     bind_result (each_valid (validate_animation_cue p) (nx_animation_cues e)) (\<lambda>_.
     bind_result (each_valid (validate_memory_v1 p) (nx_memory_proposals e)) (\<lambda>_.
     bind_result (each_valid (validate_relationship_v1 p) (nx_relationship_proposals e)) (\<lambda>_.
       each_valid (validate_action_v1 js p) (nx_action_proposals e)))))))))))))))))"

definition validated_or_neutral :: "'j effects_json \<Rightarrow> effects_policy \<Rightarrow> npc_effects_v1 \<Rightarrow> effects_outcome" where
  "validated_or_neutral js p e =
     (case validate_effects_v1 js p e of
        Inr _ \<Rightarrow> \<lparr>xo_effects = e, xo_neutralized = False, xo_error = None\<rparr>
      | Inl err \<Rightarrow> \<lparr>xo_effects = neutral_v1, xo_neutralized = True, xo_error = Some err\<rparr>)"

section \<open>Properties\<close>

lemmas effects_check_defs =
  known_nonzero_def finite_range_v1_def bounded_count_v1_def validate_content_def validate_animation_cue_def validate_memory_v1_def
  validate_relationship_v1_def

lemma finite_range_v1_iff: "finite_range_v1 v lo hi n = Inr () \<longleftrightarrow> fp_in_range lo hi v"
  by (auto simp: finite_range_v1_def fp_in_range_finite)

lemma known_nonzero_iff:
  "known_nonzero vs v n = Inr () \<longleftrightarrow> 0 < v \<and> v < int (length vs)"
  by (auto simp: known_nonzero_def enum_of_def)

lemma bounded_count_v1_iff: "bounded_count_v1 k m n = Inr () \<longleftrightarrow> k \<le> m"
  by (auto simp: bounded_count_v1_def)

lemmas effects_check_iffs = finite_range_v1_iff known_nonzero_iff bounded_count_v1_iff each_valid_iff bind_result_Inr_iff

text \<open>The neutral value is accepted by every policy, so falling back to it never fails.\<close>

lemma neutral_v1_valid: "validate_effects_v1 js p neutral_v1 = Inr ()"
  by (simp add: validate_effects_v1_def neutral_v1_def effects_check_iffs emotions_def voice_styles_def interruption_policies_def
      Inr_Inl_False)

lemma validate_action_v1_allowed:
  "validate_action_v1 js p a = Inr () \<Longrightarrow> av_action_id a \<in> set (xp_allowed_action_ids p)
     \<and> (\<exists>v. xj_from_str js (av_parameters_json a) = Some v \<and> xj_is_object js v)"
  by (auto simp: validate_action_v1_def split: if_splits option.splits)

text \<open>
  C38. The effects that leave the validation satisfy the policy, whatever came in: they validate, every action in them is on the
  allowlist with a JSON object as its parameters, and they are the given effects unless the outcome says otherwise.
\<close>

theorem effects_outcome_safe:
  "validate_effects_v1 js p (xo_effects (validated_or_neutral js p e)) = Inr ()
     \<and> (\<forall>a \<in> set (nx_action_proposals (xo_effects (validated_or_neutral js p e))).
          av_action_id a \<in> set (xp_allowed_action_ids p)
          \<and> (\<exists>v. xj_from_str js (av_parameters_json a) = Some v \<and> xj_is_object js v))
     \<and> (xo_neutralized (validated_or_neutral js p e) \<longleftrightarrow> validate_effects_v1 js p e \<noteq> Inr ())
     \<and> xo_effects (validated_or_neutral js p e) = (if validate_effects_v1 js p e = Inr () then e else neutral_v1)"
proof -
  let ?o = "validated_or_neutral js p e"
  have shape: "xo_effects ?o = (if validate_effects_v1 js p e = Inr () then e else neutral_v1)"
    "xo_neutralized ?o \<longleftrightarrow> validate_effects_v1 js p e \<noteq> Inr ()"
    by (auto simp: validated_or_neutral_def split: sum.splits)
  then have ok: "validate_effects_v1 js p (xo_effects ?o) = Inr ()" by (simp add: neutral_v1_valid)
  then have "\<forall>a \<in> set (nx_action_proposals (xo_effects ?o)). validate_action_v1 js p a = Inr ()"
    by (simp add: validate_effects_v1_def effects_check_iffs)
  then show ?thesis using ok shape validate_action_v1_allowed by blast
qed

definition sample_effects_json :: "unit effects_json" where
  "sample_effects_json = \<lparr>xj_from_str = (\<lambda>s. if s = lit ''{}'' then Some () else None), xj_is_object = (\<lambda>_. True)\<rparr>"

definition sample_effects_policy :: effects_policy where
  "sample_effects_policy = default_effects_policy\<lparr>xp_allowed_action_ids := [lit ''wave'']\<rparr>"

definition sample_action :: "string \<Rightarrow> action_proposal_v1" where
  "sample_action j = \<lparr>av_action_id = lit ''wave'', av_parameters_json = lit j, av_rationale = [], av_requires_confirmation = False\<rparr>"

definition sample_effects :: "string \<Rightarrow> npc_effects_v1" where
  "sample_effects j = neutral_v1\<lparr>nx_action_proposals := [sample_action j]\<rparr>"

lemma sample_effects_check:
  "validate_effects_v1 sample_effects_json sample_effects_policy (sample_effects j)
     = validate_action_v1 sample_effects_json sample_effects_policy (sample_action j)"
  by (cases "validate_action_v1 sample_effects_json sample_effects_policy (sample_action j)")
     (simp_all add: sample_effects_def sample_effects_policy_def validate_effects_v1_def neutral_v1_def known_nonzero_def
      enum_of_def emotions_def voice_styles_def interruption_policies_def finite_range_v1_def bounded_count_v1_def
      default_effects_policy_def)

theorem effects_outcome_safe_witness:
  "xo_neutralized (validated_or_neutral sample_effects_json sample_effects_policy (sample_effects ''[1''))
     \<and> \<not> xo_neutralized (validated_or_neutral sample_effects_json sample_effects_policy (sample_effects ''{}''))
     \<and> lit ''wave'' \<in> set (xp_allowed_action_ids sample_effects_policy)"
proof -
  have bl: "blen (lit ''{}'') = 2" "blen (lit ''[1'') = 2" "blen [] = 0" by code_simp+
  have act: "validate_action_v1 sample_effects_json sample_effects_policy (sample_action ''[1'') = Inl XInvalidActionJson"
    "validate_action_v1 sample_effects_json sample_effects_policy (sample_action ''{}'') = Inr ()"
    by (simp_all add: validate_action_v1_def sample_effects_json_def sample_action_def sample_effects_policy_def default_effects_policy_def bl)
  have "sample_action ''{}'' \<in> set (nx_action_proposals (sample_effects ''{}''))" by (simp add: sample_effects_def)
  then have "av_action_id (sample_action ''{}'') \<in> set (xp_allowed_action_ids sample_effects_policy)"
    using effects_outcome_safe [of sample_effects_json sample_effects_policy "sample_effects ''{}''"] act(2)
    by (simp add: sample_effects_check)
  then show ?thesis
    using effects_outcome_safe [of sample_effects_json sample_effects_policy "sample_effects ''[1''"]
      effects_outcome_safe [of sample_effects_json sample_effects_policy "sample_effects ''{}''"] act
    by (simp add: sample_effects_check sample_action_def)
qed

end
