(* ===== verification/Protocol_Envelope.thy ===== *)
theory Protocol_Envelope
  imports Protocol_Version Protocol_Effects
begin

text \<open>
  The transport envelope, \<open>crates/protocol/src/envelope.rs\<close>: the messages it carries, its validation against a context,
  the length-prefixed frame, and the sequence tracker of a channel. The protocol-buffer code that \<open>prost\<close> generates is a
  parameter, the record \<open>wire_api\<close>: the encoded lengths, the encoder and the decoder. Counters are 64-bit words and the
  declared body size is a 32-bit word; the \<open>usize\<close> lengths are \<open>nat\<close>.
\<close>

unbundle bit_operations_syntax

section \<open>Messages\<close>

datatype ordering_policy = StrictContiguous | Monotonic

record heartbeat =
  hb_uptime_ms :: u64
  hb_component :: rstr
  hb_state :: rstr

record ack =
  ak_acknowledged_sequence :: u64
  ak_observed_cancellation_generation :: u64

record cancel_request =
  cr_new_generation :: u64
  cr_reason :: rstr

record actor_selected =
  as_actor_id :: "wire_id option"
  as_display_name :: rstr
  as_explicit_user_selection :: bool
  as_identity_confidence :: "fp option"

datatype control_operation =
    CoUnspecified | CoPing | CoDoctor | CoValidateProfiles | CoSimulateTurn | CoCancel | CoShutdown | CoDiscoverTtsVoices
  | CoTranscribeSelectedStt

definition control_operations :: "control_operation list" where
  "control_operations = [CoUnspecified, CoPing, CoDoctor, CoValidateProfiles, CoSimulateTurn, CoCancel, CoShutdown,
     CoDiscoverTtsVoices, CoTranscribeSelectedStt]"

text \<open>The generated getter of an enumeration field falls back to the default variant.\<close>

definition control_operation_of :: "int \<Rightarrow> control_operation" where
  "control_operation_of n = (case enum_of control_operations n of Some c \<Rightarrow> c | None \<Rightarrow> CoUnspecified)"

record control_request =
  cq_request_id :: "wire_id option"
  cq_operation :: int
  cq_payload_json :: "byte list"

datatype control_response_body = SuccessJson "byte list" | ResponseError ipc_error

record control_response =
  cs_request_id :: "wire_id option"
  cs_request_sequence :: u64
  cs_operation :: int
  cs_body :: "control_response_body option"

datatype envelope_body =
    BNegotiationHello negotiation_hello
  | BNegotiationAccepted negotiation_accepted
  | BHeartbeat heartbeat
  | BAck ack
  | BCancel cancel_request
  | BStt stt_event
  | BLlm llm_event
  | BTts tts_event
  | BEffects npc_effects_v1
  | BError ipc_error
  | BActorSelected actor_selected
  | BControlRequest control_request
  | BControlResponse control_response

record envelope =
  en_protocol_version :: "protocol_version option"
  en_launch_nonce :: "wire_id option"
  en_session_id :: "wire_id option"
  en_turn_id :: "wire_id option"
  en_trace_id :: "wire_id option"
  en_sequence :: u64
  en_qpc_timestamp_ticks :: u64
  en_qpc_frequency_hz :: u64
  en_deadline_qpc_ticks :: u64
  en_cancellation_generation :: u64
  en_declared_body_bytes :: "32 word"
  en_body :: "envelope_body option"

datatype envelope_error =
    MissingVersion | UnsupportedVersion protocol_version | MissingLaunchNonce | InvalidLaunchNonce | StaleLaunch
  | MissingSession | InvalidSession | WrongSession | MissingTurn | InvalidTurn | MissingTrace | InvalidTrace
  | ZeroSequence | ZeroQpcFrequency | InvalidDeadline | DeadlineExceeded | MissingBody | MalformedBody
  | DeclaredSizeMismatch nat nat | BodyTooLarge nat | FrameTooLarge nat | TruncatedLengthPrefix
  | FrameLengthMismatch nat nat | DecodeFailed rstr | ReplayOrReorder u64 u64 | SequenceGap u64 u64
  | StaleCancellationGeneration u64 u64

record validation_context =
  vc_accepted_versions :: version_range
  vc_expected_launch_nonce :: "wire_id option"
  vc_expected_session_id :: "wire_id option"
  vc_now_qpc_ticks :: u64
  vc_max_body_bytes :: nat
  vc_max_frame_bytes :: nat

record wire_api =
  wx_body_len :: "envelope_body \<Rightarrow> nat"
  wx_encoded_len :: "envelope \<Rightarrow> nat"
  wx_encode :: "envelope \<Rightarrow> (rstr, byte list) result"
  wx_decode :: "byte list \<Rightarrow> (rstr, envelope) result"

definition DEFAULT_MAX_FRAME_BYTES :: nat where
  "DEFAULT_MAX_FRAME_BYTES = 8 * 1024 * 1024"

definition DEFAULT_MAX_BODY_BYTES :: nat where
  "DEFAULT_MAX_BODY_BYTES = 4 * 1024 * 1024"

definition permissive_for_time :: "u64 \<Rightarrow> validation_context" where
  "permissive_for_time now = \<lparr>vc_accepted_versions = V1_range, vc_expected_launch_nonce = None, vc_expected_session_id = None,
     vc_now_qpc_ticks = now, vc_max_body_bytes = DEFAULT_MAX_BODY_BYTES, vc_max_frame_bytes = DEFAULT_MAX_FRAME_BYTES\<rparr>"

section \<open>Control messages\<close>

definition turn_bound_operation :: "int \<Rightarrow> bool" where
  "turn_bound_operation n \<longleftrightarrow> control_operation_of n \<in> {CoSimulateTurn, CoTranscribeSelectedStt}"

text \<open>\<open>as_ref().ok_or(missing)?.validate().map_err(|_| invalid)?\<close>, the test of every identifier field.\<close>

definition require_id :: "envelope_error \<Rightarrow> envelope_error \<Rightarrow> wire_id option \<Rightarrow> (envelope_error, wire_id) result" where
  "require_id missing invalid field =
     (case field of None \<Rightarrow> Inl missing | Some i \<Rightarrow> if id_validate i = Inr () then Inr i else Inl invalid)"

definition validate_control_request :: "control_request \<Rightarrow> (envelope_error, unit) result" where
  "validate_control_request q =
     bind_result (require_id MalformedBody MalformedBody (cq_request_id q)) (\<lambda>_.
       if control_operation_of (cq_operation q) = CoUnspecified \<or> length (cq_payload_json q) > DEFAULT_MAX_BODY_BYTES div 2
       then Inl MalformedBody else Inr ())"

definition validate_control_response :: "control_response \<Rightarrow> (envelope_error, unit) result" where
  "validate_control_response s =
     bind_result (require_id MalformedBody MalformedBody (cs_request_id s)) (\<lambda>_.
       if cs_request_sequence s = 0 \<or> control_operation_of (cs_operation s) = CoUnspecified then Inl MalformedBody
       else (case cs_body s of
               None \<Rightarrow> Inl MalformedBody
             | Some (SuccessJson json) \<Rightarrow> if length json \<le> DEFAULT_MAX_BODY_BYTES div 2 then Inr () else Inl MalformedBody
             | Some (ResponseError e) \<Rightarrow> if validate_ipc_error e = Inr () then Inr () else Inl MalformedBody))"

section \<open>Building and validating an envelope\<close>

definition body_payload_len :: "wire_api \<Rightarrow> envelope \<Rightarrow> (envelope_error, nat) result" where
  "body_payload_len w e = (case en_body e of None \<Rightarrow> Inl MissingBody | Some b \<Rightarrow> Inr (wx_body_len w b))"

definition synchronize_declared_size :: "wire_api \<Rightarrow> envelope \<Rightarrow> (envelope_error, envelope) result" where
  "synchronize_declared_size w e =
     bind_result (body_payload_len w e) (\<lambda>body_bytes.
       if body_bytes \<le> u32_max then Inr (e\<lparr>en_declared_body_bytes := of_nat body_bytes\<rparr>) else Inl (BodyTooLarge body_bytes))"

definition new_envelope ::
  "wire_api \<Rightarrow> wire_id \<Rightarrow> wire_id \<Rightarrow> wire_id option \<Rightarrow> wire_id \<Rightarrow> u64 \<Rightarrow> u64 \<Rightarrow> u64 \<Rightarrow> u64 \<Rightarrow> u64 \<Rightarrow> envelope_body
     \<Rightarrow> (envelope_error, envelope) result" where
  "new_envelope w nonce session turn trace_id sequence timestamp frequency deadline generation body =
     synchronize_declared_size w
       \<lparr>en_protocol_version = Some V1_0_0, en_launch_nonce = Some nonce, en_session_id = Some session, en_turn_id = turn,
        en_trace_id = Some trace_id, en_sequence = sequence, en_qpc_timestamp_ticks = timestamp, en_qpc_frequency_hz = frequency,
        en_deadline_qpc_ticks = deadline, en_cancellation_generation = generation, en_declared_body_bytes = 0,
        en_body = Some body\<rparr>"

fun body_requires_turn :: "envelope_body \<Rightarrow> bool" where
  "body_requires_turn (BStt _) = True"
| "body_requires_turn (BLlm _) = True"
| "body_requires_turn (BTts _) = True"
| "body_requires_turn (BEffects _) = True"
| "body_requires_turn (BControlRequest q) = turn_bound_operation (cq_operation q)"
| "body_requires_turn (BControlResponse s) = turn_bound_operation (cs_operation s)"
| "body_requires_turn _ = False"

definition requires_turn :: "envelope \<Rightarrow> bool" where
  "requires_turn e = (case en_body e of None \<Rightarrow> False | Some b \<Rightarrow> body_requires_turn b)"

definition malformed_unless :: "bool \<Rightarrow> (envelope_error, unit) result" where
  "malformed_unless ok = (if ok then Inr () else Inl MalformedBody)"

fun validate_body_of :: "u64 \<Rightarrow> envelope_body \<Rightarrow> (envelope_error, unit) result" where
  "validate_body_of generation (BNegotiationHello hello) =
     (case hello_range hello of
        Inl _ \<Rightarrow> Inl MalformedBody
      | Inr remote \<Rightarrow> (case negotiate V1_range remote of Inl _ \<Rightarrow> Inl MalformedBody | Inr _ \<Rightarrow> Inr ()))"
| "validate_body_of generation (BNegotiationAccepted accepted) = malformed_unless (na_selected accepted \<noteq> None)"
| "validate_body_of generation (BHeartbeat h) =
     malformed_unless (\<not> (hb_component h = [] \<or> blen (hb_component h) > 128 \<or> blen (hb_state h) > 128))"
| "validate_body_of generation (BAck a) = malformed_unless (ak_acknowledged_sequence a \<noteq> 0)"
| "validate_body_of generation (BCancel c) =
     malformed_unless (\<not> (cr_new_generation c \<le> generation \<or> blen (cr_reason c) > 1024))"
| "validate_body_of generation (BStt ev) = malformed_unless (validate_stt_event ev = Inr ())"
| "validate_body_of generation (BLlm ev) = malformed_unless (validate_llm_event ev = Inr ())"
| "validate_body_of generation (BTts ev) = malformed_unless (validate_tts_event ev = Inr ())"
| "validate_body_of generation (BEffects _) = Inr ()"
| "validate_body_of generation (BError e) = malformed_unless (validate_ipc_error e = Inr ())"
| "validate_body_of generation (BActorSelected s) =
     bind_result (require_id MalformedBody MalformedBody (as_actor_id s)) (\<lambda>_.
       malformed_unless (\<not> (is_blank (as_display_name s) \<or> blen (as_display_name s) > 256
         \<or> (case as_identity_confidence s of None \<Rightarrow> False | Some c \<Rightarrow> \<not> fp_is_finite c \<or> \<not> fp_in_range 0 1 c))))"
| "validate_body_of generation (BControlRequest q) = validate_control_request q"
| "validate_body_of generation (BControlResponse s) = validate_control_response s"

definition validate_body :: "envelope \<Rightarrow> (envelope_error, unit) result" where
  "validate_body e = (case en_body e of None \<Rightarrow> Inl MissingBody | Some b \<Rightarrow> validate_body_of (en_cancellation_generation e) b)"

definition expect_id :: "envelope_error \<Rightarrow> wire_id option \<Rightarrow> wire_id \<Rightarrow> (envelope_error, unit) result" where
  "expect_id mismatch expected i = (case expected of Some x \<Rightarrow> if i \<noteq> x then Inl mismatch else Inr () | None \<Rightarrow> Inr ())"

definition validate_version :: "envelope \<Rightarrow> validation_context \<Rightarrow> (envelope_error, unit) result" where
  "validate_version e c =
     (case en_protocol_version e of
        None \<Rightarrow> Inl MissingVersion
      | Some v \<Rightarrow> if range_contains (vc_accepted_versions c) v then Inr () else Inl (UnsupportedVersion v))"

definition validate_turn :: "envelope \<Rightarrow> (envelope_error, unit) result" where
  "validate_turn e =
     (if requires_turn e \<or> en_turn_id e \<noteq> None
      then bind_result (require_id MissingTurn InvalidTurn (en_turn_id e)) (\<lambda>_. Inr ()) else Inr ())"

definition validate_clock :: "envelope \<Rightarrow> validation_context \<Rightarrow> (envelope_error, unit) result" where
  "validate_clock e c =
     (if en_sequence e = 0 then Inl ZeroSequence
      else if en_qpc_frequency_hz e = 0 then Inl ZeroQpcFrequency
      else if en_deadline_qpc_ticks e \<le> en_qpc_timestamp_ticks e then Inl InvalidDeadline
      else if vc_now_qpc_ticks c > en_deadline_qpc_ticks e then Inl DeadlineExceeded
      else Inr ())"

definition validate_sizes :: "wire_api \<Rightarrow> envelope \<Rightarrow> validation_context \<Rightarrow> (envelope_error, unit) result" where
  "validate_sizes w e c =
     bind_result (body_payload_len w e) (\<lambda>actual.
       if actual > vc_max_body_bytes c then Inl (BodyTooLarge actual)
       else if unat (en_declared_body_bytes e) \<noteq> actual then Inl (DeclaredSizeMismatch (unat (en_declared_body_bytes e)) actual)
       else if wx_encoded_len w e + 4 > vc_max_frame_bytes c then Inl (FrameTooLarge (wx_encoded_len w e + 4))
       else Inr ())"

definition validate_envelope_v1 :: "wire_api \<Rightarrow> envelope \<Rightarrow> validation_context \<Rightarrow> (envelope_error, unit) result" where
  "validate_envelope_v1 w e c =
     bind_result (validate_version e c) (\<lambda>_.
     bind_result (require_id MissingLaunchNonce InvalidLaunchNonce (en_launch_nonce e)) (\<lambda>nonce.
     bind_result (expect_id StaleLaunch (vc_expected_launch_nonce c) nonce) (\<lambda>_.
     bind_result (require_id MissingSession InvalidSession (en_session_id e)) (\<lambda>session.
     bind_result (expect_id WrongSession (vc_expected_session_id c) session) (\<lambda>_.
     bind_result (validate_turn e) (\<lambda>_.
     bind_result (require_id MissingTrace InvalidTrace (en_trace_id e)) (\<lambda>_.
     bind_result (validate_clock e c) (\<lambda>_.
     bind_result (validate_sizes w e c) (\<lambda>_.
       validate_body e)))))))))"

section \<open>The sequence tracker\<close>

record sequence_tracker =
  sk_expected_launch_nonce :: wire_id
  sk_expected_session_id :: wire_id
  sk_last_sequence :: u64
  sk_highest_cancellation_generation :: u64
  sk_ordering :: ordering_policy

definition new_sequence_tracker :: "wire_id \<Rightarrow> wire_id \<Rightarrow> ordering_policy \<Rightarrow> sequence_tracker" where
  "new_sequence_tracker nonce session policy = \<lparr>sk_expected_launch_nonce = nonce, sk_expected_session_id = session,
     sk_last_sequence = 0, sk_highest_cancellation_generation = 0, sk_ordering = policy\<rparr>"

definition pinned_context :: "sequence_tracker \<Rightarrow> validation_context \<Rightarrow> validation_context" where
  "pinned_context t c = c\<lparr>vc_expected_launch_nonce := Some (sk_expected_launch_nonce t),
     vc_expected_session_id := Some (sk_expected_session_id t)\<rparr>"

definition observe_envelope ::
  "wire_api \<Rightarrow> sequence_tracker \<Rightarrow> envelope \<Rightarrow> validation_context \<Rightarrow> (envelope_error, unit) result \<times> sequence_tracker" where
  "observe_envelope w t e c =
     (case validate_envelope_v1 w e (pinned_context t c) of
        Inl err \<Rightarrow> (Inl err, t)
      | Inr _ \<Rightarrow>
          if en_sequence e \<le> sk_last_sequence t then (Inl (ReplayOrReorder (sk_last_sequence t) (en_sequence e)), t)
          else if sk_ordering t = StrictContiguous \<and> en_sequence e \<noteq> sk_last_sequence t + 1
          then (Inl (SequenceGap (sk_last_sequence t + 1) (en_sequence e)), t)
          else if en_cancellation_generation e < sk_highest_cancellation_generation t
          then (Inl (StaleCancellationGeneration (sk_highest_cancellation_generation t) (en_cancellation_generation e)), t)
          else (Inr (), t\<lparr>sk_last_sequence := en_sequence e,
                 sk_highest_cancellation_generation :=
                   max (sk_highest_cancellation_generation t) (en_cancellation_generation e)\<rparr>))"

section \<open>Frames\<close>

text \<open>\<open>u32::to_le_bytes\<close> and \<open>u32::from_le_bytes\<close>.\<close>

definition to_le_bytes :: "32 word \<Rightarrow> byte list" where
  "to_le_bytes n = map (\<lambda>i. ucast (drop_bit (8 * i) n)) [0, 1, 2, 3]"

definition from_le_bytes :: "byte list \<Rightarrow> 32 word" where
  "from_le_bytes bs = foldr (\<lambda>b acc. push_bit 8 acc OR ucast b) bs 0"

definition encode_frame :: "wire_api \<Rightarrow> envelope \<Rightarrow> validation_context \<Rightarrow> (envelope_error, byte list) result" where
  "encode_frame w e c =
     bind_result (validate_envelope_v1 w e c) (\<lambda>_.
       let encoded_len = wx_encoded_len w e in
       if encoded_len + 4 > vc_max_frame_bytes c then Inl (FrameTooLarge (encoded_len + 4))
       else if encoded_len > u32_max then Inl (FrameTooLarge (encoded_len + 4))
       else (case wx_encode w e of
               Inl err \<Rightarrow> Inl (DecodeFailed err)
             | Inr payload \<Rightarrow> Inr (to_le_bytes (of_nat encoded_len) @ payload)))"

definition decode_frame :: "wire_api \<Rightarrow> byte list \<Rightarrow> validation_context \<Rightarrow> (envelope_error, envelope) result" where
  "decode_frame w frame c =
     (if length frame < 4 then Inl TruncatedLengthPrefix
      else if length frame > vc_max_frame_bytes c then Inl (FrameTooLarge (length frame))
      else
        (let declared = unat (from_le_bytes (take 4 frame)); actual = length frame - 4 in
         if declared \<noteq> actual then Inl (FrameLengthMismatch declared actual)
         else (case wx_decode w (drop 4 frame) of
                 Inl err \<Rightarrow> Inl (DecodeFailed err)
               | Inr e \<Rightarrow> bind_result (validate_envelope_v1 w e c) (\<lambda>_. Inr e))))"

end
