(* ===== verification/Watermarks.thy ===== *)
theory Watermarks
  imports Prelude
begin

text \<open>
  Streams of messages of which a checker accepts some and advances a mark: the sequence tracker of a channel, the trust state
  of the model catalog and that of the resource measurements. The locale \<open>watermark\<close> states the contract once; its clients
  interpret it with their own order on marks.
\<close>

text \<open>The messages that a step function accepts, in order; a rejected message passes its state on as well.\<close>

fun accepted_by :: "('s \<Rightarrow> 'm \<Rightarrow> bool \<times> 's) \<Rightarrow> 's \<Rightarrow> 'm list \<Rightarrow> 'm list" where
  "accepted_by f s [] = []"
| "accepted_by f s (m # ms) = (case f s m of (ok, s') \<Rightarrow> if ok then m # accepted_by f s' ms else accepted_by f s' ms)"

fun state_after :: "('s \<Rightarrow> 'm \<Rightarrow> bool \<times> 's) \<Rightarrow> 's \<Rightarrow> 'm list \<Rightarrow> 's" where
  "state_after f s [] = s"
| "state_after f s (m # ms) = state_after f (snd (f s m)) ms"

locale watermark =
  fixes step :: "'s \<Rightarrow> 'm \<Rightarrow> bool \<times> 's"
    and inv :: "'s \<Rightarrow> bool"
    and mark :: "'s \<Rightarrow> 'k"
    and key :: "'m \<Rightarrow> 'k"
    and rel :: "'k \<Rightarrow> 'k \<Rightarrow> bool"
  assumes keeps: "inv s \<Longrightarrow> step s m = (ok, s') \<Longrightarrow> inv s'"
    and accepts: "inv s \<Longrightarrow> step s m = (True, s') \<Longrightarrow> rel (mark s) (key m) \<and> mark s' = key m"
    and rejects: "inv s \<Longrightarrow> step s m = (False, s') \<Longrightarrow> mark s' = mark s"
begin

lemma accepted_chain: "inv s \<Longrightarrow> successively rel (mark s # map key (accepted_by step s ms))"
proof (induction ms arbitrary: s)
  case (Cons m ms)
  obtain ok s' where st: "step s m = (ok, s')" by fastforce
  from Cons.IH [OF keeps [OF Cons.prems st]] show ?case
    using accepts [OF Cons.prems] rejects [OF Cons.prems] st by (cases ok) auto
qed simp

lemma mark_is_last_accepted:
  "inv s \<Longrightarrow> mark (state_after step s ms) = last (mark s # map key (accepted_by step s ms))"
proof (induction ms arbitrary: s)
  case (Cons m ms)
  obtain ok s' where st: "step s m = (ok, s')" by fastforce
  from Cons.IH [OF keeps [OF Cons.prems st]] show ?case
    using accepts [OF Cons.prems] rejects [OF Cons.prems] st by (cases ok) auto
qed simp

lemma accepted_sorted:
  "transp rel \<Longrightarrow> inv s \<Longrightarrow> sorted_wrt rel (mark s # map key (accepted_by step s ms))"
  using accepted_chain [of s ms] by (simp only: successively_conv_sorted_wrt)

end

lemma accepted_by_all:
  assumes "\<And>s m ok s'. I s \<Longrightarrow> f s m = (ok, s') \<Longrightarrow> I s' \<and> (ok \<longrightarrow> P m)"
  shows "I s \<Longrightarrow> \<forall>m\<in>set (accepted_by f s ms). P m"
proof (induction ms arbitrary: s)
  case (Cons m ms)
  obtain ok s' where "f s m = (ok, s')" by fastforce
  then show ?case using assms [OF Cons.prems] Cons.IH [of s'] by auto
qed simp

text \<open>A reflexive and transitive relation that every step keeps holds between the first and the last state.\<close>

lemma state_after_related:
  assumes "\<And>s m. R s (snd (f s m))" and "reflp R" and "transp R"
  shows "R s (state_after f s ms)"
proof (induction ms arbitrary: s)
  case (Cons m ms)
  then show ?case using assms(1) [of s m] assms(3) by (auto elim: transpE)
qed (use assms(2) in \<open>auto elim: reflpE\<close>)

end
