(* ===== verification/Protocol_Channel.thy ===== *)
theory Protocol_Channel
  imports Protocol_Envelope Watermarks
begin

text \<open>
  What the envelope layer guarantees. The sequence tracker is an interpretation of the locale \<open>watermark\<close> three times, for
  sequence numbers, for contiguity and for cancellation generations. The frame round trip rests on one documented fact of the generated encoder, \<open>wire_faithful\<close>.
\<close>

section \<open>The tracker as a watermark\<close>

definition observe_step ::
  "wire_api \<Rightarrow> sequence_tracker \<Rightarrow> envelope \<times> validation_context \<Rightarrow> bool \<times> sequence_tracker" where
  "observe_step w t m = (case observe_envelope w t (fst m) (snd m) of (r, t') \<Rightarrow> (r = Inr (), t'))"

lemma observe_step_accepts:
  assumes "observe_step w t m = (True, t')"
  shows "validate_envelope_v1 w (fst m) (pinned_context t (snd m)) = Inr ()"
    and "sk_last_sequence t < en_sequence (fst m)"
    and "sk_ordering t = StrictContiguous \<Longrightarrow> en_sequence (fst m) = sk_last_sequence t + 1"
    and "sk_highest_cancellation_generation t \<le> en_cancellation_generation (fst m)"
    and "t' = t\<lparr>sk_last_sequence := en_sequence (fst m), sk_highest_cancellation_generation := en_cancellation_generation (fst m)\<rparr>"
  using assms by (auto simp: observe_step_def observe_envelope_def not_le not_less max_absorb2 split: sum.splits if_splits)

lemma observe_step_rejects: "observe_step w t m = (False, t') \<Longrightarrow> t' = t"
  by (auto simp: observe_step_def observe_envelope_def split: sum.splits if_splits)

definition pinned_to :: "wire_id \<Rightarrow> wire_id \<Rightarrow> ordering_policy \<Rightarrow> sequence_tracker \<Rightarrow> bool" where
  "pinned_to nonce session policy t \<longleftrightarrow>
     sk_expected_launch_nonce t = nonce \<and> sk_expected_session_id t = session \<and> sk_ordering t = policy"

lemma pinned_to_step: "pinned_to n s p t \<Longrightarrow> observe_step w t m = (ok, t') \<Longrightarrow> pinned_to n s p t'"
  using observe_step_rejects [of w t m t'] observe_step_accepts(5) [of w t m t'] by (cases ok) (auto simp: pinned_to_def)

lemma pinned_to_new: "pinned_to n s p (new_sequence_tracker n s p)"
  by (simp add: pinned_to_def new_sequence_tracker_def)

interpretation seq_mark: watermark "observe_step w" "pinned_to n s p" sk_last_sequence "en_sequence \<circ> fst" "(<)"
  for w n s p
  by unfold_locales (auto dest: observe_step_rejects observe_step_accepts(2,5) pinned_to_step)

interpretation strict_mark: watermark "observe_step w" "pinned_to n s StrictContiguous" "\<lambda>t. unat (sk_last_sequence t)"
  "\<lambda>m. unat (en_sequence (fst m))" "\<lambda>a b. b = Suc a"
  for w n s
proof unfold_locales
  fix t m t' assume inv: "pinned_to n s StrictContiguous t" and st: "observe_step w t m = (True, t')"
  have "en_sequence (fst m) = sk_last_sequence t + 1" "sk_last_sequence t < en_sequence (fst m)"
    using observe_step_accepts [OF st] inv by (simp_all add: pinned_to_def)
  then have "unat (en_sequence (fst m)) = Suc (unat (sk_last_sequence t))"
    by (metis add.commute unatSuc word_not_simps(1))
  then show "unat (en_sequence (fst m)) = Suc (unat (sk_last_sequence t)) \<and> unat (sk_last_sequence t') = unat (en_sequence (fst m))"
    using observe_step_accepts(5) [OF st] by simp
qed (auto dest: observe_step_rejects pinned_to_step)

interpretation generation_mark: watermark "observe_step w" "pinned_to n s p" sk_highest_cancellation_generation
  "en_cancellation_generation \<circ> fst" "(\<le>)"
  for w n s p
  by unfold_locales (auto dest: observe_step_rejects observe_step_accepts(4,5) pinned_to_step)

section \<open>What a channel delivers\<close>

lemma validate_envelope_pins:
  assumes "validate_envelope_v1 w e c = Inr ()"
  shows "vc_expected_launch_nonce c = Some n \<Longrightarrow> en_launch_nonce e = Some n"
    and "vc_expected_session_id c = Some s \<Longrightarrow> en_session_id e = Some s"
    and "requires_turn e \<Longrightarrow> \<exists>i. en_turn_id e = Some i \<and> id_validate i = Inr ()"
    and "vc_now_qpc_ticks c \<le> en_deadline_qpc_ticks e"
    and "wx_encoded_len w e + 4 \<le> vc_max_frame_bytes c"
  using assms
  by (auto simp: validate_envelope_v1_def bind_result_Inr_iff require_id_def expect_id_def validate_turn_def validate_clock_def
      validate_sizes_def not_less split: option.splits if_splits)

lemma observe_step_pins:
  assumes "observe_step w t m = (True, t')"
  shows "en_launch_nonce (fst m) = Some (sk_expected_launch_nonce t)"
    and "en_session_id (fst m) = Some (sk_expected_session_id t)"
    and "vc_now_qpc_ticks (snd m) \<le> en_deadline_qpc_ticks (fst m)"
  using validate_envelope_pins(1,2,4) [OF observe_step_accepts(1) [OF assms]] by (simp_all add: pinned_context_def)

lemma chain_from_zero: "successively (\<lambda>a b. b = Suc a) (k # xs) \<Longrightarrow> xs = [Suc k..<Suc (k + length xs)]"
proof (induction xs arbitrary: k)
  case (Cons x xs)
  from Cons.prems have x: "x = Suc k" and ch: "successively (\<lambda>a b. b = Suc a) (x # xs)" by auto
  have xs: "xs = [Suc x..<Suc (x + length xs)]" by (rule Cons.IH [OF ch])
  have "[Suc k..<Suc (k + length (x # xs))] = Suc k # [Suc (Suc k)..<Suc (k + length (x # xs))]"
    by (rule upt_conv_Cons) simp
  then show ?case using x xs by (simp del: upt_Suc)
qed simp

definition channel_accepts ::
  "wire_api \<Rightarrow> wire_id \<Rightarrow> wire_id \<Rightarrow> ordering_policy \<Rightarrow> (envelope \<times> validation_context) list \<Rightarrow> (envelope \<times> validation_context) list" where
  "channel_accepts w n s p ms = accepted_by (observe_step w) (new_sequence_tracker n s p) ms"

definition channel_state ::
  "wire_api \<Rightarrow> wire_id \<Rightarrow> wire_id \<Rightarrow> ordering_policy \<Rightarrow> (envelope \<times> validation_context) list \<Rightarrow> sequence_tracker" where
  "channel_state w n s p ms = state_after (observe_step w) (new_sequence_tracker n s p) ms"

lemmas channel_defs = channel_accepts_def channel_state_def

text \<open>
  C32. A channel delivers in order: whatever envelopes arrive, the accepted ones belong to the launch and session of the
  tracker and were not past their deadline, their sequence numbers increase strictly from one on, their cancellation
  generations never go back, a contiguous channel accepts exactly the numbers one, two, three and so on, and the tracker's
  watermarks are those of the last accepted envelope, so rejected envelopes leave no trace.
\<close>

theorem channel_delivers_in_order:
  "(\<forall>m\<in>set (channel_accepts w n s p ms). en_launch_nonce (fst m) = Some n \<and> en_session_id (fst m) = Some s
            \<and> vc_now_qpc_ticks (snd m) \<le> en_deadline_qpc_ticks (fst m))
     \<and> sorted_wrt (<) (0 # map (en_sequence \<circ> fst) (channel_accepts w n s p ms))
     \<and> sorted_wrt (\<le>) (map (en_cancellation_generation \<circ> fst) (channel_accepts w n s p ms))
     \<and> (p = StrictContiguous \<longrightarrow> map (\<lambda>m. unat (en_sequence (fst m))) (channel_accepts w n s p ms) = [1..<Suc (length (channel_accepts w n s p ms))])
     \<and> sk_last_sequence (channel_state w n s p ms) = last (0 # map (en_sequence \<circ> fst) (channel_accepts w n s p ms))
     \<and> sk_highest_cancellation_generation (channel_state w n s p ms)
         = last (0 # map (en_cancellation_generation \<circ> fst) (channel_accepts w n s p ms))"
proof (intro conjI impI)
  let ?t = "new_sequence_tracker n s p" and ?acc = "channel_accepts w n s p ms"
  have inv: "pinned_to n s p ?t" by (rule pinned_to_new)
  have z: "sk_last_sequence ?t = 0" "sk_highest_cancellation_generation ?t = 0" by (simp_all add: new_sequence_tracker_def)
  show "\<forall>m\<in>set ?acc. en_launch_nonce (fst m) = Some n \<and> en_session_id (fst m) = Some s
     \<and> vc_now_qpc_ticks (snd m) \<le> en_deadline_qpc_ticks (fst m)"
    unfolding channel_defs
  proof (rule accepted_by_all [where I = "pinned_to n s p", OF _ inv])
    fix t m ok t' assume t: "pinned_to n s p t" and st: "observe_step w t m = (ok, t')"
    show "pinned_to n s p t' \<and> (ok \<longrightarrow> en_launch_nonce (fst m) = Some n \<and> en_session_id (fst m) = Some s
       \<and> vc_now_qpc_ticks (snd m) \<le> en_deadline_qpc_ticks (fst m))"
      using pinned_to_step [OF t st] t st observe_step_pins [of w t m t'] by (auto simp: pinned_to_def)
  qed
  show "sorted_wrt (<) (0 # map (en_sequence \<circ> fst) ?acc)"
    using seq_mark.accepted_sorted [OF _ inv, of w ms] unfolding channel_defs z by simp
  show "sorted_wrt (\<le>) (map (en_cancellation_generation \<circ> fst) ?acc)"
    using generation_mark.accepted_sorted [OF _ inv, of w ms] unfolding channel_defs z by simp
  show "sk_last_sequence (channel_state w n s p ms) = last (0 # map (en_sequence \<circ> fst) ?acc)"
    using seq_mark.mark_is_last_accepted [OF inv, of w ms] unfolding channel_defs z .
  show "sk_highest_cancellation_generation (channel_state w n s p ms)
     = last (0 # map (en_cancellation_generation \<circ> fst) ?acc)"
    using generation_mark.mark_is_last_accepted [OF inv, of w ms] unfolding channel_defs z .
  assume "p = StrictContiguous"
  then show "map (\<lambda>m. unat (en_sequence (fst m))) ?acc = [1..<Suc (length ?acc)]"
    using chain_from_zero [OF strict_mark.accepted_chain [of n s ?t w ms]] inv z by (simp add: channel_defs)
qed

section \<open>Frames\<close>

text \<open>The documented behaviour of the generated code at one message: the bytes have the announced length and decode to it.\<close>

definition wire_faithful :: "wire_api \<Rightarrow> envelope \<Rightarrow> bool" where
  "wire_faithful w e \<longleftrightarrow>
     (case wx_encode w e of Inl _ \<Rightarrow> True | Inr bs \<Rightarrow> length bs = wx_encoded_len w e \<and> wx_decode w bs = Inr e)"

lemma length_to_le_bytes [simp]: "length (to_le_bytes n) = 4"
  by (simp add: to_le_bytes_def)

lemma le_bytes_roundtrip [simp]: "from_le_bytes (to_le_bytes n) = n"
proof (rule bit_word_eqI)
  fix i :: nat assume "i < LENGTH(32)"
  then consider "i < 8" | "8 \<le> i" "i < 16" | "16 \<le> i" "i < 24" | "24 \<le> i" "i < 32" by fastforce
  then show "bit (from_le_bytes (to_le_bytes n)) i = bit n i"
    by cases (auto simp: from_le_bytes_def to_le_bytes_def bit_simps)
qed

lemma encode_frame_shape:
  assumes "encode_frame w e c = Inr frame"
  obtains payload where "wx_encode w e = Inr payload" "frame = to_le_bytes (of_nat (wx_encoded_len w e)) @ payload"
    "validate_envelope_v1 w e c = Inr ()" "wx_encoded_len w e + 4 \<le> vc_max_frame_bytes c" "wx_encoded_len w e \<le> u32_max"
  using assms by (auto simp: encode_frame_def bind_result_Inr_iff Let_def split: if_splits sum.splits)

lemma unat_of_nat_u32: "n \<le> u32_max \<Longrightarrow> unat (of_nat n :: 32 word) = n"
  by (simp add: unat_of_nat u32_max_def)

text \<open>
  C37. Frames round-trip: a frame that was encoded from an envelope under a context decodes under it to the same envelope, it
  is four bytes longer than the message and within the limit of the context, and cutting it or appending bytes to it is
  always rejected.
\<close>

theorem frame_roundtrip:
  assumes "encode_frame w e c = Inr frame" and "wire_faithful w e"
  shows "decode_frame w frame c = Inr e \<and> length frame = wx_encoded_len w e + 4 \<and> length frame \<le> vc_max_frame_bytes c
     \<and> (\<forall>extra. extra \<noteq> [] \<longrightarrow> (\<exists>err. decode_frame w (frame @ extra) c = Inl err))
     \<and> (\<forall>k < length frame. \<exists>err. decode_frame w (take k frame) c = Inl err)"
proof -
  obtain payload where sh: "wx_encode w e = Inr payload" "frame = to_le_bytes (of_nat (wx_encoded_len w e)) @ payload"
    "validate_envelope_v1 w e c = Inr ()" "wx_encoded_len w e + 4 \<le> vc_max_frame_bytes c" "wx_encoded_len w e \<le> u32_max"
    using assms(1) by (rule encode_frame_shape)
  have len: "length payload = wx_encoded_len w e" "wx_decode w payload = Inr e"
    using assms(2) sh(1) by (simp_all add: wire_faithful_def)
  have declared: "unat (from_le_bytes (take 4 f)) = length frame - 4" if "take 4 f = take 4 frame" for f
    unfolding that by (simp add: sh(2) len unat_of_nat_u32 sh(5))
  have resized: "\<exists>err. decode_frame w f c = Inl err" if "take 4 f = take 4 frame" "length f \<noteq> length frame" for f
    using declared [OF that(1)] that(2) len(1) sh(2) by (auto simp: decode_frame_def Let_def)
  have cut: "\<exists>err. decode_frame w (take k frame) c = Inl err" if "k < length frame" for k
  proof (cases "k < 4")
    case True
    then have "length (take k frame) < 4" by simp
    then show ?thesis by (simp only: decode_frame_def if_True) blast
  next
    case False
    then show ?thesis using that by (intro resized) (simp_all add: min_def)
  qed
  have extend: "\<exists>err. decode_frame w (frame @ extra) c = Inl err" if "extra \<noteq> []" for extra
    using that by (intro resized) (simp_all add: sh(2))
  have "decode_frame w frame c = Inr e"
    using declared [of frame] len sh by (simp add: decode_frame_def Let_def)
  then show ?thesis using cut extend sh(2,4) len(1) by simp
qed

section \<open>A sample channel\<close>

definition sample_id :: "byte \<Rightarrow> wire_id" where
  "sample_id b = replicate 16 b"

definition sample_wire :: wire_api where
  "sample_wire = \<lparr>wx_body_len = (\<lambda>_. 2), wx_encoded_len = (\<lambda>_. 3), wx_encode = (\<lambda>e. Inr [1, 2, 3]),
     wx_decode = (\<lambda>bs. Inl [])\<rparr>"

definition sample_envelope :: "u64 \<Rightarrow> u64 \<Rightarrow> envelope" where
  "sample_envelope q g = \<lparr>en_protocol_version = Some V1_0_0, en_launch_nonce = Some (sample_id 1), en_session_id = Some (sample_id 2),
     en_turn_id = None, en_trace_id = Some (sample_id 4), en_sequence = q, en_qpc_timestamp_ticks = 100,
     en_qpc_frequency_hz = 10000000, en_deadline_qpc_ticks = 1000, en_cancellation_generation = g, en_declared_body_bytes = 2,
     en_body = Some (BAck \<lparr>ak_acknowledged_sequence = 1, ak_observed_cancellation_generation = 0\<rparr>)\<rparr>"

lemma sample_id_valid: "b \<noteq> 0 \<Longrightarrow> id_validate (sample_id b) = Inr ()"
  by (simp add: id_validate_iff sample_id_def)

lemma sample_envelope_valid:
  assumes "q \<noteq> 0" and "vc_expected_launch_nonce c \<in> {None, Some (sample_id 1)}" and "vc_expected_session_id c \<in> {None, Some (sample_id 2)}"
    and "wx_body_len w = (\<lambda>_. 2)" "wx_encoded_len w = (\<lambda>_. 3)"
    and "vc_accepted_versions c = V1_range" "vc_now_qpc_ticks c = 100" "vc_max_body_bytes c = 4 * 1024 * 1024" "vc_max_frame_bytes c = 8 * 1024 * 1024"
  shows "validate_envelope_v1 w (sample_envelope q g) c = Inr ()"
  using assms
  by (auto simp: validate_envelope_v1_def sample_envelope_def validate_version_def range_contains_def V1_range_def V1_0_0_def
      require_id_def sample_id_valid expect_id_def validate_turn_def requires_turn_def validate_clock_def validate_sizes_def
      body_payload_len_def validate_body_def malformed_unless_def)

lemma sample_observe_step:
  assumes "q \<noteq> 0" "sk_expected_launch_nonce t = sample_id 1" "sk_expected_session_id t = sample_id 2"
    "wx_body_len w = (\<lambda>_. 2)" "wx_encoded_len w = (\<lambda>_. 3)"
  shows "observe_step w t (sample_envelope q g, permissive_for_time 100) =
     (if q \<le> sk_last_sequence t \<or> (sk_ordering t = StrictContiguous \<and> q \<noteq> sk_last_sequence t + 1)
         \<or> g < sk_highest_cancellation_generation t then (False, t)
      else (True, t\<lparr>sk_last_sequence := q, sk_highest_cancellation_generation := g\<rparr>))"
proof -
  have v: "validate_envelope_v1 w (sample_envelope q g) (pinned_context t (permissive_for_time 100)) = Inr ()"
    using assms by (intro sample_envelope_valid)
      (simp_all add: pinned_context_def permissive_for_time_def DEFAULT_MAX_BODY_BYTES_def DEFAULT_MAX_FRAME_BYTES_def)
  have "en_sequence (sample_envelope q g) = q" "en_cancellation_generation (sample_envelope q g) = g"
    by (simp_all add: sample_envelope_def)
  then show ?thesis using v by (auto simp: observe_step_def observe_envelope_def max_absorb2 not_less)
qed

text \<open>A contiguous channel that sees the numbers 1, 3, 2 and 2 again accepts 1 and 2.\<close>

definition sample_arrivals :: "(envelope \<times> validation_context) list" where
  "sample_arrivals = map (\<lambda>(q, g). (sample_envelope q g, permissive_for_time 100)) [(1, 0), (3, 0), (2, 1), (2, 1)]"

lemma sample_accepts:
  "channel_accepts sample_wire (sample_id 1) (sample_id 2) StrictContiguous sample_arrivals
     = [(sample_envelope 1 0, permissive_for_time 100), (sample_envelope 2 1, permissive_for_time 100)]"
  by (simp add: channel_accepts_def sample_arrivals_def sample_observe_step new_sequence_tracker_def sample_wire_def word_le_nat_alt)

theorem channel_delivers_in_order_witness:
  "length (channel_accepts sample_wire (sample_id 1) (sample_id 2) StrictContiguous sample_arrivals) = 2
     \<and> map (\<lambda>m. unat (en_sequence (fst m))) (channel_accepts sample_wire (sample_id 1) (sample_id 2) StrictContiguous sample_arrivals)
       = [1, 2]"
proof -
  let ?acc = "channel_accepts sample_wire (sample_id 1) (sample_id 2) StrictContiguous sample_arrivals"
  have len: "length ?acc = 2" by (simp only: sample_accepts) simp
  have "map (\<lambda>m. unat (en_sequence (fst m))) ?acc = [1..<Suc (length ?acc)]"
    using channel_delivers_in_order [of sample_wire "sample_id 1" "sample_id 2" StrictContiguous sample_arrivals] by blast
  then show ?thesis using len by (simp add: upt_rec)
qed

definition sample_codec :: wire_api where
  "sample_codec = sample_wire\<lparr>wx_decode := (\<lambda>bs. if bs = [1, 2, 3] then Inr (sample_envelope 7 0) else Inl [])\<rparr>"

theorem frame_roundtrip_witness:
  "encode_frame sample_codec (sample_envelope 7 0) (permissive_for_time 100) = Inr [3, 0, 0, 0, 1, 2, 3]
     \<and> decode_frame sample_codec [3, 0, 0, 0, 1, 2, 3] (permissive_for_time 100) = Inr (sample_envelope 7 0)
     \<and> (\<exists>err. decode_frame sample_codec [3, 0, 0, 0, 1, 2, 3, 9] (permissive_for_time 100) = Inl err)"
proof -
  let ?c = "permissive_for_time 100"
  have v: "validate_envelope_v1 sample_codec (sample_envelope 7 0) ?c = Inr ()"
    by (intro sample_envelope_valid)
      (simp_all add: permissive_for_time_def DEFAULT_MAX_BODY_BYTES_def DEFAULT_MAX_FRAME_BYTES_def sample_codec_def sample_wire_def)
  have "to_le_bytes 3 = [3, 0, 0, 0]" by (simp add: to_le_bytes_def drop_bit_eq_div)
  then have enc: "encode_frame sample_codec (sample_envelope 7 0) ?c = Inr [3, 0, 0, 0, 1, 2, 3]"
    using v by (simp add: encode_frame_def permissive_for_time_def DEFAULT_MAX_FRAME_BYTES_def u32_max_def sample_codec_def sample_wire_def)
  have "wire_faithful sample_codec (sample_envelope 7 0)" by (simp add: wire_faithful_def sample_codec_def sample_wire_def)
  note rt = frame_roundtrip [OF enc this]
  then have "\<exists>err. decode_frame sample_codec ([3, 0, 0, 0, 1, 2, 3] @ [9]) ?c = Inl err" by blast
  with rt enc show ?thesis by simp
qed

end
