(* ===== verification/Float32.thy ===== *)
theory Float32
  imports Prelude
begin

text \<open>
  The arithmetic of \<open>f32\<close> as the sources use it: IEEE 754 binary32 with rounding to nearest, ties to even. A number is a sign
  and the magnitude as a rational, so both zeros are kept apart; infinities are signed and all NaNs are one value, because Rust does not
  specify sign and payload of the NaN that an operation returns; where the sign matters, in \<open>total_cmp\<close>, it is an argument. Addition,
  subtraction, multiplication, division and the square root are correctly rounded, as the standard demands; \<open>max\<close>, \<open>min\<close>,
  \<open>clamp\<close> and the comparisons follow the Rust library, and \<open>total_cmp\<close> is its total order. All of it is executable.
\<close>

section \<open>Values and rounding\<close>

datatype f32 = F_NaN | F_Inf bool | F_Num bool rat

definition F_MAX_EXCLUSIVE :: rat where
  "F_MAX_EXCLUSIVE = 2 ^ 128"

text \<open>Rounding of a positive magnitude: 24 significant bits, the least exponent is that of the subnormal numbers.\<close>

definition f32_round :: "bool \<Rightarrow> rat \<Rightarrow> f32" where
  "f32_round neg m =
     (if m \<le> 0 then F_Num neg 0
      else
        (let ulp = pow2 (max (rat_exponent m - 23) (- 149)); v = of_int (round_half_even (m / ulp)) * ulp in
         if v \<ge> F_MAX_EXCLUSIVE then F_Inf neg else F_Num neg v))"

fun f32_val :: "f32 \<Rightarrow> rat" where
  "f32_val (F_Num neg m) = (if neg then - m else m)"
| "f32_val _ = 0"

text \<open>The literal or converted value of a rational, and of an unsigned integer.\<close>

definition f32_of :: "rat \<Rightarrow> f32" where
  "f32_of x = f32_round (x < 0) \<bar>x\<bar>"

definition f32_of_nat :: "nat \<Rightarrow> f32" where
  "f32_of_nat n = f32_round False (of_int (int n))"

definition F_EPSILON :: f32 where
  "F_EPSILON = F_Num False (1 / 2 ^ 23)"

section \<open>Predicates and comparisons\<close>

fun f_is_finite :: "f32 \<Rightarrow> bool" where
  "f_is_finite (F_Num _ _) = True"
| "f_is_finite _ = False"

fun f_is_nan :: "f32 \<Rightarrow> bool" where
  "f_is_nan F_NaN = True"
| "f_is_nan _ = False"

text \<open>A number as a point of the extended line; the comparisons are false on a NaN and identify the zeros.\<close>

fun f_ext :: "f32 \<Rightarrow> int \<times> rat" where
  "f_ext (F_Inf neg) = (if neg then -1 else 1, 0)"
| "f_ext x = (0, f32_val x)"

definition f_le :: "f32 \<Rightarrow> f32 \<Rightarrow> bool" where
  "f_le x y \<longleftrightarrow> \<not> f_is_nan x \<and> \<not> f_is_nan y
     \<and> (fst (f_ext x) < fst (f_ext y) \<or> fst (f_ext x) = fst (f_ext y) \<and> snd (f_ext x) \<le> snd (f_ext y))"

text \<open>\<open>x < y\<close>; on a NaN it is false, as are all comparisons.\<close>

definition f_less :: "f32 \<Rightarrow> f32 \<Rightarrow> bool" where
  "f_less x y \<longleftrightarrow> f_le x y \<and> \<not> f_le y x"

definition f_in :: "f32 \<Rightarrow> f32 \<Rightarrow> f32 \<Rightarrow> bool" where
  "f_in lo hi x \<longleftrightarrow> f_le lo x \<and> f_le x hi"

text \<open>The key of \<open>total_cmp\<close>: the rank of the kind of value, then the number itself. A value comes with the sign bit that it has
  if it is a NaN: a negative NaN is below and a positive one above everything else.\<close>

fun total_rank :: "bool \<times> f32 \<Rightarrow> int \<times> rat" where
  "total_rank (n, F_Inf True) = (-2, 0)"
| "total_rank (n, F_Num True m) = (-1, - m)"
| "total_rank (n, F_Num False m) = (1, m)"
| "total_rank (n, F_Inf False) = (2, 0)"
| "total_rank (n, F_NaN) = (if n then -3 else 3, 0)"

definition total_less :: "bool \<times> f32 \<Rightarrow> bool \<times> f32 \<Rightarrow> bool" where
  "total_less x y \<longleftrightarrow>
     fst (total_rank x) < fst (total_rank y) \<or> fst (total_rank x) = fst (total_rank y) \<and> snd (total_rank x) < snd (total_rank y)"

section \<open>Arithmetic\<close>

fun f_neg :: "f32 \<Rightarrow> f32" where
  "f_neg (F_Num s m) = F_Num (\<not> s) m"
| "f_neg (F_Inf s) = F_Inf (\<not> s)"
| "f_neg F_NaN = F_NaN"

fun f_abs :: "f32 \<Rightarrow> f32" where
  "f_abs (F_Num s m) = F_Num False m"
| "f_abs (F_Inf s) = F_Inf False"
| "f_abs F_NaN = F_NaN"

fun f_add :: "f32 \<Rightarrow> f32 \<Rightarrow> f32" where
  "f_add F_NaN _ = F_NaN"
| "f_add _ F_NaN = F_NaN"
| "f_add (F_Inf s) (F_Inf t) = (if s = t then F_Inf s else F_NaN)"
| "f_add (F_Inf s) (F_Num _ _) = F_Inf s"
| "f_add (F_Num _ _) (F_Inf t) = F_Inf t"
| "f_add (F_Num s a) (F_Num t b) =
     (let z = f32_val (F_Num s a) + f32_val (F_Num t b) in if z = 0 then F_Num (s \<and> t) 0 else f32_round (z < 0) \<bar>z\<bar>)"

definition f_sub :: "f32 \<Rightarrow> f32 \<Rightarrow> f32" where
  "f_sub x y = f_add x (f_neg y)"

fun f_mul :: "f32 \<Rightarrow> f32 \<Rightarrow> f32" where
  "f_mul F_NaN _ = F_NaN"
| "f_mul _ F_NaN = F_NaN"
| "f_mul (F_Inf s) (F_Inf t) = F_Inf (s \<noteq> t)"
| "f_mul (F_Inf s) (F_Num t b) = (if b = 0 then F_NaN else F_Inf (s \<noteq> t))"
| "f_mul (F_Num s a) (F_Inf t) = (if a = 0 then F_NaN else F_Inf (s \<noteq> t))"
| "f_mul (F_Num s a) (F_Num t b) = f32_round (s \<noteq> t) (a * b)"

fun f_div :: "f32 \<Rightarrow> f32 \<Rightarrow> f32" where
  "f_div F_NaN _ = F_NaN"
| "f_div _ F_NaN = F_NaN"
| "f_div (F_Inf s) (F_Inf t) = F_NaN"
| "f_div (F_Inf s) (F_Num t b) = F_Inf (s \<noteq> t)"
| "f_div (F_Num s a) (F_Inf t) = F_Num (s \<noteq> t) 0"
| "f_div (F_Num s a) (F_Num t b) =
     (if b = 0 then (if a = 0 then F_NaN else F_Inf (s \<noteq> t)) else f32_round (s \<noteq> t) (a / b))"

text \<open>The integer square root, and from it the rounded one: the root has 24 bits below its leading exponent, and the midpoint
  between two candidates is never the root of a number with 24 bits.\<close>

function isqrt :: "int \<Rightarrow> int" where
  "isqrt n = (if n \<le> 0 then 0 else let r = 2 * isqrt (n div 4) in if (r + 1) * (r + 1) \<le> n then r + 1 else r)"
  by auto
termination by (relation "measure nat") auto

declare isqrt.simps [simp del]

definition sqrt_round :: "rat \<Rightarrow> rat" where
  "sqrt_round m =
     (let ulp = pow2 (rat_exponent m div 2 - 23); q = m / (ulp * ulp); r = isqrt \<lfloor>q\<rfloor> in
      of_int (if (of_int r + 1 / 2) * (of_int r + 1 / 2) \<le> q then r + 1 else r) * ulp)"

fun f_sqrt :: "f32 \<Rightarrow> f32" where
  "f_sqrt F_NaN = F_NaN"
| "f_sqrt (F_Inf s) = (if s then F_NaN else F_Inf False)"
| "f_sqrt (F_Num s m) = (if m = 0 then F_Num s 0 else if s then F_NaN else F_Num False (sqrt_round m))"

text \<open>\<open>max\<close> and \<open>min\<close> ignore a NaN; on equal values the first argument stands.\<close>

definition f_max :: "f32 \<Rightarrow> f32 \<Rightarrow> f32" where
  "f_max x y = (if f_is_nan x then y else if f_is_nan y then x else if f_less x y then y else x)"

definition f_min :: "f32 \<Rightarrow> f32 \<Rightarrow> f32" where
  "f_min x y = (if f_is_nan x then y else if f_is_nan y then x else if f_less y x then y else x)"

definition f_clamp :: "f32 \<Rightarrow> f32 \<Rightarrow> f32 \<Rightarrow> f32" where
  "f_clamp lo hi x = (if f_less x lo then lo else if f_less hi x then hi else x)"

text \<open>\<open>Sum\<close> for floats starts from the negative zero and adds from the left.\<close>

definition f_sum :: "f32 list \<Rightarrow> f32" where
  "f_sum xs = foldl f_add (F_Num True 0) xs"

section \<open>Facts\<close>

definition f_wf :: "f32 \<Rightarrow> bool" where
  "f_wf x = (case x of F_Num _ m \<Rightarrow> 0 \<le> m | _ \<Rightarrow> True)"

lemma f_le_total: "f_is_nan x \<or> f_is_nan y \<or> f_le x y \<or> f_le y x"
  by (auto simp: f_le_def)

lemma f_le_not_nan: "f_le x y \<Longrightarrow> \<not> f_is_nan x \<and> \<not> f_is_nan y"
  by (simp add: f_le_def)

lemma f_le_trans: "f_le x y \<Longrightarrow> f_le y z \<Longrightarrow> f_le x z"
  by (auto simp: f_le_def)

lemma f_less_iff_not_le: "\<not> f_is_nan x \<Longrightarrow> \<not> f_is_nan y \<Longrightarrow> f_less x y \<longleftrightarrow> \<not> f_le y x"
  using f_le_total [of x y] by (auto simp: f_less_def)

lemma total_less_irrefl: "\<not> total_less x x"
  by (simp add: total_less_def)

lemma total_less_trans: "total_less x y \<Longrightarrow> total_less y z \<Longrightarrow> total_less x z"
  by (auto simp: total_less_def)

lemma total_rank_inj: "total_rank x = total_rank y \<Longrightarrow> snd x = snd y"
  by (cases x rule: total_rank.cases; cases y rule: total_rank.cases) (auto split: if_splits)

lemma total_less_total: "total_less x y \<or> snd x = snd y \<or> total_less y x"
  using total_rank_inj [of x y] by (auto simp: total_less_def prod_eq_iff not_less le_less)

lemma total_less_neg_trans: "\<not> total_less x y \<Longrightarrow> \<not> total_less y z \<Longrightarrow> \<not> total_less x z"
  by (auto simp: total_less_def)

text \<open>The total order refines the usual comparison away from NaN.\<close>

lemma total_less_f_le: "f_wf (snd x) \<Longrightarrow> f_wf (snd y) \<Longrightarrow> total_less x y \<Longrightarrow> \<not> f_is_nan (snd x) \<Longrightarrow> \<not> f_is_nan (snd y) \<Longrightarrow> f_le (snd x) (snd y)"
  by (cases x rule: total_rank.cases; cases y rule: total_rank.cases) (auto simp: total_less_def f_wf_def f_le_def)

lemma f_clamp_between:
  assumes "f_le lo hi" and "\<not> f_is_nan x"
  shows "f_le lo (f_clamp lo hi x)" and "f_le (f_clamp lo hi x) hi"
  using assms f_le_not_nan [OF assms(1)] f_le_total [of lo x] f_le_total [of x hi] f_le_total [of lo lo] f_le_total [of hi hi]
  by (auto simp: f_clamp_def f_less_def)

lemma f_clamp_nan [simp]: "f_clamp lo hi F_NaN = F_NaN"
proof -
  have "\<not> f_le F_NaN y" "\<not> f_le y F_NaN" for y by (simp_all add: f_le_def)
  then show ?thesis by (simp add: f_clamp_def f_less_def)
qed

end
