(* ===== verification/Float_Bounds.thy ===== *)
theory Float_Bounds
  imports Float32
begin

text \<open>
  Bounds on the results of single precision arithmetic: rounding keeps a magnitude between the powers of two that enclose it,
  so products and long sums of bounded numbers are bounded numbers and never NaN.
\<close>

section \<open>Rounding stays within powers of two\<close>

lemma pow2_powi: "pow2 k = 2 powi k"
  by (simp add: pow2_def power_int_def power_one_over inverse_eq_divide)

lemma pow2_add: "pow2 (a + b) = pow2 a * pow2 b"
  by (simp add: pow2_powi power_int_add)

lemma pow2_pos [simp]: "0 < pow2 k"
  by (simp add: pow2_powi)

lemma pow2_nonzero [simp]: "pow2 k \<noteq> 0"
  using pow2_pos [of k] by (simp del: pow2_pos)

lemma pow2_mono: "a \<le> b \<Longrightarrow> pow2 a \<le> pow2 b"
  by (simp add: pow2_powi power_int_increasing)

lemma pow2_less_imp_less: "pow2 a < pow2 b \<Longrightarrow> a < b"
  by (metis not_less pow2_mono)

lemma pow2_Suc: "pow2 (k + 1) = 2 * pow2 k"
  using pow2_add [of k 1] by (simp add: pow2_def [of 1])

lemma bits_bounds: "0 < n \<Longrightarrow> 1 \<le> bits n \<and> pow2 (bits n - 1) \<le> of_int n \<and> of_int n < pow2 (bits n)"
proof (induction n rule: bits.induct)
  case (1 n)
  show ?case
  proof (cases "n = 1")
    case True
    then show ?thesis by (simp add: bits.simps [of 1] bits.simps [of 0] pow2_def)
  next
    case False
    then have pos: "0 < n div 2" using "1.prems" by linarith
    then have IH: "1 \<le> bits (n div 2)" "pow2 (bits (n div 2) - 1) \<le> of_int (n div 2)" "of_int (n div 2) < pow2 (bits (n div 2))"
      using "1.IH" "1.prems" by auto
    have b: "bits n = 1 + bits (n div 2)" using "1.prems" by (subst bits.simps) simp
    have int: "pow2 (bits (n div 2)) = of_int (2 ^ nat (bits (n div 2)))" using IH(1) by (simp add: pow2_def)
    have "n div 2 < 2 ^ nat (bits (n div 2))" using IH(3) unfolding int by (simp only: of_int_less_iff)
    then have "n < 2 * 2 ^ nat (bits (n div 2))" by linarith
    then have "rat_of_int n < of_int (2 * 2 ^ nat (bits (n div 2)))" by (simp only: of_int_less_iff)
    then have up: "of_int n < pow2 (bits n)"
      unfolding b using pow2_Suc [of "bits (n div 2)"] int by (simp add: add.commute)
    have "pow2 (bits n - 1) = 2 * pow2 (bits (n div 2) - 1)" using pow2_Suc [of "bits (n div 2) - 1"] b by simp
    also have "\<dots> \<le> of_int (2 * (n div 2))" using IH(2) by simp
    also have "\<dots> \<le> of_int n" by (simp only: of_int_le_iff)
    finally show ?thesis using up b IH(1) by simp
  qed
qed

lemma rat_exponent_bounds:
  assumes "0 < x"
  shows "pow2 (rat_exponent x) \<le> x" and "x < pow2 (rat_exponent x + 1)"
proof -
  obtain p q where pq: "quotient_of x = (p, q)" by (cases "quotient_of x")
  have q: "0 < q" using quotient_of_denom_pos [OF pq] .
  have x: "x = of_int p / of_int q" using quotient_of_div [OF pq] .
  have p: "0 < p" using assms q unfolding x by (simp add: zero_less_divide_iff)
  let ?k = "bits p - bits q"
  note bp = bits_bounds [OF p] and bq = bits_bounds [OF q]
  have "x < pow2 (bits p) / pow2 (bits q - 1)"
    unfolding x using bp bq p q by (intro frac_less) (auto intro: less_imp_le)
  also have "\<dots> = pow2 (?k + 1)"
    using pow2_add [of "?k + 1" "bits q - 1"] pow2_pos [of "bits q - 1"] by (simp add: field_simps)
  finally have up: "x < pow2 (?k + 1)" .
  have "pow2 (?k - 1) = pow2 (bits p - 1) / pow2 (bits q)"
    using pow2_add [of "?k - 1" "bits q"] pow2_pos [of "bits q"] by (simp add: field_simps)
  also have "\<dots> \<le> x" unfolding x using bp bq q p by (intro frac_le) (auto intro: less_imp_le)
  finally have lo: "pow2 (?k - 1) \<le> x" .
  have "rat_exponent x = (if pow2 ?k \<le> x then ?k else ?k - 1)" by (simp add: rat_exponent_def pq)
  then show "pow2 (rat_exponent x) \<le> x" "x < pow2 (rat_exponent x + 1)" using up lo by auto
qed

lemma round_half_even_mono_int: "of_int a \<le> x \<Longrightarrow> a \<le> round_half_even x" "x \<le> of_int b \<Longrightarrow> round_half_even x \<le> b"
proof -
  show "a \<le> round_half_even x" if "of_int a \<le> x"
    using that le_floor_iff [of a x] by (auto simp: round_half_even_def Let_def)
  show "round_half_even x \<le> b" if "x \<le> of_int b"
  proof (cases "x = of_int b")
    case True
    then show ?thesis by (simp add: round_half_even_def)
  next
    case False
    then have "\<lfloor>x\<rfloor> < b" using that floor_less_iff [of x b] by simp
    then show ?thesis by (auto simp: round_half_even_def Let_def)
  qed
qed

text \<open>The rounded magnitude of a number between two powers of two stays between them.\<close>

definition rounded :: "rat \<Rightarrow> rat" where
  "rounded m = (let ulp = pow2 (max (rat_exponent m - 23) (- 149)) in of_int (round_half_even (m / ulp)) * ulp)"

lemma f32_round_cases:
  "f32_round neg m = (if m \<le> 0 then F_Num neg 0 else if rounded m \<ge> F_MAX_EXCLUSIVE then F_Inf neg else F_Num neg (rounded m))"
  by (simp add: f32_round_def rounded_def Let_def)

lemma rounded_pow2:
  assumes "0 < m"
  shows "m \<le> pow2 e \<Longrightarrow> -149 \<le> e \<Longrightarrow> rounded m \<le> pow2 e" and "pow2 e \<le> m \<Longrightarrow> -149 \<le> e \<Longrightarrow> pow2 e \<le> rounded m"
    and "0 \<le> rounded m"
proof -
  define u where "u = max (rat_exponent m - 23) (- 149)"
  have pu: "0 < pow2 u" by simp
  have r: "rounded m = of_int (round_half_even (m / pow2 u)) * pow2 u" by (simp add: rounded_def u_def Let_def)
  have whole: "pow2 e / pow2 u = of_int (2 ^ nat (e - u))" if "u \<le> e" for e
    using pow2_add [of "e - u" u] pu that by (simp add: pow2_def [of "e - u"] field_simps)
  have "0 \<le> round_half_even (m / pow2 u)" using divide_nonneg_pos [OF less_imp_le [OF assms] pu] by (intro round_half_even_mono_int(1)) simp
  then show "0 \<le> rounded m" unfolding r using pu by (intro mult_nonneg_nonneg) (simp_all add: less_imp_le)
  show "rounded m \<le> pow2 e" if "m \<le> pow2 e" "-149 \<le> e"
  proof (cases "u \<le> e")
    case True
    have "m / pow2 u \<le> of_int (2 ^ nat (e - u))" unfolding whole [OF True, symmetric] by (rule divide_right_mono [OF that(1) less_imp_le [OF pu]])
    from round_half_even_mono_int(2) [OF this] have "of_int (round_half_even (m / pow2 u)) \<le> pow2 e / pow2 u"
      unfolding whole [OF True] by (simp only: of_int_le_iff)
    then show ?thesis unfolding r using pu by (simp add: pos_le_divide_eq)
  next
    case False
    then have "e < rat_exponent m - 23" using that(2) by (auto simp: u_def)
    then have "pow2 e \<le> pow2 (rat_exponent m - 1)" by (intro pow2_mono) simp
    also have "\<dots> < pow2 (rat_exponent m)" using pow2_Suc [of "rat_exponent m - 1"] pow2_pos [of "rat_exponent m - 1"] by simp
    also have "\<dots> \<le> m" by (rule rat_exponent_bounds [OF assms])
    finally show ?thesis using that by simp
  qed
  show "pow2 e \<le> rounded m" if "pow2 e \<le> m" "-149 \<le> e"
  proof (cases "u \<le> e")
    case True
    have "of_int (2 ^ nat (e - u)) \<le> m / pow2 u" unfolding whole [OF True, symmetric] by (rule divide_right_mono [OF that(1) less_imp_le [OF pu]])
    from round_half_even_mono_int(1) [OF this] have "pow2 e / pow2 u \<le> of_int (round_half_even (m / pow2 u))"
      unfolding whole [OF True] by (simp only: of_int_le_iff)
    then show ?thesis unfolding r using pu by (simp add: pos_divide_le_eq)
  next
    case False
    then have u: "u = rat_exponent m - 23" and less: "e < rat_exponent m - 23" using that(2) by (auto simp: u_def max_def split: if_splits)
    have "of_int (2 ^ 23) \<le> m / pow2 u"
      using rat_exponent_bounds(1) [OF assms] pow2_add [of 23 u] pu by (simp add: u pos_le_divide_eq pow2_def [of 23])
    from round_half_even_mono_int(1) [OF this] have "1 \<le> round_half_even (m / pow2 u)" by simp
    then have "pow2 u \<le> rounded m" unfolding r using pu by simp
    then show ?thesis using pow2_mono [of e u] less u by simp
  qed
qed

section \<open>Bounded numbers\<close>

definition f_bounded :: "rat \<Rightarrow> f32 \<Rightarrow> bool" where
  "f_bounded b x = (case x of F_Num _ m \<Rightarrow> 0 \<le> m \<and> m \<le> b | _ \<Rightarrow> False)"

lemma f_bounded_simps [simp]:
  "f_bounded b (F_Num n m) \<longleftrightarrow> 0 \<le> m \<and> m \<le> b" "\<not> f_bounded b F_NaN" "\<not> f_bounded b (F_Inf n)"
  by (simp_all add: f_bounded_def)

lemma f_bounded_cases: "f_bounded b x \<longleftrightarrow> (\<exists>s m. x = F_Num s m \<and> 0 \<le> m \<and> m \<le> b)"
  by (cases x) simp_all

lemma f_bounded_finite: "f_bounded b x \<Longrightarrow> f_is_finite x \<and> \<not> f_is_nan x"
  by (cases x) simp_all

lemma f_bounded_mono: "f_bounded b x \<Longrightarrow> b \<le> c \<Longrightarrow> f_bounded c x"
  by (cases x) simp_all

lemma f_bounded_neg [simp]: "f_bounded b (f_neg x) = f_bounded b x"
  by (cases x) simp_all

lemma f_bounded_val: "f_bounded b x \<Longrightarrow> \<bar>f32_val x\<bar> \<le> b"
  by (cases x) auto

lemma F_MAX_pow2: "F_MAX_EXCLUSIVE = pow2 128"
  by (simp add: F_MAX_EXCLUSIVE_def pow2_def)

lemma f32_round_bounded:
  assumes "m \<le> pow2 e" and "-149 \<le> e" and "e \<le> 127"
  shows "f_bounded (pow2 e) (f32_round neg m)"
proof (cases "m \<le> 0")
  case True
  then show ?thesis using pow2_pos [of e] by (simp add: f32_round_def less_imp_le)
next
  case False
  then have "rounded m \<le> pow2 e" "0 \<le> rounded m" using rounded_pow2(1) [of m e] rounded_pow2(3) [of m] assms by auto
  moreover have "pow2 e < F_MAX_EXCLUSIVE" unfolding F_MAX_pow2 
    using pow2_mono [OF assms(3)] pow2_Suc [of 127, simplified] pow2_pos [of 127] by linarith
  ultimately show ?thesis using False by (simp add: f32_round_cases)
qed

lemma f_mul_bounded:
  assumes "f_bounded (pow2 a) x" and "f_bounded (pow2 b) y" and "-149 \<le> a + b" and "a + b \<le> 127"
  shows "f_bounded (pow2 (a + b)) (f_mul x y)"
proof -
  obtain s m t n where xy: "x = F_Num s m" "y = F_Num t n" using assms(1,2) by (cases x; cases y) auto
  have "m * n \<le> pow2 (a + b)" unfolding pow2_add using assms(1,2) xy by (intro mult_mono) (auto simp: less_imp_le)
  then show ?thesis using f32_round_bounded assms(3,4) by (simp add: xy)
qed

lemma f_div_bounded:
  assumes "f_bounded (pow2 e) x" and "-149 \<le> e" and "e \<le> 127" and "y = F_Num False m" and "1 \<le> m"
  shows "f_bounded (pow2 e) (f_div x y)"
proof -
  obtain s n where x: "x = F_Num s n" using assms(1) by (cases x) auto
  have "n / m \<le> n" using assms(1,5) x by (simp add: divide_le_eq mult_le_cancel_left1)
  then have "n / m \<le> pow2 e" using assms(1) x by simp
  then show ?thesis using f32_round_bounded assms by (simp add: x)
qed

text \<open>Adding numbers of magnitude at most one never takes a sum beyond \<open>2 ^ 25\<close>: there, one is less than half the distance to
  the next number.\<close>

lemma rounded_saturates:
  assumes "0 < m" and "m \<le> pow2 25 + 1"
  shows "rounded m \<le> pow2 25"
proof (cases "m \<le> pow2 25")
  case True
  then show ?thesis using rounded_pow2(1) [OF assms(1), of 25] by simp
next
  case False
  then have "rat_exponent m + 1 > 25" using rat_exponent_bounds(2) [OF assms(1)] pow2_less_imp_less [of 25 "rat_exponent m + 1"] by simp
  moreover have "rat_exponent m < 26"
    using rat_exponent_bounds(1) [OF assms(1)] assms(2) by (intro pow2_less_imp_less) (simp add: pow2_def [of 25] pow2_def [of 26])
  ultimately have e: "rat_exponent m = 25" by simp
  have "m / 4 < of_int (2 ^ 23) + 1 / 2" using assms(2) by (simp add: pow2_def)
  moreover have "of_int (2 ^ 23) \<le> m / 4" using False by (simp add: pow2_def)
  ultimately have "\<lfloor>m / 4\<rfloor> = 2 ^ 23" and "m / 4 - of_int (2 ^ 23) < 1 / 2" by (simp_all add: floor_eq_iff)
  then have "round_half_even (m / 4) = 2 ^ 23" by (simp add: round_half_even_def Let_def)
  then show ?thesis by (simp add: rounded_def e Let_def pow2_def)
qed

lemma f_add_bounded:
  assumes "f_bounded (pow2 25) x" and "f_bounded 1 y"
  shows "f_bounded (pow2 25) (f_add x y)"
proof -
  obtain s m t n where xy: "x = F_Num s m" "y = F_Num t n" using assms by (cases x; cases y) auto
  define z where "z = f32_val x + f32_val y"
  have "\<bar>z\<bar> \<le> pow2 25 + 1" using f_bounded_val [OF assms(1)] f_bounded_val [OF assms(2)] by (simp add: z_def)
  then have "z \<noteq> 0 \<longrightarrow> rounded \<bar>z\<bar> \<le> pow2 25 \<and> 0 \<le> rounded \<bar>z\<bar>"
    using rounded_saturates [of "\<bar>z\<bar>"] rounded_pow2(3) [of "\<bar>z\<bar>"] by simp
  moreover have "pow2 25 < F_MAX_EXCLUSIVE" by (simp add: F_MAX_EXCLUSIVE_def pow2_def)
  moreover have "f_add x y = (if z = 0 then F_Num (s \<and> t) 0 else f32_round (z < 0) \<bar>z\<bar>)" by (simp add: xy z_def Let_def)
  ultimately show ?thesis using pow2_pos [of 25] by (auto simp: f32_round_cases less_imp_le)
qed

text \<open>Adding finite numbers may overflow but has a definite result.\<close>

lemma f32_round_not_nan [simp]: "\<not> f_is_nan (f32_round s m)"
  by (simp add: f32_round_def Let_def)

lemma f_add_finite_not_nan: "\<not> f_is_nan x \<Longrightarrow> f_is_finite y \<Longrightarrow> \<not> f_is_nan (f_add x y)"
  by (cases x; cases y) (auto simp: Let_def)

lemma foldl_f_add_not_nan: "list_all f_is_finite ys \<Longrightarrow> \<not> f_is_nan x \<Longrightarrow> \<not> f_is_nan (foldl f_add x ys)"
  by (induction ys arbitrary: x) (simp_all add: f_add_finite_not_nan)

lemma f_sum_not_nan: "list_all f_is_finite ys \<Longrightarrow> \<not> f_is_nan (f_sum ys)"
  by (simp add: f_sum_def foldl_f_add_not_nan)

section \<open>The norm of a vector\<close>

lemma isqrt_lower: "0 \<le> k \<Longrightarrow> k * k \<le> n \<Longrightarrow> k \<le> isqrt n"
proof (induction n arbitrary: k rule: isqrt.induct)
  case (1 n)
  show ?case
  proof (cases "n \<le> 0")
    case True
    then have "k * k \<le> 0" using "1.prems" by simp
    then show ?thesis using True by (auto simp: isqrt.simps [of n] mult_le_0_iff)
  next
    case False
    let ?r = "2 * isqrt (n div 4)"
    have "(k div 2) * (k div 2) \<le> n div 4"
    proof -
      have "(2 * (k div 2)) * (2 * (k div 2)) \<le> k * k" using "1.prems"(1) by (intro mult_mono) auto
      then have "4 * ((k div 2) * (k div 2)) \<le> n" using "1.prems"(2) by (simp add: algebra_simps)
      then show ?thesis by simp
    qed
    then have half: "k div 2 \<le> isqrt (n div 4)" using "1.IH" [OF False] "1.prems"(1) by simp
    then have "k \<le> ?r + 1" by linarith
    moreover have "k \<le> ?r" if "\<not> (?r + 1) * (?r + 1) \<le> n"
      using that \<open>k \<le> ?r + 1\<close> "1.prems"(2) by (cases "k = ?r + 1") auto
    ultimately show ?thesis using False by (auto simp: isqrt.simps [of n] Let_def)
  qed
qed

lemma sqrt_round_ge_two:
  assumes "4 \<le> m"
  shows "2 \<le> sqrt_round m"
proof -
  have pos: "0 < m" using assms by simp
  define h where "h = rat_exponent m div 2"
  have "pow2 2 < pow2 (rat_exponent m + 1)" using rat_exponent_bounds(2) [OF pos] assms by (simp add: pow2_def [of 2])
  from pow2_less_imp_less [OF this] have h: "1 \<le> h" unfolding h_def by linarith
  define ulp where "ulp = pow2 (h - 23)"
  have uu: "ulp * ulp = pow2 (2 * h - 46)" unfolding ulp_def using pow2_add [of "h - 23" "h - 23"] by simp
  have "pow2 (2 * h) \<le> m" using rat_exponent_bounds(1) [OF pos] pow2_mono [of "2 * h" "rat_exponent m"] unfolding h_def by linarith
  then have "pow2 46 * (ulp * ulp) \<le> m" unfolding uu using pow2_add [of 46 "2 * h - 46"] by simp
  then have "pow2 46 \<le> m / (ulp * ulp)" by (simp add: uu pos_le_divide_eq)
  then have "2 ^ 46 \<le> \<lfloor>m / (ulp * ulp)\<rfloor>" by (simp add: le_floor_iff pow2_def)
  then have r: "2 ^ 23 \<le> isqrt \<lfloor>m / (ulp * ulp)\<rfloor>" by (intro isqrt_lower) simp_all
  have "2 \<le> pow2 h" using pow2_mono [OF h] by (simp add: pow2_def [of 1])
  also have "\<dots> = of_int (2 ^ 23) * ulp" unfolding ulp_def using pow2_add [of 23 "h - 23"] by (simp add: pow2_def [of 23])
  also have "\<dots> \<le> sqrt_round m"
    unfolding sqrt_round_def Let_def h_def [symmetric] ulp_def [symmetric]
    using r by (intro mult_right_mono) (auto simp: ulp_def less_imp_le simp flip: of_int_power)
  finally show ?thesis .
qed

text \<open>A partial sum of squares that has reached four stays there, so its root is at least two.\<close>

definition at_least_four :: "f32 \<Rightarrow> bool" where
  "at_least_four x = (case x of F_Num s m \<Rightarrow> \<not> s \<and> 4 \<le> m | F_Inf s \<Rightarrow> \<not> s | F_NaN \<Rightarrow> False)"

definition nonnegative :: "f32 \<Rightarrow> bool" where
  "nonnegative x = (case x of F_Num s m \<Rightarrow> m = 0 \<or> \<not> s \<and> 0 < m | F_Inf s \<Rightarrow> \<not> s | F_NaN \<Rightarrow> False)"

lemma f32_round_at_least_four: "4 \<le> m \<Longrightarrow> at_least_four (f32_round False m)"
  using rounded_pow2(2) [of m 2] by (auto simp: f32_round_cases at_least_four_def pow2_def [of 2])

lemma f32_round_nonnegative: "nonnegative (f32_round False m)"
  using rounded_pow2(3) [of m] by (auto simp: f32_round_cases nonnegative_def)

lemma f_add_at_least_four:
  assumes "at_least_four x \<and> nonnegative y \<or> nonnegative x \<and> at_least_four y"
  shows "at_least_four (f_add x y)"
proof (cases "\<exists>s m t n. x = F_Num s m \<and> y = F_Num t n")
  case True
  then obtain s m t n where xy: "x = F_Num s m" "y = F_Num t n" by auto
  have z: "4 \<le> f32_val x + f32_val y" using assms by (auto simp: xy at_least_four_def nonnegative_def)
  then have "f_add x y = f32_round False (f32_val x + f32_val y)" by (simp add: xy Let_def)
  then show ?thesis using f32_round_at_least_four [OF z] by simp
next
  case False
  then show ?thesis using assms by (cases x; cases y) (auto simp: at_least_four_def nonnegative_def)
qed

lemma f_add_nonnegative:
  assumes "nonnegative x" and "nonnegative y"
  shows "nonnegative (f_add x y)"
proof (cases "\<exists>s m t n. x = F_Num s m \<and> y = F_Num t n")
  case True
  then obtain s m t n where xy: "x = F_Num s m" "y = F_Num t n" by auto
  have z: "0 \<le> f32_val x + f32_val y" using assms by (auto simp: xy nonnegative_def)
  then have "f_add x y = (if f32_val x + f32_val y = 0 then F_Num (s \<and> t) 0 else f32_round False (f32_val x + f32_val y))"
    by (simp add: xy Let_def)
  then show ?thesis using f32_round_nonnegative by (simp add: nonnegative_def)
next
  case False
  then show ?thesis using assms by (cases x; cases y) (auto simp: nonnegative_def)
qed

lemma at_least_four_nonnegative: "at_least_four x \<Longrightarrow> nonnegative x"
  by (cases x) (auto simp: at_least_four_def nonnegative_def)

lemma foldl_at_least_four:
  assumes "list_all nonnegative ys" and "nonnegative x" and "at_least_four x \<or> (\<exists>y\<in>set ys. at_least_four y)"
  shows "at_least_four (foldl f_add x ys)"
  using assms
proof (induction ys arbitrary: x)
  case (Cons y ys)
  have "nonnegative (f_add x y)" using Cons.prems by (simp add: f_add_nonnegative)
  moreover have "at_least_four (f_add x y) \<or> (\<exists>y\<in>set ys. at_least_four y)"
    using Cons.prems f_add_at_least_four [of x y] by auto
  ultimately show ?case using Cons.IH Cons.prems by simp
qed simp

end
