(* ===== verification/Ordered_Maps.thy ===== *)
theory Ordered_Maps
  imports Prelude "HOL-Library.List_Lexorder"
begin

text \<open>
  A \<open>BTreeMap\<close> as a list of entries with strictly increasing keys, which is the order its iterators have. Strings compare as
  lists of code points, the order of their UTF-8 bytes. The locale \<open>ordered_map\<close> states what the clients use of a map; the
  sorted lists are an interpretation of it.
\<close>

section \<open>Sorted association lists\<close>

type_synonym ('k, 'v) btree = "('k \<times> 'v) list"

definition bt_wf :: "('k::linorder, 'v) btree \<Rightarrow> bool" where
  "bt_wf m \<longleftrightarrow> sorted_wrt (<) (map fst m)"

fun bt_insert :: "'k::linorder \<Rightarrow> 'v \<Rightarrow> ('k, 'v) btree \<Rightarrow> ('k, 'v) btree" where
  "bt_insert k v [] = [(k, v)]"
| "bt_insert k v ((k', v') # m) =
     (if k < k' then (k, v) # (k', v') # m else if k = k' then (k, v) # m else (k', v') # bt_insert k v m)"

definition bt_remove :: "'k \<Rightarrow> ('k, 'v) btree \<Rightarrow> ('k, 'v) btree" where
  "bt_remove k m = filter (\<lambda>e. fst e \<noteq> k) m"

abbreviation bt_get :: "('k, 'v) btree \<Rightarrow> 'k \<Rightarrow> 'v option" where
  "bt_get \<equiv> map_of"

lemma bt_wf_distinct: "bt_wf m \<Longrightarrow> distinct (map fst m)"
  by (simp add: bt_wf_def strict_sorted_iff)

lemma bt_get_insert [simp]: "bt_get (bt_insert k v m) k' = (if k' = k then Some v else bt_get m k')"
  by (induction k v m rule: bt_insert.induct) auto

lemma bt_keys_insert [simp]: "fst ` set (bt_insert k v m) = insert k (fst ` set m)"
  by (induction k v m rule: bt_insert.induct) auto

lemma bt_wf_insert [simp]: "bt_wf m \<Longrightarrow> bt_wf (bt_insert k v m)"
proof (induction k v m rule: bt_insert.induct)
  case (2 k v k' v' m)
  from "2.prems" have "bt_wf m" and gt: "\<forall>x\<in>set (map fst m). k' < x" by (auto simp: bt_wf_def)
  moreover have "\<forall>x\<in>fst ` set (bt_insert k v m). x = k \<or> x \<in> fst ` set m" by simp
  ultimately show ?case using "2.IH" by (fastforce simp: bt_wf_def)
qed (simp add: bt_wf_def)

lemma bt_get_remove [simp]: "bt_get (bt_remove k m) k' = (if k' = k then None else bt_get m k')"
  by (induction m) (auto simp: bt_remove_def)

lemma bt_wf_remove [simp]: "bt_wf m \<Longrightarrow> bt_wf (bt_remove k m)"
  by (auto simp: bt_wf_def bt_remove_def sorted_wrt_map intro: sorted_wrt_filter)

lemma bt_wf_Nil [simp]: "bt_wf []"
  by (simp add: bt_wf_def)

lemma bt_get_in: "bt_wf m \<Longrightarrow> bt_get m k = Some v \<longleftrightarrow> (k, v) \<in> set m"
  by (simp add: bt_wf_distinct)

lemma bt_get_None_iff: "bt_get m k = None \<longleftrightarrow> k \<notin> fst ` set m"
  by (rule map_of_eq_None_iff)

text \<open>Replacing the value of a present key changes it in place.\<close>

lemma bt_insert_present: "bt_wf m \<Longrightarrow> k \<in> fst ` set m \<Longrightarrow> bt_insert k v m = map (\<lambda>(k', v'). (k', if k' = k then v else v')) m"
proof (induction k v m rule: bt_insert.induct)
  case (2 k v k' v' m)
  have gt: "\<forall>e\<in>set m. k' < fst e" using "2.prems" by (auto simp: bt_wf_def)
  have id: "map (\<lambda>(k'', v''). (k'', if k'' = k then v else v'')) m = m" if "k \<le> k'"
    using gt that by (intro map_idI) fastforce
  show ?case using "2.prems" "2.IH" gt id by (auto simp: bt_wf_def)
qed simp

section \<open>The interface\<close>

locale ordered_map =
  fixes wf :: "'m \<Rightarrow> bool"
    and get :: "'m \<Rightarrow> 'k::linorder \<Rightarrow> 'v option"
    and put :: "'k \<Rightarrow> 'v \<Rightarrow> 'm \<Rightarrow> 'm"
    and remove :: "'k \<Rightarrow> 'm \<Rightarrow> 'm"
    and entries :: "'m \<Rightarrow> ('k \<times> 'v) list"
  assumes get_put: "get (put k v m) k' = (if k' = k then Some v else get m k')"
    and get_remove: "get (remove k m) k' = (if k' = k then None else get m k')"
    and wf_put: "wf m \<Longrightarrow> wf (put k v m)"
    and wf_remove: "wf m \<Longrightarrow> wf (remove k m)"
    and entries_get: "wf m \<Longrightarrow> (k, v) \<in> set (entries m) \<longleftrightarrow> get m k = Some v"
    and entries_sorted: "wf m \<Longrightarrow> sorted_wrt (<) (map fst (entries m))"
begin

lemma entries_determined:
  assumes "wf m" and "wf m'" and "get m = get m'"
  shows "entries m = entries m'"
proof -
  have "set (entries m) = set (entries m')"
    using assms by (auto simp: entries_get)
  moreover have "sorted (map fst (entries m))" "distinct (map fst (entries m))"
    "sorted (map fst (entries m'))" "distinct (map fst (entries m'))"
    using entries_sorted assms by (simp_all add: strict_sorted_iff)
  ultimately show ?thesis
    by (intro map_sorted_distinct_set_unique [where f = fst]) (auto simp: distinct_map)
qed

lemma put_put: "wf m \<Longrightarrow> entries (put k v (put k v' m)) = entries (put k v m)"
  by (rule entries_determined) (auto simp: wf_put get_put)

lemma remove_put: "wf m \<Longrightarrow> get m k = None \<Longrightarrow> entries (remove k (put k v m)) = entries m"
  by (rule entries_determined) (auto simp: wf_put wf_remove get_put get_remove)

end

interpretation sorted_list: ordered_map bt_wf bt_get bt_insert bt_remove "\<lambda>m. m"
  by unfold_locales (simp_all add: bt_get_in [symmetric], simp add: bt_wf_def)

end
