(* ===== verification/Identity_Embedding.thy ===== *)
theory Identity_Embedding
  imports Float_Bounds Ordered_Maps
begin

text \<open>
  Detector rectangles and embeddings, \<open>crates/identity-engine/src/geometry.rs\<close> and \<open>embedding.rs\<close>. The record \<open>identity_env\<close>
  holds what is not fixed by the sources: \<open>f32::hypot\<close>, whose precision the Rust library leaves open, the sign bit of the score of
  a track and a detection in a frame, should that score be a NaN, and the digest of the \<open>sha2\<close> library.
\<close>

type_synonym octet = "8 word"

record identity_env =
  iv_hypot :: "f32 \<Rightarrow> f32 \<Rightarrow> f32"
  iv_nan_negative :: "nat \<Rightarrow> nat \<Rightarrow> nat \<Rightarrow> bool"
  iv_sha256 :: "octet list \<Rightarrow> octet list"

section \<open>Rectangles\<close>

record bounding_box =
  bb_x :: f32
  bb_y :: f32
  bb_width :: f32
  bb_height :: f32

datatype geometry_error = InvalidBoundingBox

abbreviation f_zero :: f32 where
  "f_zero \<equiv> F_Num False 0"

abbreviation f_one :: f32 where
  "f_one \<equiv> F_Num False 1"

definition validate_box :: "bounding_box \<Rightarrow> (geometry_error, unit) result" where
  "validate_box b =
     (if \<not> f_is_finite (bb_x b) \<or> \<not> f_is_finite (bb_y b) \<or> \<not> f_is_finite (bb_width b) \<or> \<not> f_is_finite (bb_height b)
         \<or> f_le (bb_width b) f_zero \<or> f_le (bb_height b) f_zero
      then Inl InvalidBoundingBox else Inr ())"

definition new_box :: "f32 \<Rightarrow> f32 \<Rightarrow> f32 \<Rightarrow> f32 \<Rightarrow> (geometry_error, bounding_box) result" where
  "new_box x y w h =
     (let b = \<lparr>bb_x = x, bb_y = y, bb_width = w, bb_height = h\<rparr> in bind_result (validate_box b) (\<lambda>_. Inr b))"

definition box_area :: "bounding_box \<Rightarrow> f32" where
  "box_area b = f_mul (bb_width b) (bb_height b)"

definition box_center :: "bounding_box \<Rightarrow> f32 \<times> f32" where
  "box_center b =
     (let half = F_Num False (1 / 2) in
      (f_add (bb_x b) (f_mul (bb_width b) half), f_add (bb_y b) (f_mul (bb_height b) half)))"

definition intersection_over_union :: "bounding_box \<Rightarrow> bounding_box \<Rightarrow> f32" where
  "intersection_over_union a b =
     (let left = f_max (bb_x a) (bb_x b);
          top = f_max (bb_y a) (bb_y b);
          right = f_min (f_add (bb_x a) (bb_width a)) (f_add (bb_x b) (bb_width b));
          bottom = f_min (f_add (bb_y a) (bb_height a)) (f_add (bb_y b) (bb_height b));
          intersection = f_mul (f_max (f_sub right left) f_zero) (f_max (f_sub bottom top) f_zero);
          union = f_sub (f_add (box_area a) (box_area b)) intersection
      in if f_le union F_EPSILON then f_zero else f_clamp f_zero f_one (f_div intersection union))"

definition normalized_center_distance :: "identity_env \<Rightarrow> bounding_box \<Rightarrow> bounding_box \<Rightarrow> f32" where
  "normalized_center_distance env a b =
     (let (ax, ay) = box_center a; (bx, by') = box_center b;
          distance = iv_hypot env (f_sub ax bx) (f_sub ay by');
          scale = f_max (iv_hypot env (f_max (bb_width a) (bb_width b)) (f_max (bb_height a) (bb_height b))) F_EPSILON
      in f_div distance scale)"

definition translated :: "bounding_box \<Rightarrow> f32 \<Rightarrow> f32 \<Rightarrow> bounding_box" where
  "translated b dx dy = b\<lparr>bb_x := f_add (bb_x b) dx, bb_y := f_add (bb_y b) dy\<rparr>"

section \<open>Embeddings\<close>

definition EMBEDDING_SCHEMA_VERSION :: nat where
  "EMBEDDING_SCHEMA_VERSION = 1"

definition UNIT_NORM_TOLERANCE :: f32 where
  "UNIT_NORM_TOLERANCE = f32_of (1 / 1000)"

record embedding_model =
  md_provider :: rstr
  md_model_id :: rstr
  md_revision :: rstr
  md_dimensions :: nat

record embedding_metadata =
  mt_source_frame_index :: nat
  mt_crop_bounds :: bounding_box
  mt_detector_id :: rstr
  mt_detector_revision :: rstr
  mt_preprocessing :: rstr
  mt_source_digest_sha256 :: "rstr option"

record embedding =
  eb_schema_version :: nat
  eb_model :: embedding_model
  eb_metadata :: embedding_metadata
  eb_values :: "f32 list"

datatype embedding_error =
    UnsupportedSchemaVersion nat | InvalidModelDescriptor | InvalidMetadata | InvalidSourceDigest | DimensionMismatch nat nat
  | NonFiniteValue | ZeroNorm | NotNormalized | IncompatibleModelSpace | EmbeddingGeometry geometry_error

definition validate_model :: "embedding_model \<Rightarrow> (embedding_error, unit) result" where
  "validate_model md =
     (if is_blank (md_provider md) \<or> is_blank (md_model_id md) \<or> is_blank (md_revision md)
         \<or> md_dimensions md = 0 \<or> md_dimensions md > 65536
      then Inl InvalidModelDescriptor else Inr ())"

definition validate_embedding_metadata :: "embedding_metadata \<Rightarrow> (embedding_error, unit) result" where
  "validate_embedding_metadata mt =
     bind_result (map_err EmbeddingGeometry (validate_box (mt_crop_bounds mt))) (\<lambda>_.
       if is_blank (mt_detector_id mt) \<or> is_blank (mt_detector_revision mt) \<or> is_blank (mt_preprocessing mt)
       then Inl InvalidMetadata
       else (case mt_source_digest_sha256 mt of
               None \<Rightarrow> Inr ()
             | Some digest \<Rightarrow>
                 if blen digest \<noteq> 64 \<or> \<not> list_all is_ascii_hexdigit digest then Inl InvalidSourceDigest else Inr ()))"

definition validate_raw_values :: "embedding_model \<Rightarrow> f32 list \<Rightarrow> (embedding_error, unit) result" where
  "validate_raw_values md values =
     (if length values \<noteq> md_dimensions md then Inl (DimensionMismatch (md_dimensions md) (length values))
      else if list_ex (\<lambda>v. \<not> f_is_finite v) values then Inl NonFiniteValue else Inr ())"

definition l2_norm :: "f32 list \<Rightarrow> f32" where
  "l2_norm values = f_sqrt (f_sum (map (\<lambda>v. f_mul v v) values))"

definition validate_embedding :: "embedding \<Rightarrow> (embedding_error, unit) result" where
  "validate_embedding e =
     (if eb_schema_version e \<noteq> EMBEDDING_SCHEMA_VERSION then Inl (UnsupportedSchemaVersion (eb_schema_version e))
      else
        bind_result (validate_model (eb_model e)) (\<lambda>_.
        bind_result (validate_embedding_metadata (eb_metadata e)) (\<lambda>_.
        bind_result (validate_raw_values (eb_model e) (eb_values e)) (\<lambda>_.
          let norm = l2_norm (eb_values e) in
          if f_le norm F_EPSILON then Inl ZeroNorm
          else if f_less UNIT_NORM_TOLERANCE (f_abs (f_sub norm f_one)) then Inl NotNormalized
          else Inr ()))))"

definition new_embedding :: "embedding_model \<Rightarrow> embedding_metadata \<Rightarrow> f32 list \<Rightarrow> (embedding_error, embedding) result" where
  "new_embedding md mt values =
     bind_result (validate_model md) (\<lambda>_.
     bind_result (validate_embedding_metadata mt) (\<lambda>_.
     bind_result (validate_raw_values md values) (\<lambda>_.
       let norm = l2_norm values in
       if f_le norm F_EPSILON then Inl ZeroNorm
       else
         (let e = \<lparr>eb_schema_version = EMBEDDING_SCHEMA_VERSION, eb_model = md, eb_metadata = mt,
                   eb_values = map (\<lambda>v. f_div v norm) values\<rparr>
          in bind_result (validate_embedding e) (\<lambda>_. Inr e)))))"

definition cosine_similarity :: "embedding \<Rightarrow> embedding \<Rightarrow> (embedding_error, f32) result" where
  "cosine_similarity a b =
     bind_result (validate_embedding a) (\<lambda>_.
     bind_result (validate_embedding b) (\<lambda>_.
       if eb_model a \<noteq> eb_model b then Inl IncompatibleModelSpace
       else Inr (f_clamp (F_Num True 1) f_one (f_sum (map (\<lambda>(l, r). f_mul l r) (zip (eb_values a) (eb_values b)))))))"

section \<open>Facts\<close>

lemma validate_embedding_model: "validate_embedding e = Inr () \<Longrightarrow> validate_model (eb_model e) = Inr ()"
  by (auto simp: validate_embedding_def bind_result_Inr_iff split: if_splits)

lemma new_embedding_valid: "new_embedding md mt vs = Inr e \<Longrightarrow> validate_embedding e = Inr () \<and> eb_model e = md \<and> eb_metadata e = mt"
  by (auto simp: new_embedding_def bind_result_Inr_iff Let_def split: if_splits)

text \<open>A similarity exists exactly between two valid embeddings of one model space, and is within the unit interval unless the
  sum of products is undefined.\<close>

lemma cosine_similarity_ok:
  "(\<exists>s. cosine_similarity a b = Inr s) \<longleftrightarrow> validate_embedding a = Inr () \<and> validate_embedding b = Inr () \<and> eb_model a = eb_model b"
  by (auto simp: cosine_similarity_def bind_result_Inr_iff split: if_splits)

lemma cosine_similarity_range:
  assumes "cosine_similarity a b = Inr s"
  shows "s = F_NaN \<or> f_in (F_Num True 1) f_one s"
proof -
  define z where "z = f_sum (map (\<lambda>(l, r). f_mul l r) (zip (eb_values a) (eb_values b)))"
  have s: "s = f_clamp (F_Num True 1) f_one z"
    using assms by (auto simp: cosine_similarity_def z_def bind_result_Inr_iff split: if_splits)
  show ?thesis
    using f_clamp_between [of "F_Num True 1" f_one z] by (cases z) (simp_all add: s f_in_def f_le_def)
qed

text \<open>The norm check bounds every component: a component beyond two would leave a norm of at least two.\<close>

lemma norm_at_least_two:
  assumes "at_least_four x"
  shows "f_less UNIT_NORM_TOLERANCE (f_abs (f_sub (f_sqrt x) f_one))"
proof -
  have "f_bounded (pow2 (-1)) UNIT_NORM_TOLERANCE"
    unfolding UNIT_NORM_TOLERANCE_def f32_of_def by (rule f32_round_bounded) (simp_all add: pow2_def)
  then obtain t n where tol: "UNIT_NORM_TOLERANCE = F_Num t n" "0 \<le> n" "n < 1"
    unfolding f_bounded_cases by (auto simp: pow2_def)
  show ?thesis
  proof (cases x)
    case (F_Inf s)
    then show ?thesis using assms by (simp add: tol at_least_four_def f_sub_def f_less_def f_le_def)
  next
    case (F_Num s m)
    then have m: "\<not> s" "4 \<le> m" using assms by (simp_all add: at_least_four_def)
    define z where "z = sqrt_round m - 1"
    have z: "1 \<le> z" using sqrt_round_ge_two [OF m(2)] by (simp add: z_def)
    then have "f_sub (f_sqrt x) f_one = f32_round False z" using F_Num m by (simp add: f_sub_def z_def Let_def)
    moreover have "1 \<le> rounded z" using rounded_pow2(2) [of z 0] z by (simp add: pow2_def)
    ultimately show ?thesis
      using tol(2,3) z by (auto simp: tol(1) f32_round_cases f_less_def f_le_def)
  qed (use assms in \<open>simp add: at_least_four_def\<close>)
qed

lemma square_nonnegative: "f_is_finite v \<Longrightarrow> nonnegative (f_mul v v)"
  by (cases v) (simp_all add: f32_round_nonnegative)

lemma valid_embedding_bounded:
  assumes ok: "validate_embedding e = Inr ()" and wf: "list_all f_wf (eb_values e)" and v: "v \<in> set (eb_values e)"
  shows "f_bounded (pow2 1) v"
proof (rule ccontr)
  assume big: "\<not> f_bounded (pow2 1) v"
  have fin: "\<forall>v\<in>set (eb_values e). f_is_finite v" and norm: "\<not> f_less UNIT_NORM_TOLERANCE (f_abs (f_sub (l2_norm (eb_values e)) f_one))"
    using ok by (auto simp: validate_embedding_def bind_result_Inr_iff validate_raw_values_def Let_def list_ex_iff split: if_splits)
  obtain s m where vm: "v = F_Num s m" "0 \<le> m" using fin v wf by (cases v) (auto simp: list_all_iff f_wf_def)
  then have "2 \<le> m" using big by (simp add: pow2_def)
  then have "2 * 2 \<le> m * m" by (intro mult_mono) simp_all
  then have "at_least_four (f_mul v v)" using vm by (simp add: f32_round_at_least_four)
  then have "at_least_four (f_sum (map (\<lambda>v. f_mul v v) (eb_values e)))"
    unfolding f_sum_def using fin v by (intro foldl_at_least_four) (auto simp: list_all_iff square_nonnegative nonnegative_def [of "F_Num s m" for s m])
  from norm_at_least_two [OF this] norm show False by (simp add: l2_norm_def)
qed

lemma cosine_similarity_number:
  assumes a: "validate_embedding a = Inr ()" "list_all f_wf (eb_values a)"
    and b: "validate_embedding b = Inr ()" "list_all f_wf (eb_values b)"
    and "cosine_similarity a b = Inr s"
  shows "f_in (F_Num True 1) f_one s"
proof -
  have "f_is_finite (f_mul l r)" if "(l, r) \<in> set (zip (eb_values a) (eb_values b))" for l r
    using f_mul_bounded [OF valid_embedding_bounded [OF a] valid_embedding_bounded [OF b], of l r] that
    by (auto dest: set_zip_leftD set_zip_rightD f_bounded_finite)
  then have "\<not> f_is_nan (f_sum (map (\<lambda>(l, r). f_mul l r) (zip (eb_values a) (eb_values b))))"
    by (intro f_sum_not_nan) (auto simp: list_all_iff)
  moreover have "s = f_clamp (F_Num True 1) f_one (f_sum (map (\<lambda>(l, r). f_mul l r) (zip (eb_values a) (eb_values b))))"
    using assms(5) by (auto simp: cosine_similarity_def bind_result_Inr_iff split: if_splits)
  ultimately show ?thesis
    using f_clamp_between [of "F_Num True 1" f_one] by (simp add: f_in_def f_le_def [of "F_Num True 1" f_one])
qed

end
