(* ===== verification/Actor_Tracker.thy ===== *)
theory Actor_Tracker
  imports Identity_Embedding Comparators
begin

text \<open>
  Temporal association of detections with actor tracks, \<open>crates/identity-engine/src/tracker.rs\<close>. Track numbers, epochs and frame
  indexes are \<open>u64\<close> values kept as \<open>nat\<close>; the checked increments fail at the maximum. An update returns its result together
  with the tracker it leaves, because the error exits inside the loops keep what was written before.
\<close>

section \<open>Data\<close>

datatype track_phase = PhaseVisible | PhaseOffscreen

record actor_detection =
  dt_detector_local_id :: "rstr option"
  dt_bounds :: bounding_box
  dt_confidence :: f32
  dt_embedding :: "embedding option"

record frame_actors =
  fa_frame_index :: nat
  fa_timestamp_ms :: nat
  fa_detections :: "actor_detection list"

record actor_tracker_config =
  tg_encounter_namespace :: rstr
  tg_minimum_detection_confidence :: f32
  tg_minimum_intersection_over_union :: f32
  tg_maximum_normalized_center_distance :: f32
  tg_minimum_appearance_similarity :: f32
  tg_appearance_weight :: f32
  tg_selected_actor_match_bonus :: f32
  tg_velocity_smoothing :: f32
  tg_maximum_missed_frames :: nat
  tg_selected_actor_maximum_missed_frames :: nat

datatype actor_tracker_error =
    TrackerConfiguration | InvalidEncounterNamespace | InvalidDetectionConfidence | InvalidDetectorLocalId
  | DuplicateDetectorLocalId rstr | NonMonotonicFrameIndex | NonMonotonicTimestamp | UnknownTrack nat | TrackIdExhausted
  | TrackEpochExhausted | InternalAssociationInvariant | TrackerGeometry geometry_error | TrackerEmbedding embedding_error

definition default_tracker_config :: actor_tracker_config where
  "default_tracker_config = \<lparr>tg_encounter_namespace = lit ''default-session'', tg_minimum_detection_confidence = f32_of (35 / 100),
     tg_minimum_intersection_over_union = f32_of (5 / 100), tg_maximum_normalized_center_distance = f32_of (5 / 2),
     tg_minimum_appearance_similarity = f32_of (65 / 100), tg_appearance_weight = f32_of (1 / 4),
     tg_selected_actor_match_bonus = f32_of (8 / 100), tg_velocity_smoothing = f32_of (55 / 100),
     tg_maximum_missed_frames = 4, tg_selected_actor_maximum_missed_frames = 30\<rparr>"

definition unit_interval :: "f32 \<Rightarrow> bool" where
  "unit_interval x \<longleftrightarrow> f_is_finite x \<and> f_in f_zero f_one x"

definition validate_tracker_config :: "actor_tracker_config \<Rightarrow> (actor_tracker_error, unit) result" where
  "validate_tracker_config c =
     (if is_blank (tg_encounter_namespace c) \<or> blen (tg_encounter_namespace c) > 256 then Inl InvalidEncounterNamespace
      else if \<not> list_all unit_interval [tg_minimum_detection_confidence c, tg_minimum_intersection_over_union c,
                tg_appearance_weight c, tg_velocity_smoothing c]
      then Inl TrackerConfiguration
      else if \<not> f_is_finite (tg_minimum_appearance_similarity c)
              \<or> \<not> f_in (F_Num True 1) f_one (tg_minimum_appearance_similarity c)
              \<or> \<not> f_is_finite (tg_maximum_normalized_center_distance c)
              \<or> f_le (tg_maximum_normalized_center_distance c) f_zero
              \<or> \<not> f_is_finite (tg_selected_actor_match_bonus c)
              \<or> f_less (tg_selected_actor_match_bonus c) f_zero
              \<or> tg_selected_actor_maximum_missed_frames c < tg_maximum_missed_frames c
      then Inl TrackerConfiguration
      else Inr ())"

definition validate_detection :: "actor_detection \<Rightarrow> (actor_tracker_error, unit) result" where
  "validate_detection d =
     bind_result (map_err TrackerGeometry (validate_box (dt_bounds d))) (\<lambda>_.
       if \<not> unit_interval (dt_confidence d) then Inl InvalidDetectionConfidence
       else if (case dt_detector_local_id d of None \<Rightarrow> False | Some v \<Rightarrow> is_blank v \<or> blen v > 256)
       then Inl InvalidDetectorLocalId
       else (case dt_embedding d of None \<Rightarrow> Inr () | Some e \<Rightarrow> map_err TrackerEmbedding (validate_embedding e)))"

record track_snapshot =
  sn_track_id :: nat
  sn_track_epoch :: nat
  sn_phase :: track_phase
  sn_bounds :: bounding_box
  sn_velocity_x :: f32
  sn_velocity_y :: f32
  sn_first_seen_frame :: nat
  sn_last_seen_frame :: nat
  sn_missed_frames :: nat
  sn_selected :: bool
  sn_encounter_id :: rstr

datatype track_event =
    TrackCreated nat nat
  | TrackUpdated nat nat
  | TrackLost nat nat
  | TrackReacquired nat nat
  | TrackRetired nat nat rstr
  | SelectionCleared nat

record tracked_detection =
  td_detection_index :: nat
  td_track_id :: nat
  td_track_epoch :: nat
  td_embedding :: "embedding option"

record tracker_update =
  tu_frame_index :: nat
  tu_tracks :: "track_snapshot list"
  tu_observations :: "tracked_detection list"
  tu_events :: "track_event list"
  tu_selected_track_id :: "nat option"

record track_state =
  tr_track_id :: nat
  tr_track_epoch :: nat
  tr_phase :: track_phase
  tr_bounds :: bounding_box
  tr_velocity_x :: f32
  tr_velocity_y :: f32
  tr_first_seen_frame :: nat
  tr_last_seen_frame :: nat
  tr_missed_frames :: nat
  tr_encounter_id :: rstr
  tr_last_embedding :: "embedding option"

record actor_tracker =
  ar_config :: actor_tracker_config
  ar_next_track_id :: nat
  ar_tracks :: "(nat, track_state) btree"
  ar_selected_track_id :: "nat option"
  ar_last_frame_index :: "nat option"
  ar_last_timestamp_ms :: "nat option"

definition snapshot_track :: "track_state \<Rightarrow> bool \<Rightarrow> track_snapshot" where
  "snapshot_track t selected = \<lparr>sn_track_id = tr_track_id t, sn_track_epoch = tr_track_epoch t, sn_phase = tr_phase t,
     sn_bounds = tr_bounds t, sn_velocity_x = tr_velocity_x t, sn_velocity_y = tr_velocity_y t,
     sn_first_seen_frame = tr_first_seen_frame t, sn_last_seen_frame = tr_last_seen_frame t,
     sn_missed_frames = tr_missed_frames t, sn_selected = selected, sn_encounter_id = tr_encounter_id t\<rparr>"

definition predicted_bounds :: "track_state \<Rightarrow> nat \<Rightarrow> bounding_box" where
  "predicted_bounds t frame_index =
     (let elapsed = f32_of_nat (sat_sub frame_index (tr_last_seen_frame t)) in
      translated (tr_bounds t) (f_mul (tr_velocity_x t) elapsed) (f_mul (tr_velocity_y t) elapsed))"

section \<open>Selection\<close>

definition new_actor_tracker :: "actor_tracker_config \<Rightarrow> (actor_tracker_error, actor_tracker) result" where
  "new_actor_tracker c =
     bind_result (validate_tracker_config c) (\<lambda>_.
       Inr \<lparr>ar_config = c, ar_next_track_id = 1, ar_tracks = [], ar_selected_track_id = None, ar_last_frame_index = None,
            ar_last_timestamp_ms = None\<rparr>)"

definition select_actor :: "nat \<Rightarrow> actor_tracker \<Rightarrow> (actor_tracker_error, unit) result \<times> actor_tracker" where
  "select_actor i a =
     (if bt_get (ar_tracks a) i = None then (Inl (UnknownTrack i), a) else (Inr (), a\<lparr>ar_selected_track_id := Some i\<rparr>))"

definition clear_selection :: "actor_tracker \<Rightarrow> actor_tracker" where
  "clear_selection a = a\<lparr>ar_selected_track_id := None\<rparr>"

definition tracker_snapshot :: "actor_tracker \<Rightarrow> track_snapshot list" where
  "tracker_snapshot a = map (\<lambda>(i, t). snapshot_track t (ar_selected_track_id a = Some (tr_track_id t))) (ar_tracks a)"

section \<open>Validation of a frame\<close>

fun validate_detections :: "rstr list \<Rightarrow> actor_detection list \<Rightarrow> (actor_tracker_error, unit) result" where
  "validate_detections seen [] = Inr ()"
| "validate_detections seen (d # ds) =
     bind_result (validate_detection d) (\<lambda>_.
       case dt_detector_local_id d of
         None \<Rightarrow> validate_detections seen ds
       | Some i \<Rightarrow> if i \<in> set seen then Inl (DuplicateDetectorLocalId i) else validate_detections (i # seen) ds)"

definition validate_frame :: "actor_tracker \<Rightarrow> frame_actors \<Rightarrow> (actor_tracker_error, unit) result" where
  "validate_frame a f =
     (if (case ar_last_frame_index a of None \<Rightarrow> False | Some l \<Rightarrow> fa_frame_index f \<le> l) then Inl NonMonotonicFrameIndex
      else if (case ar_last_timestamp_ms a of None \<Rightarrow> False | Some l \<Rightarrow> fa_timestamp_ms f < l) then Inl NonMonotonicTimestamp
      else validate_detections [] (fa_detections f))"

section \<open>Association\<close>

definition association_score :: "identity_env \<Rightarrow> actor_tracker \<Rightarrow> track_state \<Rightarrow> actor_detection \<Rightarrow> nat \<Rightarrow> f32 option" where
  "association_score env a t d frame_index =
     (let c = ar_config a;
          predicted = predicted_bounds t frame_index;
          iou = intersection_over_union predicted (dt_bounds d);
          distance = normalized_center_distance env predicted (dt_bounds d);
          appearance = (case (tr_last_embedding t, dt_embedding d) of
                          (Some p, Some q) \<Rightarrow> (case cosine_similarity p q of Inr s \<Rightarrow> Some s | Inl _ \<Rightarrow> None)
                        | _ \<Rightarrow> None);
          geometric_gate = f_le (tg_minimum_intersection_over_union c) iou
                           \<or> f_le distance (tg_maximum_normalized_center_distance c);
          appearance_gate = (case appearance of None \<Rightarrow> False | Some s \<Rightarrow> f_le (tg_minimum_appearance_similarity c) s)
      in if \<not> geometric_gate \<and> \<not> appearance_gate then None
         else if (case appearance of None \<Rightarrow> False | Some s \<Rightarrow> f_less s (tg_minimum_appearance_similarity c)) then None
         else
           (let proximity = f_clamp f_zero f_one (f_sub f_one (f_div distance (tg_maximum_normalized_center_distance c)));
                appearance_score = (case appearance of None \<Rightarrow> F_Num False (1 / 2)
                                    | Some s \<Rightarrow> f_mul (f_add s f_one) (F_Num False (1 / 2)));
                geometry_weight = f_sub f_one (tg_appearance_weight c);
                score = f_add (f_mul geometry_weight (f_add (f_mul (f32_of (6 / 10)) iou) (f_mul (f32_of (4 / 10)) proximity)))
                              (f_mul (tg_appearance_weight c) appearance_score)
            in Some (if ar_selected_track_id a = Some (tr_track_id t)
                     then f_add score (tg_selected_actor_match_bonus c) else score)))"

record candidate_pair =
  cp_track_id :: nat
  cp_detection_index :: nat
  cp_score :: f32

definition total_cmp :: "bool \<times> f32 \<Rightarrow> bool \<times> f32 \<Rightarrow> ordering" where
  "total_cmp x y = (if total_less x y then OLess else if total_less y x then OGreater else OEqual)"

definition signed_score :: "(nat \<Rightarrow> nat \<Rightarrow> bool) \<Rightarrow> candidate_pair \<Rightarrow> bool \<times> f32" where
  "signed_score negative c = (negative (cp_track_id c) (cp_detection_index c), cp_score c)"

definition candidate_order :: "(nat \<Rightarrow> nat \<Rightarrow> bool) \<Rightarrow> candidate_pair \<Rightarrow> candidate_pair \<Rightarrow> ordering" where
  "candidate_order negative l r =
     then_with (then_with (total_cmp (signed_score negative r) (signed_score negative l)) (ord_cmp (cp_track_id l) (cp_track_id r)))
       (ord_cmp (cp_detection_index l) (cp_detection_index r))"

definition eligible_detections :: "actor_tracker \<Rightarrow> frame_actors \<Rightarrow> nat list" where
  "eligible_detections a f =
     filter (\<lambda>i. f_le (tg_minimum_detection_confidence (ar_config a)) (dt_confidence (fa_detections f ! i)))
       [0..<length (fa_detections f)]"

definition candidate_pairs :: "identity_env \<Rightarrow> actor_tracker \<Rightarrow> frame_actors \<Rightarrow> candidate_pair list" where
  "candidate_pairs env a f =
     concat (map (\<lambda>(_, t).
       List.map_filter (\<lambda>i.
         map_option (\<lambda>s. \<lparr>cp_track_id = tr_track_id t, cp_detection_index = i, cp_score = s\<rparr>)
           (association_score env a t (fa_detections f ! i) (fa_frame_index f)))
         (eligible_detections a f)) (ar_tracks a))"

fun assign_greedily :: "nat list \<Rightarrow> nat list \<Rightarrow> candidate_pair list \<Rightarrow> (nat \<times> nat) list" where
  "assign_greedily tracks detections [] = []"
| "assign_greedily tracks detections (c # cs) =
     (if cp_track_id c \<notin> set tracks \<and> cp_detection_index c \<notin> set detections
      then (cp_track_id c, cp_detection_index c)
             # assign_greedily (cp_track_id c # tracks) (cp_detection_index c # detections) cs
      else assign_greedily tracks detections cs)"

definition assignments :: "identity_env \<Rightarrow> actor_tracker \<Rightarrow> frame_actors \<Rightarrow> (nat \<times> nat) list" where
  "assignments env a f = sort_key snd (assign_greedily [] [] (sort_by (candidate_order (iv_nan_negative env (fa_frame_index f))) (candidate_pairs env a f)))"

section \<open>Updating the tracks\<close>

definition next_epoch :: "nat \<Rightarrow> (actor_tracker_error, nat) result" where
  "next_epoch e = (if e < u64_max then Inr (e + 1) else Inl TrackEpochExhausted)"

definition blend :: "f32 \<Rightarrow> f32 \<Rightarrow> f32 \<Rightarrow> f32" where
  "blend smoothing measured old = f_add (f_mul smoothing measured) (f_mul (f_sub f_one smoothing) old)"

text \<open>The writes of one assignment before the epoch is advanced, and those after it.\<close>

definition move_track :: "actor_tracker_config \<Rightarrow> frame_actors \<Rightarrow> actor_detection \<Rightarrow> track_state \<Rightarrow> track_state" where
  "move_track c f d t =
     (let elapsed = f32_of_nat (max (sat_sub (fa_frame_index f) (tr_last_seen_frame t)) 1);
          vx = f_div (f_sub (bb_x (dt_bounds d)) (bb_x (tr_bounds t))) elapsed;
          vy = f_div (f_sub (bb_y (dt_bounds d)) (bb_y (tr_bounds t))) elapsed
      in t\<lparr>tr_velocity_x := blend (tg_velocity_smoothing c) vx (tr_velocity_x t),
           tr_velocity_y := blend (tg_velocity_smoothing c) vy (tr_velocity_y t)\<rparr>)"

definition place_track :: "frame_actors \<Rightarrow> actor_detection \<Rightarrow> nat \<Rightarrow> track_state \<Rightarrow> track_state" where
  "place_track f d epoch t = t\<lparr>tr_track_epoch := epoch, tr_phase := PhaseVisible, tr_bounds := dt_bounds d,
     tr_last_seen_frame := fa_frame_index f, tr_missed_frames := 0, tr_last_embedding := dt_embedding d\<rparr>"

record update_state =
  us_tracker :: actor_tracker
  us_events :: "track_event list"
  us_observations :: "tracked_detection list"
  us_retire :: "nat list"

definition put_track :: "nat \<Rightarrow> track_state \<Rightarrow> actor_tracker \<Rightarrow> actor_tracker" where
  "put_track i t a = a\<lparr>ar_tracks := bt_insert i t (ar_tracks a)\<rparr>"

text \<open>A \<open>for\<close> loop whose body may leave the function with an error; what it wrote before stays written.\<close>

fun try_each :: "('x \<Rightarrow> 's \<Rightarrow> ('e, unit) result \<times> 's) \<Rightarrow> 'x list \<Rightarrow> 's \<Rightarrow> ('e, unit) result \<times> 's" where
  "try_each body [] s = (Inr (), s)"
| "try_each body (x # xs) s =
     (case body x s of (Inl e, s') \<Rightarrow> (Inl e, s') | (Inr _, s') \<Rightarrow> try_each body xs s')"

definition seen_epoch :: "track_state \<Rightarrow> (actor_tracker_error, nat) result" where
  "seen_epoch t = (if tr_phase t = PhaseOffscreen then next_epoch (tr_track_epoch t) else Inr (tr_track_epoch t))"

definition apply_assignment ::
  "frame_actors \<Rightarrow> nat \<times> nat \<Rightarrow> update_state \<Rightarrow> (actor_tracker_error, unit) result \<times> update_state" where
  "apply_assignment f p u =
     (let a = us_tracker u; i = fst p; d = fa_detections f ! snd p in
      case bt_get (ar_tracks a) i of
        None \<Rightarrow> (Inl InternalAssociationInvariant, u)
      | Some t \<Rightarrow>
          (let t1 = move_track (ar_config a) f d t in
           case seen_epoch t of
             Inl e \<Rightarrow> (Inl e, u\<lparr>us_tracker := put_track i t1 a\<rparr>)
           | Inr epoch \<Rightarrow>
               (Inr (),
                u\<lparr>us_tracker := put_track i (place_track f d epoch t1) a,
                  us_events := us_events u
                    @ [if tr_phase t = PhaseOffscreen then TrackReacquired i epoch else TrackUpdated i epoch],
                  us_observations := us_observations u
                    @ [\<lparr>td_detection_index = snd p, td_track_id = i, td_track_epoch = epoch, td_embedding = dt_embedding d\<rparr>]\<rparr>)))"

definition missed_epoch :: "track_state \<Rightarrow> (actor_tracker_error, nat) result" where
  "missed_epoch t = (if tr_phase t = PhaseVisible then next_epoch (tr_track_epoch t) else Inr (tr_track_epoch t))"

definition grace_frames :: "actor_tracker \<Rightarrow> nat \<Rightarrow> nat" where
  "grace_frames a i =
     (if ar_selected_track_id a = Some i then tg_selected_actor_maximum_missed_frames (ar_config a)
      else tg_maximum_missed_frames (ar_config a))"

definition miss_track ::
  "frame_actors \<Rightarrow> nat list \<Rightarrow> nat \<Rightarrow> update_state \<Rightarrow> (actor_tracker_error, unit) result \<times> update_state" where
  "miss_track f assigned i u =
     (if i \<in> set assigned then (Inr (), u)
      else
        (let a = us_tracker u in
         case bt_get (ar_tracks a) i of
           None \<Rightarrow> (Inl InternalAssociationInvariant, u)
         | Some t \<Rightarrow>
             (let missed = sat_sub (fa_frame_index f) (tr_last_seen_frame t);
                  t1 = t\<lparr>tr_missed_frames := missed, tr_phase := PhaseOffscreen\<rparr>
              in case missed_epoch t of
                   Inl e \<Rightarrow> (Inl e, u\<lparr>us_tracker := put_track i t1 a\<rparr>)
                 | Inr epoch \<Rightarrow>
                     (Inr (),
                      u\<lparr>us_tracker := put_track i (t1\<lparr>tr_track_epoch := epoch\<rparr>) a,
                        us_events := us_events u @ (if tr_phase t = PhaseVisible then [TrackLost i epoch] else []),
                        us_retire := us_retire u @ (if missed > grace_frames a i then [i] else [])\<rparr>))))"

text \<open>UTF-8 and the little-endian bytes that the digest of an encounter covers.\<close>

definition utf8_char :: "uchar \<Rightarrow> octet list" where
  "utf8_char c =
     (if c < 128 then [of_nat c]
      else if c < 2048 then [of_nat (192 + c div 64), of_nat (128 + c mod 64)]
      else if c < 65536 then [of_nat (224 + c div 4096), of_nat (128 + c div 64 mod 64), of_nat (128 + c mod 64)]
      else [of_nat (240 + c div 262144), of_nat (128 + c div 4096 mod 64), of_nat (128 + c div 64 mod 64), of_nat (128 + c mod 64)])"

definition utf8 :: "rstr \<Rightarrow> octet list" where
  "utf8 s = concat (map utf8_char s)"

definition le_bytes64 :: "nat \<Rightarrow> octet list" where
  "le_bytes64 n = map (\<lambda>i. of_nat (n div 256 ^ i mod 256)) [0..<8]"

definition hex_digit :: "nat \<Rightarrow> uchar" where
  "hex_digit n = (if n < 10 then 48 + n else 87 + n)"

definition hex_byte :: "octet \<Rightarrow> rstr" where
  "hex_byte b = [hex_digit (unat b div 16), hex_digit (unat b mod 16)]"

definition encounter_id :: "identity_env \<Rightarrow> rstr \<Rightarrow> nat \<Rightarrow> nat \<Rightarrow> rstr" where
  "encounter_id env namespace track first_seen =
     lit ''enc_v1_'' @ concat (map hex_byte (take 12 (iv_sha256 env
       (utf8 (lit ''interactive-npcs/background-encounter/v1'') @ [0] @ utf8 namespace @ [0] @ le_bytes64 track @ le_bytes64 first_seen))))"

definition created_track :: "identity_env \<Rightarrow> actor_tracker \<Rightarrow> frame_actors \<Rightarrow> actor_detection \<Rightarrow> track_state" where
  "created_track env a f d = \<lparr>tr_track_id = ar_next_track_id a, tr_track_epoch = 1, tr_phase = PhaseVisible, tr_bounds = dt_bounds d,
     tr_velocity_x = f_zero, tr_velocity_y = f_zero, tr_first_seen_frame = fa_frame_index f,
     tr_last_seen_frame = fa_frame_index f, tr_missed_frames = 0,
     tr_encounter_id = encounter_id env (tg_encounter_namespace (ar_config a)) (ar_next_track_id a) (fa_frame_index f),
     tr_last_embedding = dt_embedding d\<rparr>"

definition create_track ::
  "identity_env \<Rightarrow> frame_actors \<Rightarrow> nat \<Rightarrow> update_state \<Rightarrow> (actor_tracker_error, unit) result \<times> update_state" where
  "create_track env f k u =
     (let a = us_tracker u; d = fa_detections f ! k; i = ar_next_track_id a in
      if i \<ge> u64_max then (Inl TrackIdExhausted, u)
      else
        (Inr (),
         u\<lparr>us_tracker := put_track i (created_track env a f d) (a\<lparr>ar_next_track_id := i + 1\<rparr>),
           us_events := us_events u @ [TrackCreated i 1],
           us_observations := us_observations u
             @ [\<lparr>td_detection_index = k, td_track_id = i, td_track_epoch = 1, td_embedding = dt_embedding d\<rparr>]\<rparr>))"

definition retire_track :: "nat \<Rightarrow> update_state \<Rightarrow> update_state" where
  "retire_track i u =
     (let a = us_tracker u in
      case bt_get (ar_tracks a) i of
        None \<Rightarrow> u
      | Some t \<Rightarrow>
          (let cleared = (ar_selected_track_id a = Some i) in
           u\<lparr>us_tracker := a\<lparr>ar_tracks := bt_remove i (ar_tracks a),
                ar_selected_track_id := (if cleared then None else ar_selected_track_id a)\<rparr>,
             us_events := us_events u @ [TrackRetired i (tr_track_epoch t) (tr_encounter_id t)]
                @ (if cleared then [SelectionCleared i] else [])\<rparr>))"

definition update_result :: "frame_actors \<Rightarrow> update_state \<Rightarrow> tracker_update" where
  "update_result f u = \<lparr>tu_frame_index = fa_frame_index f, tu_tracks = tracker_snapshot (us_tracker u),
     tu_observations = sort_key td_detection_index (us_observations u), tu_events = us_events u,
     tu_selected_track_id = ar_selected_track_id (us_tracker u)\<rparr>"

definition update_tracker ::
  "identity_env \<Rightarrow> actor_tracker \<Rightarrow> frame_actors \<Rightarrow> (actor_tracker_error, tracker_update) result \<times> actor_tracker" where
  "update_tracker env a f =
     (case validate_frame a f of
        Inl e \<Rightarrow> (Inl e, a)
      | Inr _ \<Rightarrow>
          (let pairs = assignments env a f;
               assigned_tracks = map fst pairs; assigned_detections = map snd pairs;
               u0 = \<lparr>us_tracker = a, us_events = [], us_observations = [], us_retire = []\<rparr>
           in case try_each (apply_assignment f) pairs u0 of
                (Inl e, u) \<Rightarrow> (Inl e, us_tracker u)
              | (Inr _, u1) \<Rightarrow>
                  (case try_each (miss_track f assigned_tracks) (map fst (ar_tracks (us_tracker u1))) u1 of
                     (Inl e, u) \<Rightarrow> (Inl e, us_tracker u)
                   | (Inr _, u2) \<Rightarrow>
                       (case try_each (create_track env f) (filter (\<lambda>k. k \<notin> set assigned_detections) (eligible_detections a f)) u2 of
                          (Inl e, u) \<Rightarrow> (Inl e, us_tracker u)
                        | (Inr _, u3) \<Rightarrow>
                            (let u4 = fold retire_track (us_retire u3) u3;
                                 u5 = u4\<lparr>us_tracker := (us_tracker u4)\<lparr>ar_last_frame_index := Some (fa_frame_index f),
                                        ar_last_timestamp_ms := Some (fa_timestamp_ms f)\<rparr>\<rparr>
                             in (Inr (update_result f u5), us_tracker u5))))))"

end
