(* ===== verification/Identity_Resolver.thy ===== *)
theory Identity_Resolver
  imports Actor_Tracker
begin

text \<open>
  Recognition of actors over several frames, \<open>crates/identity-engine/src/identity.rs\<close>: the gallery of reference embeddings, the
  calibrated thresholds, and the resolver that turns the similarities of a window of frames into one conservative decision
  per track. The resolver is passed and returned explicitly; an operation that fails returns the resolver as it left it.
\<close>

section \<open>The gallery\<close>

definition IDENTITY_GALLERY_SCHEMA_VERSION :: nat where
  "IDENTITY_GALLERY_SCHEMA_VERSION = 1"

record identity_reference =
  rf_reference_id :: rstr
  rf_provenance :: rstr
  rf_embedding :: embedding

record subject_identity =
  sj_subject_id :: rstr
  sj_display_name :: rstr
  sj_references :: "identity_reference list"

record identity_gallery =
  ga_schema_version :: nat
  ga_model :: embedding_model
  ga_subjects :: "(rstr, subject_identity) btree"

datatype identity_error =
    UnsupportedGallerySchema nat | InvalidIdentityConfiguration | InvalidIdentifier rstr | InvalidDisplayName | InvalidProvenance
  | SubjectHasNoReferences rstr | DuplicateSubjectId rstr | DuplicateReferenceId rstr | SubjectMapKeyMismatch rstr rstr
  | IncompatibleGalleryModel | IncompatibleObservationModel | UnknownSubject rstr | InvalidEmbedding embedding_error

definition identifier_byte :: "uchar \<Rightarrow> bool" where
  "identifier_byte c \<longleftrightarrow> is_ascii_alphanumeric c \<or> c \<in> {45, 95, 46, 58}"

definition validate_identifier :: "rstr \<Rightarrow> rstr \<Rightarrow> (identity_error, unit) result" where
  "validate_identifier v kind =
     (if v = [] \<or> blen v > 256 \<or> \<not> list_all identifier_byte v then Inl (InvalidIdentifier kind) else Inr ())"

fun validate_references :: "embedding_model \<Rightarrow> rstr list \<Rightarrow> identity_reference list \<Rightarrow> (identity_error, unit) result" where
  "validate_references md seen [] = Inr ()"
| "validate_references md seen (r # rs) =
     bind_result (validate_identifier (rf_reference_id r) (lit ''reference ID'')) (\<lambda>_.
       if rf_reference_id r \<in> set seen then Inl (DuplicateReferenceId (rf_reference_id r))
       else if is_blank (rf_provenance r) \<or> blen (rf_provenance r) > 2048 then Inl InvalidProvenance
       else
         bind_result (map_err InvalidEmbedding (validate_embedding (rf_embedding r))) (\<lambda>_.
           if eb_model (rf_embedding r) \<noteq> md then Inl IncompatibleGalleryModel
           else validate_references md (rf_reference_id r # seen) rs))"

definition validate_subject :: "embedding_model \<Rightarrow> subject_identity \<Rightarrow> (identity_error, unit) result" where
  "validate_subject md s =
     bind_result (validate_identifier (sj_subject_id s) (lit ''subject ID'')) (\<lambda>_.
       if is_blank (sj_display_name s) \<or> blen (sj_display_name s) > 256 then Inl InvalidDisplayName
       else if sj_references s = [] then Inl (SubjectHasNoReferences (sj_subject_id s))
       else validate_references md [] (sj_references s))"

definition new_gallery :: "embedding_model \<Rightarrow> (identity_error, identity_gallery) result" where
  "new_gallery md =
     bind_result (map_err InvalidEmbedding (validate_model md)) (\<lambda>_.
       Inr \<lparr>ga_schema_version = IDENTITY_GALLERY_SCHEMA_VERSION, ga_model = md, ga_subjects = []\<rparr>)"

fun validate_subjects :: "embedding_model \<Rightarrow> (rstr \<times> subject_identity) list \<Rightarrow> (identity_error, unit) result" where
  "validate_subjects md [] = Inr ()"
| "validate_subjects md ((k, s) # m) =
     (if k \<noteq> sj_subject_id s then Inl (SubjectMapKeyMismatch k (sj_subject_id s))
      else bind_result (validate_subject md s) (\<lambda>_. validate_subjects md m))"

definition validate_gallery :: "identity_gallery \<Rightarrow> (identity_error, unit) result" where
  "validate_gallery g =
     (if ga_schema_version g \<noteq> IDENTITY_GALLERY_SCHEMA_VERSION then Inl (UnsupportedGallerySchema (ga_schema_version g))
      else
        bind_result (map_err InvalidEmbedding (validate_model (ga_model g))) (\<lambda>_.
          validate_subjects (ga_model g) (ga_subjects g)))"

definition contains_subject :: "identity_gallery \<Rightarrow> rstr \<Rightarrow> bool" where
  "contains_subject g i \<longleftrightarrow> bt_get (ga_subjects g) i \<noteq> None"

definition insert_subject :: "subject_identity \<Rightarrow> identity_gallery \<Rightarrow> (identity_error, unit) result \<times> identity_gallery" where
  "insert_subject s g =
     (case validate_subject (ga_model g) s of
        Inl e \<Rightarrow> (Inl e, g)
      | Inr _ \<Rightarrow>
          if contains_subject g (sj_subject_id s) then (Inl (DuplicateSubjectId (sj_subject_id s)), g)
          else (Inr (), g\<lparr>ga_subjects := bt_insert (sj_subject_id s) s (ga_subjects g)\<rparr>))"

section \<open>Configuration and decisions\<close>

record identity_config =
  ic_consensus_window_frames :: nat
  ic_minimum_consensus_frames :: nat
  ic_minimum_similarity :: f32
  ic_ambiguity_margin :: f32
  ic_hysteresis_retention_similarity :: f32
  ic_hysteresis_switch_margin :: f32

definition default_identity_config :: identity_config where
  "default_identity_config = \<lparr>ic_consensus_window_frames = 5, ic_minimum_consensus_frames = 3,
     ic_minimum_similarity = f32_of (72 / 100), ic_ambiguity_margin = f32_of (8 / 100),
     ic_hysteresis_retention_similarity = f32_of (66 / 100), ic_hysteresis_switch_margin = f32_of (12 / 100)\<rparr>"

definition validate_identity_config :: "identity_config \<Rightarrow> (identity_error, unit) result" where
  "validate_identity_config c =
     (if ic_consensus_window_frames c = 0 \<or> ic_minimum_consensus_frames c = 0
         \<or> ic_minimum_consensus_frames c > ic_consensus_window_frames c
      then Inl InvalidIdentityConfiguration
      else if \<not> list_all unit_interval [ic_minimum_similarity c, ic_ambiguity_margin c, ic_hysteresis_retention_similarity c,
                ic_hysteresis_switch_margin c]
      then Inl InvalidIdentityConfiguration
      else if f_less (ic_minimum_similarity c) (ic_hysteresis_retention_similarity c) then Inl InvalidIdentityConfiguration
      else Inr ())"

record match_evidence =
  me_subject_id :: rstr
  me_subject_similarity :: f32
  me_top_candidate_subject_id :: rstr
  me_top_candidate_similarity :: f32
  me_runner_up_similarity :: "f32 option"
  me_top1_top2_margin :: f32
  me_supporting_frames :: nat
  me_window_frames :: nat
  me_held_by_hysteresis :: bool

record ambiguity_evidence =
  ae_top_subject_id :: rstr
  ae_runner_up_subject_id :: "rstr option"
  ae_top_similarity :: f32
  ae_runner_up_similarity :: "f32 option"
  ae_top1_top2_margin :: f32
  ae_supporting_frames :: nat
  ae_window_frames :: nat

datatype identity_decision =
    DecisionPending rstr nat nat
  | DecisionExplicit rstr rstr
  | DecisionMatched rstr match_evidence
  | DecisionAmbiguous rstr ambiguity_evidence
  | DecisionNoMatch rstr "rstr option" "f32 option" nat
  | DecisionOffscreen rstr "rstr option" nat

fun decision_encounter_id :: "identity_decision \<Rightarrow> rstr" where
  "decision_encounter_id (DecisionPending e _ _) = e"
| "decision_encounter_id (DecisionExplicit e _) = e"
| "decision_encounter_id (DecisionMatched e _) = e"
| "decision_encounter_id (DecisionAmbiguous e _) = e"
| "decision_encounter_id (DecisionNoMatch e _ _ _) = e"
| "decision_encounter_id (DecisionOffscreen e _ _) = e"

fun resolved_subject_id :: "identity_decision \<Rightarrow> rstr option" where
  "resolved_subject_id (DecisionExplicit _ s) = Some s"
| "resolved_subject_id (DecisionMatched _ m) = Some (me_subject_id m)"
| "resolved_subject_id (DecisionOffscreen _ s _) = s"
| "resolved_subject_id _ = None"

section \<open>The resolver\<close>

record score_frame =
  sf_scores :: "(rstr, f32) btree"
  sf_top_subject_id :: "rstr option"

record identity_history =
  hi_score_frames :: "score_frame list"
  hi_confirmed_subject_id :: "rstr option"
  hi_last_decision :: "identity_decision option"

record identity_resolver =
  rs_config :: identity_config
  rs_gallery :: identity_gallery
  rs_histories :: "(nat, identity_history) btree"
  rs_explicit_assignments :: "(nat, rstr) btree"

definition default_history :: identity_history where
  "default_history = \<lparr>hi_score_frames = [], hi_confirmed_subject_id = None, hi_last_decision = None\<rparr>"

definition new_resolver :: "identity_config \<Rightarrow> identity_gallery \<Rightarrow> (identity_error, identity_resolver) result" where
  "new_resolver c g =
     bind_result (validate_identity_config c) (\<lambda>_.
     bind_result (validate_gallery g) (\<lambda>_.
       Inr \<lparr>rs_config = c, rs_gallery = g, rs_histories = [], rs_explicit_assignments = []\<rparr>))"

definition assign_explicit :: "nat \<Rightarrow> rstr \<Rightarrow> identity_resolver \<Rightarrow> (identity_error, unit) result \<times> identity_resolver" where
  "assign_explicit i s r =
     (if \<not> contains_subject (rs_gallery r) s then (Inl (UnknownSubject s), r)
      else (Inr (), r\<lparr>rs_explicit_assignments := bt_insert i s (rs_explicit_assignments r)\<rparr>))"

definition clear_explicit :: "nat \<Rightarrow> identity_resolver \<Rightarrow> identity_resolver" where
  "clear_explicit i r = r\<lparr>rs_explicit_assignments := bt_remove i (rs_explicit_assignments r)\<rparr>"

definition forget_track :: "nat \<Rightarrow> identity_resolver \<Rightarrow> identity_resolver" where
  "forget_track i r = r\<lparr>rs_explicit_assignments := bt_remove i (rs_explicit_assignments r),
     rs_histories := bt_remove i (rs_histories r)\<rparr>"

subsection \<open>Scoring\<close>

text \<open>The means that are ranked are never undefined (Resolver\_Evidence), so the sign of an undefined value plays no role here.\<close>

definition score_order :: "rstr \<times> f32 \<Rightarrow> rstr \<times> f32 \<Rightarrow> ordering" where
  "score_order l r = then_with (total_cmp (False, snd r) (False, snd l)) (ord_cmp (fst l) (fst r))"

definition ranked_scores :: "(rstr, f32) btree \<Rightarrow> (rstr \<times> f32) list" where
  "ranked_scores scores = sort_by score_order scores"

fun best_similarity :: "embedding \<Rightarrow> f32 \<Rightarrow> identity_reference list \<Rightarrow> (identity_error, f32) result" where
  "best_similarity e best [] = Inr best"
| "best_similarity e best (r # rs) =
     bind_result (map_err InvalidEmbedding (cosine_similarity e (rf_embedding r))) (\<lambda>s. best_similarity e (f_max best s) rs)"

fun score_subjects ::
  "embedding \<Rightarrow> (rstr \<times> subject_identity) list \<Rightarrow> (rstr, f32) btree \<Rightarrow> (identity_error, (rstr, f32) btree) result" where
  "score_subjects e [] scores = Inr scores"
| "score_subjects e ((_, s) # m) scores =
     bind_result (best_similarity e (F_Inf True) (sj_references s)) (\<lambda>best.
       score_subjects e m (bt_insert (sj_subject_id s) best scores))"

definition top_of :: "(rstr, f32) btree \<Rightarrow> rstr option" where
  "top_of scores = (case ranked_scores scores of [] \<Rightarrow> None | (s, _) # _ \<Rightarrow> Some s)"

definition score_embedding :: "identity_gallery \<Rightarrow> embedding \<Rightarrow> (identity_error, score_frame) result" where
  "score_embedding g e =
     bind_result (score_subjects e (ga_subjects g) []) (\<lambda>scores. Inr \<lparr>sf_scores = scores, sf_top_subject_id = top_of scores\<rparr>)"

subsection \<open>The decision\<close>

definition add_score :: "(rstr \<times> f32) \<Rightarrow> (rstr, f32) btree \<Rightarrow> (rstr, f32) btree" where
  "add_score e totals =
     bt_insert (fst e) (f_add (case bt_get totals (fst e) of None \<Rightarrow> f_zero | Some x \<Rightarrow> x) (snd e)) totals"

definition add_support :: "score_frame \<Rightarrow> (rstr, nat) btree \<Rightarrow> (rstr, nat) btree" where
  "add_support f supports =
     (case sf_top_subject_id f of
        None \<Rightarrow> supports
      | Some s \<Rightarrow> bt_insert s ((case bt_get supports s of None \<Rightarrow> 0 | Some n \<Rightarrow> n) + 1) supports)"

definition score_sums :: "score_frame list \<Rightarrow> (rstr, f32) btree" where
  "score_sums frames = fold (\<lambda>f totals. fold add_score (sf_scores f) totals) frames []"

definition score_supports :: "score_frame list \<Rightarrow> (rstr, nat) btree" where
  "score_supports frames = fold add_support frames []"

definition score_averages :: "score_frame list \<Rightarrow> (rstr, f32) btree" where
  "score_averages frames = map (\<lambda>(s, x). (s, f_div x (f32_of_nat (length frames)))) (score_sums frames)"

definition support_of :: "(rstr, nat) btree \<Rightarrow> rstr \<Rightarrow> nat" where
  "support_of supports s = (case bt_get supports s of None \<Rightarrow> 0 | Some n \<Rightarrow> n)"

text \<open>The branch that keeps a confirmed subject.\<close>

definition retained_match ::
  "identity_config \<Rightarrow> (rstr, f32) btree \<Rightarrow> rstr \<Rightarrow> f32 \<Rightarrow> rstr \<Rightarrow> f32 option" where
  "retained_match c averages top_subject top_similarity confirmed =
     (let confirmed_similarity = (case bt_get averages confirmed of None \<Rightarrow> F_Inf True | Some x \<Rightarrow> x) in
      if f_le (ic_hysteresis_retention_similarity c) confirmed_similarity
         \<and> (top_subject = confirmed
            \<or> f_less (f_sub top_similarity confirmed_similarity) (ic_hysteresis_switch_margin c))
      then Some confirmed_similarity else None)"

definition fresh_decision ::
  "identity_config \<Rightarrow> rstr \<Rightarrow> nat \<Rightarrow> rstr \<times> f32 \<Rightarrow> (rstr \<times> f32) option \<Rightarrow> f32 \<Rightarrow> nat \<Rightarrow> identity_history
     \<Rightarrow> identity_decision \<times> identity_history" where
  "fresh_decision c encounter observed best runner_up margin top_support h =
     (if f_less (snd best) (ic_minimum_similarity c)
      then (DecisionNoMatch encounter (Some (fst best)) (Some (snd best)) observed, h\<lparr>hi_confirmed_subject_id := None\<rparr>)
      else if f_less margin (ic_ambiguity_margin c) \<or> top_support < ic_minimum_consensus_frames c
      then (DecisionAmbiguous encounter
              \<lparr>ae_top_subject_id = fst best, ae_runner_up_subject_id = map_option fst runner_up, ae_top_similarity = snd best,
               ae_runner_up_similarity = map_option snd runner_up, ae_top1_top2_margin = margin,
               ae_supporting_frames = top_support, ae_window_frames = observed\<rparr>, h)
      else (DecisionMatched encounter
              \<lparr>me_subject_id = fst best, me_subject_similarity = snd best, me_top_candidate_subject_id = fst best,
               me_top_candidate_similarity = snd best, me_runner_up_similarity = map_option snd runner_up,
               me_top1_top2_margin = margin, me_supporting_frames = top_support, me_window_frames = observed,
               me_held_by_hysteresis = False\<rparr>, h\<lparr>hi_confirmed_subject_id := Some (fst best)\<rparr>))"

definition ranked_decision ::
  "identity_config \<Rightarrow> identity_history \<Rightarrow> rstr \<Rightarrow> (rstr, f32) btree \<Rightarrow> (rstr, nat) btree \<Rightarrow> rstr \<times> f32 \<Rightarrow> (rstr \<times> f32) option
     \<Rightarrow> identity_decision \<times> identity_history" where
  "ranked_decision c h encounter averages supports best runner_up =
     (let observed = length (hi_score_frames h);
          margin = (case runner_up of None \<Rightarrow> f_one | Some e \<Rightarrow> f_sub (snd best) (snd e));
          top_support = support_of supports (fst best)
      in case (case hi_confirmed_subject_id h of
                 None \<Rightarrow> None
               | Some s \<Rightarrow> map_option (Pair s) (retained_match c averages (fst best) (snd best) s)) of
           Some (confirmed, confirmed_similarity) \<Rightarrow>
             (DecisionMatched encounter
                \<lparr>me_subject_id = confirmed, me_subject_similarity = confirmed_similarity, me_top_candidate_subject_id = fst best,
                 me_top_candidate_similarity = snd best, me_runner_up_similarity = map_option snd runner_up,
                 me_top1_top2_margin = margin, me_supporting_frames = support_of supports confirmed,
                 me_window_frames = observed, me_held_by_hysteresis = (fst best \<noteq> confirmed)\<rparr>, h)
         | None \<Rightarrow> fresh_decision c encounter observed best runner_up margin top_support h)"

definition decide :: "identity_config \<Rightarrow> identity_history \<Rightarrow> rstr \<Rightarrow> identity_decision \<times> identity_history" where
  "decide c h encounter =
     (let observed = length (hi_score_frames h) in
      if observed < ic_minimum_consensus_frames c
      then (DecisionPending encounter observed (ic_minimum_consensus_frames c), h)
      else
        (let averages = score_averages (hi_score_frames h);
             supports = score_supports (hi_score_frames h)
         in case ranked_scores averages of
              [] \<Rightarrow> (DecisionNoMatch encounter None None observed, h\<lparr>hi_confirmed_subject_id := None\<rparr>)
            | best # rest \<Rightarrow> ranked_decision c h encounter averages supports best (case rest of [] \<Rightarrow> None | e # _ \<Rightarrow> Some e)))"

subsection \<open>Observations\<close>

definition history_of :: "identity_resolver \<Rightarrow> nat \<Rightarrow> identity_history" where
  "history_of r i = (case bt_get (rs_histories r) i of None \<Rightarrow> default_history | Some h \<Rightarrow> h)"

definition put_history :: "nat \<Rightarrow> identity_history \<Rightarrow> identity_resolver \<Rightarrow> identity_resolver" where
  "put_history i h r = r\<lparr>rs_histories := bt_insert i h (rs_histories r)\<rparr>"

text \<open>The frame is appended, then frames are dropped from the front while the window is exceeded.\<close>

definition push_frame :: "nat \<Rightarrow> score_frame \<Rightarrow> identity_history \<Rightarrow> identity_history" where
  "push_frame window f h =
     (let frames = hi_score_frames h @ [f] in h\<lparr>hi_score_frames := drop (length frames - window) frames\<rparr>)"

definition record_decision ::
  "nat \<Rightarrow> rstr \<Rightarrow> identity_history \<Rightarrow> identity_resolver \<Rightarrow> identity_decision \<times> identity_resolver" where
  "record_decision i encounter h r =
     (case decide (rs_config r) h encounter of
        (d, h') \<Rightarrow> (d, put_history i (h'\<lparr>hi_last_decision := Some d\<rparr>) r))"

definition admit_embedding :: "identity_resolver \<Rightarrow> embedding \<Rightarrow> (identity_error, score_frame) result" where
  "admit_embedding r e =
     bind_result (map_err InvalidEmbedding (validate_embedding e)) (\<lambda>_.
       if eb_model e \<noteq> ga_model (rs_gallery r) then Inl IncompatibleObservationModel
       else score_embedding (rs_gallery r) e)"

definition observe_actor ::
  "nat \<Rightarrow> embedding option \<Rightarrow> rstr \<Rightarrow> identity_resolver \<Rightarrow> (identity_error, identity_decision) result \<times> identity_resolver" where
  "observe_actor i embedding encounter r =
     (case bt_get (rs_explicit_assignments r) i of
        Some s \<Rightarrow>
          (let d = DecisionExplicit encounter s in
           (Inr d, put_history i ((history_of r i)\<lparr>hi_last_decision := Some d\<rparr>) r))
      | None \<Rightarrow>
          (case embedding of
             Some e \<Rightarrow>
               (case admit_embedding r e of
                  Inl err \<Rightarrow> (Inl err, r)
                | Inr f \<Rightarrow>
                    (case record_decision i encounter (push_frame (ic_consensus_window_frames (rs_config r)) f (history_of r i)) r of
                       (d, r') \<Rightarrow> (Inr d, r')))
           | None \<Rightarrow>
               (case hi_last_decision (history_of r i) of
                  Some d \<Rightarrow> (Inr d, put_history i (history_of r i) r)
                | None \<Rightarrow> (case record_decision i encounter (history_of r i) r of (d, r') \<Rightarrow> (Inr d, r')))))"

definition decision_for_phase ::
  "nat \<Rightarrow> nat \<Rightarrow> track_phase \<Rightarrow> rstr \<Rightarrow> identity_resolver \<Rightarrow> identity_decision \<times> identity_resolver" where
  "decision_for_phase i epoch phase encounter r =
     (if phase = PhaseOffscreen
      then
        (DecisionOffscreen encounter
           (case bt_get (rs_explicit_assignments r) i of
              Some s \<Rightarrow> Some s
            | None \<Rightarrow> (case bt_get (rs_histories r) i of None \<Rightarrow> None | Some h \<Rightarrow> hi_confirmed_subject_id h)) epoch, r)
      else
        (case observe_actor i None encounter r of
           (Inr d, r') \<Rightarrow> (d, r')
         | (Inl _, r') \<Rightarrow> (DecisionPending encounter 0 (ic_minimum_consensus_frames (rs_config r')), r')))"

end
