(* ===== verification/Tracker_Properties.thy ===== *)
theory Tracker_Properties
  imports Actor_Tracker
begin

text \<open>
  What the actor tracker guarantees: an invariant of its state that every operation keeps, on the error exits as well; that the
  association is a stable matching; and the exact effect of a successful update on every track and every detection.
\<close>

section \<open>The order of candidates\<close>

lemma total_cmp_simps [simp]:
  "total_cmp x y = OGreater \<longleftrightarrow> total_less y x" "total_cmp x y = OEqual \<longleftrightarrow> \<not> total_less x y \<and> \<not> total_less y x" "total_cmp x y = OLess \<longleftrightarrow> total_less x y"
  using total_less_trans [of x y x] total_less_irrefl by (auto simp: total_cmp_def)

lemma comparator_total_cmp: "total_comparator (\<lambda>x y. total_cmp (k x) (k y))"
proof
  fix x y z
  show "total_cmp (k y) (k x) = flip_ordering (total_cmp (k x) (k y))"
    using total_less_trans [of "k x" "k y" "k x"] total_less_irrefl by (auto simp: total_cmp_def)
  show "total_cmp (k x) (k y) \<noteq> OGreater \<Longrightarrow> total_cmp (k y) (k z) \<noteq> OGreater \<Longrightarrow> total_cmp (k x) (k z) \<noteq> OGreater"
    using total_less_neg_trans [of "k z" "k y" "k x"] by auto
qed

interpretation candidate_sort: total_comparator "candidate_order negative" for negative
proof -
  have "total_comparator (\<lambda>l r. then_with (then_with (total_cmp (signed_score negative r) (signed_score negative l)) (ord_cmp (cp_track_id l) (cp_track_id r)))
          (ord_cmp (cp_detection_index l) (cp_detection_index r)))"
    by (intro comparator_then_with comparator_of_key comparator_reversed [OF comparator_total_cmp])
  then show "total_comparator (candidate_order negative)" by (simp only: candidate_order_def [abs_def])
qed

section \<open>The greedy matching\<close>

lemma assign_greedily_fresh:
  "(i, k) \<in> set (assign_greedily ts ds cs) \<Longrightarrow> i \<notin> set ts \<and> k \<notin> set ds \<and> (\<exists>c\<in>set cs. cp_track_id c = i \<and> cp_detection_index c = k)"
  by (induction ts ds cs rule: assign_greedily.induct) (auto split: if_splits)

lemma assign_greedily_matching:
  "distinct (map fst (assign_greedily ts ds cs)) \<and> distinct (map snd (assign_greedily ts ds cs))"
  by (induction ts ds cs rule: assign_greedily.induct) (auto dest: assign_greedily_fresh)

text \<open>A candidate is passed over only because an earlier one took its track or its detection.\<close>

lemma assign_greedily_stable:
  assumes "sorted_wrt R cs" and "\<And>c. R c c" and "c \<in> set cs"
  shows "cp_track_id c \<in> set ts \<or> cp_detection_index c \<in> set ds
     \<or> (\<exists>b\<in>set cs. (cp_track_id b, cp_detection_index b) \<in> set (assign_greedily ts ds cs) \<and> R b c
          \<and> (cp_track_id b = cp_track_id c \<or> cp_detection_index b = cp_detection_index c))"
  using assms
proof (induction ts ds cs rule: assign_greedily.induct)
  case (2 ts ds x cs)
  have R: "R x c" using "2.prems" by auto
  show ?case
  proof (cases "cp_track_id x \<notin> set ts \<and> cp_detection_index x \<notin> set ds")
    case True
    show ?thesis
    proof (cases "c = x")
      case False
      then have "c \<in> set cs" using "2.prems" by simp
      then show ?thesis using "2.IH"(1) [OF True] "2.prems" True R by fastforce
    qed (use True R in auto)
  next
    case False
    then show ?thesis
    proof (cases "c = x")
      case False
      then have "c \<in> set cs" using "2.prems" by simp
      with \<open>\<not> (cp_track_id x \<notin> set ts \<and> cp_detection_index x \<notin> set ds)\<close> show ?thesis using "2.IH"(2) "2.prems" by fastforce
    qed auto
  qed
qed simp

lemma distinct_map_sort_key [simp]: "distinct (map g (sort_key h xs)) = distinct (map g xs)"
  by (metis mset_map mset_sort mset_eq_imp_distinct_iff)

lemma assignments_matching: "distinct (map fst (assignments env a f))" "distinct (map snd (assignments env a f))"
  using assign_greedily_matching by (simp_all add: assignments_def)

lemma set_assignments: "set (assignments env a f) = set (assign_greedily [] [] (sort_by (candidate_order (iv_nan_negative env (fa_frame_index f))) (candidate_pairs env a f)))"
  by (simp add: assignments_def)

lemma candidate_pairs_sound:
  "c \<in> set (candidate_pairs env a f) \<Longrightarrow>
     (\<exists>i t. (i, t) \<in> set (ar_tracks a) \<and> cp_track_id c = tr_track_id t
        \<and> association_score env a t (fa_detections f ! cp_detection_index c) (fa_frame_index f) = Some (cp_score c))
     \<and> cp_detection_index c \<in> set (eligible_detections a f)"
  by (fastforce simp: candidate_pairs_def List.map_filter_def)

lemma assignments_sound:
  assumes "(i, k) \<in> set (assignments env a f)"
  shows "(\<exists>j t. (j, t) \<in> set (ar_tracks a) \<and> i = tr_track_id t) \<and> k \<in> set (eligible_detections a f)"
proof -
  have "(i, k) \<in> set (assign_greedily [] [] (sort_by (candidate_order (iv_nan_negative env (fa_frame_index f))) (candidate_pairs env a f)))"
    using assms by (simp add: set_assignments)
  from assign_greedily_fresh [OF this] obtain c
    where "c \<in> set (candidate_pairs env a f)" "cp_track_id c = i" "cp_detection_index c = k" by auto
  then show ?thesis using candidate_pairs_sound [of c env a f] by auto
qed

section \<open>The invariant\<close>

text \<open>A track is filed under its number, which was handed out before, and its epoch counts the changes of phase: it is odd
  exactly while the track is visible, as long as it is not exhausted.\<close>

definition track_ok :: "nat \<Rightarrow> nat \<Rightarrow> track_state \<Rightarrow> bool" where
  "track_ok n i t \<longleftrightarrow> tr_track_id t = i \<and> 1 \<le> i \<and> i < n \<and> 1 \<le> tr_track_epoch t \<and> tr_track_epoch t \<le> u64_max
     \<and> (tr_track_epoch t < u64_max \<longrightarrow> (tr_phase t = PhaseVisible \<longleftrightarrow> odd (tr_track_epoch t)))"

definition tracker_inv :: "actor_tracker \<Rightarrow> bool" where
  "tracker_inv a \<longleftrightarrow> bt_wf (ar_tracks a) \<and> 1 \<le> ar_next_track_id a \<and> ar_next_track_id a \<le> u64_max
     \<and> (\<forall>i t. bt_get (ar_tracks a) i = Some t \<longrightarrow> track_ok (ar_next_track_id a) i t)
     \<and> (\<forall>i. ar_selected_track_id a = Some i \<longrightarrow> bt_get (ar_tracks a) i \<noteq> None)"

lemma put_track_simps [simp]:
  "ar_config (put_track i t a) = ar_config a" "ar_next_track_id (put_track i t a) = ar_next_track_id a"
  "ar_selected_track_id (put_track i t a) = ar_selected_track_id a" "ar_last_frame_index (put_track i t a) = ar_last_frame_index a"
  "ar_last_timestamp_ms (put_track i t a) = ar_last_timestamp_ms a" "ar_tracks (put_track i t a) = bt_insert i t (ar_tracks a)"
  by (simp_all add: put_track_def)

lemma move_track_simps [simp]:
  "tr_track_id (move_track c f d t) = tr_track_id t" "tr_track_epoch (move_track c f d t) = tr_track_epoch t"
  "tr_phase (move_track c f d t) = tr_phase t" "tr_first_seen_frame (move_track c f d t) = tr_first_seen_frame t"
  "tr_encounter_id (move_track c f d t) = tr_encounter_id t"
  by (simp_all add: move_track_def Let_def)

lemma place_track_simps [simp]:
  "tr_track_id (place_track f d e t) = tr_track_id t" "tr_track_epoch (place_track f d e t) = e"
  "tr_phase (place_track f d e t) = PhaseVisible" "tr_first_seen_frame (place_track f d e t) = tr_first_seen_frame t"
  "tr_encounter_id (place_track f d e t) = tr_encounter_id t" "tr_last_seen_frame (place_track f d e t) = fa_frame_index f"
  "tr_missed_frames (place_track f d e t) = 0" "tr_last_embedding (place_track f d e t) = dt_embedding d"
  "tr_bounds (place_track f d e t) = dt_bounds d"
  by (simp_all add: place_track_def)

lemma next_epoch_Inr [simp]: "next_epoch e = Inr n \<longleftrightarrow> e < u64_max \<and> n = e + 1"
  by (auto simp: next_epoch_def)

lemma next_epoch_Inl: "next_epoch e = Inl err \<longleftrightarrow> u64_max \<le> e \<and> err = TrackEpochExhausted"
  by (auto simp: next_epoch_def)

lemma tracker_invD:
  assumes "tracker_inv a"
  shows "bt_wf (ar_tracks a)" and "bt_get (ar_tracks a) i = Some t \<Longrightarrow> track_ok (ar_next_track_id a) i t"
    and "ar_selected_track_id a = Some i \<Longrightarrow> bt_get (ar_tracks a) i \<noteq> None"
  using assms by (simp_all add: tracker_inv_def)

lemma tracker_inv_put:
  "tracker_inv a \<Longrightarrow> track_ok (ar_next_track_id a) i t \<Longrightarrow> tracker_inv (put_track i t a)"
  by (auto simp: tracker_inv_def)

lemma track_ok_moved: "track_ok n i t \<Longrightarrow> track_ok n i (move_track c f d t)"
  by (simp add: track_ok_def)

lemma track_ok_seen: "track_ok n i t \<Longrightarrow> seen_epoch t = Inr e \<Longrightarrow> track_ok n i (place_track f d e (move_track c f d t))"
  by (cases "tr_phase t") (auto simp: track_ok_def seen_epoch_def)

lemma track_ok_missed:
  "track_ok n i t \<Longrightarrow> missed_epoch t = Inr e
     \<Longrightarrow> track_ok n i (t\<lparr>tr_missed_frames := m, tr_phase := PhaseOffscreen, tr_track_epoch := e\<rparr>)"
  by (cases "tr_phase t") (auto simp: track_ok_def missed_epoch_def)

lemma track_ok_exhausted:
  "track_ok n i t \<Longrightarrow> missed_epoch t = Inl e \<Longrightarrow> track_ok n i (t\<lparr>tr_missed_frames := m, tr_phase := PhaseOffscreen\<rparr>)"
  by (auto simp: track_ok_def next_epoch_Inl missed_epoch_def split: if_splits)

lemma try_each_inv:
  assumes "\<And>x s. I s \<Longrightarrow> I (snd (body x s))"
  shows "I s \<Longrightarrow> I (snd (try_each body xs s))"
proof (induction xs arbitrary: s)
  case (Cons x xs)
  from assms [OF Cons.prems, of x] Cons.IH [of "snd (body x s)"] show ?case by (auto split: prod.splits sum.splits)
qed simp

abbreviation update_inv :: "update_state \<Rightarrow> bool" where
  "update_inv u \<equiv> tracker_inv (us_tracker u)"

lemma apply_assignment_inv: "update_inv u \<Longrightarrow> update_inv (snd (apply_assignment f p u))"
  by (auto simp: apply_assignment_def Let_def split: option.splits sum.splits
      intro!: tracker_inv_put track_ok_moved track_ok_seen dest: tracker_invD(2))

lemma miss_track_inv: "update_inv u \<Longrightarrow> update_inv (snd (miss_track f as i u))"
  by (auto simp: miss_track_def Let_def split: option.splits sum.splits
      intro!: tracker_inv_put track_ok_missed track_ok_exhausted dest: tracker_invD(2))

lemma create_track_inv: "update_inv u \<Longrightarrow> update_inv (snd (create_track env f k u))"
  by (auto simp: create_track_def Let_def tracker_inv_def track_ok_def created_track_def u64_max_def intro: less_SucI)

lemma retire_track_inv: "update_inv u \<Longrightarrow> update_inv (retire_track i u)"
  by (auto simp: retire_track_def Let_def tracker_inv_def split: option.splits)

lemma fold_retire_inv: "update_inv u \<Longrightarrow> update_inv (fold retire_track is u)"
  by (induction "is" arbitrary: u) (auto intro: retire_track_inv)

lemma tracker_inv_frame [simp]:
  "tracker_inv (a\<lparr>ar_last_frame_index := l, ar_last_timestamp_ms := m\<rparr>) = tracker_inv a"
  by (simp add: tracker_inv_def)

section \<open>The effect of the loops\<close>

definition seen_track :: "actor_tracker_config \<Rightarrow> frame_actors \<Rightarrow> actor_detection \<Rightarrow> track_state \<Rightarrow> track_state" where
  "seen_track c f d t =
     place_track f d (if tr_phase t = PhaseOffscreen then tr_track_epoch t + 1 else tr_track_epoch t) (move_track c f d t)"

definition missed_track :: "frame_actors \<Rightarrow> track_state \<Rightarrow> track_state" where
  "missed_track f t = t\<lparr>tr_missed_frames := fa_frame_index f - tr_last_seen_frame t, tr_phase := PhaseOffscreen,
     tr_track_epoch := (if tr_phase t = PhaseVisible then tr_track_epoch t + 1 else tr_track_epoch t)\<rparr>"

definition same_settings :: "actor_tracker \<Rightarrow> actor_tracker \<Rightarrow> bool" where
  "same_settings a b \<longleftrightarrow> ar_config b = ar_config a \<and> ar_selected_track_id b = ar_selected_track_id a
     \<and> ar_last_frame_index b = ar_last_frame_index a \<and> ar_last_timestamp_ms b = ar_last_timestamp_ms a"

lemma same_settings_refl [simp]: "same_settings a a"
  by (simp add: same_settings_def)

text \<open>The report of one detection under a track, with the epoch that the tracks give it.\<close>

definition reported :: "frame_actors \<Rightarrow> (nat, track_state) btree \<Rightarrow> nat \<times> nat \<Rightarrow> tracked_detection" where
  "reported f ts p = \<lparr>td_detection_index = snd p, td_track_id = fst p, td_track_epoch = tr_track_epoch (the (bt_get ts (fst p))),
     td_embedding = dt_embedding (fa_detections f ! snd p)\<rparr>"

lemma reported_simps [simp]:
  "td_detection_index (reported f ts p) = snd p" "td_track_id (reported f ts p) = fst p"
  by (simp_all add: reported_def)

lemma reported_cong: "bt_get ts (fst p) = bt_get ts' (fst p) \<Longrightarrow> reported f ts p = reported f ts' p"
  by (simp add: reported_def)

lemma apply_assignment_ok:
  assumes "apply_assignment f (i, k) u = (Inr r, u')"
  obtains t where "bt_get (ar_tracks (us_tracker u)) i = Some t"
    "ar_tracks (us_tracker u') = bt_insert i (seen_track (ar_config (us_tracker u)) f (fa_detections f ! k) t) (ar_tracks (us_tracker u))"
    "same_settings (us_tracker u) (us_tracker u')" "ar_next_track_id (us_tracker u') = ar_next_track_id (us_tracker u)"
    "us_retire u' = us_retire u"
    "us_observations u' = us_observations u @ [reported f (ar_tracks (us_tracker u')) (i, k)]"
  using assms
  by (auto simp: apply_assignment_def Let_def seen_track_def seen_epoch_def same_settings_def reported_def split: option.splits sum.splits if_splits)

definition seen_effect :: "frame_actors \<Rightarrow> (nat \<times> nat) list \<Rightarrow> update_state \<Rightarrow> update_state \<Rightarrow> bool" where
  "seen_effect f ps u u' \<longleftrightarrow>
     (\<forall>i. bt_get (ar_tracks (us_tracker u')) i =
        (case map_of ps i of None \<Rightarrow> bt_get (ar_tracks (us_tracker u)) i
         | Some k \<Rightarrow> map_option (seen_track (ar_config (us_tracker u)) f (fa_detections f ! k)) (bt_get (ar_tracks (us_tracker u)) i)))
     \<and> same_settings (us_tracker u) (us_tracker u') \<and> ar_next_track_id (us_tracker u') = ar_next_track_id (us_tracker u)
     \<and> us_retire u' = us_retire u
     \<and> us_observations u' = us_observations u @ map (reported f (ar_tracks (us_tracker u'))) ps"

lemma apply_loop:
  assumes "try_each (apply_assignment f) ps u = (Inr r, u')" and "distinct (map fst ps)"
  shows "seen_effect f ps u u'"
  using assms
proof (induction ps arbitrary: u)
  case (Cons p ps)
  obtain j k where p: "p = (j, k)" by (cases p)
  obtain r1 u1 where u1: "apply_assignment f (j, k) u = (Inr r1, u1)" "try_each (apply_assignment f) ps u1 = (Inr r, u')"
    using Cons.prems p by (auto split: prod.splits sum.splits)
  have new: "map_of ps j = None" using Cons.prems p by (auto simp: map_of_eq_None_iff)
  have e: "seen_effect f ps u1 u'" using Cons.IH [OF u1(2)] Cons.prems by simp
  have same: "reported f (ar_tracks (us_tracker u1)) (j, k) = reported f (ar_tracks (us_tracker u')) (j, k)"
    using e new by (intro reported_cong) (simp add: seen_effect_def)
  from u1(1) show ?case
    by (rule apply_assignment_ok)
      (use e same Cons.prems p new in \<open>auto simp: seen_effect_def same_settings_def split: option.splits\<close>)
qed (simp add: seen_effect_def)

definition retires :: "frame_actors \<Rightarrow> actor_tracker \<Rightarrow> nat \<Rightarrow> bool" where
  "retires f a i \<longleftrightarrow>
     (case bt_get (ar_tracks a) i of None \<Rightarrow> False | Some t \<Rightarrow> fa_frame_index f - tr_last_seen_frame t > grace_frames a i)"

definition missed_effect :: "frame_actors \<Rightarrow> nat list \<Rightarrow> update_state \<Rightarrow> update_state \<Rightarrow> bool" where
  "missed_effect f is u u' \<longleftrightarrow>
     (\<forall>i. bt_get (ar_tracks (us_tracker u')) i =
        (if i \<in> set is then map_option (missed_track f) (bt_get (ar_tracks (us_tracker u)) i) else bt_get (ar_tracks (us_tracker u)) i))
     \<and> same_settings (us_tracker u) (us_tracker u') \<and> ar_next_track_id (us_tracker u') = ar_next_track_id (us_tracker u)
     \<and> us_retire u' = us_retire u @ filter (retires f (us_tracker u)) is
     \<and> us_observations u' = us_observations u"

lemma miss_track_ok:
  assumes "miss_track f as i u = (Inr r, u')"
  shows "missed_effect f (if i \<in> set as then [] else [i]) u u'"
  using assms
  by (auto simp: miss_track_def Let_def missed_track_def missed_epoch_def same_settings_def missed_effect_def retires_def
      split: option.splits sum.splits if_splits)

lemma missed_effect_trans:
  assumes 1: "missed_effect f xs u u1" and 2: "missed_effect f ys u1 u'" and "distinct (xs @ ys)"
  shows "missed_effect f (xs @ ys) u u'"
proof -
  have "retires f (us_tracker u1) y = retires f (us_tracker u) y" if "y \<in> set ys" for y
    using 1 that assms(3) by (auto simp: retires_def missed_effect_def same_settings_def grace_frames_def split: option.splits)
  then have "filter (retires f (us_tracker u1)) ys = filter (retires f (us_tracker u)) ys" by (intro filter_cong) auto
  then show ?thesis using 1 2 assms(3) by (auto simp: missed_effect_def same_settings_def)
qed

lemma miss_loop:
  assumes "try_each (miss_track f as) is u = (Inr r, u')" and "distinct is"
  shows "missed_effect f (filter (\<lambda>i. i \<notin> set as) is) u u'"
  using assms
proof (induction "is" arbitrary: u)
  case (Cons i rest)
  obtain r1 u1 where u1: "miss_track f as i u = (Inr r1, u1)" "try_each (miss_track f as) rest u1 = (Inr r, u')"
    using Cons.prems by (auto split: prod.splits sum.splits)
  show ?case
    using missed_effect_trans [OF miss_track_ok [OF u1(1)] Cons.IH [OF u1(2)]] Cons.prems by (auto split: if_splits)
qed (simp add: missed_effect_def)

definition created_effect :: "identity_env \<Rightarrow> frame_actors \<Rightarrow> nat list \<Rightarrow> update_state \<Rightarrow> update_state \<Rightarrow> bool" where
  "created_effect env f ks u u' \<longleftrightarrow>
     (let a = us_tracker u; a' = us_tracker u'; n = ar_next_track_id a in
      ar_next_track_id a' = n + length ks
      \<and> (\<forall>i. bt_get (ar_tracks a') i =
           (if n \<le> i \<and> i < n + length ks
            then Some (created_track env (a\<lparr>ar_next_track_id := i\<rparr>) f (fa_detections f ! (ks ! (i - n))))
            else bt_get (ar_tracks a) i))
      \<and> same_settings a a' \<and> us_retire u' = us_retire u
      \<and> us_observations u' = us_observations u @ map (reported f (ar_tracks a')) (zip [n..<n + length ks] ks))"

lemma created_track_cong: "ar_config a = ar_config b \<Longrightarrow> ar_next_track_id a = ar_next_track_id b \<Longrightarrow> created_track env a f d = created_track env b f d"
  by (simp add: created_track_def)

lemma create_loop:
  assumes "try_each (create_track env f) ks u = (Inr r, u')"
  shows "created_effect env f ks u u'"
  using assms
proof (induction ks arbitrary: u)
  case (Cons k rest)
  obtain r1 u1 where u1: "create_track env f k u = (Inr r1, u1)" "try_each (create_track env f) rest u1 = (Inr r, u')"
    using Cons.prems by (auto split: prod.splits sum.splits)
  let ?n = "ar_next_track_id (us_tracker u)"
  have h: "ar_next_track_id (us_tracker u1) = Suc ?n" "same_settings (us_tracker u) (us_tracker u1)" "us_retire u1 = us_retire u"
    "ar_tracks (us_tracker u1) = bt_insert ?n (created_track env (us_tracker u) f (fa_detections f ! k)) (ar_tracks (us_tracker u))"
    "us_observations u1 = us_observations u @ [reported f (ar_tracks (us_tracker u1)) (?n, k)]"
    using u1(1) by (auto simp: create_track_def Let_def same_settings_def reported_def created_track_def split: if_splits)
  have e: "created_effect env f rest u1 u'" by (rule Cons.IH [OF u1(2)])
  have same: "reported f (ar_tracks (us_tracker u1)) (?n, k) = reported f (ar_tracks (us_tracker u')) (?n, k)"
    using e h(1) by (intro reported_cong) (simp add: created_effect_def Let_def)
  have cong: "created_track env (us_tracker u1\<lparr>ar_next_track_id := i\<rparr>) f d = created_track env (us_tracker u\<lparr>ar_next_track_id := i\<rparr>) f d" for i d
    using h(2) by (intro created_track_cong) (simp_all add: same_settings_def)
  have first: "created_track env (us_tracker u\<lparr>ar_next_track_id := ?n\<rparr>) f d = created_track env (us_tracker u) f d" for d by simp
  have upt: "[?n..<?n + length (k # rest)] = ?n # [Suc ?n..<Suc ?n + length rest]" by (simp add: upt_conv_Cons del: upt_Suc)
  have nth: "(k # rest) ! (i - ?n) = rest ! (i - Suc ?n)" if "Suc ?n \<le> i" for i using that by (simp add: nth_Cons')
  show ?case
    unfolding created_effect_def Let_def upt using e h same cong first nth
    by (auto simp: created_effect_def Let_def same_settings_def Suc_le_eq le_less simp del: upt_Suc)
qed (auto simp: created_effect_def Let_def)

lemma retire_loop:
  "bt_get (ar_tracks (us_tracker (fold retire_track is u))) i = (if i \<in> set is then None else bt_get (ar_tracks (us_tracker u)) i)"
  "ar_config (us_tracker (fold retire_track is u)) = ar_config (us_tracker u)"
  "ar_next_track_id (us_tracker (fold retire_track is u)) = ar_next_track_id (us_tracker u)"
  "us_observations (fold retire_track is u) = us_observations u"
  "ar_selected_track_id (us_tracker (fold retire_track is u)) =
     (case ar_selected_track_id (us_tracker u) of None \<Rightarrow> None
      | Some i \<Rightarrow> if i \<in> set is \<and> bt_get (ar_tracks (us_tracker u)) i \<noteq> None then None else Some i)"
  by (induction "is" arbitrary: u) (auto simp: retire_track_def Let_def split: option.splits)

section \<open>A whole update\<close>

definition initial_update :: "actor_tracker \<Rightarrow> update_state" where
  "initial_update a = \<lparr>us_tracker = a, us_events = [], us_observations = [], us_retire = []\<rparr>"

lemma update_tracker_steps:
  assumes "update_tracker env a f = (Inr up, a')"
  obtains r1 u1 r2 u2 r3 u3
  where "validate_frame a f = Inr ()"
    "try_each (apply_assignment f) (assignments env a f) (initial_update a) = (Inr r1, u1)"
    "try_each (miss_track f (map fst (assignments env a f))) (map fst (ar_tracks (us_tracker u1))) u1 = (Inr r2, u2)"
    "try_each (create_track env f) (filter (\<lambda>k. k \<notin> set (map snd (assignments env a f))) (eligible_detections a f)) u2 = (Inr r3, u3)"
    "a' = us_tracker (fold retire_track (us_retire u3) u3)\<lparr>ar_last_frame_index := Some (fa_frame_index f),
        ar_last_timestamp_ms := Some (fa_timestamp_ms f)\<rparr>"
    "tu_observations up = sort_key td_detection_index (us_observations u3)"
    "tu_frame_index up = fa_frame_index f" "tu_tracks up = tracker_snapshot a'" "tu_selected_track_id up = ar_selected_track_id a'"
  using assms
  by (auto simp: update_tracker_def Let_def initial_update_def update_result_def retire_loop split: sum.splits prod.splits)

lemma update_tracker_inv:
  assumes "tracker_inv a"
  shows "tracker_inv (snd (update_tracker env a f))"
proof -
  let ?ps = "assignments env a f"
  define s1 where "s1 = snd (try_each (apply_assignment f) ?ps (initial_update a))"
  define s2 where "s2 = snd (try_each (miss_track f (map fst ?ps)) (map fst (ar_tracks (us_tracker s1))) s1)"
  define s3 where "s3 = snd (try_each (create_track env f) (filter (\<lambda>k. k \<notin> set (map snd ?ps)) (eligible_detections a f)) s2)"
  have 1: "update_inv s1" unfolding s1_def
    by (rule try_each_inv [where I = update_inv]) (use assms apply_assignment_inv in \<open>auto simp: initial_update_def\<close>)
  have 2: "update_inv s2" unfolding s2_def by (rule try_each_inv [where I = update_inv, OF miss_track_inv 1])
  have 3: "update_inv s3" unfolding s3_def by (rule try_each_inv [where I = update_inv, OF create_track_inv 2])
  have "snd (update_tracker env a f) \<in> {a, us_tracker s1, us_tracker s2, us_tracker s3,
      us_tracker (fold retire_track (us_retire s3) s3)\<lparr>ar_last_frame_index := Some (fa_frame_index f),
        ar_last_timestamp_ms := Some (fa_timestamp_ms f)\<rparr>}"
    unfolding update_tracker_def Let_def s1_def s2_def s3_def initial_update_def by (simp split: sum.splits prod.splits)
  then show ?thesis using assms 1 2 3 fold_retire_inv [OF 3] by auto
qed

lemma map_sort_key_self: "map h (sort_key h xs) = sort (map h xs)"
  by (rule properties_for_sort [symmetric]) (simp_all add: mset_map [symmetric] del: mset_map, simp)

lemma sort_matched_unmatched:
  assumes "sorted E" "distinct E" "distinct A" "set A \<subseteq> set E"
  shows "sort (A @ filter (\<lambda>k. k \<notin> set A) E) = E"
  by (rule sorted_distinct_set_unique) (use assms in auto)

lemma eligible_sorted: "sorted (eligible_detections a f)" "distinct (eligible_detections a f)"
  by (simp_all add: eligible_detections_def sorted_wrt_filter)

lemma initial_update_simps [simp]:
  "us_tracker (initial_update a) = a" "us_observations (initial_update a) = []" "us_retire (initial_update a) = []"
  by (simp_all add: initial_update_def)

lemma tracker_inv_below: "tracker_inv a \<Longrightarrow> ar_next_track_id a \<le> i \<Longrightarrow> bt_get (ar_tracks a) i = None"
  using tracker_invD(2) [of a i] by (cases "bt_get (ar_tracks a) i") (auto simp: track_ok_def)

lemma assignments_tracked:
  assumes "tracker_inv a" and "(i, k) \<in> set (assignments env a f)"
  obtains t where "bt_get (ar_tracks a) i = Some t"
proof -
  obtain j t where "(j, t) \<in> set (ar_tracks a)" "i = tr_track_id t" using assignments_sound [OF assms(2)] by blast
  then have get: "bt_get (ar_tracks a) j = Some t" using tracker_invD(1) [OF assms(1)] by (simp add: bt_get_in)
  then have "j = i" using tracker_invD(2) [OF assms(1) get] \<open>i = tr_track_id t\<close> by (simp add: track_ok_def)
  then show thesis using that get by blast
qed

text \<open>The state of every track after a successful update, as a function of the state before.\<close>

definition track_after :: "identity_env \<Rightarrow> actor_tracker \<Rightarrow> frame_actors \<Rightarrow> nat \<Rightarrow> track_state \<Rightarrow> track_state option" where
  "track_after env a f i t =
     (case map_of (assignments env a f) i of
        Some k \<Rightarrow> Some (seen_track (ar_config a) f (fa_detections f ! k) t)
      | None \<Rightarrow> if fa_frame_index f - tr_last_seen_frame t > grace_frames a i then None else Some (missed_track f t))"

definition unmatched :: "identity_env \<Rightarrow> actor_tracker \<Rightarrow> frame_actors \<Rightarrow> nat list" where
  "unmatched env a f = filter (\<lambda>k. k \<notin> snd ` set (assignments env a f)) (eligible_detections a f)"

lemma update_stages:
  assumes inv: "tracker_inv a" and up: "update_tracker env a f = (Inr up, a')"
  obtains u1 u2 u3 where "seen_effect f (assignments env a f) (initial_update a) u1"
    "missed_effect f (filter (\<lambda>i. i \<notin> fst ` set (assignments env a f)) (map fst (ar_tracks (us_tracker u1)))) u1 u2"
    "created_effect env f (unmatched env a f) u2 u3"
    "a' = us_tracker (fold retire_track (us_retire u3) u3)\<lparr>ar_last_frame_index := Some (fa_frame_index f),
        ar_last_timestamp_ms := Some (fa_timestamp_ms f)\<rparr>"
    "tu_observations up = sort_key td_detection_index (us_observations u3)"
proof -
  let ?ps = "assignments env a f"
  obtain r1 u1 r2 u2 r3 u3 where st:
    "try_each (apply_assignment f) ?ps (initial_update a) = (Inr r1, u1)"
    "try_each (miss_track f (map fst ?ps)) (map fst (ar_tracks (us_tracker u1))) u1 = (Inr r2, u2)"
    "try_each (create_track env f) (filter (\<lambda>k. k \<notin> set (map snd ?ps)) (eligible_detections a f)) u2 = (Inr r3, u3)"
    "a' = us_tracker (fold retire_track (us_retire u3) u3)\<lparr>ar_last_frame_index := Some (fa_frame_index f),
        ar_last_timestamp_ms := Some (fa_timestamp_ms f)\<rparr>"
    "tu_observations up = sort_key td_detection_index (us_observations u3)"
    using up by (rule update_tracker_steps)
  have ks: "filter (\<lambda>k. k \<notin> set (map snd ?ps)) (eligible_detections a f) = unmatched env a f" by (simp add: unmatched_def)
  have inv1: "update_inv u1"
    using try_each_inv [where I = update_inv and body = "apply_assignment f" and s = "initial_update a" and xs = ?ps,
        OF apply_assignment_inv] st(1) inv by simp
  have "missed_effect f (filter (\<lambda>i. i \<notin> set (map fst ?ps)) (map fst (ar_tracks (us_tracker u1)))) u1 u2"
    by (rule miss_loop [OF st(2)]) (rule bt_wf_distinct [OF tracker_invD(1) [OF inv1]])
  then show thesis
    using that apply_loop [OF st(1) assignments_matching(1)] create_loop [OF st(3)] st(4,5) unfolding ks by simp
qed

lemma update_observations:
  assumes "tracker_inv a" and "update_tracker env a f = (Inr up, a')"
  shows "map td_detection_index (tu_observations up) = eligible_detections a f"
    and "mset (map td_track_id (tu_observations up))
       = mset (map fst (assignments env a f) @ [ar_next_track_id a..<ar_next_track_id a'])"
    and "ar_next_track_id a' = ar_next_track_id a + length (unmatched env a f)"
proof -
  let ?ps = "assignments env a f" and ?ks = "unmatched env a f" and ?n = "ar_next_track_id a"
  obtain u1 u2 u3 where st: "seen_effect f ?ps (initial_update a) u1"
    "missed_effect f (filter (\<lambda>i. i \<notin> fst ` set ?ps) (map fst (ar_tracks (us_tracker u1)))) u1 u2"
    "created_effect env f ?ks u2 u3"
    "a' = us_tracker (fold retire_track (us_retire u3) u3)\<lparr>ar_last_frame_index := Some (fa_frame_index f),
        ar_last_timestamp_ms := Some (fa_timestamp_ms f)\<rparr>"
    "tu_observations up = sort_key td_detection_index (us_observations u3)"
    using assms by (rule update_stages)
  have n: "ar_next_track_id (us_tracker u2) = ?n" "us_observations u2 = us_observations u1"
    using st(1,2) by (auto simp: seen_effect_def missed_effect_def)
  show next': "ar_next_track_id a' = ?n + length ?ks" using st(3,4) n by (simp add: created_effect_def Let_def retire_loop)
  have obs: "map td_detection_index (us_observations u3) = map snd ?ps @ ?ks"
    "map td_track_id (us_observations u3) = map fst ?ps @ [?n..<?n + length ?ks]"
    using st(1,3) n by (simp_all add: seen_effect_def created_effect_def Let_def comp_def)
  have "map td_detection_index (tu_observations up) = sort (map snd ?ps @ filter (\<lambda>k. k \<notin> set (map snd ?ps)) (eligible_detections a f))"
    using st(5) obs by (simp add: map_sort_key_self unmatched_def)
  also have "\<dots> = eligible_detections a f"
    by (rule sort_matched_unmatched [OF eligible_sorted assignments_matching(2)]) (use assignments_sound in fastforce)
  finally show "map td_detection_index (tu_observations up) = eligible_detections a f" .
  show "mset (map td_track_id (tu_observations up)) = mset (map fst ?ps @ [?n..<ar_next_track_id a'])"
    using st(5) obs(2) next' by (metis mset_map mset_sort)
qed

lemma seen_then_missed:
  assumes e1: "seen_effect f ps (initial_update a) u1"
    and e2: "missed_effect f (filter (\<lambda>i. i \<notin> fst ` set ps) (map fst (ar_tracks (us_tracker u1)))) u1 u2"
  shows "bt_get (ar_tracks (us_tracker u2)) i =
      (case map_of ps i of None \<Rightarrow> map_option (missed_track f) (bt_get (ar_tracks a) i)
       | Some k \<Rightarrow> map_option (seen_track (ar_config a) f (fa_detections f ! k)) (bt_get (ar_tracks a) i))"
    and "i \<in> set (us_retire u2) \<longleftrightarrow> map_of ps i = None \<and> (\<exists>t. bt_get (ar_tracks a) i = Some t
       \<and> fa_frame_index f - tr_last_seen_frame t > grace_frames a i)"
proof -
  have get1: "bt_get (ar_tracks (us_tracker u1)) i =
      (case map_of ps i of None \<Rightarrow> bt_get (ar_tracks a) i
       | Some k \<Rightarrow> map_option (seen_track (ar_config a) f (fa_detections f ! k)) (bt_get (ar_tracks a) i))"
    and same: "same_settings a (us_tracker u1)" and ret: "us_retire u1 = []"
    using e1 unfolding seen_effect_def initial_update_simps by blast+
  have key: "i \<in> fst ` set (ar_tracks (us_tracker u1)) \<longleftrightarrow> bt_get (ar_tracks a) i \<noteq> None"
    using get1 bt_get_None_iff [of "ar_tracks (us_tracker u1)" i] by (auto split: option.splits)
  have out: "i \<notin> fst ` set ps \<longleftrightarrow> map_of ps i = None" by (simp add: map_of_eq_None_iff)
  show "bt_get (ar_tracks (us_tracker u2)) i =
      (case map_of ps i of None \<Rightarrow> map_option (missed_track f) (bt_get (ar_tracks a) i)
       | Some k \<Rightarrow> map_option (seen_track (ar_config a) f (fa_detections f ! k)) (bt_get (ar_tracks a) i))"
    using e2 get1 key out by (cases "bt_get (ar_tracks a) i") (auto simp: missed_effect_def split: option.splits)
  show "i \<in> set (us_retire u2) \<longleftrightarrow> map_of ps i = None \<and> (\<exists>t. bt_get (ar_tracks a) i = Some t
       \<and> fa_frame_index f - tr_last_seen_frame t > grace_frames a i)"
    using e2 get1 key out same ret
    by (cases "map_of ps i"; cases "bt_get (ar_tracks a) i") (auto simp: missed_effect_def retires_def grace_frames_def same_settings_def)
qed

lemma update_tracker_effect:
  assumes inv: "tracker_inv a" and up: "update_tracker env a f = (Inr up, a')"
  shows "bt_get (ar_tracks a) i = Some t \<Longrightarrow> bt_get (ar_tracks a') i = track_after env a f i t"
    and "bt_get (ar_tracks a) i = None \<Longrightarrow> bt_get (ar_tracks a') i =
       (if ar_next_track_id a \<le> i \<and> i < ar_next_track_id a'
        then Some (created_track env (a\<lparr>ar_next_track_id := i\<rparr>) f (fa_detections f ! (unmatched env a f ! (i - ar_next_track_id a))))
        else None)"
proof -
  let ?ps = "assignments env a f" and ?ks = "unmatched env a f" and ?n = "ar_next_track_id a"
  obtain u1 u2 u3 where st: "seen_effect f ?ps (initial_update a) u1"
    "missed_effect f (filter (\<lambda>i. i \<notin> fst ` set ?ps) (map fst (ar_tracks (us_tracker u1)))) u1 u2"
    "created_effect env f ?ks u2 u3"
    "a' = us_tracker (fold retire_track (us_retire u3) u3)\<lparr>ar_last_frame_index := Some (fa_frame_index f),
        ar_last_timestamp_ms := Some (fa_timestamp_ms f)\<rparr>"
    using inv up by (rule update_stages)
  have n2: "ar_next_track_id (us_tracker u2) = ?n" "ar_config (us_tracker u2) = ar_config a"
    using st(1,2) by (auto simp: seen_effect_def missed_effect_def same_settings_def)
  have "bt_get (ar_tracks (us_tracker u3)) i =
       (if ?n \<le> i \<and> i < ?n + length ?ks
        then Some (created_track env (a\<lparr>ar_next_track_id := i\<rparr>) f (fa_detections f ! (?ks ! (i - ?n))))
        else bt_get (ar_tracks (us_tracker u2)) i)"
    using st(3) n2 created_track_cong [of "us_tracker u2\<lparr>ar_next_track_id := i\<rparr>" "a\<lparr>ar_next_track_id := i\<rparr>"]
    by (simp add: created_effect_def Let_def)
  then have get': "bt_get (ar_tracks a') i = (if i \<in> set (us_retire u2) then None
      else if ?n \<le> i \<and> i < ar_next_track_id a'
        then Some (created_track env (a\<lparr>ar_next_track_id := i\<rparr>) f (fa_detections f ! (?ks ! (i - ?n))))
        else bt_get (ar_tracks (us_tracker u2)) i)"
    using st(3,4) n2 update_observations(3) [OF inv up] by (simp add: retire_loop created_effect_def Let_def)
  note two = seen_then_missed [OF st(1,2), of i]
  show "bt_get (ar_tracks a') i = track_after env a f i t" if "bt_get (ar_tracks a) i = Some t"
  proof -
    have "\<not> ?n \<le> i" using tracker_inv_below [OF inv] that by fastforce
    then show ?thesis using get' two that by (auto simp: track_after_def split: option.splits)
  qed
  show "bt_get (ar_tracks a') i = (if ?n \<le> i \<and> i < ar_next_track_id a'
        then Some (created_track env (a\<lparr>ar_next_track_id := i\<rparr>) f (fa_detections f ! (?ks ! (i - ?n))))
        else None)" if "bt_get (ar_tracks a) i = None"
    using get' two that by (auto split: option.splits)
qed

lemma created_track_epoch [simp]: "tr_track_epoch (created_track env a f d) = 1"
  by (simp add: created_track_def)

lemma update_reports:
  assumes inv: "tracker_inv a" and up: "update_tracker env a f = (Inr up, a')"
  shows "set (tu_observations up) = reported f (ar_tracks a') `
      (set (assignments env a f) \<union> set (zip [ar_next_track_id a..<ar_next_track_id a'] (unmatched env a f)))"
proof -
  let ?ps = "assignments env a f" and ?ks = "unmatched env a f" and ?n = "ar_next_track_id a"
  obtain u1 u2 u3 where st: "seen_effect f ?ps (initial_update a) u1"
    "missed_effect f (filter (\<lambda>i. i \<notin> fst ` set ?ps) (map fst (ar_tracks (us_tracker u1)))) u1 u2"
    "created_effect env f ?ks u2 u3" "tu_observations up = sort_key td_detection_index (us_observations u3)"
    using inv up by (rule update_stages)
  have next': "ar_next_track_id a' = ?n + length ?ks" by (rule update_observations(3) [OF inv up])
  have n2: "ar_next_track_id (us_tracker u2) = ?n" "us_observations u2 = us_observations u1"
    using st(1,2) by (auto simp: seen_effect_def missed_effect_def)
  have matched: "reported f (ar_tracks (us_tracker u1)) (i, k) = reported f (ar_tracks a') (i, k)" if ik: "(i, k) \<in> set ?ps" for i k
  proof -
    obtain t where t: "bt_get (ar_tracks a) i = Some t" using assignments_tracked [OF inv ik] by blast
    have "map_of ?ps i = Some k" using ik assignments_matching(1) by (simp add: map_of_eq_Some_iff)
    then show ?thesis using st(1) t update_tracker_effect(1) [OF inv up t]
      by (intro reported_cong) (simp add: seen_effect_def track_after_def)
  qed
  have fresh: "reported f (ar_tracks (us_tracker u3)) (i, k) = reported f (ar_tracks a') (i, k)"
    if "(i, k) \<in> set (zip [?n..<?n + length ?ks] ?ks)" for i k
  proof -
    have i: "?n \<le> i \<and> i < ?n + length ?ks" using set_zip_leftD [OF that] by simp
    then have "bt_get (ar_tracks a) i = None" using tracker_inv_below [OF inv] by blast
    then show ?thesis using i st(3) n2 next' update_tracker_effect(2) [OF inv up, of i]
      by (simp add: reported_def created_effect_def Let_def)
  qed
  have "set (tu_observations up) = reported f (ar_tracks (us_tracker u1)) ` set ?ps
      \<union> reported f (ar_tracks (us_tracker u3)) ` set (zip [?n..<?n + length ?ks] ?ks)"
    using st(1,3,4) n2 by (simp add: seen_effect_def created_effect_def Let_def)
  also have "\<dots> = reported f (ar_tracks a') ` (set ?ps \<union> set (zip [?n..<?n + length ?ks] ?ks))"
    unfolding image_Un using matched fresh by (intro arg_cong2 [where f = "(\<union>)"] image_cong) auto
  finally show ?thesis by (simp only: next')
qed

lemma update_selection:
  assumes inv: "tracker_inv a" and up: "update_tracker env a f = (Inr up, a')"
  shows "ar_selected_track_id a' = (case ar_selected_track_id a of None \<Rightarrow> None
      | Some i \<Rightarrow> if bt_get (ar_tracks a') i = None then None else Some i)"
    and "ar_config a' = ar_config a"
proof -
  let ?ps = "assignments env a f" and ?ks = "unmatched env a f" and ?n = "ar_next_track_id a"
  obtain u1 u2 u3 where st: "seen_effect f ?ps (initial_update a) u1"
    "missed_effect f (filter (\<lambda>i. i \<notin> fst ` set ?ps) (map fst (ar_tracks (us_tracker u1)))) u1 u2"
    "created_effect env f ?ks u2 u3"
    "a' = us_tracker (fold retire_track (us_retire u3) u3)\<lparr>ar_last_frame_index := Some (fa_frame_index f),
        ar_last_timestamp_ms := Some (fa_timestamp_ms f)\<rparr>"
    using inv up by (rule update_stages)
  have same: "ar_selected_track_id (us_tracker u3) = ar_selected_track_id a" "ar_config (us_tracker u3) = ar_config a"
    using st(1-3) by (simp_all add: seen_effect_def missed_effect_def created_effect_def Let_def same_settings_def)
  then show "ar_config a' = ar_config a" using st(4) by (simp add: retire_loop)
  have kept: "bt_get (ar_tracks (us_tracker u3)) i \<noteq> None" if "ar_selected_track_id a = Some i" for i
  proof -
    have "bt_get (ar_tracks a) i \<noteq> None" by (rule tracker_invD(3) [OF inv that])
    then have "bt_get (ar_tracks (us_tracker u2)) i \<noteq> None" using seen_then_missed(1) [OF st(1,2), of i] by (auto split: option.splits)
    then show ?thesis using st(3) by (simp add: created_effect_def Let_def)
  qed
  show "ar_selected_track_id a' = (case ar_selected_track_id a of None \<Rightarrow> None
      | Some i \<Rightarrow> if bt_get (ar_tracks a') i = None then None else Some i)"
    using st(4) same kept by (auto simp: retire_loop split: option.splits)
qed

section \<open>Progress\<close>

lemma try_each_succeeds:
  assumes "\<And>x xs s. P (x # xs) s \<Longrightarrow> \<exists>s'. body x s = (Inr (), s') \<and> P xs s'"
  shows "P xs s \<Longrightarrow> \<exists>s'. try_each body xs s = (Inr (), s')"
proof (induction xs arbitrary: s)
  case (Cons x xs)
  then show ?case using assms [OF Cons.prems] by fastforce
qed simp

definition epoch_left :: "actor_tracker \<Rightarrow> nat \<Rightarrow> bool" where
  "epoch_left a i \<longleftrightarrow> (\<exists>t. bt_get (ar_tracks a) i = Some t \<and> tr_track_epoch t < u64_max)"

lemma apply_succeeds:
  assumes "distinct (map fst ps)" and "\<forall>p\<in>set ps. epoch_left (us_tracker u) (fst p)"
  shows "\<exists>u'. try_each (apply_assignment f) ps u = (Inr (), u')"
  by (rule try_each_succeeds [where P = "\<lambda>ps u. distinct (map fst ps) \<and> (\<forall>p\<in>set ps. epoch_left (us_tracker u) (fst p))"])
     (use assms in \<open>auto simp: apply_assignment_def Let_def epoch_left_def seen_epoch_def next_epoch_def image_iff split: prod.splits\<close>)

lemma miss_succeeds:
  assumes "distinct is" and "\<forall>i\<in>set is. i \<notin> set as \<longrightarrow> epoch_left (us_tracker u) i"
  shows "\<exists>u'. try_each (miss_track f as) is u = (Inr (), u')"
  by (rule try_each_succeeds [where P = "\<lambda>is u. distinct is \<and> (\<forall>i\<in>set is. i \<notin> set as \<longrightarrow> epoch_left (us_tracker u) i)"])
     (use assms in \<open>auto simp: miss_track_def Let_def epoch_left_def missed_epoch_def next_epoch_def\<close>)

lemma create_succeeds:
  assumes "ar_next_track_id (us_tracker u) + length ks \<le> u64_max"
  shows "\<exists>u'. try_each (create_track env f) ks u = (Inr (), u')"
  by (rule try_each_succeeds [where P = "\<lambda>ks u. ar_next_track_id (us_tracker u) + length ks \<le> u64_max"])
     (use assms in \<open>auto simp: create_track_def Let_def\<close>)

lemma update_succeeds:
  assumes inv: "tracker_inv a" and valid: "validate_frame a f = Inr ()"
    and epochs: "\<And>i t. bt_get (ar_tracks a) i = Some t \<Longrightarrow> tr_track_epoch t < u64_max"
    and room: "ar_next_track_id a + length (fa_detections f) \<le> u64_max"
  shows "\<exists>up a'. update_tracker env a f = (Inr up, a')"
proof -
  let ?ps = "assignments env a f"
  have left: "epoch_left a i" if "bt_get (ar_tracks a) i \<noteq> None" for i using that epochs by (auto simp: epoch_left_def)
  have "\<forall>p\<in>set ?ps. epoch_left (us_tracker (initial_update a)) (fst p)"
    using assignments_tracked [OF inv] left by (metis initial_update_simps(1) option.distinct(1) prod.collapse)
  then obtain u1 where u1: "try_each (apply_assignment f) ?ps (initial_update a) = (Inr (), u1)"
    using apply_succeeds [OF assignments_matching(1)] by blast
  have inv1: "update_inv u1"
    using try_each_inv [where I = update_inv and body = "apply_assignment f" and s = "initial_update a" and xs = ?ps,
        OF apply_assignment_inv] u1 inv by simp
  note e1 = apply_loop [OF u1 assignments_matching(1), unfolded seen_effect_def initial_update_simps]
  have "epoch_left (us_tracker u1) i" if "i \<in> set (map fst (ar_tracks (us_tracker u1)))" "i \<notin> set (map fst ?ps)" for i
  proof -
    have same: "bt_get (ar_tracks (us_tracker u1)) i = bt_get (ar_tracks a) i"
      using e1 that(2) by (auto simp: map_of_eq_None_iff split: option.splits dest: map_of_SomeD)
    moreover have "bt_get (ar_tracks (us_tracker u1)) i \<noteq> None" using that(1) by (simp add: map_of_eq_None_iff)
    ultimately show ?thesis using left [of i] by (simp add: epoch_left_def)
  qed
  then obtain u2 where u2: "try_each (miss_track f (map fst ?ps)) (map fst (ar_tracks (us_tracker u1))) u1 = (Inr (), u2)"
    using miss_succeeds [OF bt_wf_distinct [OF tracker_invD(1) [OF inv1]]] by blast
  have "ar_next_track_id (us_tracker u2) = ar_next_track_id a"
    using miss_loop [OF u2 bt_wf_distinct [OF tracker_invD(1) [OF inv1]]] e1 by (simp add: missed_effect_def)
  moreover have "length (filter (\<lambda>k. k \<notin> set (map snd ?ps)) (eligible_detections a f)) \<le> length (fa_detections f)"
    by (metis diff_zero eligible_detections_def length_filter_le length_upt order_trans)
  ultimately obtain u3 where
    "try_each (create_track env f) (filter (\<lambda>k. k \<notin> set (map snd ?ps)) (eligible_detections a f)) u2 = (Inr (), u3)"
    using create_succeeds [of u2 _ env f] room by (metis (no_types, lifting) add_le_cancel_left order_trans)
  then show ?thesis using u1 u2 valid by (simp add: update_tracker_def Let_def initial_update_def)
qed

section \<open>Properties\<close>

text \<open>The states of a tracker: it is built from a configuration and driven by frames and selections, whatever they return.\<close>

inductive tracker_reachable :: "identity_env \<Rightarrow> actor_tracker \<Rightarrow> bool" for env where
  tracker_new: "new_actor_tracker c = Inr a \<Longrightarrow> tracker_reachable env a"
| tracker_select: "tracker_reachable env a \<Longrightarrow> tracker_reachable env (snd (select_actor i a))"
| tracker_clear: "tracker_reachable env a \<Longrightarrow> tracker_reachable env (clear_selection a)"
| tracker_frame: "tracker_reachable env a \<Longrightarrow> tracker_reachable env (snd (update_tracker env a f))"

lemma tracker_inv_new: "new_actor_tracker c = Inr a \<Longrightarrow> tracker_inv a"
  by (auto simp: new_actor_tracker_def bind_result_Inr_iff tracker_inv_def u64_max_def)

lemma tracker_inv_select: "tracker_inv a \<Longrightarrow> tracker_inv (snd (select_actor i a))" "tracker_inv a \<Longrightarrow> tracker_inv (clear_selection a)"
  by (auto simp: select_actor_def clear_selection_def tracker_inv_def)

lemma tracker_reachable_inv: "tracker_reachable env a \<Longrightarrow> tracker_inv a"
  by (induction rule: tracker_reachable.induct) (auto intro: tracker_inv_new tracker_inv_select update_tracker_inv)

text \<open>
  Every reachable tracker is consistent, after failed updates too: each track is filed under its own number below the next
  free one, the epoch of a track counts its changes of phase, so it is odd exactly while the actor is visible, and the selected
  actor, if there is one, is being tracked.
\<close>

theorem tracker_state_consistent:
  assumes "tracker_reachable env a"
  shows "(\<forall>i t. bt_get (ar_tracks a) i = Some t \<longrightarrow>
            tr_track_id t = i \<and> 1 \<le> i \<and> i < ar_next_track_id a
            \<and> (tr_track_epoch t < u64_max \<longrightarrow> (tr_phase t = PhaseVisible \<longleftrightarrow> odd (tr_track_epoch t))))
     \<and> (\<forall>i. ar_selected_track_id a = Some i \<longrightarrow> bt_get (ar_tracks a) i \<noteq> None)
     \<and> sorted_wrt (<) (map fst (ar_tracks a))"
  using tracker_reachable_inv [OF assms] by (simp add: tracker_inv_def track_ok_def bt_wf_def)

text \<open>One pair takes precedence over another by the higher score; among equal scores by the lower track number, and then by the
  lower detection number.\<close>

definition outranks :: "(nat \<Rightarrow> nat \<Rightarrow> bool) \<Rightarrow> candidate_pair \<Rightarrow> candidate_pair \<Rightarrow> bool" where
  "outranks negative b c \<longleftrightarrow>
     total_less (signed_score negative c) (signed_score negative b)
     \<or> \<not> total_less (signed_score negative b) (signed_score negative c)
       \<and> (cp_track_id b < cp_track_id c \<or> cp_track_id b = cp_track_id c \<and> cp_detection_index b \<le> cp_detection_index c)"

lemma candidate_order_outranks: "candidate_order negative b c \<noteq> OGreater \<longleftrightarrow> outranks negative b c"
  using total_less_trans [of "signed_score negative b" "signed_score negative c" "signed_score negative b"] total_less_irrefl
  by (auto simp: candidate_order_def outranks_def then_with_Greater then_with_Equal)

text \<open>
  C26. The association is a stable matching: no track and no detection is matched twice, every match is a candidate, and a
  candidate pair is left out only if its track or its detection went to a pair that takes precedence over it, by a higher score
  or, at equal scores, by a lower track and then detection number.
\<close>

theorem association_is_stable:
  "distinct (map fst (assignments env a f)) \<and> distinct (map snd (assignments env a f))
     \<and> (\<forall>i k. (i, k) \<in> set (assignments env a f) \<longrightarrow>
          (\<exists>c\<in>set (candidate_pairs env a f). cp_track_id c = i \<and> cp_detection_index c = k))
     \<and> (\<forall>c\<in>set (candidate_pairs env a f). \<exists>b\<in>set (candidate_pairs env a f).
          (cp_track_id b, cp_detection_index b) \<in> set (assignments env a f) \<and> outranks (iv_nan_negative env (fa_frame_index f)) b c
          \<and> (cp_track_id b = cp_track_id c \<or> cp_detection_index b = cp_detection_index c))"
proof (intro conjI ballI allI impI)
  let ?order = "candidate_order (iv_nan_negative env (fa_frame_index f))"
  let ?cs = "sort_by ?order (candidate_pairs env a f)"
  show "distinct (map fst (assignments env a f))" "distinct (map snd (assignments env a f))" by (rule assignments_matching)+
  show "\<exists>c\<in>set (candidate_pairs env a f). cp_track_id c = i \<and> cp_detection_index c = k" if "(i, k) \<in> set (assignments env a f)" for i k
    using assign_greedily_fresh [of i k "[]" "[]" ?cs] that by (auto simp: set_assignments)
  fix c assume "c \<in> set (candidate_pairs env a f)"
  moreover have "outranks (iv_nan_negative env (fa_frame_index f)) c c" for c by (simp add: outranks_def total_less_irrefl)
  ultimately show "\<exists>b\<in>set (candidate_pairs env a f).
      (cp_track_id b, cp_detection_index b) \<in> set (assignments env a f) \<and> outranks (iv_nan_negative env (fa_frame_index f)) b c
      \<and> (cp_track_id b = cp_track_id c \<or> cp_detection_index b = cp_detection_index c)"
    using assign_greedily_stable [OF candidate_sort.sort_by_sorted [unfolded candidate_order_outranks], where c = c and ts = "[]" and ds = "[]"]
    by (auto simp: set_assignments)
qed

text \<open>How an update should treat an actor. One that is seen moves to its detection, its velocity is the smoothed displacement per
  frame, and its epoch advances if it comes back on screen; one that is missed keeps everything but its phase, its epoch if it
  was visible, and the number of frames since it was last seen; one that is new starts at rest in its first epoch.\<close>

definition smoothed :: "f32 \<Rightarrow> nat \<Rightarrow> f32 \<Rightarrow> f32 \<Rightarrow> f32 \<Rightarrow> f32" where
  "smoothed s elapsed old from to = f_add (f_mul s (f_div (f_sub to from) (f32_of_nat elapsed))) (f_mul (f_sub f_one s) old)"

definition followed :: "f32 \<Rightarrow> nat \<Rightarrow> actor_detection \<Rightarrow> track_state \<Rightarrow> track_state" where
  "followed s now d t =
     (let elapsed = max 1 (now - tr_last_seen_frame t) in
      \<lparr>tr_track_id = tr_track_id t, tr_track_epoch = tr_track_epoch t + (if tr_phase t = PhaseVisible then 0 else 1),
       tr_phase = PhaseVisible, tr_bounds = dt_bounds d,
       tr_velocity_x = smoothed s elapsed (tr_velocity_x t) (bb_x (tr_bounds t)) (bb_x (dt_bounds d)),
       tr_velocity_y = smoothed s elapsed (tr_velocity_y t) (bb_y (tr_bounds t)) (bb_y (dt_bounds d)),
       tr_first_seen_frame = tr_first_seen_frame t, tr_last_seen_frame = now, tr_missed_frames = 0,
       tr_encounter_id = tr_encounter_id t, tr_last_embedding = dt_embedding d\<rparr>)"

definition out_of_sight :: "nat \<Rightarrow> track_state \<Rightarrow> track_state" where
  "out_of_sight now t =
     t\<lparr>tr_phase := PhaseOffscreen, tr_missed_frames := now - tr_last_seen_frame t,
       tr_track_epoch := tr_track_epoch t + (if tr_phase t = PhaseVisible then 1 else 0)\<rparr>"

definition newcomer :: "identity_env \<Rightarrow> rstr \<Rightarrow> nat \<Rightarrow> nat \<Rightarrow> actor_detection \<Rightarrow> track_state" where
  "newcomer env namespace now i d =
     \<lparr>tr_track_id = i, tr_track_epoch = 1, tr_phase = PhaseVisible, tr_bounds = dt_bounds d, tr_velocity_x = f_zero, tr_velocity_y = f_zero,
      tr_first_seen_frame = now, tr_last_seen_frame = now, tr_missed_frames = 0, tr_encounter_id = encounter_id env namespace i now,
      tr_last_embedding = dt_embedding d\<rparr>"

lemma seen_track_followed: "seen_track c f d t = followed (tg_velocity_smoothing c) (fa_frame_index f) d t"
  by (cases "tr_phase t")
     (simp_all add: seen_track_def place_track_def move_track_def followed_def smoothed_def blend_def Let_def max.commute)

lemma missed_track_out_of_sight: "missed_track f t = out_of_sight (fa_frame_index f) t"
  by (cases "tr_phase t") (simp_all add: missed_track_def out_of_sight_def)

lemma created_track_newcomer:
  "created_track env (a\<lparr>ar_next_track_id := i\<rparr>) f d = newcomer env (tg_encounter_namespace (ar_config a)) (fa_frame_index f) i d"
  by (simp add: created_track_def newcomer_def)

lemma observation_of_update:
  assumes inv: "tracker_inv a" and up: "update_tracker env a f = (Inr up, a')" and ob: "ob \<in> set (tu_observations up)"
  shows "((td_track_id ob, td_detection_index ob) \<in> set (assignments env a f)
        \<or> (\<exists>j<length (unmatched env a f). td_track_id ob = ar_next_track_id a + j \<and> td_detection_index ob = unmatched env a f ! j))
      \<and> (\<exists>t. bt_get (ar_tracks a') (td_track_id ob) = Some t \<and> td_track_epoch ob = tr_track_epoch t)
      \<and> td_embedding ob = dt_embedding (fa_detections f ! td_detection_index ob)"
proof -
  let ?ps = "assignments env a f" and ?ks = "unmatched env a f" and ?n = "ar_next_track_id a"
  have next': "ar_next_track_id a' = ?n + length ?ks" by (rule update_observations(3) [OF inv up])
  obtain i k where ik: "(i, k) \<in> set ?ps \<or> (i, k) \<in> set (zip [?n..<?n + length ?ks] ?ks)" "ob = reported f (ar_tracks a') (i, k)"
    using ob update_reports [OF inv up] next' by auto
  have source: "(i, k) \<in> set ?ps \<or> (\<exists>j<length ?ks. i = ?n + j \<and> k = ?ks ! j)" using ik(1) by (auto simp: set_zip)
  have "bt_get (ar_tracks a') i \<noteq> None"
  proof (cases "(i, k) \<in> set ?ps")
    case True
    obtain t where "bt_get (ar_tracks a) i = Some t" using assignments_tracked [OF inv True] by blast
    moreover have "map_of ?ps i = Some k" using True assignments_matching(1) by (simp add: map_of_eq_Some_iff)
    ultimately show ?thesis using update_tracker_effect(1) [OF inv up] by (simp add: track_after_def)
  next
    case False
    then show ?thesis using source tracker_inv_below [OF inv, of i] update_tracker_effect(2) [OF inv up, of i] next' by auto
  qed
  then show ?thesis using source ik(2) by (auto simp: reported_def)
qed

text \<open>
  C27. A successful update accounts for every actor. Each detection that reaches the confidence threshold is reported once and in
  order, with its own appearance, under the track it was matched with or under a fresh number of its own, and with the epoch of
  that track. A track that existed follows the detection it was matched with; unmatched it is kept out of sight while the frames
  missed are within the limit, which is the longer one for the selected actor, and otherwise is gone. The only new tracks are
  those of the unmatched detections, numbered in order from the next free number; and the selection is cleared exactly if the
  selected actor is gone.
\<close>

theorem update_accounts_for_every_actor:
  assumes "tracker_reachable env a" and "update_tracker env a f = (Inr up, a')"
  shows "let c = ar_config a; now = fa_frame_index f; n = ar_next_track_id a; matches = assignments env a f;
      confident = filter (\<lambda>k. f_le (tg_minimum_detection_confidence c) (dt_confidence (fa_detections f ! k))) [0..<length (fa_detections f)];
      strangers = filter (\<lambda>k. k \<notin> snd ` set matches) confident
    in map td_detection_index (tu_observations up) = confident
     \<and> distinct (map td_track_id (tu_observations up))
     \<and> (\<forall>ob\<in>set (tu_observations up).
          ((td_track_id ob, td_detection_index ob) \<in> set matches
            \<or> (\<exists>j<length strangers. td_track_id ob = n + j \<and> td_detection_index ob = strangers ! j))
          \<and> (\<exists>t. bt_get (ar_tracks a') (td_track_id ob) = Some t \<and> td_track_epoch ob = tr_track_epoch t)
          \<and> td_embedding ob = dt_embedding (fa_detections f ! td_detection_index ob))
     \<and> (\<forall>i t. bt_get (ar_tracks a) i = Some t \<longrightarrow> bt_get (ar_tracks a') i =
          (case map_of matches i of
             Some k \<Rightarrow> Some (followed (tg_velocity_smoothing c) now (fa_detections f ! k) t)
           | None \<Rightarrow>
               if now - tr_last_seen_frame t \<le> (if ar_selected_track_id a = Some i then tg_selected_actor_maximum_missed_frames c
                                              else tg_maximum_missed_frames c)
               then Some (out_of_sight now t) else None))
     \<and> (\<forall>i. bt_get (ar_tracks a) i = None \<longrightarrow> bt_get (ar_tracks a') i =
          (if n \<le> i \<and> i < n + length strangers
           then Some (newcomer env (tg_encounter_namespace c) now i (fa_detections f ! (strangers ! (i - n)))) else None))
     \<and> ar_next_track_id a' = n + length strangers
     \<and> ar_selected_track_id a' =
          (case ar_selected_track_id a of None \<Rightarrow> None | Some i \<Rightarrow> if bt_get (ar_tracks a') i = None then None else Some i)
     \<and> ar_config a' = c"
proof -
  have inv: "tracker_inv a" by (rule tracker_reachable_inv [OF assms(1)])
  note up = inv assms(2)
  let ?obs = "tu_observations up" and ?ps = "assignments env a f" and ?n = "ar_next_track_id a"
  define strangers where "strangers = unmatched env a f"
  have confident: "filter (\<lambda>k. f_le (tg_minimum_detection_confidence (ar_config a)) (dt_confidence (fa_detections f ! k))) [0..<length (fa_detections f)]
      = eligible_detections a f" by (simp add: eligible_detections_def)
  have strangers: "filter (\<lambda>k. k \<notin> snd ` set ?ps) (eligible_detections a f) = strangers" by (simp add: strangers_def unmatched_def)
  have next': "ar_next_track_id a' = ?n + length strangers" using update_observations(3) [OF up] by (simp add: strangers_def)
  have "\<forall>x\<in>fst ` set ?ps. x < ?n"
    using assignments_tracked [OF inv] tracker_inv_below [OF inv] by (metis imageE leI option.distinct(1) prod.collapse)
  then have "distinct (map fst ?ps @ [?n..<ar_next_track_id a'])" using assignments_matching(1) [of env a f] by auto
  then have distinct: "distinct (map td_track_id ?obs)"
    using mset_eq_imp_distinct_iff [OF update_observations(2) [OF up]] by blast
  have observed: "((td_track_id ob, td_detection_index ob) \<in> set ?ps
        \<or> (\<exists>j<length strangers. td_track_id ob = ?n + j \<and> td_detection_index ob = strangers ! j))
      \<and> (\<exists>t. bt_get (ar_tracks a') (td_track_id ob) = Some t \<and> td_track_epoch ob = tr_track_epoch t)
      \<and> td_embedding ob = dt_embedding (fa_detections f ! td_detection_index ob)" if "ob \<in> set ?obs" for ob
    using observation_of_update [OF up that] by (simp add: strangers_def)
  have old: "bt_get (ar_tracks a') i = (case map_of ?ps i of
             Some k \<Rightarrow> Some (followed (tg_velocity_smoothing (ar_config a)) (fa_frame_index f) (fa_detections f ! k) t)
           | None \<Rightarrow>
               if fa_frame_index f - tr_last_seen_frame t \<le> (if ar_selected_track_id a = Some i
                    then tg_selected_actor_maximum_missed_frames (ar_config a) else tg_maximum_missed_frames (ar_config a))
               then Some (out_of_sight (fa_frame_index f) t) else None)" if "bt_get (ar_tracks a) i = Some t" for i t
    using update_tracker_effect(1) [OF up that]
    by (auto simp: track_after_def grace_frames_def seen_track_followed missed_track_out_of_sight split: option.splits)
  have new: "bt_get (ar_tracks a') i = (if ?n \<le> i \<and> i < ?n + length strangers
      then Some (newcomer env (tg_encounter_namespace (ar_config a)) (fa_frame_index f) i (fa_detections f ! (strangers ! (i - ?n)))) else None)"
    if "bt_get (ar_tracks a) i = None" for i
    using update_tracker_effect(2) [OF up that] next' by (simp add: created_track_newcomer strangers_def)
  show ?thesis
    unfolding Let_def confident strangers
    using update_observations(1) [OF up] distinct observed old new next' update_selection [OF up] by blast
qed

text \<open>
  The tracker makes progress: unless a counter is at the end of its 64 bits, an update succeeds exactly when its frame is
  acceptable, that is newer than the last one and made of valid detections; a refused frame leaves the tracker as it was.
\<close>

theorem update_succeeds_iff_frame_valid:
  assumes "tracker_reachable env a"
    and "\<forall>i t. bt_get (ar_tracks a) i = Some t \<longrightarrow> tr_track_epoch t < u64_max"
    and "ar_next_track_id a + length (fa_detections f) \<le> u64_max"
  shows "(validate_frame a f = Inr () \<longrightarrow> (\<exists>up. fst (update_tracker env a f) = Inr up))
     \<and> (\<forall>e. validate_frame a f = Inl e \<longrightarrow> update_tracker env a f = (Inl e, a))"
proof (intro conjI impI allI)
  show "\<exists>up. fst (update_tracker env a f) = Inr up" if "validate_frame a f = Inr ()"
  proof -
    have "\<exists>up a'. update_tracker env a f = (Inr up, a')"
      by (rule update_succeeds [OF tracker_reachable_inv [OF assms(1)] that _ assms(3)]) (use assms(2) in blast)
    then show ?thesis by auto
  qed
  show "update_tracker env a f = (Inl e, a)" if "validate_frame a f = Inl e" for e
    using that by (simp add: update_tracker_def)
qed

section \<open>A sample tracker\<close>

definition tracking_env :: identity_env where
  "tracking_env = \<lparr>iv_hypot = (\<lambda>x y. f_add (f_abs x) (f_abs y)), iv_nan_negative = (\<lambda>_ _ _. True), iv_sha256 = (\<lambda>_. replicate 32 7)\<rparr>"

definition sample_box :: "int \<Rightarrow> bounding_box" where
  "sample_box x = \<lparr>bb_x = F_Num False (of_int x), bb_y = F_Num False 0, bb_width = F_Num False 10, bb_height = F_Num False 20\<rparr>"

definition sample_detection :: "int \<Rightarrow> rat \<Rightarrow> actor_detection" where
  "sample_detection x c = \<lparr>dt_detector_local_id = None, dt_bounds = sample_box x, dt_confidence = F_Num False c, dt_embedding = None\<rparr>"

text \<open>One actor at a position and one detection that is below the confidence threshold.\<close>

definition sample_frame :: "nat \<Rightarrow> int \<Rightarrow> frame_actors" where
  "sample_frame n x = \<lparr>fa_frame_index = n, fa_timestamp_ms = 0, fa_detections = [sample_detection x 1, sample_detection 500 0]\<rparr>"

definition idle_tracker :: actor_tracker where
  "idle_tracker = \<lparr>ar_config = default_tracker_config, ar_next_track_id = 1, ar_tracks = [], ar_selected_track_id = None,
     ar_last_frame_index = None, ar_last_timestamp_ms = None\<rparr>"

text \<open>The tracker after the first frame, with the name of the encounter left open.\<close>

definition sample_track :: "rstr \<Rightarrow> track_state" where
  "sample_track name = \<lparr>tr_track_id = 1, tr_track_epoch = 1, tr_phase = PhaseVisible, tr_bounds = sample_box 0,
     tr_velocity_x = f_zero, tr_velocity_y = f_zero, tr_first_seen_frame = 1, tr_last_seen_frame = 1, tr_missed_frames = 0,
     tr_encounter_id = name, tr_last_embedding = None\<rparr>"

definition sample_tracking :: "rstr \<Rightarrow> actor_tracker" where
  "sample_tracking name = \<lparr>ar_config = default_tracker_config, ar_next_track_id = 2, ar_tracks = [(1, sample_track name)],
     ar_selected_track_id = None, ar_last_frame_index = Some 1, ar_last_timestamp_ms = Some 0\<rparr>"

definition sample_tracked :: actor_tracker where
  "sample_tracked = sample_tracking (encounter_id tracking_env (lit ''default-session'') 1 1)"

lemma sample_created: "created_track tracking_env idle_tracker (sample_frame 1 0) (sample_detection 0 1)
    = sample_track (encounter_id tracking_env (lit ''default-session'') 1 1)"
  by (simp add: created_track_def sample_track_def idle_tracker_def sample_frame_def sample_detection_def default_tracker_config_def)

lemma new_sample_tracker_ok: "new_actor_tracker default_tracker_config = Inr idle_tracker"
proof -
  have "validate_tracker_config default_tracker_config = Inr ()" by code_simp
  then show ?thesis by (simp add: new_actor_tracker_def idle_tracker_def)
qed

lemma sample_frame_valid:
  "validate_frame idle_tracker (sample_frame 1 0) = Inr ()" "validate_frame (sample_tracking name) (sample_frame 2 3) = Inr ()"
proof -
  have "validate_detections [] (fa_detections (sample_frame 1 0)) = Inr ()"
    "validate_detections [] (fa_detections (sample_frame 2 3)) = Inr ()" by code_simp+
  then show "validate_frame idle_tracker (sample_frame 1 0) = Inr ()" "validate_frame (sample_tracking name) (sample_frame 2 3) = Inr ()"
    by (simp_all add: validate_frame_def idle_tracker_def sample_tracking_def, simp_all add: sample_frame_def)
qed

lemma sample_eligible:
  "eligible_detections idle_tracker (sample_frame 1 0) = [0]" "eligible_detections (sample_tracking name) (sample_frame 2 3) = [0]"
  by code_simp+

lemma sample_first_frame:
  "snd (update_tracker tracking_env idle_tracker (sample_frame 1 0)) = sample_tracked"
proof -
  let ?f = "sample_frame 1 0" and ?u = "initial_update idle_tracker"
  have none: "assignments tracking_env idle_tracker ?f = []" "ar_tracks idle_tracker = []"
    by (simp_all add: assignments_def candidate_pairs_def idle_tracker_def sort_by_def)
  have n: "ar_next_track_id idle_tracker = 1" "fa_detections ?f ! 0 = sample_detection 0 1"
    by (simp_all add: idle_tracker_def sample_frame_def)
  have u: "\<lparr>us_tracker = idle_tracker, us_events = [], us_observations = [], us_retire = []\<rparr> = ?u" by (simp add: initial_update_def)
  define u' where "u' = snd (create_track tracking_env ?f 0 ?u)"
  have created: "create_track tracking_env ?f 0 ?u = (Inr (), u')"
    and u': "us_retire u' = []" "us_tracker u' = put_track 1 (created_track tracking_env idle_tracker ?f (sample_detection 0 1))
       (idle_tracker\<lparr>ar_next_track_id := Suc 1\<rparr>)"
    using n by (simp_all add: u'_def create_track_def u64_max_def initial_update_def Let_def)
  have "snd (update_tracker tracking_env idle_tracker ?f) =
      us_tracker u'\<lparr>ar_last_frame_index := Some (fa_frame_index ?f), ar_last_timestamp_ms := Some (fa_timestamp_ms ?f)\<rparr>"
    using sample_frame_valid(1) sample_eligible(1) none n created u' by (simp add: update_tracker_def u Let_def)
  then show ?thesis
    unfolding u' sample_created by (simp add: sample_tracked_def sample_tracking_def put_track_def none) (simp add: sample_frame_def idle_tracker_def)
qed

lemma sample_tracked_reachable: "tracker_reachable tracking_env sample_tracked"
  using tracker_frame [OF tracker_new [OF new_sample_tracker_ok], of tracking_env "sample_frame 1 0"] by (simp only: sample_first_frame)

lemma association_by_distance:
  assumes "tr_last_embedding t = None"
    and "f_le (normalized_center_distance env (predicted_bounds t n) (dt_bounds d)) (tg_maximum_normalized_center_distance (ar_config a))"
  shows "\<exists>s. association_score env a t d n = Some s"
  using assms by (simp add: association_score_def Let_def)

lemma sample_candidates:
  "map (\<lambda>c. (cp_track_id c, cp_detection_index c)) (candidate_pairs tracking_env (sample_tracking name) (sample_frame 2 3)) = [(1, 0)]"
proof -
  have "f_le (normalized_center_distance tracking_env (predicted_bounds (sample_track name) 2) (dt_bounds (sample_detection 3 1)))
      (tg_maximum_normalized_center_distance default_tracker_config)" by code_simp
  then have "\<exists>s. association_score tracking_env (sample_tracking name) (sample_track name) (sample_detection 3 1) 2 = Some s"
    by (intro association_by_distance) (simp_all add: sample_tracking_def, simp add: sample_track_def)
  then obtain s where s: "association_score tracking_env (sample_tracking name) (sample_track name) (sample_detection 3 1) 2 = Some s" by blast
  have "ar_tracks (sample_tracking name) = [(1, sample_track name)]" "tr_track_id (sample_track name) = 1"
    "fa_detections (sample_frame 2 3) ! 0 = sample_detection 3 1" "fa_frame_index (sample_frame 2 3) = 2"
    by (simp_all add: sample_tracking_def sample_track_def sample_frame_def)
  then show ?thesis using s by (simp add: candidate_pairs_def sample_eligible List.map_filter_def)
qed

theorem tracker_state_consistent_witness:
  "bt_get (ar_tracks sample_tracked) 1 \<noteq> None
     \<and> odd (tr_track_epoch (the (bt_get (ar_tracks sample_tracked) 1)))"
proof -
  obtain t where t: "bt_get (ar_tracks sample_tracked) 1 = Some t" "tr_phase t = PhaseVisible" "tr_track_epoch t < u64_max"
    by (simp add: sample_tracked_def sample_tracking_def sample_track_def u64_max_def)
  then show ?thesis using tracker_state_consistent [OF sample_tracked_reachable] by simp
qed

theorem association_is_stable_witness:
  "(1, 0) \<in> set (assignments tracking_env sample_tracked (sample_frame 2 3))"
proof -
  obtain c where c: "candidate_pairs tracking_env sample_tracked (sample_frame 2 3) = [c]" "cp_track_id c = 1" "cp_detection_index c = 0"
    using sample_candidates unfolding sample_tracked_def by (auto simp: map_eq_Cons_conv)
  have "\<forall>c\<in>set (candidate_pairs tracking_env sample_tracked (sample_frame 2 3)).
      \<exists>b\<in>set (candidate_pairs tracking_env sample_tracked (sample_frame 2 3)).
        (cp_track_id b, cp_detection_index b) \<in> set (assignments tracking_env sample_tracked (sample_frame 2 3))"
    using association_is_stable [of tracking_env sample_tracked "sample_frame 2 3"] by blast
  with c show ?thesis by auto
qed

lemma sample_second_frame:
  obtains up a' where "update_tracker tracking_env sample_tracked (sample_frame 2 3) = (Inr up, a')"
proof -
  have valid: "validate_frame sample_tracked (sample_frame 2 3) = Inr ()" by (simp add: sample_tracked_def sample_frame_valid)
  have "\<exists>up a'. update_tracker tracking_env sample_tracked (sample_frame 2 3) = (Inr up, a')"
    by (rule update_succeeds [OF tracker_reachable_inv [OF sample_tracked_reachable] valid])
       (auto simp: sample_tracked_def sample_tracking_def sample_track_def u64_max_def sample_frame_def split: if_splits)
  then show thesis using that by blast
qed

lemma sample_matches: "assignments tracking_env (sample_tracking name) (sample_frame 2 3) = [(1, 0)]"
proof -
  obtain c where "candidate_pairs tracking_env (sample_tracking name) (sample_frame 2 3) = [c]" "cp_track_id c = 1" "cp_detection_index c = 0"
    using sample_candidates by (auto simp: map_eq_Cons_conv)
  then show ?thesis by (simp add: assignments_def sort_by_def)
qed

theorem update_accounts_for_every_actor_witness:
  "\<exists>up a'. update_tracker tracking_env sample_tracked (sample_frame 2 3) = (Inr up, a')
     \<and> map td_detection_index (tu_observations up) = [0] \<and> bt_get (ar_tracks a') 7 = None \<and> ar_next_track_id a' = 2
     \<and> bt_get (ar_tracks a') 1 = Some (followed (tg_velocity_smoothing default_tracker_config) 2 (sample_detection 3 1)
          (sample_track (encounter_id tracking_env (lit ''default-session'') 1 1)))"
proof -
  let ?name = "encounter_id tracking_env (lit ''default-session'') 1 1"
  obtain up a' where up: "update_tracker tracking_env sample_tracked (sample_frame 2 3) = (Inr up, a')" by (rule sample_second_frame)
  have confident: "filter (\<lambda>k. f_le (tg_minimum_detection_confidence (ar_config sample_tracked)) (dt_confidence (fa_detections (sample_frame 2 3) ! k)))
      [0..<length (fa_detections (sample_frame 2 3))] = [0]"
    using sample_eligible(2) [of ?name] unfolding eligible_detections_def sample_tracked_def .
  have matches: "assignments tracking_env sample_tracked (sample_frame 2 3) = [(1, 0)]" unfolding sample_tracked_def by (rule sample_matches)
  have known: "bt_get (ar_tracks sample_tracked) 1 = Some (sample_track ?name)" "bt_get (ar_tracks sample_tracked) 7 = None"
    "ar_next_track_id sample_tracked = 2" "ar_config sample_tracked = default_tracker_config"
    "fa_detections (sample_frame 2 3) ! 0 = sample_detection 3 1" "fa_frame_index (sample_frame 2 3) = 2"
    by (simp_all add: sample_tracked_def sample_tracking_def sample_frame_def)
  note all = update_accounts_for_every_actor [OF sample_tracked_reachable up, unfolded Let_def confident matches]
  have "map td_detection_index (tu_observations up) = [0]" using all by blast
  moreover have "bt_get (ar_tracks a') 7 = None" using all known by simp
  moreover have "ar_next_track_id a' = 2" using all known by simp
  moreover have "bt_get (ar_tracks a') 1 = Some (followed (tg_velocity_smoothing default_tracker_config) 2 (sample_detection 3 1) (sample_track ?name))"
    using all known by simp
  ultimately show ?thesis using up by (intro exI [of _ up] exI [of _ a'] conjI)
qed

theorem update_succeeds_iff_frame_valid_witness:
  "(\<exists>up. fst (update_tracker tracking_env sample_tracked (sample_frame 2 3)) = Inr up)
     \<and> update_tracker tracking_env sample_tracked (sample_frame 1 3) = (Inl NonMonotonicFrameIndex, sample_tracked)"
proof -
  have e: "\<forall>i t. bt_get (ar_tracks sample_tracked) i = Some t \<longrightarrow> tr_track_epoch t < u64_max"
    by (auto simp: sample_tracked_def sample_tracking_def sample_track_def u64_max_def split: if_splits)
  have r: "ar_next_track_id sample_tracked + length (fa_detections (sample_frame n x)) \<le> u64_max" for n x
    by (simp add: sample_tracked_def sample_tracking_def sample_frame_def u64_max_def)
  have "validate_frame sample_tracked (sample_frame 1 3) = Inl NonMonotonicFrameIndex"
    by (simp add: validate_frame_def sample_tracked_def sample_tracking_def sample_frame_def)
  moreover have "validate_frame sample_tracked (sample_frame 2 3) = Inr ()" by (simp add: sample_tracked_def sample_frame_valid)
  ultimately show ?thesis
    using update_succeeds_iff_frame_valid [OF sample_tracked_reachable e r, of 2 3]
      update_succeeds_iff_frame_valid [OF sample_tracked_reachable e r, of 1 3] by blast
qed

end
