(* ===== verification/Resolver_Properties.thy ===== *)
theory Resolver_Properties
  imports Identity_Resolver Tracker_Properties
begin

text \<open>
  What the identity resolver guarantees: an invariant of the state that all operations keep, the meaning of the averages,
  supports and ranks it computes, and that a match is announced and a subject confirmed only on sufficient evidence.
\<close>

section \<open>Similarities\<close>

lemma f32_round_wf [simp]: "f_wf (f32_round s m)"
  using rounded_pow2(3) [of m] by (auto simp: f32_round_cases f_wf_def)

lemma f_add_wf [simp]: "f_wf x \<Longrightarrow> f_wf (f_add x y)"
  by (cases x; cases y) (auto simp: Let_def f_wf_def [of "F_Num s 0" for s] f_wf_def [of F_NaN] f_wf_def [of "F_Inf s" for s])

lemma foldl_f_add_wf: "f_wf x \<Longrightarrow> f_wf (foldl f_add x ys)"
  by (induction ys arbitrary: x) simp_all

lemma unit_bounded: "f_wf x \<Longrightarrow> f_in (F_Num True 1) f_one x \<Longrightarrow> f_bounded 1 x"
  by (cases x) (auto simp: f_in_def f_le_def f_wf_def split: if_splits)

lemma cosine_similarity_bounded:
  assumes a: "validate_embedding a = Inr ()" "list_all f_wf (eb_values a)"
    and b: "validate_embedding b = Inr ()" "list_all f_wf (eb_values b)"
    and s: "cosine_similarity a b = Inr s"
  shows "f_bounded 1 s"
proof (rule unit_bounded [OF _ cosine_similarity_number [OF a b s]])
  have "f_wf (f_sum xs)" for xs unfolding f_sum_def by (rule foldl_f_add_wf) (simp add: f_wf_def)
  moreover have "\<exists>xs. s = f_clamp (F_Num True 1) f_one (f_sum xs)"
    using s by (auto simp: cosine_similarity_def bind_result_Inr_iff split: if_splits)
  ultimately show "f_wf s" by (auto simp: f_clamp_def f_wf_def [of "F_Num s 1" for s])
qed

section \<open>The gallery\<close>

text \<open>The embeddings of a gallery hold values of type \<open>f32\<close>, which the model states as the magnitudes being nonnegative.\<close>

definition gallery_ok :: "identity_gallery \<Rightarrow> bool" where
  "gallery_ok g \<longleftrightarrow> validate_gallery g = Inr () \<and> bt_wf (ga_subjects g)
     \<and> (\<forall>e\<in>set (ga_subjects g). \<forall>r\<in>set (sj_references (snd e)). list_all f_wf (eb_values (rf_embedding r)))"

lemma validate_references_Inr:
  "validate_references md seen rs = Inr () \<Longrightarrow> r \<in> set rs \<Longrightarrow> validate_embedding (rf_embedding r) = Inr () \<and> eb_model (rf_embedding r) = md"
  by (induction md seen rs rule: validate_references.induct) (auto simp: bind_result_Inr_iff split: if_splits)

lemma validate_subjects_Inr:
  "validate_subjects md m = Inr () \<longleftrightarrow> (\<forall>(k, s)\<in>set m. k = sj_subject_id s \<and> validate_subject md s = Inr ())"
  by (induction md m rule: validate_subjects.induct) (auto simp: bind_result_Inr_iff)

lemma gallery_subject:
  assumes "gallery_ok g" and "(k, s) \<in> set (ga_subjects g)"
  shows "k = sj_subject_id s" and "sj_references s \<noteq> []"
    and "r \<in> set (sj_references s) \<Longrightarrow>
      validate_embedding (rf_embedding r) = Inr () \<and> eb_model (rf_embedding r) = ga_model g \<and> list_all f_wf (eb_values (rf_embedding r))"
proof -
  have v: "k = sj_subject_id s" "validate_subject (ga_model g) s = Inr ()"
    using assms by (auto simp: gallery_ok_def validate_gallery_def bind_result_Inr_iff validate_subjects_Inr split: if_splits)
  then show "k = sj_subject_id s" "sj_references s \<noteq> []" by (auto simp: validate_subject_def bind_result_Inr_iff split: if_splits)
  have "validate_references (ga_model g) [] (sj_references s) = Inr ()"
    using v(2) by (auto simp: validate_subject_def bind_result_Inr_iff split: if_splits)
  then show "r \<in> set (sj_references s) \<Longrightarrow>
      validate_embedding (rf_embedding r) = Inr () \<and> eb_model (rf_embedding r) = ga_model g \<and> list_all f_wf (eb_values (rf_embedding r))"
    using assms validate_references_Inr by (fastforce simp: gallery_ok_def)
qed

definition subject_ids :: "identity_gallery \<Rightarrow> rstr set" where
  "subject_ids g = fst ` set (ga_subjects g)"

lemma contains_subject_iff: "contains_subject g s \<longleftrightarrow> s \<in> subject_ids g"
  by (simp add: contains_subject_def subject_ids_def map_of_eq_None_iff)

section \<open>Scoring a frame\<close>

definition frame_ok :: "identity_gallery \<Rightarrow> score_frame \<Rightarrow> bool" where
  "frame_ok g f \<longleftrightarrow> bt_wf (sf_scores f) \<and> fst ` set (sf_scores f) = subject_ids g \<and> (\<forall>e\<in>set (sf_scores f). f_bounded 1 (snd e))
     \<and> sf_top_subject_id f = top_of (sf_scores f)"

lemma f_max_bounded: "f_bounded b x \<or> x = F_Inf True \<Longrightarrow> f_bounded b y \<Longrightarrow> f_bounded b (f_max x y)"
  by (cases x; cases y) (auto simp: f_max_def f_less_def f_le_def)

lemma best_similarity_ok:
  assumes "validate_embedding e = Inr ()" and "list_all f_wf (eb_values e)"
    and "\<forall>r\<in>set rs. validate_embedding (rf_embedding r) = Inr () \<and> eb_model (rf_embedding r) = eb_model e
       \<and> list_all f_wf (eb_values (rf_embedding r))"
    and "f_bounded 1 b \<or> b = F_Inf True \<and> rs \<noteq> []"
  shows "\<exists>x. best_similarity e b rs = Inr x \<and> f_bounded 1 x"
  using assms(3,4)
proof (induction rs arbitrary: b)
  case (Cons r rs)
  then obtain s where s: "cosine_similarity e (rf_embedding r) = Inr s"
    using cosine_similarity_ok [of e "rf_embedding r"] assms(1) by auto
  have "f_bounded 1 s" using cosine_similarity_bounded [OF assms(1,2) _ _ s] Cons.prems(1) by simp
  then have "f_bounded 1 (f_max b s)" using Cons.prems(2) f_max_bounded [of 1 b s] by auto
  then show ?case using Cons.IH [of "f_max b s"] Cons.prems(1) s by (auto simp: map_err_def)
qed auto

lemma score_subjects_ok:
  assumes "gallery_ok g" and "set m \<subseteq> set (ga_subjects g)" and "validate_embedding e = Inr ()" and "list_all f_wf (eb_values e)"
    and "eb_model e = ga_model g" and "bt_wf scores" and "\<forall>x\<in>set scores. f_bounded 1 (snd x)"
  shows "\<exists>t. score_subjects e m scores = Inr t \<and> bt_wf t \<and> fst ` set t = fst ` set scores \<union> fst ` set m \<and> (\<forall>x\<in>set t. f_bounded 1 (snd x))"
  using assms(2,6,7)
proof (induction m arbitrary: scores)
  case (Cons p m)
  obtain k s where p: "p = (k, s)" by (cases p)
  have s: "(k, s) \<in> set (ga_subjects g)" using Cons.prems(1) p by simp
  obtain b where b: "best_similarity e (F_Inf True) (sj_references s) = Inr b" "f_bounded 1 b"
    using best_similarity_ok [OF assms(3,4), of "sj_references s" "F_Inf True"] gallery_subject [OF assms(1) s] assms(5) by auto
  let ?t = "bt_insert (sj_subject_id s) b scores"
  have wf: "bt_wf ?t" using Cons.prems(2) by simp
  have "\<forall>x\<in>set ?t. f_bounded 1 (snd x)"
  proof
    fix x assume "x \<in> set ?t"
    then have "bt_get ?t (fst x) = Some (snd x)" using bt_get_in [OF wf] by simp
    then show "f_bounded 1 (snd x)" using b(2) Cons.prems(3) map_of_SomeD [of scores "fst x" "snd x"] by (auto split: if_splits)
  qed
  then show ?case using Cons.IH [of ?t] Cons.prems(1) wf b(1) gallery_subject(1) [OF assms(1) s] by (auto simp: p)
qed simp

lemma score_embedding_ok:
  assumes "gallery_ok g" and "validate_embedding e = Inr ()" and "list_all f_wf (eb_values e)" and "eb_model e = ga_model g"
  shows "\<exists>f. score_embedding g e = Inr f \<and> frame_ok g f"
proof -
  obtain t where "score_subjects e (ga_subjects g) [] = Inr t" "bt_wf t" "fst ` set t = subject_ids g" "\<forall>x\<in>set t. f_bounded 1 (snd x)"
    using score_subjects_ok [OF assms(1) order.refl assms(2-4), of "[]"] by (auto simp only: subject_ids_def) auto
  then show ?thesis by (simp add: score_embedding_def frame_ok_def)
qed

lemma admit_embedding_ok:
  assumes "gallery_ok (rs_gallery r)" and "list_all f_wf (eb_values e)"
  shows "admit_embedding r e = Inr f \<Longrightarrow> frame_ok (rs_gallery r) f"
    and "(\<exists>f. admit_embedding r e = Inr f) \<longleftrightarrow> validate_embedding e = Inr () \<and> eb_model e = ga_model (rs_gallery r)"
  using score_embedding_ok [OF assms(1) _ assms(2)]
  by (force simp: admit_embedding_def bind_result_Inr_iff split: if_splits)+

section \<open>The meaning of the tables\<close>

text \<open>The mean of a subject's scores over a window, and the number of frames that rank it first.\<close>

definition mean_score :: "score_frame list \<Rightarrow> rstr \<Rightarrow> f32" where
  "mean_score frames s =
     f_div (foldl f_add f_zero (map (\<lambda>f. the (bt_get (sf_scores f) s)) frames)) (f32_of_nat (length frames))"

definition frames_led_by :: "score_frame list \<Rightarrow> rstr \<Rightarrow> nat" where
  "frames_led_by frames s = length (filter (\<lambda>f. sf_top_subject_id f = Some s) frames)"

lemma fold_add_score:
  assumes "distinct (map fst xs)"
  shows "bt_get (fold add_score xs m) s =
    (case bt_get xs s of None \<Rightarrow> bt_get m s | Some x \<Rightarrow> Some (f_add (case bt_get m s of None \<Rightarrow> f_zero | Some y \<Rightarrow> y) x))"
  using assms
proof (induction xs arbitrary: m)
  case (Cons p xs)
  have "bt_get xs (fst p) = None" using Cons.prems by (auto simp: map_of_eq_None_iff)
  then show ?case using Cons.IH [of "add_score p m"] Cons.prems by (cases p) (auto simp: add_score_def split: option.splits)
qed simp

lemma fold_add_score_wf: "bt_wf m \<Longrightarrow> bt_wf (fold add_score xs m)"
  by (induction xs arbitrary: m) (simp_all add: add_score_def)

lemma score_sums_fold:
  assumes "\<forall>f\<in>set frames. frame_ok g f"
  shows "bt_get (fold (\<lambda>f t. fold add_score (sf_scores f) t) frames m) s =
    (if s \<in> subject_ids g \<and> frames \<noteq> []
     then Some (foldl f_add (case bt_get m s of None \<Rightarrow> f_zero | Some y \<Rightarrow> y) (map (\<lambda>f. the (bt_get (sf_scores f) s)) frames))
     else bt_get m s)"
  using assms
proof (induction frames arbitrary: m)
  case (Cons f frames)
  have "distinct (map fst (sf_scores f))" and keys: "fst ` set (sf_scores f) = subject_ids g"
    using Cons.prems by (auto simp: frame_ok_def intro: bt_wf_distinct)
  then have step: "bt_get (fold add_score (sf_scores f) m) s =
      (if s \<in> subject_ids g then Some (f_add (case bt_get m s of None \<Rightarrow> f_zero | Some y \<Rightarrow> y) (the (bt_get (sf_scores f) s))) else bt_get m s)"
    using fold_add_score map_of_eq_None_iff [of "sf_scores f" s] by (auto split: option.splits)
  show ?case using Cons.IH [of "fold add_score (sf_scores f) m"] Cons.prems by (auto simp: step)
qed simp

lemma score_sums_wf: "bt_wf (score_sums frames)"
proof -
  have "bt_wf m \<Longrightarrow> bt_wf (fold (\<lambda>f t. fold add_score (sf_scores f) t) frames m)" for m
    by (induction frames arbitrary: m) (simp_all add: fold_add_score_wf)
  then show ?thesis by (simp add: score_sums_def)
qed

lemma score_averages_get:
  assumes "\<forall>f\<in>set frames. frame_ok g f" and "frames \<noteq> []"
  shows "bt_get (score_averages frames) s = (if s \<in> subject_ids g then Some (mean_score frames s) else None)"
proof -
  have "bt_get (map (\<lambda>(s, x). (s, h x)) m) s = map_option h (bt_get m s)" for h :: "f32 \<Rightarrow> f32" and m
    by (induction m) auto
  then show ?thesis
    using score_sums_fold [OF assms(1), of "[]" s] assms(2)
    by (simp add: score_averages_def score_sums_def mean_score_def)
qed

lemma score_averages_wf: "bt_wf (score_averages frames)"
proof -
  have "map fst (score_averages frames) = map fst (score_sums frames)" by (simp add: score_averages_def case_prod_beta)
  then show ?thesis using score_sums_wf [of frames] by (simp add: bt_wf_def)
qed

lemma support_of_supports: "support_of (score_supports frames) s = frames_led_by frames s"
proof -
  have "support_of (fold add_support frames m) s = support_of m s + frames_led_by frames s" for m
    by (induction frames arbitrary: m) (auto simp: add_support_def support_of_def frames_led_by_def split: option.splits)
  then show ?thesis by (simp add: score_supports_def support_of_def)
qed

section \<open>Ranking\<close>

interpretation score_sort: total_comparator score_order
proof -
  have "total_comparator (\<lambda>l r :: rstr \<times> f32. then_with (total_cmp (False, snd r) (False, snd l)) (ord_cmp (fst l) (fst r)))"
    by (intro comparator_then_with comparator_of_key comparator_reversed [OF comparator_total_cmp])
  then show "total_comparator score_order" by (simp only: score_order_def [abs_def])
qed

lemma set_ranked [simp]: "set (ranked_scores m) = set m"
  by (simp add: ranked_scores_def)

lemma score_order_f_le:
  assumes "score_order b e \<noteq> OGreater" and "f_wf (snd b) \<and> \<not> f_is_nan (snd b)" and "f_wf (snd e) \<and> \<not> f_is_nan (snd e)"
  shows "f_le (snd e) (snd b)"
proof -
  have "total_less (False, snd e) (False, snd b) \<or> snd e = snd b"
    using assms(1) total_less_total [of "(False, snd e)" "(False, snd b)"] by (auto simp: score_order_def then_with_Greater)
  then show ?thesis using total_less_f_le [of "(False, snd e)" "(False, snd b)"] assms f_le_total [of "snd b" "snd b"] by auto
qed

lemma ranked_first:
  assumes "ranked_scores m = b # rest" and "\<forall>e\<in>set m. f_wf (snd e) \<and> \<not> f_is_nan (snd e)" and "e \<in> set m"
  shows "f_le (snd e) (snd b)"
proof -
  have "sorted_wrt (\<lambda>a b. score_order a b \<noteq> OGreater) (b # rest)" using score_sort.sort_by_sorted [of m] assms(1) by (simp add: ranked_scores_def)
  moreover have "set m = insert b (set rest)" using set_ranked [of m] assms(1) by simp
  moreover have "score_order b b \<noteq> OGreater" by (simp add: score_order_def then_with_Greater total_less_irrefl)
  ultimately have "score_order b e \<noteq> OGreater" and b: "b \<in> set m" using assms(3) by auto
  then show ?thesis using score_order_f_le [of b e] assms(2,3) by blast
qed

lemma mean_score_bounded:
  assumes "\<forall>f\<in>set frames. frame_ok g f" and "s \<in> subject_ids g" and "1 \<le> length frames" and "length frames \<le> u64_max"
  shows "f_bounded (pow2 25) (mean_score frames s)"
proof -
  have "f_bounded 1 (the (bt_get (sf_scores f) s))" if "f \<in> set frames" for f
  proof -
    have ok: "frame_ok g f" using assms(1) that by simp
    then obtain x where "bt_get (sf_scores f) s = Some x"
      using assms(2) map_of_eq_None_iff [of "sf_scores f" s] by (auto simp: frame_ok_def)
    then show ?thesis using ok map_of_SomeD [of "sf_scores f" s x] by (auto simp: frame_ok_def)
  qed
  then have "f_bounded (pow2 25) x \<Longrightarrow> f_bounded (pow2 25) (foldl f_add x (map (\<lambda>f. the (bt_get (sf_scores f) s)) frames))" for x
    by (induction frames arbitrary: x) (simp_all add: f_add_bounded)
  then have sum: "f_bounded (pow2 25) (foldl f_add f_zero (map (\<lambda>f. the (bt_get (sf_scores f) s)) frames))"
    by (simp add: pow2_def)
  define n :: rat where "n = of_int (int (length frames))"
  have "n \<le> of_int (int u64_max)" unfolding n_def using assms(4) by (simp only: of_int_le_iff of_nat_le_iff)
  also have "\<dots> \<le> pow2 64" by (simp add: u64_max_def pow2_def)
  finally have n: "0 < n" "1 \<le> n" "n \<le> pow2 64" using assms(3) by (auto simp: n_def)
  have "1 \<le> rounded n" "rounded n \<le> pow2 64" using rounded_pow2(2) [of n 0] rounded_pow2(1) [of n 64] n by (simp_all add: pow2_def [of 0])
  moreover have "f32_of_nat (length frames) = f32_round False n" by (simp only: f32_of_nat_def n_def)
  ultimately have "f32_of_nat (length frames) = F_Num False (rounded n)" and "1 \<le> rounded n"
    using n by (simp_all add: f32_round_cases F_MAX_EXCLUSIVE_def pow2_def)
  then show ?thesis unfolding mean_score_def by (intro f_div_bounded [OF sum]) simp_all
qed

section \<open>The evidence for a match\<close>

text \<open>The best mean among the other subjects, as far as the decision reports it, is bounded by the margin. A fresh match rests
  on the thresholds of the configuration; a retained one on the lower threshold for a subject that was confirmed before.\<close>

definition window_facts :: "identity_gallery \<Rightarrow> score_frame list \<Rightarrow> match_evidence \<Rightarrow> bool" where
  "window_facts g frames m \<longleftrightarrow>
     me_window_frames m = length frames \<and> me_supporting_frames m = frames_led_by frames (me_subject_id m)
     \<and> me_subject_id m \<in> subject_ids g \<and> me_subject_similarity m = mean_score frames (me_subject_id m)
     \<and> me_top_candidate_subject_id m \<in> subject_ids g
     \<and> me_top_candidate_similarity m = mean_score frames (me_top_candidate_subject_id m)
     \<and> (\<forall>s\<in>subject_ids g. f_le (mean_score frames s) (me_top_candidate_similarity m))"

definition fresh_evidence :: "identity_config \<Rightarrow> match_evidence \<Rightarrow> bool" where
  "fresh_evidence c m \<longleftrightarrow> me_subject_id m = me_top_candidate_subject_id m \<and> \<not> me_held_by_hysteresis m
     \<and> f_le (ic_minimum_similarity c) (me_subject_similarity m) \<and> f_le (ic_ambiguity_margin c) (me_top1_top2_margin m)
     \<and> ic_minimum_consensus_frames c \<le> me_supporting_frames m"

definition retained_evidence :: "identity_config \<Rightarrow> match_evidence \<Rightarrow> bool" where
  "retained_evidence c m \<longleftrightarrow> f_le (ic_hysteresis_retention_similarity c) (me_subject_similarity m)
     \<and> me_held_by_hysteresis m = (me_subject_id m \<noteq> me_top_candidate_subject_id m)
     \<and> (me_held_by_hysteresis m \<longrightarrow>
          f_less (f_sub (me_top_candidate_similarity m) (me_subject_similarity m)) (ic_hysteresis_switch_margin c))"

text \<open>The runner-up of the report: the margin is the distance to a subject that no other one but the top exceeds.\<close>

definition margin_facts :: "identity_gallery \<Rightarrow> score_frame list \<Rightarrow> match_evidence \<Rightarrow> bool" where
  "margin_facts g frames m \<longleftrightarrow>
     (case me_runner_up_similarity m of
        None \<Rightarrow> subject_ids g = {me_top_candidate_subject_id m} \<and> me_top1_top2_margin m = f_one
      | Some x \<Rightarrow> me_top1_top2_margin m = f_sub (me_top_candidate_similarity m) x
          \<and> (\<exists>s\<in>subject_ids g. s \<noteq> me_top_candidate_subject_id m \<and> x = mean_score frames s)
          \<and> (\<forall>s\<in>subject_ids g. s \<noteq> me_top_candidate_subject_id m \<longrightarrow> f_le (mean_score frames s) x))"

lemma f_sub_not_nan: "f_bounded b x \<Longrightarrow> f_bounded c y \<Longrightarrow> \<not> f_is_nan (f_sub x y)"
  unfolding f_sub_def by (rule f_add_finite_not_nan) (simp_all add: f_bounded_finite)

lemma not_less_le: "\<not> f_less x y \<Longrightarrow> \<not> f_is_nan x \<Longrightarrow> \<not> f_is_nan y \<Longrightarrow> f_le y x"
  by (simp add: f_less_iff_not_le)

lemma config_thresholds:
  assumes "validate_identity_config c = Inr ()"
  shows "\<not> f_is_nan (ic_minimum_similarity c)" "\<not> f_is_nan (ic_ambiguity_margin c)"
    and "f_is_finite (ic_hysteresis_retention_similarity c)"
    and "1 \<le> ic_minimum_consensus_frames c" "ic_minimum_consensus_frames c \<le> ic_consensus_window_frames c"
proof -
  have "f_is_finite x \<Longrightarrow> \<not> f_is_nan x" for x by (cases x) simp_all
  then show "\<not> f_is_nan (ic_minimum_similarity c)" "\<not> f_is_nan (ic_ambiguity_margin c)"
    "f_is_finite (ic_hysteresis_retention_similarity c)" "1 \<le> ic_minimum_consensus_frames c" "ic_minimum_consensus_frames c \<le> ic_consensus_window_frames c"
    using assms by (auto simp: validate_identity_config_def unit_interval_def split: if_splits)
qed

text \<open>What the ranking of the averages provides to the decision.\<close>

lemma ranked_averages:
  assumes frames: "\<forall>f\<in>set frames. frame_ok g f" "1 \<le> length frames" "length frames \<le> u64_max"
    and ranked: "ranked_scores (score_averages frames) = b # rest"
  shows "fst b \<in> subject_ids g" "snd b = mean_score frames (fst b)" "\<forall>s\<in>subject_ids g. f_le (mean_score frames s) (snd b)"
    and "rest = [] \<Longrightarrow> subject_ids g = {fst b}"
    and "rest = e # rest' \<Longrightarrow> fst e \<in> subject_ids g \<and> fst e \<noteq> fst b \<and> snd e = mean_score frames (fst e)
       \<and> (\<forall>s\<in>subject_ids g. s \<noteq> fst b \<longrightarrow> f_le (mean_score frames s) (snd e))"
proof -
  have ne: "frames \<noteq> []" using frames(2) by auto
  have entry: "(s, x) \<in> set (score_averages frames) \<longleftrightarrow> s \<in> subject_ids g \<and> x = mean_score frames s" for s x
    using score_averages_get [OF frames(1) ne, of s] bt_get_in [OF score_averages_wf, of frames s x] by (auto split: if_splits)
  have set: "set (score_averages frames) = insert b (set rest)" using set_ranked [of "score_averages frames"] ranked by simp
  have number: "\<forall>e\<in>set (score_averages frames). f_wf (snd e) \<and> \<not> f_is_nan (snd e)"
    using entry mean_score_bounded [OF frames(1) _ frames(2,3)] by (force simp: f_bounded_cases f_wf_def)
  show "fst b \<in> subject_ids g" "snd b = mean_score frames (fst b)" using entry [of "fst b" "snd b"] set by auto
  show "\<forall>s\<in>subject_ids g. f_le (mean_score frames s) (snd b)"
    using ranked_first [OF ranked number] entry by fastforce
  have dist: "distinct (map fst (b # rest))"
    using bt_wf_distinct [OF score_averages_wf [of frames]] ranked
    by (metis mset_map mset_eq_imp_distinct_iff ranked_scores_def sort_by_mset)
  show "subject_ids g = {fst b}" if "rest = []"
    using that set entry by (metis (no_types, lifting) empty_set insertI1 set_eqI singletonD singletonI fst_conv prod.collapse)
  show "fst e \<in> subject_ids g \<and> fst e \<noteq> fst b \<and> snd e = mean_score frames (fst e)
       \<and> (\<forall>s\<in>subject_ids g. s \<noteq> fst b \<longrightarrow> f_le (mean_score frames s) (snd e))" if rest: "rest = e # rest'"
  proof (intro conjI ballI impI)
    show "fst e \<noteq> fst b" using dist rest by auto
    show "fst e \<in> subject_ids g" "snd e = mean_score frames (fst e)" using entry [of "fst e" "snd e"] set rest by auto
    have sorted: "sorted_wrt (\<lambda>a b. score_order a b \<noteq> OGreater) (e # rest')"
      using score_sort.sort_by_sorted [of "score_averages frames"] ranked rest by (simp add: ranked_scores_def)
    fix s assume s: "s \<in> subject_ids g" "s \<noteq> fst b"
    then have "(s, mean_score frames s) \<in> insert b (set rest)" using entry [of s "mean_score frames s"] set by simp
    then have "(s, mean_score frames s) \<in> set (e # rest')" using s(2) rest by auto
    then have "score_order e (s, mean_score frames s) \<noteq> OGreater" using sorted by (auto simp: score_order_def then_with_Greater total_less_irrefl)
    moreover have "f_wf (snd e) \<and> \<not> f_is_nan (snd e)" using number set rest by simp
    moreover have "f_wf (mean_score frames s) \<and> \<not> f_is_nan (mean_score frames s)"
      using number entry [of s "mean_score frames s"] s(1) by fastforce
    ultimately show "f_le (mean_score frames s) (snd e)" using score_order_f_le [of e "(s, mean_score frames s)"] by simp
  qed
qed

section \<open>The decision\<close>

definition sound_match :: "identity_config \<Rightarrow> identity_gallery \<Rightarrow> score_frame list \<Rightarrow> match_evidence \<Rightarrow> bool" where
  "sound_match c g frames m \<longleftrightarrow> ic_minimum_consensus_frames c \<le> length frames \<and> window_facts g frames m \<and> margin_facts g frames m
     \<and> (fresh_evidence c m \<or> retained_evidence c m)"

lemma fresh_decision_keeps:
  "fresh_decision c enc n b ru margin k h = (d, h') \<Longrightarrow> hi_score_frames h' = hi_score_frames h \<and> hi_last_decision h' = hi_last_decision h"
  by (auto simp: fresh_decision_def split: if_splits)

lemma decide_keeps: "decide c h enc = (d, h') \<Longrightarrow> hi_score_frames h' = hi_score_frames h \<and> hi_last_decision h' = hi_last_decision h"
  by (auto simp: decide_def ranked_decision_def Let_def split: if_splits list.splits option.splits dest: fresh_decision_keeps)

lemma margin_not_nan:
  assumes "\<forall>f\<in>set frames. frame_ok g f" "1 \<le> length frames" "length frames \<le> u64_max"
    and "ranked_scores (score_averages frames) = b # rest"
  shows "\<not> f_is_nan (snd b)" and "\<not> f_is_nan (case (case rest of [] \<Rightarrow> None | e # _ \<Rightarrow> Some e) of None \<Rightarrow> f_one | Some e \<Rightarrow> f_sub (snd b) (snd e))"
proof -
  note ranked = ranked_averages [OF assms]
  have b: "f_bounded (pow2 25) (snd b)" using mean_score_bounded [OF assms(1) ranked(1) assms(2,3)] ranked(2) by simp
  then show "\<not> f_is_nan (snd b)" by (simp add: f_bounded_finite)
  show "\<not> f_is_nan (case (case rest of [] \<Rightarrow> None | e # _ \<Rightarrow> Some e) of None \<Rightarrow> f_one | Some e \<Rightarrow> f_sub (snd b) (snd e))"
  proof (cases rest)
    case (Cons e rest')
    then have "f_bounded (pow2 25) (snd e)" using ranked(5) mean_score_bounded [OF assms(1) _ assms(2,3), of "fst e"] by simp
    then show ?thesis using f_sub_not_nan [OF b] Cons by simp
  qed simp
qed

lemma retained_match_facts:
  assumes c: "validate_identity_config c = Inr ()" and frames: "\<forall>f\<in>set frames. frame_ok g f" "1 \<le> length frames"
    and m: "retained_match c (score_averages frames) t y s = Some x"
  shows "s \<in> subject_ids g \<and> x = mean_score frames s \<and> f_le (ic_hysteresis_retention_similarity c) x
     \<and> (t = s \<or> f_less (f_sub y x) (ic_hysteresis_switch_margin c))"
proof -
  have "\<not> f_le (ic_hysteresis_retention_similarity c) (F_Inf True)"
    using config_thresholds(3) [OF c] by (cases "ic_hysteresis_retention_similarity c") (simp_all add: f_le_def)
  moreover have "frames \<noteq> []" using frames(2) by auto
  ultimately show ?thesis
    using m score_averages_get [OF frames(1), of s] by (auto simp: retained_match_def Let_def split: if_splits option.splits)
qed

lemma fresh_decision_match:
  assumes "fresh_decision c enc n b ru margin k h = (DecisionMatched enc' m, h')"
  shows "\<not> f_less (snd b) (ic_minimum_similarity c)" "\<not> f_less margin (ic_ambiguity_margin c)" "ic_minimum_consensus_frames c \<le> k"
    and "enc' = enc" "h' = h\<lparr>hi_confirmed_subject_id := Some (fst b)\<rparr>"
    and "m = \<lparr>me_subject_id = fst b, me_subject_similarity = snd b, me_top_candidate_subject_id = fst b,
         me_top_candidate_similarity = snd b, me_runner_up_similarity = map_option snd ru, me_top1_top2_margin = margin,
         me_supporting_frames = k, me_window_frames = n, me_held_by_hysteresis = False\<rparr>"
proof -
  show a: "\<not> f_less (snd b) (ic_minimum_similarity c)" using assms by (rule contrapos_pn) (simp add: fresh_decision_def)
  have b: "\<not> (f_less margin (ic_ambiguity_margin c) \<or> k < ic_minimum_consensus_frames c)"
    using assms by (rule contrapos_pn) (simp add: fresh_decision_def a)
  then show "\<not> f_less margin (ic_ambiguity_margin c)" "ic_minimum_consensus_frames c \<le> k" by simp_all
  note eq = assms [unfolded fresh_decision_def if_not_P [OF a] if_not_P [OF b]]
  show "enc' = enc" "h' = h\<lparr>hi_confirmed_subject_id := Some (fst b)\<rparr>"
    "m = \<lparr>me_subject_id = fst b, me_subject_similarity = snd b, me_top_candidate_subject_id = fst b,
         me_top_candidate_similarity = snd b, me_runner_up_similarity = map_option snd ru, me_top1_top2_margin = margin,
         me_supporting_frames = k, me_window_frames = n, me_held_by_hysteresis = False\<rparr>"
    using eq by blast+
qed

lemma decide_match:
  assumes c: "validate_identity_config c = Inr ()" and frames: "\<forall>f\<in>set (hi_score_frames h). frame_ok g f"
    and len: "length (hi_score_frames h) \<le> u64_max" and d: "decide c h enc = (DecisionMatched enc' m, h')"
  shows "enc' = enc \<and> ic_minimum_consensus_frames c \<le> length (hi_score_frames h)
     \<and> window_facts g (hi_score_frames h) m \<and> margin_facts g (hi_score_frames h) m
     \<and> (fresh_evidence c m \<and> hi_confirmed_subject_id h' = Some (me_subject_id m)
        \<or> retained_evidence c m \<and> hi_confirmed_subject_id h = Some (me_subject_id m) \<and> h' = h)"
proof -
  let ?frames = "hi_score_frames h"
  have min: "ic_minimum_consensus_frames c \<le> length ?frames" using d by (auto simp: decide_def Let_def split: if_splits)
  have one: "1 \<le> length ?frames" using min config_thresholds(4) [OF c] by simp
  obtain b rest where ranked: "ranked_scores (score_averages ?frames) = b # rest"
    using d min by (cases "ranked_scores (score_averages ?frames)") (auto simp: decide_def Let_def)
  note facts = ranked_averages [OF frames one len ranked] and nan = margin_not_nan [OF frames one len ranked]
  define ru where "ru = (case rest of [] \<Rightarrow> None | e # _ \<Rightarrow> Some e)"
  have rank: "ranked_decision c h enc (score_averages ?frames) (score_supports ?frames) b ru = (DecisionMatched enc' m, h')"
    using d min ranked by (simp add: decide_def Let_def ru_def)
  have margin: "margin_facts g ?frames m"
    if "me_top_candidate_subject_id m = fst b" "me_top_candidate_similarity m = snd b" "me_runner_up_similarity m = map_option snd ru"
      "me_top1_top2_margin m = (case ru of None \<Rightarrow> f_one | Some e \<Rightarrow> f_sub (snd b) (snd e))"
    using that facts(4,5) by (cases rest) (auto simp: margin_facts_def ru_def)
  define kept where "kept = (case hi_confirmed_subject_id h of None \<Rightarrow> None
    | Some s \<Rightarrow> map_option (Pair s) (retained_match c (score_averages ?frames) (fst b) (snd b) s))"
  show ?thesis
  proof (cases kept)
    case None
    then have fresh: "fresh_decision c enc (length ?frames) b ru (case ru of None \<Rightarrow> f_one | Some e \<Rightarrow> f_sub (snd b) (snd e))
        (frames_led_by ?frames (fst b)) h = (DecisionMatched enc' m, h')"
      using rank by (simp add: ranked_decision_def Let_def kept_def [symmetric] support_of_supports)
    note f = fresh_decision_match [OF fresh]
    have "f_le (ic_minimum_similarity c) (snd b)" using not_less_le [OF f(1) nan(1) config_thresholds(1) [OF c]] .
    moreover have "f_le (ic_ambiguity_margin c) (case ru of None \<Rightarrow> f_one | Some e \<Rightarrow> f_sub (snd b) (snd e))"
      using not_less_le [OF f(2) nan(2) [folded ru_def] config_thresholds(2) [OF c]] .
    ultimately have "fresh_evidence c m" using f(3) by (simp add: f(6) fresh_evidence_def)
    moreover have "enc' = enc \<and> window_facts g ?frames m \<and> margin_facts g ?frames m \<and> hi_confirmed_subject_id h' = Some (me_subject_id m)"
      using facts(1-3) by (intro conjI margin) (simp_all add: f(4-6) window_facts_def)
    ultimately show ?thesis using min by simp
  next
    case (Some p)
    then obtain s x where p: "p = (s, x)" "hi_confirmed_subject_id h = Some s"
      "retained_match c (score_averages ?frames) (fst b) (snd b) s = Some x" by (auto simp: kept_def split: option.splits)
    note r = retained_match_facts [OF c frames one p(3)]
    have "h' = h \<and> enc' = enc \<and> m = \<lparr>me_subject_id = s, me_subject_similarity = x, me_top_candidate_subject_id = fst b,
        me_top_candidate_similarity = snd b, me_runner_up_similarity = map_option snd ru,
        me_top1_top2_margin = (case ru of None \<Rightarrow> f_one | Some e \<Rightarrow> f_sub (snd b) (snd e)),
        me_supporting_frames = frames_led_by ?frames s, me_window_frames = length ?frames, me_held_by_hysteresis = (fst b \<noteq> s)\<rparr>"
      using rank Some p(1) by (clarsimp simp: ranked_decision_def Let_def kept_def [symmetric] support_of_supports)
    then show ?thesis
      using r facts(1-3) min p(2) margin by (auto simp: window_facts_def retained_evidence_def)
  qed
qed

section \<open>The invariant\<close>

text \<open>A recorded decision describes the window as it stands: frames enter a window only together with a new decision.\<close>

fun decision_ok :: "identity_config \<Rightarrow> identity_gallery \<Rightarrow> identity_history \<Rightarrow> identity_decision \<Rightarrow> bool" where
  "decision_ok c g h (DecisionMatched _ m) \<longleftrightarrow>
     sound_match c g (hi_score_frames h) m \<and> hi_confirmed_subject_id h = Some (me_subject_id m)"
| "decision_ok c g h (DecisionExplicit _ s) \<longleftrightarrow> s \<in> subject_ids g"
| "decision_ok c g h (DecisionOffscreen _ _ _) \<longleftrightarrow> False"
| "decision_ok c g h _ \<longleftrightarrow> True"

definition window_ok :: "identity_config \<Rightarrow> identity_gallery \<Rightarrow> identity_history \<Rightarrow> bool" where
  "window_ok c g h \<longleftrightarrow> length (hi_score_frames h) \<le> ic_consensus_window_frames c \<and> (\<forall>f\<in>set (hi_score_frames h). frame_ok g f)
     \<and> (\<forall>s. hi_confirmed_subject_id h = Some s \<longrightarrow> s \<in> subject_ids g)"

definition history_ok :: "identity_config \<Rightarrow> identity_gallery \<Rightarrow> identity_history \<Rightarrow> bool" where
  "history_ok c g h \<longleftrightarrow> window_ok c g h \<and> (\<forall>d. hi_last_decision h = Some d \<longrightarrow> decision_ok c g h d)"

definition resolver_inv :: "identity_resolver \<Rightarrow> bool" where
  "resolver_inv r \<longleftrightarrow> validate_identity_config (rs_config r) = Inr () \<and> ic_consensus_window_frames (rs_config r) \<le> u64_max
     \<and> gallery_ok (rs_gallery r) \<and> bt_wf (rs_histories r) \<and> bt_wf (rs_explicit_assignments r)
     \<and> (\<forall>i h. bt_get (rs_histories r) i = Some h \<longrightarrow> history_ok (rs_config r) (rs_gallery r) h)
     \<and> (\<forall>i s. bt_get (rs_explicit_assignments r) i = Some s \<longrightarrow> s \<in> subject_ids (rs_gallery r))"

lemma resolver_invD:
  assumes "resolver_inv r"
  shows "validate_identity_config (rs_config r) = Inr ()" "ic_consensus_window_frames (rs_config r) \<le> u64_max" "gallery_ok (rs_gallery r)"
    and "history_ok (rs_config r) (rs_gallery r) (history_of r i)"
    and "bt_get (rs_explicit_assignments r) i = Some s \<Longrightarrow> s \<in> subject_ids (rs_gallery r)"
  using assms
  by (auto simp: resolver_inv_def history_of_def history_ok_def window_ok_def default_history_def split: option.splits)

lemma put_history_simps [simp]:
  "rs_config (put_history i h r) = rs_config r" "rs_gallery (put_history i h r) = rs_gallery r"
  "rs_explicit_assignments (put_history i h r) = rs_explicit_assignments r" "rs_histories (put_history i h r) = bt_insert i h (rs_histories r)"
  "history_of (put_history i h r) j = (if j = i then h else history_of r j)"
  by (simp_all add: put_history_def history_of_def)

lemma put_history_inv: "resolver_inv r \<Longrightarrow> history_ok (rs_config r) (rs_gallery r) h \<Longrightarrow> resolver_inv (put_history i h r)"
  by (simp add: resolver_inv_def)

lemma decide_confirms:
  assumes "validate_identity_config c = Inr ()" "c_window \<le> u64_max" "length (hi_score_frames h) \<le> c_window"
    and "\<forall>f\<in>set (hi_score_frames h). frame_ok g f" and d: "decide c h enc = (d, h')"
  shows "hi_confirmed_subject_id h' = None \<or> hi_confirmed_subject_id h' = hi_confirmed_subject_id h
     \<or> (\<exists>m. d = DecisionMatched enc m \<and> fresh_evidence c m \<and> hi_confirmed_subject_id h' = Some (me_subject_id m))"
proof (cases d)
  case (DecisionMatched e m)
  then show ?thesis using decide_match [OF assms(1,4), of enc e m h'] assms(2,3) d by auto
qed (use d in \<open>auto simp: decide_def ranked_decision_def fresh_decision_def Let_def split: if_splits list.splits option.splits\<close>)

lemma decide_shape: "decide c h enc = (d, h') \<Longrightarrow> (\<forall>e s. d \<noteq> DecisionExplicit e s) \<and> (\<forall>e s t. d \<noteq> DecisionOffscreen e s t) \<and> decision_encounter_id d = enc"
  by (auto simp: decide_def ranked_decision_def fresh_decision_def Let_def split: if_splits list.splits option.splits)

lemma record_decision_facts:
  assumes inv: "resolver_inv r" and h: "window_ok (rs_config r) (rs_gallery r) h" and d: "record_decision i enc h r = (d, r')"
  shows "resolver_inv r'" and "rs_config r' = rs_config r" "rs_gallery r' = rs_gallery r" "rs_explicit_assignments r' = rs_explicit_assignments r"
    and "hi_score_frames (history_of r' i) = hi_score_frames h" "hi_last_decision (history_of r' i) = Some d"
    and "hi_confirmed_subject_id (history_of r' i) = None \<or> hi_confirmed_subject_id (history_of r' i) = hi_confirmed_subject_id h
     \<or> (\<exists>m. d = DecisionMatched enc m \<and> fresh_evidence (rs_config r) m \<and> hi_confirmed_subject_id (history_of r' i) = Some (me_subject_id m))"
    and "d = DecisionMatched enc' m \<Longrightarrow> fresh_evidence (rs_config r) m
       \<or> retained_evidence (rs_config r) m \<and> hi_confirmed_subject_id h = Some (me_subject_id m)"
proof -
  note I = resolver_invD [OF inv]
  obtain h' where dec: "decide (rs_config r) h enc = (d, h')" and r': "r' = put_history i (h'\<lparr>hi_last_decision := Some d\<rparr>) r"
    using d by (auto simp: record_decision_def split: prod.splits)
  have w: "length (hi_score_frames h) \<le> ic_consensus_window_frames (rs_config r)" "\<forall>f\<in>set (hi_score_frames h). frame_ok (rs_gallery r) f"
    using h by (simp_all add: window_ok_def)
  note conf = decide_confirms [OF I(1,2) w dec]
  have len: "length (hi_score_frames h) \<le> u64_max" using w(1) I(2) by simp
  have match: "enc' = enc \<and> sound_match (rs_config r) (rs_gallery r) (hi_score_frames h) m \<and> hi_confirmed_subject_id h' = Some (me_subject_id m)
      \<and> (fresh_evidence (rs_config r) m \<or> retained_evidence (rs_config r) m \<and> hi_confirmed_subject_id h = Some (me_subject_id m))"
    if "d = DecisionMatched enc' m" for enc' m
    using decide_match [OF I(1) w(2) len, of enc enc' m h'] dec that by (auto simp: sound_match_def)
  have "window_ok (rs_config r) (rs_gallery r) h'"
    using conf h decide_keeps [OF dec] match by (auto simp: window_ok_def sound_match_def window_facts_def)
  moreover have "decision_ok (rs_config r) (rs_gallery r) h' d"
    using match decide_keeps [OF dec] decide_shape [OF dec] by (cases d) auto
  ultimately have "history_ok (rs_config r) (rs_gallery r) (h'\<lparr>hi_last_decision := Some d\<rparr>)"
    by (cases d) (simp_all add: history_ok_def window_ok_def)
  then show "resolver_inv r'" unfolding r' by (rule put_history_inv [OF inv])
  show "rs_config r' = rs_config r" "rs_gallery r' = rs_gallery r" "rs_explicit_assignments r' = rs_explicit_assignments r"
    "hi_score_frames (history_of r' i) = hi_score_frames h" "hi_last_decision (history_of r' i) = Some d"
    using decide_keeps [OF dec] by (simp_all add: r')
  show "hi_confirmed_subject_id (history_of r' i) = None \<or> hi_confirmed_subject_id (history_of r' i) = hi_confirmed_subject_id h
     \<or> (\<exists>m. d = DecisionMatched enc m \<and> fresh_evidence (rs_config r) m \<and> hi_confirmed_subject_id (history_of r' i) = Some (me_subject_id m))"
    using conf by (simp add: r')
  show "d = DecisionMatched enc' m \<Longrightarrow> fresh_evidence (rs_config r) m
       \<or> retained_evidence (rs_config r) m \<and> hi_confirmed_subject_id h = Some (me_subject_id m)"
    using match by blast
qed

end
