(* ===== verification/Resolver_Evidence.thy ===== *)
theory Resolver_Evidence
  imports Resolver_Properties
begin

text \<open>
  Observations as a whole: the ways one can end, the reachable resolvers, and the properties of the decisions they return.
\<close>

section \<open>Observations\<close>

lemma push_frame_ok:
  assumes "history_ok c g h" and "frame_ok g f"
  shows "window_ok c g (push_frame (ic_consensus_window_frames c) f h)" "hi_confirmed_subject_id (push_frame n f h) = hi_confirmed_subject_id h"
  using assms by (auto simp: history_ok_def window_ok_def push_frame_def Let_def dest!: in_set_dropD)

definition embedding_typed :: "embedding option \<Rightarrow> bool" where
  "embedding_typed e = (case e of None \<Rightarrow> True | Some x \<Rightarrow> list_all f_wf (eb_values x))"

text \<open>An observation ends in one of four ways.\<close>

lemma observe_cases:
  assumes inv: "resolver_inv r" and typed: "embedding_typed e" and o: "observe_actor i e enc r = (res, r')"
  obtains (assigned) s where "bt_get (rs_explicit_assignments r) i = Some s" "res = Inr (DecisionExplicit enc s)"
      "r' = put_history i ((history_of r i)\<lparr>hi_last_decision := Some (DecisionExplicit enc s)\<rparr>) r"
    | (rejected) x err where "bt_get (rs_explicit_assignments r) i = None" "e = Some x" "admit_embedding r x = Inl err" "res = Inl err" "r' = r"
    | (repeated) d where "bt_get (rs_explicit_assignments r) i = None" "e = None" "hi_last_decision (history_of r i) = Some d" "res = Inr d"
      "r' = put_history i (history_of r i) r"
    | (decided) h d where "bt_get (rs_explicit_assignments r) i = None" "window_ok (rs_config r) (rs_gallery r) h"
      "hi_confirmed_subject_id h = hi_confirmed_subject_id (history_of r i)" "record_decision i enc h r = (d, r')" "res = Inr d"
proof (cases "bt_get (rs_explicit_assignments r) i")
  case (Some s)
  then show thesis using o assigned by (simp add: observe_actor_def Let_def)
next
  case none: None
  note I = resolver_invD [OF inv]
  show thesis
  proof (cases e)
    case None
    show thesis
    proof (cases "hi_last_decision (history_of r i)")
      case None
      then show thesis
        using o decided [of "history_of r i"] none \<open>e = None\<close> I(4) [of i] by (auto simp: observe_actor_def history_ok_def split: prod.splits)
    qed (use o repeated none \<open>e = None\<close> in \<open>auto simp: observe_actor_def\<close>)
  next
    case (Some x)
    show thesis
    proof (cases "admit_embedding r x")
      case (Inr f)
      have "frame_ok (rs_gallery r) f" using admit_embedding_ok(1) [OF I(3)] typed Some Inr by (auto simp: embedding_typed_def)
      note p = push_frame_ok [OF I(4) this]
      show thesis using o none Some Inr decided [OF none p(1) p(2)] by (auto simp: observe_actor_def split: prod.splits)
    next
      case (Inl err)
      then have "res = Inl err" "r' = r" using o none Some by (simp_all add: observe_actor_def)
      then show thesis by (rule rejected [OF none Some Inl])
    qed
  qed
qed

lemma observe_inv:
  assumes inv: "resolver_inv r" and typed: "embedding_typed e" and o: "observe_actor i e enc r = (res, r')"
  shows "resolver_inv r'" and "rs_config r' = rs_config r" "rs_gallery r' = rs_gallery r" "rs_explicit_assignments r' = rs_explicit_assignments r"
proof -
  note I = resolver_invD [OF inv]
  have hist: "history_ok (rs_config r) (rs_gallery r) ((history_of r i)\<lparr>hi_last_decision := Some (DecisionExplicit enc s)\<rparr>)"
    if "s \<in> subject_ids (rs_gallery r)" for s
    using I(4) [of i] that by (simp add: history_ok_def window_ok_def)
  have "resolver_inv r' \<and> rs_config r' = rs_config r \<and> rs_gallery r' = rs_gallery r \<and> rs_explicit_assignments r' = rs_explicit_assignments r"
    using inv typed o
  proof (cases rule: observe_cases)
    case (assigned s)
    then show ?thesis using put_history_inv [OF inv hist] I(5) [of i s] by simp
  next
    case (repeated d)
    then show ?thesis using put_history_inv [OF inv I(4) [of i]] by simp
  next
    case (decided h d)
    show ?thesis using record_decision_facts(1-4) [OF inv decided(2,4)] by simp
  next
    case (rejected x err)
    show ?thesis using inv rejected(5) by simp
  qed
  then show "resolver_inv r'" "rs_config r' = rs_config r" "rs_gallery r' = rs_gallery r" "rs_explicit_assignments r' = rs_explicit_assignments r"
    by simp_all
qed

lemma observe_None_ok: "\<exists>d. fst (observe_actor i None enc r) = Inr d"
  by (auto simp: observe_actor_def Let_def split: option.splits prod.splits)

section \<open>Reachable resolvers\<close>

definition gallery_typed :: "identity_gallery \<Rightarrow> bool" where
  "gallery_typed g \<longleftrightarrow> bt_wf (ga_subjects g)
     \<and> list_all (\<lambda>e. list_all (\<lambda>r. list_all f_wf (eb_values (rf_embedding r))) (sj_references (snd e))) (ga_subjects g)"

inductive resolver_reachable :: "identity_resolver \<Rightarrow> bool" where
  created: "new_resolver c g = Inr r \<Longrightarrow> gallery_typed g \<Longrightarrow> ic_consensus_window_frames c \<le> u64_max \<Longrightarrow> resolver_reachable r"
| assigned: "resolver_reachable r \<Longrightarrow> resolver_reachable (snd (assign_explicit i s r))"
| cleared: "resolver_reachable r \<Longrightarrow> resolver_reachable (clear_explicit i r)"
| forgotten: "resolver_reachable r \<Longrightarrow> resolver_reachable (forget_track i r)"
| observed: "resolver_reachable r \<Longrightarrow> embedding_typed e \<Longrightarrow> resolver_reachable (snd (observe_actor i e enc r))"
| phased: "resolver_reachable r \<Longrightarrow> resolver_reachable (snd (decision_for_phase i epoch phase enc r))"

lemma new_resolver_inv:
  "new_resolver c g = Inr r \<Longrightarrow> gallery_typed g \<Longrightarrow> ic_consensus_window_frames c \<le> u64_max \<Longrightarrow> resolver_inv r"
  by (auto simp: new_resolver_def bind_result_Inr_iff resolver_inv_def gallery_ok_def gallery_typed_def list_all_iff)

lemma assign_explicit_inv: "resolver_inv r \<Longrightarrow> resolver_inv (snd (assign_explicit i s r))"
  by (auto simp: assign_explicit_def resolver_inv_def contains_subject_iff)

lemma clear_explicit_inv: "resolver_inv r \<Longrightarrow> resolver_inv (clear_explicit i r)"
  by (auto simp: clear_explicit_def resolver_inv_def split: if_splits)

lemma forget_track_inv: "resolver_inv r \<Longrightarrow> resolver_inv (forget_track i r)"
  by (auto simp: forget_track_def resolver_inv_def split: if_splits)

lemma decision_for_phase_inv: "resolver_inv r \<Longrightarrow> resolver_inv (snd (decision_for_phase i epoch phase enc r))"
  using observe_inv(1) [of r None i enc]
  by (cases "observe_actor i None enc r") (auto simp: decision_for_phase_def embedding_typed_def split: sum.splits)

lemma resolver_reachable_inv: "resolver_reachable r \<Longrightarrow> resolver_inv r"
proof (induction rule: resolver_reachable.induct)
  case (observed r e i enc)
  then show ?case using observe_inv(1) [of r e i enc] by (cases "observe_actor i e enc r") auto
qed (auto intro: new_resolver_inv assign_explicit_inv clear_explicit_inv forget_track_inv decision_for_phase_inv)

section \<open>Evidence behind every decision\<close>

lemma observe_match:
  assumes inv: "resolver_inv r" and typed: "embedding_typed e" and o: "observe_actor i e enc r = (Inr (DecisionMatched enc' m), r')"
  shows "sound_match (rs_config r) (rs_gallery r) (hi_score_frames (history_of r' i)) m
     \<and> (fresh_evidence (rs_config r) m \<or> retained_evidence (rs_config r) m \<and> hi_confirmed_subject_id (history_of r i) = Some (me_subject_id m))"
  using inv typed o
proof (cases rule: observe_cases)
  case (repeated d)
  then have "decision_ok (rs_config r) (rs_gallery r) (history_of r i) (DecisionMatched enc' m)"
    using resolver_invD(4) [OF inv, of i] by (auto simp: history_ok_def)
  then show ?thesis using repeated(5) by (auto simp: sound_match_def)
next
  case (decided h d)
  note R = record_decision_facts [OF inv decided(2,4)]
  have "decision_ok (rs_config r) (rs_gallery r) (history_of r' i) d"
    using resolver_invD(4) [OF R(1), of i] R(2,3,6) by (simp add: history_ok_def)
  then show ?thesis using R(8) [of enc' m] decided(3,5) by auto
qed simp_all

lemma observe_confirms:
  assumes inv: "resolver_inv r" and typed: "embedding_typed e" and o: "observe_actor i e enc r = (res, r')"
    and s: "hi_confirmed_subject_id (history_of r' j) = Some s" "hi_confirmed_subject_id (history_of r j) \<noteq> Some s"
  shows "j = i \<and> (\<exists>m. res = Inr (DecisionMatched enc m) \<and> me_subject_id m = s \<and> fresh_evidence (rs_config r) m)"
  using inv typed o
proof (cases rule: observe_cases)
  case (assigned t)
  then show ?thesis using s by (simp split: if_splits)
next
  case (repeated d)
  then show ?thesis using s by (simp split: if_splits)
next
  case (decided h d)
  have "history_of r' j = history_of r j" if "j \<noteq> i" using decided(4) that by (auto simp: record_decision_def split: prod.splits)
  then have j: "j = i" using s by metis
  show ?thesis using record_decision_facts(7) [OF inv decided(2,4)] decided(3,5) s unfolding j by auto
qed (use s in simp)

text \<open>C10. An actor is reported as a subject of the gallery only on evidence. In every state the resolver can reach, a reported match
  describes the window of scored frames as it stands: the frames reach the required consensus, the reported similarity is the
  subject's mean over the window, no subject has a greater mean than the reported top candidate, and the margin is the distance
  to the runner-up. Either the subject is that top candidate with the minimum similarity, the ambiguity margin and enough frames
  that rank it first, or it had been confirmed before, still reaches the retention threshold and no challenger leads by the
  switch margin. And a subject becomes confirmed for a track only through an observation of that track that reports it on fresh
  evidence. The comparisons are those of single precision numbers, none of which is NaN.\<close>

theorem identity_needs_evidence:
  assumes "resolver_reachable r" and "embedding_typed e" and "observe_actor i e enc r = (res, r')"
  shows "(\<forall>enc' m. res = Inr (DecisionMatched enc' m) \<longrightarrow>
       sound_match (rs_config r) (rs_gallery r) (hi_score_frames (history_of r' i)) m
       \<and> (fresh_evidence (rs_config r) m
          \<or> retained_evidence (rs_config r) m \<and> hi_confirmed_subject_id (history_of r i) = Some (me_subject_id m)))
     \<and> (\<forall>j s. hi_confirmed_subject_id (history_of r' j) = Some s \<longrightarrow> hi_confirmed_subject_id (history_of r j) = Some s
          \<or> j = i \<and> (\<exists>m. res = Inr (DecisionMatched enc m) \<and> me_subject_id m = s \<and> fresh_evidence (rs_config r) m))"
proof (intro conjI allI impI)
  note inv = resolver_reachable_inv [OF assms(1)]
  show "sound_match (rs_config r) (rs_gallery r) (hi_score_frames (history_of r' i)) m"
    "fresh_evidence (rs_config r) m \<or> retained_evidence (rs_config r) m \<and> hi_confirmed_subject_id (history_of r i) = Some (me_subject_id m)"
    if "res = Inr (DecisionMatched enc' m)" for enc' m
    using observe_match [OF inv assms(2), of i enc enc' m r'] assms(3) that by simp_all
  show "hi_confirmed_subject_id (history_of r j) = Some s
     \<or> j = i \<and> (\<exists>m. res = Inr (DecisionMatched enc m) \<and> me_subject_id m = s \<and> fresh_evidence (rs_config r) m)"
    if "hi_confirmed_subject_id (history_of r' j) = Some s" for j s
    using observe_confirms [OF inv assms(2,3) that] by blast
qed

section \<open>Failures and explicit assignments\<close>

lemma observe_assigned: "bt_get (rs_explicit_assignments r) i = Some s \<Longrightarrow> fst (observe_actor i e enc r) = Inr (DecisionExplicit enc s)"
  by (simp add: observe_actor_def Let_def)

lemma observe_error_iff:
  assumes inv: "resolver_inv r" and typed: "embedding_typed e" and o: "observe_actor i e enc r = (res, r')"
  shows "(\<exists>err. res = Inl err) \<longleftrightarrow> bt_get (rs_explicit_assignments r) i = None
     \<and> (\<exists>x. e = Some x \<and> \<not> (validate_embedding x = Inr () \<and> eb_model x = ga_model (rs_gallery r)))"
proof -
  have admit: "(\<exists>f. admit_embedding r x = Inr f) \<longleftrightarrow> validate_embedding x = Inr () \<and> eb_model x = ga_model (rs_gallery r)" if "e = Some x" for x
    using admit_embedding_ok(2) [OF resolver_invD(3) [OF inv], of x] typed that by (simp add: embedding_typed_def)
  show ?thesis
  proof (cases "bt_get (rs_explicit_assignments r) i")
    case None
    show ?thesis
    proof (cases e)
      case none: None
      then show ?thesis using o observe_None_ok [of i enc r] by auto
    next
      case (Some x)
      have "(\<exists>err. res = Inl err) \<longleftrightarrow> \<not> (\<exists>f. admit_embedding r x = Inr f)"
        using o None Some by (cases "admit_embedding r x") (auto simp: observe_actor_def split: prod.splits)
      then show ?thesis using admit [OF Some] None Some by auto
    qed
  next
    case (Some s)
    then show ?thesis using observe_assigned [OF Some, of e enc] o by simp
  qed
qed

lemma observe_error_unchanged: "observe_actor i e enc r = (Inl err, r') \<Longrightarrow> r' = r"
  by (auto simp: observe_actor_def Let_def split: option.splits sum.splits prod.splits)

text \<open>An observation fails exactly when the track has no explicit assignment and its embedding is invalid or of another model
  space than the gallery, and then the resolver is unchanged. With an explicit assignment the assigned subject is the answer,
  whatever was observed; after it is cleared the next valid observation is decided on the window again.\<close>

theorem observation_outcome:
  assumes "resolver_reachable r" and "embedding_typed e" and "observe_actor i e enc r = (res, r')"
  shows "((\<exists>err. res = Inl err) \<longleftrightarrow> bt_get (rs_explicit_assignments r) i = None
       \<and> (\<exists>x. e = Some x \<and> \<not> (validate_embedding x = Inr () \<and> eb_model x = ga_model (rs_gallery r))))
     \<and> ((\<exists>err. res = Inl err) \<longrightarrow> r' = r)
     \<and> (\<forall>s. bt_get (rs_explicit_assignments r) i = Some s \<longrightarrow> res = Inr (DecisionExplicit enc s))
     \<and> rs_explicit_assignments r' = rs_explicit_assignments r \<and> rs_gallery r' = rs_gallery r \<and> rs_config r' = rs_config r"
proof -
  note inv = resolver_reachable_inv [OF assms(1)]
  show ?thesis
    using observe_error_iff [OF inv assms(2,3)] observe_error_unchanged [of i e enc r _ r'] observe_inv(2-4) [OF inv assms(2,3)]
      observe_assigned [of r i _ e enc] assms(3) by auto
qed

section \<open>Similarities are numbers\<close>

text \<open>C30. The similarity of two embeddings exists exactly when both are valid and of one model, and then it is a number between minus
  one and one: the norm check keeps every component below the magnitude two, so no product overflows and no sum is undefined.\<close>

theorem similarity_is_a_number:
  assumes "list_all f_wf (eb_values a)" and "list_all f_wf (eb_values b)"
  shows "(validate_embedding a = Inr () \<and> validate_embedding b = Inr () \<and> eb_model a = eb_model b
           \<longrightarrow> (\<exists>s. cosine_similarity a b = Inr s \<and> f_le (F_Num True 1) s \<and> f_le s f_one))
     \<and> (\<forall>s. cosine_similarity a b = Inr s \<longrightarrow> validate_embedding a = Inr () \<and> validate_embedding b = Inr () \<and> eb_model a = eb_model b)"
  using cosine_similarity_ok [of a b] cosine_similarity_number [OF _ assms(1) _ assms(2)] by (auto simp: f_in_def)

section \<open>An example\<close>

definition sample_crop :: bounding_box where
  "sample_crop = \<lparr>bb_x = f_zero, bb_y = f_zero, bb_width = f_one, bb_height = f_one\<rparr>"

definition sample_model :: embedding_model where
  "sample_model = \<lparr>md_provider = [112], md_model_id = [109], md_revision = [114], md_dimensions = 1\<rparr>"

definition sample_embedding :: embedding where
  "sample_embedding = \<lparr>eb_schema_version = 1, eb_model = sample_model,
     eb_metadata = \<lparr>mt_source_frame_index = 1, mt_crop_bounds = sample_crop, mt_detector_id = [100], mt_detector_revision = [114],
       mt_preprocessing = [120], mt_source_digest_sha256 = None\<rparr>,
     eb_values = [f_one]\<rparr>"

definition sample_gallery :: identity_gallery where
  "sample_gallery = \<lparr>ga_schema_version = 1, ga_model = sample_model,
     ga_subjects = [([97], \<lparr>sj_subject_id = [97], sj_display_name = [65],
       sj_references = [\<lparr>rf_reference_id = [114], rf_provenance = [120], rf_embedding = sample_embedding\<rparr>]\<rparr>)]\<rparr>"

definition sample_identity_config :: identity_config where
  "sample_identity_config = \<lparr>ic_consensus_window_frames = 1, ic_minimum_consensus_frames = 1,
     ic_minimum_similarity = F_Num False (3 / 4), ic_ambiguity_margin = F_Num False (1 / 8),
     ic_hysteresis_retention_similarity = F_Num False (1 / 2), ic_hysteresis_switch_margin = F_Num False (1 / 8)\<rparr>"

definition sample_resolver :: identity_resolver where
  "sample_resolver = \<lparr>rs_config = sample_identity_config, rs_gallery = sample_gallery, rs_histories = [], rs_explicit_assignments = []\<rparr>"

lemma rounded_exact: "-149 \<le> e \<Longrightarrow> rounded (pow2 e) = pow2 e"
  using rounded_pow2(1,2) [OF pow2_pos, of e e] by simp

lemma f32_round_one [simp]: "f32_round s 1 = F_Num s 1"
  using rounded_exact [of 0] by (simp add: f32_round_cases F_MAX_EXCLUSIVE_def pow2_def)

lemma sqrt_round_one: "sqrt_round 1 = 1"
proof -
  have e: "rat_exponent 1 = 0" by (simp add: rat_exponent_def bits.simps pow2_def)
  have "isqrt 70368744177664 = 8388608" by (simp add: isqrt.simps)
  then show ?thesis by (simp add: sqrt_round_def e Let_def pow2_def)
qed

lemma unit_vector: "f_sum [f_one] = f_one" "l2_norm [f_one] = f_one"
  by (simp_all add: f_sum_def l2_norm_def sqrt_round_one)

lemma sample_embedding_valid: "validate_embedding sample_embedding = Inr ()"
proof -
  have "\<not> f_less UNIT_NORM_TOLERANCE (F_Num False 0)"
    using rounded_pow2(3) [of "1 / 1000"] by (simp add: UNIT_NORM_TOLERANCE_def f32_of_def f32_round_cases f_less_def f_le_def)
  then show ?thesis
    by (simp add: validate_embedding_def sample_embedding_def sample_model_def sample_crop_def EMBEDDING_SCHEMA_VERSION_def validate_model_def
        validate_embedding_metadata_def validate_box_def validate_raw_values_def map_err_def is_blank_iff is_whitespace_def
        unit_vector f_sub_def F_EPSILON_def f_le_def)
qed

lemma sample_similarity: "cosine_similarity sample_embedding sample_embedding = Inr f_one"
  using sample_embedding_valid unit_vector
  by (simp add: cosine_similarity_def) (simp add: sample_embedding_def unit_vector f_clamp_def f_less_def f_le_def)

definition sample_match :: match_evidence where
  "sample_match = \<lparr>me_subject_id = [97], me_subject_similarity = f_one, me_top_candidate_subject_id = [97],
     me_top_candidate_similarity = f_one, me_runner_up_similarity = None, me_top1_top2_margin = f_one, me_supporting_frames = 1,
     me_window_frames = 1, me_held_by_hysteresis = False\<rparr>"

definition sample_score_frame :: score_frame where
  "sample_score_frame = \<lparr>sf_scores = [([97], f_one)], sf_top_subject_id = Some [97]\<rparr>"

definition sample_observed :: identity_resolver where
  "sample_observed = sample_resolver\<lparr>rs_histories := [(1, \<lparr>hi_score_frames = [sample_score_frame],
     hi_confirmed_subject_id = Some [97], hi_last_decision = Some (DecisionMatched [101] sample_match)\<rparr>)]\<rparr>"

lemma sample_resolver_new:
  "new_resolver sample_identity_config sample_gallery = Inr sample_resolver" "gallery_typed sample_gallery"
  "ic_consensus_window_frames sample_identity_config \<le> u64_max"
proof -
  have "validate_gallery sample_gallery = Inr ()"
    using sample_embedding_valid
    by (simp add: validate_gallery_def sample_gallery_def IDENTITY_GALLERY_SCHEMA_VERSION_def validate_subject_def validate_identifier_def
        identifier_byte_def is_ascii_alphanumeric_def is_ascii_digit_def is_blank_iff is_whitespace_def map_err_def)
       (simp add: sample_embedding_def sample_model_def validate_model_def is_blank_iff is_whitespace_def len_utf8_def)
  then show "new_resolver sample_identity_config sample_gallery = Inr sample_resolver"
    by (simp add: new_resolver_def validate_identity_config_def sample_identity_config_def sample_resolver_def unit_interval_def f_in_def
        f_le_def f_less_def)
  show "gallery_typed sample_gallery" by (simp add: gallery_typed_def sample_gallery_def sample_embedding_def bt_wf_def f_wf_def)
  show "ic_consensus_window_frames sample_identity_config \<le> u64_max" by (simp add: sample_identity_config_def u64_max_def)
qed

lemma sample_resolver_reachable: "resolver_reachable sample_resolver"
  by (rule resolver_reachable.created [OF sample_resolver_new])

lemma sample_admitted: "admit_embedding sample_resolver sample_embedding = Inr sample_score_frame"
  using sample_embedding_valid sample_similarity
  by (simp add: admit_embedding_def map_err_def sample_resolver_def sample_gallery_def score_embedding_def sample_score_frame_def
      top_of_def ranked_scores_def sort_by_def f_max_def f_less_def f_le_def)
     (simp add: sample_embedding_def)

lemma sample_observation: "observe_actor 1 (Some sample_embedding) [101] sample_resolver = (Inr (DecisionMatched [101] sample_match), sample_observed)"
proof -
  have avg: "score_averages [sample_score_frame] = [([97], f_one)]"
    by (simp add: score_averages_def score_sums_def sample_score_frame_def add_score_def f32_of_nat_def)
  have sup: "score_supports [sample_score_frame] = [([97], 1)]"
    by (simp add: score_supports_def sample_score_frame_def add_support_def)
  have "history_of sample_resolver 1 = default_history" by (simp add: history_of_def sample_resolver_def)
  moreover have "bt_get (rs_explicit_assignments sample_resolver) 1 = None" "rs_config sample_resolver = sample_identity_config"
    by (simp_all add: sample_resolver_def)
  moreover have "push_frame 1 sample_score_frame default_history = default_history\<lparr>hi_score_frames := [sample_score_frame]\<rparr>"
    by (simp add: push_frame_def default_history_def)
  moreover have "decide sample_identity_config (default_history\<lparr>hi_score_frames := [sample_score_frame]\<rparr>) [101] =
      (DecisionMatched [101] sample_match, default_history\<lparr>hi_score_frames := [sample_score_frame], hi_confirmed_subject_id := Some [97]\<rparr>)"
    by (simp add: decide_def sample_identity_config_def avg sup ranked_scores_def sort_by_def ranked_decision_def fresh_decision_def
        default_history_def support_of_def f_less_def f_le_def sample_match_def Let_def)
  moreover have "ic_consensus_window_frames sample_identity_config = 1" by (simp add: sample_identity_config_def)
  ultimately show ?thesis
    by (simp add: observe_actor_def sample_admitted record_decision_def) (simp add: put_history_def sample_observed_def sample_resolver_def default_history_def)
qed

theorem identity_needs_evidence_witness:
  "fresh_evidence sample_identity_config sample_match
     \<and> sound_match sample_identity_config sample_gallery (hi_score_frames (history_of sample_observed 1)) sample_match"
  using identity_needs_evidence [OF sample_resolver_reachable _ sample_observation]
  by (simp add: embedding_typed_def sample_embedding_def f_wf_def) (simp add: sample_resolver_def history_of_def default_history_def)

theorem observation_outcome_witness:
  "rs_gallery sample_observed = sample_gallery
     \<and> snd (observe_actor 1 (Some (sample_embedding\<lparr>eb_schema_version := 2\<rparr>)) [101] sample_resolver) = sample_resolver"
proof -
  have typed: "embedding_typed (Some sample_embedding)" "embedding_typed (Some (sample_embedding\<lparr>eb_schema_version := 2\<rparr>))"
    by (simp_all add: embedding_typed_def sample_embedding_def f_wf_def)
  have "validate_embedding (sample_embedding\<lparr>eb_schema_version := 2\<rparr>) \<noteq> Inr ()"
    by (simp add: validate_embedding_def EMBEDDING_SCHEMA_VERSION_def)
  moreover have "bt_get (rs_explicit_assignments sample_resolver) 1 = None" by (simp add: sample_resolver_def)
  ultimately have "snd (observe_actor 1 (Some (sample_embedding\<lparr>eb_schema_version := 2\<rparr>)) [101] sample_resolver) = sample_resolver"
    using observation_outcome [OF sample_resolver_reachable typed(2) surjective_pairing, of 1 "[101]"] by blast
  then show ?thesis using observation_outcome [OF sample_resolver_reachable typed(1) sample_observation] by (simp add: sample_resolver_def)
qed

theorem similarity_is_a_number_witness:
  "\<exists>s. cosine_similarity sample_embedding sample_embedding = Inr s \<and> f_le s f_one"
proof -
  have "list_all f_wf (eb_values sample_embedding)" by (simp add: sample_embedding_def f_wf_def)
  from similarity_is_a_number [OF this this] show ?thesis using sample_embedding_valid by blast
qed

end
