(* ===== verification/Identity_Engine.thy ===== *)
theory Identity_Engine
  imports Resolver_Evidence
begin

text \<open>
  The engine that joins tracking and recognition, \<open>crates/identity-engine/src/engine.rs\<close>. It owns a tracker and a resolver; a frame
  updates the tracker first, retires the resolver's records of retired tracks and then asks the resolver for each track in turn.
\<close>

record actor_identity =
  ai_track :: track_snapshot
  ai_identity :: identity_decision

record frame_identity_update =
  fi_frame_index :: nat
  fi_actors :: "actor_identity list"
  fi_track_events :: "track_event list"
  fi_selected_track_id :: "nat option"

datatype engine_error = NoSelectedActor | EngineTracker actor_tracker_error | EngineIdentity identity_error

record identity_engine =
  en_tracker :: actor_tracker
  en_resolver :: identity_resolver

definition new_engine :: "actor_tracker \<Rightarrow> identity_resolver \<Rightarrow> identity_engine" where
  "new_engine a r = \<lparr>en_tracker = a, en_resolver = r\<rparr>"

definition engine_select_actor :: "nat \<Rightarrow> identity_engine \<Rightarrow> (engine_error, unit) result \<times> identity_engine" where
  "engine_select_actor i e =
     (case select_actor i (en_tracker e) of (res, a) \<Rightarrow> (map_err EngineTracker res, e\<lparr>en_tracker := a\<rparr>))"

definition engine_clear_selection :: "identity_engine \<Rightarrow> identity_engine" where
  "engine_clear_selection e = e\<lparr>en_tracker := clear_selection (en_tracker e)\<rparr>"

definition assign_subject :: "nat \<Rightarrow> rstr \<Rightarrow> identity_engine \<Rightarrow> (engine_error, unit) result \<times> identity_engine" where
  "assign_subject i s e =
     (if \<not> list_ex (\<lambda>t. sn_track_id t = i) (tracker_snapshot (en_tracker e)) then (Inl (EngineTracker (UnknownTrack i)), e)
      else (case assign_explicit i s (en_resolver e) of (res, r) \<Rightarrow> (map_err EngineIdentity res, e\<lparr>en_resolver := r\<rparr>)))"

definition assign_selected_subject :: "rstr \<Rightarrow> identity_engine \<Rightarrow> (engine_error, unit) result \<times> identity_engine" where
  "assign_selected_subject s e =
     (case ar_selected_track_id (en_tracker e) of
        None \<Rightarrow> (Inl NoSelectedActor, e)
      | Some i \<Rightarrow> (case assign_explicit i s (en_resolver e) of (res, r) \<Rightarrow> (map_err EngineIdentity res, e\<lparr>en_resolver := r\<rparr>)))"

definition clear_subject_assignment :: "nat \<Rightarrow> identity_engine \<Rightarrow> identity_engine" where
  "clear_subject_assignment i e = e\<lparr>en_resolver := clear_explicit i (en_resolver e)\<rparr>"

section \<open>Frames\<close>

fun retire_event :: "track_event \<Rightarrow> identity_resolver \<Rightarrow> identity_resolver" where
  "retire_event (TrackRetired i _ _) r = forget_track i r"
| "retire_event _ r = r"

text \<open>Collecting the observations into a map by track.\<close>

definition observation_map :: "tracked_detection list \<Rightarrow> (nat, embedding option) btree" where
  "observation_map obs = fold (\<lambda>o'. bt_insert (td_track_id o') (td_embedding o')) obs []"

definition identify_track ::
  "(nat, embedding option) btree \<Rightarrow> track_snapshot \<Rightarrow> identity_resolver
     \<Rightarrow> (identity_error, identity_decision) result \<times> identity_resolver" where
  "identify_track observations t r =
     (if sn_phase t = PhaseVisible
      then observe_actor (sn_track_id t) (case bt_get observations (sn_track_id t) of None \<Rightarrow> None | Some e \<Rightarrow> e) (sn_encounter_id t) r
      else (case decision_for_phase (sn_track_id t) (sn_track_epoch t) (sn_phase t) (sn_encounter_id t) r of (d, r') \<Rightarrow> (Inr d, r')))"

fun identify_tracks ::
  "(nat, embedding option) btree \<Rightarrow> track_snapshot list \<Rightarrow> identity_resolver
     \<Rightarrow> (identity_error, actor_identity list) result \<times> identity_resolver" where
  "identify_tracks observations [] r = (Inr [], r)"
| "identify_tracks observations (t # ts) r =
     (case identify_track observations t r of
        (Inl e, r') \<Rightarrow> (Inl e, r')
      | (Inr d, r') \<Rightarrow>
          (case identify_tracks observations ts r' of
             (Inl e, r'') \<Rightarrow> (Inl e, r'')
           | (Inr as, r'') \<Rightarrow> (Inr (\<lparr>ai_track = t, ai_identity = d\<rparr> # as), r'')))"

definition process_frame ::
  "identity_env \<Rightarrow> frame_actors \<Rightarrow> identity_engine \<Rightarrow> (engine_error, frame_identity_update) result \<times> identity_engine" where
  "process_frame env f e =
     (case update_tracker env (en_tracker e) f of
        (Inl err, a) \<Rightarrow> (Inl (EngineTracker err), e\<lparr>en_tracker := a\<rparr>)
      | (Inr up, a) \<Rightarrow>
          (let r0 = fold retire_event (tu_events up) (en_resolver e) in
           case identify_tracks (observation_map (tu_observations up)) (tu_tracks up) r0 of
             (Inl err, r) \<Rightarrow> (Inl (EngineIdentity err), \<lparr>en_tracker = a, en_resolver = r\<rparr>)
           | (Inr actors, r) \<Rightarrow>
               (Inr \<lparr>fi_frame_index = tu_frame_index up, fi_actors = actors, fi_track_events = tu_events up,
                     fi_selected_track_id = tu_selected_track_id up\<rparr>, \<lparr>en_tracker = a, en_resolver = r\<rparr>)))"

end
