(* ===== verification/Qualified_Identity.thy ===== *)
theory Qualified_Identity
  imports Identity_Engine
begin

text \<open>
  Qualified galleries and trusted capture evidence, \<open>crates/identity-engine/src/qualified.rs\<close>: the pinned qualification, the
  import of reference tensors with their provenance, and the adapter that admits captured frames to the engine.
\<close>

definition QUALIFIED_IDENTITY_SCHEMA_VERSION :: nat where
  "QUALIFIED_IDENTITY_SCHEMA_VERSION = 1"

definition MAX_REFERENCE_DIMENSIONS :: nat where
  "MAX_REFERENCE_DIMENSIONS = 65536"

definition MAX_FRAME_OBSERVATIONS :: nat where
  "MAX_FRAME_OBSERVATIONS = 128"

datatype reference_source_class = UserPrivate | OriginalSynthetic

datatype portable_tensor_transport = F32Le

datatype qualified_identity_error =
    InvalidQualification | InvalidGallerySchema | InvalidGameScope | InvalidReferenceProvenance | InvalidPortableTensor
  | SourceDigestMismatch | DuplicateReference | SubjectDisplayNameMismatch | MissingReferenceProvenance | ModelNotPinned
  | InvalidCaptureTarget | UntrustedCaptureEvidence | CaptureGenerationChanged | UnqualifiedObservation
  | QualifiedEmbedding embedding_error | QualifiedIdentity identity_error | QualifiedGeometry geometry_error
  | QualifiedEngine engine_error

definition valid_identifier :: "rstr \<Rightarrow> bool" where
  "valid_identifier v \<longleftrightarrow> v \<noteq> [] \<and> blen v \<le> 256 \<and> list_all identifier_byte v"

definition lower_hex_digit :: "uchar \<Rightarrow> bool" where
  "lower_hex_digit c \<longleftrightarrow> is_ascii_digit c \<or> 97 \<le> c \<and> c \<le> 102"

definition valid_sha256 :: "rstr \<Rightarrow> bool" where
  "valid_sha256 v \<longleftrightarrow> blen v = 64 \<and> list_all lower_hex_digit v"

definition sha256_hex :: "identity_env \<Rightarrow> octet list \<Rightarrow> rstr" where
  "sha256_hex env bytes = concat (map hex_byte (iv_sha256 env bytes))"

section \<open>Qualification and provenance\<close>

record pinned_qualification =
  pq_qualification_id :: rstr
  pq_model :: embedding_model
  pq_detector_id :: rstr
  pq_detector_revision :: rstr
  pq_preprocessing :: rstr
  pq_calibration_fixture_sha256 :: rstr
  pq_calibrated_config :: identity_config

definition validate_qualification :: "pinned_qualification \<Rightarrow> (qualified_identity_error, unit) result" where
  "validate_qualification q =
     bind_result (map_err QualifiedEmbedding (validate_model (pq_model q))) (\<lambda>_.
     bind_result (map_err QualifiedIdentity (validate_identity_config (pq_calibrated_config q))) (\<lambda>_.
       if \<not> valid_identifier (pq_qualification_id q) \<or> is_blank (pq_detector_id q) \<or> is_blank (pq_detector_revision q)
          \<or> is_blank (pq_preprocessing q) \<or> \<not> valid_sha256 (pq_calibration_fixture_sha256 q)
       then Inl InvalidQualification else Inr ()))"

record reference_provenance =
  rp_game_profile_id :: rstr
  rp_subject_id :: rstr
  rp_reference_id :: rstr
  rp_source_class :: reference_source_class
  rp_source_content_sha256 :: rstr
  rp_owner_user_id :: "rstr option"
  rp_original_work_license :: "rstr option"
  rp_explicit_user_consent :: bool
  rp_local_only :: bool
  rp_imported_at_ms :: nat

definition validate_provenance :: "rstr \<Rightarrow> reference_provenance \<Rightarrow> (qualified_identity_error, unit) result" where
  "validate_provenance game p =
     (if rp_game_profile_id p \<noteq> game \<or> \<not> valid_identifier (rp_game_profile_id p) \<or> \<not> valid_identifier (rp_subject_id p)
         \<or> \<not> valid_identifier (rp_reference_id p) \<or> \<not> valid_sha256 (rp_source_content_sha256 p)
      then Inl InvalidReferenceProvenance
      else (case rp_source_class p of
              UserPrivate \<Rightarrow>
                if \<not> rp_explicit_user_consent p \<or> \<not> rp_local_only p
                   \<or> (case rp_owner_user_id p of None \<Rightarrow> True | Some owner \<Rightarrow> \<not> valid_identifier owner)
                   \<or> rp_original_work_license p \<noteq> None
                then Inl InvalidReferenceProvenance else Inr ()
            | OriginalSynthetic \<Rightarrow>
                if \<not> rp_local_only p \<or> rp_owner_user_id p \<noteq> None
                   \<or> (case rp_original_work_license p of None \<Rightarrow> True | Some license \<Rightarrow> is_blank license)
                then Inl InvalidReferenceProvenance else Inr ()))"

section \<open>The qualified gallery\<close>

record portable_reference_import =
  pi_schema_version :: nat
  pi_provenance :: reference_provenance
  pi_subject_display_name :: rstr
  pi_model :: embedding_model
  pi_metadata :: embedding_metadata
  pi_transport :: portable_tensor_transport
  pi_tensor_sha256 :: rstr
  pi_tensor_f32le :: "octet list"

record qualified_gallery =
  qg_schema_version :: nat
  qg_game_profile_id :: rstr
  qg_qualification :: pinned_qualification
  qg_gallery :: identity_gallery
  qg_reference_provenance :: "(rstr, reference_provenance) btree"

definition new_qualified_gallery :: "rstr \<Rightarrow> pinned_qualification \<Rightarrow> (qualified_identity_error, qualified_gallery) result" where
  "new_qualified_gallery game q =
     (if \<not> valid_identifier game then Inl InvalidGameScope
      else
        bind_result (validate_qualification q) (\<lambda>_.
        bind_result (map_err QualifiedIdentity (new_gallery (pq_model q))) (\<lambda>g.
          Inr \<lparr>qg_schema_version = QUALIFIED_IDENTITY_SCHEMA_VERSION, qg_game_profile_id = game, qg_qualification = q,
               qg_gallery = g, qg_reference_provenance = []\<rparr>)))"

text \<open>The references of all subjects in the order of the loops, each with the subject that holds it.\<close>

definition gallery_references :: "identity_gallery \<Rightarrow> (rstr \<times> identity_reference) list" where
  "gallery_references g = concat (map (\<lambda>(_, s). map (Pair (sj_subject_id s)) (sj_references s)) (ga_subjects g))"

fun check_provenances ::
  "rstr \<Rightarrow> (rstr, reference_provenance) btree \<Rightarrow> (rstr \<times> identity_reference) list \<Rightarrow> (qualified_identity_error, unit) result" where
  "check_provenances game m [] = Inr ()"
| "check_provenances game m ((subject, r) # rs) =
     (case bt_get m (rf_reference_id r) of
        None \<Rightarrow> Inl MissingReferenceProvenance
      | Some p \<Rightarrow>
          bind_result (validate_provenance game p) (\<lambda>_.
            if rp_subject_id p \<noteq> subject then Inl InvalidReferenceProvenance else check_provenances game m rs))"

definition validate_qualified_gallery :: "qualified_gallery \<Rightarrow> (qualified_identity_error, unit) result" where
  "validate_qualified_gallery g =
     (if qg_schema_version g \<noteq> QUALIFIED_IDENTITY_SCHEMA_VERSION \<or> \<not> valid_identifier (qg_game_profile_id g)
      then Inl InvalidGallerySchema
      else
        bind_result (validate_qualification (qg_qualification g)) (\<lambda>_.
        bind_result (map_err QualifiedIdentity (validate_gallery (qg_gallery g))) (\<lambda>_.
          if ga_model (qg_gallery g) \<noteq> pq_model (qg_qualification g) then Inl ModelNotPinned
          else
            (let references = gallery_references (qg_gallery g);
                 ids = remdups (map (\<lambda>e. rf_reference_id (snd e)) references)
             in bind_result (check_provenances (qg_game_profile_id g) (qg_reference_provenance g) references) (\<lambda>_.
                  if length ids \<noteq> length (qg_reference_provenance g)
                     \<or> list_ex (\<lambda>e. fst e \<notin> set ids) (qg_reference_provenance g)
                  then Inl MissingReferenceProvenance else Inr ())))))"

subsection \<open>Decoding a tensor\<close>

text \<open>\<open>f32::from_le_bytes\<close>: sign, eight bits of exponent, 23 bits of fraction.\<close>

definition f32_from_bits :: "nat \<Rightarrow> f32" where
  "f32_from_bits n =
     (let sign = odd (n div 2 ^ 31); exponent = n div 2 ^ 23 mod 256; fraction = n mod 2 ^ 23 in
      if exponent = 255 then (if fraction = 0 then F_Inf sign else F_NaN)
      else if exponent = 0 then F_Num sign (of_nat fraction * pow2 (- 149))
      else F_Num sign (of_nat (2 ^ 23 + fraction) * pow2 (int exponent - 150)))"

definition f32_from_le_bytes :: "octet \<Rightarrow> octet \<Rightarrow> octet \<Rightarrow> octet \<Rightarrow> f32" where
  "f32_from_le_bytes a b c d = f32_from_bits (unat a + 256 * unat b + 65536 * unat c + 16777216 * unat d)"

fun tensor_values :: "octet list \<Rightarrow> f32 list" where
  "tensor_values (a # b # c # d # rest) = f32_from_le_bytes a b c d # tensor_values rest"
| "tensor_values _ = []"

subsection \<open>Importing a reference\<close>

definition import_admissible :: "identity_env \<Rightarrow> qualified_gallery \<Rightarrow> portable_reference_import \<Rightarrow> bool" where
  "import_admissible env g i \<longleftrightarrow>
     \<not> (pi_schema_version i \<noteq> QUALIFIED_IDENTITY_SCHEMA_VERSION
        \<or> pi_model i \<noteq> pq_model (qg_qualification g)
        \<or> mt_detector_id (pi_metadata i) \<noteq> pq_detector_id (qg_qualification g)
        \<or> mt_detector_revision (pi_metadata i) \<noteq> pq_detector_revision (qg_qualification g)
        \<or> mt_preprocessing (pi_metadata i) \<noteq> pq_preprocessing (qg_qualification g)
        \<or> \<not> valid_sha256 (pi_tensor_sha256 i)
        \<or> sha256_hex env (pi_tensor_f32le i) \<noteq> pi_tensor_sha256 i
        \<or> length (pi_tensor_f32le i) \<noteq> min u64_max (md_dimensions (pi_model i) * 4)
        \<or> md_dimensions (pi_model i) > MAX_REFERENCE_DIMENSIONS
        \<or> is_blank (pi_subject_display_name i) \<or> blen (pi_subject_display_name i) > 256)"

definition source_class_name :: "reference_source_class \<Rightarrow> rstr" where
  "source_class_name c = (case c of UserPrivate \<Rightarrow> lit ''user_private'' | OriginalSynthetic \<Rightarrow> lit ''original_synthetic'')"

definition imported_reference :: "qualified_gallery \<Rightarrow> portable_reference_import \<Rightarrow> embedding \<Rightarrow> identity_reference" where
  "imported_reference g i e = \<lparr>rf_reference_id = rp_reference_id (pi_provenance i),
     rf_provenance = lit ''qualified:'' @ pq_qualification_id (qg_qualification g) @ lit '':'' @ source_class_name (rp_source_class (pi_provenance i)),
     rf_embedding = e\<rparr>"

definition put_subject :: "subject_identity \<Rightarrow> portable_reference_import \<Rightarrow> qualified_gallery \<Rightarrow> qualified_gallery" where
  "put_subject s i g = g\<lparr>qg_gallery := (qg_gallery g)\<lparr>ga_subjects := bt_insert (rp_subject_id (pi_provenance i)) s (ga_subjects (qg_gallery g))\<rparr>,
     qg_reference_provenance := bt_insert (rp_reference_id (pi_provenance i)) (pi_provenance i) (qg_reference_provenance g)\<rparr>"

text \<open>The subject after the import: a new one, or the present one with the reference appended.\<close>

definition merged_subject ::
  "qualified_gallery \<Rightarrow> portable_reference_import \<Rightarrow> identity_reference \<Rightarrow> (qualified_identity_error, subject_identity) result" where
  "merged_subject g i r =
     (case bt_get (ga_subjects (qg_gallery g)) (rp_subject_id (pi_provenance i)) of
        None \<Rightarrow> Inr \<lparr>sj_subject_id = rp_subject_id (pi_provenance i), sj_display_name = pi_subject_display_name i, sj_references = [r]\<rparr>
      | Some s \<Rightarrow>
          if sj_display_name s \<noteq> pi_subject_display_name i then Inl SubjectDisplayNameMismatch
          else Inr (s\<lparr>sj_references := sj_references s @ [r]\<rparr>))"

definition prepare_import :: "identity_env \<Rightarrow> portable_reference_import \<Rightarrow> qualified_gallery \<Rightarrow> (qualified_identity_error, subject_identity) result" where
  "prepare_import env i g =
     bind_result (validate_qualified_gallery g) (\<lambda>_.
       if \<not> import_admissible env g i then Inl InvalidPortableTensor
       else
         bind_result (validate_provenance (qg_game_profile_id g) (pi_provenance i)) (\<lambda>_.
           if mt_source_digest_sha256 (pi_metadata i) \<noteq> Some (rp_source_content_sha256 (pi_provenance i)) then Inl SourceDigestMismatch
           else if bt_get (qg_reference_provenance g) (rp_reference_id (pi_provenance i)) \<noteq> None then Inl DuplicateReference
           else
             bind_result (map_err QualifiedEmbedding (new_embedding (pi_model i) (pi_metadata i) (tensor_values (pi_tensor_f32le i)))) (\<lambda>e.
               merged_subject g i (imported_reference g i e))))"

definition import_reference ::
  "identity_env \<Rightarrow> portable_reference_import \<Rightarrow> qualified_gallery \<Rightarrow> (qualified_identity_error, unit) result \<times> qualified_gallery" where
  "import_reference env i g =
     (case prepare_import env i g of
        Inl err \<Rightarrow> (Inl err, g)
      | Inr s \<Rightarrow> (let g' = put_subject s i g in (validate_qualified_gallery g', g')))"

definition into_engine :: "actor_tracker \<Rightarrow> qualified_gallery \<Rightarrow> (qualified_identity_error, identity_engine) result" where
  "into_engine a g =
     bind_result (validate_qualified_gallery g) (\<lambda>_.
     bind_result (map_err QualifiedIdentity (new_resolver (pq_calibrated_config (qg_qualification g)) (qg_gallery g))) (\<lambda>r.
       Inr (new_engine a r)))"

section \<open>Trusted capture evidence\<close>

record trusted_capture_target =
  ct_capture_session_id :: rstr
  ct_process_id :: nat
  ct_window_handle :: nat
  ct_executable_name :: rstr

definition ends_with :: "rstr \<Rightarrow> rstr \<Rightarrow> bool" where
  "ends_with s suffix \<longleftrightarrow> length suffix \<le> length s \<and> drop (length s - length suffix) s = suffix"

definition validate_target :: "trusted_capture_target \<Rightarrow> (qualified_identity_error, unit) result" where
  "validate_target t =
     (if \<not> valid_identifier (ct_capture_session_id t) \<or> ct_process_id t = 0 \<or> ct_window_handle t = 0
         \<or> \<not> ends_with (to_ascii_lowercase (ct_executable_name t)) (lit ''.exe'')
         \<or> list_ex (\<lambda>c. c \<in> {47, 92, 58}) (ct_executable_name t)
      then Inl InvalidCaptureTarget else Inr ())"

record trusted_frame =
  tf_schema_version :: nat
  tf_target :: trusted_capture_target
  tf_frame_sequence :: nat
  tf_device_generation :: nat
  tf_geometry_epoch :: nat
  tf_source_frame_qpc :: nat
  tf_qpc_frequency :: nat
  tf_captured_at_ms :: nat
  tf_content_sha256 :: rstr
  tf_advancing_frame_verified :: bool
  tf_overlay_capture_excluded :: bool
  tf_protected_online_detected :: bool
  tf_anti_cheat_detected :: bool
  tf_observations :: "actor_detection list"

record evidence_adapter =
  ea_expected_target :: trusted_capture_target
  ea_qualification :: pinned_qualification
  ea_last_frame_sequence :: "nat option"
  ea_last_source_frame_qpc :: "nat option"
  ea_device_generation :: "nat option"
  ea_geometry_epoch :: "nat option"

definition new_evidence_adapter :: "trusted_capture_target \<Rightarrow> pinned_qualification \<Rightarrow> (qualified_identity_error, evidence_adapter) result" where
  "new_evidence_adapter t q =
     bind_result (validate_target t) (\<lambda>_.
     bind_result (validate_qualification q) (\<lambda>_.
       Inr \<lparr>ea_expected_target = t, ea_qualification = q, ea_last_frame_sequence = None, ea_last_source_frame_qpc = None,
            ea_device_generation = None, ea_geometry_epoch = None\<rparr>))"

definition is_some_and :: "'a option \<Rightarrow> ('a \<Rightarrow> bool) \<Rightarrow> bool" where
  "is_some_and v p = (case v of None \<Rightarrow> False | Some x \<Rightarrow> p x)"

definition untrusted_frame :: "evidence_adapter \<Rightarrow> trusted_frame \<Rightarrow> bool" where
  "untrusted_frame a f \<longleftrightarrow>
     tf_schema_version f \<noteq> QUALIFIED_IDENTITY_SCHEMA_VERSION
     \<or> tf_target f \<noteq> ea_expected_target a
     \<or> tf_frame_sequence f = 0 \<or> tf_device_generation f = 0 \<or> tf_geometry_epoch f = 0 \<or> tf_source_frame_qpc f = 0 \<or> tf_qpc_frequency f = 0
     \<or> \<not> valid_sha256 (tf_content_sha256 f)
     \<or> \<not> tf_advancing_frame_verified f \<or> \<not> tf_overlay_capture_excluded f \<or> tf_protected_online_detected f \<or> tf_anti_cheat_detected f
     \<or> length (tf_observations f) > MAX_FRAME_OBSERVATIONS
     \<or> is_some_and (ea_last_frame_sequence a) (\<lambda>l. tf_frame_sequence f \<le> l)
     \<or> is_some_and (ea_last_source_frame_qpc a) (\<lambda>l. tf_source_frame_qpc f \<le> l)"

definition check_observation :: "pinned_qualification \<Rightarrow> trusted_frame \<Rightarrow> actor_detection \<Rightarrow> (qualified_identity_error, unit) result" where
  "check_observation q f d =
     bind_result (map_err QualifiedGeometry (validate_box (dt_bounds d))) (\<lambda>_.
       if \<not> unit_interval (dt_confidence d) \<or> is_some_and (dt_embedding d) (\<lambda>e. eb_model e \<noteq> pq_model q) then Inl UnqualifiedObservation
       else (case dt_embedding d of
               None \<Rightarrow> Inr ()
             | Some e \<Rightarrow>
                 bind_result (map_err QualifiedEmbedding (validate_embedding e)) (\<lambda>_.
                   if mt_source_frame_index (eb_metadata e) \<noteq> tf_frame_sequence f
                      \<or> mt_detector_id (eb_metadata e) \<noteq> pq_detector_id q
                      \<or> mt_detector_revision (eb_metadata e) \<noteq> pq_detector_revision q
                      \<or> mt_preprocessing (eb_metadata e) \<noteq> pq_preprocessing q
                      \<or> mt_source_digest_sha256 (eb_metadata e) \<noteq> Some (tf_content_sha256 f)
                   then Inl UnqualifiedObservation else Inr ())))"

fun check_observations :: "pinned_qualification \<Rightarrow> trusted_frame \<Rightarrow> actor_detection list \<Rightarrow> (qualified_identity_error, unit) result" where
  "check_observations q f [] = Inr ()"
| "check_observations q f (d # ds) = bind_result (check_observation q f d) (\<lambda>_. check_observations q f ds)"

definition check_frame :: "evidence_adapter \<Rightarrow> trusted_frame \<Rightarrow> (qualified_identity_error, unit) result" where
  "check_frame a f =
     bind_result (validate_target (tf_target f)) (\<lambda>_.
       if untrusted_frame a f then Inl UntrustedCaptureEvidence
       else if is_some_and (ea_device_generation a) (\<lambda>g. g \<noteq> tf_device_generation f \<and> is_some_and (ea_last_frame_sequence a) (\<lambda>s. s \<noteq> 0))
       then Inl CaptureGenerationChanged
       else if is_some_and (ea_geometry_epoch a) (\<lambda>e. tf_geometry_epoch f < e) then Inl UntrustedCaptureEvidence
       else check_observations (ea_qualification a) f (tf_observations f))"

definition adapt :: "trusted_frame \<Rightarrow> evidence_adapter \<Rightarrow> (qualified_identity_error, frame_actors) result \<times> evidence_adapter" where
  "adapt f a =
     (case check_frame a f of
        Inl err \<Rightarrow> (Inl err, a)
      | Inr _ \<Rightarrow>
          (Inr \<lparr>fa_frame_index = tf_frame_sequence f, fa_timestamp_ms = tf_captured_at_ms f, fa_detections = tf_observations f\<rparr>,
           a\<lparr>ea_last_frame_sequence := Some (tf_frame_sequence f), ea_last_source_frame_qpc := Some (tf_source_frame_qpc f),
             ea_device_generation := Some (tf_device_generation f), ea_geometry_epoch := Some (tf_geometry_epoch f)\<rparr>))"

definition process_evidence ::
  "identity_env \<Rightarrow> trusted_frame \<Rightarrow> evidence_adapter \<Rightarrow> identity_engine
     \<Rightarrow> (qualified_identity_error, frame_identity_update) result \<times> evidence_adapter \<times> identity_engine" where
  "process_evidence env f a e =
     (case adapt f a of
        (Inl err, a') \<Rightarrow> (Inl err, a', e)
      | (Inr frame, a') \<Rightarrow> (case process_frame env frame e of (res, e') \<Rightarrow> (map_err QualifiedEngine res, a', e')))"

end
