(* ===== verification/Engine_Properties.thy ===== *)
theory Engine_Properties
  imports Identity_Engine
begin

text \<open>
  The engine as a whole: what a tracker update hands over to the resolver, an invariant that ties the records of the resolver to
  the live tracks, and the outcome of a frame.
\<close>

section \<open>What the tracker hands over\<close>

lemma try_each_inv_on:
  assumes "\<And>x s. x \<in> set xs \<Longrightarrow> I s \<Longrightarrow> I (snd (body x s))"
  shows "I s \<Longrightarrow> I (snd (try_each body xs s))"
  using assms
proof (induction xs arbitrary: s)
  case (Cons x xs)
  from Cons.prems(2) [of x s] Cons.prems(1) have "I (snd (body x s))" by simp
  with Cons.IH [of "snd (body x s)"] Cons.prems(2) show ?case by (auto split: prod.splits sum.splits)
qed simp

fun is_retired :: "track_event \<Rightarrow> bool" where
  "is_retired (TrackRetired _ _ _) = True"
| "is_retired _ = False"

fun retired_track :: "track_event \<Rightarrow> nat option" where
  "retired_track (TrackRetired i _ _) = Some i"
| "retired_track _ = None"

definition encounter_of :: "actor_tracker \<Rightarrow> nat \<Rightarrow> rstr option" where
  "encounter_of a i = map_option tr_encounter_id (bt_get (ar_tracks a) i)"

lemma encounter_of_None [simp]: "encounter_of a i = None \<longleftrightarrow> bt_get (ar_tracks a) i = None"
  by (simp add: encounter_of_def)

text \<open>Before anything is retired, every track of the start is there with its encounter, and observations come from the frame.\<close>

definition flow :: "actor_tracker \<Rightarrow> frame_actors \<Rightarrow> update_state \<Rightarrow> bool" where
  "flow a f u \<longleftrightarrow> ar_next_track_id a \<le> ar_next_track_id (us_tracker u)
     \<and> (\<forall>i. bt_get (ar_tracks a) i \<noteq> None \<longrightarrow> encounter_of (us_tracker u) i = encounter_of a i)
     \<and> (\<forall>x\<in>set (us_observations u). td_embedding x \<in> dt_embedding ` set (fa_detections f))
     \<and> (\<forall>v\<in>set (us_events u). retired_track v = None)"

lemma encounter_of_put: "encounter_of (put_track i t b) j = (if j = i then Some (tr_encounter_id t) else encounter_of b j)"
  by (simp add: encounter_of_def)

lemma encounter_of_next [simp]: "encounter_of (a\<lparr>ar_next_track_id := n\<rparr>) = encounter_of a"
  by (simp add: encounter_of_def fun_eq_iff)

lemma encounter_of_Some: "bt_get (ar_tracks b) i = Some t \<Longrightarrow> encounter_of b i = Some (tr_encounter_id t)"
  by (simp add: encounter_of_def)

lemma flow_apply: "snd p < length (fa_detections f) \<Longrightarrow> flow a f u \<Longrightarrow> flow a f (snd (apply_assignment f p u))"
  by (auto simp: flow_def apply_assignment_def Let_def encounter_of_put encounter_of_Some
      split: option.splits sum.splits if_splits prod.splits)

lemma flow_miss: "flow a f u \<Longrightarrow> flow a f (snd (miss_track f as i u))"
  by (auto simp: flow_def miss_track_def Let_def encounter_of_put encounter_of_Some split: option.splits sum.splits if_splits)

lemma flow_create:
  assumes "k < length (fa_detections f)" and "tracker_inv a" and "flow a f u"
  shows "flow a f (snd (create_track env f k u))"
proof -
  have "bt_get (ar_tracks a) (ar_next_track_id (us_tracker u)) = None" using assms tracker_inv_below [of a] by (simp add: flow_def)
  then show ?thesis using assms by (auto simp: flow_def create_track_def Let_def encounter_of_put split: if_splits)
qed

text \<open>Retiring keeps the other tracks and announces the ones it removes.\<close>

lemma retire_track_events: "us_events (retire_track i u) =
   us_events u @ (case bt_get (ar_tracks (us_tracker u)) i of None \<Rightarrow> []
     | Some t \<Rightarrow> TrackRetired i (tr_track_epoch t) (tr_encounter_id t) # (if ar_selected_track_id (us_tracker u) = Some i then [SelectionCleared i] else []))"
  by (simp add: retire_track_def Let_def split: option.splits)

lemma fold_retire_events:
  "v \<in> set (us_events (fold retire_track is u)) \<Longrightarrow> retired_track v = Some i \<Longrightarrow> v \<in> set (us_events u) \<or> i \<in> set is"
  "i \<in> set is \<Longrightarrow> bt_get (ar_tracks (us_tracker u)) i \<noteq> None \<Longrightarrow> Some i \<in> retired_track ` set (us_events (fold retire_track is u))"
  "set (us_events u) \<subseteq> set (us_events (fold retire_track is u))"
proof (induction "is" arbitrary: u)
  case (Cons j "is")
  have ev: "set (us_events (retire_track j u)) = set (us_events u) \<union> (case bt_get (ar_tracks (us_tracker u)) j of None \<Rightarrow> {}
      | Some t \<Rightarrow> insert (TrackRetired j (tr_track_epoch t) (tr_encounter_id t)) (if ar_selected_track_id (us_tracker u) = Some j then {SelectionCleared j} else {}))" for u
    by (auto simp: retire_track_events split: option.splits)
  {
    case 1
    have "v \<in> set (us_events (retire_track j u)) \<Longrightarrow> v \<in> set (us_events u) \<or> i = j"
      using 1(2) unfolding ev by (auto split: option.splits if_splits)
    then show ?case using Cons.IH(1) [of "retire_track j u"] 1 by auto
  next
    case 2
    show ?case
    proof (cases "i = j")
      case True
      then obtain t where t: "bt_get (ar_tracks (us_tracker u)) j = Some t" using 2 by auto
      have "TrackRetired i (tr_track_epoch t) (tr_encounter_id t) \<in> set (us_events (retire_track j u))"
        using t True unfolding ev by simp
      then have "TrackRetired i (tr_track_epoch t) (tr_encounter_id t) \<in> set (us_events (fold retire_track (j # is) u))"
        using Cons.IH(3) [of "retire_track j u"] by auto
      then show ?thesis by (force simp: image_iff)
    next
      case False
      then have "bt_get (ar_tracks (us_tracker (retire_track j u))) i \<noteq> None" using 2 retire_loop(1) [of "[j]" u i] by simp
      then show ?thesis using Cons.IH(2) [of "retire_track j u"] 2 False by simp
    qed
  next
    case 3
    show ?case using Cons.IH(3) [of "retire_track j u"] ev by auto
  }
qed simp_all

lemma update_tracker_flow:
  assumes inv: "tracker_inv a" and up: "update_tracker env a f = (res, a')"
  shows "res = Inl err \<Longrightarrow> (\<exists>u. flow a f u \<and> a' = us_tracker u)"
    and "res = Inr x \<Longrightarrow> (\<exists>u. flow a f u
       \<and> a' = us_tracker (fold retire_track (us_retire u) u)\<lparr>ar_last_frame_index := Some (fa_frame_index f), ar_last_timestamp_ms := Some (fa_timestamp_ms f)\<rparr>
       \<and> tu_events x = us_events (fold retire_track (us_retire u) u) \<and> tu_tracks x = tracker_snapshot a'
       \<and> tu_frame_index x = fa_frame_index f \<and> tu_selected_track_id x = ar_selected_track_id a'
       \<and> set (tu_observations x) = set (us_observations u))"
proof -
  let ?ps = "assignments env a f"
  define s1 where "s1 = try_each (apply_assignment f) ?ps (initial_update a)"
  define s2 where "s2 = try_each (miss_track f (map fst ?ps)) (map fst (ar_tracks (us_tracker (snd s1)))) (snd s1)"
  define s3 where "s3 = try_each (create_track env f) (filter (\<lambda>k. k \<notin> set (map snd ?ps)) (eligible_detections a f)) (snd s2)"
  have 0: "flow a f (initial_update a)" by (simp add: flow_def initial_update_def)
  have 1: "flow a f (snd s1)" unfolding s1_def
    by (rule try_each_inv_on [OF flow_apply 0]) (use assignments_sound in \<open>force simp: eligible_detections_def\<close>)
  have 2: "flow a f (snd s2)" unfolding s2_def by (rule try_each_inv_on [OF flow_miss 1])
  have 3: "flow a f (snd s3)" unfolding s3_def by (rule try_each_inv_on [OF flow_create [OF _ inv] 2]) (simp add: eligible_detections_def)
  have cases: "(\<exists>e. res = Inl e \<and> a' \<in> {us_tracker (initial_update a), us_tracker (snd s1), us_tracker (snd s2), us_tracker (snd s3)})
      \<or> (\<exists>x. res = Inr x \<and> a' = us_tracker (fold retire_track (us_retire (snd s3)) (snd s3))\<lparr>ar_last_frame_index := Some (fa_frame_index f),
            ar_last_timestamp_ms := Some (fa_timestamp_ms f)\<rparr>
         \<and> tu_events x = us_events (fold retire_track (us_retire (snd s3)) (snd s3)) \<and> tu_tracks x = tracker_snapshot a'
         \<and> tu_frame_index x = fa_frame_index f \<and> tu_selected_track_id x = ar_selected_track_id a'
         \<and> set (tu_observations x) = set (us_observations (snd s3)))"
    using up unfolding update_tracker_def Let_def s1_def s2_def s3_def initial_update_def
    by (auto simp: update_result_def retire_loop(4) split: sum.splits prod.splits)
  show "res = Inl err \<Longrightarrow> (\<exists>u. flow a f u \<and> a' = us_tracker u)" using cases 0 1 2 3 by auto
  show "res = Inr x \<Longrightarrow> (\<exists>u. flow a f u
       \<and> a' = us_tracker (fold retire_track (us_retire u) u)\<lparr>ar_last_frame_index := Some (fa_frame_index f), ar_last_timestamp_ms := Some (fa_timestamp_ms f)\<rparr>
       \<and> tu_events x = us_events (fold retire_track (us_retire u) u) \<and> tu_tracks x = tracker_snapshot a'
       \<and> tu_frame_index x = fa_frame_index f \<and> tu_selected_track_id x = ar_selected_track_id a'
       \<and> set (tu_observations x) = set (us_observations u))"
    using cases 3 by blast
qed

lemma update_tracker_hands_over:
  assumes inv: "tracker_inv a" and up: "update_tracker env a f = (Inr x, a')"
  shows "bt_get (ar_tracks a) i \<noteq> None \<Longrightarrow>
      encounter_of a' i = encounter_of a i \<or> bt_get (ar_tracks a') i = None \<and> Some i \<in> retired_track ` set (tu_events x)"
    and "v \<in> set (tu_events x) \<Longrightarrow> retired_track v = Some i \<Longrightarrow> bt_get (ar_tracks a') i = None"
    and "y \<in> set (tu_observations x) \<Longrightarrow> td_embedding y \<in> dt_embedding ` set (fa_detections f)"
    and "tu_tracks x = tracker_snapshot a'" "tu_frame_index x = fa_frame_index f" "tu_selected_track_id x = ar_selected_track_id a'"
proof -
  obtain u where u: "flow a f u"
    "a' = us_tracker (fold retire_track (us_retire u) u)\<lparr>ar_last_frame_index := Some (fa_frame_index f), ar_last_timestamp_ms := Some (fa_timestamp_ms f)\<rparr>"
    "tu_events x = us_events (fold retire_track (us_retire u) u)" "tu_tracks x = tracker_snapshot a'"
    "tu_frame_index x = fa_frame_index f" "tu_selected_track_id x = ar_selected_track_id a'"
    "set (tu_observations x) = set (us_observations u)"
    using update_tracker_flow(2) [OF inv up refl] by blast
  have get: "bt_get (ar_tracks a') i = (if i \<in> set (us_retire u) then None else bt_get (ar_tracks (us_tracker u)) i)" for i
    by (simp add: u(2) retire_loop)
  show "encounter_of a' i = encounter_of a i \<or> bt_get (ar_tracks a') i = None \<and> Some i \<in> retired_track ` set (tu_events x)"
    if i: "bt_get (ar_tracks a) i \<noteq> None"
  proof -
    have enc: "encounter_of (us_tracker u) i = encounter_of a i" using u(1) i unfolding flow_def by blast
    then have "bt_get (ar_tracks (us_tracker u)) i \<noteq> None" using i encounter_of_None by metis
    then show ?thesis using fold_retire_events(2) [of i "us_retire u" u] get [of i] enc by (auto simp: u(3) encounter_of_def)
  qed
  show "bt_get (ar_tracks a') i = None" if "v \<in> set (tu_events x)" "retired_track v = Some i" for v i
    using that u(1) fold_retire_events(1) [of v "us_retire u" u i] get [of i] by (auto simp: u(3) flow_def)
  show "td_embedding y \<in> dt_embedding ` set (fa_detections f)" if "y \<in> set (tu_observations x)" for y
    using u(1,7) that by (auto simp: flow_def)
qed (use update_tracker_flow(2) [OF inv up refl] in blast)+

section \<open>The invariant of the engine\<close>

text \<open>The resolver keeps records of live tracks only, and the decision it recorded last for a track names that track's encounter.\<close>

definition records_ok :: "actor_tracker \<Rightarrow> identity_resolver \<Rightarrow> bool" where
  "records_ok a r \<longleftrightarrow>
     (\<forall>i h. bt_get (rs_histories r) i = Some h \<longrightarrow> bt_get (ar_tracks a) i \<noteq> None
        \<and> (\<forall>d. hi_last_decision h = Some d \<longrightarrow> encounter_of a i = Some (decision_encounter_id d)))
     \<and> (\<forall>i s. bt_get (rs_explicit_assignments r) i = Some s \<longrightarrow> bt_get (ar_tracks a) i \<noteq> None)"

definition engine_inv :: "identity_engine \<Rightarrow> bool" where
  "engine_inv e \<longleftrightarrow> tracker_inv (en_tracker e) \<and> resolver_inv (en_resolver e) \<and> records_ok (en_tracker e) (en_resolver e)"

definition frame_typed :: "frame_actors \<Rightarrow> bool" where
  "frame_typed f \<longleftrightarrow> list_all (\<lambda>d. embedding_typed (dt_embedding d)) (fa_detections f)"

lemma records_ok_mono:
  assumes "records_ok a r" and "\<And>i. bt_get (ar_tracks a) i \<noteq> None \<Longrightarrow> encounter_of a' i = encounter_of a i"
  shows "records_ok a' r"
  using assms encounter_of_None unfolding records_ok_def by metis

lemma forget_track_records:
  "bt_get (rs_histories (forget_track i r)) j = (if j = i then None else bt_get (rs_histories r) j)"
  "bt_get (rs_explicit_assignments (forget_track i r)) j = (if j = i then None else bt_get (rs_explicit_assignments r) j)"
  by (simp_all add: forget_track_def)

lemma fold_retire_event:
  "bt_get (rs_histories (fold retire_event vs r)) i = (if Some i \<in> retired_track ` set vs then None else bt_get (rs_histories r) i)"
  "bt_get (rs_explicit_assignments (fold retire_event vs r)) i = (if Some i \<in> retired_track ` set vs then None else bt_get (rs_explicit_assignments r) i)"
  "resolver_inv r \<Longrightarrow> resolver_inv (fold retire_event vs r)"
  "rs_gallery (fold retire_event vs r) = rs_gallery r" "rs_config (fold retire_event vs r) = rs_config r"
proof (induction vs arbitrary: r)
  case (Cons v vs)
  have v: "retire_event v r = (case retired_track v of None \<Rightarrow> r | Some i \<Rightarrow> forget_track i r)" for r by (cases v) simp_all
  note IH = Cons.IH
  {
    case 1 show ?case using IH(1) [of "retire_event v r"] by (auto simp: v forget_track_records split: option.splits)
  next
    case 2 show ?case using IH(2) [of "retire_event v r"] by (auto simp: v forget_track_records split: option.splits)
  next
    case 3 then show ?case using IH(3) [of "retire_event v r"] by (auto simp: v forget_track_inv split: option.splits)
  next
    case 4 show ?case using IH(4) [of "retire_event v r"] by (simp add: v forget_track_def split: option.splits)
  next
    case 5 show ?case using IH(5) [of "retire_event v r"] by (simp add: v forget_track_def split: option.splits)
  }
qed simp_all

lemma retire_records:
  assumes "tracker_inv a" and "update_tracker env a f = (Inr x, a')" and "records_ok a r"
  shows "records_ok a' (fold retire_event (tu_events x) r)"
  unfolding records_ok_def
proof (intro conjI allI impI)
  let ?r = "fold retire_event (tu_events x) r"
  have live: "encounter_of a' i = encounter_of a i" if "Some i \<notin> retired_track ` set (tu_events x)" "bt_get (ar_tracks a) i \<noteq> None" for i
    using update_tracker_hands_over(1) [OF assms(1,2) that(2)] that(1) by blast
  fix i
  show "bt_get (ar_tracks a') i \<noteq> None" if h: "bt_get (rs_histories ?r) i = Some h" for h
    using assms(3) h live [of i] encounter_of_None [of a' i] encounter_of_None [of a i]
    unfolding records_ok_def fold_retire_event by (metis option.distinct(1))
  show "encounter_of a' i = Some (decision_encounter_id d)" if h: "bt_get (rs_histories ?r) i = Some h" "hi_last_decision h = Some d" for h d
    using assms(3) h live [of i] unfolding records_ok_def fold_retire_event by (metis option.distinct(1))
  show "bt_get (ar_tracks a') i \<noteq> None" if h: "bt_get (rs_explicit_assignments ?r) i = Some s" for s
    using assms(3) h live [of i] encounter_of_None [of a' i] encounter_of_None [of a i]
    unfolding records_ok_def fold_retire_event by (metis option.distinct(1))
qed

section \<open>Identifying one track\<close>

lemma put_history_records:
  assumes "records_ok a r" and "encounter_of a i = Some enc" and "\<forall>d. hi_last_decision h = Some d \<longrightarrow> decision_encounter_id d = enc"
  shows "records_ok a (put_history i h r)"
proof -
  have "bt_get (ar_tracks a) i \<noteq> None" using assms(2) encounter_of_None by (metis option.distinct(1))
  then show ?thesis using assms by (auto simp: records_ok_def)
qed

lemma history_encounter:
  assumes "records_ok a r" and "encounter_of a i = Some enc" and "hi_last_decision (history_of r i) = Some d"
  shows "decision_encounter_id d = enc"
  using assms by (auto simp: records_ok_def history_of_def default_history_def split: option.splits)

lemma observe_other: "observe_actor i e enc r = (res, r') \<Longrightarrow> j \<noteq> i \<Longrightarrow> history_of r' j = history_of r j"
  by (auto simp: observe_actor_def Let_def record_decision_def split: option.splits sum.splits prod.splits)

lemma observe_records:
  assumes inv: "resolver_inv r" and typed: "embedding_typed e" and o: "observe_actor i e enc r = (res, r')"
    and rec: "records_ok a r" and enc: "encounter_of a i = Some enc"
  shows "records_ok a r'" and "res = Inr d \<Longrightarrow> decision_encounter_id d = enc"
proof -
  have "records_ok a r' \<and> (\<forall>d. res = Inr d \<longrightarrow> decision_encounter_id d = enc)"
    using inv typed o
  proof (cases rule: observe_cases)
    case (assigned s)
    then show ?thesis using put_history_records [OF rec enc] by simp
  next
    case (rejected x err)
    then show ?thesis using rec by simp
  next
    case (repeated d)
    then show ?thesis using put_history_records [OF rec enc] history_encounter [OF rec enc] by simp
  next
    case (decided h d)
    obtain h' where "decide (rs_config r) h enc = (d, h')" "r' = put_history i (h'\<lparr>hi_last_decision := Some d\<rparr>) r"
      using decided(4) by (auto simp: record_decision_def split: prod.splits)
    then show ?thesis using put_history_records [OF rec enc] decide_shape [of "rs_config r" h enc d h'] decided(5) by simp
  qed
  then show "records_ok a r'" "res = Inr d \<Longrightarrow> decision_encounter_id d = enc" by simp_all
qed

text \<open>What a decision reported for a track guarantees with respect to the resolver after it.\<close>

definition decision_sound :: "identity_resolver \<Rightarrow> track_snapshot \<Rightarrow> identity_decision \<Rightarrow> bool" where
  "decision_sound r t d \<longleftrightarrow> decision_encounter_id d = sn_encounter_id t
     \<and> (\<forall>s. resolved_subject_id d = Some s \<longrightarrow> s \<in> subject_ids (rs_gallery r))
     \<and> (\<forall>s. bt_get (rs_explicit_assignments r) (sn_track_id t) = Some s \<longrightarrow> resolved_subject_id d = Some s)
     \<and> (\<forall>enc m. d = DecisionMatched enc m \<longrightarrow>
          sound_match (rs_config r) (rs_gallery r) (hi_score_frames (history_of r (sn_track_id t))) m)"

lemma observe_resolved:
  assumes inv: "resolver_inv r" and typed: "embedding_typed e" and o: "observe_actor i e enc r = (Inr d, r')"
    and s: "resolved_subject_id d = Some s"
  shows "s \<in> subject_ids (rs_gallery r)"
proof -
  have ok: "decision_ok (rs_config r) (rs_gallery r) h d \<Longrightarrow> s \<in> subject_ids (rs_gallery r)" for h
    using s by (cases d) (auto simp: sound_match_def window_facts_def)
  show ?thesis
    using inv typed o
  proof (cases rule: observe_cases)
    case (assigned t)
    then show ?thesis using resolver_invD(5) [OF inv, of i t] s by simp
  next
    case (repeated d')
    then show ?thesis using ok resolver_invD(4) [OF inv, of i] by (auto simp: history_ok_def)
  next
    case (decided h d')
    note R = record_decision_facts [OF inv decided(2,4)]
    show ?thesis using ok resolver_invD(4) [OF R(1), of i] R(2,3,6) decided(5) by (auto simp: history_ok_def)
  qed simp
qed

lemma observe_sound:
  assumes inv: "resolver_inv r" and typed: "embedding_typed e" and o: "observe_actor (sn_track_id t) e (sn_encounter_id t) r = (Inr d, r')"
    and rec: "records_ok a r" and enc: "encounter_of a (sn_track_id t) = Some (sn_encounter_id t)"
  shows "decision_sound r' t d"
proof -
  note keep = observe_inv [OF inv typed o]
  show ?thesis
    using observe_records(2) [OF inv typed o rec enc refl] observe_resolved [OF inv typed o] observe_match [OF inv typed, of _ _ _ _ r'] o
      observe_assigned [of r "sn_track_id t" _ e "sn_encounter_id t"] keep
    by (auto simp: decision_sound_def)
qed

definition observations_typed :: "(nat, embedding option) btree \<Rightarrow> bool" where
  "observations_typed m \<longleftrightarrow> (\<forall>i x. bt_get m i = Some x \<longrightarrow> embedding_typed x)"

definition observed_embedding :: "(nat, embedding option) btree \<Rightarrow> nat \<Rightarrow> embedding option" where
  "observed_embedding m i = (case bt_get m i of None \<Rightarrow> None | Some x \<Rightarrow> x)"

lemma observed_typed: "observations_typed m \<Longrightarrow> embedding_typed (observed_embedding m i)"
  by (auto simp: observations_typed_def observed_embedding_def embedding_typed_def split: option.splits)

lemma identify_track_observed: "sn_phase t = PhaseVisible \<Longrightarrow>
    identify_track m t r = observe_actor (sn_track_id t) (observed_embedding m (sn_track_id t)) (sn_encounter_id t) r"
  by (simp add: identify_track_def observed_embedding_def)

lemma identify_track_offscreen:
  assumes "sn_phase t \<noteq> PhaseVisible" and "identify_track m t r = (res, r')"
  shows "r' = r" and "\<exists>s. res = Inr (DecisionOffscreen (sn_encounter_id t) s (sn_track_epoch t))"
proof -
  have "sn_phase t = PhaseOffscreen" using assms(1) by (cases "sn_phase t") simp_all
  then show "r' = r" "\<exists>s. res = Inr (DecisionOffscreen (sn_encounter_id t) s (sn_track_epoch t))"
    using assms(2) by (auto simp: identify_track_def decision_for_phase_def)
qed

lemma offscreen_sound:
  assumes inv: "resolver_inv r" and "sn_phase t = PhaseOffscreen" and "identify_track m t r = (Inr d, r')"
  shows "decision_sound r t d"
proof -
  have "s \<in> subject_ids (rs_gallery r)" if "bt_get (rs_histories r) i = Some h" "hi_confirmed_subject_id h = Some s" for i h s
    using inv that by (auto simp: resolver_inv_def history_ok_def window_ok_def)
  then show ?thesis
    using assms resolver_invD(5) [OF inv, of "sn_track_id t"]
    by (auto simp: decision_sound_def identify_track_def decision_for_phase_def split: option.splits)
qed

section \<open>Identifying all tracks\<close>

lemma identify_track_ok:
  assumes inv: "resolver_inv r" and typed: "observations_typed m" and o: "identify_track m t r = (res, r')"
    and rec: "records_ok a r" and enc: "encounter_of a (sn_track_id t) = Some (sn_encounter_id t)"
  shows "resolver_inv r'" "records_ok a r'" "rs_config r' = rs_config r" "rs_gallery r' = rs_gallery r"
    and "rs_explicit_assignments r' = rs_explicit_assignments r"
    and "j \<noteq> sn_track_id t \<Longrightarrow> history_of r' j = history_of r j" and "res = Inr d \<Longrightarrow> decision_sound r' t d"
    and "(\<exists>err. res = Inl err) \<longleftrightarrow> sn_phase t = PhaseVisible \<and> bt_get (rs_explicit_assignments r) (sn_track_id t) = None
       \<and> (\<exists>x. observed_embedding m (sn_track_id t) = Some x \<and> \<not> (validate_embedding x = Inr () \<and> eb_model x = ga_model (rs_gallery r)))"
proof -
  have "resolver_inv r' \<and> records_ok a r' \<and> rs_config r' = rs_config r \<and> rs_gallery r' = rs_gallery r
      \<and> rs_explicit_assignments r' = rs_explicit_assignments r \<and> (j \<noteq> sn_track_id t \<longrightarrow> history_of r' j = history_of r j)
      \<and> (res = Inr d \<longrightarrow> decision_sound r' t d)
      \<and> ((\<exists>err. res = Inl err) \<longleftrightarrow> sn_phase t = PhaseVisible \<and> bt_get (rs_explicit_assignments r) (sn_track_id t) = None
       \<and> (\<exists>x. observed_embedding m (sn_track_id t) = Some x \<and> \<not> (validate_embedding x = Inr () \<and> eb_model x = ga_model (rs_gallery r))))"
  proof (cases "sn_phase t = PhaseVisible")
    case True
    note ob = o [unfolded identify_track_observed [OF True]] and ty = observed_typed [OF typed]
    show ?thesis
      using observe_inv [OF inv ty ob] observe_records(1) [OF inv ty ob rec enc] observe_other [OF ob] observe_error_iff [OF inv ty ob]
        observe_sound [OF inv ty _ rec enc] ob True by auto
  next
    case False
    then have "sn_phase t = PhaseOffscreen" by (cases "sn_phase t") simp_all
    then show ?thesis using identify_track_offscreen [OF False o] offscreen_sound [OF inv, of t m d r'] inv rec o by auto
  qed
  then show "resolver_inv r'" "records_ok a r'" "rs_config r' = rs_config r" "rs_gallery r' = rs_gallery r"
    "rs_explicit_assignments r' = rs_explicit_assignments r"
    "j \<noteq> sn_track_id t \<Longrightarrow> history_of r' j = history_of r j" "res = Inr d \<Longrightarrow> decision_sound r' t d"
    "(\<exists>err. res = Inl err) \<longleftrightarrow> sn_phase t = PhaseVisible \<and> bt_get (rs_explicit_assignments r) (sn_track_id t) = None
       \<and> (\<exists>x. observed_embedding m (sn_track_id t) = Some x \<and> \<not> (validate_embedding x = Inr () \<and> eb_model x = ga_model (rs_gallery r)))"
    by blast+
qed

lemma decision_sound_cong:
  assumes "decision_sound r t d" and "rs_config r' = rs_config r" "rs_gallery r' = rs_gallery r"
    and "rs_explicit_assignments r' = rs_explicit_assignments r" and "history_of r' (sn_track_id t) = history_of r (sn_track_id t)"
  shows "decision_sound r' t d"
  using assms by (simp add: decision_sound_def)

definition rejects :: "(nat, embedding option) btree \<Rightarrow> identity_resolver \<Rightarrow> track_snapshot \<Rightarrow> bool" where
  "rejects m r t \<longleftrightarrow> sn_phase t = PhaseVisible \<and> bt_get (rs_explicit_assignments r) (sn_track_id t) = None
     \<and> (\<exists>x. observed_embedding m (sn_track_id t) = Some x \<and> \<not> (validate_embedding x = Inr () \<and> eb_model x = ga_model (rs_gallery r)))"

lemma identify_tracks_ok:
  assumes "resolver_inv r" and "observations_typed m" and "identify_tracks m ts r = (res, r')" and "records_ok a r"
    and "\<forall>t\<in>set ts. encounter_of a (sn_track_id t) = Some (sn_encounter_id t)" and "distinct (map sn_track_id ts)"
  shows "resolver_inv r' \<and> records_ok a r' \<and> rs_config r' = rs_config r \<and> rs_gallery r' = rs_gallery r
     \<and> rs_explicit_assignments r' = rs_explicit_assignments r
     \<and> (\<forall>j. j \<notin> sn_track_id ` set ts \<longrightarrow> history_of r' j = history_of r j)
     \<and> (\<forall>xs. res = Inr xs \<longrightarrow> map ai_track xs = ts \<and> (\<forall>x\<in>set xs. decision_sound r' (ai_track x) (ai_identity x)))
     \<and> ((\<exists>err. res = Inl err) \<longleftrightarrow> (\<exists>t\<in>set ts. rejects m r t))"
  using assms
proof (induction ts arbitrary: r res)
  case (Cons t ts)
  obtain res1 r1 where one: "identify_track m t r = (res1, r1)" by (cases "identify_track m t r")
  have enc: "encounter_of a (sn_track_id t) = Some (sn_encounter_id t)" using Cons.prems(5) by simp
  note ok = identify_track_ok [OF Cons.prems(1,2) one Cons.prems(4) enc]
  have rej: "(\<exists>err. res1 = Inl err) \<longleftrightarrow> rejects m r t" unfolding rejects_def by (rule ok(8))
  show ?case
  proof (cases res1)
    case (Inl err)
    then have "res = Inl err" "r' = r1" using Cons.prems(3) one by simp_all
    then show ?thesis using ok(1-6) rej Inl by auto
  next
    case (Inr d)
    obtain res2 where two: "identify_tracks m ts r1 = (res2, r')" and res: "res = map_sum id (Cons \<lparr>ai_track = t, ai_identity = d\<rparr>) res2"
      using Cons.prems(3) one Inr by (cases "identify_tracks m ts r1"; cases "fst (identify_tracks m ts r1)") auto
    have tl: "\<forall>t\<in>set ts. encounter_of a (sn_track_id t) = Some (sn_encounter_id t)" "distinct (map sn_track_id ts)"
      and new: "sn_track_id t \<notin> sn_track_id ` set ts" using Cons.prems(5,6) by simp_all
    note IH = Cons.IH [OF ok(1) Cons.prems(2) two ok(2) tl]
    have same: "rejects m r1 t' = rejects m r t'" for t' using ok(4,5) by (simp add: rejects_def)
    have "decision_sound r' t d" using IH new by (intro decision_sound_cong [OF ok(7) [OF Inr]]) simp_all
    then have good: "\<forall>xs. res = Inr xs \<longrightarrow> map ai_track xs = t # ts \<and> (\<forall>x\<in>set xs. decision_sound r' (ai_track x) (ai_identity x))"
      using IH by (cases res2) (simp_all add: res)
    have "(\<exists>err. res = Inl err) \<longleftrightarrow> (\<exists>t\<in>set ts. rejects m r t)" using IH same by (cases res2) (simp_all add: res)
    moreover have "\<not> rejects m r t" using rej Inr by simp
    ultimately have bad: "(\<exists>err. res = Inl err) \<longleftrightarrow> (\<exists>t\<in>set (t # ts). rejects m r t)" by simp
    have hist: "\<forall>j. j \<notin> sn_track_id ` set (t # ts) \<longrightarrow> history_of r' j = history_of r j" using IH ok(6) by simp
    show ?thesis using IH ok(3-5) good bad hist by simp
  qed
qed auto

section \<open>A whole frame\<close>

lemma snapshot_encounters:
  assumes "tracker_inv a"
  shows "\<forall>t\<in>set (tracker_snapshot a). encounter_of a (sn_track_id t) = Some (sn_encounter_id t)" and "distinct (map sn_track_id (tracker_snapshot a))"
proof -
  have id: "bt_get (ar_tracks a) i = Some t \<and> tr_track_id t = i" if "(i, t) \<in> set (ar_tracks a)" for i t
    using that tracker_invD(1,2) [OF assms] by (auto simp: bt_get_in track_ok_def)
  then show "\<forall>t\<in>set (tracker_snapshot a). encounter_of a (sn_track_id t) = Some (sn_encounter_id t)"
    by (auto simp: tracker_snapshot_def snapshot_track_def encounter_of_def)
  have "map sn_track_id (tracker_snapshot a) = map fst (ar_tracks a)"
    unfolding tracker_snapshot_def map_map by (rule map_cong) (use id in \<open>auto simp: snapshot_track_def\<close>)
  then show "distinct (map sn_track_id (tracker_snapshot a))" using bt_wf_distinct [OF tracker_invD(1) [OF assms]] by simp
qed

lemma snapshot_live:
  assumes "tracker_inv a" and "list_ex (\<lambda>t. sn_track_id t = i) (tracker_snapshot a)"
  shows "bt_get (ar_tracks a) i \<noteq> None"
proof -
  obtain t where "t \<in> set (tracker_snapshot a)" "sn_track_id t = i" using assms(2) by (auto simp: list_ex_iff)
  then have "encounter_of a i = Some (sn_encounter_id t)" using snapshot_encounters(1) [OF assms(1)] by auto
  then show ?thesis using encounter_of_None [of a i] by simp
qed

lemma observation_map_get:
  "bt_get (observation_map obs) i = Some x \<Longrightarrow> \<exists>y\<in>set obs. td_embedding y = x"
proof -
  have "bt_get (fold (\<lambda>y. bt_insert (td_track_id y) (td_embedding y)) obs m) i = Some x \<Longrightarrow> bt_get m i = Some x \<or> (\<exists>y\<in>set obs. td_embedding y = x)" for m
    by (induction obs arbitrary: m) (fastforce split: if_splits)+
  then show "bt_get (observation_map obs) i = Some x \<Longrightarrow> \<exists>y\<in>set obs. td_embedding y = x" by (fastforce simp: observation_map_def)
qed

lemma validate_detections_embedding:
  "validate_detections seen ds = Inr () \<Longrightarrow> d \<in> set ds \<Longrightarrow> dt_embedding d = Some x \<Longrightarrow> validate_embedding x = Inr ()"
  by (induction seen ds rule: validate_detections.induct)
     (auto simp: bind_result_Inr_iff validate_detection_def split: option.splits if_splits)

lemma update_tracker_valid: "update_tracker env a f = (Inr x, a') \<Longrightarrow> validate_detections [] (fa_detections f) = Inr ()"
  by (auto simp: update_tracker_def validate_frame_def split: sum.splits if_splits)

text \<open>The outcome of a frame: every actor identified, or a tracker error, or an embedding of a foreign model.\<close>

definition frame_outcome ::
  "frame_actors \<Rightarrow> identity_engine \<Rightarrow> (engine_error, frame_identity_update) result \<Rightarrow> identity_engine \<Rightarrow> bool" where
  "frame_outcome f e res e' \<longleftrightarrow> rs_gallery (en_resolver e') = rs_gallery (en_resolver e)
     \<and> (case res of
          Inr up \<Rightarrow> map ai_track (fi_actors up) = tracker_snapshot (en_tracker e') \<and> fi_frame_index up = fa_frame_index f
            \<and> fi_selected_track_id up = ar_selected_track_id (en_tracker e')
            \<and> (\<forall>x\<in>set (fi_actors up). decision_sound (en_resolver e') (ai_track x) (ai_identity x))
        | Inl err \<Rightarrow> (\<exists>t. err = EngineTracker t) \<and> en_resolver e' = en_resolver e
            \<or> (\<exists>i. err = EngineIdentity i)
               \<and> (\<exists>d\<in>set (fa_detections f). \<exists>x. dt_embedding d = Some x \<and> eb_model x \<noteq> ga_model (rs_gallery (en_resolver e))))"

lemma process_frame_refused:
  assumes inv: "engine_inv e" and up: "update_tracker env (en_tracker e) f = (Inl t, a')"
  shows "process_frame env f e = (Inl (EngineTracker t), e\<lparr>en_tracker := a'\<rparr>)" and "engine_inv (e\<lparr>en_tracker := a'\<rparr>)"
    and "frame_outcome f e (Inl (EngineTracker t)) (e\<lparr>en_tracker := a'\<rparr>)"
proof -
  have i: "tracker_inv (en_tracker e)" "resolver_inv (en_resolver e)" "records_ok (en_tracker e) (en_resolver e)" using inv by (simp_all add: engine_inv_def)
  obtain u where "flow (en_tracker e) f u" "a' = us_tracker u" using update_tracker_flow(1) [OF i(1) up refl] by blast
  then have "records_ok a' (en_resolver e)" using records_ok_mono [OF i(3), of a'] by (simp add: flow_def)
  moreover have "tracker_inv a'" using update_tracker_inv [OF i(1), of env f] up by simp
  ultimately show "engine_inv (e\<lparr>en_tracker := a'\<rparr>)" using i(2) by (simp add: engine_inv_def)
qed (simp_all add: process_frame_def up frame_outcome_def)

lemma process_frame_tracked:
  assumes inv: "engine_inv e" and typed: "frame_typed f" and up: "update_tracker env (en_tracker e) f = (Inr x, a')"
    and o: "process_frame env f e = (res, e')"
  shows "engine_inv e'" and "frame_outcome f e res e'"
proof -
  let ?a = "en_tracker e" and ?r = "en_resolver e"
  have a: "tracker_inv ?a" and r: "resolver_inv ?r" and rec: "records_ok ?a ?r" using inv by (simp_all add: engine_inv_def)
  have a': "tracker_inv a'" using update_tracker_inv [OF a, of env f] up by simp
  define r0 where "r0 = fold retire_event (tu_events x) ?r"
  define m where "m = observation_map (tu_observations x)"
  obtain ires r' where id: "identify_tracks m (tu_tracks x) r0 = (ires, r')" by (cases "identify_tracks m (tu_tracks x) r0")
  note over = update_tracker_hands_over [OF a up]
  have emb: "\<exists>d\<in>set (fa_detections f). dt_embedding d = y" if "bt_get m i = Some y" for i y
    using observation_map_get [OF that [unfolded m_def]] over(3) by fastforce
  have "observations_typed m" unfolding observations_typed_def using emb typed by (fastforce simp: frame_typed_def list_all_iff)
  note ok = identify_tracks_ok [OF fold_retire_event(3) [OF r] this id [unfolded r0_def] retire_records [OF a up rec]]
  have ok': "resolver_inv r' \<and> records_ok a' r' \<and> rs_gallery r' = rs_gallery ?r
     \<and> (\<forall>xs. ires = Inr xs \<longrightarrow> map ai_track xs = tracker_snapshot a' \<and> (\<forall>x\<in>set xs. decision_sound r' (ai_track x) (ai_identity x)))
     \<and> ((\<exists>err. ires = Inl err) \<longrightarrow> (\<exists>t\<in>set (tracker_snapshot a'). rejects m r0 t))"
    using ok snapshot_encounters [OF a'] unfolding over(4) r0_def fold_retire_event(4) by blast
  have mismatch: "\<exists>d\<in>set (fa_detections f). \<exists>x. dt_embedding d = Some x \<and> eb_model x \<noteq> ga_model (rs_gallery ?r)" if "rejects m r0 t" for t
    using that emb validate_detections_embedding [OF update_tracker_valid [OF up]]
    by (fastforce simp: rejects_def observed_embedding_def r0_def fold_retire_event(4) split: option.splits)
  have e': "e' = \<lparr>en_tracker = a', en_resolver = r'\<rparr>"
    "res = (case ires of Inl i \<Rightarrow> Inl (EngineIdentity i) | Inr xs \<Rightarrow> Inr \<lparr>fi_frame_index = tu_frame_index x, fi_actors = xs,
       fi_track_events = tu_events x, fi_selected_track_id = tu_selected_track_id x\<rparr>)"
    using o up id by (auto simp: process_frame_def Let_def r0_def [symmetric] m_def [symmetric] split: sum.splits)
  show "engine_inv e'" using e'(1) ok' a' by (simp add: engine_inv_def)
  show "frame_outcome f e res e'" using e' ok' mismatch over(5,6) by (cases ires) (auto simp: frame_outcome_def)
qed

lemma process_frame_ok:
  assumes "engine_inv e" and "frame_typed f" and "process_frame env f e = (res, e')"
  shows "engine_inv e'" and "frame_outcome f e res e'"
proof -
  obtain tres a' where up: "update_tracker env (en_tracker e) f = (tres, a')" by (cases "update_tracker env (en_tracker e) f")
  have "engine_inv e' \<and> frame_outcome f e res e'"
  proof (cases tres)
    case (Inl t)
    then show ?thesis using process_frame_refused [OF assms(1), of env f t a'] up assms(3) by simp
  next
    case (Inr x)
    then show ?thesis using process_frame_tracked [OF assms(1,2) _ assms(3), of x a'] up by simp
  qed
  then show "engine_inv e'" "frame_outcome f e res e'" by simp_all
qed

section \<open>Reachable engines\<close>

inductive engine_reachable :: "identity_env \<Rightarrow> identity_engine \<Rightarrow> bool" for env where
  engine_new: "tracker_reachable env a \<Longrightarrow> new_resolver c g = Inr r \<Longrightarrow> gallery_typed g \<Longrightarrow> ic_consensus_window_frames c \<le> u64_max
    \<Longrightarrow> engine_reachable env (new_engine a r)"
| engine_select: "engine_reachable env e \<Longrightarrow> engine_reachable env (snd (engine_select_actor i e))"
| engine_clear: "engine_reachable env e \<Longrightarrow> engine_reachable env (engine_clear_selection e)"
| engine_assign: "engine_reachable env e \<Longrightarrow> engine_reachable env (snd (assign_subject i s e))"
| engine_assign_selected: "engine_reachable env e \<Longrightarrow> engine_reachable env (snd (assign_selected_subject s e))"
| engine_unassign: "engine_reachable env e \<Longrightarrow> engine_reachable env (clear_subject_assignment i e)"
| engine_frame: "engine_reachable env e \<Longrightarrow> frame_typed f \<Longrightarrow> engine_reachable env (snd (process_frame env f e))"

lemma engine_inv_new:
  assumes "tracker_inv a" and r: "new_resolver c g = Inr r" and "gallery_typed g" and "ic_consensus_window_frames c \<le> u64_max"
  shows "engine_inv (new_engine a r)"
proof -
  have "rs_histories r = [] \<and> rs_explicit_assignments r = []" using r by (auto simp: new_resolver_def bind_result_Inr_iff)
  then show ?thesis using assms new_resolver_inv [OF r] by (simp add: engine_inv_def new_engine_def records_ok_def)
qed

lemma engine_inv_tracker:
  assumes "engine_inv e" and "tracker_inv a" and "ar_tracks a = ar_tracks (en_tracker e)"
  shows "engine_inv (e\<lparr>en_tracker := a\<rparr>)"
  using assms by (simp add: engine_inv_def records_ok_def encounter_of_def)

lemma engine_inv_assign:
  assumes inv: "engine_inv e" and live: "bt_get (ar_tracks (en_tracker e)) i \<noteq> None"
  shows "engine_inv (e\<lparr>en_resolver := snd (assign_explicit i s (en_resolver e))\<rparr>)"
proof -
  have "records_ok (en_tracker e) (snd (assign_explicit i s (en_resolver e)))"
    using assms by (auto simp: engine_inv_def records_ok_def assign_explicit_def)
  then show ?thesis using inv assign_explicit_inv by (simp add: engine_inv_def)
qed

lemma engine_inv_operations:
  assumes inv: "engine_inv e"
  shows "engine_inv (snd (engine_select_actor i e))" "engine_inv (engine_clear_selection e)" "engine_inv (snd (assign_subject i s e))"
    and "engine_inv (snd (assign_selected_subject s e))" "engine_inv (clear_subject_assignment i e)"
proof -
  have a: "tracker_inv (en_tracker e)" using inv by (simp add: engine_inv_def)
  show "engine_inv (snd (engine_select_actor i e))"
    using engine_inv_tracker [OF inv tracker_inv_select(1) [OF a, of i]] by (auto simp: engine_select_actor_def select_actor_def split: if_splits)
  show "engine_inv (engine_clear_selection e)"
    using engine_inv_tracker [OF inv tracker_inv_select(2) [OF a]] by (simp add: engine_clear_selection_def clear_selection_def)
  show "engine_inv (snd (assign_subject i s e))"
    using engine_inv_assign [OF inv snapshot_live [OF a], of i s] inv by (cases "assign_explicit i s (en_resolver e)") (simp add: assign_subject_def)
  have "bt_get (ar_tracks (en_tracker e)) j \<noteq> None" if "ar_selected_track_id (en_tracker e) = Some j" for j
    using a that by (simp add: tracker_inv_def)
  then have "engine_inv (e\<lparr>en_resolver := snd (assign_explicit j s (en_resolver e))\<rparr>)" if "ar_selected_track_id (en_tracker e) = Some j" for j
    using engine_inv_assign [OF inv] that by blast
  then show "engine_inv (snd (assign_selected_subject s e))"
    using inv by (cases "ar_selected_track_id (en_tracker e)") (simp_all add: assign_selected_subject_def case_prod_beta)
  show "engine_inv (clear_subject_assignment i e)"
    using inv clear_explicit_inv [of "en_resolver e" i]
    by (auto simp: clear_subject_assignment_def engine_inv_def records_ok_def clear_explicit_def split: if_splits)
qed

lemma engine_reachable_inv: "engine_reachable env e \<Longrightarrow> engine_inv e"
proof (induction rule: engine_reachable.induct)
  case (engine_frame e f)
  then show ?case using process_frame_ok(1) [of e f env] by (cases "process_frame env f e") simp
qed (auto intro: engine_inv_new tracker_reachable_inv engine_inv_operations)

text \<open>C12. Whatever is called on the engine and whether it succeeds or fails, the resolver keeps evidence and explicit assignments only for
  actors that are being tracked, at most as many frames of evidence per actor as the consensus window allows, and only subjects
  of the gallery as confirmed or assigned ones; the last decision recorded for an actor names that actor's encounter.\<close>

theorem engine_records_live_actors:
  assumes "engine_reachable env e"
  shows "(\<forall>i h. bt_get (rs_histories (en_resolver e)) i = Some h \<longrightarrow>
            bt_get (ar_tracks (en_tracker e)) i \<noteq> None
            \<and> length (hi_score_frames h) \<le> ic_consensus_window_frames (rs_config (en_resolver e))
            \<and> (\<forall>s. hi_confirmed_subject_id h = Some s \<longrightarrow> contains_subject (rs_gallery (en_resolver e)) s)
            \<and> (\<forall>d. hi_last_decision h = Some d \<longrightarrow>
                 map_option tr_encounter_id (bt_get (ar_tracks (en_tracker e)) i) = Some (decision_encounter_id d)))
     \<and> (\<forall>i s. bt_get (rs_explicit_assignments (en_resolver e)) i = Some s \<longrightarrow>
            bt_get (ar_tracks (en_tracker e)) i \<noteq> None \<and> contains_subject (rs_gallery (en_resolver e)) s)"
proof -
  have inv: "engine_inv e" by (rule engine_reachable_inv [OF assms])
  then have "records_ok (en_tracker e) (en_resolver e)" "resolver_inv (en_resolver e)" by (simp_all add: engine_inv_def)
  then show ?thesis
    by (simp add: records_ok_def resolver_inv_def history_ok_def window_ok_def contains_subject_iff encounter_of_def)
qed

text \<open>C11. A frame ends in one of three ways. Identified: the update lists exactly the tracks of the tracker, in order and each with a
  decision that names the track's encounter, resolves only to subjects of the gallery, is the explicit assignment if there is
  one, and reports a match only on the evidence in the track's window. Refused by the tracker: the resolver is unchanged. Or
  failed in recognition: then an embedding of the frame is not of the gallery's model.\<close>

theorem frame_identifies_every_actor:
  assumes "engine_reachable env e" and "frame_typed f" and "process_frame env f e = (res, e')"
  shows "rs_gallery (en_resolver e') = rs_gallery (en_resolver e)
     \<and> (case res of
          Inr up \<Rightarrow> map ai_track (fi_actors up) = tracker_snapshot (en_tracker e') \<and> fi_frame_index up = fa_frame_index f
            \<and> fi_selected_track_id up = ar_selected_track_id (en_tracker e')
            \<and> (\<forall>x\<in>set (fi_actors up). decision_sound (en_resolver e') (ai_track x) (ai_identity x))
        | Inl err \<Rightarrow> (\<exists>t. err = EngineTracker t) \<and> en_resolver e' = en_resolver e
            \<or> (\<exists>i. err = EngineIdentity i)
               \<and> (\<exists>d\<in>set (fa_detections f). \<exists>x. dt_embedding d = Some x \<and> eb_model x \<noteq> ga_model (rs_gallery (en_resolver e))))"
  using process_frame_ok(2) [OF engine_reachable_inv [OF assms(1)] assms(2,3)] by (simp only: frame_outcome_def)

section \<open>An example\<close>

definition sample_engine :: identity_engine where
  "sample_engine = new_engine idle_tracker sample_resolver"

lemma sample_engine_reachable: "engine_reachable tracking_env sample_engine"
  unfolding sample_engine_def
  by (rule engine_new [OF tracker_new [OF new_sample_tracker_ok] sample_resolver_new])

lemma sample_frame_typed: "frame_typed (sample_frame n x)"
  by (simp add: frame_typed_def sample_frame_def sample_detection_def embedding_typed_def)

lemma sample_frame_updates:
  obtains up where "update_tracker tracking_env idle_tracker (sample_frame 1 0) = (Inr up, sample_tracked)"
proof -
  have "\<exists>up a'. update_tracker tracking_env idle_tracker (sample_frame 1 0) = (Inr up, a')"
    by (rule update_succeeds [OF tracker_reachable_inv [OF tracker_new [OF new_sample_tracker_ok]] sample_frame_valid(1)])
       (auto simp: idle_tracker_def u64_max_def sample_frame_def)
  then show thesis using that sample_first_frame by auto
qed

theorem engine_records_live_actors_witness:
  "bt_get (rs_histories (en_resolver (snd (process_frame tracking_env (sample_frame 1 0) sample_engine)))) 7 = None"
proof -
  let ?e = "snd (process_frame tracking_env (sample_frame 1 0) sample_engine)"
  obtain up where up: "update_tracker tracking_env idle_tracker (sample_frame 1 0) = (Inr up, sample_tracked)" by (rule sample_frame_updates)
  have "en_tracker ?e = sample_tracked"
    using up by (simp add: process_frame_def sample_engine_def new_engine_def Let_def split: prod.splits sum.splits)
  then have "bt_get (ar_tracks (en_tracker ?e)) 7 = None" by (simp add: sample_tracked_def sample_tracking_def)
  moreover have "bt_get (rs_histories (en_resolver ?e)) 7 = Some h \<Longrightarrow> bt_get (ar_tracks (en_tracker ?e)) 7 \<noteq> None" for h
    using engine_records_live_actors [OF engine_frame [OF sample_engine_reachable sample_frame_typed, of 1 0]] by blast
  ultimately show ?thesis by (cases "bt_get (rs_histories (en_resolver ?e)) 7") simp_all
qed

theorem frame_identifies_every_actor_witness:
  "\<exists>up. fst (process_frame tracking_env (sample_frame 1 0) sample_engine) = Inr up
     \<and> map (\<lambda>x. sn_track_id (ai_track x)) (fi_actors up) = [1]"
proof -
  obtain res e' where p: "process_frame tracking_env (sample_frame 1 0) sample_engine = (res, e')" by fastforce
  obtain tu where up: "update_tracker tracking_env idle_tracker (sample_frame 1 0) = (Inr tu, sample_tracked)" by (rule sample_frame_updates)
  have e': "en_tracker e' = sample_tracked" and no: "res \<noteq> Inl (EngineTracker t)" for t
    using up p by (auto simp: process_frame_def sample_engine_def new_engine_def Let_def split: prod.splits sum.splits)
  have "dt_embedding d = None" if "d \<in> set (fa_detections (sample_frame 1 0))" for d
    using that by (auto simp: sample_frame_def sample_detection_def)
  then obtain x where x: "res = Inr x" "map ai_track (fi_actors x) = tracker_snapshot sample_tracked"
    using frame_identifies_every_actor [OF sample_engine_reachable sample_frame_typed p] no e' by (cases res) auto
  have "map (\<lambda>x. sn_track_id (ai_track x)) (fi_actors x) = map sn_track_id (map ai_track (fi_actors x))" by simp
  also have "\<dots> = [1]" unfolding x(2)
    by (simp add: tracker_snapshot_def sample_tracked_def sample_tracking_def snapshot_track_def sample_track_def)
  finally show ?thesis using p x(1) by simp
qed

end
