(* ===== verification/Qualified_Properties.thy ===== *)
theory Qualified_Properties
  imports Qualified_Identity Engine_Properties
begin

text \<open>
  Importing a reference is atomic: the checks before the gallery is changed are strong enough for the validation after it. The
  adapter admits only fresh, trusted frames whose embeddings are bound to the frame, and what it admits never fails recognition.
\<close>

section \<open>Validation as predicates\<close>

lemma valid_identifier_iff: "valid_identifier v \<longleftrightarrow> validate_identifier v k = Inr ()"
  by (auto simp: valid_identifier_def validate_identifier_def)

definition reference_ok :: "embedding_model \<Rightarrow> identity_reference \<Rightarrow> bool" where
  "reference_ok md r \<longleftrightarrow> valid_identifier (rf_reference_id r) \<and> \<not> is_blank (rf_provenance r) \<and> blen (rf_provenance r) \<le> 2048
     \<and> validate_embedding (rf_embedding r) = Inr () \<and> eb_model (rf_embedding r) = md"

lemma validate_references_iff:
  "validate_references md seen rs = Inr () \<longleftrightarrow> (\<forall>r\<in>set rs. reference_ok md r) \<and> distinct (map rf_reference_id rs)
     \<and> set (map rf_reference_id rs) \<inter> set seen = {}"
  by (induction md seen rs rule: validate_references.induct)
     (auto simp: bind_result_Inr_iff reference_ok_def valid_identifier_iff [of _ "lit ''reference ID''"] not_less)

lemma validate_subject_iff:
  "validate_subject md s = Inr () \<longleftrightarrow> valid_identifier (sj_subject_id s) \<and> \<not> is_blank (sj_display_name s) \<and> blen (sj_display_name s) \<le> 256
     \<and> sj_references s \<noteq> [] \<and> (\<forall>r\<in>set (sj_references s). reference_ok md r) \<and> distinct (map rf_reference_id (sj_references s))"
  by (auto simp: validate_subject_def bind_result_Inr_iff validate_references_iff valid_identifier_iff [of _ "lit ''subject ID''"] not_less)

lemma set_gallery_references:
  "x \<in> set (gallery_references g) \<longleftrightarrow> (\<exists>k s. (k, s) \<in> set (ga_subjects g) \<and> fst x = sj_subject_id s \<and> snd x \<in> set (sj_references s))"
  by (cases x) (fastforce simp: gallery_references_def)

lemma check_provenances_iff:
  "check_provenances game m rs = Inr () \<longleftrightarrow>
     (\<forall>x\<in>set rs. \<exists>p. bt_get m (rf_reference_id (snd x)) = Some p \<and> validate_provenance game p = Inr () \<and> rp_subject_id p = fst x)"
  by (induction game m rs rule: check_provenances.induct) (auto simp: bind_result_Inr_iff split: option.splits)

definition reference_ids :: "identity_gallery \<Rightarrow> rstr set" where
  "reference_ids g = (\<lambda>x. rf_reference_id (snd x)) ` set (gallery_references g)"

definition maps_wf :: "qualified_gallery \<Rightarrow> bool" where
  "maps_wf g \<longleftrightarrow> bt_wf (ga_subjects (qg_gallery g)) \<and> bt_wf (qg_reference_provenance g)"

lemma provenance_count:
  assumes "bt_wf m" and "set ids \<subseteq> fst ` set m"
  shows "length (remdups ids) = length m \<and> (\<forall>e\<in>set m. fst e \<in> set ids) \<longleftrightarrow> set ids = fst ` set m"
proof -
  have "length m = card (fst ` set m)" using distinct_card [OF bt_wf_distinct [OF assms(1)]] by simp
  then show ?thesis using assms(2) by (auto simp: length_remdups_card_conv)
qed

lemma validate_qualified_gallery_iff:
  assumes "maps_wf g"
  shows "validate_qualified_gallery g = Inr () \<longleftrightarrow>
     qg_schema_version g = QUALIFIED_IDENTITY_SCHEMA_VERSION \<and> valid_identifier (qg_game_profile_id g)
     \<and> validate_qualification (qg_qualification g) = Inr () \<and> validate_gallery (qg_gallery g) = Inr ()
     \<and> ga_model (qg_gallery g) = pq_model (qg_qualification g)
     \<and> (\<forall>x\<in>set (gallery_references (qg_gallery g)). \<exists>p. bt_get (qg_reference_provenance g) (rf_reference_id (snd x)) = Some p
          \<and> validate_provenance (qg_game_profile_id g) p = Inr () \<and> rp_subject_id p = fst x)
     \<and> reference_ids (qg_gallery g) = fst ` set (qg_reference_provenance g)"
proof -
  let ?rs = "gallery_references (qg_gallery g)" and ?m = "qg_reference_provenance g"
  let ?ids = "map (\<lambda>e. rf_reference_id (snd e)) ?rs"
  have "set ?ids \<subseteq> fst ` set ?m" if checked: "check_provenances (qg_game_profile_id g) ?m ?rs = Inr ()"
  proof
    fix i assume "i \<in> set ?ids"
    then obtain x where "x \<in> set ?rs" "i = rf_reference_id (snd x)" by (auto simp del: split_paired_Ex)
    then obtain p where "bt_get ?m i = Some p" using checked [unfolded check_provenances_iff] by blast
    then show "i \<in> fst ` set ?m" using map_of_eq_None_iff [of ?m i] by simp
  qed
  then have count: "check_provenances (qg_game_profile_id g) ?m ?rs = Inr () \<Longrightarrow>
      length (remdups ?ids) = length ?m \<and> (\<forall>e\<in>set ?m. fst e \<in> set ?ids) \<longleftrightarrow> reference_ids (qg_gallery g) = fst ` set ?m"
    using provenance_count [of ?m ?ids] assms by (simp only: maps_wf_def reference_ids_def set_map)
  have "validate_qualified_gallery g = Inr () \<longleftrightarrow>
     qg_schema_version g = QUALIFIED_IDENTITY_SCHEMA_VERSION \<and> valid_identifier (qg_game_profile_id g)
     \<and> validate_qualification (qg_qualification g) = Inr () \<and> validate_gallery (qg_gallery g) = Inr ()
     \<and> ga_model (qg_gallery g) = pq_model (qg_qualification g) \<and> check_provenances (qg_game_profile_id g) ?m ?rs = Inr ()
     \<and> (length (remdups ?ids) = length ?m \<and> (\<forall>e\<in>set ?m. fst e \<in> set ?ids))"
    by (auto simp: validate_qualified_gallery_def bind_result_Inr_iff Let_def list_ex_iff)
  then show ?thesis using count by (simp only: check_provenances_iff) blast
qed

section \<open>Importing a reference\<close>

lemma set_bt_insert: "bt_wf m \<Longrightarrow> set (bt_insert k v m) = insert (k, v) {e\<in>set m. fst e \<noteq> k}"
proof -
  assume wf: "bt_wf m"
  have "e \<in> set (bt_insert k v m) \<longleftrightarrow> bt_get (bt_insert k v m) (fst e) = Some (snd e)" for e
    using bt_get_in [OF bt_wf_insert [OF wf, of k v], of "fst e" "snd e"] by simp
  moreover have "e \<in> set m \<longleftrightarrow> bt_get m (fst e) = Some (snd e)" for e using bt_get_in [OF wf, of "fst e" "snd e"] by simp
  ultimately show ?thesis by (auto split: if_splits)
qed

lemma imported_provenance_ok:
  assumes "valid_identifier q"
  shows "\<not> is_blank (lit ''qualified:'' @ q @ lit '':'' @ source_class_name c)"
    and "blen (lit ''qualified:'' @ q @ lit '':'' @ source_class_name c) \<le> 2048"
proof -
  show "\<not> is_blank (lit ''qualified:'' @ q @ lit '':'' @ source_class_name c)" by (simp add: is_blank_iff lit_def is_whitespace_def)
  have "blen (source_class_name c) \<le> 18" "blen (lit ''qualified:'') = 10" "blen (lit '':'') = 1"
    by (cases c; simp add: source_class_name_def lit_def len_utf8_def)+
  then show "blen (lit ''qualified:'' @ q @ lit '':'' @ source_class_name c) \<le> 2048"
    using assms by (simp add: valid_identifier_def)
qed

text \<open>What the checks before the insertion establish.\<close>

lemma new_embedding_values: "new_embedding md mt vs = Inr e \<Longrightarrow> eb_values e = map (\<lambda>v. f_div v (l2_norm vs)) vs"
  by (auto simp: new_embedding_def bind_result_Inr_iff Let_def split: if_splits)

lemma prepare_import_facts:
  assumes "prepare_import env i g = Inr s"
  obtains e where "validate_qualified_gallery g = Inr ()" "import_admissible env g i"
    "validate_provenance (qg_game_profile_id g) (pi_provenance i) = Inr ()"
    "bt_get (qg_reference_provenance g) (rp_reference_id (pi_provenance i)) = None"
    "validate_embedding e = Inr ()" "eb_model e = pi_model i" "merged_subject g i (imported_reference g i e) = Inr s"
    "eb_metadata e = pi_metadata i"
    "eb_values e = map (\<lambda>v. f_div v (l2_norm (tensor_values (pi_tensor_f32le i)))) (tensor_values (pi_tensor_f32le i))"
  using assms
  by (auto simp: prepare_import_def bind_result_Inr_iff split: if_splits dest: new_embedding_valid new_embedding_values)

lemma merged_subject_facts:
  assumes "merged_subject g i r = Inr s"
  shows "sj_references s = (case bt_get (ga_subjects (qg_gallery g)) (rp_subject_id (pi_provenance i)) of None \<Rightarrow> [] | Some t \<Rightarrow> sj_references t) @ [r]"
    and "sj_display_name s = pi_subject_display_name i"
    and "sj_subject_id s = (case bt_get (ga_subjects (qg_gallery g)) (rp_subject_id (pi_provenance i)) of
          None \<Rightarrow> rp_subject_id (pi_provenance i) | Some t \<Rightarrow> sj_subject_id t)"
  using assms by (auto simp: merged_subject_def split: option.splits if_splits)

lemma validate_gallery_iff:
  "validate_gallery g = Inr () \<longleftrightarrow> ga_schema_version g = IDENTITY_GALLERY_SCHEMA_VERSION \<and> validate_model (ga_model g) = Inr ()
     \<and> (\<forall>(k, s)\<in>set (ga_subjects g). k = sj_subject_id s \<and> validate_subject (ga_model g) s = Inr ())"
  by (auto simp: validate_gallery_def bind_result_Inr_iff validate_subjects_Inr)

lemma validate_provenance_ids:
  "validate_provenance game p = Inr () \<Longrightarrow> valid_identifier (rp_reference_id p) \<and> valid_identifier (rp_subject_id p)"
  by (auto simp: validate_provenance_def split: if_splits)

text \<open>The references of the gallery after the insertion: those of before and the new one.\<close>

lemma references_after_import:
  assumes wf: "bt_wf (ga_subjects (qg_gallery g))" and keys: "\<forall>(k, t)\<in>set (ga_subjects (qg_gallery g)). k = sj_subject_id t"
    and s: "merged_subject g i r = Inr s"
  shows "set (gallery_references (qg_gallery (put_subject s i g))) = insert (rp_subject_id (pi_provenance i), r) (set (gallery_references (qg_gallery g)))"
proof -
  let ?k = "rp_subject_id (pi_provenance i)" and ?m = "ga_subjects (qg_gallery g)"
  note m = merged_subject_facts [OF s]
  have keys': "k = sj_subject_id t" if "(k, t) \<in> set ?m" for k t using keys that by auto
  have old: "(?k, t) \<in> set ?m \<longleftrightarrow> bt_get ?m ?k = Some t" for t using bt_get_in [OF wf] by simp
  have id: "sj_subject_id s = ?k"
    using m(3) keys' [OF map_of_SomeD, of ?k] by (cases "bt_get ?m ?k") simp_all
  have refs: "x \<in> set (sj_references s) \<longleftrightarrow> x = r \<or> (\<exists>t. (?k, t) \<in> set ?m \<and> x \<in> set (sj_references t))" for x
    unfolding m(1) old by (auto split: option.splits)
  have "x \<in> set (gallery_references (qg_gallery (put_subject s i g))) \<longleftrightarrow> x = (?k, r) \<or> x \<in> set (gallery_references (qg_gallery g))" for x
  proof -
    have "x \<in> set (gallery_references (qg_gallery (put_subject s i g))) \<longleftrightarrow>
        fst x = ?k \<and> snd x \<in> set (sj_references s) \<or> (\<exists>k t. (k, t) \<in> set ?m \<and> k \<noteq> ?k \<and> fst x = sj_subject_id t \<and> snd x \<in> set (sj_references t))"
      unfolding set_gallery_references put_subject_def by (simp add: set_bt_insert [OF wf] flip: id) blast
    also have "\<dots> \<longleftrightarrow> x = (?k, r) \<or> (\<exists>k t. (k, t) \<in> set ?m \<and> fst x = sj_subject_id t \<and> snd x \<in> set (sj_references t))"
      unfolding refs prod_eq_iff fst_conv snd_conv using keys' by metis
    finally show ?thesis unfolding set_gallery_references .
  qed
  then show ?thesis by auto
qed

lemma import_subject_ok:
  assumes wf: "maps_wf g" and ok: "validate_qualified_gallery g = Inr ()" and adm: "import_admissible env g i"
    and prov: "validate_provenance (qg_game_profile_id g) (pi_provenance i) = Inr ()"
    and new: "bt_get (qg_reference_provenance g) (rp_reference_id (pi_provenance i)) = None"
    and e: "validate_embedding e = Inr ()" "eb_model e = pi_model i" and s: "merged_subject g i (imported_reference g i e) = Inr s"
  shows "sj_subject_id s = rp_subject_id (pi_provenance i)" and "validate_subject (ga_model (qg_gallery g)) s = Inr ()"
proof -
  let ?k = "rp_subject_id (pi_provenance i)" and ?m = "ga_subjects (qg_gallery g)" and ?r = "imported_reference g i e"
  note V = ok [unfolded validate_qualified_gallery_iff [OF wf]] and m = merged_subject_facts [OF s]
  have subj: "\<forall>(k, t)\<in>set ?m. k = sj_subject_id t \<and> validate_subject (ga_model (qg_gallery g)) t = Inr ()"
    using V validate_gallery_iff [of "qg_gallery g"] by blast
  have old: "?k = sj_subject_id t \<and> validate_subject (ga_model (qg_gallery g)) t = Inr () \<and> rf_reference_id ?r \<notin> rf_reference_id ` set (sj_references t)"
    if t: "bt_get ?m ?k = Some t" for t
  proof -
    have in_m: "(?k, t) \<in> set ?m" using t by (rule map_of_SomeD)
    have "rf_reference_id x \<noteq> rp_reference_id (pi_provenance i)" if "x \<in> set (sj_references t)" for x
      using V new in_m that set_gallery_references [of "(sj_subject_id t, x)" "qg_gallery g"] by force
    then have "rf_reference_id ?r \<notin> rf_reference_id ` set (sj_references t)" unfolding imported_reference_def by (metis identity_reference.select_convs(1) imageE)
    then show ?thesis using subj in_m by auto
  qed
  have r: "reference_ok (ga_model (qg_gallery g)) ?r"
    using V e adm validate_provenance_ids [OF prov] imported_provenance_ok [of "pq_qualification_id (qg_qualification g)"]
    by (auto simp: reference_ok_def imported_reference_def import_admissible_def validate_qualification_def bind_result_Inr_iff split: if_splits)
  show "sj_subject_id s = ?k" using m(3) old by (auto split: option.splits)
  then show "validate_subject (ga_model (qg_gallery g)) s = Inr ()"
    using m(1,2) old r adm validate_provenance_ids [OF prov]
    by (auto simp: validate_subject_iff import_admissible_def not_less split: option.splits)
qed

lemma import_validates:
  assumes wf: "maps_wf g" and s: "prepare_import env i g = Inr s"
  shows "validate_qualified_gallery (put_subject s i g) = Inr ()" and "maps_wf (put_subject s i g)"
proof -
  let ?g = "put_subject s i g" and ?m = "ga_subjects (qg_gallery g)" and ?id = "rp_reference_id (pi_provenance i)"
  obtain e where F: "validate_qualified_gallery g = Inr ()" "import_admissible env g i"
    "validate_provenance (qg_game_profile_id g) (pi_provenance i) = Inr ()" "bt_get (qg_reference_provenance g) ?id = None"
    "validate_embedding e = Inr ()" "eb_model e = pi_model i" "merged_subject g i (imported_reference g i e) = Inr s"
    using s by (rule prepare_import_facts)
  note V = F(1) [unfolded validate_qualified_gallery_iff [OF wf]] and S = import_subject_ok [OF wf F]
  have subj: "\<forall>(k, t)\<in>set ?m. k = sj_subject_id t \<and> validate_subject (ga_model (qg_gallery g)) t = Inr ()"
    using V validate_gallery_iff [of "qg_gallery g"] by blast
  show wf': "maps_wf ?g" using wf by (simp add: maps_wf_def put_subject_def)
  have keep: "qg_schema_version ?g = qg_schema_version g" "qg_game_profile_id ?g = qg_game_profile_id g"
    "qg_qualification ?g = qg_qualification g" "ga_model (qg_gallery ?g) = ga_model (qg_gallery g)"
    "qg_reference_provenance ?g = bt_insert ?id (pi_provenance i) (qg_reference_provenance g)"
    by (simp_all add: put_subject_def)
  have gal: "validate_gallery (qg_gallery ?g) = Inr ()"
    using V subj S wf by (auto simp: validate_gallery_iff put_subject_def set_bt_insert maps_wf_def)
  have refs: "set (gallery_references (qg_gallery ?g)) =
      insert (rp_subject_id (pi_provenance i), imported_reference g i e) (set (gallery_references (qg_gallery g)))"
    using wf subj F(7) by (intro references_after_import) (auto simp: maps_wf_def)
  have id: "rf_reference_id (imported_reference g i e) = ?id" by (simp add: imported_reference_def)
  have provs: "\<forall>x\<in>set (gallery_references (qg_gallery ?g)). \<exists>p. bt_get (qg_reference_provenance ?g) (rf_reference_id (snd x)) = Some p
      \<and> validate_provenance (qg_game_profile_id ?g) p = Inr () \<and> rp_subject_id p = fst x"
    unfolding refs keep using V F(3,4) id by auto
  have "reference_ids (qg_gallery ?g) = insert ?id (reference_ids (qg_gallery g))" unfolding reference_ids_def refs using id by simp
  then have "reference_ids (qg_gallery ?g) = fst ` set (qg_reference_provenance ?g)" using V keep(5) by simp
  then show "validate_qualified_gallery ?g = Inr ()" unfolding validate_qualified_gallery_iff [OF wf'] using V keep gal provs by simp
qed

text \<open>C29. Importing a reference is all or nothing. A refused import leaves the gallery as it was: although the code changes the gallery
  before it validates it as a whole, that validation cannot fail after the checks made before. A successful import leaves a valid
  gallery in which the reference stands under its subject with its provenance, and every reference of before is still there. The
  embedding of the reference is the imported one: its model and metadata, and the numbers of the tensor bytes divided by their norm.\<close>

theorem import_is_atomic:
  assumes "maps_wf g" and "import_reference env i g = (res, g')"
  shows "maps_wf g'
     \<and> (case res of
          Inl err \<Rightarrow> g' = g
        | Inr _ \<Rightarrow> validate_qualified_gallery g' = Inr ()
            \<and> bt_get (qg_reference_provenance g') (rp_reference_id (pi_provenance i)) = Some (pi_provenance i)
            \<and> bt_get (qg_reference_provenance g) (rp_reference_id (pi_provenance i)) = None
            \<and> sha256_hex env (pi_tensor_f32le i) = pi_tensor_sha256 i
            \<and> (\<exists>r. rf_reference_id r = rp_reference_id (pi_provenance i) \<and> validate_embedding (rf_embedding r) = Inr ()
                 \<and> eb_model (rf_embedding r) = pi_model i \<and> eb_metadata (rf_embedding r) = pi_metadata i
                 \<and> eb_values (rf_embedding r)
                      = map (\<lambda>v. f_div v (l2_norm (tensor_values (pi_tensor_f32le i)))) (tensor_values (pi_tensor_f32le i))
                 \<and> set (gallery_references (qg_gallery g')) = insert (rp_subject_id (pi_provenance i), r) (set (gallery_references (qg_gallery g)))))"
proof (cases "prepare_import env i g")
  case (Inl err)
  then show ?thesis using assms by (auto simp: import_reference_def)
next
  case (Inr s)
  obtain e where F: "validate_qualified_gallery g = Inr ()" "import_admissible env g i"
    "bt_get (qg_reference_provenance g) (rp_reference_id (pi_provenance i)) = None"
    "validate_embedding e = Inr ()" "merged_subject g i (imported_reference g i e) = Inr s"
    "eb_model e = pi_model i" "eb_metadata e = pi_metadata i"
    "eb_values e = map (\<lambda>v. f_div v (l2_norm (tensor_values (pi_tensor_f32le i)))) (tensor_values (pi_tensor_f32le i))"
    using Inr by (rule prepare_import_facts)
  have g': "g' = put_subject s i g" "res = Inr ()"
    using assms(2) Inr import_validates(1) [OF assms(1) Inr] by (simp_all add: import_reference_def Let_def)
  have "\<forall>(k, t)\<in>set (ga_subjects (qg_gallery g)). k = sj_subject_id t"
    using F(1) [unfolded validate_qualified_gallery_iff [OF assms(1)]] validate_gallery_iff [of "qg_gallery g"] by blast
  then have "set (gallery_references (qg_gallery g')) =
      insert (rp_subject_id (pi_provenance i), imported_reference g i e) (set (gallery_references (qg_gallery g)))"
    unfolding g' using assms(1) F(5) by (intro references_after_import) (simp_all add: maps_wf_def)
  moreover have "rf_reference_id (imported_reference g i e) = rp_reference_id (pi_provenance i)" "rf_embedding (imported_reference g i e) = e"
    by (simp_all add: imported_reference_def)
  ultimately show ?thesis
    using import_validates [OF assms(1) Inr] F(2,3,4,6,7,8) unfolding g' by (auto simp: put_subject_def import_admissible_def)
qed

section \<open>The evidence adapter\<close>

lemma check_observation_Inr:
  "check_observation q f d = Inr () \<Longrightarrow> dt_embedding d = Some e \<Longrightarrow>
     eb_model e = pq_model q \<and> validate_embedding e = Inr () \<and> mt_source_frame_index (eb_metadata e) = tf_frame_sequence f
     \<and> mt_source_digest_sha256 (eb_metadata e) = Some (tf_content_sha256 f)"
  by (auto simp: check_observation_def bind_result_Inr_iff is_some_and_def split: if_splits)

lemma check_observations_Inr: "check_observations q f ds = Inr () \<longleftrightarrow> (\<forall>d\<in>set ds. check_observation q f d = Inr ())"
  by (induction ds) (auto simp: bind_result_Inr_iff)

text \<open>What the adapter demands of a frame in view of the frames it admitted before.\<close>

definition advances :: "evidence_adapter \<Rightarrow> trusted_frame \<Rightarrow> bool" where
  "advances a f \<longleftrightarrow>
     (\<forall>l. ea_last_frame_sequence a = Some l \<longrightarrow> l < tf_frame_sequence f)
     \<and> (\<forall>l. ea_last_source_frame_qpc a = Some l \<longrightarrow> l < tf_source_frame_qpc f)
     \<and> (\<forall>n l. ea_device_generation a = Some n \<longrightarrow> ea_last_frame_sequence a = Some l \<longrightarrow> l \<noteq> 0 \<longrightarrow> tf_device_generation f = n)
     \<and> (\<forall>n. ea_geometry_epoch a = Some n \<longrightarrow> n \<le> tf_geometry_epoch f)"

definition trustworthy :: "evidence_adapter \<Rightarrow> trusted_frame \<Rightarrow> bool" where
  "trustworthy a f \<longleftrightarrow> tf_target f = ea_expected_target a \<and> tf_frame_sequence f \<noteq> 0 \<and> tf_advancing_frame_verified f
     \<and> tf_overlay_capture_excluded f \<and> \<not> tf_protected_online_detected f \<and> \<not> tf_anti_cheat_detected f
     \<and> length (tf_observations f) \<le> MAX_FRAME_OBSERVATIONS
     \<and> (\<forall>d\<in>set (tf_observations f). \<forall>e. dt_embedding d = Some e \<longrightarrow> eb_model e = pq_model (ea_qualification a)
          \<and> validate_embedding e = Inr () \<and> mt_source_frame_index (eb_metadata e) = tf_frame_sequence f
          \<and> mt_source_digest_sha256 (eb_metadata e) = Some (tf_content_sha256 f))"

lemma adapt_Inr:
  assumes "adapt f a = (Inr fr, a')"
  shows "advances a f" and "trustworthy a f"
    and "a' = a\<lparr>ea_last_frame_sequence := Some (tf_frame_sequence f), ea_last_source_frame_qpc := Some (tf_source_frame_qpc f),
             ea_device_generation := Some (tf_device_generation f), ea_geometry_epoch := Some (tf_geometry_epoch f)\<rparr>"
    and "fr = \<lparr>fa_frame_index = tf_frame_sequence f, fa_timestamp_ms = tf_captured_at_ms f, fa_detections = tf_observations f\<rparr>"
proof -
  have c: "check_frame a f = Inr ()" using assms by (auto simp: adapt_def split: sum.splits)
  then show "advances a f" by (auto simp: check_frame_def bind_result_Inr_iff untrusted_frame_def is_some_and_def advances_def split: if_splits option.splits)
  have "\<forall>d\<in>set (tf_observations f). check_observation (ea_qualification a) f d = Inr ()"
    using c by (auto simp: check_frame_def bind_result_Inr_iff check_observations_Inr split: if_splits)
  then have "\<forall>d\<in>set (tf_observations f). \<forall>e. dt_embedding d = Some e \<longrightarrow> eb_model e = pq_model (ea_qualification a)
          \<and> validate_embedding e = Inr () \<and> mt_source_frame_index (eb_metadata e) = tf_frame_sequence f
          \<and> mt_source_digest_sha256 (eb_metadata e) = Some (tf_content_sha256 f)"
    using check_observation_Inr by blast
  moreover have "\<not> untrusted_frame a f" using c by (auto simp: check_frame_def bind_result_Inr_iff)
  ultimately show "trustworthy a f" by (auto simp: trustworthy_def untrusted_frame_def)
qed (use assms in \<open>auto simp: adapt_def split: sum.splits\<close>)

lemma adapt_Inl: "adapt f a = (Inl err, a') \<Longrightarrow> a' = a"
  by (auto simp: adapt_def split: sum.splits)

text \<open>The frames of a sequence that the adapter admits, in order.\<close>

fun admitted :: "evidence_adapter \<Rightarrow> trusted_frame list \<Rightarrow> trusted_frame list" where
  "admitted a [] = []"
| "admitted a (f # fs) = (case adapt f a of (Inl _, a') \<Rightarrow> admitted a' fs | (Inr _, a') \<Rightarrow> f # admitted a' fs)"

lemma admitted_frames:
  "g \<in> set (admitted a fs) \<Longrightarrow> advances a g \<and> trustworthy a g"
proof (induction fs arbitrary: a)
  case (Cons f fs)
  obtain res a' where ad: "adapt f a = (res, a')" by fastforce
  show ?case
  proof (cases res)
    case (Inl err)
    then show ?thesis using Cons ad adapt_Inl [of f a err a'] by auto
  next
    case (Inr fr)
    note A = adapt_Inr [OF ad [unfolded Inr]]
    have "advances a' g \<and> trustworthy a' g \<Longrightarrow> advances a g \<and> trustworthy a g"
      using A(1,2) unfolding A(3) by (auto simp: advances_def trustworthy_def)
    then show ?thesis using Cons.IH [of a'] Cons.prems ad Inr A(1,2) by auto
  qed
qed simp

definition later_frame :: "trusted_frame \<Rightarrow> trusted_frame \<Rightarrow> bool" where
  "later_frame f g \<longleftrightarrow> tf_frame_sequence f < tf_frame_sequence g \<and> tf_source_frame_qpc f < tf_source_frame_qpc g
     \<and> tf_device_generation f = tf_device_generation g \<and> tf_geometry_epoch f \<le> tf_geometry_epoch g"

text \<open>C28. The frames an adapter admits from any sequence advance: sequence number and capture time grow strictly, the device generation
  stays, the geometry epoch never falls. All of them show the expected target outside protected sessions, and every embedding in
  them is valid, of the pinned model, and taken from exactly that frame by its number and content digest.\<close>

theorem admitted_evidence_advances:
  "sorted_wrt later_frame (admitted a fs) \<and> (\<forall>f\<in>set (admitted a fs). trustworthy a f)"
proof -
  have "sorted_wrt later_frame (admitted a fs)"
  proof (induction fs arbitrary: a)
    case (Cons f fs)
    obtain res a' where ad: "adapt f a = (res, a')" by fastforce
    show ?case
    proof (cases res)
      case (Inr fr)
      note A = adapt_Inr [OF ad [unfolded Inr]]
      have "later_frame f g" if "g \<in> set (admitted a' fs)" for g
        using admitted_frames [OF that] A(2) unfolding A(3) by (auto simp: advances_def later_frame_def trustworthy_def)
      then show ?thesis using Cons.IH [of a'] ad Inr by simp
    qed (use Cons.IH ad in simp)
  qed simp
  then show ?thesis using admitted_frames by blast
qed

text \<open>Behind the adapter recognition cannot fail. When the engine's gallery is of the adapter's pinned model, a piece of evidence is
  either refused by the adapter, which then changes nothing, or refused by the tracker, which leaves the resolver unchanged, or
  answered with a decision for every actor of the frame.\<close>

theorem trusted_evidence_outcome:
  assumes "engine_reachable env e" and "list_all (\<lambda>d. embedding_typed (dt_embedding d)) (tf_observations f)"
    and "ga_model (rs_gallery (en_resolver e)) = pq_model (ea_qualification a)" and "process_evidence env f a e = (res, a', e')"
  shows "(case res of
            Inl err \<Rightarrow> a' = a \<and> e' = e \<or> (\<exists>t. err = QualifiedEngine (EngineTracker t)) \<and> en_resolver e' = en_resolver e
          | Inr up \<Rightarrow> advances a f \<and> trustworthy a f \<and> fi_frame_index up = tf_frame_sequence f
              \<and> map ai_track (fi_actors up) = tracker_snapshot (en_tracker e')
              \<and> (\<forall>x\<in>set (fi_actors up). decision_sound (en_resolver e') (ai_track x) (ai_identity x)))"
proof -
  obtain ares a1 where ad: "adapt f a = (ares, a1)" by fastforce
  show ?thesis
  proof (cases ares)
    case (Inl err)
    then show ?thesis using assms(4) ad adapt_Inl [of f a err a1] by (auto simp: process_evidence_def)
  next
    case (Inr fr)
    note A = adapt_Inr [OF ad [unfolded Inr]]
    obtain pres e1 where p: "process_frame env fr e = (pres, e1)" by fastforce
    have out: "res = map_err QualifiedEngine pres" "e' = e1" using assms(4) ad Inr p by (simp_all add: process_evidence_def)
    have "frame_typed fr" using assms(2) by (simp add: frame_typed_def A(4))
    from process_frame_ok(2) [OF engine_reachable_inv [OF assms(1)] this p] have o: "frame_outcome fr e pres e1" .
    have "eb_model x = ga_model (rs_gallery (en_resolver e))" if "d \<in> set (fa_detections fr)" "dt_embedding d = Some x" for d x
      using A(2) that assms(3) by (auto simp: trustworthy_def A(4))
    then show ?thesis using o A(1,2) out by (cases pres) (auto simp: frame_outcome_def map_err_def A(4))
  qed
qed

section \<open>An example\<close>

definition sample_digest :: rstr where
  "sample_digest = concat (replicate 32 [48, 55])"

definition sample_qualification :: pinned_qualification where
  "sample_qualification = \<lparr>pq_qualification_id = [113], pq_model = sample_model, pq_detector_id = [100], pq_detector_revision = [114],
     pq_preprocessing = [120], pq_calibration_fixture_sha256 = sample_digest, pq_calibrated_config = sample_identity_config\<rparr>"

definition sample_metadata :: embedding_metadata where
  "sample_metadata = \<lparr>mt_source_frame_index = 1, mt_crop_bounds = sample_crop, mt_detector_id = [100], mt_detector_revision = [114],
     mt_preprocessing = [120], mt_source_digest_sha256 = Some sample_digest\<rparr>"

definition sample_import :: portable_reference_import where
  "sample_import = \<lparr>pi_schema_version = 1,
     pi_provenance = \<lparr>rp_game_profile_id = [103], rp_subject_id = [97], rp_reference_id = [114], rp_source_class = UserPrivate,
       rp_source_content_sha256 = sample_digest, rp_owner_user_id = Some [117], rp_original_work_license = None,
       rp_explicit_user_consent = True, rp_local_only = True, rp_imported_at_ms = 0\<rparr>,
     pi_subject_display_name = [65], pi_model = sample_model, pi_metadata = sample_metadata, pi_transport = F32Le,
     pi_tensor_sha256 = sample_digest, pi_tensor_f32le = [0, 0, 128, 63]\<rparr>"

definition sample_qualified :: qualified_gallery where
  "sample_qualified = \<lparr>qg_schema_version = 1, qg_game_profile_id = [103], qg_qualification = sample_qualification,
     qg_gallery = \<lparr>ga_schema_version = 1, ga_model = sample_model, ga_subjects = []\<rparr>, qg_reference_provenance = []\<rparr>"

lemma sample_digest_ok: "blen sample_digest = 64" "valid_sha256 sample_digest" "list_all is_ascii_hexdigit sample_digest"
  "sha256_hex tracking_env bytes = sample_digest"
proof -
  have len: "blen (concat (replicate n [48, 55])) = 2 * n" for n by (induction n) (simp_all add: len_utf8_def)
  have all: "list_all P [48, 55] \<Longrightarrow> list_all P (concat (replicate n [48, 55]))" for P :: "nat \<Rightarrow> bool" and n by (induction n) simp_all
  have hex: "hex_byte 7 = [48, 55]" by (simp add: hex_byte_def hex_digit_def)
  show "blen sample_digest = 64" by (simp add: sample_digest_def len)
  then show "valid_sha256 sample_digest" by (simp add: valid_sha256_def sample_digest_def all lower_hex_digit_def is_ascii_digit_def)
  show "list_all is_ascii_hexdigit sample_digest" by (simp add: sample_digest_def all is_ascii_hexdigit_def is_ascii_digit_def)
  show "sha256_hex tracking_env bytes = sample_digest" by (simp add: sha256_hex_def tracking_env_def sample_digest_def hex)
qed

lemma sample_tensor: "tensor_values [0, 0, 128, 63] = [f_one]"
  by (simp add: f32_from_le_bytes_def f32_from_bits_def Let_def pow2_def)

lemma sample_identifier: "valid_identifier [c] \<longleftrightarrow> identifier_byte c \<and> len_utf8 c \<le> 256"
  by (auto simp: valid_identifier_def)

lemma sample_config_valid: "validate_identity_config sample_identity_config = Inr ()"
  using sample_resolver_new(1) by (auto simp: new_resolver_def bind_result_Inr_iff)

lemma sample_model_valid: "validate_model sample_model = Inr ()"
  using validate_embedding_model [OF sample_embedding_valid] by (simp add: sample_embedding_def)

lemma sample_qualification_valid: "validate_qualification sample_qualification = Inr ()"
  using sample_config_valid sample_model_valid sample_digest_ok(2)
  by (simp add: validate_qualification_def sample_qualification_def map_err_def sample_identifier identifier_byte_def is_ascii_alphanumeric_def
      is_ascii_digit_def len_utf8_def is_blank_iff is_whitespace_def)

lemma sample_qualified_valid: "validate_qualified_gallery sample_qualified = Inr ()"
  using sample_qualification_valid sample_model_valid
  by (simp add: validate_qualified_gallery_def sample_qualified_def QUALIFIED_IDENTITY_SCHEMA_VERSION_def sample_identifier identifier_byte_def
      is_ascii_alphanumeric_def is_ascii_digit_def len_utf8_def validate_gallery_def IDENTITY_GALLERY_SCHEMA_VERSION_def map_err_def
      gallery_references_def Let_def)
     (simp add: sample_qualification_def)

lemma sample_unit_embedding: "\<exists>e. new_embedding sample_model sample_metadata [f_one] = Inr e"
proof -
  have meta: "validate_embedding_metadata sample_metadata = Inr ()"
    using sample_digest_ok
    by (simp add: validate_embedding_metadata_def sample_metadata_def validate_box_def sample_crop_def map_err_def is_blank_iff is_whitespace_def f_le_def)
  have raw: "validate_raw_values sample_model [f_one] = Inr ()" by (simp add: validate_raw_values_def sample_model_def)
  have "\<not> f_less UNIT_NORM_TOLERANCE (F_Num False 0)"
    using rounded_pow2(3) [of "1 / 1000"] by (simp add: UNIT_NORM_TOLERANCE_def f32_of_def f32_round_cases f_less_def f_le_def)
  then show ?thesis
    using meta raw sample_model_valid
    by (simp add: new_embedding_def unit_vector F_EPSILON_def f_le_def Let_def validate_embedding_def f_sub_def)
qed

lemma sample_prepared: "\<exists>s. prepare_import tracking_env sample_import sample_qualified = Inr s"
proof -
  obtain e where e: "new_embedding sample_model sample_metadata [f_one] = Inr e" using sample_unit_embedding by blast
  have "import_admissible tracking_env sample_qualified sample_import"
    by (simp add: import_admissible_def sample_import_def sample_qualified_def sample_qualification_def sample_digest_ok sample_metadata_def
        QUALIFIED_IDENTITY_SCHEMA_VERSION_def sample_model_def MAX_REFERENCE_DIMENSIONS_def u64_max_def is_blank_iff is_whitespace_def len_utf8_def)
  moreover have "validate_provenance (qg_game_profile_id sample_qualified) (pi_provenance sample_import) = Inr ()"
    using sample_digest_ok(2)
    by (simp add: validate_provenance_def sample_qualified_def sample_import_def sample_identifier identifier_byte_def is_ascii_alphanumeric_def
        is_ascii_digit_def len_utf8_def)
  moreover have "new_embedding (pi_model sample_import) (pi_metadata sample_import) (tensor_values (pi_tensor_f32le sample_import)) = Inr e"
    using e unfolding sample_import_def by (simp only: portable_reference_import.select_convs sample_tensor)
  moreover have "mt_source_digest_sha256 (pi_metadata sample_import) = Some (rp_source_content_sha256 (pi_provenance sample_import))"
    by (simp add: sample_import_def sample_metadata_def)
  moreover have "qg_reference_provenance sample_qualified = []" "ga_subjects (qg_gallery sample_qualified) = []" by (simp_all add: sample_qualified_def)
  ultimately show ?thesis using sample_qualified_valid by (simp add: prepare_import_def merged_subject_def map_err_def)
qed

theorem import_is_atomic_witness:
  "fst (import_reference tracking_env sample_import sample_qualified) = Inr ()
     \<and> validate_qualified_gallery (snd (import_reference tracking_env sample_import sample_qualified)) = Inr ()"
proof -
  have wf: "maps_wf sample_qualified" by (simp add: maps_wf_def sample_qualified_def)
  obtain s where s: "prepare_import tracking_env sample_import sample_qualified = Inr s" using sample_prepared by blast
  have "fst (import_reference tracking_env sample_import sample_qualified) = Inr ()"
    using import_validates(1) [OF wf s] s by (simp add: import_reference_def Let_def)
  then show ?thesis using import_is_atomic [OF wf surjective_pairing, of tracking_env sample_import] by simp
qed

definition game_window :: trusted_capture_target where
  "game_window = \<lparr>ct_capture_session_id = [115], ct_process_id = 1, ct_window_handle = 1, ct_executable_name = [97, 46, 69, 88, 69]\<rparr>"

definition sample_evidence :: "nat \<Rightarrow> trusted_frame" where
  "sample_evidence n = \<lparr>tf_schema_version = 1, tf_target = game_window, tf_frame_sequence = n, tf_device_generation = 1, tf_geometry_epoch = 1,
     tf_source_frame_qpc = n, tf_qpc_frequency = 1, tf_captured_at_ms = 0, tf_content_sha256 = sample_digest,
     tf_advancing_frame_verified = True, tf_overlay_capture_excluded = True, tf_protected_online_detected = False,
     tf_anti_cheat_detected = False, tf_observations = [sample_detection 0 1]\<rparr>"

definition idle_adapter :: evidence_adapter where
  "idle_adapter = \<lparr>ea_expected_target = game_window, ea_qualification = sample_qualification, ea_last_frame_sequence = None,
     ea_last_source_frame_qpc = None, ea_device_generation = None, ea_geometry_epoch = None\<rparr>"

lemma sample_evidence_checked:
  "n \<noteq> 0 \<Longrightarrow> is_some_and (ea_last_frame_sequence a) (\<lambda>l. n \<le> l) = False \<Longrightarrow> is_some_and (ea_last_source_frame_qpc a) (\<lambda>l. n \<le> l) = False
    \<Longrightarrow> ea_expected_target a = game_window \<Longrightarrow> ea_device_generation a \<in> {None, Some 1} \<Longrightarrow> ea_geometry_epoch a \<in> {None, Some 1}
    \<Longrightarrow> check_frame a (sample_evidence n) = Inr ()"
  using sample_digest_ok(2)
  by (auto simp: check_frame_def validate_target_def sample_evidence_def game_window_def sample_identifier identifier_byte_def
      is_ascii_alphanumeric_def is_ascii_digit_def len_utf8_def ends_with_def to_ascii_lowercase_def lit_def untrusted_frame_def
      QUALIFIED_IDENTITY_SCHEMA_VERSION_def MAX_FRAME_OBSERVATIONS_def is_some_and_def check_observation_def sample_detection_def
      sample_box_def validate_box_def map_err_def unit_interval_def f_in_def f_le_def)

theorem admitted_evidence_advances_witness:
  "later_frame (sample_evidence 1) (sample_evidence 2) \<and> admitted idle_adapter [sample_evidence 1, sample_evidence 1, sample_evidence 2]
     = [sample_evidence 1, sample_evidence 2]"
proof -
  have one: "check_frame idle_adapter (sample_evidence 1) = Inr ()"
    by (rule sample_evidence_checked) (simp_all add: idle_adapter_def is_some_and_def)
  define a where "a = snd (adapt (sample_evidence 1) idle_adapter)"
  have a: "adapt (sample_evidence 1) idle_adapter = (fst (adapt (sample_evidence 1) idle_adapter), a)" "\<exists>x. fst (adapt (sample_evidence 1) idle_adapter) = Inr x"
    using one by (simp_all add: a_def adapt_def)
  have a': "ea_last_frame_sequence a = Some 1" "ea_last_source_frame_qpc a = Some 1" "ea_expected_target a = game_window"
    "ea_device_generation a = Some 1" "ea_geometry_epoch a = Some 1"
    using one by (simp_all add: a_def adapt_def sample_evidence_def idle_adapter_def)
  have "check_frame a (sample_evidence 2) = Inr ()" by (rule sample_evidence_checked) (simp_all add: a' is_some_and_def)
  moreover have "check_frame a (sample_evidence 1) \<noteq> Inr ()"
    by (auto simp: check_frame_def bind_result_Inr_iff untrusted_frame_def is_some_and_def a') (simp_all add: sample_evidence_def)
  ultimately have ad: "admitted idle_adapter [sample_evidence 1, sample_evidence 1, sample_evidence 2] = [sample_evidence 1, sample_evidence 2]"
    using a by (auto simp: adapt_def [of _ a] split: sum.splits prod.splits)
  show ?thesis using admitted_evidence_advances [of idle_adapter "[sample_evidence 1, sample_evidence 1, sample_evidence 2]"] unfolding ad by simp
qed

lemma sample_evidence_tracked:
  "\<exists>tu a'. update_tracker tracking_env idle_tracker \<lparr>fa_frame_index = 1, fa_timestamp_ms = 0, fa_detections = [sample_detection 0 1]\<rparr> = (Inr tu, a')"
proof (rule update_succeeds [OF tracker_reachable_inv [OF tracker_new [OF new_sample_tracker_ok]]])
  have "validate_detections [] [sample_detection 0 1] = Inr ()" by code_simp
  then show "validate_frame idle_tracker \<lparr>fa_frame_index = 1, fa_timestamp_ms = 0, fa_detections = [sample_detection 0 1]\<rparr> = Inr ()"
    by (simp add: validate_frame_def idle_tracker_def)
qed (auto simp: idle_tracker_def u64_max_def)

theorem trusted_evidence_outcome_witness:
  "\<exists>up. fst (process_evidence tracking_env (sample_evidence 1) idle_adapter sample_engine) = Inr up \<and> fi_frame_index up = 1"
proof -
  obtain res a' e' where p: "process_evidence tracking_env (sample_evidence 1) idle_adapter sample_engine = (res, a', e')"
    by (cases "process_evidence tracking_env (sample_evidence 1) idle_adapter sample_engine")
  have "check_frame idle_adapter (sample_evidence 1) = Inr ()"
    by (rule sample_evidence_checked) (simp_all add: idle_adapter_def is_some_and_def)
  then have a': "a' \<noteq> idle_adapter" and no: "res \<noteq> Inl (QualifiedEngine (EngineTracker t))" for t
    using p sample_evidence_tracked
    by (auto simp: process_evidence_def adapt_def process_frame_def sample_engine_def new_engine_def Let_def map_err_def sample_evidence_def
        idle_adapter_def split: prod.splits sum.splits)
  have seq: "tf_frame_sequence (sample_evidence 1) = 1" by (simp add: sample_evidence_def)
  have "list_all (\<lambda>d. embedding_typed (dt_embedding d)) (tf_observations (sample_evidence 1))"
    by (simp add: sample_evidence_def sample_detection_def embedding_typed_def)
  moreover have "ga_model (rs_gallery (en_resolver sample_engine)) = pq_model (ea_qualification idle_adapter)"
    by (simp add: sample_engine_def new_engine_def sample_resolver_def sample_gallery_def idle_adapter_def sample_qualification_def)
  ultimately show ?thesis
    using trusted_evidence_outcome [OF sample_engine_reachable _ _ p] a' no p seq by (cases res) auto
qed

end
