(* ===== verification/Work_Scheduler.thy ===== *)
theory Work_Scheduler
  imports Ordered_Maps "HOL-Library.Product_Lexorder"
begin

text \<open>
  The queue of native work, \<open>WorkSchedulerV1\<close> of \<open>crates/model-manager/src/resource_governor.rs\<close>: bounded admission with
  preemption, the clock of visual work, dispatch by priority, and shedding under pressure. Numbers are \<open>u64\<close> values kept as
  \<open>nat\<close>; the one addition is checked. \<open>None\<close> stands for the panic of an \<open>expect\<close>.
\<close>

section \<open>Work\<close>

datatype work_kind = WkLipSync | WkSpeechRecognition | WkSpeechSynthesis | WkLanguageModel | WkVision | WkEmbedding

fun kind_rank :: "work_kind \<Rightarrow> nat" where
  "kind_rank WkLipSync = 0"
| "kind_rank WkSpeechRecognition = 1"
| "kind_rank WkSpeechSynthesis = 2"
| "kind_rank WkLanguageModel = 3"
| "kind_rank WkVision = 4"
| "kind_rank WkEmbedding = 5"

instantiation work_kind :: linorder
begin

definition less_eq_work_kind :: "work_kind \<Rightarrow> work_kind \<Rightarrow> bool" where
  "less_eq_work_kind a b \<longleftrightarrow> kind_rank a \<le> kind_rank b"

definition less_work_kind :: "work_kind \<Rightarrow> work_kind \<Rightarrow> bool" where
  "less_work_kind a b \<longleftrightarrow> kind_rank a < kind_rank b"

instance
proof
  fix a b :: work_kind
  show "a \<le> b \<Longrightarrow> b \<le> a \<Longrightarrow> a = b"
    by (cases a; cases b) (auto simp: less_eq_work_kind_def)
qed (auto simp: less_eq_work_kind_def less_work_kind_def)

end

fun work_priority :: "work_kind \<Rightarrow> nat" where
  "work_priority WkLipSync = 6"
| "work_priority WkSpeechRecognition = 5"
| "work_priority WkSpeechSynthesis = 4"
| "work_priority WkLanguageModel = 3"
| "work_priority WkVision = 2"
| "work_priority WkEmbedding = 1"

fun is_interactive :: "work_kind \<Rightarrow> bool" where
  "is_interactive WkVision = False"
| "is_interactive WkEmbedding = False"
| "is_interactive _ = True"

fun is_visual :: "work_kind \<Rightarrow> bool" where
  "is_visual WkLipSync = True"
| "is_visual WkVision = True"
| "is_visual _ = False"

record visual_address =
  va_generation_id :: nat
  va_frame_id :: nat

record work_item =
  wi_work_id :: rstr
  wi_kind :: work_kind
  wi_submitted_monotonic_millis :: nat
  wi_deadline_monotonic_millis :: nat
  wi_visual :: "visual_address option"

datatype cancellation_reason =
    PreemptedByInteractive | SupersededVisualWork | StaleGeneration | StaleFrame | DeadlineExpired | QueuePressure
  | QueueCapacity | CancelledByNativeRuntime | AdmissionRevoked

record work_cancellation =
  wc_work_id :: rstr
  wc_reason :: cancellation_reason

record work_submit_result =
  wr_accepted :: bool
  wr_cancellations :: "work_cancellation list"

record work_queue_policy =
  wq_maximum_pending :: nat

datatype work_scheduler_error =
    InvalidQueuePolicy | InvalidWorkId | InvalidDeadline | InvalidVisualAddress | DuplicateWorkId | VisualClockWentBackward
  | SequenceOverflow

datatype resource_pressure_level = PressureNormal | PressureElevated | PressureCritical

record scheduled_work =
  sw_sequence :: nat
  sw_item :: work_item

record work_scheduler =
  ws_policy :: work_queue_policy
  ws_sequence :: nat
  ws_pending :: "(rstr, scheduled_work) btree"
  ws_visual_generation_id :: nat
  ws_visual_frame_id :: nat

definition default_work_queue_policy :: work_queue_policy where
  "default_work_queue_policy = \<lparr>wq_maximum_pending = 256\<rparr>"

definition validate_work_queue_policy :: "work_queue_policy \<Rightarrow> (work_scheduler_error, unit) result" where
  "validate_work_queue_policy p =
     (if wq_maximum_pending p = 0 \<or> wq_maximum_pending p > 65536 then Inl InvalidQueuePolicy else Inr ())"

definition default_work_scheduler :: work_scheduler where
  "default_work_scheduler = \<lparr>ws_policy = default_work_queue_policy, ws_sequence = 0, ws_pending = [],
     ws_visual_generation_id = 0, ws_visual_frame_id = 0\<rparr>"

definition scheduler_with_policy :: "work_queue_policy \<Rightarrow> (work_scheduler_error, work_scheduler) result" where
  "scheduler_with_policy p =
     bind_result (validate_work_queue_policy p) (\<lambda>_. Inr (default_work_scheduler\<lparr>ws_policy := p\<rparr>))"

section \<open>Validation\<close>

definition work_token_byte :: "uchar \<Rightarrow> bool" where
  "work_token_byte c \<longleftrightarrow> is_ascii_alphanumeric c \<or> c = 46 \<or> c = 45 \<or> c = 95"

definition valid_token :: "rstr \<Rightarrow> nat \<Rightarrow> nat \<Rightarrow> bool" where
  "valid_token v lo hi \<longleftrightarrow> lo \<le> blen v \<and> blen v \<le> hi \<and> list_all work_token_byte v"

definition validate_work_item :: "work_item \<Rightarrow> nat \<Rightarrow> (work_scheduler_error, unit) result" where
  "validate_work_item item now =
     (if \<not> valid_token (wi_work_id item) 8 128 then Inl InvalidWorkId
      else if wi_submitted_monotonic_millis item = 0 \<or> wi_submitted_monotonic_millis item > now
        \<or> wi_deadline_monotonic_millis item \<le> now
        \<or> wi_deadline_monotonic_millis item < wi_submitted_monotonic_millis item then Inl InvalidDeadline
      else if is_visual (wi_kind item) \<noteq> (wi_visual item \<noteq> None) then Inl InvalidVisualAddress
      else if (case wi_visual item of None \<Rightarrow> False | Some v \<Rightarrow> va_generation_id v = 0 \<or> va_frame_id v = 0)
        then Inl InvalidVisualAddress
      else Inr ())"

section \<open>Sweeps\<close>

text \<open>The comparison of a visual address with the clock, which submission, the clock and the pressure test share.\<close>

definition stale_reason :: "nat \<Rightarrow> nat \<Rightarrow> visual_address option \<Rightarrow> cancellation_reason option" where
  "stale_reason generation frame visual =
     (case visual of
        None \<Rightarrow> None
      | Some v \<Rightarrow>
          if va_generation_id v < generation then Some StaleGeneration
          else if va_generation_id v = generation \<and> va_frame_id v < frame then Some StaleFrame
          else None)"

definition or_else :: "'a option \<Rightarrow> 'a option \<Rightarrow> 'a option" where
  "or_else a b = (case a of None \<Rightarrow> b | Some x \<Rightarrow> Some x)"

abbreviation clock_stale :: "work_scheduler \<Rightarrow> work_item \<Rightarrow> cancellation_reason option" where
  "clock_stale s item \<equiv> stale_reason (ws_visual_generation_id s) (ws_visual_frame_id s) (wi_visual item)"

definition submit_reason :: "work_item \<Rightarrow> work_scheduler \<Rightarrow> work_item \<Rightarrow> cancellation_reason option" where
  "submit_reason item s existing =
     or_else (or_else (clock_stale s existing)
       (if is_interactive (wi_kind item) \<and> (wi_kind existing = WkEmbedding \<or> wi_kind existing = WkVision)
        then Some PreemptedByInteractive else None))
       (if is_visual (wi_kind item) \<and> is_visual (wi_kind existing) \<and> wi_kind existing = wi_kind item
        then Some SupersededVisualWork else None)"

definition clock_reason :: "nat \<Rightarrow> work_scheduler \<Rightarrow> work_item \<Rightarrow> cancellation_reason option" where
  "clock_reason now s existing =
     (if wi_deadline_monotonic_millis existing \<le> now then Some DeadlineExpired else clock_stale s existing)"

fun shed_for_pressure :: "resource_pressure_level \<Rightarrow> work_kind \<Rightarrow> bool" where
  "shed_for_pressure PressureNormal _ = False"
| "shed_for_pressure PressureElevated k = (k = WkEmbedding \<or> k = WkVision)"
| "shed_for_pressure PressureCritical k = (k = WkEmbedding \<or> k = WkVision \<or> k = WkSpeechSynthesis)"

definition pressure_reason ::
  "resource_pressure_level \<Rightarrow> nat \<Rightarrow> work_scheduler \<Rightarrow> work_item \<Rightarrow> cancellation_reason option" where
  "pressure_reason level now s existing =
     (if wi_deadline_monotonic_millis existing \<le> now then Some DeadlineExpired
      else if clock_stale s existing \<noteq> None then clock_stale s existing
      else if shed_for_pressure level (wi_kind existing) then Some QueuePressure
      else None)"

text \<open>The loop over the pending keys; a key that is no longer there is the panic of the \<open>expect\<close>.\<close>

fun sweep ::
  "(work_item \<Rightarrow> cancellation_reason option) \<Rightarrow> rstr list \<Rightarrow> work_scheduler
     \<Rightarrow> (work_cancellation list \<times> work_scheduler) option" where
  "sweep why [] s = Some ([], s)"
| "sweep why (i # ids) s =
     (case bt_get (ws_pending s) i of
        None \<Rightarrow> None
      | Some w \<Rightarrow>
          (case why (sw_item w) of
             None \<Rightarrow> sweep why ids s
           | Some reason \<Rightarrow>
               map_option (\<lambda>(cs, s'). (\<lparr>wc_work_id = i, wc_reason = reason\<rparr> # cs, s'))
                 (sweep why ids (s\<lparr>ws_pending := bt_remove i (ws_pending s)\<rparr>))))"

abbreviation pending_ids :: "work_scheduler \<Rightarrow> rstr list" where
  "pending_ids s \<equiv> map fst (ws_pending s)"

section \<open>Submission\<close>

text \<open>\<open>Iterator::min_by_key\<close> keeps the first of equal keys, \<open>max_by_key\<close> the last.\<close>

fun min_by_key :: "('a \<Rightarrow> 'k::linorder) \<Rightarrow> 'a list \<Rightarrow> 'a option" where
  "min_by_key f [] = None"
| "min_by_key f (x # xs) = Some (fold (\<lambda>y m. if f y < f m then y else m) xs x)"

fun max_by_key :: "('a \<Rightarrow> 'k::linorder) \<Rightarrow> 'a list \<Rightarrow> 'a option" where
  "max_by_key f [] = None"
| "max_by_key f (x # xs) = Some (fold (\<lambda>y m. if f y < f m then m else y) xs x)"

definition observe_address :: "work_item \<Rightarrow> work_scheduler \<Rightarrow> work_scheduler" where
  "observe_address item s =
     (case wi_visual item of
        None \<Rightarrow> s
      | Some v \<Rightarrow> s\<lparr>ws_visual_generation_id := va_generation_id v, ws_visual_frame_id := va_frame_id v\<rparr>)"

text \<open>The capacity test: whether the item is let in, and the work cancelled for it.\<close>

definition make_room :: "work_item \<Rightarrow> work_scheduler \<Rightarrow> (bool \<times> work_cancellation list \<times> work_scheduler) option" where
  "make_room item s =
     (if length (ws_pending s) \<ge> wq_maximum_pending (ws_policy s) then
        (case min_by_key (\<lambda>(_, w). (work_priority (wi_kind (sw_item w)), sw_sequence w)) (ws_pending s) of
           None \<Rightarrow> None
         | Some (i, w) \<Rightarrow>
             if work_priority (wi_kind item) > work_priority (wi_kind (sw_item w))
             then Some (True, [\<lparr>wc_work_id = i, wc_reason = QueueCapacity\<rparr>],
                    s\<lparr>ws_pending := bt_remove i (ws_pending s)\<rparr>)
             else Some (False, [\<lparr>wc_work_id = wi_work_id item, wc_reason = QueueCapacity\<rparr>], s))
      else Some (True, [], s))"

definition enqueue_work ::
  "work_item \<Rightarrow> work_cancellation list \<Rightarrow> work_scheduler \<Rightarrow> (work_scheduler_error, work_submit_result) result \<times> work_scheduler" where
  "enqueue_work item cs s =
     (if ws_sequence s + 1 > u64_max then (Inl SequenceOverflow, s)
      else
        (let s' = s\<lparr>ws_sequence := ws_sequence s + 1\<rparr> in
         (Inr \<lparr>wr_accepted = True, wr_cancellations = cs\<rparr>,
          s'\<lparr>ws_pending := bt_insert (wi_work_id item) \<lparr>sw_sequence = ws_sequence s', sw_item = item\<rparr> (ws_pending s')\<rparr>)))"

definition submit_work ::
  "work_item \<Rightarrow> nat \<Rightarrow> work_scheduler
     \<Rightarrow> ((work_scheduler_error, work_submit_result) result \<times> work_scheduler) option" where
  "submit_work item now s =
     (case validate_work_item item now of
        Inl e \<Rightarrow> Some (Inl e, s)
      | Inr _ \<Rightarrow>
          if bt_get (ws_pending s) (wi_work_id item) \<noteq> None then Some (Inl DuplicateWorkId, s)
          else
            (case clock_stale s item of
               Some r \<Rightarrow>
                 Some (Inr \<lparr>wr_accepted = False, wr_cancellations = [\<lparr>wc_work_id = wi_work_id item, wc_reason = r\<rparr>]\<rparr>, s)
             | None \<Rightarrow>
                 (let s1 = observe_address item s in
                  Option.bind (sweep (submit_reason item s1) (pending_ids s1) s1) (\<lambda>(cs, s2).
                    map_option (\<lambda>(admitted, cs', s3).
                        if admitted then enqueue_work item (cs @ cs') s3
                        else (Inr \<lparr>wr_accepted = False, wr_cancellations = cs @ cs'\<rparr>, s3))
                      (make_room item s2)))))"

section \<open>The clock, dispatch and cancellation\<close>

definition advance_visual_clock ::
  "nat \<Rightarrow> nat \<Rightarrow> nat \<Rightarrow> work_scheduler
     \<Rightarrow> ((work_scheduler_error, work_cancellation list) result \<times> work_scheduler) option" where
  "advance_visual_clock generation frame now s =
     (if generation < ws_visual_generation_id s
         \<or> generation = ws_visual_generation_id s \<and> frame < ws_visual_frame_id s
      then Some (Inl VisualClockWentBackward, s)
      else
        (let s1 = s\<lparr>ws_visual_generation_id := generation, ws_visual_frame_id := frame\<rparr> in
         map_option (\<lambda>(cs, s'). (Inr cs, s')) (sweep (clock_reason now s1) (pending_ids s1) s1)))"

definition drop_expired :: "nat \<Rightarrow> work_scheduler \<Rightarrow> work_scheduler" where
  "drop_expired now s =
     s\<lparr>ws_pending :=
         fold bt_remove (map fst (filter (\<lambda>(_, w). wi_deadline_monotonic_millis (sw_item w) \<le> now) (ws_pending s)))
           (ws_pending s)\<rparr>"

text \<open>\<open>Reverse(sequence)\<close> orders downwards, as the negated number does.\<close>

definition dispatch_key :: "rstr \<times> scheduled_work \<Rightarrow> nat \<times> int" where
  "dispatch_key e = (work_priority (wi_kind (sw_item (snd e))), - int (sw_sequence (snd e)))"

definition take_pending :: "(rstr \<times> scheduled_work) option \<Rightarrow> work_scheduler \<Rightarrow> work_item option \<times> work_scheduler" where
  "take_pending next s =
     (case next of
        None \<Rightarrow> (None, s)
      | Some (i, _) \<Rightarrow>
          (map_option sw_item (bt_get (ws_pending s) i), s\<lparr>ws_pending := bt_remove i (ws_pending s)\<rparr>))"

definition pop_next :: "nat \<Rightarrow> work_scheduler \<Rightarrow> work_item option \<times> work_scheduler" where
  "pop_next now s = (let s1 = drop_expired now s in take_pending (max_by_key dispatch_key (ws_pending s1)) s1)"

definition pop_next_kind :: "work_kind \<Rightarrow> nat \<Rightarrow> work_scheduler \<Rightarrow> work_item option \<times> work_scheduler" where
  "pop_next_kind kind now s =
     (let s1 = drop_expired now s in
      take_pending (min_by_key (\<lambda>(_, w). sw_sequence w) (filter (\<lambda>(_, w). wi_kind (sw_item w) = kind) (ws_pending s1))) s1)"

definition cancel_kind ::
  "rstr \<Rightarrow> work_kind \<Rightarrow> cancellation_reason \<Rightarrow> work_scheduler \<Rightarrow> work_cancellation option \<times> work_scheduler" where
  "cancel_kind i kind reason s =
     (if (case bt_get (ws_pending s) i of None \<Rightarrow> True | Some w \<Rightarrow> wi_kind (sw_item w) \<noteq> kind) then (None, s)
      else (Some \<lparr>wc_work_id = i, wc_reason = reason\<rparr>, s\<lparr>ws_pending := bt_remove i (ws_pending s)\<rparr>))"

text \<open>The lazy \<open>filter_map\<close> over the collected keys.\<close>

fun cancel_each ::
  "(rstr \<Rightarrow> work_scheduler \<Rightarrow> work_cancellation option \<times> work_scheduler) \<Rightarrow> rstr list \<Rightarrow> work_scheduler
     \<Rightarrow> work_cancellation list \<times> work_scheduler" where
  "cancel_each f [] s = ([], s)"
| "cancel_each f (i # ids) s =
     (case f i s of (c, s1) \<Rightarrow>
        case cancel_each f ids s1 of (cs, s2) \<Rightarrow> ((case c of None \<Rightarrow> cs | Some c' \<Rightarrow> c' # cs), s2))"

definition cancel_all_kind :: "work_kind \<Rightarrow> cancellation_reason \<Rightarrow> work_scheduler \<Rightarrow> work_cancellation list \<times> work_scheduler" where
  "cancel_all_kind kind reason s =
     cancel_each (\<lambda>i. cancel_kind i kind reason)
       (map fst (filter (\<lambda>(_, w). wi_kind (sw_item w) = kind) (ws_pending s))) s"

definition cancel_one :: "cancellation_reason \<Rightarrow> rstr \<Rightarrow> work_scheduler \<Rightarrow> work_cancellation option \<times> work_scheduler" where
  "cancel_one reason i s =
     (map_option (\<lambda>_. \<lparr>wc_work_id = i, wc_reason = reason\<rparr>) (bt_get (ws_pending s) i),
      s\<lparr>ws_pending := bt_remove i (ws_pending s)\<rparr>)"

definition cancel_all :: "cancellation_reason \<Rightarrow> work_scheduler \<Rightarrow> work_cancellation list \<times> work_scheduler" where
  "cancel_all reason s = cancel_each (cancel_one reason) (pending_ids s) s"

definition pending_len :: "work_scheduler \<Rightarrow> nat" where
  "pending_len s = length (ws_pending s)"

definition pending_by_kind :: "work_scheduler \<Rightarrow> (work_kind, nat) btree" where
  "pending_by_kind s =
     fold (\<lambda>(_, w) counts. let k = wi_kind (sw_item w) in
             bt_insert k ((case bt_get counts k of None \<Rightarrow> 0 | Some n \<Rightarrow> n) + 1) counts) (ws_pending s) []"

definition apply_pressure ::
  "resource_pressure_level \<Rightarrow> nat \<Rightarrow> work_scheduler \<Rightarrow> (work_cancellation list \<times> work_scheduler) option" where
  "apply_pressure level now s = sweep (pressure_reason level now s) (pending_ids s) s"

end
