(* ===== verification/Scheduler_Properties.thy ===== *)
theory Scheduler_Properties
  imports Work_Scheduler "HOL-Library.Multiset"
begin

text \<open>
  What the scheduler of native work guarantees in every reachable state: no panic, a bounded queue whose visual work is always
  that of the current frame, an account of every submitted and every cancelled item, and dispatch in the order of priority and
  age.
\<close>

section \<open>Loops and selections\<close>

lemma sweep_suffix:
  assumes "distinct (map fst (pre @ rest))"
  shows "sweep why (map fst rest) (s\<lparr>ws_pending := pre @ rest\<rparr>) =
     Some (map (\<lambda>e. \<lparr>wc_work_id = fst e, wc_reason = the (why (sw_item (snd e)))\<rparr>) (filter (\<lambda>e. why (sw_item (snd e)) \<noteq> None) rest),
       s\<lparr>ws_pending := pre @ filter (\<lambda>e. why (sw_item (snd e)) = None) rest\<rparr>)"
  using assms
proof (induction rest arbitrary: pre)
  case (Cons e rest)
  obtain i w where e: "e = (i, w)" by (cases e)
  have absent: "i \<notin> fst ` set pre" "i \<notin> fst ` set rest" using Cons.prems e by auto
  have get: "bt_get (pre @ e # rest) i = Some w"
    using absent e by (simp add: map_add_def map_of_eq_None_iff [THEN iffD2])
  have remove: "bt_remove i (pre @ e # rest) = pre @ rest"
  proof -
    have "filter (\<lambda>e. fst e \<noteq> i) xs = xs" if "i \<notin> fst ` set xs" for xs :: "(rstr \<times> scheduled_work) list"
      using that by (intro filter_True) auto
    with absent e show ?thesis by (simp add: bt_remove_def)
  qed
  show ?case
  proof (cases "why (sw_item w)")
    case None
    then show ?thesis using Cons.IH [of "pre @ [e]"] Cons.prems get e by simp
  next
    case (Some r)
    then show ?thesis using Cons.IH [of pre] Cons.prems get remove e by simp
  qed
qed simp

lemma sweep_pending:
  assumes "bt_wf (ws_pending s)"
  shows "sweep why (pending_ids s) s =
     Some (map (\<lambda>e. \<lparr>wc_work_id = fst e, wc_reason = the (why (sw_item (snd e)))\<rparr>)
             (filter (\<lambda>e. why (sw_item (snd e)) \<noteq> None) (ws_pending s)),
       s\<lparr>ws_pending := filter (\<lambda>e. why (sw_item (snd e)) = None) (ws_pending s)\<rparr>)"
  using sweep_suffix [of "[]" "ws_pending s" why s] assms by (simp add: bt_wf_distinct)

lemma fold_bt_remove: "fold bt_remove ids m = filter (\<lambda>e. fst e \<notin> set ids) m"
  by (induction ids arbitrary: m) (auto simp: bt_remove_def intro: filter_cong)

lemma drop_expired_filter:
  assumes "bt_wf (ws_pending s)"
  shows "drop_expired now s =
     s\<lparr>ws_pending := filter (\<lambda>e. now < wi_deadline_monotonic_millis (sw_item (snd e))) (ws_pending s)\<rparr>"
proof -
  have "fst e \<in> fst ` {e \<in> set (ws_pending s). Q e} \<longleftrightarrow> Q e" if "e \<in> set (ws_pending s)" for e Q
    using bt_wf_distinct [OF assms] that by (auto simp: distinct_map inj_on_def)
  then have "filter (\<lambda>e. fst e \<notin> set (map fst (filter Q (ws_pending s)))) (ws_pending s) = filter (\<lambda>e. \<not> Q e) (ws_pending s)" for Q
    by (intro filter_cong) simp_all
  then show ?thesis by (simp add: drop_expired_def fold_bt_remove case_prod_beta not_le)
qed

lemma min_by_key_None [simp]: "min_by_key f xs = None \<longleftrightarrow> xs = []"
  by (cases xs) simp_all

lemma max_by_key_None [simp]: "max_by_key f xs = None \<longleftrightarrow> xs = []"
  by (cases xs) simp_all

lemma fold_select:
  fixes f :: "'a \<Rightarrow> 'k::linorder"
  shows "fold (\<lambda>y m. if f y < f m then y else m) xs x \<in> insert x (set xs)
     \<and> (\<forall>y\<in>insert x (set xs). f (fold (\<lambda>y m. if f y < f m then y else m) xs x) \<le> f y)"
    and "fold (\<lambda>y m. if f y < f m then m else y) xs x \<in> insert x (set xs)
     \<and> (\<forall>y\<in>insert x (set xs). f y \<le> f (fold (\<lambda>y m. if f y < f m then m else y) xs x))"
proof (induction xs arbitrary: x)
  case (Cons z xs)
  case 1
  show ?case using Cons(1) [of x] Cons(1) [of z] by (auto intro: order_trans less_imp_le)
next
  case (Cons z xs)
  case 2
  show ?case using Cons(2) [of x] Cons(2) [of z] by (auto intro: order_trans less_imp_le)
qed simp_all

lemma min_by_keyD: "min_by_key f xs = Some m \<Longrightarrow> m \<in> set xs \<and> (\<forall>y\<in>set xs. f m \<le> f y)"
  using fold_select(1) [of f "tl xs" "hd xs"] by (cases xs) auto

lemma max_by_keyD: "max_by_key f xs = Some m \<Longrightarrow> m \<in> set xs \<and> (\<forall>y\<in>set xs. f y \<le> f m)"
  using fold_select(2) [of f "tl xs" "hd xs"] by (cases xs) auto

lemma bt_wf_filter [simp]: "bt_wf m \<Longrightarrow> bt_wf (filter P m)"
  by (auto simp: bt_wf_def sorted_wrt_map intro: sorted_wrt_filter)

lemma mset_bt_insert_absent: "k \<notin> fst ` set m \<Longrightarrow> mset (bt_insert k v m) = add_mset (k, v) (mset m)"
  by (induction k v m rule: bt_insert.induct) auto

section \<open>The invariant\<close>

definition entry_ok :: "work_scheduler \<Rightarrow> rstr \<times> scheduled_work \<Rightarrow> bool" where
  "entry_ok s e \<longleftrightarrow>
     wi_work_id (sw_item (snd e)) = fst e \<and> sw_sequence (snd e) \<le> ws_sequence s
     \<and> (is_visual (wi_kind (sw_item (snd e))) \<longleftrightarrow> wi_visual (sw_item (snd e)) \<noteq> None)
     \<and> (wi_visual (sw_item (snd e)) \<noteq> None \<longrightarrow> wi_visual (sw_item (snd e)) =
          Some \<lparr>va_generation_id = ws_visual_generation_id s, va_frame_id = ws_visual_frame_id s\<rparr>)"

definition work_inv :: "work_scheduler \<Rightarrow> bool" where
  "work_inv s \<longleftrightarrow>
     validate_work_queue_policy (ws_policy s) = Inr () \<and> ws_sequence s \<le> u64_max \<and> bt_wf (ws_pending s)
     \<and> length (ws_pending s) \<le> wq_maximum_pending (ws_policy s)
     \<and> (\<forall>e\<in>set (ws_pending s). entry_ok s e)
     \<and> inj_on (sw_sequence \<circ> snd) (set (ws_pending s))
     \<and> inj_on (wi_kind \<circ> sw_item \<circ> snd) {e \<in> set (ws_pending s). is_visual (wi_kind (sw_item (snd e)))}"

lemma work_invD:
  assumes "work_inv s"
  shows "bt_wf (ws_pending s)" "0 < wq_maximum_pending (ws_policy s)" "length (ws_pending s) \<le> wq_maximum_pending (ws_policy s)"
    "e \<in> set (ws_pending s) \<Longrightarrow> entry_ok s e" "inj_on (sw_sequence \<circ> snd) (set (ws_pending s))"
  using assms by (auto simp: work_inv_def validate_work_queue_policy_def split: if_splits)

text \<open>Dropping work keeps the invariant, and so does moving the clock when everything that became stale is dropped.\<close>

lemma clock_kept:
  assumes "v = Some \<lparr>va_generation_id = g, va_frame_id = f\<rparr>" "stale_reason g' f' v = None"
    and "\<not> (g' < g \<or> g' = g \<and> f' < f)"
  shows "v = Some \<lparr>va_generation_id = g', va_frame_id = f'\<rparr>"
  using assms by (auto simp: stale_reason_def split: if_splits)

lemma work_inv_clock:
  assumes inv: "work_inv s"
    and forward: "\<not> (g < ws_visual_generation_id s \<or> g = ws_visual_generation_id s \<and> f < ws_visual_frame_id s)"
    and fresh: "\<And>e. Q e \<Longrightarrow> stale_reason g f (wi_visual (sw_item (snd e))) = None"
  shows "work_inv (s\<lparr>ws_visual_generation_id := g, ws_visual_frame_id := f, ws_pending := filter Q (ws_pending s)\<rparr>)"
proof -
  have len: "length (filter Q (ws_pending s)) \<le> wq_maximum_pending (ws_policy s)"
    using work_invD(3) [OF inv] by (meson length_filter_le order_trans)
  have "entry_ok (s\<lparr>ws_visual_generation_id := g, ws_visual_frame_id := f, ws_pending := filter Q (ws_pending s)\<rparr>) e"
    if "e \<in> set (ws_pending s)" "Q e" for e
  proof (cases "wi_visual (sw_item (snd e)) = None")
    case True
    then show ?thesis using work_invD(4) [OF inv that(1)] by (simp add: entry_ok_def)
  next
    case False
    then have "wi_visual (sw_item (snd e)) = Some \<lparr>va_generation_id = g, va_frame_id = f\<rparr>"
      using work_invD(4) [OF inv that(1)] by (intro clock_kept [OF _ fresh [OF that(2)] forward]) (simp add: entry_ok_def)
    then show ?thesis using work_invD(4) [OF inv that(1)] by (simp add: entry_ok_def)
  qed
  moreover have "inj_on (sw_sequence \<circ> snd) (set (filter Q (ws_pending s)))"
    using work_invD(5) [OF inv] by (rule inj_on_subset) auto
  moreover have "inj_on (wi_kind \<circ> sw_item \<circ> snd) {e \<in> set (filter Q (ws_pending s)). is_visual (wi_kind (sw_item (snd e)))}"
    by (rule inj_on_subset [of _ "{e \<in> set (ws_pending s). is_visual (wi_kind (sw_item (snd e)))}"])
      (use inv in \<open>auto simp: work_inv_def\<close>)
  ultimately show ?thesis
    using inv len by (simp add: work_inv_def)
qed

lemma stale_at_clock: "entry_ok s e \<Longrightarrow> stale_reason (ws_visual_generation_id s) (ws_visual_frame_id s) (wi_visual (sw_item (snd e))) = None"
  by (cases "wi_visual (sw_item (snd e))") (auto simp: entry_ok_def stale_reason_def)

lemma work_inv_filter:
  assumes inv: "work_inv s"
  shows "work_inv (s\<lparr>ws_pending := filter Q (ws_pending s)\<rparr>)"
proof -
  have eq: "filter Q (ws_pending s) = filter (\<lambda>e. e \<in> set (ws_pending s) \<and> Q e) (ws_pending s)"
    by (rule filter_cong) simp_all
  show ?thesis
    unfolding eq
    using work_inv_clock [OF inv, of "ws_visual_generation_id s" "ws_visual_frame_id s" "\<lambda>e. e \<in> set (ws_pending s) \<and> Q e"]
      work_invD(4) [OF inv] stale_at_clock by simp
qed

lemma work_inv_remove: "work_inv s \<Longrightarrow> work_inv (s\<lparr>ws_pending := bt_remove i (ws_pending s)\<rparr>)"
  unfolding bt_remove_def by (rule work_inv_filter)

lemma work_inv_start: "scheduler_with_policy p = Inr s \<Longrightarrow> work_inv s"
  by (auto simp: scheduler_with_policy_def bind_result_Inr_iff work_inv_def default_work_scheduler_def)

section \<open>Submission\<close>

text \<open>The work that is left in the queue, and that which is cancelled, before the capacity is looked at.\<close>

definition survivors :: "work_item \<Rightarrow> work_scheduler \<Rightarrow> (rstr, scheduled_work) btree" where
  "survivors item s = filter (\<lambda>e. submit_reason item (observe_address item s) (sw_item (snd e)) = None) (ws_pending s)"

definition displaced :: "work_item \<Rightarrow> work_scheduler \<Rightarrow> work_cancellation list" where
  "displaced item s =
     map (\<lambda>e. \<lparr>wc_work_id = fst e, wc_reason = the (submit_reason item (observe_address item s) (sw_item (snd e)))\<rparr>)
       (filter (\<lambda>e. submit_reason item (observe_address item s) (sw_item (snd e)) \<noteq> None) (ws_pending s))"

abbreviation swept :: "work_item \<Rightarrow> work_scheduler \<Rightarrow> work_scheduler" where
  "swept item s \<equiv> (observe_address item s)\<lparr>ws_pending := survivors item s\<rparr>"

definition acceptable :: "work_item \<Rightarrow> nat \<Rightarrow> work_scheduler \<Rightarrow> bool" where
  "acceptable item now s \<longleftrightarrow> validate_work_item item now = Inr () \<and> bt_get (ws_pending s) (wi_work_id item) = None
     \<and> clock_stale s item = None"

lemma observe_address_simps [simp]:
  "ws_pending (observe_address item s) = ws_pending s" "ws_policy (observe_address item s) = ws_policy s"
  "ws_sequence (observe_address item s) = ws_sequence s"
  by (simp_all add: observe_address_def split: option.splits)

lemma submit_work_swept:
  assumes "work_inv s" and "acceptable item now s"
  shows "submit_work item now s =
     map_option (\<lambda>(admitted, cs, s').
         if admitted then enqueue_work item (displaced item s @ cs) s'
         else (Inr \<lparr>wr_accepted = False, wr_cancellations = displaced item s @ cs\<rparr>, s'))
       (make_room item (swept item s))"
proof -
  have "sweep (submit_reason item (observe_address item s)) (pending_ids (observe_address item s)) (observe_address item s)
      = Some (displaced item s, swept item s)"
    using sweep_pending [of "observe_address item s"] work_invD(1) [OF assms(1)] by (simp only: observe_address_simps displaced_def survivors_def)
  then show ?thesis using assms(2) by (simp add: submit_work_def acceptable_def Let_def del: observe_address_simps(1))
qed

text \<open>The outcomes of the capacity test on a queue that keeps the invariant.\<close>

lemma make_room_cases:
  assumes "work_inv s"
  obtains (free) "length (ws_pending s) < wq_maximum_pending (ws_policy s)" "make_room item s = Some (True, [], s)"
    | (evicted) i w where "(i, w) \<in> set (ws_pending s)" "work_priority (wi_kind (sw_item w)) < work_priority (wi_kind item)"
      "\<forall>e\<in>set (ws_pending s). (work_priority (wi_kind (sw_item w)), sw_sequence w)
         \<le> (work_priority (wi_kind (sw_item (snd e))), sw_sequence (snd e))"
      "make_room item s = Some (True, [\<lparr>wc_work_id = i, wc_reason = QueueCapacity\<rparr>], s\<lparr>ws_pending := bt_remove i (ws_pending s)\<rparr>)"
    | (full) "length (ws_pending s) = wq_maximum_pending (ws_policy s)"
      "\<forall>e\<in>set (ws_pending s). work_priority (wi_kind item) \<le> work_priority (wi_kind (sw_item (snd e)))"
      "make_room item s = Some (False, [\<lparr>wc_work_id = wi_work_id item, wc_reason = QueueCapacity\<rparr>], s)"
proof (cases "length (ws_pending s) < wq_maximum_pending (ws_policy s)")
  case True
  then show ?thesis by (intro free) (simp_all add: make_room_def)
next
  case False
  let ?f = "\<lambda>(_, w). (work_priority (wi_kind (sw_item w)), sw_sequence w)"
  have len: "length (ws_pending s) = wq_maximum_pending (ws_policy s)" using False work_invD(3) [OF assms] by simp
  then have "ws_pending s \<noteq> []" using work_invD(2) [OF assms] by auto
  then have "min_by_key ?f (ws_pending s) \<noteq> None" by (simp only: min_by_key_None not_False_eq_True)
  then obtain i w where lowest: "min_by_key ?f (ws_pending s) = Some (i, w)" by (auto simp del: min_by_key_None)
  have least: "(i, w) \<in> set (ws_pending s)" "\<forall>e\<in>set (ws_pending s). ?f (i, w) \<le> ?f e"
    using min_by_keyD [OF lowest] by blast+
  show ?thesis
  proof (cases "work_priority (wi_kind (sw_item w)) < work_priority (wi_kind item)")
    case True
    then show ?thesis using least lowest len by (intro evicted) (auto simp: make_room_def case_prod_beta)
  next
    case low: False
    have "work_priority (wi_kind item) \<le> work_priority (wi_kind (sw_item (snd e)))" if "e \<in> set (ws_pending s)" for e
      using bspec [OF least(2) that] low by (auto simp: case_prod_beta)
    then show ?thesis using low lowest len by (intro full) (auto simp: make_room_def)
  qed
qed

lemma survivors_fresh:
  assumes "e \<in> set (survivors item s)"
  shows "stale_reason (ws_visual_generation_id (observe_address item s)) (ws_visual_frame_id (observe_address item s))
           (wi_visual (sw_item (snd e))) = None"
    and "is_visual (wi_kind item) \<Longrightarrow> wi_kind (sw_item (snd e)) = wi_kind item \<Longrightarrow> False"
  using assms by (auto simp: survivors_def submit_reason_def or_else_def split: option.splits if_splits)

lemma work_inv_swept:
  assumes inv: "work_inv s" and ok: "clock_stale s item = None"
  shows "work_inv (swept item s)"
proof (cases "wi_visual item")
  case None
  then show ?thesis using work_inv_filter [OF inv] by (simp add: observe_address_def survivors_def)
next
  case (Some v)
  let ?Q = "\<lambda>e. submit_reason item (observe_address item s) (sw_item (snd e)) = None"
  have forward: "\<not> (va_generation_id v < ws_visual_generation_id s
      \<or> va_generation_id v = ws_visual_generation_id s \<and> va_frame_id v < ws_visual_frame_id s)"
    using ok Some by (auto simp: stale_reason_def split: if_splits)
  have "?Q e \<Longrightarrow> stale_reason (va_generation_id v) (va_frame_id v) (wi_visual (sw_item (snd e))) = None" for e
    using Some by (auto simp: observe_address_def submit_reason_def or_else_def split: option.splits)
  from work_inv_clock [OF inv forward, of ?Q, OF this] show ?thesis
    using Some by (simp add: observe_address_def survivors_def)
qed

lemma work_inv_enqueue:
  assumes inv: "work_inv s" and absent: "wi_work_id item \<notin> fst ` set (ws_pending s)"
    and room: "length (ws_pending s) < wq_maximum_pending (ws_policy s)"
    and visual: "is_visual (wi_kind item) \<longleftrightarrow> wi_visual item \<noteq> None"
    and clock: "wi_visual item \<noteq> None \<Longrightarrow>
       wi_visual item = Some \<lparr>va_generation_id = ws_visual_generation_id s, va_frame_id = ws_visual_frame_id s\<rparr>"
    and single: "\<And>e. e \<in> set (ws_pending s) \<Longrightarrow> is_visual (wi_kind item) \<Longrightarrow> wi_kind (sw_item (snd e)) \<noteq> wi_kind item"
  shows "work_inv (snd (enqueue_work item cs s))"
proof (cases "ws_sequence s + 1 > u64_max")
  case False
  let ?w = "\<lparr>sw_sequence = ws_sequence s + 1, sw_item = item\<rparr>"
  let ?m = "bt_insert (wi_work_id item) ?w (ws_pending s)"
  have set: "set ?m = insert (wi_work_id item, ?w) (set (ws_pending s))"
    by (metis absent mset_bt_insert_absent set_mset_add_mset_insert set_mset_mset)
  have len: "length ?m = Suc (length (ws_pending s))"
    by (metis absent mset_bt_insert_absent size_add_mset size_mset)
  have entries: "entry_ok (s\<lparr>ws_sequence := ws_sequence s + 1, ws_pending := ?m\<rparr>) e" if "e \<in> set ?m" for e
  proof (cases "e = (wi_work_id item, ?w)")
    case True
    then show ?thesis using visual clock by (cases "wi_visual item") (simp_all add: entry_ok_def)
  next
    case False
    then have "entry_ok s e" using that set work_invD(4) [OF inv] by simp
    then show ?thesis by (simp add: entry_ok_def)
  qed
  have "\<forall>e\<in>set (ws_pending s). sw_sequence (snd e) \<le> ws_sequence s"
    using work_invD(4) [OF inv] by (simp add: entry_ok_def)
  then have seqs: "inj_on (sw_sequence \<circ> snd) (set ?m)"
    using work_invD(5) [OF inv] unfolding set by (auto simp: inj_on_insert)
  have kinds: "inj_on (wi_kind \<circ> sw_item \<circ> snd) {e \<in> set ?m. is_visual (wi_kind (sw_item (snd e)))}"
  proof -
    let ?V = "{e \<in> set (ws_pending s). is_visual (wi_kind (sw_item (snd e)))}"
    have "{e \<in> set ?m. is_visual (wi_kind (sw_item (snd e)))}
        = (if is_visual (wi_kind item) then insert (wi_work_id item, ?w) ?V else ?V)"
      unfolding set by auto
    moreover have "wi_kind item \<notin> (wi_kind \<circ> sw_item \<circ> snd) ` ?V" if "is_visual (wi_kind item)"
      using single that by fastforce
    moreover have "inj_on (wi_kind \<circ> sw_item \<circ> snd) ?V" using inv by (simp add: work_inv_def)
    ultimately show ?thesis by auto
  qed
  show ?thesis
    using False inv len room entries seqs kinds by (simp add: enqueue_work_def Let_def work_inv_def)
qed (simp add: enqueue_work_def inv)

lemma swept_absent: "bt_get (ws_pending s) (wi_work_id item) = None \<Longrightarrow> wi_work_id item \<notin> fst ` set (survivors item s)"
  by (auto simp: survivors_def map_of_eq_None_iff)

lemma swept_clock:
  "wi_visual item \<noteq> None \<Longrightarrow> wi_visual item = Some \<lparr>va_generation_id = ws_visual_generation_id (observe_address item s),
     va_frame_id = ws_visual_frame_id (observe_address item s)\<rparr>"
  by (auto simp: observe_address_def)

lemma validate_work_item_visual: "validate_work_item item now = Inr () \<Longrightarrow> is_visual (wi_kind item) \<longleftrightarrow> wi_visual item \<noteq> None"
  by (simp add: validate_work_item_def split: if_splits)

lemma work_inv_enqueue_swept:
  assumes inv: "work_inv s" and ok: "acceptable item now s" and sub: "pending' = filter Q (survivors item s)"
    and room: "length pending' < wq_maximum_pending (ws_policy s)"
  shows "work_inv (snd (enqueue_work item cs ((observe_address item s)\<lparr>ws_pending := pending'\<rparr>)))"
proof (rule work_inv_enqueue)
  have "work_inv (swept item s)" using inv ok by (intro work_inv_swept) (simp_all add: acceptable_def)
  from work_inv_filter [OF this, of Q] show "work_inv ((observe_address item s)\<lparr>ws_pending := pending'\<rparr>)" by (simp add: sub)
  show "wi_work_id item \<notin> fst ` set (ws_pending ((observe_address item s)\<lparr>ws_pending := pending'\<rparr>))"
    using swept_absent [of s item] ok by (auto simp: sub acceptable_def)
  show "is_visual (wi_kind item) \<longleftrightarrow> wi_visual item \<noteq> None"
    using ok validate_work_item_visual [of item now] by (simp add: acceptable_def)
  show "wi_kind (sw_item (snd e)) \<noteq> wi_kind item"
    if "e \<in> set (ws_pending ((observe_address item s)\<lparr>ws_pending := pending'\<rparr>))" "is_visual (wi_kind item)" for e
    using that survivors_fresh(2) [of e item s] by (auto simp: sub)
qed (use room swept_clock [of item s] in simp_all)

text \<open>The outcomes of a submission: refusals that change nothing, a queue that is full of work at least as important, and
  an admission for which at most one less important item gives way.\<close>

lemma submit_work_cases:
  assumes inv: "work_inv s"
  obtains (error) e where "submit_work item now s = Some (Inl e, s)"
    | (stale) r where "bt_get (ws_pending s) (wi_work_id item) = None" "clock_stale s item = Some r"
      "submit_work item now s = Some (Inr \<lparr>wr_accepted = False, wr_cancellations = [\<lparr>wc_work_id = wi_work_id item, wc_reason = r\<rparr>]\<rparr>, s)"
    | (full) "acceptable item now s" "length (survivors item s) = wq_maximum_pending (ws_policy s)"
      "\<forall>e\<in>set (survivors item s). work_priority (wi_kind item) \<le> work_priority (wi_kind (sw_item (snd e)))"
      "submit_work item now s = Some (Inr \<lparr>wr_accepted = False,
         wr_cancellations = displaced item s @ [\<lparr>wc_work_id = wi_work_id item, wc_reason = QueueCapacity\<rparr>]\<rparr>, swept item s)"
    | (free) "acceptable item now s" "length (survivors item s) < wq_maximum_pending (ws_policy s)"
      "submit_work item now s = Some (enqueue_work item (displaced item s) (swept item s))"
    | (evicted) i w where "acceptable item now s" "(i, w) \<in> set (survivors item s)"
      "work_priority (wi_kind (sw_item w)) < work_priority (wi_kind item)"
      "\<forall>e\<in>set (survivors item s). (work_priority (wi_kind (sw_item w)), sw_sequence w)
         \<le> (work_priority (wi_kind (sw_item (snd e))), sw_sequence (snd e))"
      "submit_work item now s = Some (enqueue_work item (displaced item s @ [\<lparr>wc_work_id = i, wc_reason = QueueCapacity\<rparr>])
         ((observe_address item s)\<lparr>ws_pending := bt_remove i (survivors item s)\<rparr>))"
proof (cases "acceptable item now s")
  case True
  then have "work_inv (swept item s)" using inv by (intro work_inv_swept) (simp_all add: acceptable_def)
  then show ?thesis
  proof (cases rule: make_room_cases [where item = item])
    case free
    then show ?thesis using True submit_work_swept [OF inv True] by (intro that(4)) simp_all
  next
    case (evicted i w)
    then show ?thesis using True submit_work_swept [OF inv True] by (intro that(5) [of i w]) simp_all
  next
    case full
    then show ?thesis using True submit_work_swept [OF inv True] by (intro that(3)) simp_all
  qed
next
  case False
  show ?thesis
  proof (cases "validate_work_item item now = Inr () \<and> bt_get (ws_pending s) (wi_work_id item) = None")
    case True
    with False obtain r where "clock_stale s item = Some r" by (auto simp: acceptable_def)
    with True show ?thesis by (intro that(2) [of r]) (simp_all add: submit_work_def)
  next
    case False
    then show ?thesis by (cases "validate_work_item item now") (auto intro: that(1) simp: submit_work_def)
  qed
qed

lemma work_inv_submit:
  assumes inv: "work_inv s" and "submit_work item now s = Some (r, s')"
  shows "work_inv s'"
  using inv
proof (cases rule: submit_work_cases [where item = item and now = now])
  case full
  then have "s' = swept item s" using assms(2) by simp
  then show ?thesis using full(1) inv by (simp add: work_inv_swept acceptable_def)
next
  case free
  have "s' = snd (enqueue_work item (displaced item s) (swept item s))" using assms(2) free(3) by (metis option.inject snd_conv)
  then show ?thesis
    using free(2) work_inv_enqueue_swept [OF inv free(1), of "survivors item s" "\<lambda>_. True" "displaced item s"] by simp
next
  case (evicted i w)
  have "length (survivors item s) \<le> wq_maximum_pending (ws_policy s)"
    using work_invD(3) [OF inv] unfolding survivors_def by (meson length_filter_le order_trans)
  moreover have "length (bt_remove i (survivors item s)) < length (survivors item s)"
    using evicted(2) unfolding bt_remove_def by (intro length_filter_less) auto
  ultimately show ?thesis
    using assms(2) evicted work_inv_enqueue_swept [OF inv evicted(1), of "bt_remove i (survivors item s)" "\<lambda>e. fst e \<noteq> i"]
    by (metis bt_remove_def option.inject order_less_le_trans snd_conv)
qed (use assms in auto)

section \<open>Reachable schedulers\<close>

lemma work_inv_sweep:
  assumes "work_inv s" and "sweep why (pending_ids s) s = Some (cs, s')"
  shows "work_inv s'"
  using assms work_inv_filter [of s] sweep_pending [OF work_invD(1) [OF assms(1)], of why] by auto

lemma work_inv_advance:
  assumes inv: "work_inv s" and step: "advance_visual_clock g f now s = Some (r, s')"
  shows "work_inv s'"
proof (cases "g < ws_visual_generation_id s \<or> g = ws_visual_generation_id s \<and> f < ws_visual_frame_id s")
  case True
  then show ?thesis using step inv by (simp add: advance_visual_clock_def)
next
  case False
  let ?s1 = "s\<lparr>ws_visual_generation_id := g, ws_visual_frame_id := f\<rparr>"
  let ?Q = "\<lambda>e. clock_reason now ?s1 (sw_item (snd e)) = None"
  have "s' = s\<lparr>ws_visual_generation_id := g, ws_visual_frame_id := f, ws_pending := filter ?Q (ws_pending s)\<rparr>"
    using step False sweep_pending [of ?s1 "clock_reason now ?s1"] work_invD(1) [OF inv]
    by (auto simp: advance_visual_clock_def Let_def)
  then show ?thesis by (simp only:) (rule work_inv_clock [OF inv False], simp add: clock_reason_def split: if_splits)
qed

lemma work_inv_drop_expired: "work_inv s \<Longrightarrow> work_inv (drop_expired now s)"
  using drop_expired_filter work_inv_filter work_invD(1) by metis

lemma work_inv_take: "work_inv s \<Longrightarrow> work_inv (snd (take_pending x s))"
  by (auto simp: take_pending_def work_inv_remove split: option.splits)

lemma work_inv_cancel_each:
  assumes "\<And>i s. work_inv s \<Longrightarrow> work_inv (snd (f i s))" and "work_inv s"
  shows "work_inv (snd (cancel_each f ids s))"
  using assms(2) by (induction ids arbitrary: s) (auto split: prod.splits, metis assms(1) snd_conv)

lemma work_inv_cancels:
  assumes "work_inv s"
  shows "work_inv (snd (cancel_kind i k reason s))" "work_inv (snd (cancel_one reason i s))"
    "work_inv (snd (cancel_all_kind k reason s))" "work_inv (snd (cancel_all reason s))"
proof -
  have *: "work_inv s \<Longrightarrow> work_inv (snd (cancel_kind i k reason s))" "work_inv s \<Longrightarrow> work_inv (snd (cancel_one reason i s))"
    for i and s
    by (simp_all add: cancel_kind_def cancel_one_def work_inv_remove)
  then show "work_inv (snd (cancel_kind i k reason s))" "work_inv (snd (cancel_one reason i s))"
    using assms by blast+
  show "work_inv (snd (cancel_all_kind k reason s))" "work_inv (snd (cancel_all reason s))"
    unfolding cancel_all_kind_def cancel_all_def using assms * by (auto intro: work_inv_cancel_each)
qed

inductive scheduler_reachable :: "work_scheduler \<Rightarrow> bool" where
  start: "scheduler_with_policy p = Inr s \<Longrightarrow> scheduler_reachable s"
| submitted: "scheduler_reachable s \<Longrightarrow> submit_work item now s = Some (r, s') \<Longrightarrow> scheduler_reachable s'"
| advanced: "scheduler_reachable s \<Longrightarrow> advance_visual_clock g f now s = Some (c, s') \<Longrightarrow> scheduler_reachable s'"
| popped: "scheduler_reachable s \<Longrightarrow> scheduler_reachable (snd (pop_next now s))"
| popped_kind: "scheduler_reachable s \<Longrightarrow> scheduler_reachable (snd (pop_next_kind k now s))"
| cancelled: "scheduler_reachable s \<Longrightarrow> scheduler_reachable (snd (cancel_kind i k reason s))"
| cancelled_kind: "scheduler_reachable s \<Longrightarrow> scheduler_reachable (snd (cancel_all_kind k reason s))"
| cancelled_all: "scheduler_reachable s \<Longrightarrow> scheduler_reachable (snd (cancel_all reason s))"
| pressed: "scheduler_reachable s \<Longrightarrow> apply_pressure level now s = Some (cs, s') \<Longrightarrow> scheduler_reachable s'"

lemma reachable_work_inv: "scheduler_reachable s \<Longrightarrow> work_inv s"
proof (induction rule: scheduler_reachable.induct)
  case (pressed s level now cs s')
  then show ?case using work_inv_sweep by (simp add: apply_pressure_def)
qed (auto simp: pop_next_def pop_next_kind_def Let_def
      intro: work_inv_start work_inv_submit work_inv_advance work_inv_take work_inv_drop_expired work_inv_cancels)

text \<open>
  C33. In every reachable state the queue is bounded, work is filed under its own identifier with distinct sequence numbers, visual
  work belongs to the current frame of the current generation and there is at most one item of each visual kind, and no operation
  panics.
\<close>

theorem scheduler_state_consistent:
  assumes "scheduler_reachable s"
  shows "pending_len s \<le> wq_maximum_pending (ws_policy s)
    \<and> distinct (pending_ids s) \<and> distinct (map (sw_sequence \<circ> snd) (ws_pending s))
    \<and> (\<forall>(i, w)\<in>set (ws_pending s). wi_work_id (sw_item w) = i \<and> sw_sequence w \<le> ws_sequence s
         \<and> wi_visual (sw_item w) = (if is_visual (wi_kind (sw_item w))
             then Some \<lparr>va_generation_id = ws_visual_generation_id s, va_frame_id = ws_visual_frame_id s\<rparr> else None))
    \<and> (\<forall>k. is_visual k \<longrightarrow> length (filter (\<lambda>(_, w). wi_kind (sw_item w) = k) (ws_pending s)) \<le> 1)
    \<and> (\<forall>item now level g f. submit_work item now s \<noteq> None \<and> advance_visual_clock g f now s \<noteq> None
         \<and> apply_pressure level now s \<noteq> None)"
proof -
  have inv: "work_inv s" using assms by (rule reachable_work_inv)
  have distinct: "distinct (ws_pending s)" "distinct (pending_ids s)" "distinct (map (sw_sequence \<circ> snd) (ws_pending s))"
    using bt_wf_distinct [OF work_invD(1) [OF inv]] work_invD(5) [OF inv] by (auto simp: distinct_map)
  have "length (filter (\<lambda>(_, w). wi_kind (sw_item w) = k) (ws_pending s)) \<le> 1" if "is_visual k" for k
  proof -
    let ?xs = "filter (\<lambda>(_, w). wi_kind (sw_item w) = k) (ws_pending s)"
    have "a = b" if "a \<in> set ?xs" "b \<in> set ?xs" for a b
    proof -
      have "inj_on (wi_kind \<circ> sw_item \<circ> snd) {e \<in> set (ws_pending s). is_visual (wi_kind (sw_item (snd e)))}"
        using inv by (simp add: work_inv_def)
      then show ?thesis by (rule inj_onD) (use that \<open>is_visual k\<close> in auto)
    qed
    then have "card (set ?xs) \<le> 1" by (auto simp: card_le_Suc0_iff_eq)
    then show ?thesis using distinct(1) by (metis distinct_card distinct_filter)
  qed
  moreover have "wi_work_id (sw_item w) = i \<and> sw_sequence w \<le> ws_sequence s
       \<and> wi_visual (sw_item w) = (if is_visual (wi_kind (sw_item w))
           then Some \<lparr>va_generation_id = ws_visual_generation_id s, va_frame_id = ws_visual_frame_id s\<rparr> else None)"
    if "(i, w) \<in> set (ws_pending s)" for i w
    using work_invD(4) [OF inv that] by (cases "wi_visual (sw_item w) = None") (simp_all add: entry_ok_def)
  moreover have "submit_work item now s \<noteq> None" for item now
    using inv by (cases rule: submit_work_cases [where item = item and now = now]) simp_all
  moreover have "advance_visual_clock g f now s \<noteq> None" "apply_pressure level now s \<noteq> None" for g f now level
    using sweep_pending [of "s\<lparr>ws_visual_generation_id := g, ws_visual_frame_id := f\<rparr>"] work_invD(1) [OF inv]
    by (simp_all add: advance_visual_clock_def apply_pressure_def Let_def sweep_pending)
  ultimately show ?thesis using distinct(2,3) work_invD(3) [OF inv] by (auto simp: pending_len_def)
qed

section \<open>The account of a submission\<close>

text \<open>When a submission may cancel work: the item itself for being stale or for want of room, pending work for being stale,
  for interactive work, for newer visual work of its kind, or because it is the least important of a full queue.\<close>

definition cancellation_justified :: "work_item \<Rightarrow> work_scheduler \<Rightarrow> work_scheduler \<Rightarrow> work_cancellation \<Rightarrow> bool" where
  "cancellation_justified item s s' c \<longleftrightarrow>
     (case bt_get (ws_pending s) (wc_work_id c) of
        None \<Rightarrow> wc_work_id c = wi_work_id item
          \<and> (clock_stale s item = Some (wc_reason c)
             \<or> wc_reason c = QueueCapacity \<and> length (ws_pending s') = wq_maximum_pending (ws_policy s')
               \<and> (\<forall>e\<in>set (ws_pending s'). work_priority (wi_kind item) \<le> work_priority (wi_kind (sw_item (snd e)))))
      | Some w \<Rightarrow>
          clock_stale s' (sw_item w) = Some (wc_reason c)
          \<or> wc_reason c = PreemptedByInteractive \<and> is_interactive (wi_kind item) \<and> \<not> is_interactive (wi_kind (sw_item w))
          \<or> wc_reason c = SupersededVisualWork \<and> is_visual (wi_kind item) \<and> wi_kind (sw_item w) = wi_kind item
          \<or> wc_reason c = QueueCapacity \<and> work_priority (wi_kind (sw_item w)) < work_priority (wi_kind item)
            \<and> (\<forall>e\<in>set (ws_pending s'). fst e \<noteq> wi_work_id item \<longrightarrow>
                 (work_priority (wi_kind (sw_item w)), sw_sequence w)
                   \<le> (work_priority (wi_kind (sw_item (snd e))), sw_sequence (snd e))))"

lemma displaced_justified:
  assumes inv: "work_inv s" and c: "c \<in> set (displaced item s)"
    and clock: "ws_visual_generation_id s' = ws_visual_generation_id (observe_address item s)"
      "ws_visual_frame_id s' = ws_visual_frame_id (observe_address item s)"
  shows "cancellation_justified item s s' c"
proof -
  obtain e r where e: "e \<in> set (ws_pending s)" "submit_reason item (observe_address item s) (sw_item (snd e)) = Some r"
    "c = \<lparr>wc_work_id = fst e, wc_reason = r\<rparr>"
    using c by (auto simp: displaced_def)
  have get: "bt_get (ws_pending s) (fst e) = Some (snd e)" using e(1) bt_get_in [OF work_invD(1) [OF inv]] by simp
  show ?thesis
    using e(2) unfolding cancellation_justified_def e(3) work_cancellation.select_convs get option.case clock
    by (cases "wi_kind (sw_item (snd e))")
      (auto simp: submit_reason_def or_else_def split: option.splits if_splits)
qed

lemma enqueue_workD:
  assumes "enqueue_work item cs s = (Inr r, s')"
  shows "r = \<lparr>wr_accepted = True, wr_cancellations = cs\<rparr>" "ws_sequence s' = ws_sequence s + 1" "ws_policy s' = ws_policy s"
    "ws_visual_generation_id s' = ws_visual_generation_id s" "ws_visual_frame_id s' = ws_visual_frame_id s"
    "ws_pending s' = bt_insert (wi_work_id item) \<lparr>sw_sequence = ws_sequence s', sw_item = item\<rparr> (ws_pending s)"
  using assms by (auto simp: enqueue_work_def Let_def split: if_splits)

lemma mset_displaced:
  "mset (map fst (survivors item s)) + mset (map wc_work_id (displaced item s)) = mset (pending_ids s)"
  by (simp add: survivors_def displaced_def comp_def mset_filter image_mset_union [symmetric] flip: multiset_partition)

lemma mset_bt_remove: "distinct (map fst m) \<Longrightarrow> (i, w) \<in> set m \<Longrightarrow> mset m = add_mset (i, w) (mset (bt_remove i m))"
proof (induction m)
  case (Cons e m)
  show ?case
  proof (cases "fst e = i")
    case True
    then have "bt_remove i m = m" using Cons.prems(1) unfolding bt_remove_def by (intro filter_True ballI) (force simp: image_iff)
    moreover have "(i, w) \<notin> set m" using True Cons.prems(1) by (force simp: image_iff)
    ultimately show ?thesis using True Cons.prems by (auto simp: bt_remove_def)
  next
    case False
    then show ?thesis using Cons by (auto simp: bt_remove_def)
  qed
qed simp

lemma admission_account:
  assumes enq: "enqueue_work item cs s0 = (Inr r, s')" and absent: "wi_work_id item \<notin> fst ` set (ws_pending s0)"
    and sub: "set (ws_pending s0) \<subseteq> set (ws_pending s)"
    and balance: "mset (pending_ids s0) + mset (map wc_work_id cs) = mset (pending_ids s)"
  shows "mset (pending_ids s') + mset (map wc_work_id (wr_cancellations r)) = add_mset (wi_work_id item) (mset (pending_ids s))"
    "wr_accepted r \<longleftrightarrow> wi_work_id item \<in> set (pending_ids s')"
    "set (ws_pending s') \<subseteq> insert (wi_work_id item, \<lparr>sw_sequence = ws_sequence s', sw_item = item\<rparr>) (set (ws_pending s))"
    "wr_cancellations r = cs"
proof -
  note enq = enqueue_workD [OF enq]
  have m: "mset (ws_pending s') = add_mset (wi_work_id item, \<lparr>sw_sequence = ws_sequence s', sw_item = item\<rparr>) (mset (ws_pending s0))"
    unfolding enq(6) by (rule mset_bt_insert_absent [OF absent])
  then have set: "set (ws_pending s') = insert (wi_work_id item, \<lparr>sw_sequence = ws_sequence s', sw_item = item\<rparr>) (set (ws_pending s0))"
    by (metis set_mset_add_mset_insert set_mset_mset)
  show "mset (pending_ids s') + mset (map wc_work_id (wr_cancellations r)) = add_mset (wi_work_id item) (mset (pending_ids s))"
    using balance m enq(1) by simp
  show "wr_accepted r \<longleftrightarrow> wi_work_id item \<in> set (pending_ids s')" using set enq(1) by simp
  show "set (ws_pending s') \<subseteq> insert (wi_work_id item, \<lparr>sw_sequence = ws_sequence s', sw_item = item\<rparr>) (set (ws_pending s))"
    using set sub by auto
  show "wr_cancellations r = cs" using enq(1) by simp
qed

lemma eviction_account:
  assumes inv: "work_inv s" and ok: "acceptable item now s" and w: "(i, w) \<in> set (survivors item s)"
    and lower: "work_priority (wi_kind (sw_item w)) < work_priority (wi_kind item)"
    and least: "\<forall>e\<in>set (survivors item s). (work_priority (wi_kind (sw_item w)), sw_sequence w)
         \<le> (work_priority (wi_kind (sw_item (snd e))), sw_sequence (snd e))"
    and enq: "enqueue_work item (displaced item s @ [\<lparr>wc_work_id = i, wc_reason = QueueCapacity\<rparr>])
         ((observe_address item s)\<lparr>ws_pending := bt_remove i (survivors item s)\<rparr>) = (Inr r, s')"
  shows "mset (pending_ids s') + mset (map wc_work_id (wr_cancellations r)) = add_mset (wi_work_id item) (mset (pending_ids s))
    \<and> (wr_accepted r \<longleftrightarrow> wi_work_id item \<in> set (pending_ids s'))
    \<and> set (ws_pending s') \<subseteq> insert (wi_work_id item, \<lparr>sw_sequence = ws_sequence s', sw_item = item\<rparr>) (set (ws_pending s))
    \<and> (\<forall>c\<in>set (wr_cancellations r). cancellation_justified item s s' c)"
proof -
  let ?s0 = "(observe_address item s)\<lparr>ws_pending := bt_remove i (survivors item s)\<rparr>"
  let ?c = "\<lparr>wc_work_id = i, wc_reason = QueueCapacity\<rparr>"
  have sub: "set (survivors item s) \<subseteq> set (ws_pending s)" by (auto simp: survivors_def)
  have absent: "wi_work_id item \<notin> fst ` set (ws_pending ?s0)"
    using swept_absent [of s item] ok by (auto simp: acceptable_def bt_remove_def)
  have wf: "bt_wf (survivors item s)" using work_invD(1) [OF inv] by (simp add: survivors_def)
  have "mset (map fst (survivors item s)) = add_mset i (mset (map fst (bt_remove i (survivors item s))))"
    using arg_cong [OF mset_bt_remove [OF bt_wf_distinct [OF wf] w], of "image_mset fst"] by simp
  then have balance: "mset (pending_ids ?s0) + mset (map wc_work_id (displaced item s @ [?c])) = mset (pending_ids s)"
    using mset_displaced [of item s] by simp
  have sub0: "set (ws_pending ?s0) \<subseteq> set (ws_pending s)" using sub by (auto simp: bt_remove_def)
  note account = admission_account [OF enq absent sub0 balance]
  have set: "set (ws_pending s') = insert (wi_work_id item, \<lparr>sw_sequence = ws_sequence s', sw_item = item\<rparr>) (set (ws_pending ?s0))"
    unfolding enqueue_workD(6) [OF enq] by (metis mset_bt_insert_absent [OF absent] set_mset_add_mset_insert set_mset_mset)
  have get: "bt_get (ws_pending s) i = Some w" using w sub bt_get_in [OF work_invD(1) [OF inv]] by auto
  have "\<forall>e\<in>set (ws_pending s'). fst e \<noteq> wi_work_id item \<longrightarrow> e \<in> set (survivors item s)"
    unfolding set by (auto simp: bt_remove_def)
  then have "cancellation_justified item s s' ?c"
    using get lower least by (simp add: cancellation_justified_def)
  moreover have "\<forall>c\<in>set (displaced item s). cancellation_justified item s s' c"
    using displaced_justified [OF inv] enqueue_workD(4,5) [OF enq] by simp
  ultimately show ?thesis using account by simp
qed

lemma submission_account:
  assumes inv: "work_inv s" and step: "submit_work item now s = Some (Inr r, s')"
  shows "mset (pending_ids s') + mset (map wc_work_id (wr_cancellations r)) = add_mset (wi_work_id item) (mset (pending_ids s))
    \<and> (wr_accepted r \<longleftrightarrow> wi_work_id item \<in> set (pending_ids s'))
    \<and> set (ws_pending s') \<subseteq> insert (wi_work_id item, \<lparr>sw_sequence = ws_sequence s', sw_item = item\<rparr>) (set (ws_pending s))
    \<and> (\<forall>c\<in>set (wr_cancellations r). cancellation_justified item s s' c)"
proof -
  have sub: "set (survivors item s) \<subseteq> set (ws_pending s)" by (auto simp: survivors_def)
  show ?thesis
    using inv
  proof (cases rule: submit_work_cases [where item = item and now = now])
    case (error e)
    then show ?thesis using step by simp
  next
    case (stale r')
    then have "cancellation_justified item s s \<lparr>wc_work_id = wi_work_id item, wc_reason = r'\<rparr>"
      by (simp add: cancellation_justified_def)
    moreover have "wi_work_id item \<notin> fst ` set (ws_pending s)" using stale(1) by (simp add: map_of_eq_None_iff)
    ultimately show ?thesis using step stale(3) by auto
  next
    case full
    then have r: "s' = swept item s" "r = \<lparr>wr_accepted = False,
        wr_cancellations = displaced item s @ [\<lparr>wc_work_id = wi_work_id item, wc_reason = QueueCapacity\<rparr>]\<rparr>"
      using step by simp_all
    have absent: "wi_work_id item \<notin> set (map fst (survivors item s))"
      using swept_absent full(1) by (simp add: acceptable_def)
    have own: "cancellation_justified item s s' \<lparr>wc_work_id = wi_work_id item, wc_reason = QueueCapacity\<rparr>"
      using full(1-3) r(1) by (simp add: cancellation_justified_def acceptable_def)
    have others: "\<forall>c\<in>set (displaced item s). cancellation_justified item s s' c"
      using displaced_justified [OF inv] r(1) by simp
    show ?thesis using absent own others mset_displaced [of item s] sub unfolding r by auto
  next
    case free
    then have enq: "enqueue_work item (displaced item s) (swept item s) = (Inr r, s')" using step by simp
    have absent: "wi_work_id item \<notin> fst ` set (ws_pending (swept item s))"
      using swept_absent free(1) by (simp add: acceptable_def)
    note account = admission_account [OF enq absent, of s]
    have "\<forall>c\<in>set (displaced item s). cancellation_justified item s s' c"
      using displaced_justified [OF inv] enqueue_workD(4,5) [OF enq] by simp
    then show ?thesis using account sub mset_displaced [of item s] by simp
  next
    case (evicted i w)
    then show ?thesis using step eviction_account [OF inv evicted(1-4), of r s'] by simp
  qed
qed

text \<open>
  C14. A submission that does not fail accounts for all work: what was pending and the item are exactly what is pending afterwards and what
  is reported as cancelled; the item is pending exactly when it is reported as accepted, no other work changes, and every
  cancellation has one of the allowed reasons.
\<close>

theorem submission_accounts_for_work:
  assumes "scheduler_reachable s" and "submit_work item now s = Some (Inr r, s')"
  shows "mset (pending_ids s') + mset (map wc_work_id (wr_cancellations r)) = add_mset (wi_work_id item) (mset (pending_ids s))
    \<and> (wr_accepted r \<longleftrightarrow> wi_work_id item \<in> set (pending_ids s'))
    \<and> set (ws_pending s') \<subseteq> insert (wi_work_id item, \<lparr>sw_sequence = ws_sequence s', sw_item = item\<rparr>) (set (ws_pending s))
    \<and> (\<forall>c\<in>set (wr_cancellations r). cancellation_justified item s s' c)"
  using submission_account [OF reachable_work_inv [OF assms(1)] assms(2)] .

section \<open>The order of service\<close>

text \<open>The abstract queue: the pending work in the order in which it is to be served, the most important first and in the order of
  admission within a priority. Dispatch takes the head of what has not expired; an admission enters behind its equals.\<close>

definition serve_key :: "rstr \<times> scheduled_work \<Rightarrow> int \<times> nat" where
  "serve_key e = (- int (work_priority (wi_kind (sw_item (snd e)))), sw_sequence (snd e))"

definition service_entries :: "work_scheduler \<Rightarrow> (rstr \<times> scheduled_work) list" where
  "service_entries s = sort_key serve_key (ws_pending s)"

definition service_order :: "work_scheduler \<Rightarrow> work_item list" where
  "service_order s = map (sw_item \<circ> snd) (service_entries s)"

definition serve_first :: "(work_item \<Rightarrow> bool) \<Rightarrow> work_item list \<Rightarrow> work_item option \<times> work_item list" where
  "serve_first P q =
     (case filter P q of [] \<Rightarrow> (None, q) | x # _ \<Rightarrow> (Some x, filter (\<lambda>y. wi_work_id y \<noteq> wi_work_id x) q))"

definition join_queue :: "work_item \<Rightarrow> work_item list \<Rightarrow> work_item list" where
  "join_queue item q =
     filter (\<lambda>x. work_priority (wi_kind item) \<le> work_priority (wi_kind x)) q @ item
       # filter (\<lambda>x. work_priority (wi_kind x) < work_priority (wi_kind item)) q"

lemma serve_key_dispatch: "serve_key a \<le> serve_key b \<longleftrightarrow> dispatch_key b \<le> dispatch_key a"
  by (auto simp: serve_key_def dispatch_key_def)

lemma serve_key_inj: "work_inv s \<Longrightarrow> inj_on serve_key (set (ws_pending s))"
  using work_invD(5) [of s] by (auto simp: inj_on_def serve_key_def)

lemma sort_key_least:
  assumes "inj_on f (set xs)" and "distinct xs" and "m \<in> set xs" and "\<And>y. y \<in> set xs \<Longrightarrow> f m \<le> f y"
  shows "sort_key f xs = m # sort_key f (filter (\<lambda>e. e \<noteq> m) xs)"
proof (rule sort_key_inj_key_eq [OF _ assms(1)])
  have "distinct (m # sort_key f (filter (\<lambda>e. e \<noteq> m) xs))" using assms(2) by simp
  then show "mset xs = mset (m # sort_key f (filter (\<lambda>e. e \<noteq> m) xs))"
    using assms(2,3) by (subst set_eq_iff_mset_eq_distinct [symmetric]) auto
  show "sorted (map f (m # sort_key f (filter (\<lambda>e. e \<noteq> m) xs)))"
    using assms(4) by simp
qed

lemma service_order_filter:
  "service_order (s\<lparr>ws_pending := filter P (ws_pending s)\<rparr>) = map (sw_item \<circ> snd) (filter P (service_entries s))"
  by (simp add: service_order_def service_entries_def filter_sort)

lemma service_entries_id: "work_inv s \<Longrightarrow> e \<in> set (service_entries s) \<Longrightarrow> wi_work_id (sw_item (snd e)) = fst e"
  using work_invD(4) [of s e] by (simp add: service_entries_def entry_ok_def)

lemma take_pending_serves:
  assumes inv: "work_inv s" and pick: "pick = None \<longleftrightarrow> filter P (ws_pending s) = []"
    and least: "\<And>m. pick = Some m \<Longrightarrow> m \<in> set (filter P (ws_pending s)) \<and> (\<forall>y\<in>set (filter P (ws_pending s)). serve_key m \<le> serve_key y)"
    and P: "\<And>e. P e \<longleftrightarrow> P' (sw_item (snd e))"
  shows "(fst (take_pending pick s), service_order (snd (take_pending pick s))) = serve_first P' (service_order s)"
proof (cases pick)
  case None
  then have "filter P' (service_order s) = []"
    using pick by (auto simp: service_order_def service_entries_def filter_empty_conv P)
  then show ?thesis using None by (simp add: take_pending_def serve_first_def)
next
  case (Some m)
  let ?L = "filter P (ws_pending s)"
  have m: "m \<in> set ?L" "\<And>y. y \<in> set ?L \<Longrightarrow> serve_key m \<le> serve_key y" using least [OF Some] by blast+
  have "distinct ?L" using bt_wf_distinct [OF work_invD(1) [OF inv]] by (simp add: distinct_map)
  moreover have "inj_on serve_key (set ?L)" using serve_key_inj [OF inv] by (rule inj_on_subset) auto
  ultimately have "filter P (service_entries s) = m # sort_key serve_key (filter (\<lambda>e. e \<noteq> m) ?L)"
    unfolding service_entries_def filter_sort using m by (intro sort_key_least)
  moreover have "P' \<circ> (sw_item \<circ> snd) = P" using P by auto
  ultimately have "filter P' (service_order s) = sw_item (snd m) # map (sw_item \<circ> snd) (sort_key serve_key (filter (\<lambda>e. e \<noteq> m) ?L))"
    unfolding service_order_def filter_map by simp
  moreover have "bt_get (ws_pending s) (fst m) = Some (snd m)" using m(1) bt_get_in [OF work_invD(1) [OF inv]] by simp
  moreover have "service_order (s\<lparr>ws_pending := bt_remove (fst m) (ws_pending s)\<rparr>)
      = filter (\<lambda>y. wi_work_id y \<noteq> wi_work_id (sw_item (snd m))) (service_order s)"
  proof -
    have "wi_work_id (sw_item (snd m)) = fst m" using m(1) work_invD(4) [OF inv, of m] by (simp add: entry_ok_def)
    then have "filter (\<lambda>e. fst e \<noteq> fst m) (service_entries s)
        = filter (\<lambda>e. wi_work_id (sw_item (snd e)) \<noteq> wi_work_id (sw_item (snd m))) (service_entries s)"
      using service_entries_id [OF inv] by (intro filter_cong) simp_all
    then show ?thesis unfolding bt_remove_def service_order_filter by (simp add: service_order_def filter_map comp_def)
  qed
  ultimately show ?thesis using Some by (simp add: take_pending_def serve_first_def case_prod_beta)
qed

lemma service_order_live:
  assumes "work_inv s"
  shows "service_order (drop_expired now s) = filter (\<lambda>x. now < wi_deadline_monotonic_millis x) (service_order s)"
  unfolding drop_expired_filter [OF work_invD(1) [OF assms]] service_order_filter by (simp add: service_order_def filter_map comp_def)

lemma pop_next_refines:
  assumes inv: "work_inv s"
  shows "(fst (pop_next now s), service_order (snd (pop_next now s)))
    = serve_first (\<lambda>_. True) (filter (\<lambda>x. now < wi_deadline_monotonic_millis x) (service_order s))"
  unfolding pop_next_def Let_def service_order_live [OF inv, symmetric]
proof (rule take_pending_serves [where P = "\<lambda>_. True"])
  show "work_inv (drop_expired now s)" using inv by (rule work_inv_drop_expired)
  show "m \<in> set (filter (\<lambda>_. True) (ws_pending (drop_expired now s)))
      \<and> (\<forall>y\<in>set (filter (\<lambda>_. True) (ws_pending (drop_expired now s))). serve_key m \<le> serve_key y)"
    if "max_by_key dispatch_key (ws_pending (drop_expired now s)) = Some m" for m
    using max_by_keyD [OF that] by (simp add: serve_key_dispatch)
qed simp_all

lemma pop_next_kind_refines:
  assumes inv: "work_inv s"
  shows "(fst (pop_next_kind k now s), service_order (snd (pop_next_kind k now s)))
    = serve_first (\<lambda>x. wi_kind x = k) (filter (\<lambda>x. now < wi_deadline_monotonic_millis x) (service_order s))"
  unfolding pop_next_kind_def Let_def service_order_live [OF inv, symmetric]
proof (rule take_pending_serves [where P = "\<lambda>(_, w). wi_kind (sw_item w) = k"])
  let ?L = "filter (\<lambda>(_, w). wi_kind (sw_item w) = k) (ws_pending (drop_expired now s))"
  show "work_inv (drop_expired now s)" using inv by (rule work_inv_drop_expired)
  show "m \<in> set ?L \<and> (\<forall>y\<in>set ?L. serve_key m \<le> serve_key y)" if "min_by_key (\<lambda>(_, w). sw_sequence w) ?L = Some m" for m
  proof -
    have m: "m \<in> set ?L" "\<forall>y\<in>set ?L. sw_sequence (snd m) \<le> sw_sequence (snd y)"
      using min_by_keyD [OF that] by (auto simp: case_prod_beta)
    have "serve_key m \<le> serve_key y" if y: "y \<in> set ?L" for y
      using m(1) bspec [OF m(2) y] y by (auto simp: serve_key_def)
    with m(1) show ?thesis by blast
  qed
qed (simp_all add: case_prod_beta)

lemma service_entriesI:
  assumes inv: "work_inv s" and "distinct ys" and "set ys = set (ws_pending s)" and "sorted (map serve_key ys)"
  shows "service_entries s = ys"
  unfolding service_entries_def
proof (rule sort_key_inj_key_eq [OF _ serve_key_inj [OF inv] assms(4)])
  have "distinct (ws_pending s)" using bt_wf_distinct [OF work_invD(1) [OF inv]] by (simp add: distinct_map)
  then show "mset (ws_pending s) = mset ys" using assms(2,3) by (simp add: set_eq_iff_mset_eq_distinct [symmetric])
qed

text \<open>After a submission exactly the work that was not cancelled is still there, and the item if it was accepted.\<close>

lemma submission_entries:
  assumes inv: "work_inv s" and step: "submit_work item now s = Some (Inr r, s')"
  defines "kept \<equiv> {e \<in> set (ws_pending s). fst e \<notin> set (map wc_work_id (wr_cancellations r))}"
    and "entry \<equiv> (wi_work_id item, \<lparr>sw_sequence = ws_sequence s', sw_item = item\<rparr>)"
  shows "set (ws_pending s') = (if wr_accepted r then insert entry kept else kept)" "wi_work_id item \<notin> fst ` set (ws_pending s)"
proof -
  note account = submission_account [OF inv step]
  show absent: "wi_work_id item \<notin> fst ` set (ws_pending s)"
    using step by (auto simp: submit_work_def map_of_eq_None_iff [symmetric] split: sum.splits if_splits option.splits)
  let ?C = "map wc_work_id (wr_cancellations r)"
  have "mset (pending_ids s' @ ?C) = mset (wi_work_id item # pending_ids s)" using account by simp
  moreover have "distinct (wi_work_id item # pending_ids s)" using absent bt_wf_distinct [OF work_invD(1) [OF inv]] by simp
  ultimately have split: "set (pending_ids s') \<inter> set ?C = {}" "set (pending_ids s') \<union> set ?C = insert (wi_work_id item) (set (pending_ids s))"
    by (metis distinct_append mset_eq_imp_distinct_iff, metis list.simps(15) mset_eq_setD set_append)
  have sub: "set (ws_pending s') \<subseteq> insert entry (set (ws_pending s))" using account by (simp add: entry_def)
  have same: "e = e'" if "e \<in> set (ws_pending s)" "e' \<in> set (ws_pending s)" "fst e = fst e'" for e e'
    using that bt_wf_distinct [OF work_invD(1) [OF inv]] by (auto simp: distinct_map dest: inj_onD)
  have "e \<in> set (ws_pending s') \<longleftrightarrow> fst e \<notin> set ?C" if e: "e \<in> set (ws_pending s)" for e
  proof
    assume "fst e \<notin> set ?C"
    then have "fst e \<in> fst ` set (ws_pending s')" using split(2) e by auto
    then obtain e' where "e' \<in> set (ws_pending s')" "fst e' = fst e" by auto
    then show "e \<in> set (ws_pending s')" using same e absent sub by (metis entry_def fst_conv imageI insertE subsetD)
  qed (use split(1) in auto)
  moreover have "entry \<in> set (ws_pending s') \<longleftrightarrow> wr_accepted r"
  proof -
    have "fst entry \<in> fst ` set (ws_pending s') \<longleftrightarrow> wr_accepted r" using account by (simp add: entry_def)
    moreover have "e = entry" if "e \<in> set (ws_pending s')" "fst e = fst entry" for e
      using that sub absent by (metis entry_def fst_conv imageI insertE subsetD)
    ultimately show ?thesis by (fastforce simp: image_iff)
  qed
  ultimately show "set (ws_pending s') = (if wr_accepted r then insert entry kept else kept)"
    using sub by (auto simp: kept_def)
qed

lemma submission_refines:
  assumes inv: "work_inv s" and step: "submit_work item now s = Some (Inr r, s')"
  shows "service_order s' =
     (let q = filter (\<lambda>x. wi_work_id x \<notin> set (map wc_work_id (wr_cancellations r))) (service_order s)
      in if wr_accepted r then join_queue item q else q)"
proof -
  have inv': "work_inv s'" using inv step by (rule work_inv_submit)
  let ?e = "(wi_work_id item, \<lparr>sw_sequence = ws_sequence s', sw_item = item\<rparr>)"
  let ?p = "\<lambda>e. work_priority (wi_kind (sw_item (snd e)))" and ?n = "work_priority (wi_kind item)"
  let ?E = "filter (\<lambda>e. fst e \<notin> set (map wc_work_id (wr_cancellations r))) (service_entries s)"
  have order: "map (sw_item \<circ> snd) ?E
      = filter (\<lambda>x. wi_work_id x \<notin> set (map wc_work_id (wr_cancellations r))) (service_order s)"
  proof -
    have "?E = filter (\<lambda>e. wi_work_id (sw_item (snd e)) \<notin> set (map wc_work_id (wr_cancellations r))) (service_entries s)"
      using service_entries_id [OF inv] by (intro filter_cong) simp_all
    then show ?thesis unfolding service_order_def filter_map by (simp only:) (simp add: comp_def)
  qed
  have set: "set (ws_pending s') = (if wr_accepted r then insert ?e (set ?E) else set ?E)"
    using submission_entries(1) [OF inv step] by (simp add: service_entries_def)
  have E: "distinct (service_entries s)" "sorted (map serve_key ?E)"
    using bt_wf_distinct [OF work_invD(1) [OF inv]] unfolding service_entries_def
    by (simp_all add: distinct_map filter_sort)
  show ?thesis
  proof (cases "wr_accepted r")
    case False
    then have "service_entries s' = ?E" using set E by (intro service_entriesI [OF inv']) simp_all
    then show ?thesis using False order by (simp add: service_order_def)
  next
    case True
    have new: "?e \<notin> set (service_entries s)" using submission_entries(2) [OF inv step] by (force simp: service_entries_def)
    have "sw_sequence (snd a) \<le> ws_sequence s'" if "a \<in> set ?E" for a
      using that True set work_invD(4) [OF inv', of a] by (simp add: entry_ok_def)
    then have "serve_key a \<le> serve_key ?e" if "a \<in> set ?E" "?n \<le> ?p a" for a
      using that by (auto simp: serve_key_def)
    moreover have "serve_key ?e \<le> serve_key b" if "?p b < ?n" for b using that by (auto simp: serve_key_def)
    moreover have "serve_key a \<le> serve_key b" if "?n \<le> ?p a" "?p b < ?n" for a b using that by (auto simp: serve_key_def)
    ultimately have sorted: "sorted (map serve_key (filter (\<lambda>e. ?n \<le> ?p e) ?E @ ?e # filter (\<lambda>e. ?p e < ?n) ?E))"
      using sorted_filter [OF E(2)] by (auto simp: sorted_append simp del: filter_filter)
    have "service_entries s' = filter (\<lambda>e. ?n \<le> ?p e) ?E @ ?e # filter (\<lambda>e. ?p e < ?n) ?E"
    proof (rule service_entriesI [OF inv' _ _ sorted])
      show "distinct (filter (\<lambda>e. ?n \<le> ?p e) ?E @ ?e # filter (\<lambda>e. ?p e < ?n) ?E)" using E(1) new by auto
      show "set (filter (\<lambda>e. ?n \<le> ?p e) ?E @ ?e # filter (\<lambda>e. ?p e < ?n) ?E) = set (ws_pending s')"
        unfolding set using True by auto
    qed
    then show ?thesis using True order [symmetric] by (simp add: service_order_def join_queue_def filter_map comp_def Let_def)
  qed
qed

text \<open>
  C13. The scheduler refines a priority queue: dispatch takes the most important work that has not expired, the oldest first, or the
  oldest of a kind, and leaves the rest in order; accepted work enters behind the work of the same priority and before all less
  important work.
\<close>

theorem dispatch_refines_priority_order:
  assumes "scheduler_reachable s"
  shows "(fst (pop_next now s), service_order (snd (pop_next now s)))
      = serve_first (\<lambda>_. True) (filter (\<lambda>x. now < wi_deadline_monotonic_millis x) (service_order s))
    \<and> (fst (pop_next_kind k now s), service_order (snd (pop_next_kind k now s)))
      = serve_first (\<lambda>x. wi_kind x = k) (filter (\<lambda>x. now < wi_deadline_monotonic_millis x) (service_order s))
    \<and> (submit_work item now s = Some (Inr r, s') \<longrightarrow>
         service_order s' =
           (let q = filter (\<lambda>x. wi_work_id x \<notin> set (map wc_work_id (wr_cancellations r))) (service_order s)
            in if wr_accepted r then join_queue item q else q))"
  using reachable_work_inv [OF assms] pop_next_refines pop_next_kind_refines submission_refines by simp

section \<open>A concrete queue\<close>

definition sample_work :: "nat \<Rightarrow> work_kind \<Rightarrow> work_item" where
  "sample_work n k = \<lparr>wi_work_id = lit ''work-00'' @ dec n, wi_kind = k, wi_submitted_monotonic_millis = 1,
     wi_deadline_monotonic_millis = 100,
     wi_visual = (if is_visual k then Some \<lparr>va_generation_id = 1, va_frame_id = n\<rparr> else None)\<rparr>"

definition single_slot :: work_scheduler where
  "single_slot = default_work_scheduler\<lparr>ws_policy := \<lparr>wq_maximum_pending = 1\<rparr>\<rparr>"

definition busy_slot :: work_scheduler where
  "busy_slot = single_slot\<lparr>ws_sequence := 1,
     ws_pending := [(lit ''work-001'', \<lparr>sw_sequence = 1, sw_item = sample_work 1 WkLanguageModel\<rparr>)]\<rparr>"

lemma sample_ids: "lit ''work-00'' @ dec (Suc 0) = lit ''work-001''" "lit ''work-00'' @ dec 2 = lit ''work-002''"
  by (simp_all add: lit_def dec.simps)

lemma sample_tokens: "valid_token (lit ''work-001'') 8 128" "valid_token (lit ''work-002'') 8 128"
  by (simp_all add: valid_token_def lit_def work_token_byte_def is_ascii_alphanumeric_def is_ascii_digit_def len_utf8_def)

lemmas sample_simps = submit_work_def validate_work_item_def sample_work_def sample_ids sample_tokens single_slot_def busy_slot_def
  default_work_scheduler_def default_work_queue_policy_def stale_reason_def observe_address_def make_room_def enqueue_work_def
  submit_reason_def or_else_def u64_max_def

lemma sample_submits:
  "submit_work (sample_work 1 WkLanguageModel) 10 single_slot = Some (Inr \<lparr>wr_accepted = True, wr_cancellations = []\<rparr>, busy_slot)"
  "submit_work (sample_work 2 WkEmbedding) 20 busy_slot =
     Some (Inr \<lparr>wr_accepted = False, wr_cancellations = [\<lparr>wc_work_id = lit ''work-002'', wc_reason = QueueCapacity\<rparr>]\<rparr>, busy_slot)"
  by (simp_all add: sample_simps)

lemma busy_slot_reachable: "scheduler_reachable single_slot" "scheduler_reachable busy_slot"
proof -
  have "scheduler_with_policy \<lparr>wq_maximum_pending = 1\<rparr> = Inr single_slot"
    by (simp add: scheduler_with_policy_def validate_work_queue_policy_def single_slot_def)
  then show "scheduler_reachable single_slot" by (rule scheduler_reachable.start)
  then show "scheduler_reachable busy_slot" using sample_submits(1) by (rule scheduler_reachable.submitted)
qed

theorem scheduler_state_consistent_witness:
  "pending_len busy_slot = 1 \<and> distinct (pending_ids busy_slot) \<and> submit_work (sample_work 2 WkEmbedding) 20 busy_slot \<noteq> None"
  using scheduler_state_consistent [OF busy_slot_reachable(2)] by (simp add: busy_slot_def pending_len_def)

theorem submission_accounts_for_work_witness:
  "cancellation_justified (sample_work 2 WkEmbedding) busy_slot busy_slot \<lparr>wc_work_id = lit ''work-002'', wc_reason = QueueCapacity\<rparr>"
  using submission_accounts_for_work [OF busy_slot_reachable(2) sample_submits(2)] unfolding work_submit_result.select_convs by (metis list.set_intros(1))

theorem dispatch_refines_priority_order_witness:
  "fst (pop_next 30 busy_slot) = Some (sample_work 1 WkLanguageModel) \<and> service_order busy_slot = [sample_work 1 WkLanguageModel]
    \<and> service_order busy_slot = join_queue (sample_work 1 WkLanguageModel) (service_order single_slot)"
proof -
  have orders: "service_order single_slot = []" "service_order busy_slot = [sample_work 1 WkLanguageModel]"
    by (simp_all add: service_order_def service_entries_def single_slot_def busy_slot_def default_work_scheduler_def)
  then have "fst (pop_next 30 busy_slot) = Some (sample_work 1 WkLanguageModel)"
    using dispatch_refines_priority_order [OF busy_slot_reachable(2), of 30] by (simp add: serve_first_def sample_work_def)
  then show ?thesis using orders by (simp add: join_queue_def)
qed

end
