(* ===== verification/Archive_Paths.thy ===== *)
theory Archive_Paths
  imports Ordered_Maps
begin

text \<open>
  Validation of archive members before extraction, \<open>crates/model-manager/src/archive.rs\<close>: a path is accepted only when it stays
  below the directory it is joined to, under the rules of Windows file names, and the members of an archive are accepted only
  within the limits of the policy and without collisions.
\<close>

section \<open>Splitting and joining\<close>

text \<open>\<open>str::split\<close> with a character gives at least one part; \<open>join\<close> undoes it.\<close>

fun split_on :: "uchar \<Rightarrow> rstr \<Rightarrow> rstr list" where
  "split_on c [] = [[]]"
| "split_on c (x # s) =
     (if x = c then [] # split_on c s else (case split_on c s of [] \<Rightarrow> [[x]] | p # ps \<Rightarrow> (x # p) # ps))"

fun join_with :: "uchar \<Rightarrow> rstr list \<Rightarrow> rstr" where
  "join_with c [] = []"
| "join_with c [p] = p"
| "join_with c (p # ps) = p @ c # join_with c ps"

lemma split_on_not_Nil [simp]: "split_on c s \<noteq> []"
  by (induction c s rule: split_on.induct) (auto split: list.splits)

lemma join_split [simp]: "join_with c (split_on c s) = s"
proof (induction c s rule: split_on.induct)
  case (2 c x s)
  obtain p ps where ps: "split_on c s = p # ps" by (cases "split_on c s") auto
  with 2 show ?case by (cases ps) auto
qed simp

lemma split_on_parts: "p \<in> set (split_on c s) \<Longrightarrow> c \<notin> set p"
  by (induction c s arbitrary: p rule: split_on.induct) (auto split: list.splits if_splits)

lemma split_on_free: "c \<notin> set p \<Longrightarrow> split_on c p = [p]"
  by (induction p) auto

lemma split_on_append: "c \<notin> set p \<Longrightarrow> split_on c (p @ c # s) = p # split_on c s"
  by (induction p) auto

lemma split_join: "ps \<noteq> [] \<Longrightarrow> \<forall>p\<in>set ps. c \<notin> set p \<Longrightarrow> split_on c (join_with c ps) = ps"
  by (induction c ps rule: join_with.induct) (auto simp: split_on_free split_on_append)

lemma set_split_on: "p \<in> set (split_on c s) \<Longrightarrow> set p \<subseteq> set s"
proof (induction c s arbitrary: p rule: split_on.induct)
  case (2 c x s)
  then show ?case by (fastforce split: list.splits if_splits)
qed simp

section \<open>Paths\<close>

definition WINDOWS_RESERVED :: "rstr list" where
  "WINDOWS_RESERVED = map lit [''con'', ''prn'', ''aux'', ''nul'', ''clock$'', ''com1'', ''com2'', ''com3'', ''com4'', ''com5'', ''com6'',
     ''com7'', ''com8'', ''com9'', ''lpt1'', ''lpt2'', ''lpt3'', ''lpt4'', ''lpt5'', ''lpt6'', ''lpt7'', ''lpt8'', ''lpt9'']"

datatype archive_path_error =
    ApEmpty | ApTooLong | ApControlCharacter | ApAbsoluteOrUnc | ApDrivePrefix | ApEmptyComponent | ApTraversal
  | ApAlternateDataStream | ApTrailingDotOrSpace | ApComponentTooLong | ApReservedDeviceName rstr | ApInvalidWindowsCharacter

text \<open>The characters tested are the colon, the space and the dot, and the six characters Windows forbids.\<close>

definition check_component :: "rstr \<Rightarrow> (archive_path_error, unit) result" where
  "check_component p =
     (if p = [] then Inl ApEmptyComponent
      else if p = lit ''.'' \<or> p = lit ''..'' then Inl ApTraversal
      else if 58 \<in> set p then Inl ApAlternateDataStream
      else if last p = 32 \<or> last p = 46 then Inl ApTrailingDotOrSpace
      else if blen p > 255 then Inl ApComponentTooLong
      else if to_ascii_lowercase (hd (split_on 46 p)) \<in> set WINDOWS_RESERVED then Inl (ApReservedDeviceName p)
      else if list_ex (\<lambda>c. c \<in> {60, 62, 34, 124, 63, 42}) p then Inl ApInvalidWindowsCharacter
      else Inr ())"

fun check_components :: "rstr list \<Rightarrow> (archive_path_error, rstr list) result" where
  "check_components [] = Inr []"
| "check_components (p # ps) =
     bind_result (check_component p) (\<lambda>_. bind_result (check_components ps) (\<lambda>clean. Inr (p # clean)))"

definition forward_slashes :: "rstr \<Rightarrow> rstr" where
  "forward_slashes s = map (\<lambda>c. if c = 92 then 47 else c) s"

text \<open>The second byte is a colon only if the first character is a single byte and the second one is the colon.\<close>

definition has_drive_prefix :: "rstr \<Rightarrow> bool" where
  "has_drive_prefix s = (case s of a # b # _ \<Rightarrow> len_utf8 a = 1 \<and> b = 58 | _ \<Rightarrow> False)"

definition validate_relative_archive_path :: "rstr \<Rightarrow> (archive_path_error, rstr) result" where
  "validate_relative_archive_path input =
     (if input = [] then Inl ApEmpty
      else if blen input > 1024 then Inl ApTooLong
      else if list_ex (\<lambda>c. c = 0 \<or> is_control c) input then Inl ApControlCharacter
      else
        (let normalized = forward_slashes input in
         if hd normalized = 47 then Inl ApAbsoluteOrUnc
         else if has_drive_prefix normalized then Inl ApDrivePrefix
         else bind_result (check_components (split_on 47 normalized)) (\<lambda>clean. Inr (join_with 47 clean))))"

section \<open>Members of an archive\<close>

datatype archive_entry_kind = EntryFile | EntryDirectory | EntrySymlink | EntryHardlink | EntryDevice

record archive_entry =
  ae_path :: rstr
  ae_kind :: archive_entry_kind
  ae_uncompressed_size :: nat

record archive_policy =
  ap_max_entries :: nat
  ap_max_uncompressed_bytes :: nat
  ap_max_single_file_bytes :: nat

definition default_archive_policy :: archive_policy where
  "default_archive_policy = \<lparr>ap_max_entries = 100000, ap_max_uncompressed_bytes = 512 * 1024 * 1024 * 1024,
     ap_max_single_file_bytes = 128 * 1024 * 1024 * 1024\<rparr>"

datatype archive_validation_error =
    ArchivePath archive_path_error | EntryLimit | SizeLimit | SingleFileLimit rstr
  | UnsupportedEntryType rstr archive_entry_kind | CaseFoldCollision rstr | FileAsParent rstr

definition entry_candidate :: "archive_entry \<Rightarrow> rstr" where
  "entry_candidate e =
     (if ae_kind e = EntryDirectory \<and> ae_path e \<noteq> [] \<and> last (ae_path e) = 47 then butlast (ae_path e) else ae_path e)"

definition parent_paths :: "rstr \<Rightarrow> rstr list" where
  "parent_paths folded =
     (let components = split_on 47 folded in map (\<lambda>i. join_with 47 (take i components)) [1..<length components])"

fun validate_entries ::
  "archive_policy \<Rightarrow> rstr list \<Rightarrow> (rstr, archive_entry_kind) btree \<Rightarrow> nat \<Rightarrow> archive_entry list
     \<Rightarrow> (archive_validation_error, rstr list) result" where
  "validate_entries policy seen kinds sofar [] = Inr []"
| "validate_entries policy seen kinds sofar (e # es) =
     (if \<not> (ae_kind e = EntryFile \<or> ae_kind e = EntryDirectory) then Inl (UnsupportedEntryType (ae_path e) (ae_kind e))
      else if ae_uncompressed_size e > ap_max_single_file_bytes policy then Inl (SingleFileLimit (ae_path e))
      else if sofar + ae_uncompressed_size e > u64_max then Inl SizeLimit
      else if sofar + ae_uncompressed_size e > ap_max_uncompressed_bytes policy then Inl SizeLimit
      else
        bind_result (map_err ArchivePath (validate_relative_archive_path (entry_candidate e))) (\<lambda>path.
          (let folded = to_ascii_lowercase path in
           if folded \<in> set seen then Inl (CaseFoldCollision path)
           else
             (case find (\<lambda>parent. bt_get kinds parent = Some EntryFile) (parent_paths folded) of
                Some parent \<Rightarrow> Inl (FileAsParent parent)
              | None \<Rightarrow>
                  bind_result (validate_entries policy (folded # seen) (bt_insert folded (ae_kind e) kinds)
                      (sofar + ae_uncompressed_size e) es) (\<lambda>validated. Inr (path # validated))))))"

definition validate_archive_entries ::
  "archive_entry list \<Rightarrow> archive_policy \<Rightarrow> (archive_validation_error, rstr list) result" where
  "validate_archive_entries entries policy =
     (if length entries > ap_max_entries policy then Inl EntryLimit else validate_entries policy [] [] 0 entries)"

section \<open>Confinement\<close>

text \<open>Lexical resolution of a relative path below a directory, as a file system performs it.\<close>

fun resolve_path :: "rstr list \<Rightarrow> rstr list \<Rightarrow> rstr list" where
  "resolve_path dir [] = dir"
| "resolve_path dir (p # ps) =
     (if p = [] \<or> p = lit ''.'' then resolve_path dir ps
      else if p = lit ''..'' then resolve_path (butlast dir) ps
      else resolve_path (dir @ [p]) ps)"

lemma resolve_plain: "\<forall>p\<in>set ps. p \<noteq> [] \<and> p \<noteq> lit ''.'' \<and> p \<noteq> lit ''..'' \<Longrightarrow> resolve_path dir ps = dir @ ps"
  by (induction ps arbitrary: dir) auto

lemma check_components_Inr: "check_components ps = Inr qs \<longleftrightarrow> qs = ps \<and> (\<forall>p\<in>set ps. check_component p = Inr ())"
  by (induction ps arbitrary: qs) (auto simp: bind_result_Inr_iff)

lemma check_component_Inr:
  "check_component p = Inr () \<longleftrightarrow> p \<noteq> [] \<and> p \<noteq> lit ''.'' \<and> p \<noteq> lit ''..'' \<and> 58 \<notin> set p \<and> last p \<noteq> 32 \<and> last p \<noteq> 46
     \<and> blen p \<le> 255 \<and> to_ascii_lowercase (hd (split_on 46 p)) \<notin> set WINDOWS_RESERVED
     \<and> set p \<inter> {60, 62, 34, 124, 63, 42} = {}"
  by (auto simp: check_component_def list_ex_iff)

lemma validate_path_Inr:
  "validate_relative_archive_path s = Inr p \<longleftrightarrow>
     s \<noteq> [] \<and> blen s \<le> 1024 \<and> (\<forall>c\<in>set s. c \<noteq> 0 \<and> \<not> is_control c) \<and> hd (forward_slashes s) \<noteq> 47
     \<and> \<not> has_drive_prefix (forward_slashes s) \<and> (\<forall>c\<in>set (split_on 47 (forward_slashes s)). check_component c = Inr ())
     \<and> p = forward_slashes s"
  by (auto simp: validate_relative_archive_path_def Let_def bind_result_Inr_iff check_components_Inr list_ex_iff)

lemma forward_slashes_idem [simp]: "forward_slashes (forward_slashes s) = forward_slashes s"
  by (simp add: forward_slashes_def)

lemma forward_slashes_free: "92 \<notin> set (forward_slashes s)"
  by (auto simp: forward_slashes_def)

lemma blen_forward_slashes [simp]: "blen (forward_slashes s) = blen s"
  by (induction s) (auto simp: forward_slashes_def len_utf8_def)

text \<open>
  C23. An accepted path is the input with forward slashes; resolved below any directory it names something below that
  directory, each of its components is an ordinary Windows file name, and validating it again changes nothing.
\<close>

theorem archive_path_is_confined:
  assumes "validate_relative_archive_path s = Inr p"
  shows "p = forward_slashes s \<and> resolve_path dir (split_on 47 p) = dir @ split_on 47 p
    \<and> (\<forall>c\<in>set (split_on 47 p). c \<noteq> [] \<and> set c \<inter> {0, 47, 92, 58, 60, 62, 34, 124, 63, 42} = {} \<and> blen c \<le> 255
         \<and> last c \<noteq> 32 \<and> last c \<noteq> 46 \<and> to_ascii_lowercase (hd (split_on 46 c)) \<notin> set WINDOWS_RESERVED)
    \<and> validate_relative_archive_path p = Inr p"
proof -
  note ok = assms [unfolded validate_path_Inr]
  have p: "p = forward_slashes s" using ok by simp
  have parts: "check_component c = Inr ()" "47 \<notin> set c" "92 \<notin> set c" "0 \<notin> set c" if "c \<in> set (split_on 47 p)" for c
  proof -
    show "check_component c = Inr ()" "47 \<notin> set c" using that ok split_on_parts [OF that] by (simp_all add: p)
    have "set c \<subseteq> set (forward_slashes s)" using set_split_on [OF that] by (simp add: p)
    then show "92 \<notin> set c" "0 \<notin> set c"
      using forward_slashes_free [of s] ok by (auto simp: forward_slashes_def split: if_splits)
  qed
  have plain: "\<forall>c\<in>set (split_on 47 p). c \<noteq> [] \<and> c \<noteq> lit ''.'' \<and> c \<noteq> lit ''..''"
    using parts(1) by (simp add: check_component_Inr)
  have "\<forall>c\<in>set p. c \<noteq> 0 \<and> \<not> is_control c"
    using ok unfolding p forward_slashes_def by (auto simp: is_control_def)
  moreover have "p \<noteq> []" using ok by (auto simp: p forward_slashes_def)
  ultimately have again: "validate_relative_archive_path p = Inr p" using ok unfolding validate_path_Inr by (simp add: p)
  show ?thesis using p again resolve_plain [OF plain] parts by (auto simp: check_component_Inr)
qed

section \<open>Whole archives\<close>

text \<open>A directory is named by its path with or without one slash at the end, a file by its path. An earlier member that is a file must
  not be a parent of a later one: the path of the later one does not go on after the file's with a slash.\<close>

definition member_name :: "archive_entry \<Rightarrow> rstr \<Rightarrow> bool" where
  "member_name e c \<longleftrightarrow>
     (if ae_kind e = EntryDirectory \<and> (\<exists>q. ae_path e = q @ [47]) then ae_path e = c @ [47] else ae_path e = c)"

definition member_ok :: "archive_policy \<Rightarrow> archive_entry \<Rightarrow> rstr \<Rightarrow> bool" where
  "member_ok policy e p \<longleftrightarrow> (ae_kind e = EntryFile \<or> ae_kind e = EntryDirectory)
     \<and> ae_uncompressed_size e \<le> ap_max_single_file_bytes policy
     \<and> (\<exists>c. member_name e c \<and> validate_relative_archive_path c = Inr p)"

definition no_file_parent :: "archive_entry \<times> rstr \<Rightarrow> archive_entry \<times> rstr \<Rightarrow> bool" where
  "no_file_parent a b \<longleftrightarrow>
     \<not> (ae_kind (fst a) = EntryFile \<and> (\<exists>below. to_ascii_lowercase (snd b) = to_ascii_lowercase (snd a) @ 47 # below))"

lemma entry_candidate_name: "member_name e c \<longleftrightarrow> c = entry_candidate e"
  by (cases "ae_path e" rule: rev_cases) (auto simp: member_name_def entry_candidate_def)

lemma member_ok_iff:
  "member_ok policy e p \<longleftrightarrow> (ae_kind e = EntryFile \<or> ae_kind e = EntryDirectory)
     \<and> ae_uncompressed_size e \<le> ap_max_single_file_bytes policy \<and> validate_relative_archive_path (entry_candidate e) = Inr p"
  by (simp add: member_ok_def entry_candidate_name)

lemma split_on_at: "split_on c (p @ c # s) = split_on c p @ split_on c s"
  by (induction c p rule: split_on.induct) (auto split: list.split)

lemma join_append: "ps \<noteq> [] \<Longrightarrow> qs \<noteq> [] \<Longrightarrow> join_with c (ps @ qs) = join_with c ps @ c # join_with c qs"
proof (induction c ps rule: join_with.induct)
  case (2 c p)
  then show ?case by (cases qs) auto
qed auto

text \<open>The proper prefixes of the components are the paths above a path.\<close>

lemma parent_paths_iff: "q \<in> set (parent_paths p) \<longleftrightarrow> (\<exists>below. p = q @ 47 # below)"
proof
  assume "q \<in> set (parent_paths p)"
  then obtain i where i: "1 \<le> i" "i < length (split_on 47 p)" "q = join_with 47 (take i (split_on 47 p))"
    by (auto simp: parent_paths_def Let_def)
  have "take i (split_on 47 p) \<noteq> []" "drop i (split_on 47 p) \<noteq> []" using i(1,2) by auto
  then have "p = q @ 47 # join_with 47 (drop i (split_on 47 p))" using join_append [of _ _ 47] by (metis append_take_drop_id i(3) join_split)
  then show "\<exists>below. p = q @ 47 # below" by blast
next
  assume "\<exists>below. p = q @ 47 # below"
  then obtain below where p: "p = q @ 47 # below" ..
  let ?n = "length (split_on 47 q)"
  have "1 \<le> ?n" "?n < length (split_on 47 p)" "take ?n (split_on 47 p) = split_on 47 q"
    by (simp_all add: p split_on_at Suc_le_eq)
  then show "q \<in> set (parent_paths p)"
    unfolding parent_paths_def Let_def by (auto intro!: image_eqI [of _ _ ?n])
qed

lemma no_file_parent_iff:
  "no_file_parent a b \<longleftrightarrow>
     \<not> (ae_kind (fst a) = EntryFile \<and> to_ascii_lowercase (snd a) \<in> set (parent_paths (to_ascii_lowercase (snd b))))"
  by (simp add: no_file_parent_def parent_paths_iff)

lemma ball_zip_snd: "length xs = length ys \<Longrightarrow> (\<forall>z\<in>set (zip xs ys). Q (snd z)) \<longleftrightarrow> (\<forall>y\<in>set ys. Q y)"
  by (metis (no_types, lifting) image_iff list.set_map map_snd_zip)

lemma validate_entries_Cons:
  "validate_entries policy seen kinds sofar (e # es) = Inr ps \<longleftrightarrow>
     (\<exists>p rest. ps = p # rest \<and> member_ok policy e p
        \<and> sofar + ae_uncompressed_size e \<le> min u64_max (ap_max_uncompressed_bytes policy)
        \<and> to_ascii_lowercase p \<notin> set seen
        \<and> (\<forall>q\<in>set (parent_paths (to_ascii_lowercase p)). bt_get kinds q \<noteq> Some EntryFile)
        \<and> validate_entries policy (to_ascii_lowercase p # seen) (bt_insert (to_ascii_lowercase p) (ae_kind e) kinds)
             (sofar + ae_uncompressed_size e) es = Inr rest)"
proof (cases "(ae_kind e = EntryFile \<or> ae_kind e = EntryDirectory) \<and> ae_uncompressed_size e \<le> ap_max_single_file_bytes policy
    \<and> sofar + ae_uncompressed_size e \<le> min u64_max (ap_max_uncompressed_bytes policy)")
  case True
  have find: "find (\<lambda>q. bt_get kinds q = Some EntryFile) qs = None \<longleftrightarrow> (\<forall>q\<in>set qs. bt_get kinds q \<noteq> Some EntryFile)" for qs
    by (auto simp: find_None_iff)
  show ?thesis
    using True by (cases "validate_relative_archive_path (entry_candidate e)")
      (auto simp: member_ok_iff Let_def bind_result_Inr_iff find [symmetric] map_err_def split: option.splits if_splits)
next
  case False
  then show ?thesis by (simp add: member_ok_iff) (meson not_less)
qed

lemma validate_entries_Inr:
  assumes "fst ` set kinds \<subseteq> set seen"
  shows "validate_entries policy seen kinds sofar es = Inr ps \<longleftrightarrow>
     list_all2 (member_ok policy) es ps
     \<and> (es \<noteq> [] \<longrightarrow> sofar + sum_list (map ae_uncompressed_size es) \<le> min u64_max (ap_max_uncompressed_bytes policy))
     \<and> distinct (map to_ascii_lowercase ps) \<and> set (map to_ascii_lowercase ps) \<inter> set seen = {}
     \<and> (\<forall>p\<in>set ps. \<forall>q\<in>set (parent_paths (to_ascii_lowercase p)). bt_get kinds q \<noteq> Some EntryFile)
     \<and> sorted_wrt no_file_parent (zip es ps)"
  using assms
proof (induction es arbitrary: seen kinds sofar ps)
  case (Cons e es)
  show ?case
  proof (cases "\<exists>p rest. ps = p # rest \<and> to_ascii_lowercase p \<notin> set seen")
    case False
    then show ?thesis unfolding validate_entries_Cons by (cases ps) auto
  next
    case True
    then obtain p rest where ps: "ps = p # rest" and fresh: "to_ascii_lowercase p \<notin> set seen" by blast
    let ?f = "to_ascii_lowercase p"
    let ?k = "bt_insert ?f (ae_kind e) kinds"
    have "bt_get kinds ?f = None" using fresh Cons.prems by (auto simp: map_of_eq_None_iff)
    then have get: "bt_get ?k q \<noteq> Some EntryFile \<longleftrightarrow> bt_get kinds q \<noteq> Some EntryFile \<and> \<not> (ae_kind e = EntryFile \<and> ?f = q)" for q
      by auto
    have pairs: "(\<forall>y\<in>set (zip es rest). no_file_parent (e, p) y)
        \<longleftrightarrow> (\<forall>r\<in>set rest. \<not> (ae_kind e = EntryFile \<and> ?f \<in> set (parent_paths (to_ascii_lowercase r))))"
      if "length es = length rest"
      using ball_zip_snd [OF that, of "\<lambda>r. \<not> (ae_kind e = EntryFile \<and> ?f \<in> set (parent_paths (to_ascii_lowercase r)))"]
      by (simp add: no_file_parent_iff)
    have "fst ` set ?k \<subseteq> set (?f # seen)" using Cons.prems by auto
    note IH = Cons.IH [OF this]
    have step: "validate_entries policy seen kinds sofar (e # es) = Inr ps \<longleftrightarrow>
        member_ok policy e p \<and> sofar + ae_uncompressed_size e \<le> min u64_max (ap_max_uncompressed_bytes policy)
        \<and> (\<forall>q\<in>set (parent_paths ?f). bt_get kinds q \<noteq> Some EntryFile)
        \<and> validate_entries policy (?f # seen) ?k (sofar + ae_uncompressed_size e) es = Inr rest"
      unfolding validate_entries_Cons ps using fresh by auto
    show ?thesis
    proof (cases "length es = length rest")
      case True
      have sizes: "n \<le> b \<and> (es \<noteq> [] \<longrightarrow> n + sum_list (map ae_uncompressed_size es) \<le> b)
          \<longleftrightarrow> n + sum_list (map ae_uncompressed_size es) \<le> b" for n b :: nat
        by (cases es) auto
      have tails: "set (map to_ascii_lowercase rest) \<inter> set (?f # seen) = {}
          \<longleftrightarrow> ?f \<notin> set (map to_ascii_lowercase rest) \<and> set (map to_ascii_lowercase rest) \<inter> set seen = {}"
        by auto
      have parents: "(\<forall>r\<in>set rest. \<forall>q\<in>set (parent_paths (to_ascii_lowercase r)). bt_get ?k q \<noteq> Some EntryFile)
          \<longleftrightarrow> (\<forall>r\<in>set rest. \<forall>q\<in>set (parent_paths (to_ascii_lowercase r)). bt_get kinds q \<noteq> Some EntryFile)
            \<and> (\<forall>y\<in>set (zip es rest). no_file_parent (e, p) y)"
        unfolding get pairs [OF True] by blast
      show ?thesis
        unfolding step unfolding IH ps tails parents
        using fresh sizes [of "sofar + ae_uncompressed_size e" "min u64_max (ap_max_uncompressed_bytes policy)"]
        by (simp only: list_all2_Cons list.map sum_list.Cons distinct.simps list.set ball_simps zip_Cons_Cons sorted_wrt.simps
            Int_insert_left if_False if_True add.assoc list.distinct not_False_eq_True simp_thms) argo
    next
      case False
      then have "\<not> list_all2 (member_ok policy) es rest" by (auto dest: list_all2_lengthD)
      then show ?thesis unfolding step unfolding IH ps by simp
    qed
  qed
qed auto

text \<open>
  C36. An archive is accepted exactly when it has no more members than allowed, all of them files or directories of allowed size
  with valid paths, their sizes sum up to no more than the limit and without overflow, no two paths agree up to ASCII case, and no
  path continues that of an earlier file with a slash; the result is the list of the normalized paths in order.
\<close>

theorem archive_members_exact:
  "validate_archive_entries es policy = Inr ps \<longleftrightarrow>
     length es \<le> ap_max_entries policy \<and> list_all2 (member_ok policy) es ps
     \<and> sum_list (map ae_uncompressed_size es) \<le> min u64_max (ap_max_uncompressed_bytes policy)
     \<and> distinct (map to_ascii_lowercase ps) \<and> sorted_wrt no_file_parent (zip es ps)"
  by (cases "es = []") (auto simp: validate_archive_entries_def validate_entries_Inr)

lemmas path_simps = validate_relative_archive_path_def check_component_def forward_slashes_def has_drive_prefix_def is_control_def
  WINDOWS_RESERVED_def to_ascii_lowercase_def lit_def len_utf8_def

theorem archive_path_is_confined_witness:
  "resolve_path [lit ''staging''] (split_on 47 (lit ''models/a.bin'')) = [lit ''staging'', lit ''models'', lit ''a.bin'']
     \<and> validate_relative_archive_path [109, 92, 97] = Inr (lit ''m/a'')"
proof -
  have "validate_relative_archive_path (lit ''models/a.bin'') = Inr (lit ''models/a.bin'')"
    by (simp add: path_simps)
  from archive_path_is_confined [OF this, of "[lit ''staging'']"] show ?thesis
    by (simp add: path_simps)
qed

text \<open>The test for a file that is used as a directory looks only at the members before: the same two members are refused
  in one order and accepted in the other. Paths that differ only in the case of a letter beyond ASCII are not seen as
  colliding.\<close>

lemma sample_paths:
  "validate_relative_archive_path (lit ''a'') = Inr (lit ''a'')" "validate_relative_archive_path (lit ''a/b'') = Inr (lit ''a/b'')"
  "validate_relative_archive_path [201] = Inr [201]" "validate_relative_archive_path [233] = Inr [233]"
  "to_ascii_lowercase (lit ''a'') = lit ''a''" "to_ascii_lowercase (lit ''a/b'') = lit ''a/b''"
  "to_ascii_lowercase [201] = [201]" "to_ascii_lowercase [233] = [233]"
  "parent_paths (lit ''a'') = []" "parent_paths (lit ''a/b'') = [lit ''a'']" "parent_paths [201] = []" "parent_paths [233] = []"
  by (simp_all add: path_simps parent_paths_def)

lemmas sample_archive_simps = validate_archive_entries_def default_archive_policy_def u64_max_def entry_candidate_def map_err_def sample_paths

lemma file_parent_depends_on_order:
  "validate_archive_entries [\<lparr>ae_path = lit ''a'', ae_kind = EntryFile, ae_uncompressed_size = 1\<rparr>,
     \<lparr>ae_path = lit ''a/b'', ae_kind = EntryFile, ae_uncompressed_size = 1\<rparr>] default_archive_policy = Inl (FileAsParent (lit ''a''))"
  "validate_archive_entries [\<lparr>ae_path = lit ''a/b'', ae_kind = EntryFile, ae_uncompressed_size = 1\<rparr>,
     \<lparr>ae_path = lit ''a'', ae_kind = EntryFile, ae_uncompressed_size = 1\<rparr>] default_archive_policy = Inr [lit ''a/b'', lit ''a'']"
  by (simp_all add: sample_archive_simps)

lemma case_folding_is_ascii_only:
  "validate_archive_entries [\<lparr>ae_path = [201], ae_kind = EntryFile, ae_uncompressed_size = 1\<rparr>,
     \<lparr>ae_path = [233], ae_kind = EntryFile, ae_uncompressed_size = 1\<rparr>] default_archive_policy = Inr [[201], [233]]"
  by (simp add: sample_archive_simps)

end
