(* ===== verification/Pack_Manifests.thy ===== *)
theory Pack_Manifests
  imports Archive_Paths "HOL-Library.Product_Lexorder"
begin

text \<open>
  The manifest of a model pack and its validation, \<open>crates/model-manager/src/manifest.rs\<close>. The newtypes \<open>PackId\<close>, \<open>Revision\<close> and
  \<open>Sha256Digest\<close> are the strings they hold, ordered sets are the lists of their members. What the code takes from \<open>serde_json\<close>,
  \<open>sha2\<close> and \<open>hex\<close> are the arguments \<open>to_json\<close> and \<open>sha256_hex\<close>; \<open>None\<close> of \<open>to_json\<close> is a serialization error.
\<close>

type_synonym octets = "8 word list"

section \<open>Identifiers\<close>

datatype manifest_error =
    InvalidPackId rstr | InvalidRevision rstr | InvalidSha256 rstr | UnsupportedManifestSchema rstr | MutableSourceRevision rstr
  | InvalidManifestText rstr | ArtifactCount nat | DuplicateArtifactId rstr | SourceUrlCount rstr | EmptyArtifact rstr
  | MissingArchiveFormat rstr | UnexpectedArchiveFormat rstr | InsecureUrl rstr | InvalidUrl rstr
  | UnsafeDestination rstr archive_path_error | UnsafeSelfTestFixture archive_path_error | DuplicateDestination rstr
  | PackTooLarge | StorageUnderreported nat nat | PeakInstallUnderreported | InvertedHardwareRange rstr | IncompleteHardware
  | IncompleteCompatibility | AmbiguousRedistributionLicense | InvalidSelfTestTimeout nat | InvalidSelfTestBackends
  | ManifestSerialization

definition str_contains :: "rstr \<Rightarrow> rstr \<Rightarrow> bool" where
  "str_contains s t \<longleftrightarrow> list_ex (\<lambda>i. take (length t) (drop i s) = t) [0..<Suc (length s)]"

definition is_ascii_lowercase :: "uchar \<Rightarrow> bool" where
  "is_ascii_lowercase c \<longleftrightarrow> 97 \<le> c \<and> c \<le> 122"

definition parse_pack_id :: "rstr \<Rightarrow> (manifest_error, rstr) result" where
  "parse_pack_id v =
     (if 3 \<le> blen v \<and> blen v \<le> 96
         \<and> list_all (\<lambda>c. is_ascii_lowercase c \<or> is_ascii_digit c \<or> c = 45 \<or> c = 46) v
         \<and> is_ascii_alphanumeric (hd v) \<and> is_ascii_alphanumeric (last v)
         \<and> \<not> str_contains v (lit ''..'') \<and> \<not> str_contains v (lit ''.-'') \<and> \<not> str_contains v (lit ''-.'')
      then Inr v else Inl (InvalidPackId v))"

definition parse_revision :: "rstr \<Rightarrow> (manifest_error, rstr) result" where
  "parse_revision v =
     (if 1 \<le> blen v \<and> blen v \<le> 128
         \<and> list_all (\<lambda>c. is_ascii_alphanumeric c \<or> c = 46 \<or> c = 45 \<or> c = 95 \<or> c = 43) v
         \<and> v \<noteq> lit ''.'' \<and> v \<noteq> lit ''..''
      then Inr v else Inl (InvalidRevision v))"

definition parse_sha256 :: "rstr \<Rightarrow> (manifest_error, rstr) result" where
  "parse_sha256 v =
     (let value = to_ascii_lowercase v in
      if blen value = 64 \<and> list_all is_ascii_hexdigit value then Inr value else Inl (InvalidSha256 value))"

text \<open>\<open>PackRevision\<close> with its derived order.\<close>

datatype pack_revision = PackRevision (pr_pack_id: rstr) (pr_revision: rstr)

definition revision_key :: "pack_revision \<Rightarrow> rstr \<times> rstr" where
  "revision_key i = (pr_pack_id i, pr_revision i)"

lemma revision_key_eq [simp]: "revision_key a = revision_key b \<longleftrightarrow> a = b"
  by (cases a; cases b) (auto simp: revision_key_def)

instantiation pack_revision :: linorder
begin

definition less_eq_pack_revision :: "pack_revision \<Rightarrow> pack_revision \<Rightarrow> bool" where
  "less_eq_pack_revision a b \<longleftrightarrow> revision_key a \<le> revision_key b"

definition less_pack_revision :: "pack_revision \<Rightarrow> pack_revision \<Rightarrow> bool" where
  "less_pack_revision a b \<longleftrightarrow> revision_key a < revision_key b"

instance
  by standard (auto simp: less_eq_pack_revision_def less_pack_revision_def simp flip: revision_key_eq)

end

section \<open>Manifests\<close>

datatype artifact_kind = ArtArchive | ArtFile

datatype archive_format = FmtZip | FmtTar | FmtTarGz | FmtTarBz2

record artifact =
  at_id :: rstr
  at_kind :: artifact_kind
  at_archive_format :: "archive_format option"
  at_source_urls :: "rstr list"
  at_size_bytes :: nat
  at_sha256 :: rstr
  at_destination :: rstr
  at_strip_prefix :: "rstr option"
  at_required_paths :: "rstr list"

datatype pack_platform = Windows10 | Windows11

datatype pack_architecture = X86_64

record runtime_compatibility =
  rc_runtime :: rstr
  rc_abi :: rstr
  rc_minimum_runtime_revision :: "rstr option"
  rc_supported_platforms :: "pack_platform list"
  rc_supported_architectures :: "pack_architecture list"

datatype pack_accelerator = AccCpu | AccCuda | AccDirectMl | AccVulkan

record hardware_requirements =
  hw_minimum_ram_bytes :: nat
  hw_recommended_ram_bytes :: nat
  hw_minimum_vram_bytes :: "nat option"
  hw_recommended_vram_bytes :: "nat option"
  hw_minimum_cpu_threads :: nat
  hw_accelerators :: "pack_accelerator list"
  hw_required_cpu_features :: "rstr list"

datatype quality_tier = TierFast | TierBalanced | TierQuality | TierExperimental

record resource_envelope =
  re_storage_bytes :: nat
  re_peak_install_bytes :: nat
  re_measured_ram_bytes :: "nat option"
  re_measured_vram_bytes :: "nat option"
  re_measured_load_millis :: "nat option"
  re_benchmark_hardware :: "rstr option"
  re_quality_tier :: quality_tier
  re_languages :: "rstr list"

datatype model_pack_kind =
  PkLanguageModel | PkSpeechRecognition | PkSpeechSynthesis | PkEmbedding | PkVision | PkLipSync | PkAnimation | PkOther

fun pack_kind_rank :: "model_pack_kind \<Rightarrow> nat" where
  "pack_kind_rank PkLanguageModel = 0"
| "pack_kind_rank PkSpeechRecognition = 1"
| "pack_kind_rank PkSpeechSynthesis = 2"
| "pack_kind_rank PkEmbedding = 3"
| "pack_kind_rank PkVision = 4"
| "pack_kind_rank PkLipSync = 5"
| "pack_kind_rank PkAnimation = 6"
| "pack_kind_rank PkOther = 7"

instantiation model_pack_kind :: linorder
begin

definition less_eq_model_pack_kind :: "model_pack_kind \<Rightarrow> model_pack_kind \<Rightarrow> bool" where
  "less_eq_model_pack_kind a b \<longleftrightarrow> pack_kind_rank a \<le> pack_kind_rank b"

definition less_model_pack_kind :: "model_pack_kind \<Rightarrow> model_pack_kind \<Rightarrow> bool" where
  "less_model_pack_kind a b \<longleftrightarrow> pack_kind_rank a < pack_kind_rank b"

instance
proof
  fix a b :: model_pack_kind
  show "a \<le> b \<Longrightarrow> b \<le> a \<Longrightarrow> a = b"
    by (cases a; cases b) (auto simp: less_eq_model_pack_kind_def)
qed (auto simp: less_eq_model_pack_kind_def less_model_pack_kind_def)

end

datatype model_pack_scope = ScopeGeneric | ScopeGameSpecific

record model_pack_capability =
  ca_kind :: model_pack_kind
  ca_scope :: model_pack_scope

datatype license_permission = LpAllowed | LpProhibited | LpRestricted | LpUnknown

record license_metadata =
  li_spdx_expression :: "rstr option"
  li_license_name :: rstr
  li_license_url :: rstr
  li_attribution :: rstr
  li_redistributable :: bool
  li_commercial_use :: license_permission
  li_derivative_use :: license_permission
  li_acceptance_required :: bool
  li_notices :: "rstr list"

record self_test =
  st_kind :: rstr
  st_suite_revision :: rstr
  st_allowed_runtime_backends :: "rstr list"
  st_input_fixture :: rstr
  st_expected_output_sha256 :: "rstr option"
  st_timeout_millis :: nat

record model_pack_manifest =
  mf_schema :: rstr
  mf_pack_id :: rstr
  mf_revision :: rstr
  mf_display_name :: rstr
  mf_description :: rstr
  mf_source_project :: rstr
  mf_source_revision :: rstr
  mf_capability :: model_pack_capability
  mf_artifacts :: "artifact list"
  mf_runtime :: runtime_compatibility
  mf_hardware :: hardware_requirements
  mf_resources :: resource_envelope
  mf_license :: license_metadata
  mf_self_test :: self_test

section \<open>Validation\<close>

definition MODEL_PACK_MANIFEST_SCHEMA_V1 :: rstr where
  "MODEL_PACK_MANIFEST_SCHEMA_V1 = lit ''npc.model-pack/v1''"

definition MAX_PACK_BYTES :: nat where
  "MAX_PACK_BYTES = 512 * 1024 * 1024 * 1024"

definition MAX_ARTIFACTS :: nat where
  "MAX_ARTIFACTS = 256"

definition require_text :: "rstr \<Rightarrow> rstr \<Rightarrow> nat \<Rightarrow> nat \<Rightarrow> (manifest_error, unit) result" where
  "require_text field v lo hi =
     (if \<not> (lo \<le> blen (trim v) \<and> blen (trim v) \<le> hi) \<or> 0 \<in> set v then Inl (InvalidManifestText field) else Inr ())"

definition pack_token :: "rstr \<Rightarrow> nat \<Rightarrow> nat \<Rightarrow> bool" where
  "pack_token v lo hi \<longleftrightarrow>
     lo \<le> blen v \<and> blen v \<le> hi \<and> list_all (\<lambda>c. is_ascii_alphanumeric c \<or> c = 46 \<or> c = 45 \<or> c = 95) v"

definition require_token :: "rstr \<Rightarrow> rstr \<Rightarrow> nat \<Rightarrow> nat \<Rightarrow> (manifest_error, unit) result" where
  "require_token field v lo hi = (if pack_token v lo hi then Inr () else Inl (InvalidManifestText field))"

definition validate_https_url :: "rstr \<Rightarrow> (manifest_error, unit) result" where
  "validate_https_url url =
     (if take 8 url \<noteq> lit ''https://'' then Inl (InsecureUrl url)
      else
        (let rest = drop 8 url in
         if rest = [] \<or> hd rest = 47 \<or> 64 \<in> set rest \<or> list_ex is_whitespace rest then Inl (InvalidUrl url) else Inr ()))"

fun check_urls :: "rstr list \<Rightarrow> (manifest_error, unit) result" where
  "check_urls [] = Inr ()"
| "check_urls (u # us) = bind_result (validate_https_url u) (\<lambda>_. check_urls us)"

definition safe_path :: "rstr \<Rightarrow> rstr \<Rightarrow> (manifest_error, rstr) result" where
  "safe_path artifact_id p = map_err (UnsafeDestination artifact_id) (validate_relative_archive_path p)"

fun check_required_paths :: "rstr \<Rightarrow> rstr list \<Rightarrow> rstr list \<Rightarrow> (manifest_error, unit) result" where
  "check_required_paths artifact_id required [] = Inr ()"
| "check_required_paths artifact_id required (p # ps) =
     bind_result (safe_path artifact_id p) (\<lambda>path.
       if to_ascii_lowercase path \<in> set required then Inl (DuplicateDestination path)
       else check_required_paths artifact_id (to_ascii_lowercase path # required) ps)"

definition check_source :: "artifact \<Rightarrow> (manifest_error, unit) result" where
  "check_source a =
     (if at_source_urls a = [] \<or> length (at_source_urls a) > 8 then Inl (SourceUrlCount (at_id a))
      else bind_result (check_urls (at_source_urls a)) (\<lambda>_.
        if at_size_bytes a = 0 then Inl (EmptyArtifact (at_id a))
        else if at_kind a = ArtArchive \<and> at_archive_format a = None then Inl (MissingArchiveFormat (at_id a))
        else if at_kind a = ArtFile \<and> at_archive_format a \<noteq> None then Inl (UnexpectedArchiveFormat (at_id a))
        else Inr ()))"

definition check_placement :: "artifact \<Rightarrow> (manifest_error, unit) result" where
  "check_placement a =
     bind_result (safe_path (at_id a) (at_destination a)) (\<lambda>_.
     bind_result (case at_strip_prefix a of
          None \<Rightarrow> Inr ()
        | Some prefix \<Rightarrow>
            if at_kind a \<noteq> ArtArchive then Inl (UnexpectedArchiveFormat (at_id a))
            else bind_result (safe_path (at_id a) prefix) (\<lambda>_. Inr ())) (\<lambda>_.
       if at_required_paths a \<noteq> [] then
         if at_kind a \<noteq> ArtArchive \<or> length (at_required_paths a) > 1024 then Inl (UnexpectedArchiveFormat (at_id a))
         else check_required_paths (at_id a) [] (at_required_paths a)
       else Inr ()))"

definition destination_key :: "artifact \<Rightarrow> rstr" where
  "destination_key a = forward_slashes (to_ascii_lowercase (at_destination a))"

fun check_artifacts :: "rstr list \<Rightarrow> rstr list \<Rightarrow> nat \<Rightarrow> artifact list \<Rightarrow> (manifest_error, nat) result" where
  "check_artifacts ids destinations sofar [] = Inr sofar"
| "check_artifacts ids destinations sofar (a # as) =
     bind_result (require_token (lit ''artifact.id'') (at_id a) 1 128) (\<lambda>_.
       if to_ascii_lowercase (at_id a) \<in> set ids then Inl (DuplicateArtifactId (at_id a))
       else bind_result (check_source a) (\<lambda>_.
         if sofar + at_size_bytes a > u64_max then Inl PackTooLarge
         else bind_result (check_placement a) (\<lambda>_.
           if destination_key a \<in> set destinations then Inl (DuplicateDestination (at_destination a))
           else check_artifacts (to_ascii_lowercase (at_id a) # ids) (destination_key a # destinations) (sofar + at_size_bytes a) as)))"

definition check_header :: "model_pack_manifest \<Rightarrow> (manifest_error, unit) result" where
  "check_header m =
     (if mf_schema m \<noteq> MODEL_PACK_MANIFEST_SCHEMA_V1 then Inl (UnsupportedManifestSchema (mf_schema m))
      else
        bind_result (parse_pack_id (mf_pack_id m)) (\<lambda>_.
        bind_result (parse_revision (mf_revision m)) (\<lambda>_.
        bind_result (require_text (lit ''display_name'') (mf_display_name m) 1 160) (\<lambda>_.
        bind_result (require_text (lit ''description'') (mf_description m) 1 4096) (\<lambda>_.
        bind_result (require_text (lit ''source_project'') (mf_source_project m) 1 512) (\<lambda>_.
        bind_result (require_text (lit ''source_revision'') (mf_source_revision m) 1 256) (\<lambda>_.
          if to_ascii_lowercase (mf_source_revision m) \<in> {lit ''main'', lit ''master'', lit ''head'', lit ''latest''}
          then Inl (MutableSourceRevision (mf_source_revision m))
          else if mf_artifacts m = [] \<or> length (mf_artifacts m) > MAX_ARTIFACTS then Inl (ArtifactCount (length (mf_artifacts m)))
          else Inr ())))))))"

definition check_sizes :: "model_pack_manifest \<Rightarrow> nat \<Rightarrow> (manifest_error, unit) result" where
  "check_sizes m bytes =
     (let r = mf_resources m; h = mf_hardware m in
      if bytes > MAX_PACK_BYTES \<or> re_storage_bytes r > MAX_PACK_BYTES then Inl PackTooLarge
      else if re_storage_bytes r < bytes then Inl (StorageUnderreported (re_storage_bytes r) bytes)
      else if re_peak_install_bytes r < re_storage_bytes r then Inl PeakInstallUnderreported
      else if hw_minimum_ram_bytes h > hw_recommended_ram_bytes h then Inl (InvertedHardwareRange (lit ''ram''))
      else if (case (hw_minimum_vram_bytes h, hw_recommended_vram_bytes h) of (Some lo, Some hi) \<Rightarrow> lo > hi | _ \<Rightarrow> False)
        then Inl (InvertedHardwareRange (lit ''vram''))
      else if hw_minimum_cpu_threads h = 0 \<or> hw_accelerators h = [] then Inl IncompleteHardware
      else if rc_supported_platforms (mf_runtime m) = [] \<or> rc_supported_architectures (mf_runtime m) = [] \<or> re_languages r = []
        then Inl IncompleteCompatibility
      else Inr ())"

fun check_backends :: "rstr list \<Rightarrow> (manifest_error, unit) result" where
  "check_backends [] = Inr ()"
| "check_backends (b # bs) = bind_result (require_token (lit ''self_test.runtime_backend'') b 1 128) (\<lambda>_. check_backends bs)"

definition check_terms :: "model_pack_manifest \<Rightarrow> (manifest_error, unit) result" where
  "check_terms m =
     (let l = mf_license m; t = mf_self_test m in
      bind_result (require_text (lit ''runtime.runtime'') (rc_runtime (mf_runtime m)) 1 128) (\<lambda>_.
      bind_result (require_text (lit ''runtime.abi'') (rc_abi (mf_runtime m)) 1 128) (\<lambda>_.
      bind_result (require_text (lit ''license.name'') (li_license_name l) 1 256) (\<lambda>_.
      bind_result (validate_https_url (li_license_url l)) (\<lambda>_.
      bind_result (require_text (lit ''license.attribution'') (li_attribution l) 1 8192) (\<lambda>_.
        if li_redistributable l \<and> li_commercial_use l = LpUnknown then Inl AmbiguousRedistributionLicense
        else
          bind_result (require_token (lit ''self_test.kind'') (st_kind t) 1 64) (\<lambda>_.
          bind_result (require_token (lit ''self_test.suite_revision'') (st_suite_revision t) 1 128) (\<lambda>_.
            if st_allowed_runtime_backends t = [] \<or> length (st_allowed_runtime_backends t) > 16 then Inl InvalidSelfTestBackends
            else
              bind_result (check_backends (st_allowed_runtime_backends t)) (\<lambda>_.
              bind_result (map_err UnsafeSelfTestFixture (validate_relative_archive_path (st_input_fixture t))) (\<lambda>_.
                if \<not> (100 \<le> st_timeout_millis t \<and> st_timeout_millis t \<le> 300000)
                then Inl (InvalidSelfTestTimeout (st_timeout_millis t)) else Inr ()))))))))))"

definition validate_manifest :: "model_pack_manifest \<Rightarrow> (manifest_error, unit) result" where
  "validate_manifest m =
     bind_result (check_header m) (\<lambda>_.
     bind_result (check_artifacts [] [] 0 (mf_artifacts m)) (\<lambda>bytes.
     bind_result (check_sizes m bytes) (\<lambda>_. check_terms m)))"

definition manifest_digest ::
  "(model_pack_manifest \<Rightarrow> octets option) \<Rightarrow> (octets \<Rightarrow> rstr) \<Rightarrow> model_pack_manifest \<Rightarrow> (manifest_error, rstr) result" where
  "manifest_digest to_json sha256_hex m =
     bind_result (validate_manifest m) (\<lambda>_.
       case to_json m of None \<Rightarrow> Inl ManifestSerialization | Some encoded \<Rightarrow> Inr (sha256_hex encoded))"

definition manifest_identity :: "model_pack_manifest \<Rightarrow> pack_revision" where
  "manifest_identity m = PackRevision (mf_pack_id m) (mf_revision m)"

section \<open>What an accepted manifest guarantees\<close>

lemma check_artifacts_Inr:
  "check_artifacts ids destinations sofar as = Inr n \<longleftrightarrow>
     (\<forall>a\<in>set as. pack_token (at_id a) 1 128 \<and> check_source a = Inr () \<and> check_placement a = Inr ())
     \<and> distinct (map (to_ascii_lowercase \<circ> at_id) as) \<and> (to_ascii_lowercase \<circ> at_id) ` set as \<inter> set ids = {}
     \<and> distinct (map destination_key as) \<and> destination_key ` set as \<inter> set destinations = {}
     \<and> n = sofar + sum_list (map at_size_bytes as) \<and> (as \<noteq> [] \<longrightarrow> n \<le> u64_max)"
proof (induction as arbitrary: ids destinations sofar)
  case (Cons a as)
  show ?case
    using Cons.IH [of "to_ascii_lowercase (at_id a) # ids" "destination_key a # destinations" "sofar + at_size_bytes a"]
    by (auto simp: bind_result_Inr_iff require_token_def not_less)
qed auto

lemma check_urls_Inr: "check_urls us = Inr () \<longleftrightarrow> (\<forall>u\<in>set us. validate_https_url u = Inr ())"
  by (induction us) (auto simp: bind_result_Inr_iff)

lemma check_required_paths_Inr:
  "check_required_paths i required ps = Inr () \<longleftrightarrow>
     (\<forall>p\<in>set ps. validate_relative_archive_path p = Inr (forward_slashes p))
     \<and> distinct (map (to_ascii_lowercase \<circ> forward_slashes) ps)
     \<and> (to_ascii_lowercase \<circ> forward_slashes) ` set ps \<inter> set required = {}"
proof (induction ps arbitrary: required)
  case (Cons p ps)
  have "safe_path i p = Inr q \<longleftrightarrow> validate_relative_archive_path p = Inr (forward_slashes p) \<and> q = forward_slashes p" for q
    by (auto simp: safe_path_def validate_path_Inr)
  then show ?case using Cons.IH by (auto simp: bind_result_Inr_iff)
qed simp

text \<open>A secure location: the scheme is https and a host follows without user information or blanks.\<close>

definition secure_url :: "rstr \<Rightarrow> bool" where
  "secure_url u \<longleftrightarrow> (\<exists>host. u = lit ''https://'' @ host \<and> host \<noteq> [] \<and> hd host \<noteq> 47 \<and> 64 \<notin> set host \<and> \<not> list_ex is_whitespace host)"

lemma validate_https_url_Inr: "validate_https_url u = Inr () \<longleftrightarrow> secure_url u"
proof
  assume "validate_https_url u = Inr ()"
  then have "take 8 u = lit ''https://''" "drop 8 u \<noteq> [] \<and> hd (drop 8 u) \<noteq> 47 \<and> 64 \<notin> set (drop 8 u) \<and> \<not> list_ex is_whitespace (drop 8 u)"
    by (auto simp: validate_https_url_def Let_def split: if_splits)
  then show "secure_url u" unfolding secure_url_def by (metis append_take_drop_id)
next
  have "length (lit ''https://'') = 8" by (simp add: lit_def)
  moreover assume "secure_url u"
  ultimately show "validate_https_url u = Inr ()" by (auto simp: secure_url_def validate_https_url_def)
qed

text \<open>
  C35. An accepted manifest declares between 1 and 256 artifacts with identifiers and destinations that are distinct on a file
  system without letter case; every artifact comes from secure locations, is not empty and is placed below the pack, as are the files
  it must contain; the exact sum of the sizes is covered by the declared storage, which is covered by the declared peak.
\<close>

theorem accepted_manifest_is_safe:
  assumes "validate_manifest m = Inr ()"
  shows "1 \<le> length (mf_artifacts m) \<and> length (mf_artifacts m) \<le> 256
    \<and> distinct (map (to_ascii_lowercase \<circ> at_id) (mf_artifacts m)) \<and> distinct (map destination_key (mf_artifacts m))
    \<and> (\<forall>a\<in>set (mf_artifacts m). 0 < at_size_bytes a \<and> (\<forall>u\<in>set (at_source_urls a). secure_url u)
         \<and> (at_kind a = ArtArchive \<longleftrightarrow> at_archive_format a \<noteq> None)
         \<and> validate_relative_archive_path (at_destination a) = Inr (forward_slashes (at_destination a))
         \<and> (\<forall>p\<in>set (at_required_paths a). validate_relative_archive_path p = Inr (forward_slashes p)))
    \<and> sum_list (map at_size_bytes (mf_artifacts m)) \<le> re_storage_bytes (mf_resources m)
    \<and> re_storage_bytes (mf_resources m) \<le> min MAX_PACK_BYTES (re_peak_install_bytes (mf_resources m))
    \<and> secure_url (li_license_url (mf_license m))"
proof -
  obtain bytes where header: "check_header m = Inr ()" and arts: "check_artifacts [] [] 0 (mf_artifacts m) = Inr bytes"
    and sizes: "check_sizes m bytes = Inr ()" and terms: "check_terms m = Inr ()"
    using assms by (auto simp: validate_manifest_def bind_result_Inr_iff)
  note arts = arts [unfolded check_artifacts_Inr]
  have "0 < at_size_bytes a \<and> (\<forall>u\<in>set (at_source_urls a). secure_url u) \<and> (at_kind a = ArtArchive \<longleftrightarrow> at_archive_format a \<noteq> None)
      \<and> validate_relative_archive_path (at_destination a) = Inr (forward_slashes (at_destination a))
      \<and> (\<forall>p\<in>set (at_required_paths a). validate_relative_archive_path p = Inr (forward_slashes p))"
    if "a \<in> set (mf_artifacts m)" for a
  proof -
    have src: "check_source a = Inr ()" and place: "check_placement a = Inr ()" using arts that by auto
    have "0 < at_size_bytes a \<and> (\<forall>u\<in>set (at_source_urls a). secure_url u) \<and> (at_kind a = ArtArchive \<longleftrightarrow> at_archive_format a \<noteq> None)"
      using src by (cases "at_kind a")
        (auto simp: check_source_def bind_result_Inr_iff check_urls_Inr validate_https_url_Inr split: if_splits)
    moreover have "validate_relative_archive_path (at_destination a) = Inr (forward_slashes (at_destination a))"
      using place by (auto simp: check_placement_def bind_result_Inr_iff safe_path_def validate_path_Inr)
    moreover have "\<forall>p\<in>set (at_required_paths a). validate_relative_archive_path p = Inr (forward_slashes p)"
      using place by (auto simp: check_placement_def bind_result_Inr_iff check_required_paths_Inr split: if_splits)
    ultimately show ?thesis by blast
  qed
  moreover have "1 \<le> length (mf_artifacts m) \<and> length (mf_artifacts m) \<le> 256"
    using header by (auto simp: check_header_def bind_result_Inr_iff MAX_ARTIFACTS_def Suc_le_eq split: if_splits)
  moreover have "bytes \<le> re_storage_bytes (mf_resources m)
      \<and> re_storage_bytes (mf_resources m) \<le> min MAX_PACK_BYTES (re_peak_install_bytes (mf_resources m))"
    using sizes by (auto simp: check_sizes_def Let_def split: if_splits)
  moreover have "secure_url (li_license_url (mf_license m))"
    using terms by (simp add: check_terms_def Let_def bind_result_Inr_iff validate_https_url_Inr)
  ultimately show ?thesis using arts by simp
qed

section \<open>A concrete manifest\<close>

definition sample_artifact :: artifact where
  "sample_artifact = \<lparr>at_id = lit ''weights'', at_kind = ArtFile, at_archive_format = None, at_source_urls = [lit ''https://host/w''],
     at_size_bytes = 5, at_sha256 = lit ''00'', at_destination = lit ''w'', at_strip_prefix = None, at_required_paths = []\<rparr>"

definition sample_manifest :: model_pack_manifest where
  "sample_manifest = \<lparr>mf_schema = MODEL_PACK_MANIFEST_SCHEMA_V1, mf_pack_id = lit ''pack'', mf_revision = lit ''1'',
     mf_display_name = lit ''Pack'', mf_description = lit ''A pack'', mf_source_project = lit ''project'', mf_source_revision = lit ''abc'',
     mf_capability = \<lparr>ca_kind = PkLanguageModel, ca_scope = ScopeGeneric\<rparr>, mf_artifacts = [sample_artifact],
     mf_runtime = \<lparr>rc_runtime = lit ''onnx'', rc_abi = lit ''1'', rc_minimum_runtime_revision = None,
       rc_supported_platforms = [Windows11], rc_supported_architectures = [X86_64]\<rparr>,
     mf_hardware = \<lparr>hw_minimum_ram_bytes = 1, hw_recommended_ram_bytes = 2, hw_minimum_vram_bytes = None,
       hw_recommended_vram_bytes = None, hw_minimum_cpu_threads = 1, hw_accelerators = [AccCpu], hw_required_cpu_features = []\<rparr>,
     mf_resources = \<lparr>re_storage_bytes = 5, re_peak_install_bytes = 10, re_measured_ram_bytes = None, re_measured_vram_bytes = None,
       re_measured_load_millis = None, re_benchmark_hardware = None, re_quality_tier = TierFast, re_languages = [lit ''en'']\<rparr>,
     mf_license = \<lparr>li_spdx_expression = None, li_license_name = lit ''MIT'', li_license_url = lit ''https://host/l'',
       li_attribution = lit ''someone'', li_redistributable = True, li_commercial_use = LpAllowed, li_derivative_use = LpAllowed,
       li_acceptance_required = False, li_notices = []\<rparr>,
     mf_self_test = \<lparr>st_kind = lit ''smoke'', st_suite_revision = lit ''1'', st_allowed_runtime_backends = [lit ''cpu''],
       st_input_fixture = lit ''f'', st_expected_output_sha256 = None, st_timeout_millis = 1000\<rparr>\<rparr>"

lemmas text_simps = require_text_def trim_def trim_start_def trim_end_def lit_def is_whitespace_def len_utf8_def

lemmas token_simps = pack_token_def is_ascii_alphanumeric_def is_ascii_digit_def lit_def len_utf8_def validate_https_url_def is_whitespace_def

lemma sample_manifest_valid: "validate_manifest sample_manifest = Inr ()"
proof -
  have ids: "parse_pack_id (lit ''pack'') = Inr (lit ''pack'')" "parse_revision (lit ''1'') = Inr (lit ''1'')"
    "to_ascii_lowercase (lit ''abc'') = lit ''abc''"
    by (simp_all add: parse_pack_id_def parse_revision_def str_contains_def is_ascii_lowercase_def to_ascii_lowercase_def token_simps
        numeral_eq_Suc)
  have "require_text f (lit ''Pack'') 1 160 = Inr ()" "require_text f (lit ''A pack'') 1 4096 = Inr ()"
    "require_text f (lit ''project'') 1 512 = Inr ()" "require_text f (lit ''abc'') 1 256 = Inr ()" for f
    by (simp_all add: text_simps)
  then have header: "check_header sample_manifest = Inr ()"
    using ids by (simp add: check_header_def sample_manifest_def MAX_ARTIFACTS_def)
  have "check_source sample_artifact = Inr ()" "pack_token (lit ''weights'') 1 128"
    by (simp_all add: sample_artifact_def check_source_def token_simps)
  moreover have path: "validate_relative_archive_path (lit ''w'') = Inr (lit ''w'')" "validate_relative_archive_path (lit ''f'') = Inr (lit ''f'')"
    by (simp_all add: path_simps)
  moreover have "check_placement sample_artifact = Inr ()"
    using path(1) by (simp add: check_placement_def sample_artifact_def safe_path_def map_err_def)
  ultimately have arts: "check_artifacts [] [] 0 (mf_artifacts sample_manifest) = Inr 5"
    by (simp add: sample_manifest_def check_artifacts_Inr u64_max_def) (simp add: sample_artifact_def require_token_def)
  have sizes: "check_sizes sample_manifest 5 = Inr ()"
    by (simp add: check_sizes_def sample_manifest_def MAX_PACK_BYTES_def)
  have "require_text f (lit ''onnx'') 1 128 = Inr ()" "require_text f (lit ''1'') 1 128 = Inr ()"
    "require_text f (lit ''MIT'') 1 256 = Inr ()" "require_text f (lit ''someone'') 1 8192 = Inr ()" for f
    by (simp_all add: text_simps)
  moreover have "validate_https_url (lit ''https://host/l'') = Inr ()" "pack_token (lit ''smoke'') 1 64" "pack_token (lit ''1'') 1 128"
    "pack_token (lit ''cpu'') 1 128"
    by (simp_all add: token_simps)
  ultimately have terms: "check_terms sample_manifest = Inr ()"
    using path(2) by (simp add: check_terms_def sample_manifest_def require_token_def map_err_def)
  show ?thesis using header arts sizes terms by (simp add: validate_manifest_def)
qed

theorem accepted_manifest_is_safe_witness:
  "mf_artifacts sample_manifest = [sample_artifact] \<and> secure_url (hd (at_source_urls sample_artifact))"
  using accepted_manifest_is_safe [OF sample_manifest_valid] by (simp add: sample_manifest_def sample_artifact_def)

end
