(* ===== verification/Signed_Catalogs.thy ===== *)
theory Signed_Catalogs
  imports Pack_Manifests Watermarks
begin

text \<open>
  The signed catalog of model packs, \<open>crates/model-manager/src/catalog.rs\<close>: freshness, a quorum of trusted keys, protection against
  rollback and equivocation, and revisions that never change once published. The verifier of signatures and the libraries for JSON
  and SHA-256 are parameters.
\<close>

section \<open>Signatures\<close>

record catalog_signature =
  cg_key_id :: rstr
  cg_algorithm :: rstr
  cg_signature :: rstr

record signature_verifier =
  sv_is_trusted_key :: "rstr \<Rightarrow> bool"
  sv_verify :: "rstr \<Rightarrow> rstr \<Rightarrow> octets \<Rightarrow> rstr \<Rightarrow> bool"

fun accepted_keys :: "signature_verifier \<Rightarrow> octets \<Rightarrow> rstr list \<Rightarrow> catalog_signature list \<Rightarrow> rstr list" where
  "accepted_keys v message keys [] = keys"
| "accepted_keys v message keys (s # ss) =
     accepted_keys v message
       (if cg_key_id s \<notin> set keys \<and> sv_is_trusted_key v (cg_key_id s)
           \<and> sv_verify v (cg_key_id s) (cg_algorithm s) message (cg_signature s)
        then cg_key_id s # keys else keys) ss"

text \<open>The trusted keys of which one of the signatures is valid.\<close>

definition signers :: "signature_verifier \<Rightarrow> octets \<Rightarrow> catalog_signature list \<Rightarrow> rstr set" where
  "signers v message ss =
     {k. sv_is_trusted_key v k \<and> (\<exists>s\<in>set ss. cg_key_id s = k \<and> sv_verify v k (cg_algorithm s) message (cg_signature s))}"

lemma accepted_keys_set:
  "set (accepted_keys v message keys ss) = set keys \<union> signers v message ss"
  by (induction v message keys ss rule: accepted_keys.induct) (auto simp: signers_def)

lemma accepted_keys_distinct: "distinct keys \<Longrightarrow> distinct (accepted_keys v message keys ss)"
  by (induction v message keys ss rule: accepted_keys.induct) auto

lemma accepted_keys_quorum: "length (accepted_keys v message [] ss) = card (signers v message ss)"
  using accepted_keys_set [of v message "[]" ss] accepted_keys_distinct [of "[]" v message ss] by (metis distinct.simps(1) distinct_card empty_set sup_bot_left)

section \<open>Catalogs\<close>

record catalog_entry =
  ce_manifest :: model_pack_manifest
  ce_manifest_sha256 :: rstr
  ce_channels :: "rstr list"
  ce_published_unix_seconds :: nat
  ce_revoked :: bool
  ce_revocation_reason :: "rstr option"

record catalog_payload =
  cp_schema :: rstr
  cp_version :: nat
  cp_generated_unix_seconds :: nat
  cp_expires_unix_seconds :: nat
  cp_entries :: "catalog_entry list"

record signed_catalog =
  sc_signed :: catalog_payload
  sc_signatures :: "catalog_signature list"

record catalog_trust_policy =
  tp_signature_threshold :: nat
  tp_maximum_lifetime_seconds :: nat
  tp_maximum_clock_skew_seconds :: nat

definition default_catalog_trust_policy :: catalog_trust_policy where
  "default_catalog_trust_policy = \<lparr>tp_signature_threshold = 2, tp_maximum_lifetime_seconds = 31 * 24 * 60 * 60,
     tp_maximum_clock_skew_seconds = 10 * 60\<rparr>"

record catalog_trust_state =
  ts_highest_version :: nat
  ts_accepted_payload_sha256 :: "rstr option"
  ts_immutable_revisions :: "(pack_revision, rstr) btree"

record trusted_catalog =
  tc_payload :: catalog_payload
  tc_entries :: "(pack_revision, catalog_entry) btree"
  tc_payload_digest :: rstr

datatype catalog_error =
    UnsupportedCatalogSchema rstr | ZeroThreshold | CatalogRollback nat nat | GeneratedInFuture | CatalogExpired
  | CatalogInvalidLifetime | VersionEquivocation nat | SignatureThreshold nat nat | EntriesNotStrictlySorted
  | CatalogManifest manifest_error | ManifestDigestMismatch pack_revision | ImmutableRevisionChanged pack_revision
  | RevocationWithoutReason pack_revision | UnknownRevision | Revoked rstr | CatalogSerialization

record catalog_api =
  xa_manifest_json :: "model_pack_manifest \<Rightarrow> octets option"
  xa_catalog_json :: "catalog_payload \<Rightarrow> octets option"
  xa_sha256_hex :: "octets \<Rightarrow> rstr"

definition SIGNED_CATALOG_SCHEMA_V1 :: rstr where
  "SIGNED_CATALOG_SCHEMA_V1 = lit ''npc.model-catalog/v1''"

definition catalog_entry_of :: "trusted_catalog \<Rightarrow> pack_revision \<Rightarrow> catalog_entry option" where
  "catalog_entry_of tc identity = bt_get (tc_entries tc) identity"

definition installable_entry :: "trusted_catalog \<Rightarrow> pack_revision \<Rightarrow> (catalog_error, catalog_entry) result" where
  "installable_entry tc identity =
     (case bt_get (tc_entries tc) identity of
        None \<Rightarrow> Inl UnknownRevision
      | Some e \<Rightarrow>
          if ce_revoked e
          then Inl (Revoked (case ce_revocation_reason e of None \<Rightarrow> lit ''no reason supplied'' | Some r \<Rightarrow> r))
          else Inr e)"

section \<open>Verification\<close>

definition check_freshness :: "catalog_payload \<Rightarrow> catalog_trust_policy \<Rightarrow> catalog_trust_state \<Rightarrow> nat \<Rightarrow> (catalog_error, unit) result" where
  "check_freshness p policy prior now =
     (if cp_schema p \<noteq> SIGNED_CATALOG_SCHEMA_V1 then Inl (UnsupportedCatalogSchema (cp_schema p))
      else if tp_signature_threshold policy = 0 then Inl ZeroThreshold
      else if cp_version p < ts_highest_version prior then Inl (CatalogRollback (ts_highest_version prior) (cp_version p))
      else if cp_generated_unix_seconds p > sat_add now (tp_maximum_clock_skew_seconds policy) then Inl GeneratedInFuture
      else if cp_expires_unix_seconds p \<le> now then Inl CatalogExpired
      else if cp_expires_unix_seconds p < cp_generated_unix_seconds p then Inl CatalogInvalidLifetime
      else if cp_expires_unix_seconds p - cp_generated_unix_seconds p > tp_maximum_lifetime_seconds policy
        then Inl CatalogInvalidLifetime
      else Inr ())"

fun check_entries ::
  "catalog_api \<Rightarrow> pack_revision option \<Rightarrow> (pack_revision, rstr) btree \<Rightarrow> (pack_revision, catalog_entry) btree
     \<Rightarrow> catalog_entry list
     \<Rightarrow> (catalog_error, (pack_revision, catalog_entry) btree \<times> (pack_revision, rstr) btree) result" where
  "check_entries api previous immutable entries [] = Inr (entries, immutable)"
| "check_entries api previous immutable entries (e # es) =
     bind_result (map_err CatalogManifest (validate_manifest (ce_manifest e))) (\<lambda>_.
       (let identity = manifest_identity (ce_manifest e) in
        if (case previous of None \<Rightarrow> False | Some p \<Rightarrow> p \<ge> identity) then Inl EntriesNotStrictlySorted
        else
          bind_result (map_err CatalogManifest (manifest_digest (xa_manifest_json api) (xa_sha256_hex api) (ce_manifest e))) (\<lambda>actual.
            if actual \<noteq> ce_manifest_sha256 e then Inl (ManifestDigestMismatch identity)
            else if (case bt_get immutable identity of None \<Rightarrow> False | Some trusted \<Rightarrow> trusted \<noteq> actual)
              then Inl (ImmutableRevisionChanged identity)
            else
              (let immutable' = (case bt_get immutable identity of None \<Rightarrow> bt_insert identity actual immutable | Some _ \<Rightarrow> immutable) in
               if ce_revoked e \<and> is_blank (case ce_revocation_reason e of None \<Rightarrow> [] | Some r \<Rightarrow> r)
               then Inl (RevocationWithoutReason identity)
               else check_entries api (Some identity) immutable' (bt_insert identity e entries) es))))"

definition verify_catalog ::
  "catalog_api \<Rightarrow> signed_catalog \<Rightarrow> signature_verifier \<Rightarrow> catalog_trust_policy \<Rightarrow> catalog_trust_state \<Rightarrow> nat
     \<Rightarrow> (catalog_error, trusted_catalog \<times> catalog_trust_state) result" where
  "verify_catalog api catalog verifier policy prior now =
     (let p = sc_signed catalog in
      bind_result (check_freshness p policy prior now) (\<lambda>_.
        case xa_catalog_json api p of
          None \<Rightarrow> Inl CatalogSerialization
        | Some message \<Rightarrow>
            (let digest = xa_sha256_hex api message; keys = accepted_keys verifier message [] (sc_signatures catalog) in
             if cp_version p = ts_highest_version prior \<and> ts_highest_version prior \<noteq> 0
                \<and> ts_accepted_payload_sha256 prior \<noteq> Some digest
             then Inl (VersionEquivocation (cp_version p))
             else if length keys < tp_signature_threshold policy
             then Inl (SignatureThreshold (tp_signature_threshold policy) (length keys))
             else
               bind_result (check_entries api None (ts_immutable_revisions prior) [] (cp_entries p)) (\<lambda>(entries, immutable).
                 Inr (\<lparr>tc_payload = p, tc_entries = entries, tc_payload_digest = digest\<rparr>,
                      \<lparr>ts_highest_version = cp_version p, ts_accepted_payload_sha256 = Some digest,
                       ts_immutable_revisions = immutable\<rparr>)))))"

section \<open>One verification\<close>

definition published :: "catalog_api \<Rightarrow> catalog_entry \<Rightarrow> bool" where
  "published api e \<longleftrightarrow> validate_manifest (ce_manifest e) = Inr ()
     \<and> manifest_digest (xa_manifest_json api) (xa_sha256_hex api) (ce_manifest e) = Inr (ce_manifest_sha256 e)
     \<and> (ce_revoked e \<longrightarrow> (case ce_revocation_reason e of None \<Rightarrow> False | Some r \<Rightarrow> \<not> is_blank r))"

abbreviation entry_identity :: "catalog_entry \<Rightarrow> pack_revision" where
  "entry_identity e \<equiv> manifest_identity (ce_manifest e)"

lemma check_entries_Cons:
  assumes "check_entries api previous immutable entries (e # es) = Inr r"
  shows "published api e" "previous = Some p \<Longrightarrow> p < entry_identity e"
    "bt_get immutable (entry_identity e) = None \<or> bt_get immutable (entry_identity e) = Some (ce_manifest_sha256 e)"
    "check_entries api (Some (entry_identity e))
       (case bt_get immutable (entry_identity e) of None \<Rightarrow> bt_insert (entry_identity e) (ce_manifest_sha256 e) immutable | Some _ \<Rightarrow> immutable)
       (bt_insert (entry_identity e) e entries) es = Inr r"
  using assms
  by (auto simp: published_def Let_def bind_result_Inr_iff is_blank_iff not_le split: if_splits option.splits)

text \<open>The entries are stored under their identities, and the digests only grow.\<close>

lemma check_entries_facts:
  "check_entries api previous immutable entries es = Inr (entries', immutable') \<Longrightarrow>
     (\<forall>e\<in>set es. published api e \<and> bt_get immutable' (entry_identity e) = Some (ce_manifest_sha256 e))
     \<and> bt_get immutable \<subseteq>\<^sub>m bt_get immutable'
     \<and> (\<forall>i e. bt_get entries' i = Some e \<longrightarrow> bt_get entries i = Some e \<or> e \<in> set es \<and> i = entry_identity e)
     \<and> (\<forall>p. previous = Some p \<longrightarrow> (\<forall>e\<in>set es. p < entry_identity e))
     \<and> sorted_wrt (<) (map entry_identity es)"
proof (induction es arbitrary: previous immutable entries)
  case (Cons e es)
  note step = check_entries_Cons [OF Cons.prems]
  note IH = Cons.IH [OF step(4)]
  let ?m = "case bt_get immutable (entry_identity e) of None \<Rightarrow> bt_insert (entry_identity e) (ce_manifest_sha256 e) immutable | Some _ \<Rightarrow> immutable"
  have here: "bt_get ?m (entry_identity e) = Some (ce_manifest_sha256 e)" "bt_get immutable \<subseteq>\<^sub>m bt_get ?m"
    using step(3) by (auto simp: map_le_def split: option.splits)
  have "bt_get immutable' (entry_identity e) = Some (ce_manifest_sha256 e)"
    using IH here(1) unfolding map_le_def by (metis domI)
  moreover have "bt_get immutable \<subseteq>\<^sub>m bt_get immutable'" using IH here(2) map_le_trans by blast
  moreover have later: "\<forall>x\<in>set es. entry_identity e < entry_identity x" using IH by blast
  moreover have "\<forall>p. previous = Some p \<longrightarrow> (\<forall>x\<in>set (e # es). p < entry_identity x)"
    using step(2) later by (auto intro: less_trans)
  moreover have "\<forall>i x. bt_get entries' i = Some x \<longrightarrow> bt_get entries i = Some x \<or> x \<in> set (e # es) \<and> i = entry_identity x"
    using IH by (auto split: if_splits)
  ultimately show ?case using IH step(1) by simp
qed auto

lemmas check_entries_Inr = check_entries_facts [THEN conjunct1] check_entries_facts [THEN conjunct2, THEN conjunct1]
  check_entries_facts [THEN conjunct2, THEN conjunct2, THEN conjunct1]

lemma verify_catalogD:
  assumes "verify_catalog api c v policy prior now = Inr (tc, st)"
  obtains message where "xa_catalog_json api (sc_signed c) = Some message"
    and "check_freshness (sc_signed c) policy prior now = Inr ()"
    and "tp_signature_threshold policy \<le> card (signers v message (sc_signatures c))"
    and "cp_version (sc_signed c) = ts_highest_version prior \<Longrightarrow> ts_highest_version prior \<noteq> 0
      \<Longrightarrow> ts_accepted_payload_sha256 prior = Some (xa_sha256_hex api message)"
    and "ts_highest_version st = cp_version (sc_signed c)" "ts_accepted_payload_sha256 st = Some (xa_sha256_hex api message)"
    and "check_entries api None (ts_immutable_revisions prior) [] (cp_entries (sc_signed c)) = Inr (tc_entries tc, ts_immutable_revisions st)"
    and "tc_payload tc = sc_signed c" "tc_payload_digest tc = xa_sha256_hex api message"
  using assms
  by (auto simp: verify_catalog_def Let_def bind_result_Inr_iff accepted_keys_quorum not_less split: option.splits if_splits prod.splits)

section \<open>A history of catalogs\<close>

definition catalog_step ::
  "catalog_api \<Rightarrow> signature_verifier \<Rightarrow> catalog_trust_policy \<Rightarrow> catalog_trust_state \<Rightarrow> signed_catalog \<times> nat
     \<Rightarrow> bool \<times> catalog_trust_state" where
  "catalog_step api v policy st m =
     (case verify_catalog api (fst m) v policy st (snd m) of Inl _ \<Rightarrow> (False, st) | Inr (_, st') \<Rightarrow> (True, st'))"

definition catalog_mark :: "catalog_trust_state \<Rightarrow> nat \<times> rstr option" where
  "catalog_mark st = (ts_highest_version st, ts_accepted_payload_sha256 st)"

definition catalog_key :: "catalog_api \<Rightarrow> signed_catalog \<times> nat \<Rightarrow> nat \<times> rstr option" where
  "catalog_key api m = (cp_version (sc_signed (fst m)), map_option (xa_sha256_hex api) (xa_catalog_json api (sc_signed (fst m))))"

definition no_rollback :: "nat \<times> rstr option \<Rightarrow> nat \<times> rstr option \<Rightarrow> bool" where
  "no_rollback a b \<longleftrightarrow> fst a \<le> fst b \<and> (fst a = fst b \<and> fst a \<noteq> 0 \<longrightarrow> snd a = snd b)"

lemma no_rollback_order: "reflp no_rollback" "transp no_rollback"
  by (auto simp: no_rollback_def reflp_def transp_def)

lemma catalog_step_True:
  assumes "catalog_step api v policy st m = (True, st')"
  obtains tc where "verify_catalog api (fst m) v policy st (snd m) = Inr (tc, st')"
  using assms by (auto simp: catalog_step_def split: sum.splits)

lemma catalog_step_False: "catalog_step api v policy st m = (False, st') \<Longrightarrow> st' = st"
  by (auto simp: catalog_step_def split: sum.splits)

interpretation version_mark: watermark "catalog_step api v policy" "\<lambda>_. True" catalog_mark "catalog_key api" no_rollback
  for api v policy
proof unfold_locales
  fix st m st' assume "catalog_step api v policy st m = (True, st')"
  then obtain tc where ok: "verify_catalog api (fst m) v policy st (snd m) = Inr (tc, st')" by (rule catalog_step_True)
  then obtain message where "xa_catalog_json api (sc_signed (fst m)) = Some message"
    "check_freshness (sc_signed (fst m)) policy st (snd m) = Inr ()" "ts_highest_version st' = cp_version (sc_signed (fst m))"
    "ts_accepted_payload_sha256 st' = Some (xa_sha256_hex api message)"
    "cp_version (sc_signed (fst m)) = ts_highest_version st \<Longrightarrow> ts_highest_version st \<noteq> 0
      \<Longrightarrow> ts_accepted_payload_sha256 st = Some (xa_sha256_hex api message)"
    by (rule verify_catalogD) blast
  then show "no_rollback (catalog_mark st) (catalog_key api m) \<and> catalog_mark st' = catalog_key api m"
    by (auto simp: no_rollback_def catalog_mark_def catalog_key_def check_freshness_def not_less split: if_splits)
qed (auto dest: catalog_step_False)

lemma catalog_step_immutable: "bt_get (ts_immutable_revisions st) \<subseteq>\<^sub>m bt_get (ts_immutable_revisions (snd (catalog_step api v policy st m)))"
  using check_entries_Inr(2) by (fastforce simp: catalog_step_def split: sum.splits elim: verify_catalogD)

lemma immutable_after:
  "bt_get (ts_immutable_revisions st) \<subseteq>\<^sub>m bt_get (ts_immutable_revisions (state_after (catalog_step api v policy) st ms))"
  using catalog_step_immutable
  by (intro state_after_related [where R = "\<lambda>a b. bt_get (ts_immutable_revisions a) \<subseteq>\<^sub>m bt_get (ts_immutable_revisions b)"])
    (auto simp: reflp_def transp_def intro: map_le_trans)

lemma accepted_recorded:
  "m \<in> set (accepted_by (catalog_step api v policy) st ms) \<Longrightarrow> e \<in> set (cp_entries (sc_signed (fst m)))
     \<Longrightarrow> published api e
       \<and> bt_get (ts_immutable_revisions (state_after (catalog_step api v policy) st ms)) (entry_identity e) = Some (ce_manifest_sha256 e)"
proof (induction ms arbitrary: st)
  case (Cons x ms)
  obtain ok st' where step: "catalog_step api v policy st x = (ok, st')" by fastforce
  show ?case
  proof (cases "ok \<and> m = x")
    case True
    then obtain tc where "verify_catalog api (fst m) v policy st (snd m) = Inr (tc, st')" using step by (auto elim: catalog_step_True)
    then have "published api e \<and> bt_get (ts_immutable_revisions st') (entry_identity e) = Some (ce_manifest_sha256 e)"
      using check_entries_Inr(1) Cons.prems(2) by (metis verify_catalogD)
    moreover have "bt_get (ts_immutable_revisions st') \<subseteq>\<^sub>m bt_get (ts_immutable_revisions (state_after (catalog_step api v policy) st' ms))"
      by (rule immutable_after)
    ultimately show ?thesis using step unfolding map_le_def by (metis domI snd_conv state_after.simps(2))
  next
    case False
    then have "m \<in> set (accepted_by (catalog_step api v policy) st' ms)" using Cons.prems(1) step by (auto split: if_splits)
    then show ?thesis using Cons.IH [OF _ Cons.prems(2)] step by simp
  qed
qed simp

abbreviation catalog_version :: "signed_catalog \<times> nat \<Rightarrow> nat" where
  "catalog_version m \<equiv> cp_version (sc_signed (fst m))"

abbreviation payload_digest :: "catalog_api \<Rightarrow> signed_catalog \<times> nat \<Rightarrow> rstr option" where
  "payload_digest api m \<equiv> map_option (xa_sha256_hex api) (xa_catalog_json api (sc_signed (fst m)))"

lemma accepted_serialized:
  "m \<in> set (accepted_by (catalog_step api v policy) st ms) \<Longrightarrow> payload_digest api m \<noteq> None"
proof -
  have "payload_digest api x \<noteq> None" if "catalog_step api v policy s x = (True, s')" for x s s'
    using that by (elim catalog_step_True verify_catalogD) simp
  then show "m \<in> set (accepted_by (catalog_step api v policy) st ms) \<Longrightarrow> payload_digest api m \<noteq> None"
    using accepted_by_all [where I = "\<lambda>_. True" and f = "catalog_step api v policy" and P = "\<lambda>m. payload_digest api m \<noteq> None"]
    by (metis (full_types))
qed

lemma accepted_pairwise:
  assumes "i < j" and "j < length (accepted_by (catalog_step api v policy) st ms)"
  shows "no_rollback (catalog_key api (accepted_by (catalog_step api v policy) st ms ! i))
    (catalog_key api (accepted_by (catalog_step api v policy) st ms ! j))"
  using version_mark.accepted_sorted [OF no_rollback_order(2) TrueI, of st api v policy ms] assms
  by (simp add: sorted_wrt_map) (rule sorted_wrt_nth_less, simp_all)

text \<open>
  C22. Whatever catalogs are offered, with whatever signatures and at whatever times: no accepted catalog has a lower version than the
  trust state or a catalog accepted before it, and if the versions are equal and not zero, the digests of the payloads are equal; the
  trust state at the end holds version and digest of the last accepted one. A digest recorded for a revision is never
  replaced; every entry of an accepted catalog has a valid manifest of the digest it declares, which is the one recorded at the end, so that
  two accepted catalogs never give one revision different digests. (Catalogs of version zero are not compared with
  each other: \<open>version_zero_is_not_pinned\<close>.)
\<close>

theorem catalog_history_is_append_only:
  "(let acc = accepted_by (catalog_step api v policy) st ms; st' = state_after (catalog_step api v policy) st ms in
     (\<forall>m\<in>set acc. ts_highest_version st \<le> catalog_version m
        \<and> (ts_highest_version st = catalog_version m \<and> catalog_version m \<noteq> 0 \<longrightarrow> payload_digest api m = ts_accepted_payload_sha256 st))
     \<and> (\<forall>i j. i < j \<and> j < length acc \<longrightarrow> catalog_version (acc ! i) \<le> catalog_version (acc ! j)
          \<and> (catalog_version (acc ! i) = catalog_version (acc ! j) \<and> catalog_version (acc ! i) \<noteq> 0
               \<longrightarrow> payload_digest api (acc ! i) = payload_digest api (acc ! j) \<and> payload_digest api (acc ! i) \<noteq> None))
     \<and> (acc \<noteq> [] \<longrightarrow> ts_highest_version st' = catalog_version (last acc)
          \<and> ts_accepted_payload_sha256 st' = payload_digest api (last acc))
     \<and> (acc = [] \<longrightarrow> ts_highest_version st' = ts_highest_version st \<and> ts_accepted_payload_sha256 st' = ts_accepted_payload_sha256 st)
     \<and> bt_get (ts_immutable_revisions st) \<subseteq>\<^sub>m bt_get (ts_immutable_revisions st')
     \<and> (\<forall>m\<in>set acc. \<forall>e\<in>set (cp_entries (sc_signed (fst m))).
          published api e \<and> bt_get (ts_immutable_revisions st') (entry_identity e) = Some (ce_manifest_sha256 e)))"
proof -
  define acc where "acc = accepted_by (catalog_step api v policy) st ms"
  define st' where "st' = state_after (catalog_step api v policy) st ms"
  have first: "no_rollback (catalog_mark st) (catalog_key api m)" if "m \<in> set acc" for m
    using version_mark.accepted_sorted [OF no_rollback_order(2) TrueI, of st api v policy ms] that by (simp add: acc_def)
  have pair: "no_rollback (catalog_key api (acc ! i)) (catalog_key api (acc ! j)) \<and> payload_digest api (acc ! i) \<noteq> None"
    if "i < j" "j < length acc" for i j
    using accepted_pairwise that accepted_serialized [of "acc ! i" api v policy st ms] unfolding acc_def by simp
  have "catalog_mark st' = last (catalog_mark st # map (catalog_key api) acc)"
    unfolding acc_def st'_def by (rule version_mark.mark_is_last_accepted) simp
  then have last: "acc \<noteq> [] \<longrightarrow> catalog_mark st' = catalog_key api (last acc)" "acc = [] \<longrightarrow> catalog_mark st' = catalog_mark st"
    by (simp_all add: last_map)
  show ?thesis
    unfolding Let_def acc_def [symmetric] st'_def [symmetric]
    using first pair last immutable_after [of st api v policy ms, folded st'_def]
      accepted_recorded [of _ api v policy st ms, folded acc_def st'_def]
    by (auto simp: no_rollback_def catalog_mark_def catalog_key_def)
qed

text \<open>
  C24. An entry that may be installed from an accepted catalog is one of the signed entries, for the revision asked for and not
  revoked, with a valid manifest of the recorded digest, not at odds with a digest trusted before; the catalog is not expired, its
  lifetime is within the policy, and at least the required number of distinct trusted keys signed its bytes.
\<close>

theorem installable_entry_is_authentic:
  assumes "verify_catalog api c v policy prior now = Inr (tc, st)" and "installable_entry tc i = Inr e"
  shows "e \<in> set (cp_entries (sc_signed c)) \<and> entry_identity e = i \<and> \<not> ce_revoked e \<and> published api e
    \<and> bt_get (ts_immutable_revisions prior) i \<in> {None, Some (ce_manifest_sha256 e)}
    \<and> now < cp_expires_unix_seconds (sc_signed c)
    \<and> cp_expires_unix_seconds (sc_signed c) \<le> cp_generated_unix_seconds (sc_signed c) + tp_maximum_lifetime_seconds policy
    \<and> (\<exists>message. xa_catalog_json api (sc_signed c) = Some message
         \<and> 0 < tp_signature_threshold policy \<and> tp_signature_threshold policy \<le> card (signers v message (sc_signatures c)))"
proof -
  obtain message where ok: "xa_catalog_json api (sc_signed c) = Some message" "check_freshness (sc_signed c) policy prior now = Inr ()"
    "tp_signature_threshold policy \<le> card (signers v message (sc_signatures c))"
    "check_entries api None (ts_immutable_revisions prior) [] (cp_entries (sc_signed c)) = Inr (tc_entries tc, ts_immutable_revisions st)"
    using assms(1) by (rule verify_catalogD)
  have "bt_get (tc_entries tc) i = Some e" "\<not> ce_revoked e"
    using assms(2) by (auto simp: installable_entry_def split: option.splits if_splits)
  then have e: "e \<in> set (cp_entries (sc_signed c))" "entry_identity e = i" "\<not> ce_revoked e"
    using check_entries_Inr(3) [OF ok(4)] by auto
  have "published api e" "bt_get (ts_immutable_revisions st) i = Some (ce_manifest_sha256 e)"
    using check_entries_Inr(1) [OF ok(4)] e(1,2) by auto
  moreover have "bt_get (ts_immutable_revisions prior) i \<in> {None, bt_get (ts_immutable_revisions st) i}"
    using check_entries_Inr(2) [OF ok(4)] unfolding map_le_def by (metis domIff insertCI)
  ultimately show ?thesis
    using e ok(1-3) by (auto simp: check_freshness_def split: if_splits)
qed

text \<open>A first catalog with version zero is not pinned: the digest of what was accepted before plays no part.\<close>

lemma version_zero_is_not_pinned:
  "ts_highest_version prior = 0 \<Longrightarrow>
     verify_catalog api c v policy (prior\<lparr>ts_accepted_payload_sha256 := x\<rparr>) now = verify_catalog api c v policy prior now"
  unfolding verify_catalog_def check_freshness_def Let_def by (simp split: option.split)

section \<open>A concrete catalog\<close>

definition sample_api :: catalog_api where
  "sample_api = \<lparr>xa_manifest_json = \<lambda>_. Some [1], xa_catalog_json = \<lambda>_. Some [2], xa_sha256_hex = \<lambda>b. if b = [1] then lit ''aa'' else lit ''bb''\<rparr>"

definition sample_verifier :: signature_verifier where
  "sample_verifier = \<lparr>sv_is_trusted_key = \<lambda>k. k = lit ''root'', sv_verify = \<lambda>_ _ m _. m = [2]\<rparr>"

definition sample_catalog_entry :: catalog_entry where
  "sample_catalog_entry = \<lparr>ce_manifest = sample_manifest, ce_manifest_sha256 = lit ''aa'', ce_channels = [], ce_published_unix_seconds = 5,
     ce_revoked = False, ce_revocation_reason = None\<rparr>"

definition sample_catalog :: signed_catalog where
  "sample_catalog = \<lparr>sc_signed = \<lparr>cp_schema = SIGNED_CATALOG_SCHEMA_V1, cp_version = 3, cp_generated_unix_seconds = 100,
       cp_expires_unix_seconds = 200, cp_entries = [sample_catalog_entry]\<rparr>,
     sc_signatures = [\<lparr>cg_key_id = lit ''root'', cg_algorithm = lit ''ed25519'', cg_signature = lit ''s''\<rparr>]\<rparr>"

definition sample_trust_policy :: catalog_trust_policy where
  "sample_trust_policy = default_catalog_trust_policy\<lparr>tp_signature_threshold := 1\<rparr>"

definition initial_trust :: catalog_trust_state where
  "initial_trust = \<lparr>ts_highest_version = 0, ts_accepted_payload_sha256 = None, ts_immutable_revisions = []\<rparr>"

lemma sample_catalog_verified:
  "verify_catalog sample_api sample_catalog sample_verifier sample_trust_policy initial_trust 150 =
     Inr (\<lparr>tc_payload = sc_signed sample_catalog, tc_entries = [(manifest_identity sample_manifest, sample_catalog_entry)],
            tc_payload_digest = lit ''bb''\<rparr>,
          \<lparr>ts_highest_version = 3, ts_accepted_payload_sha256 = Some (lit ''bb''),
            ts_immutable_revisions = [(manifest_identity sample_manifest, lit ''aa'')]\<rparr>)"
  by (simp add: verify_catalog_def sample_catalog_def check_freshness_def initial_trust_def sample_trust_policy_def
      default_catalog_trust_policy_def sat_add_def u64_max_def sample_api_def sample_verifier_def sample_catalog_entry_def
      manifest_digest_def sample_manifest_valid map_err_def Let_def)

theorem installable_entry_is_authentic_witness:
  "published sample_api sample_catalog_entry \<and> entry_identity sample_catalog_entry = manifest_identity sample_manifest"
  using installable_entry_is_authentic [OF sample_catalog_verified, of "manifest_identity sample_manifest" sample_catalog_entry]
  by (simp add: installable_entry_def sample_catalog_entry_def)

theorem catalog_history_is_append_only_witness:
  "bt_get (ts_immutable_revisions (state_after (catalog_step sample_api sample_verifier sample_trust_policy) initial_trust [(sample_catalog, 150)]))
     (manifest_identity sample_manifest) = Some (lit ''aa'')"
proof -
  have step: "catalog_step sample_api sample_verifier sample_trust_policy initial_trust (sample_catalog, 150) =
      (True, \<lparr>ts_highest_version = 3, ts_accepted_payload_sha256 = Some (lit ''bb''),
        ts_immutable_revisions = [(manifest_identity sample_manifest, lit ''aa'')]\<rparr>)"
    by (simp add: catalog_step_def sample_catalog_verified)
  then have acc: "accepted_by (catalog_step sample_api sample_verifier sample_trust_policy) initial_trust [(sample_catalog, 150)]
      = [(sample_catalog, 150)]"
    by simp
  have "sample_catalog_entry \<in> set (cp_entries (sc_signed sample_catalog))" "ce_manifest sample_catalog_entry = sample_manifest"
    "ce_manifest_sha256 sample_catalog_entry = lit ''aa''"
    by (simp_all add: sample_catalog_def sample_catalog_entry_def)
  then show ?thesis
    using catalog_history_is_append_only [of sample_api sample_verifier sample_trust_policy initial_trust "[(sample_catalog, 150)]"]
    unfolding Let_def acc by (metis fst_conv list.set_intros(1))
qed

end
