(* ===== verification/Measured_Envelopes.thy ===== *)
theory Measured_Envelopes
  imports Signed_Catalogs Work_Scheduler
begin

text \<open>
  Signed measurements of model packs, the first part of \<open>crates/model-manager/src/resource_governor.rs\<close>: their validation, the quorum
  of signatures, and the trust state with one sequence of measurements per pack, device, runtime and backend. The JSON bytes and the digest
  are parameters, as for the catalog.
\<close>

section \<open>Measurements\<close>

datatype residency_mode = RmCpuResident | RmGpuResident | RmCpuResidentGpuCold

fun residency_mode_rank :: "residency_mode \<Rightarrow> nat" where
  "residency_mode_rank RmCpuResident = 0"
| "residency_mode_rank RmGpuResident = 1"
| "residency_mode_rank RmCpuResidentGpuCold = 2"

instantiation residency_mode :: linorder
begin

definition less_eq_residency_mode :: "residency_mode \<Rightarrow> residency_mode \<Rightarrow> bool" where
  "less_eq_residency_mode a b \<longleftrightarrow> residency_mode_rank a \<le> residency_mode_rank b"

definition less_residency_mode :: "residency_mode \<Rightarrow> residency_mode \<Rightarrow> bool" where
  "less_residency_mode a b \<longleftrightarrow> residency_mode_rank a < residency_mode_rank b"

instance
proof
  fix a b :: residency_mode
  show "a \<le> b \<Longrightarrow> b \<le> a \<Longrightarrow> a = b"
    by (cases a; cases b) (auto simp: less_eq_residency_mode_def)
qed (auto simp: less_eq_residency_mode_def less_residency_mode_def)

end

record placement_measurement =
  pm_resident_ram_bytes :: nat
  pm_p99_total_ram_bytes :: nat
  pm_resident_vram_bytes :: nat
  pm_p99_workspace_vram_bytes :: nat
  pm_p99_load_millis :: nat
  pm_p99_reload_millis :: nat
  pm_p99_operation_millis :: nat

record measured_payload =
  me_schema :: rstr
  me_report_id :: rstr
  me_sequence :: nat
  me_measured_unix_seconds :: nat
  me_expires_unix_seconds :: nat
  me_device_fingerprint_sha256 :: rstr
  me_identity :: pack_revision
  me_manifest_sha256 :: rstr
  me_capability :: model_pack_kind
  me_benchmark_suite_revision :: rstr
  me_runtime :: rstr
  me_runtime_revision :: rstr
  me_backend :: rstr
  me_sample_count :: nat
  me_placements :: "(residency_mode, placement_measurement) btree"

record signed_envelope =
  se_signed :: measured_payload
  se_signatures :: "catalog_signature list"

record measurement_trust_policy =
  mp_signature_threshold :: nat
  mp_minimum_samples :: nat
  mp_maximum_lifetime_seconds :: nat
  mp_maximum_clock_skew_seconds :: nat

definition default_measurement_trust_policy :: measurement_trust_policy where
  "default_measurement_trust_policy = \<lparr>mp_signature_threshold = 1, mp_minimum_samples = 20,
     mp_maximum_lifetime_seconds = 30 * 24 * 60 * 60, mp_maximum_clock_skew_seconds = 10 * 60\<rparr>"

datatype measurement_stream_key =
  MeasurementStream (mk_identity: pack_revision) (mk_device: rstr) (mk_runtime: rstr) (mk_backend: rstr)

definition stream_tuple :: "measurement_stream_key \<Rightarrow> pack_revision \<times> rstr \<times> rstr \<times> rstr" where
  "stream_tuple k = (mk_identity k, mk_device k, mk_runtime k, mk_backend k)"

lemma stream_tuple_eq [simp]: "stream_tuple a = stream_tuple b \<longleftrightarrow> a = b"
  by (cases a; cases b) (auto simp: stream_tuple_def)

instantiation measurement_stream_key :: linorder
begin

definition less_eq_measurement_stream_key :: "measurement_stream_key \<Rightarrow> measurement_stream_key \<Rightarrow> bool" where
  "less_eq_measurement_stream_key a b \<longleftrightarrow> stream_tuple a \<le> stream_tuple b"

definition less_measurement_stream_key :: "measurement_stream_key \<Rightarrow> measurement_stream_key \<Rightarrow> bool" where
  "less_measurement_stream_key a b \<longleftrightarrow> stream_tuple a < stream_tuple b"

instance
  by standard (auto simp: less_eq_measurement_stream_key_def less_measurement_stream_key_def simp flip: stream_tuple_eq)

end

record measurement_version =
  mv_sequence :: nat
  mv_payload_sha256 :: rstr

record measurement_trust_state =
  mt_accepted :: "(measurement_stream_key, measurement_version) btree"

record qualified_envelope =
  qe_payload :: measured_payload
  qe_payload_sha256 :: rstr

definition envelope_placement :: "qualified_envelope \<Rightarrow> residency_mode \<Rightarrow> placement_measurement option" where
  "envelope_placement q mode = bt_get (me_placements (qe_payload q)) mode"

datatype resource_envelope_error =
    UnsupportedEnvelopeSchema rstr | InvalidEnvelopeField rstr | IncompleteMeasurement | MeasuredInFuture | MeasurementExpired
  | MeasurementInvalidLifetime | InvalidPlacementMeasurement residency_mode | ZeroSignatureThreshold
  | EnvelopeSignatureThreshold nat nat | MeasurementRollback nat nat | SequenceEquivocation nat | EnvelopeSerialization

section \<open>Verification\<close>

definition MEASURED_RESOURCE_ENVELOPE_SCHEMA_V1 :: rstr where
  "MEASURED_RESOURCE_ENVELOPE_SCHEMA_V1 = lit ''npc.measured-resource-envelope/v1''"

definition validate_token :: "rstr \<Rightarrow> rstr \<Rightarrow> nat \<Rightarrow> nat \<Rightarrow> (resource_envelope_error, unit) result" where
  "validate_token field v lo hi = (if valid_token v lo hi then Inr () else Inl (InvalidEnvelopeField field))"

definition placement_ok :: "residency_mode \<Rightarrow> placement_measurement \<Rightarrow> bool" where
  "placement_ok mode m \<longleftrightarrow>
     \<not> (pm_resident_ram_bytes m = 0 \<or> pm_p99_total_ram_bytes m < pm_resident_ram_bytes m \<or> pm_p99_load_millis m = 0
        \<or> pm_p99_reload_millis m = 0 \<or> pm_p99_operation_millis m = 0)
     \<and> (case mode of
          RmGpuResident \<Rightarrow> pm_resident_vram_bytes m \<noteq> 0
        | _ \<Rightarrow> \<not> (pm_resident_vram_bytes m \<noteq> 0 \<or> pm_p99_workspace_vram_bytes m \<noteq> 0))"

fun check_placements :: "(residency_mode \<times> placement_measurement) list \<Rightarrow> (resource_envelope_error, unit) result" where
  "check_placements [] = Inr ()"
| "check_placements ((mode, m) # ps) =
     (if placement_ok mode m then check_placements ps else Inl (InvalidPlacementMeasurement mode))"

definition validate_measurement_payload ::
  "measured_payload \<Rightarrow> measurement_trust_policy \<Rightarrow> nat \<Rightarrow> (resource_envelope_error, unit) result" where
  "validate_measurement_payload p policy now =
     (if me_schema p \<noteq> MEASURED_RESOURCE_ENVELOPE_SCHEMA_V1 then Inl (UnsupportedEnvelopeSchema (me_schema p))
      else
        bind_result (validate_token (lit ''report_id'') (me_report_id p) 8 128) (\<lambda>_.
        bind_result (validate_token (lit ''benchmark_suite_revision'') (me_benchmark_suite_revision p) 1 128) (\<lambda>_.
        bind_result (validate_token (lit ''runtime'') (me_runtime p) 1 128) (\<lambda>_.
        bind_result (validate_token (lit ''runtime_revision'') (me_runtime_revision p) 1 128) (\<lambda>_.
        bind_result (validate_token (lit ''backend'') (me_backend p) 1 128) (\<lambda>_.
          if me_sequence p = 0 \<or> me_measured_unix_seconds p = 0 \<or> me_sample_count p < mp_minimum_samples policy \<or> me_placements p = []
          then Inl IncompleteMeasurement
          else if me_measured_unix_seconds p > sat_add now (mp_maximum_clock_skew_seconds policy) then Inl MeasuredInFuture
          else if me_expires_unix_seconds p \<le> now then Inl MeasurementExpired
          else if me_expires_unix_seconds p < me_measured_unix_seconds p then Inl MeasurementInvalidLifetime
          else if me_expires_unix_seconds p - me_measured_unix_seconds p > mp_maximum_lifetime_seconds policy
            then Inl MeasurementInvalidLifetime
          else check_placements (me_placements p)))))))"

definition stream_of :: "measured_payload \<Rightarrow> measurement_stream_key" where
  "stream_of p = MeasurementStream (me_identity p) (me_device_fingerprint_sha256 p) (me_runtime p) (me_backend p)"

record envelope_api =
  ya_envelope_json :: "measured_payload \<Rightarrow> octets option"
  ya_sha256_hex :: "octets \<Rightarrow> rstr"

definition verify_measured_resource_envelope ::
  "envelope_api \<Rightarrow> signed_envelope \<Rightarrow> signature_verifier \<Rightarrow> measurement_trust_policy \<Rightarrow> measurement_trust_state \<Rightarrow> nat
     \<Rightarrow> (resource_envelope_error, qualified_envelope \<times> measurement_trust_state) result" where
  "verify_measured_resource_envelope api e verifier policy prior now =
     (let p = se_signed e in
      bind_result (validate_measurement_payload p policy now) (\<lambda>_.
        if mp_signature_threshold policy = 0 then Inl ZeroSignatureThreshold
        else
          (case ya_envelope_json api p of
             None \<Rightarrow> Inl EnvelopeSerialization
           | Some bytes \<Rightarrow>
               (let digest = ya_sha256_hex api bytes; stream = stream_of p;
                    keys = accepted_keys verifier bytes [] (se_signatures e);
                    accept = Inr (\<lparr>qe_payload = p, qe_payload_sha256 = digest\<rparr>,
                      \<lparr>mt_accepted = bt_insert stream \<lparr>mv_sequence = me_sequence p, mv_payload_sha256 = digest\<rparr> (mt_accepted prior)\<rparr>);
                    quorum = (if length keys < mp_signature_threshold policy
                      then Inl (EnvelopeSignatureThreshold (mp_signature_threshold policy) (length keys)) else accept) in
                (case bt_get (mt_accepted prior) stream of
                   None \<Rightarrow> quorum
                 | Some version \<Rightarrow>
                     if me_sequence p < mv_sequence version then Inl (MeasurementRollback (mv_sequence version) (me_sequence p))
                     else if me_sequence p = mv_sequence version \<and> digest \<noteq> mv_payload_sha256 version
                       then Inl (SequenceEquivocation (me_sequence p))
                     else quorum)))))"

section \<open>Streams of measurements\<close>

lemma check_placements_Inr: "check_placements ps = Inr () \<longleftrightarrow> (\<forall>(mode, m)\<in>set ps. placement_ok mode m)"
  by (induction ps rule: check_placements.induct) auto

lemma verify_envelopeD:
  assumes "verify_measured_resource_envelope api e v policy prior now = Inr (q, next)"
  obtains bytes where "ya_envelope_json api (se_signed e) = Some bytes"
    and "validate_measurement_payload (se_signed e) policy now = Inr ()" "0 < mp_signature_threshold policy"
    and "mp_signature_threshold policy \<le> card (signers v bytes (se_signatures e))"
    and "q = \<lparr>qe_payload = se_signed e, qe_payload_sha256 = ya_sha256_hex api bytes\<rparr>"
    and "next = \<lparr>mt_accepted = bt_insert (stream_of (se_signed e))
       \<lparr>mv_sequence = me_sequence (se_signed e), mv_payload_sha256 = ya_sha256_hex api bytes\<rparr> (mt_accepted prior)\<rparr>"
    and "\<And>version. bt_get (mt_accepted prior) (stream_of (se_signed e)) = Some version \<Longrightarrow>
       mv_sequence version \<le> me_sequence (se_signed e)
       \<and> (me_sequence (se_signed e) = mv_sequence version \<longrightarrow> mv_payload_sha256 version = ya_sha256_hex api bytes)"
  using assms
  by (auto simp: verify_measured_resource_envelope_def Let_def bind_result_Inr_iff accepted_keys_quorum not_less
      split: option.splits if_splits)

text \<open>The measurements of one stream: what is accepted for other streams leaves its version alone.\<close>

definition envelope_step ::
  "envelope_api \<Rightarrow> signature_verifier \<Rightarrow> measurement_trust_policy \<Rightarrow> measurement_stream_key \<Rightarrow> measurement_trust_state
     \<Rightarrow> signed_envelope \<times> nat \<Rightarrow> bool \<times> measurement_trust_state" where
  "envelope_step api v policy k st m =
     (case verify_measured_resource_envelope api (fst m) v policy st (snd m) of
        Inl _ \<Rightarrow> (False, st) | Inr (_, st') \<Rightarrow> (stream_of (se_signed (fst m)) = k, st'))"

definition stream_version :: "measurement_stream_key \<Rightarrow> measurement_trust_state \<Rightarrow> measurement_version option" where
  "stream_version k st = bt_get (mt_accepted st) k"

definition envelope_version :: "envelope_api \<Rightarrow> signed_envelope \<times> nat \<Rightarrow> measurement_version option" where
  "envelope_version api m =
     map_option (\<lambda>bytes. \<lparr>mv_sequence = me_sequence (se_signed (fst m)), mv_payload_sha256 = ya_sha256_hex api bytes\<rparr>)
       (ya_envelope_json api (se_signed (fst m)))"

fun supersedes :: "measurement_version option \<Rightarrow> measurement_version option \<Rightarrow> bool" where
  "supersedes None _ = True"
| "supersedes (Some a) (Some b) \<longleftrightarrow> mv_sequence a \<le> mv_sequence b \<and> (mv_sequence a = mv_sequence b \<longrightarrow> a = b)"
| "supersedes (Some a) None = False"

lemma supersedes_trans: "transp supersedes"
proof (rule transpI)
  fix a b c assume "supersedes a b" "supersedes b c"
  then show "supersedes a c" by (cases a; cases b; cases c) auto
qed

interpretation stream_mark: watermark "envelope_step api v policy k" "\<lambda>_. True" "stream_version k" "envelope_version api" supersedes
  for api v policy k
proof unfold_locales
  fix st m st' assume step: "envelope_step api v policy k st m = (True, st')"
  then obtain q where "verify_measured_resource_envelope api (fst m) v policy st (snd m) = Inr (q, st')"
    and k: "stream_of (se_signed (fst m)) = k"
    by (auto simp: envelope_step_def split: sum.splits)
  from this(1) show "supersedes (stream_version k st) (envelope_version api m) \<and> stream_version k st' = envelope_version api m"
    by (rule verify_envelopeD) (cases "stream_version k st"; force simp: stream_version_def envelope_version_def k)
next
  fix st m st' assume "envelope_step api v policy k st m = (False, st')"
  then show "stream_version k st' = stream_version k st"
    by (auto simp: envelope_step_def stream_version_def split: sum.splits elim!: verify_envelopeD)
qed auto

text \<open>
  Whatever measurements are offered, those accepted for one pack, device, runtime and backend have sequence numbers that never
  go back, and one sequence number stands for one payload; the trust state holds the last accepted one.
\<close>

theorem measurements_never_roll_back:
  "(let acc = map (envelope_version api) (accepted_by (envelope_step api v policy k) st ms) in
     sorted_wrt supersedes (stream_version k st # acc)
     \<and> stream_version k (state_after (envelope_step api v policy k) st ms) = last (stream_version k st # acc))"
  unfolding Let_def
  using stream_mark.accepted_sorted [OF supersedes_trans TrueI, of k st api v policy ms]
    stream_mark.mark_is_last_accepted [OF TrueI, of k api v policy st ms] by blast

end
