(* ===== verification/Loadout_Admission.thy ===== *)
theory Loadout_Admission
  imports Measured_Envelopes Comparators
begin

text \<open>
  Admission of a local loadout and the residency of its models, the middle part of
  \<open>crates/model-manager/src/resource_governor.rs\<close>. The sums of the sources are checked, so an overflow is an error of its own; the
  admission theorem shows that they agree with the sums of the natural numbers.
\<close>

section \<open>The policy\<close>

definition RESOURCE_GOVERNOR_POLICY_SCHEMA_V1 :: rstr where
  "RESOURCE_GOVERNOR_POLICY_SCHEMA_V1 = lit ''npc.resource-governor-policy/v1''"

definition BASIS_POINTS :: nat where
  "BASIS_POINTS = 10000"

record governor_policy =
  gp_schema :: rstr
  gp_vram_soft_ceiling_basis_points :: nat
  gp_ram_soft_ceiling_basis_points :: nat
  gp_minimum_vram_safety_bytes :: nat
  gp_proportional_vram_safety_basis_points :: nat
  gp_minimum_ram_safety_bytes :: nat
  gp_maximum_snapshot_age_millis :: nat
  gp_keep_warm_millis :: nat
  gp_unload_ttl_millis :: nat

definition default_governor_policy :: governor_policy where
  "default_governor_policy = \<lparr>gp_schema = RESOURCE_GOVERNOR_POLICY_SCHEMA_V1, gp_vram_soft_ceiling_basis_points = 9000,
     gp_ram_soft_ceiling_basis_points = 8500, gp_minimum_vram_safety_bytes = 1500000000,
     gp_proportional_vram_safety_basis_points = 1500, gp_minimum_ram_safety_bytes = 2000000000,
     gp_maximum_snapshot_age_millis = 2000, gp_keep_warm_millis = 30000, gp_unload_ttl_millis = 120000\<rparr>"

datatype resource_admission_error =
    UnsupportedPolicySchema rstr | InvalidGovernorPolicy | InvalidResourceSnapshot | SnapshotFromFuture | StaleSnapshot nat | EmptyLoadout
  | DuplicateRole model_pack_kind | DeviceFingerprintMismatch | CapabilityMismatch model_pack_kind model_pack_kind
  | UnknownEnvelope pack_revision residency_mode | VramSoftCeilingExceeded nat nat | RamSoftCeilingExceeded nat nat
  | ArithmeticOverflow | AdmissionSerialization | InvalidResidencyUpdate | UnknownResidency | ResidencyClockWentBackward

definition validate_governor_policy :: "governor_policy \<Rightarrow> (resource_admission_error, unit) result" where
  "validate_governor_policy p =
     (if gp_schema p \<noteq> RESOURCE_GOVERNOR_POLICY_SCHEMA_V1 then Inl (UnsupportedPolicySchema (gp_schema p))
      else if gp_vram_soft_ceiling_basis_points p = 0 \<or> gp_vram_soft_ceiling_basis_points p > BASIS_POINTS
        \<or> gp_ram_soft_ceiling_basis_points p = 0 \<or> gp_ram_soft_ceiling_basis_points p > BASIS_POINTS
        \<or> gp_proportional_vram_safety_basis_points p > BASIS_POINTS \<or> gp_maximum_snapshot_age_millis p = 0
        \<or> gp_keep_warm_millis p > gp_unload_ttl_millis p
      then Inl InvalidGovernorPolicy else Inr ())"

section \<open>Admission\<close>

record live_resource_snapshot =
  ls_captured_monotonic_millis :: nat
  ls_device_fingerprint_sha256 :: rstr
  ls_physical_vram_bytes :: nat
  ls_os_vram_budget_bytes :: nat
  ls_desktop_resident_vram_bytes :: nat
  ls_game_resident_vram_bytes :: nat
  ls_game_reserve_vram_bytes :: nat
  ls_physical_ram_bytes :: nat
  ls_available_ram_bytes :: nat
  ls_game_additional_reserve_ram_bytes :: nat

record loadout_request =
  lq_role :: model_pack_kind
  lq_mode :: residency_mode
  lq_envelope :: qualified_envelope

record admitted_model =
  am_role :: model_pack_kind
  am_identity :: pack_revision
  am_manifest_sha256 :: rstr
  am_measured_envelope_sha256 :: rstr
  am_mode :: residency_mode
  am_measurement :: placement_measurement

record loadout_admission =
  la_snapshot_monotonic_millis :: nat
  la_device_fingerprint_sha256 :: rstr
  la_models :: "admitted_model list"
  la_vram_soft_ceiling_bytes :: nat
  la_protected_desktop_and_game_vram_bytes :: nat
  la_selected_peak_vram_bytes :: nat
  la_vram_safety_bytes :: nat
  la_projected_total_vram_bytes :: nat
  la_ram_soft_ceiling_bytes :: nat
  la_selected_peak_ram_bytes :: nat
  la_ram_safety_bytes :: nat

definition validates_manifest :: "loadout_admission \<Rightarrow> pack_revision \<Rightarrow> rstr \<Rightarrow> bool" where
  "validates_manifest a identity manifest_sha256 \<longleftrightarrow>
     list_ex (\<lambda>m. am_identity m = identity \<and> am_manifest_sha256 m = manifest_sha256) (la_models a)"

definition new_governor :: "governor_policy \<Rightarrow> (resource_admission_error, governor_policy) result" where
  "new_governor p = bind_result (validate_governor_policy p) (\<lambda>_. Inr p)"

definition validate_live_snapshot ::
  "live_resource_snapshot \<Rightarrow> nat \<Rightarrow> governor_policy \<Rightarrow> (resource_admission_error, unit) result" where
  "validate_live_snapshot s now p =
     (if ls_captured_monotonic_millis s = 0 \<or> ls_physical_vram_bytes s = 0 \<or> ls_os_vram_budget_bytes s = 0
         \<or> ls_physical_ram_bytes s = 0 \<or> ls_available_ram_bytes s = 0
         \<or> ls_os_vram_budget_bytes s > ls_physical_vram_bytes s \<or> ls_available_ram_bytes s > ls_physical_ram_bytes s
         \<or> ls_desktop_resident_vram_bytes s > ls_os_vram_budget_bytes s \<or> ls_game_resident_vram_bytes s > ls_os_vram_budget_bytes s
      then Inl InvalidResourceSnapshot
      else if now < ls_captured_monotonic_millis s then Inl SnapshotFromFuture
      else if now - ls_captured_monotonic_millis s > gp_maximum_snapshot_age_millis p
        then Inl (StaleSnapshot (now - ls_captured_monotonic_millis s))
      else Inr ())"

definition basis_points :: "nat \<Rightarrow> nat \<Rightarrow> (resource_admission_error, nat) result" where
  "basis_points value bps = (if value * bps > u64_max then Inl ArithmeticOverflow else Inr (value * bps div BASIS_POINTS))"

definition checked_sum :: "nat \<Rightarrow> nat \<Rightarrow> (resource_admission_error, nat) result" where
  "checked_sum a b = (if a + b > u64_max then Inl ArithmeticOverflow else Inr (a + b))"

definition admitted_of :: "loadout_request \<Rightarrow> placement_measurement \<Rightarrow> admitted_model" where
  "admitted_of r m =
     \<lparr>am_role = lq_role r, am_identity = me_identity (qe_payload (lq_envelope r)),
      am_manifest_sha256 = me_manifest_sha256 (qe_payload (lq_envelope r)),
      am_measured_envelope_sha256 = qe_payload_sha256 (lq_envelope r), am_mode = lq_mode r, am_measurement = m\<rparr>"

fun select_models ::
  "rstr \<Rightarrow> model_pack_kind list \<Rightarrow> nat \<Rightarrow> nat \<Rightarrow> loadout_request list
     \<Rightarrow> (resource_admission_error, admitted_model list \<times> nat \<times> nat) result" where
  "select_models device roles vram ram [] = Inr ([], vram, ram)"
| "select_models device roles vram ram (r # rs) =
     (let p = qe_payload (lq_envelope r) in
      if lq_role r \<in> set roles then Inl (DuplicateRole (lq_role r))
      else if me_device_fingerprint_sha256 p \<noteq> device then Inl DeviceFingerprintMismatch
      else if me_capability p \<noteq> lq_role r then Inl (CapabilityMismatch (me_capability p) (lq_role r))
      else
        (case envelope_placement (lq_envelope r) (lq_mode r) of
           None \<Rightarrow> Inl (UnknownEnvelope (me_identity p) (lq_mode r))
         | Some m \<Rightarrow>
             bind_result (checked_sum (pm_resident_vram_bytes m) (pm_p99_workspace_vram_bytes m)) (\<lambda>peak.
             bind_result (checked_sum vram peak) (\<lambda>vram'.
             bind_result (checked_sum ram (pm_p99_total_ram_bytes m)) (\<lambda>ram'.
             bind_result (select_models device (lq_role r # roles) vram' ram' rs) (\<lambda>(models, totals).
               Inr (admitted_of r m # models, totals)))))))"

definition admit_loadout ::
  "governor_policy \<Rightarrow> live_resource_snapshot \<Rightarrow> nat \<Rightarrow> loadout_request list
     \<Rightarrow> (resource_admission_error, loadout_admission) result" where
  "admit_loadout policy s now requests =
     bind_result (validate_live_snapshot s now policy) (\<lambda>_.
     if requests = [] then Inl EmptyLoadout
     else
       bind_result (select_models (ls_device_fingerprint_sha256 s) [] 0 0 requests) (\<lambda>(models, peak_vram, peak_ram).
       (let hard = min (ls_physical_vram_bytes s) (ls_os_vram_budget_bytes s);
            protected_game = max (ls_game_resident_vram_bytes s) (ls_game_reserve_vram_bytes s) in
        bind_result (basis_points hard (gp_vram_soft_ceiling_basis_points policy)) (\<lambda>vram_soft_ceiling.
        bind_result (checked_sum (ls_desktop_resident_vram_bytes s) protected_game) (\<lambda>protected.
        bind_result (basis_points hard (gp_proportional_vram_safety_basis_points policy)) (\<lambda>proportional.
        (let vram_safety = max (gp_minimum_vram_safety_bytes policy) proportional in
         bind_result (checked_sum protected peak_vram) (\<lambda>used.
         bind_result (checked_sum used vram_safety) (\<lambda>projected.
           if projected > vram_soft_ceiling then Inl (VramSoftCeilingExceeded projected vram_soft_ceiling)
           else
             bind_result (basis_points (ls_physical_ram_bytes s) (gp_ram_soft_ceiling_basis_points policy)) (\<lambda>ram_soft_ceiling.
             (let ram_budget = min (ls_available_ram_bytes s) ram_soft_ceiling in
              bind_result (checked_sum peak_ram (ls_game_additional_reserve_ram_bytes s)) (\<lambda>ram_used.
              bind_result (checked_sum ram_used (gp_minimum_ram_safety_bytes policy)) (\<lambda>ram_required.
                if ram_required > ram_budget then Inl (RamSoftCeilingExceeded ram_required ram_budget)
                else
                  Inr \<lparr>la_snapshot_monotonic_millis = ls_captured_monotonic_millis s,
                       la_device_fingerprint_sha256 = ls_device_fingerprint_sha256 s,
                       la_models = sort_by (\<lambda>a b. ord_cmp (am_role a) (am_role b)) models,
                       la_vram_soft_ceiling_bytes = vram_soft_ceiling, la_protected_desktop_and_game_vram_bytes = protected,
                       la_selected_peak_vram_bytes = peak_vram, la_vram_safety_bytes = vram_safety,
                       la_projected_total_vram_bytes = projected, la_ram_soft_ceiling_bytes = ram_budget,
                       la_selected_peak_ram_bytes = peak_ram, la_ram_safety_bytes = gp_minimum_ram_safety_bytes policy\<rparr>)))))))))))))"

section \<open>Residency\<close>

datatype runtime_residency_state = RsGpuWarm | RsCpuResidentGpuCold | RsCpuWarm | RsUnloaded

record residency_record =
  rd_identity :: pack_revision
  rd_state :: runtime_residency_state
  rd_cpu_fallback_supported :: bool
  rd_last_used_monotonic_millis :: nat

datatype residency_action = DropGpuKeepCpu pack_revision | Unload pack_revision

record residency_tracker =
  rk_keep_warm_millis :: nat
  rk_unload_ttl_millis :: nat
  rk_records :: "(pack_revision, residency_record) btree"

definition new_residency_tracker :: "governor_policy \<Rightarrow> (resource_admission_error, residency_tracker) result" where
  "new_residency_tracker p =
     bind_result (validate_governor_policy p) (\<lambda>_.
       Inr \<lparr>rk_keep_warm_millis = gp_keep_warm_millis p, rk_unload_ttl_millis = gp_unload_ttl_millis p, rk_records = []\<rparr>)"

definition record_loaded ::
  "pack_revision \<Rightarrow> runtime_residency_state \<Rightarrow> bool \<Rightarrow> nat \<Rightarrow> residency_tracker
     \<Rightarrow> (resource_admission_error, unit) result \<times> residency_tracker" where
  "record_loaded identity state cpu_fallback now t =
     (if now = 0 \<or> state = RsUnloaded then (Inl InvalidResidencyUpdate, t)
      else (Inr (), t\<lparr>rk_records := bt_insert identity
             \<lparr>rd_identity = identity, rd_state = state, rd_cpu_fallback_supported = cpu_fallback,
              rd_last_used_monotonic_millis = now\<rparr> (rk_records t)\<rparr>))"

definition touch_residency ::
  "pack_revision \<Rightarrow> nat \<Rightarrow> residency_tracker \<Rightarrow> (resource_admission_error, unit) result \<times> residency_tracker" where
  "touch_residency identity now t =
     (case bt_get (rk_records t) identity of
        None \<Rightarrow> (Inl UnknownResidency, t)
      | Some r \<Rightarrow>
          if now < rd_last_used_monotonic_millis r then (Inl ResidencyClockWentBackward, t)
          else (Inr (), t\<lparr>rk_records := bt_insert identity (r\<lparr>rd_last_used_monotonic_millis := now\<rparr>) (rk_records t)\<rparr>))"

text \<open>What the loop does to one record, and the loop over the identities; it leaves with an error in the middle, keeping the records
  changed so far.\<close>

definition maintenance_due ::
  "residency_tracker \<Rightarrow> nat \<Rightarrow> pack_revision \<times> residency_record \<Rightarrow> (residency_action \<times> runtime_residency_state) option" where
  "maintenance_due t idle e =
     (if idle \<ge> rk_unload_ttl_millis t then Some (Unload (fst e), RsUnloaded)
      else if idle \<ge> rk_keep_warm_millis t \<and> rd_state (snd e) = RsGpuWarm \<and> rd_cpu_fallback_supported (snd e)
        then Some (DropGpuKeepCpu (fst e), RsCpuResidentGpuCold)
      else None)"

fun maintain ::
  "nat \<Rightarrow> pack_revision list \<Rightarrow> residency_tracker
     \<Rightarrow> ((resource_admission_error, residency_action list) result \<times> residency_tracker) option" where
  "maintain now [] t = Some (Inr [], t)"
| "maintain now (i # is) t =
     (case bt_get (rk_records t) i of
        None \<Rightarrow> None
      | Some r \<Rightarrow>
          if now < rd_last_used_monotonic_millis r then Some (Inl ResidencyClockWentBackward, t)
          else
            (case maintenance_due t (now - rd_last_used_monotonic_millis r) (i, r) of
               None \<Rightarrow> maintain now is t
             | Some (action, state) \<Rightarrow>
                 map_option (\<lambda>(res, t'). (bind_result res (\<lambda>as. Inr (action # as)), t'))
                   (maintain now is (t\<lparr>rk_records := bt_insert i (r\<lparr>rd_state := state\<rparr>) (rk_records t)\<rparr>))))"

definition maintenance_actions ::
  "nat \<Rightarrow> residency_tracker \<Rightarrow> ((resource_admission_error, residency_action list) result \<times> residency_tracker) option" where
  "maintenance_actions now t =
     map_option (\<lambda>(res, t').
         (res, (case res of
                  Inl _ \<Rightarrow> t'
                | Inr _ \<Rightarrow> t'\<lparr>rk_records := filter (\<lambda>e. rd_state (snd e) \<noteq> RsUnloaded) (rk_records t')\<rparr>)))
       (maintain now (map fst (rk_records t)) t)"

section \<open>What is admitted\<close>

text \<open>The measurement an admission rests on, and the memory it stands for in unbounded arithmetic.\<close>

definition request_ok :: "rstr \<Rightarrow> loadout_request \<Rightarrow> bool" where
  "request_ok device q \<longleftrightarrow> me_device_fingerprint_sha256 (qe_payload (lq_envelope q)) = device
     \<and> me_capability (qe_payload (lq_envelope q)) = lq_role q \<and> envelope_placement (lq_envelope q) (lq_mode q) \<noteq> None"

definition measured :: "loadout_request \<Rightarrow> placement_measurement" where
  "measured q = the (envelope_placement (lq_envelope q) (lq_mode q))"

definition peak_vram :: "loadout_request list \<Rightarrow> nat" where
  "peak_vram qs = sum_list (map (\<lambda>q. pm_resident_vram_bytes (measured q) + pm_p99_workspace_vram_bytes (measured q)) qs)"

definition peak_ram :: "loadout_request list \<Rightarrow> nat" where
  "peak_ram qs = sum_list (map (\<lambda>q. pm_p99_total_ram_bytes (measured q)) qs)"

lemma peak_simps [simp]:
  "peak_vram [] = 0" "peak_ram [] = 0"
  "peak_vram (q # qs) = pm_resident_vram_bytes (measured q) + pm_p99_workspace_vram_bytes (measured q) + peak_vram qs"
  "peak_ram (q # qs) = pm_p99_total_ram_bytes (measured q) + peak_ram qs"
  by (simp_all add: peak_vram_def peak_ram_def)

lemma checked_sum_Inr: "checked_sum a b = Inr c \<longleftrightarrow> c = a + b \<and> a + b \<le> u64_max"
  by (auto simp: checked_sum_def not_less)

lemma basis_points_Inr: "basis_points a b = Inr c \<longleftrightarrow> c = a * b div BASIS_POINTS \<and> a * b \<le> u64_max"
  by (auto simp: basis_points_def not_less)

lemma select_models_Inr:
  "select_models device roles v r qs = Inr (models, v', r') \<longleftrightarrow>
     (\<forall>q\<in>set qs. request_ok device q) \<and> distinct (map lq_role qs) \<and> lq_role ` set qs \<inter> set roles = {}
     \<and> models = map (\<lambda>q. admitted_of q (measured q)) qs \<and> v' = v + peak_vram qs \<and> r' = r + peak_ram qs
     \<and> (qs \<noteq> [] \<longrightarrow> v' \<le> u64_max \<and> r' \<le> u64_max)"
proof (induction qs arbitrary: roles v r models)
  case (Cons q qs)
  show ?case
  proof (cases "request_ok device q \<and> lq_role q \<notin> set roles")
    case True
    then obtain m where m: "envelope_placement (lq_envelope q) (lq_mode q) = Some m" "measured q = m"
      by (auto simp: request_ok_def measured_def)
    let ?v = "v + (pm_resident_vram_bytes m + pm_p99_workspace_vram_bytes m)" and ?r = "r + pm_p99_total_ram_bytes m"
    have step: "select_models device roles v r (q # qs) = Inr (models, v', r') \<longleftrightarrow>
        ?v \<le> u64_max \<and> ?r \<le> u64_max \<and> (\<exists>ms. models = admitted_of q m # ms
          \<and> select_models device (lq_role q # roles) ?v ?r qs = Inr (ms, v', r'))"
      using True m(1) by (auto simp: request_ok_def Let_def bind_result_Inr_iff checked_sum_Inr)
    show ?thesis
      unfolding step Cons.IH using True m(2) by (cases qs) (auto simp: add.assoc)
  next
    case False
    then show ?thesis by (auto simp: request_ok_def Let_def bind_result_Inr_iff split: option.splits)
  qed
qed auto

definition loadout_vram_ceiling :: "governor_policy \<Rightarrow> live_resource_snapshot \<Rightarrow> nat" where
  "loadout_vram_ceiling p s = min (ls_physical_vram_bytes s) (ls_os_vram_budget_bytes s) * gp_vram_soft_ceiling_basis_points p div BASIS_POINTS"

definition vram_required :: "governor_policy \<Rightarrow> live_resource_snapshot \<Rightarrow> loadout_request list \<Rightarrow> nat" where
  "vram_required p s qs =
     ls_desktop_resident_vram_bytes s + max (ls_game_resident_vram_bytes s) (ls_game_reserve_vram_bytes s) + peak_vram qs
       + max (gp_minimum_vram_safety_bytes p)
           (min (ls_physical_vram_bytes s) (ls_os_vram_budget_bytes s) * gp_proportional_vram_safety_basis_points p div BASIS_POINTS)"

definition loadout_ram_ceiling :: "governor_policy \<Rightarrow> live_resource_snapshot \<Rightarrow> nat" where
  "loadout_ram_ceiling p s = min (ls_available_ram_bytes s) (ls_physical_ram_bytes s * gp_ram_soft_ceiling_basis_points p div BASIS_POINTS)"

definition ram_required :: "governor_policy \<Rightarrow> live_resource_snapshot \<Rightarrow> loadout_request list \<Rightarrow> nat" where
  "ram_required p s qs = peak_ram qs + ls_game_additional_reserve_ram_bytes s + gp_minimum_ram_safety_bytes p"

text \<open>The ceilings can be computed: the products fit into 64 bits.\<close>

definition ceilings_fit :: "governor_policy \<Rightarrow> live_resource_snapshot \<Rightarrow> bool" where
  "ceilings_fit p s \<longleftrightarrow>
     min (ls_physical_vram_bytes s) (ls_os_vram_budget_bytes s) * gp_vram_soft_ceiling_basis_points p \<le> u64_max
     \<and> min (ls_physical_vram_bytes s) (ls_os_vram_budget_bytes s) * gp_proportional_vram_safety_basis_points p \<le> u64_max
     \<and> ls_physical_ram_bytes s * gp_ram_soft_ceiling_basis_points p \<le> u64_max"

lemma ceilings_bounded: "ceilings_fit p s \<Longrightarrow> loadout_vram_ceiling p s \<le> u64_max \<and> loadout_ram_ceiling p s \<le> u64_max"
  unfolding ceilings_fit_def loadout_vram_ceiling_def loadout_ram_ceiling_def
  by (meson div_le_dividend le_trans min.cobounded2)

definition admission_of :: "governor_policy \<Rightarrow> live_resource_snapshot \<Rightarrow> loadout_request list \<Rightarrow> loadout_admission" where
  "admission_of p s qs =
     \<lparr>la_snapshot_monotonic_millis = ls_captured_monotonic_millis s, la_device_fingerprint_sha256 = ls_device_fingerprint_sha256 s,
      la_models = sort_by (\<lambda>a b. ord_cmp (am_role a) (am_role b)) (map (\<lambda>q. admitted_of q (measured q)) qs),
      la_vram_soft_ceiling_bytes = loadout_vram_ceiling p s,
      la_protected_desktop_and_game_vram_bytes =
        ls_desktop_resident_vram_bytes s + max (ls_game_resident_vram_bytes s) (ls_game_reserve_vram_bytes s),
      la_selected_peak_vram_bytes = peak_vram qs,
      la_vram_safety_bytes = max (gp_minimum_vram_safety_bytes p)
        (min (ls_physical_vram_bytes s) (ls_os_vram_budget_bytes s) * gp_proportional_vram_safety_basis_points p div BASIS_POINTS),
      la_projected_total_vram_bytes = vram_required p s qs, la_ram_soft_ceiling_bytes = loadout_ram_ceiling p s,
      la_selected_peak_ram_bytes = peak_ram qs, la_ram_safety_bytes = gp_minimum_ram_safety_bytes p\<rparr>"

text \<open>
  C15. A loadout is admitted exactly when the snapshot is valid and fresh, there is at least one request and at most one per role,
  every request has a measurement of this device, of the capability it asks for and in the mode it asks for, and the exact sums of
  protected, selected and reserved memory are within the ceilings for video memory and for main memory; the receipt states those
  sums. The only other refusal is that a ceiling cannot be computed in 64 bits: overflow of the sums never decides.
\<close>

theorem admission_exact:
  "admit_loadout p s now qs = Inr a \<longleftrightarrow>
     validate_live_snapshot s now p = Inr () \<and> qs \<noteq> [] \<and> distinct (map lq_role qs)
     \<and> list_all (request_ok (ls_device_fingerprint_sha256 s)) qs \<and> ceilings_fit p s
     \<and> vram_required p s qs \<le> loadout_vram_ceiling p s \<and> ram_required p s qs \<le> loadout_ram_ceiling p s \<and> a = admission_of p s qs"
  (is "?L \<longleftrightarrow> ?R")
proof
  assume ?L
  then show ?R
    by (auto simp: admit_loadout_def Let_def bind_result_Inr_iff select_models_Inr checked_sum_Inr basis_points_Inr list_all_iff
        ceilings_fit_def vram_required_def loadout_vram_ceiling_def ram_required_def loadout_ram_ceiling_def admission_of_def add.assoc not_less
        split: if_splits)
next
  assume R: ?R
  then have bounds: "vram_required p s qs \<le> u64_max" "ram_required p s qs \<le> u64_max"
    using ceilings_bounded [of p s] by auto
  have "select_models (ls_device_fingerprint_sha256 s) [] 0 0 qs
      = Inr (map (\<lambda>q. admitted_of q (measured q)) qs, peak_vram qs, peak_ram qs)"
    using R bounds by (simp add: select_models_Inr list_all_iff vram_required_def ram_required_def)
  then show ?L
    using R bounds
    by (simp add: admit_loadout_def Let_def checked_sum_def basis_points_def not_less ceilings_fit_def vram_required_def loadout_vram_ceiling_def
        ram_required_def loadout_ram_ceiling_def admission_of_def add.assoc)
qed

end
