(* ===== verification/Residency_Properties.thy ===== *)
theory Residency_Properties
  imports Loadout_Admission
begin

text \<open>
  What the maintenance of resident models guarantees: which actions it returns and what it leaves behind, that a second call
  repeats nothing, and what happens to the actions when the clock of a later record is ahead.
\<close>

section \<open>One pass\<close>

definition due :: "residency_tracker \<Rightarrow> nat \<Rightarrow> pack_revision \<times> residency_record \<Rightarrow> (residency_action \<times> runtime_residency_state) option" where
  "due t now e = maintenance_due t (now - rd_last_used_monotonic_millis (snd e)) e"

definition due_action :: "residency_tracker \<Rightarrow> nat \<Rightarrow> pack_revision \<times> residency_record \<Rightarrow> residency_action option" where
  "due_action t now e = map_option fst (due t now e)"

definition maintained :: "residency_tracker \<Rightarrow> nat \<Rightarrow> pack_revision \<times> residency_record \<Rightarrow> pack_revision \<times> residency_record" where
  "maintained t now e = (fst e, case due t now e of None \<Rightarrow> snd e | Some (_, state) \<Rightarrow> (snd e)\<lparr>rd_state := state\<rparr>)"

definition clock_ok :: "residency_tracker \<Rightarrow> nat \<Rightarrow> bool" where
  "clock_ok t now \<longleftrightarrow> list_all (\<lambda>e. rd_last_used_monotonic_millis (snd e) \<le> now) (rk_records t)"

lemma fst_maintained [simp]: "fst (maintained t now e) = fst e"
  by (simp add: maintained_def)

lemma due_cong [simp]: "due (t\<lparr>rk_records := m\<rparr>) = due t" "due_action (t\<lparr>rk_records := m\<rparr>) = due_action t"
  "maintained (t\<lparr>rk_records := m\<rparr>) = maintained t" "maintenance_due (t\<lparr>rk_records := m\<rparr>) = maintenance_due t"
  by (simp_all add: fun_eq_iff due_def due_action_def maintained_def maintenance_due_def)

lemma bt_insert_at:
  assumes "bt_wf (pre @ (i, r) # rest)"
  shows "bt_insert i r' (pre @ (i, r) # rest) = pre @ (i, r') # rest"
  using assms
proof (induction pre)
  case (Cons e pre)
  obtain k v where e: "e = (k, v)" by (cases e)
  have "k < i" using Cons.prems e by (auto simp: bt_wf_def)
  then show ?case using Cons e by (auto simp: bt_wf_def)
qed simp

lemma bt_get_at:
  assumes "bt_wf (pre @ (i, r) # rest)"
  shows "bt_get (pre @ (i, r) # rest) i = Some r"
  using assms by (subst bt_get_in) auto

lemma bt_wf_same_keys: "bt_wf m \<Longrightarrow> map fst m' = map fst m \<Longrightarrow> bt_wf m'"
  by (simp add: bt_wf_def)

lemma maintain_suffix:
  assumes "bt_wf (pre @ rest)" and "\<forall>e\<in>set rest. rd_last_used_monotonic_millis (snd e) \<le> now"
  shows "maintain now (map fst rest) (t\<lparr>rk_records := pre @ rest\<rparr>) =
     Some (Inr (List.map_filter (due_action t now) rest), t\<lparr>rk_records := pre @ map (maintained t now) rest\<rparr>)"
  using assms
proof (induction rest arbitrary: pre)
  case (Cons e rest)
  obtain i r where e: "e = (i, r)" by (cases e)
  have get: "bt_get (pre @ e # rest) i = Some r" using bt_get_at Cons.prems(1) e by simp
  have put: "bt_insert i r' (pre @ e # rest) = (pre @ [(i, r')]) @ rest" for r'
    using bt_insert_at Cons.prems(1) e by simp
  have wf: "bt_wf ((pre @ [(i, r')]) @ rest)" for r'
    using Cons.prems(1) e by (auto intro!: bt_wf_same_keys [of "pre @ e # rest"])
  have IH: "maintain now (map fst rest) (t\<lparr>rk_records := pre @ (i, r') # rest\<rparr>) =
      Some (Inr (List.map_filter (due_action t now) rest), t\<lparr>rk_records := pre @ (i, r') # map (maintained t now) rest\<rparr>)" for r'
    using Cons.IH [OF wf] Cons.prems(2) by simp
  show ?case
    using Cons.prems(2) get put [simplified] IH e
    by (auto simp: List.map_filter_simps due_action_def [of t now "(i, r)"] maintained_def [of t now "(i, r)"] due_def split: option.splits)
qed (simp add: List.map_filter_simps)

lemma maintenance_actions_ok:
  assumes "bt_wf (rk_records t)" and "clock_ok t now"
  shows "maintenance_actions now t =
     Some (Inr (List.map_filter (due_action t now) (rk_records t)),
       t\<lparr>rk_records := filter (\<lambda>e. rd_state (snd e) \<noteq> RsUnloaded) (map (maintained t now) (rk_records t))\<rparr>)"
  using maintain_suffix [of "[]" "rk_records t" now t] assms by (simp add: maintenance_actions_def clock_ok_def list_all_iff)

lemma maintain_keys:
  "bt_wf (rk_records t) \<Longrightarrow> maintain now is t = Some (res, t') \<Longrightarrow>
     map fst (rk_records t') = map fst (rk_records t)
     \<and> rk_keep_warm_millis t' = rk_keep_warm_millis t \<and> rk_unload_ttl_millis t' = rk_unload_ttl_millis t"
proof (induction "is" arbitrary: t res t')
  case (Cons i "is")
  obtain r where r: "bt_get (rk_records t) i = Some r" using Cons.prems(2) by (cases "bt_get (rk_records t) i") simp_all
  have "i \<in> fst ` set (rk_records t)" using map_of_SomeD [OF r] by force
  then have keys: "map fst (bt_insert i x (rk_records t)) = map fst (rk_records t)" for x
    using bt_insert_present [OF Cons.prems(1)] by (simp add: comp_def case_prod_beta)
  then have wf: "bt_wf (bt_insert i x (rk_records t))" for x using Cons.prems(1) bt_wf_same_keys by blast
  show ?case
  proof (cases "now < rd_last_used_monotonic_millis r")
    case False
    show ?thesis
    proof (cases "maintenance_due t (now - rd_last_used_monotonic_millis r) (i, r)")
      case None
      then have "maintain now is t = Some (res, t')" using Cons.prems(2) r False by simp
      then show ?thesis by (rule Cons.IH [OF Cons.prems(1)])
    next
      case (Some a)
      let ?t = "t\<lparr>rk_records := bt_insert i (r\<lparr>rd_state := snd a\<rparr>) (rk_records t)\<rparr>"
      obtain res' where "maintain now is ?t = Some (res', t')"
        using Cons.prems(2) r False Some by (auto simp: case_prod_beta)
      from Cons.IH [OF _ this] show ?thesis using wf keys by simp
    qed
  qed (use Cons.prems r in simp)
qed simp

text \<open>A record that is ahead of the clock ends the pass with an error, after the changes to the records before it.\<close>

lemma maintain_error:
  "bt_wf (rk_records t) \<Longrightarrow> set is \<subseteq> fst ` set (rk_records t) \<Longrightarrow> distinct is
     \<Longrightarrow> \<exists>i r. i \<in> set is \<and> bt_get (rk_records t) i = Some r \<and> now < rd_last_used_monotonic_millis r
     \<Longrightarrow> \<exists>t'. maintain now is t = Some (Inl ResidencyClockWentBackward, t')"
proof (induction "is" arbitrary: t)
  case (Cons i "is")
  then obtain r where r: "bt_get (rk_records t) i = Some r" using bt_get_None_iff [of "rk_records t" i] by auto
  show ?case
  proof (cases "now < rd_last_used_monotonic_millis r")
    case False
    have later: "\<exists>j x. j \<in> set is \<and> bt_get (bt_insert i y (rk_records t)) j = Some x \<and> now < rd_last_used_monotonic_millis x"
      "\<exists>j x. j \<in> set is \<and> bt_get (rk_records t) j = Some x \<and> now < rd_last_used_monotonic_millis x" for y
      using Cons.prems(3,4) False r by auto
    show ?thesis
    proof (cases "maintenance_due t (now - rd_last_used_monotonic_millis r) (i, r)")
      case None
      then show ?thesis using Cons.IH [of t] Cons.prems later(2) False r by simp
    next
      case (Some a)
      let ?t = "t\<lparr>rk_records := bt_insert i (r\<lparr>rd_state := snd a\<rparr>) (rk_records t)\<rparr>"
      obtain t' where "maintain now is ?t = Some (Inl ResidencyClockWentBackward, t')"
        using Cons.IH [of ?t] Cons.prems later(1) by auto
      then show ?thesis using Some False r by (simp add: case_prod_beta)
    qed
  qed (use r in simp)
qed simp

section \<open>Reachable trackers\<close>

inductive residency_reachable :: "residency_tracker \<Rightarrow> bool" where
  start: "new_residency_tracker p = Inr t \<Longrightarrow> residency_reachable t"
| loaded: "residency_reachable t \<Longrightarrow> residency_reachable (snd (record_loaded i state fallback now t))"
| touched: "residency_reachable t \<Longrightarrow> residency_reachable (snd (touch_residency i now t))"
| maintained: "residency_reachable t \<Longrightarrow> maintenance_actions now t = Some (res, t') \<Longrightarrow> residency_reachable t'"

lemma residency_wf: "residency_reachable t \<Longrightarrow> bt_wf (rk_records t) \<and> rk_keep_warm_millis t \<le> rk_unload_ttl_millis t"
proof (induction rule: residency_reachable.induct)
  case (start p t)
  then show ?case by (auto simp: new_residency_tracker_def bind_result_Inr_iff validate_governor_policy_def split: if_splits)
next
  case (touched t i now)
  then show ?case by (auto simp: touch_residency_def split: option.splits)
next
  case (maintained t now res t')
  then obtain u where u: "maintain now (map fst (rk_records t)) t = Some (res, u)"
    and t': "t' = (case res of Inl _ \<Rightarrow> u | Inr _ \<Rightarrow> u\<lparr>rk_records := filter (\<lambda>e. rd_state (snd e) \<noteq> RsUnloaded) (rk_records u)\<rparr>)"
    by (auto simp: maintenance_actions_def)
  have "bt_wf (rk_records u)" "rk_keep_warm_millis u \<le> rk_unload_ttl_millis u"
    using maintain_keys [OF _ u] maintained.IH bt_wf_same_keys by auto
  moreover from this(1) have "bt_wf (filter Q (rk_records u))" for Q
    by (auto simp: bt_wf_def sorted_wrt_map intro: sorted_wrt_filter)
  ultimately show ?case by (simp add: t' split: sum.split)
qed (auto simp: record_loaded_def)

section \<open>Maintenance\<close>

text \<open>What the policy asks for, on the times themselves: a model is unloaded when it has not been used for the unload time, and a
  model that is warm on the GPU and can run on the CPU leaves the GPU when it has not been used for the warm time.\<close>

definition must_unload :: "residency_tracker \<Rightarrow> nat \<Rightarrow> residency_record \<Rightarrow> bool" where
  "must_unload t now r \<longleftrightarrow> rd_last_used_monotonic_millis r + rk_unload_ttl_millis t \<le> now"

definition must_leave_gpu :: "residency_tracker \<Rightarrow> nat \<Rightarrow> residency_record \<Rightarrow> bool" where
  "must_leave_gpu t now r \<longleftrightarrow> \<not> must_unload t now r \<and> rd_last_used_monotonic_millis r + rk_keep_warm_millis t \<le> now
     \<and> rd_state r = RsGpuWarm \<and> rd_cpu_fallback_supported r"

fun action_model :: "residency_action \<Rightarrow> pack_revision" where
  "action_model (DropGpuKeepCpu i) = i"
| "action_model (Unload i) = i"

lemma due_iff:
  assumes "rd_last_used_monotonic_millis r \<le> now"
  shows "due t now (i, r) =
    (if must_unload t now r then Some (Unload i, RsUnloaded)
     else if must_leave_gpu t now r then Some (DropGpuKeepCpu i, RsCpuResidentGpuCold) else None)"
  using assms by (auto simp: due_def maintenance_due_def must_unload_def must_leave_gpu_def)

lemma bt_get_map_filter:
  assumes "bt_wf m" and "\<And>e. fst (g e) = fst e"
  shows "bt_get (filter (\<lambda>e. P (snd e)) (map g m)) i =
    (case bt_get m i of None \<Rightarrow> None | Some r \<Rightarrow> if P (snd (g (i, r))) then Some (snd (g (i, r))) else None)"
  using assms(1)
proof (induction m)
  case (Cons e m)
  obtain k r where e: "e = (k, r)" by (cases e)
  obtain y where g: "g (k, r) = (k, y)" using assms(2) [of "(k, r)"] by (metis fst_conv prod.collapse)
  have "bt_wf m" "k \<notin> fst ` set m" using Cons.prems e by (auto simp: bt_wf_def)
  moreover have "fst ` set (filter Q (map g m)) \<subseteq> fst ` set m" for Q by (auto simp: assms(2) intro: rev_image_eqI)
  then have "k \<notin> fst ` set (filter Q (map g m))" for Q using \<open>k \<notin> fst ` set m\<close> by blast
  then have "bt_get (filter Q (map g m)) k = None" for Q by (simp add: bt_get_None_iff)
  moreover have "bt_get m k = None" using \<open>k \<notin> fst ` set m\<close> by (simp add: bt_get_None_iff)
  ultimately show ?case using Cons.IH e g by (cases "i = k") simp_all
qed simp

lemma action_models:
  "map action_model (List.map_filter (due_action t now) m) = map fst (filter (\<lambda>e. due t now e \<noteq> None) m)"
proof (induction m)
  case (Cons e m)
  have "action_model (fst x) = fst e" if "due t now e = Some x" for x
    using that by (auto simp: due_def maintenance_due_def split: if_splits)
  then show ?case using Cons by (cases "due t now e") (simp_all add: List.map_filter_simps due_action_def)
qed (simp add: List.map_filter_simps)

lemma due_actions_iff:
  assumes "bt_wf (rk_records t)" and "clock_ok t now"
  shows "Unload i \<in> set (List.map_filter (due_action t now) (rk_records t))
      \<longleftrightarrow> (\<exists>r. bt_get (rk_records t) i = Some r \<and> must_unload t now r)"
    and "DropGpuKeepCpu i \<in> set (List.map_filter (due_action t now) (rk_records t))
      \<longleftrightarrow> (\<exists>r. bt_get (rk_records t) i = Some r \<and> must_leave_gpu t now r)"
proof -
  have "x \<in> set (List.map_filter (due_action t now) (rk_records t))
      \<longleftrightarrow> (\<exists>j r. bt_get (rk_records t) j = Some r \<and> map_option fst (due t now (j, r)) = Some x)" for x
    by (force simp: List.map_filter_def due_action_def bt_get_in [OF assms(1)])
  moreover have "rd_last_used_monotonic_millis r \<le> now" if "bt_get (rk_records t) j = Some r" for j r
    using that assms by (auto simp: bt_get_in clock_ok_def list_all_iff)
  moreover have "map_option fst (due t now (j, r)) = Some x \<longleftrightarrow>
      must_unload t now r \<and> x = Unload j \<or> must_leave_gpu t now r \<and> x = DropGpuKeepCpu j"
    if "bt_get (rk_records t) j = Some r" for j r x
    using calculation(2) [OF that] by (auto simp: due_iff must_leave_gpu_def split: if_splits)
  ultimately show "Unload i \<in> set (List.map_filter (due_action t now) (rk_records t))
      \<longleftrightarrow> (\<exists>r. bt_get (rk_records t) i = Some r \<and> must_unload t now r)"
    and "DropGpuKeepCpu i \<in> set (List.map_filter (due_action t now) (rk_records t))
      \<longleftrightarrow> (\<exists>r. bt_get (rk_records t) i = Some r \<and> must_leave_gpu t now r)"
    by (metis (lifting) residency_action.distinct(1) residency_action.inject)+
qed

text \<open>The tracker after a successful pass, and that a second pass finds nothing to do.\<close>

definition after_maintenance :: "residency_tracker \<Rightarrow> nat \<Rightarrow> residency_tracker" where
  "after_maintenance t now =
     t\<lparr>rk_records := filter (\<lambda>e. rd_state (snd e) \<noteq> RsUnloaded) (map (maintained t now) (rk_records t))\<rparr>"

lemma maintenance_again:
  assumes "bt_wf (rk_records t)" and "clock_ok t now"
  shows "maintenance_actions now (after_maintenance t now) = Some (Inr [], after_maintenance t now)"
proof -
  let ?t = "after_maintenance t now"
  have settled: "due ?t now e = None" if "e \<in> set (rk_records ?t)" for e
    using that by (auto simp: after_maintenance_def due_def maintained_def maintenance_due_def split: if_splits)
  have "bt_wf (map (maintained t now) (rk_records t))" using assms(1) by (rule bt_wf_same_keys) simp
  then have "bt_wf (rk_records ?t)" by (auto simp: after_maintenance_def bt_wf_def sorted_wrt_map intro: sorted_wrt_filter)
  moreover have "clock_ok ?t now"
    using assms(2) by (auto simp: clock_ok_def list_all_iff after_maintenance_def maintained_def split: option.splits)
  ultimately have again: "maintenance_actions now ?t = Some (Inr (List.map_filter (due_action ?t now) (rk_records ?t)),
      ?t\<lparr>rk_records := filter (\<lambda>e. rd_state (snd e) \<noteq> RsUnloaded) (map (maintained ?t now) (rk_records ?t))\<rparr>)"
    by (rule maintenance_actions_ok)
  have "maintained ?t now e = e" if "e \<in> set (rk_records ?t)" for e using settled [OF that] by (simp add: maintained_def)
  then have "map (maintained ?t now) (rk_records ?t) = rk_records ?t" by (simp add: map_idI)
  moreover have "List.map_filter (due_action ?t now) (rk_records ?t) = []"
    using settled by (simp add: List.map_filter_def due_action_def filter_empty_conv)
  moreover have "filter (\<lambda>e. rd_state (snd e) \<noteq> RsUnloaded) (rk_records ?t) = rk_records ?t" by (simp add: after_maintenance_def)
  ultimately show ?thesis using again by simp
qed

lemma after_maintenance_get:
  assumes "bt_wf (rk_records t)" and "clock_ok t now"
  shows "bt_get (rk_records (after_maintenance t now)) i =
    (case bt_get (rk_records t) i of
       None \<Rightarrow> None
     | Some r \<Rightarrow>
         if must_unload t now r \<or> rd_state r = RsUnloaded then None
         else if must_leave_gpu t now r then Some (r\<lparr>rd_state := RsCpuResidentGpuCold\<rparr>) else Some r)"
proof (cases "bt_get (rk_records t) i")
  case (Some r)
  then have "rd_last_used_monotonic_millis r \<le> now" using assms by (auto simp: bt_get_in clock_ok_def list_all_iff)
  then have "snd (maintained t now (i, r)) = (if must_unload t now r then r\<lparr>rd_state := RsUnloaded\<rparr>
      else if must_leave_gpu t now r then r\<lparr>rd_state := RsCpuResidentGpuCold\<rparr> else r)"
    by (simp add: maintained_def due_iff)
  then show ?thesis
    using Some bt_get_map_filter [OF assms(1), of "maintained t now" "\<lambda>r. rd_state r \<noteq> RsUnloaded" i]
    by (auto simp: after_maintenance_def must_leave_gpu_def)
next
  case None
  then show ?thesis using bt_get_map_filter [OF assms(1), of "maintained t now" "\<lambda>r. rd_state r \<noteq> RsUnloaded" i]
    by (simp add: after_maintenance_def)
qed

lemma maintenance_clock_error:
  assumes "bt_wf (rk_records t)" and "\<not> clock_ok t now"
  shows "\<exists>t'. maintenance_actions now t = Some (Inl ResidencyClockWentBackward, t')"
proof -
  from assms(2) obtain i r where "(i, r) \<in> set (rk_records t)" "now < rd_last_used_monotonic_millis r"
    by (auto simp: clock_ok_def list_all_iff not_le)
  then have "\<exists>j x. j \<in> set (map fst (rk_records t)) \<and> bt_get (rk_records t) j = Some x \<and> now < rd_last_used_monotonic_millis x"
    using bt_get_in [OF assms(1)] by force
  then obtain t' where "maintain now (map fst (rk_records t)) t = Some (Inl ResidencyClockWentBackward, t')"
    using maintain_error [OF assms(1) _ bt_wf_distinct [OF assms(1)]] by auto
  then show ?thesis by (simp add: maintenance_actions_def)
qed

text \<open>
  C34. Maintenance of a reachable tracker at a time that is not before the last use of any model asks to unload exactly the models
  not used for the unload time, and to take off the GPU exactly those others that are warm there, have a CPU fallback and were
  not used for the warm time, each model once and in the order of the revisions. Unloaded models are forgotten (also
  those that a failed pass before had marked), the models taken off the GPU are recorded as such and nothing else changes; doing
  it again at once returns nothing and changes nothing. At an earlier time it fails.
\<close>

theorem maintenance_is_exact_and_idempotent:
  assumes "residency_reachable t"
  shows "if (\<forall>i r. bt_get (rk_records t) i = Some r \<longrightarrow> rd_last_used_monotonic_millis r \<le> now)
    then (\<exists>actions t'. maintenance_actions now t = Some (Inr actions, t')
      \<and> (\<forall>i. Unload i \<in> set actions \<longleftrightarrow> (\<exists>r. bt_get (rk_records t) i = Some r \<and> must_unload t now r))
      \<and> (\<forall>i. DropGpuKeepCpu i \<in> set actions \<longleftrightarrow> (\<exists>r. bt_get (rk_records t) i = Some r \<and> must_leave_gpu t now r))
      \<and> sorted_wrt (<) (map action_model actions)
      \<and> (\<forall>i. bt_get (rk_records t') i =
           (case bt_get (rk_records t) i of
              None \<Rightarrow> None
            | Some r \<Rightarrow>
                if must_unload t now r \<or> rd_state r = RsUnloaded then None
                else if must_leave_gpu t now r then Some (r\<lparr>rd_state := RsCpuResidentGpuCold\<rparr>) else Some r))
      \<and> rk_keep_warm_millis t' = rk_keep_warm_millis t \<and> rk_unload_ttl_millis t' = rk_unload_ttl_millis t
      \<and> maintenance_actions now t' = Some (Inr [], t'))
    else (\<exists>t'. maintenance_actions now t = Some (Inl ResidencyClockWentBackward, t'))"
proof -
  have wf: "bt_wf (rk_records t)" using residency_wf [OF assms] by simp
  have clock: "(\<forall>i r. bt_get (rk_records t) i = Some r \<longrightarrow> rd_last_used_monotonic_millis r \<le> now) \<longleftrightarrow> clock_ok t now"
    by (auto simp: clock_ok_def list_all_iff bt_get_in [OF wf])
  show ?thesis
  proof (cases "clock_ok t now")
    case True
    have "sorted_wrt (<) (map action_model (List.map_filter (due_action t now) (rk_records t)))"
      using wf by (auto simp: action_models bt_wf_def sorted_wrt_map intro: sorted_wrt_filter)
    moreover have "maintenance_actions now t = Some (Inr (List.map_filter (due_action t now) (rk_records t)), after_maintenance t now)"
      using maintenance_actions_ok [OF wf True] by (simp add: after_maintenance_def)
    moreover have "rk_keep_warm_millis (after_maintenance t now) = rk_keep_warm_millis t"
      "rk_unload_ttl_millis (after_maintenance t now) = rk_unload_ttl_millis t" by (simp_all add: after_maintenance_def)
    ultimately show ?thesis
      unfolding clock using True due_actions_iff [OF wf True] after_maintenance_get [OF wf True] maintenance_again [OF wf True] by auto
  next
    case False
    then show ?thesis unfolding clock using maintenance_clock_error [OF wf False] by simp
  qed
qed

section \<open>An action that is lost\<close>

definition pack_a :: pack_revision where "pack_a = PackRevision (lit ''a'') (lit ''1'')"

definition pack_b :: pack_revision where "pack_b = PackRevision (lit ''b'') (lit ''1'')"

definition two_models :: residency_tracker where
  "two_models = \<lparr>rk_keep_warm_millis = 30000, rk_unload_ttl_millis = 120000,
     rk_records = [(pack_a, \<lparr>rd_identity = pack_a, rd_state = RsGpuWarm, rd_cpu_fallback_supported = True, rd_last_used_monotonic_millis = 1\<rparr>),
                   (pack_b, \<lparr>rd_identity = pack_b, rd_state = RsGpuWarm, rd_cpu_fallback_supported = True, rd_last_used_monotonic_millis = 60000\<rparr>)]\<rparr>"

lemma pack_order: "pack_a \<noteq> pack_b" "pack_b \<noteq> pack_a" "pack_a < pack_b"
  by (simp_all add: pack_a_def pack_b_def less_pack_revision_def revision_key_def lit_def)

lemma two_models_reachable: "residency_reachable two_models"
proof -
  have start: "new_residency_tracker default_governor_policy = Inr (two_models\<lparr>rk_records := []\<rparr>)"
    by (simp add: new_residency_tracker_def validate_governor_policy_def default_governor_policy_def BASIS_POINTS_def two_models_def)
  have "two_models = snd (record_loaded pack_b RsGpuWarm True 60000 (snd (record_loaded pack_a RsGpuWarm True 1 (two_models\<lparr>rk_records := []\<rparr>))))"
    using pack_order by (simp add: record_loaded_def two_models_def)
  then show ?thesis using residency_reachable.start [OF start] by (metis residency_reachable.loaded)
qed

theorem maintenance_is_exact_and_idempotent_witness:
  "\<exists>actions t'. maintenance_actions 70000 two_models = Some (Inr actions, t') \<and> DropGpuKeepCpu pack_a \<in> set actions
     \<and> DropGpuKeepCpu pack_b \<notin> set actions \<and> maintenance_actions 70000 t' = Some (Inr [], t')"
proof -
  have get: "bt_get (rk_records two_models) i = (if i = pack_a then Some \<lparr>rd_identity = pack_a, rd_state = RsGpuWarm,
        rd_cpu_fallback_supported = True, rd_last_used_monotonic_millis = 1\<rparr>
      else if i = pack_b then Some \<lparr>rd_identity = pack_b, rd_state = RsGpuWarm, rd_cpu_fallback_supported = True,
        rd_last_used_monotonic_millis = 60000\<rparr> else None)" for i
    by (simp add: two_models_def)
  have clock: "\<forall>i r. bt_get (rk_records two_models) i = Some r \<longrightarrow> rd_last_used_monotonic_millis r \<le> 70000" by (simp add: get)
  from maintenance_is_exact_and_idempotent [OF two_models_reachable, of 70000, unfolded if_P [OF clock]]
  obtain actions t' where m: "maintenance_actions 70000 two_models = Some (Inr actions, t')" "maintenance_actions 70000 t' = Some (Inr [], t')"
    and drop: "\<forall>i. DropGpuKeepCpu i \<in> set actions \<longleftrightarrow> (\<exists>r. bt_get (rk_records two_models) i = Some r \<and> must_leave_gpu two_models 70000 r)"
    by blast
  have "DropGpuKeepCpu pack_a \<in> set actions" "DropGpuKeepCpu pack_b \<notin> set actions"
    using pack_order by (simp_all add: drop get must_leave_gpu_def must_unload_def, simp_all add: two_models_def)
  with m show ?thesis by blast
qed

text \<open>The first model is marked as moved off the GPU and the error of the second one hides that this is still to be done: no later
  pass asks for it.\<close>

lemma maintenance_error_loses_action:
  "\<exists>t'. maintenance_actions 50000 two_models = Some (Inl ResidencyClockWentBackward, t')
     \<and> maintenance_actions 80000 t' = Some (Inr [], t')"
  using pack_order by (simp add: maintenance_actions_def two_models_def maintenance_due_def)

end
