(* ===== verification/Spec2Isabelle.thy ===== *)
theory Spec2Isabelle
  imports Supervisor_Properties Response_Decoding Delivered_Spans Protocol_Channel Qualified_Properties
    Scheduler_Properties Residency_Properties
begin

text \<open>
  A verification library for the native runtime of Interactive LLM Powered NPCs: the crates \<open>runtime-core\<close>,
  \<open>protocol\<close>, \<open>identity-engine\<close> and, of \<open>model-manager\<close>, the parts that decide rather than move files. Every
  definition is a translation of the Rust sources under \<open>src/crates\<close>; the theorems hold for all inputs, all
  configurations and, where time and outside code matter, for all behaviours of them.

  \<^bold>\<open>The program.\<close> A player speaks to a character of a game. The \<open>TurnSupervisor\<close> starts a turn under a fresh
  cancellation generation, admits it through the \<open>ResourceBroker\<close>, and runs three lanes: the language model lane
  streams a response through the structured response adapter and the sentence segmenter into a channel of
  sentences; the speech lane synthesizes and plays them; the effects lane asks for expressions and actions.
  Which provider a lane may call is decided by the routing policy, and whether it is tried by the circuit breaker
  of that provider. What was delivered goes to the memory store. Barge-in and shutdown cancel a turn at any moment.
  The protocol carries the events of a turn to other processes. The identity engine tells the runtime which
  character is on the screen. The model manager decides which model packs are genuine, whether a set of models fits
  the machine, and in which order native work is done.

  \<^bold>\<open>Foundations.\<close>
  \<^item> \<open>Prelude\<close>: Rust strings as lists of Unicode scalar values with UTF-8 byte offsets, saturating arithmetic,
    results as sums, hash maps as association lists, the shared lemmas and collections of simplification rules.
  \<^item> \<open>Ordered_Maps\<close> (\<open>BTreeMap\<close>), \<open>Comparators\<close> (\<open>sort_by\<close>), \<open>Watermarks\<close> (checked streams of messages).
  \<^item> \<open>Float32\<close>, \<open>Float_Bounds\<close>: IEEE binary32 with correct rounding, executable, and bounds of its results.

  \<^bold>\<open>crates/runtime-core.\<close>
  \<^item> \<open>Runtime_Types\<close> (\<open>types.rs\<close>, the errors of \<open>provider.rs\<close>): the data model and its validation.
  \<^item> \<open>Routing_Policy\<close> (\<open>policy.rs\<close>): \<open>evaluate\<close>, \<open>allows_transition\<close>, \<open>candidates\<close>. The candidates of a request are exactly
    the providers that it permits and that can be reached from the first of them, in order; nothing leaves the machine, and nothing
    is retained elsewhere, against the policy.
  \<^item> \<open>Generation_Tokens\<close> (\<open>cancellation.rs\<close>), \<open>Circuit_Breaker\<close> (\<open>circuit_breaker.rs\<close>), \<open>Timing_Spans\<close> (\<open>timing.rs\<close>):
    the state machines of cancellation and of a breaker with 32-bit counters; an open breaker grants
    its probes after the open period and closes with the configured number of successes.
  \<^item> \<open>Sentence_Segmenter\<close> (\<open>sentence.rs\<close>): over any sequence of pushes the spans are exact, ordered slices that cover all
    text but white space, and the loop returns on ordinary text.
  \<^item> \<open>Broker_Types\<close>, \<open>Broker_Accounting\<close>, \<open>Resource_Broker\<close> (\<open>resource_broker.rs\<close>): the broker state as a record, each public
    operation as a function of the state and of what telemetry answered. \<open>Broker_Invariants\<close> makes them a step relation;
    \<open>Broker_Properties\<close> shows that admitted jobs fit the budgets, that the slots and sums are exactly those of the running
    jobs in every reachable state, the order of the queue, and the recovery from memory exhaustion.
  \<^item> \<open>Structured_Response\<close>, \<open>Response_Adapter\<close>, \<open>Response_Decoding\<close>, \<open>Delivered_Spans\<close> (\<open>structured_response.rs\<close>): the envelope,
    the strict and the tolerant decoder, the speech-first scanner, the streaming adapter and the delivered-span
    tracker. What the adapter hands out is a segmentation of the validated spoken response and never raw output: before the
    end it is the decoded speech field of an object with a known schema marker. An invalid optional part never costs the speech and
    is replaced by its neutral value, a valid one is kept; the committed dialogue is made of exact, ordered spans.
  \<^item> \<open>Turn_Lanes\<close>, \<open>Turn_Execution\<close> (\<open>supervisor.rs\<close>): the lanes and \<open>run_turn\<close> as state transformers. \<open>Lane_Logic\<close> has their
    rules (frames, triples), \<open>Lane_Properties\<close>, \<open>Turn_Properties\<close> and \<open>Turn_Progress\<close> what they promise: one provider
    speaks, each sentence is delivered once and in order, the outcome tells what was delivered, and an undisturbed
    turn completes.
  \<^item> \<open>Turn_Supervisor\<close>, \<open>Supervisor_Properties\<close> (\<open>supervisor.rs\<close>): the world of callers and tasks as a step relation over all
    interleavings. At most one turn is live; the active turn refines a one-slot specification; barge-in
    silences every turn; an admitted turn holds a lease on a target that the routing policy of its request allows.

  \<^bold>\<open>crates/protocol.\<close> \<open>Protocol_Version\<close> (\<open>version.rs\<close>, \<open>safety.rs\<close>), \<open>Protocol_Events\<close> (\<open>ids.rs\<close>, \<open>error.rs\<close>, \<open>events.rs\<close>),
  \<open>Protocol_Effects\<close> (\<open>effects.rs\<close>), \<open>Protocol_Envelope\<close> and \<open>Protocol_Channel\<close> (\<open>envelope.rs\<close>): validation of everything on
  the wire, frames that decode to what was encoded, and a sequence tracker under which accepted envelopes arrive in order.

  \<^bold>\<open>crates/identity-engine.\<close> \<open>Identity_Embedding\<close> (\<open>geometry.rs\<close>, \<open>embedding.rs\<close>), \<open>Actor_Tracker\<close> and \<open>Tracker_Properties\<close>
  (\<open>tracker.rs\<close>), \<open>Identity_Resolver\<close>, \<open>Resolver_Properties\<close> and \<open>Resolver_Evidence\<close> (\<open>identity.rs\<close>), \<open>Identity_Engine\<close> and
  \<open>Engine_Properties\<close> (\<open>engine.rs\<close>), \<open>Qualified_Identity\<close> and \<open>Qualified_Properties\<close> (\<open>qualified.rs\<close>). The association of detections
  with tracks is a stable matching by score, an update leaves every track in the state that its detection or its absence calls for, similarities are numbers
  in range, an actor is identified only on sufficient evidence, the records of the resolver are those of live
  tracks, an import of reference data is atomic, and captured frames are admitted only once and in order.

  \<^bold>\<open>crates/model-manager.\<close> \<open>Archive_Paths\<close> (\<open>archive.rs\<close>), \<open>Pack_Manifests\<close> (\<open>manifest.rs\<close>), \<open>Signed_Catalogs\<close> (\<open>catalog.rs\<close>); of
  \<open>resource_governor.rs\<close> the signed measurements (\<open>Measured_Envelopes\<close>), admission of loadouts and residency
  (\<open>Loadout_Admission\<close>, \<open>Residency_Properties\<close>) and the scheduler of native work (\<open>Work_Scheduler\<close>,
  \<open>Scheduler_Properties\<close>). An accepted path stays below its directory; an archive is accepted exactly within its policy; the
  catalog never goes back and never rewrites a revision; maintenance unloads exactly the idle models; a loadout is admitted exactly when the sums of the natural
  numbers fit; the scheduler refines a priority order, accounts for every item and never panics.

  \<^bold>\<open>Conventions.\<close>
  \<^item> An operation on a mutable object takes and returns its state; one that fails returns the state it leaves behind,
    because the error exits of the sources keep earlier writes. Errors are values of the sources' error types in a
    sum; the value \<open>None\<close> of an operation is a panic (a slice off a character boundary, a failed \<open>expect\<close>).
  \<^item> Specifications are definitions of their own (\<open>request_permits\<close>, \<open>must_unload\<close>, \<open>no_file_parent\<close>, \<open>followed\<close>, \<open>outranks\<close>,
    \<open>faithful_response\<close>, \<open>complete_fields\<close> and others), written without the helpers of the code and related to them by lemmas.
  \<^item> Operations under one mutex are one atomic function. So is a barge-in under the start gate, although the code releases the lock of
    the current turn before it cancels it: in between \<open>active_turn\<close> can return nothing for a turn that is about to be cancelled. Several callers and tasks are interleaved by \<open>world_step\<close>.
    The three lanes of a turn run one after the other in the model; each asks the environment \<open>lane_env\<close> anew for
    cancellation, the clock and the answers of providers, so that each may end at any point whatever the others did.
  \<^item> Counters that wrap or are checked at their width on the wire are words (\<open>u32\<close> in the breaker, versions,
    sequence numbers); byte counts and milliseconds are natural numbers with the saturating or checked
    operations written out against \<open>u64_max\<close>.
  \<^item> No definition uses fuel. Loops over lists are structural; the splitting loop of the segmenter, the field scanner
    and the integer square root have a termination measure.

  \<^bold>\<open>Parameters.\<close> Code outside the repository is an argument: the token library of \<open>tokio_util\<close> (\<open>token_api\<close> with
  \<open>token_laws\<close>), \<open>serde_json\<close>, the generated protocol-buffer code (\<open>wire_api\<close> with \<open>wire_faithful\<close>), SHA-256 and \<open>hex\<close>, the
  verifier of signatures, \<open>f32::hypot\<close>, the sign of an undefined number (which IEEE leaves open and \<open>total_cmp\<close> looks at), telemetry, the planner of the host and all providers. Theorems that need
  a law of them name it as a hypothesis and have a witness with a concrete instance.

  \<^bold>\<open>Interfaces.\<close> \<open>privacy_gate\<close> (a filter that lets no data out against the policy) is interpreted on the
  routing policy and on the broker's privacy context; \<open>telemetry_source\<close> on the reported telemetry; \<open>keyed_cells\<close> on the
  circuit registry; \<open>total_comparator\<close> on the orders of candidates and of scores; \<open>ordered_map\<close> on sorted lists; \<open>watermark\<close>
  on the sequence, contiguity and generation marks of a channel, on catalog versions and on streams of measurements;
  \<open>lease_desk\<close> (what the supervisor relies on when it takes and returns a lease) on the resource broker.

  \<^bold>\<open>Deviations found.\<close> Lemmas beside the properties show behaviours the sources do not intend:
  \<open>segmenter_panics_on_blank_segment\<close>, \<open>half_open_limit_counts_stale_permits\<close>, \<open>late_registration_leaks_vram\<close>,
  \<open>clear_quarantine_forgets_running_job\<close>, \<open>utterance_binding_overwritten\<close>, \<open>superseding_start_is_refused\<close>,
  \<open>turn_starts_after_shutdown\<close>, \<open>refused_job_stays_queued\<close>, \<open>file_parent_depends_on_order\<close>, \<open>case_folding_is_ascii_only\<close>,
  \<open>admission_ignores_provider_fallback\<close>, \<open>maintenance_error_loses_action\<close> and \<open>version_zero_is_not_pinned\<close>.

  \<^bold>\<open>Not modelled.\<close> The payloads of audio streams, which the core only forwards; the static descriptors of the protocol
  (\<open>model.rs\<close>, \<open>profile.rs\<close>, \<open>provider.rs\<close>); downloads, extraction and the installation journal of the model manager, which
  are file system and network code; the adapters of speech, recognition, language and retrieval services; the databases
  (\<open>memory\<close>, \<open>character-db\<close>), subtitles, diagnostics, game discovery and profiles, the credential vault, system telemetry,
  and the applications around the core.
\<close>

end
